(* ===== verification/Py_Prelude.thy ===== *)
theory Py_Prelude
  imports Complex_Main "HOL-Library.AList" "HOL-Library.Multiset"
begin

text \<open>
  Shared vocabulary of the development: Python's exceptions as values, floats with their
  non-finite values, insertion-ordered dictionaries, date-times, and the lemmas on them
  that the component theories use through simp and the collections declared here.
\<close>

named_theorems result_simps \<open>equations that run and invert computations that may raise\<close>
named_theorems float_simps \<open>equations of float comparisons on finite values\<close>

section \<open>Exceptions as values\<close>

text \<open>
  An exception carries its class and, where the source writes one, the fixed part of its
  message (the interpolated values of an f-string are left out).
\<close>

datatype py_error =
    ValueError string
  | TypeError string
  | KeyError
  | IndexError
  | ZeroDivisionError
  | RuntimeError string
  | AssertionError

type_synonym 'a result = "py_error + 'a"

definition rbind :: "'e + 'a \<Rightarrow> ('a \<Rightarrow> 'e + 'b) \<Rightarrow> 'e + 'b" where
  "rbind m f = (case m of Inl e \<Rightarrow> Inl e | Inr a \<Rightarrow> f a)"

lemma rbind_Inl [simp]: "rbind (Inl e) f = Inl e"
  by (simp add: rbind_def)

lemma rbind_Inr [simp]: "rbind (Inr a) f = f a"
  by (simp add: rbind_def)

lemma rbind_eq_Inr [result_simps]: "rbind m f = Inr b \<longleftrightarrow> (\<exists>a. m = Inr a \<and> f a = Inr b)"
  by (cases m) auto

lemma rbind_eq_Inl [result_simps]:
  "rbind m f = Inl e \<longleftrightarrow> m = Inl e \<or> (\<exists>a. m = Inr a \<and> f a = Inl e)"
  by (cases m) auto

lemma rbind_assoc: "rbind (rbind m f) g = rbind m (\<lambda>a. rbind (f a) g)"
  by (cases m) auto

lemma rbind_cong [fundef_cong]:
  "m = m' \<Longrightarrow> (\<And>a. m' = Inr a \<Longrightarrow> f a = f' a) \<Longrightarrow> rbind m f = rbind m' f'"
  by (cases m') auto

text \<open>A loop whose body may raise: the first exception ends it.\<close>

fun rfold :: "('a \<Rightarrow> 's \<Rightarrow> 'e + 's) \<Rightarrow> 'a list \<Rightarrow> 's \<Rightarrow> 'e + 's" where
  "rfold f [] s = Inr s"
| "rfold f (x # xs) s = rbind (f x s) (rfold f xs)"

lemma rfold_append: "rfold f (xs @ ys) s = rbind (rfold f xs s) (rfold f ys)"
proof (induction xs arbitrary: s)
  case (Cons x xs)
  then show ?case
    by (cases "f x s") auto
qed simp

text \<open>An invariant that every iteration keeps, and under which no iteration raises.\<close>

lemma rfold_total:
  assumes "\<And>x s. x \<in> set xs \<Longrightarrow> P s \<Longrightarrow> \<exists>t. f x s = Inr t \<and> P t" and "P s"
  shows "\<exists>t. rfold f xs s = Inr t \<and> P t"
  using assms
proof (induction xs arbitrary: s)
  case Nil
  then show ?case by simp
next
  case (Cons x xs)
  then obtain t where "f x s = Inr t" and "P t"
    by fastforce
  with Cons show ?case by simp
qed

lemma rfold_invariant:
  assumes "\<And>x s t. x \<in> set xs \<Longrightarrow> P s \<Longrightarrow> f x s = Inr t \<Longrightarrow> P t"
    and "rfold f xs s = Inr t" and "P s"
  shows "P t"
  using assms
proof (induction xs arbitrary: s)
  case Nil
  then show ?case by simp
next
  case (Cons x xs)
  from Cons.prems(2) obtain u where "f x s = Inr u" and "rfold f xs u = Inr t"
    by (auto simp: result_simps)
  moreover have "P u"
    using Cons.prems(1) [of x s u] Cons.prems(3) \<open>f x s = Inr u\<close> by simp
  ultimately show ?case
    using Cons.IH [of u] Cons.prems(1) by (meson list.set_intros(2))
qed

section \<open>Floats\<close>

text \<open>
  A finite float is an exact real: rounding and overflow are not modelled. Infinities and
  NaN are values wherever the source tests for them or produces them. Comparisons follow
  IEEE 754: every comparison with NaN is false.
\<close>

datatype xfloat = Fin real | PosInf | NegInf | NaN

fun isfinite :: "xfloat \<Rightarrow> bool" where
  "isfinite (Fin _) = True"
| "isfinite _ = False"

fun fin_val :: "xfloat \<Rightarrow> real" where
  "fin_val (Fin r) = r"
| "fin_val _ = 0"

instantiation xfloat :: ord
begin

fun less_xfloat :: "xfloat \<Rightarrow> xfloat \<Rightarrow> bool" where
  "less_xfloat (Fin a) (Fin b) = (a < b)"
| "less_xfloat (Fin a) PosInf = True"
| "less_xfloat NegInf (Fin b) = True"
| "less_xfloat NegInf PosInf = True"
| "less_xfloat _ _ = False"

fun less_eq_xfloat :: "xfloat \<Rightarrow> xfloat \<Rightarrow> bool" where
  "less_eq_xfloat NaN _ = False"
| "less_eq_xfloat _ NaN = False"
| "less_eq_xfloat (Fin a) (Fin b) = (a \<le> b)"
| "less_eq_xfloat NegInf _ = True"
| "less_eq_xfloat _ PosInf = True"
| "less_eq_xfloat _ _ = False"

instance ..

end

lemma isfinite_iff: "isfinite x \<longleftrightarrow> x = Fin (fin_val x)"
  by (cases x) auto

lemma isfinite_Ex [float_simps]: "isfinite x \<longleftrightarrow> (\<exists>r. x = Fin r)"
  by (cases x) auto

text \<open>Python's \<open>/\<close> on floats raises at a zero divisor.\<close>

definition fdiv :: "real \<Rightarrow> real \<Rightarrow> real result" where
  "fdiv a b = (if b = 0 then Inl ZeroDivisionError else Inr (a / b))"

lemma fdiv_nonzero [simp]: "b \<noteq> 0 \<Longrightarrow> fdiv a b = Inr (a / b)"
  by (simp add: fdiv_def)

section \<open>Dictionaries\<close>

text \<open>
  A dict is its list of items in insertion order, with distinct keys: \<open>d[k] = v\<close> replaces
  the value in place or appends the item, \<open>del d[k]\<close> removes the item, and iteration
  follows the list.
\<close>

type_synonym ('k, 'v) dict = "('k \<times> 'v) list"

definition dict_ok :: "('k, 'v) dict \<Rightarrow> bool" where
  "dict_ok d \<longleftrightarrow> distinct (map fst d)"

definition dict_get :: "('k, 'v) dict \<Rightarrow> 'k \<Rightarrow> 'v option" where
  "dict_get d k = map_of d k"

definition dict_item :: "('k, 'v) dict \<Rightarrow> 'k \<Rightarrow> 'v result" where
  "dict_item d k = (case map_of d k of None \<Rightarrow> Inl KeyError | Some v \<Rightarrow> Inr v)"

definition dict_default :: "('k, 'v) dict \<Rightarrow> 'k \<Rightarrow> 'v \<Rightarrow> 'v" where
  "dict_default d k v = (case map_of d k of None \<Rightarrow> v | Some w \<Rightarrow> w)"

definition dict_set :: "('k, 'v) dict \<Rightarrow> 'k \<Rightarrow> 'v \<Rightarrow> ('k, 'v) dict" where
  "dict_set d k v = AList.update k v d"

definition dict_del :: "('k, 'v) dict \<Rightarrow> 'k \<Rightarrow> ('k, 'v) dict" where
  "dict_del d k = AList.delete k d"

definition dict_update :: "('k, 'v) dict \<Rightarrow> ('k, 'v) dict \<Rightarrow> ('k, 'v) dict" where
  "dict_update d e = fold (\<lambda>(k, v) acc. dict_set acc k v) e d"

text \<open>What a client may rely on, stated once as an interface.\<close>

locale ordered_dict =
  fixes get :: "'d \<Rightarrow> 'k \<Rightarrow> 'v option"
    and set_item :: "'d \<Rightarrow> 'k \<Rightarrow> 'v \<Rightarrow> 'd"
    and del_item :: "'d \<Rightarrow> 'k \<Rightarrow> 'd"
    and items :: "'d \<Rightarrow> ('k \<times> 'v) list"
    and ok :: "'d \<Rightarrow> bool"
  assumes get_items: "ok d \<Longrightarrow> get d k = Some v \<longleftrightarrow> (k, v) \<in> set (items d)"
    and get_set_item: "get (set_item d k v) k' = (if k' = k then Some v else get d k')"
    and get_del_item: "get (del_item d k) k' = (if k' = k then None else get d k')"
    and items_set_fresh: "get d k = None \<Longrightarrow> items (set_item d k v) = items d @ [(k, v)]"
    and items_del: "items (del_item d k) = filter (\<lambda>i. fst i \<noteq> k) (items d)"
    and keys_distinct: "ok d \<Longrightarrow> distinct (map fst (items d))"
    and ok_set: "ok d \<Longrightarrow> ok (set_item d k v)"
    and ok_del: "ok d \<Longrightarrow> ok (del_item d k)"
begin

lemma get_None: "ok d \<Longrightarrow> get d k = None \<longleftrightarrow> k \<notin> fst ` set (items d)"
  using get_items [of d k] by (cases "get d k") force+

lemma del_fresh: "ok d \<Longrightarrow> get d k = None \<Longrightarrow> items (del_item d k) = items d"
  by (force simp: items_del get_None intro!: filter_True)

lemma set_then_del:
  assumes "ok d" and "get d k = None"
  shows "items (del_item (set_item d k v) k) = items d"
proof -
  have "items (del_item (set_item d k v) k) = filter (\<lambda>i. fst i \<noteq> k) (items d)"
    using assms(2) by (simp add: items_del items_set_fresh)
  also have "\<dots> = items d"
    using del_fresh [OF assms] by (simp add: items_del)
  finally show ?thesis .
qed

text \<open>A sum over the values changes by exactly the item that is added or removed.\<close>

lemma sum_set_fresh:
  fixes f :: "'k \<times> 'v \<Rightarrow> real"
  shows "get d k = None \<Longrightarrow>
    sum_list (map f (items (set_item d k v))) = sum_list (map f (items d)) + f (k, v)"
  by (simp add: items_set_fresh)

lemma sum_del:
  fixes f :: "'k \<times> 'v \<Rightarrow> real"
  assumes "ok d" and "get d k = Some v"
  shows "sum_list (map f (items (del_item d k))) = sum_list (map f (items d)) - f (k, v)"
proof -
  have aux: "distinct (map fst l) \<Longrightarrow> (k, v) \<in> set l \<Longrightarrow>
    sum_list (map f (filter (\<lambda>i. fst i \<noteq> k) l)) = sum_list (map f l) - f (k, v)" for l
  proof (induction l)
    case Nil
    then show ?case by simp
  next
    case (Cons a l)
    show ?case
    proof (cases "fst a = k")
      case True
      with Cons.prems have fresh: "\<forall>i\<in>set l. fst i \<noteq> k"
        by (auto simp: image_iff)
      with Cons.prems(2) have "a = (k, v)"
        by auto
      with fresh show ?thesis by (simp add: filter_True)
    next
      case False
      with Cons show ?thesis by auto
    qed
  qed
  from assms show ?thesis
    by (simp add: items_del aux keys_distinct get_items)
qed

end

interpretation dict: ordered_dict dict_get dict_set dict_del "\<lambda>d. d" dict_ok
proof (unfold_locales, goal_cases)
  case (1 d k v)
  then show ?case by (simp add: dict_get_def dict_ok_def map_of_eq_Some_iff)
next
  case (2 d k v k')
  then show ?case by (simp add: dict_get_def dict_set_def update_conv)
next
  case (3 d k k')
  then show ?case by (simp add: dict_get_def dict_del_def delete_conv)
next
  case (4 d k v)
  then show ?case
    by (induction d) (auto simp: dict_get_def dict_set_def split: if_splits)
next
  case (5 d k)
  then show ?case by (auto simp: dict_del_def AList.delete_eq intro!: filter_cong)
next
  case (6 d)
  then show ?case by (simp add: dict_ok_def)
next
  case (7 d k v)
  then show ?case by (simp add: dict_ok_def dict_set_def distinct_update)
next
  case (8 d k)
  then show ?case by (simp add: dict_ok_def dict_del_def distinct_delete)
qed

lemmas dict_laws = dict.get_set_item dict.get_del_item dict.ok_set dict.ok_del

lemma dict_ok_Nil [simp]: "dict_ok []"
  by (simp add: dict_ok_def)

lemma dict_get_Nil [simp]: "dict_get [] k = None"
  by (simp add: dict_get_def)

lemma dict_item_get: "dict_item d k = Inr v \<longleftrightarrow> dict_get d k = Some v"
  by (auto simp: dict_item_def dict_get_def split: option.splits)

lemma dict_default_get: "dict_default d k v = (case dict_get d k of None \<Rightarrow> v | Some w \<Rightarrow> w)"
  by (simp add: dict_default_def dict_get_def)

lemma dict_update_ok: "dict_ok d \<Longrightarrow> dict_ok (dict_update d e)"
  unfolding dict_update_def
  by (induction e arbitrary: d) (auto simp: dict.ok_set)

lemma dict_update_single: "dict_update d [(k, v)] = dict_set d k v"
  by (simp add: dict_update_def)

section \<open>Date-times\<close>

text \<open>
  A \<open>datetime\<close> is its instant in microseconds since 1970-01-01 UTC, a difference of two a
  number of microseconds.
\<close>

type_synonym datetime = int

definition total_seconds :: "int \<Rightarrow> real" where
  "total_seconds d = real_of_int d / 1000000"

definition elapsed_days :: "datetime \<Rightarrow> datetime \<Rightarrow> real" where
  "elapsed_days later earlier = total_seconds (later - earlier) / 86400"

lemma elapsed_days_pos: "earlier < later \<Longrightarrow> 0 < elapsed_days later earlier"
  by (simp add: elapsed_days_def total_seconds_def)

lemma elapsed_days_add:
  "elapsed_days c b + elapsed_days b a = elapsed_days c a"
  by (simp add: elapsed_days_def total_seconds_def diff_divide_distrib)

text \<open>The proleptic Gregorian date of an instant, and \<open>strftime("%Y-%m-%d")\<close>.\<close>

definition civil_date :: "datetime \<Rightarrow> int \<times> int \<times> int" where
  "civil_date t =
     (let z = t div 86400000000 + 719468;
          era = z div 146097;
          doe = z mod 146097;
          yoe = (doe - doe div 1460 + doe div 36524 - doe div 146096) div 365;
          doy = doe - (365 * yoe + yoe div 4 - yoe div 100);
          mp = (5 * doy + 2) div 153;
          d = doy - (153 * mp + 2) div 5 + 1;
          m = (if mp < 10 then mp + 3 else mp - 9)
      in (yoe + era * 400 + (if m \<le> 2 then 1 else 0), m, d))"

fun digits_of :: "nat \<Rightarrow> int \<Rightarrow> string" where
  "digits_of 0 n = []"
| "digits_of (Suc w) n = digits_of w (n div 10) @ [char_of (nat (48 + n mod 10))]"

definition strftime_ymd :: "datetime \<Rightarrow> string" where
  "strftime_ymd t =
     (case civil_date t of (y, m, d) \<Rightarrow>
        digits_of 4 y @ ''-'' @ digits_of 2 m @ ''-'' @ digits_of 2 d)"

lemma length_digits_of [simp]: "length (digits_of w n) = w"
  by (induction w arbitrary: n) auto

lemma length_strftime_ymd: "length (strftime_ymd t) = 10"
  by (simp add: strftime_ymd_def split: prod.splits)

section \<open>Lists\<close>

text \<open>\<open>xs[-n:]\<close> for a positive \<open>n\<close>, which is also what a \<open>deque(maxlen=n)\<close> keeps.\<close>

definition last_n :: "nat \<Rightarrow> 'a list \<Rightarrow> 'a list" where
  "last_n n xs = drop (length xs - n) xs"

lemma length_last_n [simp]: "length (last_n n xs) = min n (length xs)"
  by (simp add: last_n_def)

lemma set_last_n: "set (last_n n xs) \<subseteq> set xs"
  by (simp add: last_n_def set_drop_subset)

lemma last_n_all: "length xs \<le> n \<Longrightarrow> last_n n xs = xs"
  by (simp add: last_n_def)

text \<open>A bounded deque that is fed a sequence holds the sequence's last elements.\<close>

lemma last_n_snoc: "last_n n (last_n n xs @ [x]) = last_n n (xs @ [x])"
proof (cases "n = 0")
  case True
  then show ?thesis by (simp add: last_n_def)
next
  case False
  then show ?thesis
    by (cases "length xs \<le> n") (auto simp: last_n_def Suc_diff_le)
qed

lemma sum_list_pos:
  fixes xs :: "real list"
  shows "xs \<noteq> [] \<Longrightarrow> (\<And>x. x \<in> set xs \<Longrightarrow> 0 < x) \<Longrightarrow> 0 < sum_list xs"
proof (induction xs)
  case Nil
  then show ?case by simp
next
  case (Cons a xs)
  then show ?case by (cases "xs = []") (auto simp: add_pos_pos)
qed

end
