(* ===== verification/Market_Models.thy ===== *)
theory Market_Models
  imports Py_Prelude
begin

text \<open>
  The data model of \<open>src/models\<close> (\<open>candle.py\<close>, \<open>order.py\<close>, \<open>trade.py\<close>) and
  the events of \<open>src/engine/event.py\<close>. A dataclass is a record; its
  \<open>__post_init__\<close> is a function that returns the record or the exception. The lemmas
  give the facts that a constructed value satisfies and the arithmetic of a trade's profit.
\<close>

section \<open>Candles\<close>

record candle =
  c_timestamp :: datetime
  c_open :: real
  c_high :: real
  c_low :: real
  c_close :: real
  c_volume :: real
  c_adj_close :: real

definition candle_post_init :: "candle \<Rightarrow> candle result" where
  "candle_post_init c =
     (if \<not> (c_low c \<le> c_open c \<and> c_open c \<le> c_high c)
        then Inl (ValueError ''OHLC invariant violated: open'')
      else if \<not> (c_low c \<le> c_close c \<and> c_close c \<le> c_high c)
        then Inl (ValueError ''OHLC invariant violated: close'')
      else if c_volume c < 0 then Inl (ValueError ''Volume cannot be negative'')
      else Inr c)"

definition typical_price :: "candle \<Rightarrow> real" where
  "typical_price c = (c_high c + c_low c + c_close c) / 3"

definition spread :: "candle \<Rightarrow> real" where
  "spread c = c_high c - c_low c"

definition candle_ok :: "candle \<Rightarrow> bool" where
  "candle_ok c \<longleftrightarrow> c_low c \<le> c_open c \<and> c_open c \<le> c_high c \<and>
     c_low c \<le> c_close c \<and> c_close c \<le> c_high c \<and> 0 \<le> c_volume c"

lemma candle_post_init_iff: "candle_post_init c = Inr d \<longleftrightarrow> candle_ok c \<and> d = c"
  by (auto simp: candle_post_init_def candle_ok_def)

lemma candle_post_init_raises: "\<not> candle_ok c \<Longrightarrow> \<exists>m. candle_post_init c = Inl (ValueError m)"
  by (auto simp: candle_post_init_def candle_ok_def)

lemma typical_price_bounds:
  "candle_ok c \<Longrightarrow> c_low c \<le> typical_price c \<and> typical_price c \<le> c_high c"
  by (auto simp: candle_ok_def typical_price_def)

lemma spread_nonneg: "candle_ok c \<Longrightarrow> 0 \<le> spread c"
  by (auto simp: candle_ok_def spread_def)

text \<open>A candle of a traded instrument: valid and with positive prices.\<close>

definition candle_pos :: "candle \<Rightarrow> bool" where
  "candle_pos c \<longleftrightarrow> candle_ok c \<and> 0 < c_low c"

lemma candle_posD:
  assumes "candle_pos c"
  shows "0 < c_low c" and "0 < c_open c" and "0 < c_high c" and "0 < c_close c"
  using assms by (auto simp: candle_pos_def candle_ok_def)

section \<open>Orders\<close>

datatype order_type = MARKET | LIMIT | STOP

datatype direction = LONG | SHORT

definition opposite :: "direction \<Rightarrow> direction" where
  "opposite d = (if d = LONG then SHORT else LONG)"

lemma opposite_simps [simp]: "opposite LONG = SHORT" "opposite SHORT = LONG"
  by (simp_all add: opposite_def)

lemma opposite_opposite [simp]: "opposite (opposite d) = d"
  by (cases d) auto

lemma opposite_neq [simp]: "opposite d \<noteq> d" "d \<noteq> opposite d"
  by (cases d; simp)+

text \<open>
  Besides the dataclass fields, an order has its object identity \<open>o_ident\<close>, what
  \<open>id(order)\<close> returns: the engine recognises its own forced orders by it.
\<close>

record order =
  o_symbol :: string
  o_direction :: direction
  o_quantity :: int
  o_order_type :: order_type
  o_limit_price :: "real option"
  o_stop_price :: "real option"
  o_created_at :: datetime
  o_order_id :: string
  o_ident :: nat

definition order_post_init :: "order \<Rightarrow> order result" where
  "order_post_init ord =
     (if o_quantity ord \<le> 0 then Inl (ValueError ''Quantity must be positive'')
      else if o_order_type ord = LIMIT \<and> o_limit_price ord = None
        then Inl (ValueError ''LIMIT order requires limit_price'')
      else if o_order_type ord = STOP \<and> o_stop_price ord = None
        then Inl (ValueError ''STOP order requires stop_price'')
      else Inr ord)"

definition order_ok :: "order \<Rightarrow> bool" where
  "order_ok ord \<longleftrightarrow> 0 < o_quantity ord \<and>
     (o_order_type ord = LIMIT \<longrightarrow> o_limit_price ord \<noteq> None) \<and>
     (o_order_type ord = STOP \<longrightarrow> o_stop_price ord \<noteq> None)"

lemma order_post_init_iff: "order_post_init ord = Inr ord' \<longleftrightarrow> order_ok ord \<and> ord' = ord"
  by (auto simp: order_post_init_def order_ok_def)

section \<open>Trades\<close>

record trade =
  t_symbol :: string
  t_direction :: direction
  t_entry_price :: real
  t_quantity :: int
  t_entry_date :: datetime
  t_commission :: real
  t_exit_price :: "real option"
  t_exit_date :: "datetime option"
  t_trade_id :: string

definition is_closed :: "trade \<Rightarrow> bool" where
  "is_closed t \<longleftrightarrow> t_exit_price t \<noteq> None"

definition pnl :: "trade \<Rightarrow> real" where
  "pnl t =
     (case t_exit_price t of
        None \<Rightarrow> 0
      | Some x \<Rightarrow>
          (let raw = (x - t_entry_price t) * real_of_int (t_quantity t);
               raw = (if t_direction t = SHORT then - raw else raw)
           in raw - t_commission t))"

definition pnl_pct :: "trade \<Rightarrow> real" where
  "pnl_pct t =
     (if t_exit_price t = None then 0
      else let cost = t_entry_price t * real_of_int (t_quantity t)
           in if cost = 0 then 0 else pnl t / cost)"

definition duration_days :: "trade \<Rightarrow> real option" where
  "duration_days t =
     (case t_exit_date t of None \<Rightarrow> None | Some e \<Rightarrow> Some (elapsed_days e (t_entry_date t)))"

lemma pnl_open: "\<not> is_closed t \<Longrightarrow> pnl t = 0"
  by (simp add: is_closed_def pnl_def)

text \<open>
  The same round trip on the two sides of the market: what a long gains before commission
  a short loses.
\<close>

lemma pnl_direction_antisym:
  "is_closed t \<Longrightarrow>
    pnl (t\<lparr>t_direction := opposite (t_direction t)\<rparr>) + t_commission t
      = - (pnl t + t_commission t)"
  by (cases "t_direction t") (auto simp: is_closed_def pnl_def Let_def)

lemma pnl_pct_sign:
  assumes "0 < t_entry_price t" and "0 < t_quantity t" and "is_closed t"
  shows "0 < pnl_pct t \<longleftrightarrow> 0 < pnl t"
proof -
  from assms have cost: "0 < t_entry_price t * real_of_int (t_quantity t)"
    by simp
  then have "pnl_pct t = pnl t / (t_entry_price t * real_of_int (t_quantity t))"
    using assms(3) by (auto simp: pnl_pct_def is_closed_def Let_def)
  with cost show ?thesis by (simp add: zero_less_divide_iff)
qed

section \<open>Events\<close>

text \<open>
  The four event classes. A signal's \<open>symbol\<close> may be empty: the engine then substitutes
  the symbol of the run.
\<close>

record signal_event =
  s_symbol :: string
  s_direction :: direction
  s_strength :: real
  s_timestamp :: datetime
  s_order_type :: order_type
  s_limit_price :: "real option"
  s_stop_price :: "real option"

record fill_event =
  f_symbol :: string
  f_direction :: direction
  f_quantity :: int
  f_fill_price :: real
  f_commission :: real
  f_fill_date :: datetime
  f_order_id :: string

datatype event =
    MarketEvent string candle
  | SignalEvent signal_event
  | OrderEvent order
  | FillEvent fill_event

text \<open>A signal from which an order can be built: its conditional price is present.\<close>

definition signal_ok :: "signal_event \<Rightarrow> bool" where
  "signal_ok s \<longleftrightarrow> (s_order_type s = LIMIT \<longrightarrow> s_limit_price s \<noteq> None) \<and>
     (s_order_type s = STOP \<longrightarrow> s_stop_price s \<noteq> None)"

end
