(* ===== verification/Portfolio.thy ===== *)
theory Portfolio
  imports Market_Models
begin

text \<open>
  The portfolio of \<open>src/models/portfolio.py\<close>: cash, restricted short collateral, open
  positions, closed trades and the equity curve, with every operation of the class as a
  function from the old to the new state. A fill that raises leaves the caller's portfolio
  as it was. The lemmas show the well-formedness invariant that rules out every
  \<open>KeyError\<close>, the accounting identity, and the effect of each branch. Log records are not
  part of the state.
\<close>

section \<open>State\<close>

record equity_point =
  ep_date :: datetime
  ep_equity :: real
  ep_drawdown_pct :: real

datatype fill_rejection_reason = INSUFFICIENT_BUYING_POWER

record position =
  pos_direction :: direction
  pos_quantity :: int
  pos_entry_price :: real
  pos_entry_date :: datetime
  pos_trade_id :: string
  pos_commission :: real

record portfolio =
  pf_initial_capital :: real
  pf_short_initial_margin :: real
  pf_short_maintenance_margin :: real
  pf_annual_short_borrow_rate :: real
  pf_borrow_day_count :: real
  pf_cash :: real
  pf_restricted_collateral :: real
  pf_short_collateral :: "(string, real) dict"
  pf_last_short_borrow_timestamp :: "(string, datetime) dict"
  pf_open_positions :: "(string, position) dict"
  pf_trades :: "trade list"
  pf_equity_curve :: "equity_point list"
  pf_peak_equity :: real
  pf_current_prices :: "(string, real) dict"

record fill_outcome =
  fo_accepted :: bool
  fo_trade :: "trade option"
  fo_rejection_reason :: "fill_rejection_reason option"
  fo_available_cash :: real
  fo_restricted_collateral :: real

section \<open>Operations\<close>

definition validate_short_settings :: "xfloat \<Rightarrow> xfloat \<Rightarrow> xfloat \<Rightarrow> xfloat \<Rightarrow> unit result" where
  "validate_short_settings im mm br dc =
     (if \<not> list_all isfinite [im, mm, br, dc]
        then Inl (ValueError ''Short margin settings must be finite'')
      else if im < Fin 1 then Inl (ValueError ''Short initial margin must be at least 1.0'')
      else if mm < Fin 0 then Inl (ValueError ''Short maintenance margin must be nonnegative'')
      else if br < Fin 0 then Inl (ValueError ''Annual short borrow rate must be nonnegative'')
      else if dc \<le> Fin 0 then Inl (ValueError ''Borrow day count must be positive'')
      else Inr ())"

definition portfolio_init ::
    "xfloat \<Rightarrow> xfloat \<Rightarrow> xfloat \<Rightarrow> xfloat \<Rightarrow> xfloat \<Rightarrow> portfolio result" where
  "portfolio_init capital im mm br dc =
     (if \<not> isfinite capital \<or> capital \<le> Fin 0
        then Inl (ValueError ''Initial capital must be positive'')
      else rbind (validate_short_settings im mm br dc) (\<lambda>_. Inr
        \<lparr>pf_initial_capital = fin_val capital,
         pf_short_initial_margin = fin_val im,
         pf_short_maintenance_margin = fin_val mm,
         pf_annual_short_borrow_rate = fin_val br,
         pf_borrow_day_count = fin_val dc,
         pf_cash = fin_val capital,
         pf_restricted_collateral = 0,
         pf_short_collateral = [],
         pf_last_short_borrow_timestamp = [],
         pf_open_positions = [],
         pf_trades = [],
         pf_equity_curve = [],
         pf_peak_equity = fin_val capital,
         pf_current_prices = []\<rparr>))"

definition marked_price :: "portfolio \<Rightarrow> string \<Rightarrow> position \<Rightarrow> real" where
  "marked_price p symb pos = dict_default (pf_current_prices p) symb (pos_entry_price pos)"

definition position_value :: "portfolio \<Rightarrow> string \<times> position \<Rightarrow> real" where
  "position_value p = (\<lambda>(symb, pos).
     let value = real_of_int (pos_quantity pos) * marked_price p symb pos
     in if pos_direction pos = LONG then value else - value)"

definition equity :: "portfolio \<Rightarrow> real" where
  "equity p = pf_cash p + pf_restricted_collateral p
     + sum_list (map (position_value p) (pf_open_positions p))"

definition has_position :: "portfolio \<Rightarrow> string \<Rightarrow> bool" where
  "has_position p symb \<longleftrightarrow> symb \<in> fst ` set (pf_open_positions p)"

definition validate_fill_inputs :: "int \<Rightarrow> xfloat \<Rightarrow> xfloat \<Rightarrow> unit result" where
  "validate_fill_inputs quantity fill_price commission =
     (if quantity \<le> 0 then Inl (ValueError ''Fill quantity must be a positive integer'')
      else if \<not> isfinite fill_price \<or> fill_price \<le> Fin 0
        then Inl (ValueError ''Fill price must be finite and positive'')
      else if \<not> isfinite commission \<or> commission < Fin 0
        then Inl (ValueError ''Fill commission must be finite and nonnegative'')
      else Inr ())"

definition rejected :: "portfolio \<Rightarrow> portfolio \<times> fill_outcome" where
  "rejected p = (p, \<lparr>fo_accepted = False, fo_trade = None,
     fo_rejection_reason = Some INSUFFICIENT_BUYING_POWER,
     fo_available_cash = pf_cash p, fo_restricted_collateral = pf_restricted_collateral p\<rparr>)"

definition accepted :: "portfolio \<Rightarrow> trade option \<Rightarrow> portfolio \<times> fill_outcome" where
  "accepted p tr = (p, \<lparr>fo_accepted = True, fo_trade = tr, fo_rejection_reason = None,
     fo_available_cash = pf_cash p, fo_restricted_collateral = pf_restricted_collateral p\<rparr>)"

text \<open>
  \<open>record_fill\<close>: the last argument is the string of the UUID that an opening fill draws.
\<close>

definition record_fill ::
    "portfolio \<Rightarrow> string \<Rightarrow> direction \<Rightarrow> int \<Rightarrow> xfloat \<Rightarrow> datetime \<Rightarrow> xfloat \<Rightarrow> string
      \<Rightarrow> (portfolio \<times> fill_outcome) result" where
  "record_fill p symb dir quantity fill_price fill_date commission uuid =
     rbind (validate_fill_inputs quantity fill_price commission) (\<lambda>_.
     let price = fin_val fill_price; comm = fin_val commission in
     case dict_get (pf_open_positions p) symb of
       Some pos \<Rightarrow>
         (if dir \<noteq> opposite (pos_direction pos) then
            Inl (ValueError ''Closing fill direction must be opposite the open position'')
          else if quantity \<noteq> pos_quantity pos then
            Inl (ValueError ''Closing fill quantity must equal the open position quantity'')
          else
            let qty = real_of_int (pos_quantity pos);
                tr = \<lparr>t_symbol = symb, t_direction = pos_direction pos,
                      t_entry_price = pos_entry_price pos, t_quantity = pos_quantity pos,
                      t_entry_date = pos_entry_date pos,
                      t_commission = pos_commission pos + comm,
                      t_exit_price = Some price, t_exit_date = Some fill_date,
                      t_trade_id = pos_trade_id pos\<rparr>;
                p1 = p\<lparr>pf_trades := pf_trades p @ [tr]\<rparr>
            in rbind
              (if pos_direction pos = LONG then
                 Inr (p1\<lparr>pf_cash := pf_cash p1 + (qty * price - comm)\<rparr>)
               else rbind (dict_item (pf_short_collateral p1) symb) (\<lambda>released.
                 let p2 = p1\<lparr>pf_short_collateral := dict_del (pf_short_collateral p1) symb,
                       pf_restricted_collateral := pf_restricted_collateral p1 - released,
                       pf_cash := pf_cash p1 + (released - qty * price - comm)\<rparr>
                 in rbind (dict_item (pf_last_short_borrow_timestamp p2) symb) (\<lambda>_.
                   Inr (p2\<lparr>pf_last_short_borrow_timestamp :=
                     dict_del (pf_last_short_borrow_timestamp p2) symb\<rparr>))))
              (\<lambda>p3. Inr (accepted
                 (p3\<lparr>pf_open_positions := dict_del (pf_open_positions p3) symb\<rparr>) (Some tr))))
     | None \<Rightarrow>
         let qty = real_of_int quantity;
             pos = \<lparr>pos_direction = dir, pos_quantity = quantity, pos_entry_price = price,
                    pos_entry_date = fill_date, pos_trade_id = take 8 uuid,
                    pos_commission = comm\<rparr>;
             book = (\<lambda>p. p\<lparr>pf_open_positions := dict_set (pf_open_positions p) symb pos\<rparr>)
         in if dir = LONG then
              (let cost = qty * price + comm in
               if cost > pf_cash p then Inr (rejected p)
               else Inr (accepted (book (p\<lparr>pf_cash := pf_cash p - cost\<rparr>)) None))
            else
              (let notional = qty * price;
                   additional_margin = notional * (pf_short_initial_margin p - 1);
                   required_cash = additional_margin + comm
               in if required_cash > pf_cash p then Inr (rejected p)
               else
                 let collateral = notional * pf_short_initial_margin p
                 in Inr (accepted (book (p\<lparr>pf_cash := pf_cash p - required_cash,
                      pf_restricted_collateral := pf_restricted_collateral p + collateral,
                      pf_short_collateral := dict_set (pf_short_collateral p) symb collateral,
                      pf_last_short_borrow_timestamp :=
                        dict_set (pf_last_short_borrow_timestamp p) symb fill_date\<rparr>)) None)))"

definition short_positions :: "portfolio \<Rightarrow> (string \<times> position) list" where
  "short_positions p = filter (\<lambda>(symb, pos). pos_direction pos = SHORT) (pf_open_positions p)"

definition check_borrow_time :: "portfolio \<Rightarrow> datetime \<Rightarrow> string \<times> position \<Rightarrow> unit \<Rightarrow> unit result" where
  "check_borrow_time p ts = (\<lambda>(symb, pos) _.
     rbind (dict_item (pf_last_short_borrow_timestamp p) symb) (\<lambda>prev.
       if ts \<le> prev
         then Inl (ValueError ''Short borrow accrual timestamp must be strictly later'')
       else Inr ()))"

definition symbol_charge :: "portfolio \<Rightarrow> datetime \<Rightarrow> string \<times> position \<Rightarrow> real \<Rightarrow> real result" where
  "symbol_charge p ts = (\<lambda>(symb, pos) charge.
     rbind (dict_item (pf_last_short_borrow_timestamp p) symb) (\<lambda>prev.
       let previous_marked_short_value = real_of_int (pos_quantity pos) * marked_price p symb pos
       in rbind (fdiv (previous_marked_short_value * pf_annual_short_borrow_rate p
                       * elapsed_days ts prev) (pf_borrow_day_count p))
            (\<lambda>c. Inr (charge + c))))"

definition accrue_short_borrow :: "portfolio \<Rightarrow> datetime \<Rightarrow> (portfolio \<times> real) result" where
  "accrue_short_borrow p ts =
     (let shorts = short_positions p in
      if shorts = [] then Inr (p, 0)
      else rbind (rfold (check_borrow_time p ts) shorts ()) (\<lambda>_.
        rbind (rfold (symbol_charge p ts) shorts 0) (\<lambda>charge.
          Inr (p\<lparr>pf_cash := pf_cash p - charge,
                 pf_last_short_borrow_timestamp :=
                   fold (\<lambda>(symb, pos) d. dict_set d symb ts) shorts
                     (pf_last_short_borrow_timestamp p)\<rparr>, charge))))"

definition maintenance_ratio :: "portfolio \<Rightarrow> string \<Rightarrow> xfloat option" where
  "maintenance_ratio p symb =
     (case dict_get (pf_open_positions p) symb of
        None \<Rightarrow> None
      | Some pos \<Rightarrow>
          if pos_direction pos \<noteq> SHORT then None
          else let current_short_value = real_of_int (pos_quantity pos) * marked_price p symb pos
               in if current_short_value = 0 then Some PosInf
                  else Some (Fin (equity p / current_short_value)))"

definition update_prices :: "portfolio \<Rightarrow> (string, real) dict \<Rightarrow> datetime \<Rightarrow> portfolio" where
  "update_prices p prices ts =
     (let p1 = p\<lparr>pf_current_prices := dict_update (pf_current_prices p) prices\<rparr>;
          current = equity p1;
          p2 = (if current > pf_peak_equity p1 then p1\<lparr>pf_peak_equity := current\<rparr> else p1);
          drawdown = (if pf_peak_equity p2 > 0
                      then (current - pf_peak_equity p2) / pf_peak_equity p2 else 0)
      in p2\<lparr>pf_equity_curve := pf_equity_curve p2 @
             [\<lparr>ep_date = ts, ep_equity = current, ep_drawdown_pct = drawdown\<rparr>]\<rparr>)"

definition portfolio_reset :: "portfolio \<Rightarrow> portfolio" where
  "portfolio_reset p = p\<lparr>pf_cash := pf_initial_capital p, pf_restricted_collateral := 0,
     pf_short_collateral := [], pf_last_short_borrow_timestamp := [],
     pf_open_positions := [], pf_trades := [], pf_equity_curve := [],
     pf_peak_equity := pf_initial_capital p, pf_current_prices := []\<rparr>"

section \<open>Well-formedness\<close>

definition settings_ok :: "portfolio \<Rightarrow> bool" where
  "settings_ok p \<longleftrightarrow> 0 < pf_initial_capital p \<and> 1 \<le> pf_short_initial_margin p \<and>
     0 \<le> pf_short_maintenance_margin p \<and> 0 \<le> pf_annual_short_borrow_rate p \<and>
     0 < pf_borrow_day_count p"

definition position_ok :: "position \<Rightarrow> bool" where
  "position_ok pos \<longleftrightarrow> 0 < pos_quantity pos \<and> 0 < pos_entry_price pos \<and> 0 \<le> pos_commission pos"

definition notional :: "position \<Rightarrow> real" where
  "notional pos = real_of_int (pos_quantity pos) * pos_entry_price pos"

definition required_collateral :: "portfolio \<Rightarrow> string \<times> position \<Rightarrow> real" where
  "required_collateral p = (\<lambda>(symb, pos).
     if pos_direction pos = SHORT then notional pos * pf_short_initial_margin p else 0)"

definition is_short :: "portfolio \<Rightarrow> string \<Rightarrow> bool" where
  "is_short p symb \<longleftrightarrow>
     (\<exists>pos. dict_get (pf_open_positions p) symb = Some pos \<and> pos_direction pos = SHORT)"

text \<open>
  The three short-side dictionaries agree: exactly the open shorts have a collateral entry,
  which is their required collateral, and a borrow timestamp; the restricted collateral is
  the sum of the entries.
\<close>

definition portfolio_inv :: "portfolio \<Rightarrow> bool" where
  "portfolio_inv p \<longleftrightarrow> settings_ok p \<and>
     dict_ok (pf_open_positions p) \<and> dict_ok (pf_short_collateral p) \<and>
     dict_ok (pf_last_short_borrow_timestamp p) \<and>
     (\<forall>(symb, pos) \<in> set (pf_open_positions p). position_ok pos) \<and>
     (\<forall>symb. dict_get (pf_short_collateral p) symb =
        (case dict_get (pf_open_positions p) symb of
           None \<Rightarrow> None
         | Some pos \<Rightarrow>
             if pos_direction pos = SHORT then Some (required_collateral p (symb, pos)) else None)) \<and>
     (\<forall>symb. (dict_get (pf_last_short_borrow_timestamp p) symb \<noteq> None) = is_short p symb) \<and>
     pf_restricted_collateral p =
       sum_list (map (required_collateral p) (pf_open_positions p))"

lemma validate_short_settings_ok:
  "validate_short_settings im mm br dc = Inr () \<longleftrightarrow>
     (\<exists>a b c d. im = Fin a \<and> mm = Fin b \<and> br = Fin c \<and> dc = Fin d \<and>
        1 \<le> a \<and> 0 \<le> b \<and> 0 \<le> c \<and> 0 < d)"
  by (cases im; cases mm; cases br; cases dc)
    (auto simp: validate_short_settings_def not_less not_le)

lemma validate_fill_inputs_ok:
  "validate_fill_inputs q x c = Inr () \<longleftrightarrow>
     0 < q \<and> (\<exists>pr cm. x = Fin pr \<and> c = Fin cm \<and> 0 < pr \<and> 0 \<le> cm)"
  by (cases x; cases c) (auto simp: validate_fill_inputs_def not_less not_le)

lemma validate_fill_inputs_Fin [simp]:
  "0 < q \<Longrightarrow> 0 < pr \<Longrightarrow> 0 \<le> cm \<Longrightarrow> validate_fill_inputs q (Fin pr) (Fin cm) = Inr ()"
  by (simp add: validate_fill_inputs_ok)

lemma portfolio_init_inv:
  assumes "portfolio_init capital im mm br dc = Inr p"
  shows "portfolio_inv p"
proof -
  from assms obtain a b c d k where "im = Fin a" "mm = Fin b" "br = Fin c" "dc = Fin d"
    and "1 \<le> a" "0 \<le> b" "0 \<le> c" "0 < d" and "capital = Fin k" "0 < k"
    by (cases capital)
      (auto simp: portfolio_init_def result_simps validate_short_settings_ok split: if_splits)
  with assms show ?thesis
    by (auto simp: portfolio_init_def result_simps portfolio_inv_def settings_ok_def is_short_def
        split: if_splits)
qed

text \<open>The five ways in which a fill can return.\<close>

lemma record_fill_cases [consumes 1, case_names Reject OpenLong OpenShort CloseLong CloseShort]:
  assumes fill: "record_fill p symb d q x t c u = Inr (p', out)"
  obtains
    pr cm where "x = Fin pr" "c = Fin cm" "0 < q" "0 < pr" "0 \<le> cm"
      "dict_get (pf_open_positions p) symb = None" "p' = p" "\<not> fo_accepted out"
      "pf_cash p < (if d = LONG then real_of_int q * pr
                    else real_of_int q * pr * (pf_short_initial_margin p - 1)) + cm"
  | pr cm where "x = Fin pr" "c = Fin cm" "0 < q" "0 < pr" "0 \<le> cm"
      "dict_get (pf_open_positions p) symb = None" "d = LONG" "fo_accepted out"
      "real_of_int q * pr + cm \<le> pf_cash p" "fo_trade out = None"
      "p' = p\<lparr>pf_cash := pf_cash p - (real_of_int q * pr + cm),
              pf_open_positions := dict_set (pf_open_positions p) symb
                \<lparr>pos_direction = LONG, pos_quantity = q, pos_entry_price = pr,
                 pos_entry_date = t, pos_trade_id = take 8 u, pos_commission = cm\<rparr>\<rparr>"
  | pr cm where "x = Fin pr" "c = Fin cm" "0 < q" "0 < pr" "0 \<le> cm"
      "dict_get (pf_open_positions p) symb = None" "d = SHORT" "fo_accepted out"
      "real_of_int q * pr * (pf_short_initial_margin p - 1) + cm \<le> pf_cash p"
      "fo_trade out = None"
      "p' = p\<lparr>pf_cash := pf_cash p -
                (real_of_int q * pr * (pf_short_initial_margin p - 1) + cm),
              pf_restricted_collateral := pf_restricted_collateral p
                + real_of_int q * pr * pf_short_initial_margin p,
              pf_short_collateral := dict_set (pf_short_collateral p) symb
                (real_of_int q * pr * pf_short_initial_margin p),
              pf_last_short_borrow_timestamp :=
                dict_set (pf_last_short_borrow_timestamp p) symb t,
              pf_open_positions := dict_set (pf_open_positions p) symb
                \<lparr>pos_direction = SHORT, pos_quantity = q, pos_entry_price = pr,
                 pos_entry_date = t, pos_trade_id = take 8 u, pos_commission = cm\<rparr>\<rparr>"
  | pr cm pos tr where "x = Fin pr" "c = Fin cm" "0 < q" "0 < pr" "0 \<le> cm"
      "dict_get (pf_open_positions p) symb = Some pos" "pos_direction pos = LONG" "d = SHORT"
      "q = pos_quantity pos" "fo_accepted out" "fo_trade out = Some tr"
      "tr = \<lparr>t_symbol = symb, t_direction = LONG, t_entry_price = pos_entry_price pos,
             t_quantity = pos_quantity pos, t_entry_date = pos_entry_date pos,
             t_commission = pos_commission pos + cm, t_exit_price = Some pr,
             t_exit_date = Some t, t_trade_id = pos_trade_id pos\<rparr>"
      "p' = p\<lparr>pf_trades := pf_trades p @ [tr],
              pf_cash := pf_cash p + (real_of_int q * pr - cm),
              pf_open_positions := dict_del (pf_open_positions p) symb\<rparr>"
  | pr cm pos tr r b where "x = Fin pr" "c = Fin cm" "0 < q" "0 < pr" "0 \<le> cm"
      "dict_get (pf_open_positions p) symb = Some pos" "pos_direction pos = SHORT" "d = LONG"
      "q = pos_quantity pos" "fo_accepted out" "fo_trade out = Some tr"
      "dict_get (pf_short_collateral p) symb = Some r"
      "dict_get (pf_last_short_borrow_timestamp p) symb = Some b"
      "tr = \<lparr>t_symbol = symb, t_direction = SHORT, t_entry_price = pos_entry_price pos,
             t_quantity = pos_quantity pos, t_entry_date = pos_entry_date pos,
             t_commission = pos_commission pos + cm, t_exit_price = Some pr,
             t_exit_date = Some t, t_trade_id = pos_trade_id pos\<rparr>"
      "p' = p\<lparr>pf_trades := pf_trades p @ [tr],
              pf_short_collateral := dict_del (pf_short_collateral p) symb,
              pf_restricted_collateral := pf_restricted_collateral p - r,
              pf_cash := pf_cash p + (r - real_of_int q * pr - cm),
              pf_last_short_borrow_timestamp := dict_del (pf_last_short_borrow_timestamp p) symb,
              pf_open_positions := dict_del (pf_open_positions p) symb\<rparr>"
proof -
  from fill obtain pr cm where args: "x = Fin pr" "c = Fin cm" "0 < q" "0 < pr" "0 \<le> cm"
    by (auto simp: record_fill_def result_simps validate_fill_inputs_ok)
  show thesis
  proof (cases "dict_get (pf_open_positions p) symb")
    case None
    with fill args show thesis
      by (cases d)
        (auto simp: record_fill_def Let_def rejected_def accepted_def split: if_splits
          intro: that(1-3))
  next
    case (Some pos)
    with fill args show thesis
      by (cases "pos_direction pos")
        (auto simp: record_fill_def Let_def accepted_def result_simps dict_item_get
          split: if_splits intro: that(4-5))
  qed
qed

lemmas portfolio_inv_intro = portfolio_inv_def settings_ok_def position_ok_def is_short_def

lemma inv_position:
  "portfolio_inv p \<Longrightarrow> dict_get (pf_open_positions p) symb = Some pos \<Longrightarrow> position_ok pos"
  unfolding portfolio_inv_def using dict.get_items [of "pf_open_positions p" symb pos] by blast

lemma inv_settings: "portfolio_inv p \<Longrightarrow> settings_ok p"
  by (simp add: portfolio_inv_def)

lemma inv_dict_ok: "portfolio_inv p \<Longrightarrow> dict_ok (pf_open_positions p)"
  by (simp add: portfolio_inv_def)

lemma inv_collateral:
  "portfolio_inv p \<Longrightarrow> dict_get (pf_open_positions p) symb = Some pos \<Longrightarrow>
    pos_direction pos = SHORT \<Longrightarrow>
    dict_get (pf_short_collateral p) symb = Some (notional pos * pf_short_initial_margin p)"
  by (simp add: portfolio_inv_def required_collateral_def)

lemma inv_borrow_timestamp:
  "portfolio_inv p \<Longrightarrow> is_short p symb \<Longrightarrow>
    \<exists>b. dict_get (pf_last_short_borrow_timestamp p) symb = Some b"
  by (auto simp: portfolio_inv_def)

lemma set_dict_set:
  "dict_get d k = None \<Longrightarrow> set (dict_set d k v) = insert (k, v) (set d)"
  by (auto simp: dict.items_set_fresh)

lemma set_dict_del: "set (dict_del d k) = {i \<in> set d. fst i \<noteq> k}"
  by (simp add: dict.items_del)

text \<open>A new position keeps the invariant when its short-side entries are added with it.\<close>

lemma portfolio_inv_open:
  assumes inv: "portfolio_inv p" and fresh: "dict_get (pf_open_positions p) symb = None"
    and pos: "position_ok pos"
    and coll: "sc = (if pos_direction pos = SHORT
      then dict_set (pf_short_collateral p) symb (notional pos * pf_short_initial_margin p)
      else pf_short_collateral p)"
    and ts: "bt = (if pos_direction pos = SHORT
      then dict_set (pf_last_short_borrow_timestamp p) symb t
      else pf_last_short_borrow_timestamp p)"
  shows "portfolio_inv (p\<lparr>pf_cash := cash,
    pf_restricted_collateral :=
      pf_restricted_collateral p + required_collateral p (symb, pos),
    pf_short_collateral := sc, pf_last_short_borrow_timestamp := bt,
    pf_open_positions := dict_set (pf_open_positions p) symb pos\<rparr>)" (is "portfolio_inv ?p")
proof -
  have req: "required_collateral ?p = required_collateral p"
    by (simp add: required_collateral_def fun_eq_iff)
  have shorts: "is_short ?p s = (if s = symb then pos_direction pos = SHORT else is_short p s)" for s
    by (simp add: is_short_def dict_laws)
  show ?thesis
    using inv pos fresh coll ts
    unfolding portfolio_inv_def shorts req
    by (auto simp: settings_ok_def dict_laws dict.sum_set_fresh set_dict_set required_collateral_def
        is_short_def)
qed

lemma portfolio_inv_close:
  assumes inv: "portfolio_inv p" and old: "dict_get (pf_open_positions p) symb = Some pos"
    and coll: "sc = (if pos_direction pos = SHORT then dict_del (pf_short_collateral p) symb
      else pf_short_collateral p)"
    and ts: "bt = (if pos_direction pos = SHORT
      then dict_del (pf_last_short_borrow_timestamp p) symb
      else pf_last_short_borrow_timestamp p)"
  shows "portfolio_inv (p\<lparr>pf_trades := trs, pf_short_collateral := sc,
    pf_restricted_collateral :=
      pf_restricted_collateral p - required_collateral p (symb, pos),
    pf_cash := cash, pf_last_short_borrow_timestamp := bt,
    pf_open_positions := dict_del (pf_open_positions p) symb\<rparr>)" (is "portfolio_inv ?p")
proof -
  have req: "required_collateral ?p = required_collateral p"
    by (simp add: required_collateral_def fun_eq_iff)
  have shorts: "is_short ?p s = (s \<noteq> symb \<and> is_short p s)" for s
    by (simp add: is_short_def dict_laws)
  have "sum_list (map (required_collateral p) (dict_del (pf_open_positions p) symb))
    = sum_list (map (required_collateral p) (pf_open_positions p)) - required_collateral p (symb, pos)"
    using inv old by (simp add: dict.sum_del inv_dict_ok)
  then show ?thesis
    using inv old coll ts
    unfolding portfolio_inv_def shorts req
    by (auto simp: settings_ok_def dict_laws is_short_def set_dict_del required_collateral_def)
qed

lemma record_fill_inv:
  assumes inv: "portfolio_inv p" and fill: "record_fill p symb d q x t c u = Inr (p', out)"
  shows "portfolio_inv p'"
  using fill
proof (cases rule: record_fill_cases)
  case (Reject pr cm)
  with inv show ?thesis by simp
next
  case (OpenLong pr cm)
  let ?pos = "\<lparr>pos_direction = LONG, pos_quantity = q, pos_entry_price = pr,
    pos_entry_date = t, pos_trade_id = take 8 u, pos_commission = cm\<rparr>"
  have "position_ok ?pos" using OpenLong by (simp add: position_ok_def)
  from portfolio_inv_open [OF inv OpenLong(6) this refl refl,
      where cash = "pf_cash p - (real_of_int q * pr + cm)"] OpenLong
  show ?thesis by (simp add: required_collateral_def)
next
  case (OpenShort pr cm)
  let ?pos = "\<lparr>pos_direction = SHORT, pos_quantity = q, pos_entry_price = pr,
    pos_entry_date = t, pos_trade_id = take 8 u, pos_commission = cm\<rparr>"
  have "position_ok ?pos" using OpenShort by (simp add: position_ok_def)
  from portfolio_inv_open [OF inv OpenShort(6) this refl refl,
      where cash = "pf_cash p - (real_of_int q * pr * (pf_short_initial_margin p - 1) + cm)"
        and t = t] OpenShort
  show ?thesis by (simp add: required_collateral_def notional_def)
next
  case (CloseLong pr cm pos tr)
  from portfolio_inv_close [OF inv CloseLong(6) refl refl] CloseLong
  show ?thesis by (simp add: required_collateral_def)
next
  case (CloseShort pr cm pos tr r b)
  then have "r = notional pos * pf_short_initial_margin p"
    using inv_collateral [OF inv] by simp
  with portfolio_inv_close [OF inv CloseShort(6) refl refl] CloseShort
  show ?thesis by (simp add: required_collateral_def)
qed

text \<open>
  A validated fill never fails on a well-formed portfolio, except for the two checks of a
  closing fill: it must be opposite to the position and of its size.
\<close>

lemma record_fill_returns:
  assumes inv: "portfolio_inv p" and "0 < q" "0 < pr" "0 \<le> cm"
    and close: "\<And>pos. dict_get (pf_open_positions p) symb = Some pos \<Longrightarrow>
      d = opposite (pos_direction pos) \<and> q = pos_quantity pos"
  shows "\<exists>p' out. record_fill p symb d q (Fin pr) t (Fin cm) u = Inr (p', out)"
proof (cases "dict_get (pf_open_positions p) symb")
  case None
  with assms(2-4) show ?thesis
    by (auto simp: record_fill_def Let_def accepted_def rejected_def)
next
  case (Some pos)
  show ?thesis
  proof (cases "pos_direction pos")
    case LONG
    with Some assms(2-4) close [OF Some] show ?thesis
      by (auto simp: record_fill_def Let_def accepted_def)
  next
    case SHORT
    with Some have "is_short p symb" by (simp add: is_short_def)
    with inv obtain b where "dict_get (pf_last_short_borrow_timestamp p) symb = Some b"
      using inv_borrow_timestamp by blast
    with SHORT Some assms(2-4) close [OF Some] inv_collateral [OF inv Some SHORT]
    show ?thesis
      by (simp add: record_fill_def Let_def accepted_def
          dict_item_get [THEN iffD2] del: ex_simps)
  qed
qed

section \<open>Short borrow fees\<close>

definition borrow_due :: "portfolio \<Rightarrow> datetime \<Rightarrow> string \<times> position \<Rightarrow> real" where
  "borrow_due p ts = (\<lambda>(symb, pos).
     real_of_int (pos_quantity pos) * marked_price p symb pos * pf_annual_short_borrow_rate p
       * elapsed_days ts (the (dict_get (pf_last_short_borrow_timestamp p) symb))
       / pf_borrow_day_count p)"

lemma short_position_is_short:
  "portfolio_inv p \<Longrightarrow> (symb, pos) \<in> set (short_positions p) \<Longrightarrow> is_short p symb"
  using dict.get_items [of "pf_open_positions p" symb pos]
  by (auto simp: short_positions_def is_short_def inv_dict_ok)

lemma is_short_iff:
  "portfolio_inv p \<Longrightarrow> is_short p symb \<longleftrightarrow> symb \<in> fst ` set (short_positions p)"
  using dict.get_items [of "pf_open_positions p" symb]
  by (force simp: short_positions_def is_short_def inv_dict_ok image_iff)

lemma dict_item_Some [simp]: "dict_get d k = Some v \<Longrightarrow> dict_item d k = Inr v"
  by (simp add: dict_item_get)

lemma check_borrow_time_all:
  assumes "\<And>symb pos. (symb, pos) \<in> set xs \<Longrightarrow>
    \<exists>b. dict_get (pf_last_short_borrow_timestamp p) symb = Some b"
  shows "rfold (check_borrow_time p ts) xs () =
    (if \<forall>(symb, pos) \<in> set xs. the (dict_get (pf_last_short_borrow_timestamp p) symb) < ts
     then Inr () else Inl (ValueError ''Short borrow accrual timestamp must be strictly later''))"
  using assms
proof (induction xs)
  case Nil
  then show ?case by simp
next
  case (Cons a xs)
  obtain symb pos where a: "a = (symb, pos)" by (cases a)
  with Cons.prems obtain b where "dict_get (pf_last_short_borrow_timestamp p) symb = Some b"
    by force
  then have "check_borrow_time p ts a () = (if b < ts then Inr ()
      else Inl (ValueError ''Short borrow accrual timestamp must be strictly later''))"
      and "the (dict_get (pf_last_short_borrow_timestamp p) symb) = b"
    using a by (auto simp: check_borrow_time_def)
  moreover have "rfold (check_borrow_time p ts) xs () =
      (if \<forall>(symb, pos) \<in> set xs. the (dict_get (pf_last_short_borrow_timestamp p) symb) < ts
       then Inr () else Inl (ValueError ''Short borrow accrual timestamp must be strictly later''))"
    using Cons.prems by (intro Cons.IH) auto
  ultimately show ?case using a by auto
qed

lemma symbol_charge_sum:
  assumes "pf_borrow_day_count p \<noteq> 0" and "\<And>symb pos. (symb, pos) \<in> set xs \<Longrightarrow>
    \<exists>b. dict_get (pf_last_short_borrow_timestamp p) symb = Some b"
  shows "rfold (symbol_charge p ts) xs c = Inr (c + sum_list (map (borrow_due p ts) xs))"
  using assms
proof (induction xs arbitrary: c)
  case Nil
  then show ?case by simp
next
  case (Cons a xs)
  obtain symb pos where a: "a = (symb, pos)" by (cases a)
  with Cons.prems obtain b where "dict_get (pf_last_short_borrow_timestamp p) symb = Some b"
    by force
  then have "symbol_charge p ts a c = Inr (c + borrow_due p ts a)"
    using a Cons.prems(1) by (simp add: symbol_charge_def Let_def borrow_due_def)
  moreover have "rfold (symbol_charge p ts) xs (c + borrow_due p ts a)
      = Inr (c + borrow_due p ts a + sum_list (map (borrow_due p ts) xs))"
    using Cons.prems by (intro Cons.IH) auto
  ultimately show ?case by simp
qed

lemma accrue_short_borrow_eq:
  assumes inv: "portfolio_inv p"
  shows "accrue_short_borrow p ts =
    (if short_positions p = [] then Inr (p, 0)
     else if \<forall>(symb, pos) \<in> set (short_positions p).
         the (dict_get (pf_last_short_borrow_timestamp p) symb) < ts
     then let charge = sum_list (map (borrow_due p ts) (short_positions p))
       in Inr (p\<lparr>pf_cash := pf_cash p - charge,
                 pf_last_short_borrow_timestamp :=
                   fold (\<lambda>(symb, pos) d. dict_set d symb ts) (short_positions p)
                     (pf_last_short_borrow_timestamp p)\<rparr>, charge)
     else Inl (ValueError ''Short borrow accrual timestamp must be strictly later''))"
proof -
  have last: "\<exists>b. dict_get (pf_last_short_borrow_timestamp p) symb = Some b"
    if "(symb, pos) \<in> set (short_positions p)" for symb pos
    using inv that by (blast intro: inv_borrow_timestamp short_position_is_short)
  have "pf_borrow_day_count p \<noteq> 0"
    using inv by (simp add: portfolio_inv_def settings_ok_def)
  with last show ?thesis
    by (simp add: accrue_short_borrow_def Let_def check_borrow_time_all symbol_charge_sum)
qed

lemma dict_get_fold_set:
  "dict_get (fold (\<lambda>(symb, pos) d. dict_set d symb ts) xs d) k =
    (if k \<in> fst ` set xs then Some ts else dict_get d k)"
  by (induction xs arbitrary: d) (auto simp: dict_laws)

lemma dict_ok_fold_set:
  "dict_ok d \<Longrightarrow> dict_ok (fold (\<lambda>(symb, pos) d. dict_set d symb ts) xs d)"
  by (induction xs arbitrary: d) (auto simp: dict_laws)

text \<open>The invariant does not depend on the cash, the marks or the recorded curve.\<close>

lemma portfolio_inv_frame:
  assumes "portfolio_inv p"
    and "pf_initial_capital p' = pf_initial_capital p"
    and "pf_short_initial_margin p' = pf_short_initial_margin p"
    and "pf_short_maintenance_margin p' = pf_short_maintenance_margin p"
    and "pf_annual_short_borrow_rate p' = pf_annual_short_borrow_rate p"
    and "pf_borrow_day_count p' = pf_borrow_day_count p"
    and "pf_open_positions p' = pf_open_positions p"
    and "pf_short_collateral p' = pf_short_collateral p"
    and "pf_restricted_collateral p' = pf_restricted_collateral p"
    and "dict_ok (pf_last_short_borrow_timestamp p')"
    and "\<And>symb. (dict_get (pf_last_short_borrow_timestamp p') symb \<noteq> None) = is_short p symb"
  shows "portfolio_inv p'"
proof -
  have "required_collateral p' = required_collateral p"
    using assms(3) by (simp add: required_collateral_def fun_eq_iff)
  moreover have "is_short p' = is_short p"
    using assms(7) by (simp add: is_short_def fun_eq_iff)
  moreover have "settings_ok p'"
    using inv_settings [OF assms(1)] assms(2-6) by (simp add: settings_ok_def)
  ultimately show ?thesis
    using assms(1,7-11) unfolding portfolio_inv_def by (simp cong: option.case_cong if_cong)
qed

lemma accrue_inv:
  assumes inv: "portfolio_inv p" and acc: "accrue_short_borrow p ts = Inr (p', charge)"
  shows "portfolio_inv p'"
proof (cases "short_positions p = []")
  case True
  with acc inv show ?thesis by (simp add: accrue_short_borrow_def)
next
  case False
  have keys: "(k \<in> fst ` set (short_positions p) \<or> is_short p k) = is_short p k" for k
    using inv by (simp add: is_short_iff)
  have timestamps: "(dict_get (pf_last_short_borrow_timestamp p) k \<noteq> None) = is_short p k" for k
    using inv by (simp add: portfolio_inv_def)
  show ?thesis
  proof (rule portfolio_inv_frame [OF inv])
    show "dict_ok (pf_last_short_borrow_timestamp p')"
      using inv acc by (auto simp: accrue_short_borrow_eq Let_def dict_ok_fold_set
          portfolio_inv_def split: if_splits)
    show "(dict_get (pf_last_short_borrow_timestamp p') k \<noteq> None) = is_short p k" for k
      using inv acc timestamps [of k] is_short_iff [OF inv, of k]
      by (auto simp: accrue_short_borrow_eq Let_def dict_get_fold_set split: if_splits)
  qed (use inv acc in \<open>auto simp: accrue_short_borrow_eq Let_def split: if_splits\<close>)
qed

lemma accrue_charge:
  assumes "portfolio_inv p" and "accrue_short_borrow p ts = Inr (p', charge)"
  shows "pf_cash p' = pf_cash p - charge"
    and "charge = sum_list (map (borrow_due p ts) (short_positions p))"
  using assms by (auto simp: accrue_short_borrow_eq Let_def split: if_splits)

lemma accrue_frame:
  assumes "accrue_short_borrow p ts = Inr (p', charge)"
  shows "pf_open_positions p' = pf_open_positions p" "pf_trades p' = pf_trades p"
    "pf_equity_curve p' = pf_equity_curve p" "pf_peak_equity p' = pf_peak_equity p"
    "pf_restricted_collateral p' = pf_restricted_collateral p"
    "pf_current_prices p' = pf_current_prices p"
    "pf_initial_capital p' = pf_initial_capital p"
    "pf_short_collateral p' = pf_short_collateral p"
  using assms by (auto simp: accrue_short_borrow_def Let_def result_simps split: if_splits)

lemma update_prices_frame [simp]:
  "pf_open_positions (update_prices p prices ts) = pf_open_positions p"
  "pf_trades (update_prices p prices ts) = pf_trades p"
  "pf_cash (update_prices p prices ts) = pf_cash p"
  "pf_restricted_collateral (update_prices p prices ts) = pf_restricted_collateral p"
  "pf_short_collateral (update_prices p prices ts) = pf_short_collateral p"
  "pf_last_short_borrow_timestamp (update_prices p prices ts) = pf_last_short_borrow_timestamp p"
  "pf_initial_capital (update_prices p prices ts) = pf_initial_capital p"
  "pf_short_initial_margin (update_prices p prices ts) = pf_short_initial_margin p"
  "pf_short_maintenance_margin (update_prices p prices ts) = pf_short_maintenance_margin p"
  "pf_annual_short_borrow_rate (update_prices p prices ts) = pf_annual_short_borrow_rate p"
  "pf_borrow_day_count (update_prices p prices ts) = pf_borrow_day_count p"
  "pf_current_prices (update_prices p prices ts) = dict_update (pf_current_prices p) prices"
  by (simp_all add: update_prices_def Let_def)

lemma update_inv: "portfolio_inv p \<Longrightarrow> portfolio_inv (update_prices p prices ts)"
  by (rule portfolio_inv_frame [of p]) (auto simp: portfolio_inv_def)

section \<open>Runs of a portfolio\<close>

text \<open>
  The operations in any order, with the borrow fees that were charged on the way.
\<close>

inductive pf_step :: "portfolio \<Rightarrow> real \<Rightarrow> portfolio \<Rightarrow> bool" where
  pf_fill: "record_fill p symb d q x t c u = Inr (p', out) \<Longrightarrow> pf_step p 0 p'"
| pf_accrue: "accrue_short_borrow p ts = Inr (p', charge) \<Longrightarrow> pf_step p charge p'"
| pf_update: "pf_step p 0 (update_prices p prices ts)"

inductive_cases pf_stepE: "pf_step p f p'"

inductive pf_run :: "portfolio \<Rightarrow> real \<Rightarrow> portfolio \<Rightarrow> bool" where
  pf_start: "pf_run p 0 p"
| pf_more: "pf_run p f p' \<Longrightarrow> pf_step p' g p'' \<Longrightarrow> pf_run p (f + g) p''"

lemma pf_step_inv: "pf_step p f p' \<Longrightarrow> portfolio_inv p \<Longrightarrow> portfolio_inv p'"
  by (induction rule: pf_step.induct) (auto intro: record_fill_inv accrue_inv update_inv)

lemma pf_run_inv: "pf_run p f p' \<Longrightarrow> portfolio_inv p \<Longrightarrow> portfolio_inv p'"
  by (induction rule: pf_run.induct) (auto intro: pf_step_inv)

text \<open>Cash that an open position has moved: spent on a long, received for a short.\<close>

definition position_flow :: "string \<times> position \<Rightarrow> real" where
  "position_flow = (\<lambda>(symb, pos).
     (if pos_direction pos = LONG then - notional pos else notional pos) - pos_commission pos)"

definition booked :: "portfolio \<Rightarrow> real" where
  "booked p = pf_cash p + pf_restricted_collateral p
     - sum_list (map pnl (pf_trades p)) - sum_list (map position_flow (pf_open_positions p))"

lemma record_fill_booked:
  assumes inv: "portfolio_inv p" and fill: "record_fill p symb d q x t c u = Inr (p', out)"
  shows "booked p' = booked p"
  using fill
proof (cases rule: record_fill_cases)
  case (CloseLong pr cm pos tr)
  with inv show ?thesis
    by (simp add: booked_def dict.sum_del inv_dict_ok position_flow_def pnl_def notional_def
        algebra_simps)
next
  case (CloseShort pr cm pos tr r b)
  with inv show ?thesis
    by (simp add: booked_def dict.sum_del inv_dict_ok position_flow_def pnl_def notional_def
        algebra_simps)
qed (auto simp: booked_def dict.sum_set_fresh position_flow_def notional_def algebra_simps)

lemma pf_step_booked:
  "pf_step p f p' \<Longrightarrow> portfolio_inv p \<Longrightarrow> booked p' = booked p - f"
proof (induction rule: pf_step.induct)
  case (pf_accrue p ts p' charge)
  then show ?case
    by (simp add: booked_def accrue_charge accrue_frame)
qed (simp_all add: record_fill_booked, simp add: booked_def)

lemma pf_run_booked:
  "pf_run p f p' \<Longrightarrow> portfolio_inv p \<Longrightarrow> booked p' = booked p - f"
proof (induction rule: pf_run.induct)
  case (pf_more p f p' g p'')
  then show ?case
    using pf_step_booked [OF pf_more(2)] pf_run_inv [OF pf_more(1)] by simp
qed simp

lemma pf_step_settings:
  "pf_step p f p' \<Longrightarrow> pf_initial_capital p' = pf_initial_capital p \<and>
     pf_short_initial_margin p' = pf_short_initial_margin p \<and>
     pf_short_maintenance_margin p' = pf_short_maintenance_margin p \<and>
     pf_annual_short_borrow_rate p' = pf_annual_short_borrow_rate p \<and>
     pf_borrow_day_count p' = pf_borrow_day_count p"
proof (induction rule: pf_step.induct)
  case (pf_fill p symb d q x t c u p' out)
  then show ?case by (cases rule: record_fill_cases) auto
next
  case (pf_accrue p ts p' charge)
  then show ?case
    by (auto simp: accrue_short_borrow_def Let_def result_simps split: if_splits)
qed simp

lemma pf_run_settings:
  "pf_run p f p' \<Longrightarrow> pf_initial_capital p' = pf_initial_capital p \<and>
     pf_short_initial_margin p' = pf_short_initial_margin p \<and>
     pf_short_maintenance_margin p' = pf_short_maintenance_margin p \<and>
     pf_annual_short_borrow_rate p' = pf_annual_short_borrow_rate p \<and>
     pf_borrow_day_count p' = pf_borrow_day_count p"
  by (induction rule: pf_run.induct) (auto dest: pf_step_settings)

lemma portfolio_init_eq:
  assumes "portfolio_init capital im mm br dc = Inr p"
  shows "pf_cash p = pf_initial_capital p" "pf_restricted_collateral p = 0"
    "pf_open_positions p = []" "pf_trades p = []" "pf_equity_curve p = []"
    "pf_short_collateral p = []" "pf_last_short_borrow_timestamp p = []"
    "pf_peak_equity p = pf_initial_capital p" "pf_current_prices p = []"
    "capital = Fin (pf_initial_capital p)" "0 < pf_initial_capital p"
    "im = Fin (pf_short_initial_margin p)" "mm = Fin (pf_short_maintenance_margin p)"
    "br = Fin (pf_annual_short_borrow_rate p)" "dc = Fin (pf_borrow_day_count p)"
  using assms
  by (cases capital; auto simp: portfolio_init_def result_simps validate_short_settings_ok
      split: if_splits)+

definition unrealised :: "portfolio \<Rightarrow> string \<times> position \<Rightarrow> real" where
  "unrealised p = (\<lambda>(symb, pos).
     (let gain = real_of_int (pos_quantity pos) * (marked_price p symb pos - pos_entry_price pos)
      in if pos_direction pos = LONG then gain else - gain) - pos_commission pos)"

lemma position_value_unrealised: "position_value p i = unrealised p i - position_flow i"
  by (cases i) (simp add: position_value_def unrealised_def position_flow_def notional_def
      Let_def algebra_simps)

lemma equity_booked:
  "equity p = booked p + sum_list (map pnl (pf_trades p))
     + sum_list (map (unrealised p) (pf_open_positions p))"
proof -
  have "sum_list (map (position_value p) xs) = sum_list (map (unrealised p) xs)
      - sum_list (map position_flow xs)" for xs
    by (induction xs) (simp_all add: position_value_unrealised)
  then show ?thesis by (simp add: equity_def booked_def)
qed

text \<open>C8: the accounting identity. Whatever sequence of fills, borrow accruals and price
  updates a fresh portfolio goes through, its equity is the initial capital plus the profit
  and loss of every closed trade plus the unrealised result of every open position (net of
  its entry commission) minus the borrow fees charged: no operation creates or destroys
  money.\<close>

theorem accounting_identity:
  assumes "portfolio_init capital im mm br dc = Inr p0" and "pf_run p0 fees p"
  shows "equity p = pf_initial_capital p0 + sum_list (map pnl (pf_trades p))
    + sum_list (map (unrealised p) (pf_open_positions p)) - fees"
proof -
  have "booked p = booked p0 - fees"
    using assms by (blast intro: pf_run_booked portfolio_init_inv)
  moreover have "booked p0 = pf_initial_capital p0"
    using portfolio_init_eq [OF assms(1)] by (simp add: booked_def)
  ultimately show ?thesis by (simp add: equity_booked)
qed

text \<open>On every portfolio that a run reaches, the invariant holds, and a fill can only
  raise the documented \<open>ValueError\<close>: the dictionary accesses of the closing branch never
  raise \<open>KeyError\<close>.\<close>

theorem fill_raises_only_value_error:
  assumes "portfolio_init capital im mm br dc = Inr p0" and "pf_run p0 fees p"
    and "record_fill p symb d q x t c u = Inl e"
  shows "portfolio_inv p \<and> (\<exists>m. e = ValueError m)"
proof
  show inv: "portfolio_inv p"
    using assms(1,2) by (blast intro: pf_run_inv portfolio_init_inv)
  show "\<exists>m. e = ValueError m"
  proof (cases "validate_fill_inputs q x c")
    case (Inl e')
    with assms(3) show ?thesis
      by (auto simp: record_fill_def validate_fill_inputs_def split: if_splits)
  next
    case (Inr u')
    then obtain pr cm where args: "x = Fin pr" "c = Fin cm" "0 < q" "0 < pr" "0 \<le> cm"
      by (auto simp: validate_fill_inputs_ok)
    have "\<exists>pos. dict_get (pf_open_positions p) symb = Some pos \<and>
        (d \<noteq> opposite (pos_direction pos) \<or> q \<noteq> pos_quantity pos)"
    proof (rule ccontr)
      assume "\<not> ?thesis"
      then have "\<And>pos. dict_get (pf_open_positions p) symb = Some pos \<Longrightarrow>
          d = opposite (pos_direction pos) \<and> q = pos_quantity pos"
        by blast
      from record_fill_returns [where symb = symb and d = d and t = t and u = u, OF inv args(3-5) this]
        args(1,2) assms(3)
      show False by simp
    qed
    then obtain pos where "dict_get (pf_open_positions p) symb = Some pos"
      and "d \<noteq> opposite (pos_direction pos) \<or> q \<noteq> pos_quantity pos"
      by blast
    with args show ?thesis
      using assms(3) unfolding record_fill_def Let_def
      by (cases "d = opposite (pos_direction pos)") auto
  qed
qed

definition required_cash :: "portfolio \<Rightarrow> direction \<Rightarrow> int \<Rightarrow> real \<Rightarrow> real \<Rightarrow> real" where
  "required_cash p d q pr cm = (if d = LONG then real_of_int q * pr
     else real_of_int q * pr * (pf_short_initial_margin p - 1)) + cm"

text \<open>Buying power. A valid opening fill is accepted exactly when the required cash (the
  cost of a long; the margin above the sale proceeds of a short; commission included) is
  available. An accepted one pays exactly that and never overdraws the cash; a rejected one
  leaves the portfolio as it was.\<close>

theorem opening_fill_buying_power:
  assumes "dict_get (pf_open_positions p) symb = None" and "0 < q" "0 < pr" "0 \<le> cm"
  shows "\<exists>p' out. record_fill p symb d q (Fin pr) t (Fin cm) u = Inr (p', out) \<and>
    (fo_accepted out \<longleftrightarrow> required_cash p d q pr cm \<le> pf_cash p) \<and>
    (fo_accepted out \<longrightarrow> pf_cash p' = pf_cash p - required_cash p d q pr cm \<and> 0 \<le> pf_cash p' \<and>
       has_position p' symb) \<and>
    (\<not> fo_accepted out \<longrightarrow> p' = p)"
proof (cases d)
  case LONG
  with assms show ?thesis
    by (simp add: record_fill_def Let_def accepted_def rejected_def has_position_def
        set_dict_set not_less required_cash_def)
next
  case SHORT
  with assms show ?thesis
    by (simp add: record_fill_def Let_def accepted_def rejected_def has_position_def
        set_dict_set not_less required_cash_def)
qed


section \<open>The equity curve\<close>

lemma record_fill_frame:
  assumes "record_fill p symb d q x t c u = Inr (p', out)"
  shows "pf_equity_curve p' = pf_equity_curve p" "pf_peak_equity p' = pf_peak_equity p"
    "pf_current_prices p' = pf_current_prices p"
  using assms by (cases rule: record_fill_cases; simp)+

text \<open>Reference: the drawdown of each point against the running maximum of the equities.\<close>

fun drawdowns :: "real \<Rightarrow> real list \<Rightarrow> real list" where
  "drawdowns peak [] = []"
| "drawdowns peak (e # es) =
     (let peak' = max peak e in (e - peak') / peak' # drawdowns peak' es)"

lemma drawdowns_snoc:
  "drawdowns peak (es @ [e]) = drawdowns peak es @
     [(e - max (fold max es peak) e) / max (fold max es peak) e]"
  by (induction es arbitrary: peak) (auto simp: Let_def max.commute)

lemma fold_max_ge:
  fixes a :: "'a::linorder"
  shows "a \<le> fold max es a"
proof (induction es arbitrary: a)
  case (Cons e es)
  have "a \<le> max e a" by simp
  also have "\<dots> \<le> fold max es (max e a)" by (rule Cons)
  finally show ?case by simp
qed simp

definition curve_ok :: "portfolio \<Rightarrow> bool" where
  "curve_ok p \<longleftrightarrow> 0 < pf_initial_capital p \<and>
     pf_peak_equity p = fold max (map ep_equity (pf_equity_curve p)) (pf_initial_capital p) \<and>
     map ep_drawdown_pct (pf_equity_curve p)
       = drawdowns (pf_initial_capital p) (map ep_equity (pf_equity_curve p))"

lemma update_curve_ok: "curve_ok p \<Longrightarrow> curve_ok (update_prices p prices ts)"
proof -
  assume ok: "curve_ok p"
  then have "0 < pf_peak_equity p"
    using fold_max_ge [of "pf_initial_capital p" "map ep_equity (pf_equity_curve p)"]
    by (simp add: curve_ok_def)
  with ok show ?thesis
    by (auto simp: curve_ok_def update_prices_def Let_def drawdowns_snoc max_def)
qed

lemma pf_step_curve_ok: "pf_step p f p' \<Longrightarrow> curve_ok p \<Longrightarrow> curve_ok p'"
proof (induction rule: pf_step.induct)
  case (pf_fill p symb d q x t c u p' out)
  then show ?case
    using pf_step_settings [OF pf_step.pf_fill [OF pf_fill(1)]]
    by (simp add: curve_ok_def record_fill_frame)
next
  case (pf_accrue p ts p' charge)
  then show ?case by (simp add: curve_ok_def accrue_frame)
next
  case (pf_update p prices ts)
  then show ?case by (rule update_curve_ok)
qed

lemma pf_run_curve_ok: "pf_run p f p' \<Longrightarrow> curve_ok p \<Longrightarrow> curve_ok p'"
  by (induction rule: pf_run.induct) (auto intro: pf_step_curve_ok)

lemma portfolio_init_curve_ok:
  "portfolio_init capital im mm br dc = Inr p \<Longrightarrow> curve_ok p"
  using portfolio_init_eq [of capital im mm br dc p] by (simp add: curve_ok_def)

text \<open>The recorded curve. After any run from a fresh portfolio the peak is the maximum of
  the initial capital and all recorded equities, and the drawdown recorded with each point is
  its relative distance to the running maximum up to that point.\<close>

theorem equity_curve_drawdowns:
  assumes "portfolio_init capital im mm br dc = Inr p0" and "pf_run p0 fees p"
  shows "pf_peak_equity p
      = fold max (map ep_equity (pf_equity_curve p)) (pf_initial_capital p0) \<and>
    map ep_drawdown_pct (pf_equity_curve p)
      = drawdowns (pf_initial_capital p0) (map ep_equity (pf_equity_curve p))"
proof -
  have "curve_ok p"
    using assms by (blast intro: pf_run_curve_ok portfolio_init_curve_ok)
  moreover have "pf_initial_capital p = pf_initial_capital p0"
    using pf_run_settings [OF assms(2)] by simp
  ultimately show ?thesis by (simp add: curve_ok_def)
qed

text \<open>Resetting a used portfolio gives the fresh portfolio it started as.\<close>

theorem reset_restores_initial:
  assumes "portfolio_init capital im mm br dc = Inr p0" and "pf_run p0 fees p"
  shows "portfolio_reset p = p0"
  using portfolio_init_eq [OF assms(1)] pf_run_settings [OF assms(2)]
  by (simp add: portfolio_reset_def)

section \<open>Accrual\<close>

lemma marked_price_frame:
  "pf_current_prices p' = pf_current_prices p \<Longrightarrow> marked_price p' = marked_price p"
  by (simp add: marked_price_def fun_eq_iff)

text \<open>Borrow fees do not depend on how the elapsed time is cut up: accruing at an
  intermediate instant and again at a later one charges in total what one accrual at the
  later instant charges, and leaves the same cash.\<close>

theorem accrual_time_additive:
  assumes inv: "portfolio_inv p" and first: "accrue_short_borrow p s = Inr (p1, c1)"
    and second: "accrue_short_borrow p1 t = Inr (p2, c2)"
    and direct: "accrue_short_borrow p t = Inr (p', c)"
  shows "c = c1 + c2 \<and> pf_cash p' = pf_cash p2"
proof -
  have inv1: "portfolio_inv p1" using inv first by (rule accrue_inv)
  have shorts: "short_positions p1 = short_positions p"
    by (simp add: short_positions_def accrue_frame [OF first])
  have mark: "marked_price p1 = marked_price p"
    by (rule marked_price_frame) (simp add: accrue_frame [OF first])
  have rates: "pf_annual_short_borrow_rate p1 = pf_annual_short_borrow_rate p"
      "pf_borrow_day_count p1 = pf_borrow_day_count p"
    using pf_step_settings [OF pf_accrue [OF first]] by auto
  have last: "dict_get (pf_last_short_borrow_timestamp p1) symb = Some s"
    if "(symb, pos) \<in> set (short_positions p)" for symb pos
    using that first inv
    by (auto simp: accrue_short_borrow_eq Let_def dict_get_fold_set split: if_splits)
      (metis fst_conv image_eqI)
  have "borrow_due p t i = borrow_due p s i + borrow_due p1 t i"
    if "i \<in> set (short_positions p)" for i
  proof -
    obtain symb pos where i: "i = (symb, pos)" by (cases i)
    let ?b = "the (dict_get (pf_last_short_borrow_timestamp p) symb)"
    let ?k = "real_of_int (pos_quantity pos) * marked_price p symb pos
      * pf_annual_short_borrow_rate p / pf_borrow_day_count p"
    have "borrow_due p t i = ?k * elapsed_days t ?b"
      by (simp add: i borrow_due_def)
    also have "\<dots> = ?k * elapsed_days s ?b + ?k * elapsed_days t s"
      by (simp only: elapsed_days_add [of t s ?b, symmetric] distrib_left add.commute)
    also have "\<dots> = borrow_due p s i + borrow_due p1 t i"
      using last that by (simp add: i borrow_due_def mark rates)
    finally show ?thesis .
  qed
  then have "sum_list (map (borrow_due p t) (short_positions p))
      = sum_list (map (\<lambda>i. borrow_due p s i + borrow_due p1 t i) (short_positions p))"
    by (intro arg_cong [of _ _ sum_list] map_cong) auto
  also have "\<dots> = c1 + c2"
    using accrue_charge [OF inv first] accrue_charge [OF inv1 second]
    by (simp add: shorts sum_list_addf)
  finally have "c = c1 + c2"
    using accrue_charge [OF inv direct] by simp
  then show ?thesis
    using accrue_charge [OF inv first] accrue_charge [OF inv1 second]
      accrue_charge [OF inv direct] by simp
qed

lemma borrow_due_nonneg:
  assumes inv: "portfolio_inv p" and marks: "\<forall>(symb, price) \<in> set (pf_current_prices p). 0 \<le> price"
    and i: "(symb, pos) \<in> set (short_positions p)"
    and later: "the (dict_get (pf_last_short_borrow_timestamp p) symb) < ts"
  shows "0 \<le> borrow_due p ts (symb, pos)"
proof -
  have "position_ok pos"
    using inv i by (auto simp: portfolio_inv_def short_positions_def)
  then have "0 \<le> marked_price p symb pos"
    using marks by (auto simp: marked_price_def dict_default_def position_ok_def
        split: option.splits dest!: map_of_SomeD)
  with \<open>position_ok pos\<close> inv later show ?thesis
    by (simp add: borrow_due_def position_ok_def portfolio_inv_def settings_ok_def
        less_imp_le elapsed_days_pos)
qed

section \<open>Concrete runs\<close>

text \<open>
  A portfolio of 1000 with the default short settings sells 2 shares at 100 short, is charged
  a year of borrow fees, is marked at 90 and covers at 80.
\<close>

definition demo_p0 :: portfolio where
  "demo_p0 = projr (portfolio_init (Fin 1000) (Fin (3/2)) (Fin (3/10)) (Fin (3/100)) (Fin 365))"

definition demo_year :: datetime where
  "demo_year = 365 * 86400000000"

definition demo_p1 :: portfolio where
  "demo_p1 = fst (projr (record_fill demo_p0 ''SPY'' SHORT 2 (Fin 100) 0 (Fin 1) ''0123456789''))"

definition demo_p2 :: portfolio where
  "demo_p2 = fst (projr (accrue_short_borrow demo_p1 demo_year))"

definition demo_p3 :: portfolio where
  "demo_p3 = update_prices demo_p2 [(''SPY'', 90)] demo_year"

lemmas demo_eval = record_fill_def accepted_def rejected_def dict_get_def dict_set_def
  dict_del_def dict_item_def dict_default_def dict_update_def Let_def

lemma demo_init:
  "portfolio_init (Fin 1000) (Fin (3/2)) (Fin (3/10)) (Fin (3/100)) (Fin 365) = Inr demo_p0"
  by (simp add: demo_p0_def portfolio_init_def validate_short_settings_def)

lemma demo_open:
  "record_fill demo_p0 ''SPY'' SHORT 2 (Fin 100) 0 (Fin 1) ''0123456789''
    = Inr (demo_p1, snd (accepted demo_p1 None))"
  by (simp add: demo_p1_def demo_p0_def portfolio_init_def validate_short_settings_def demo_eval)

lemma demo_p1_eq:
  "demo_p1 = demo_p0\<lparr>pf_cash := 899, pf_restricted_collateral := 300,
     pf_short_collateral := [(''SPY'', 300)],
     pf_last_short_borrow_timestamp := [(''SPY'', 0)],
     pf_open_positions := [(''SPY'', \<lparr>pos_direction = SHORT, pos_quantity = 2,
       pos_entry_price = 100, pos_entry_date = 0, pos_trade_id = ''01234567'',
       pos_commission = 1\<rparr>)]\<rparr>"
  by (simp add: demo_p1_def demo_p0_def portfolio_init_def validate_short_settings_def demo_eval)

lemma demo_accrue: "accrue_short_borrow demo_p1 demo_year = Inr (demo_p2, 6)"
  by (simp add: demo_p2_def demo_p1_eq demo_p0_def portfolio_init_def validate_short_settings_def
      accrue_short_borrow_def short_positions_def check_borrow_time_def symbol_charge_def
      marked_price_def demo_eval demo_year_def elapsed_days_def total_seconds_def)

lemma demo_p2_eq:
  "demo_p2 = demo_p1\<lparr>pf_cash := 893, pf_last_short_borrow_timestamp := [(''SPY'', demo_year)]\<rparr>"
  by (simp add: demo_p2_def demo_p1_eq demo_p0_def portfolio_init_def validate_short_settings_def
      accrue_short_borrow_def short_positions_def check_borrow_time_def symbol_charge_def
      marked_price_def demo_eval demo_year_def elapsed_days_def total_seconds_def)

lemma demo_run: "pf_run demo_p0 6 demo_p3"
proof -
  have "pf_run demo_p0 (0 + 0) demo_p1"
    by (rule pf_more [OF pf_start pf_fill [OF demo_open]])
  then have "pf_run demo_p0 (0 + 0 + 6) demo_p2"
    by (rule pf_more) (rule pf_accrue [OF demo_accrue])
  then have "pf_run demo_p0 (0 + 0 + 6 + 0) demo_p3"
    unfolding demo_p3_def by (rule pf_more) (rule pf_update)
  then show ?thesis by simp
qed

lemma demo_inv: "portfolio_inv demo_p0" "portfolio_inv demo_p1"
  using demo_init demo_open by (blast intro: portfolio_init_inv record_fill_inv)+

theorem accounting_identity_witness:
  "pf_run demo_p0 6 demo_p3 \<and> equity demo_p3 = 1000 + 0 + (2 * (100 - 90) - 1) - 6"
  using demo_run accounting_identity [OF demo_init demo_run]
  by (simp add: unrealised_def demo_p3_def demo_p2_eq demo_p1_eq demo_p0_def portfolio_init_def
      validate_short_settings_def marked_price_def demo_eval)

theorem fill_raises_only_value_error_witness:
  "portfolio_inv demo_p3 \<and>
    (\<exists>m. record_fill demo_p3 ''SPY'' LONG 1 (Fin 80) demo_year (Fin 1) [] = Inl (ValueError m))"
proof -
  have "record_fill demo_p3 ''SPY'' LONG 1 (Fin 80) demo_year (Fin 1) []
      = Inl (ValueError ''Closing fill quantity must equal the open position quantity'')"
    by (simp add: demo_p3_def demo_p2_eq demo_p1_eq demo_eval)
  with fill_raises_only_value_error [OF demo_init demo_run this] show ?thesis by auto
qed

theorem opening_fill_buying_power_witness:
  "\<exists>p' out. record_fill demo_p0 ''SPY'' LONG 9 (Fin 100) 0 (Fin 1) [] = Inr (p', out) \<and>
    fo_accepted out \<and> pf_cash p' = 99"
proof -
  have "dict_get (pf_open_positions demo_p0) ''SPY'' = None" and "pf_cash demo_p0 = 1000"
    using portfolio_init_eq [OF demo_init] by simp_all
  with opening_fill_buying_power [of demo_p0 "''SPY''" 9 100 1 LONG 0 "[]"]
  show ?thesis by (auto simp: required_cash_def)
qed


theorem equity_curve_drawdowns_witness:
  "pf_peak_equity demo_p3 = 1013 \<and> map ep_drawdown_pct (pf_equity_curve demo_p3) = [0]"
  using equity_curve_drawdowns [OF demo_init demo_run]
  by (simp add: demo_p3_def demo_p2_eq demo_p1_eq demo_p0_def portfolio_init_def
      validate_short_settings_def update_prices_def equity_def position_value_def
      marked_price_def demo_eval)

theorem reset_restores_initial_witness: "portfolio_reset demo_p3 = demo_p0"
  by (rule reset_restores_initial [OF demo_init demo_run])

theorem accrual_time_additive_witness:
  "\<exists>p1 p2 p' c1 c2 c. accrue_short_borrow demo_p1 86400000000 = Inr (p1, c1) \<and>
    accrue_short_borrow p1 demo_year = Inr (p2, c2) \<and>
    accrue_short_borrow demo_p1 demo_year = Inr (p', c) \<and> c = 6 \<and> c = c1 + c2"
proof -
  let ?p1 = "demo_p1\<lparr>pf_cash := 899 - 6 / 365,
    pf_last_short_borrow_timestamp := [(''SPY'', 86400000000)]\<rparr>"
  have a1: "accrue_short_borrow demo_p1 86400000000 = Inr (?p1, 6 / 365)"
    by (simp add: demo_p1_eq demo_p0_def portfolio_init_def validate_short_settings_def
      accrue_short_borrow_def short_positions_def check_borrow_time_def symbol_charge_def
      marked_price_def demo_eval elapsed_days_def total_seconds_def)
  have "\<exists>p2. accrue_short_borrow ?p1 demo_year = Inr (p2, 2184 / 365)"
    by (simp add: demo_p1_eq demo_p0_def portfolio_init_def validate_short_settings_def
      accrue_short_borrow_def short_positions_def check_borrow_time_def symbol_charge_def
      marked_price_def demo_eval elapsed_days_def total_seconds_def demo_year_def)
  then obtain p2 c2 where a2: "accrue_short_borrow ?p1 demo_year = Inr (p2, c2)" by blast
  from accrual_time_additive [OF demo_inv(2) a1 a2 demo_accrue] a1 a2 demo_accrue
  show ?thesis by blast
qed

end
