(* ===== verification/Broker.thy ===== *)
theory Broker
  imports Portfolio
begin

text \<open>
  The simulated broker of \<open>src/engine/broker.py\<close>: it fills an order against one candle or
  leaves it unfilled. The lemmas give the price protection of each order type and when it
  triggers; the interface \<open>fill_source\<close> is what the engine relies on.
\<close>

record broker =
  br_slippage_pct :: real
  br_commission_pct :: real

definition adverse_price :: "broker \<Rightarrow> real \<Rightarrow> direction \<Rightarrow> real" where
  "adverse_price b price d =
     (let multiplier = (if d = LONG then 1 + br_slippage_pct b else 1 - br_slippage_pct b)
      in price * multiplier)"

definition market_fill :: "broker \<Rightarrow> order \<Rightarrow> candle \<Rightarrow> real" where
  "market_fill b ord c = adverse_price b (c_open c) (o_direction ord)"

definition limit_fill :: "broker \<Rightarrow> order \<Rightarrow> candle \<Rightarrow> real option result" where
  "limit_fill b ord c =
     (case o_limit_price ord of
        None \<Rightarrow> Inl AssertionError
      | Some limit \<Rightarrow>
          if o_direction ord = LONG then
            (if c_open c \<le> limit
               then Inr (Some (min limit (adverse_price b (c_open c) (o_direction ord))))
             else Inr (if c_low c \<le> limit then Some limit else None))
          else if c_open c \<ge> limit
               then Inr (Some (max limit (adverse_price b (c_open c) (o_direction ord))))
          else Inr (if c_high c \<ge> limit then Some limit else None))"

definition stop_fill :: "broker \<Rightarrow> order \<Rightarrow> candle \<Rightarrow> real option result" where
  "stop_fill b ord c =
     (case o_stop_price ord of
        None \<Rightarrow> Inl AssertionError
      | Some stop \<Rightarrow>
          let raw = (if o_direction ord = LONG
                     then (if c_open c \<ge> stop then Some (c_open c)
                           else if c_high c \<ge> stop then Some stop else None)
                     else (if c_open c \<le> stop then Some (c_open c)
                           else if c_low c \<le> stop then Some stop else None))
          in Inr (case raw of None \<Rightarrow> None
                  | Some r \<Rightarrow> Some (adverse_price b r (o_direction ord))))"

definition calculate_fill_price :: "broker \<Rightarrow> order \<Rightarrow> candle \<Rightarrow> real option result" where
  "calculate_fill_price b ord c =
     (case o_order_type ord of
        MARKET \<Rightarrow> Inr (Some (market_fill b ord c))
      | LIMIT \<Rightarrow> limit_fill b ord c
      | STOP \<Rightarrow> stop_fill b ord c)"

definition execute :: "broker \<Rightarrow> order \<Rightarrow> candle \<Rightarrow> fill_event option result" where
  "execute b ord c =
     rbind (calculate_fill_price b ord c) (\<lambda>fp.
       case fp of
         None \<Rightarrow> Inr None
       | Some fill_price \<Rightarrow>
           let commission = fill_price * real_of_int (o_quantity ord) * br_commission_pct b
           in Inr (Some \<lparr>f_symbol = o_symbol ord, f_direction = o_direction ord,
                         f_quantity = o_quantity ord, f_fill_price = fill_price,
                         f_commission = commission, f_fill_date = c_timestamp c,
                         f_order_id = o_order_id ord\<rparr>))"

text \<open>Slippage below 100\% and a commission that is not a rebate.\<close>

definition broker_ok :: "broker \<Rightarrow> bool" where
  "broker_ok b \<longleftrightarrow> 0 \<le> br_slippage_pct b \<and> br_slippage_pct b < 1 \<and> 0 \<le> br_commission_pct b"

lemma adverse_price_pos: "broker_ok b \<Longrightarrow> 0 < x \<Longrightarrow> 0 < adverse_price b x d"
  by (cases d) (simp_all add: adverse_price_def broker_ok_def)

lemma adverse_price_LONG: "broker_ok b \<Longrightarrow> 0 \<le> x \<Longrightarrow> x \<le> adverse_price b x LONG"
  by (simp add: adverse_price_def broker_ok_def algebra_simps)

lemma adverse_price_SHORT: "broker_ok b \<Longrightarrow> 0 \<le> x \<Longrightarrow> adverse_price b x SHORT \<le> x"
  by (simp add: adverse_price_def broker_ok_def algebra_simps)

lemmas fill_price_defs = calculate_fill_price_def market_fill_def limit_fill_def stop_fill_def

lemma calculate_fill_price_returns:
  assumes "order_ok ord"
  shows "\<exists>r. calculate_fill_price b ord c = Inr r"
proof (cases "o_order_type ord")
  case LIMIT
  with assms obtain limit where "o_limit_price ord = Some limit"
    by (auto simp: order_ok_def)
  with LIMIT show ?thesis by (simp add: calculate_fill_price_def limit_fill_def)
next
  case STOP
  with assms obtain stop where "o_stop_price ord = Some stop"
    by (auto simp: order_ok_def)
  with STOP show ?thesis by (simp add: calculate_fill_price_def stop_fill_def Let_def)
qed (simp add: calculate_fill_price_def)

lemma limit_fill_pos:
  assumes "broker_ok b" and "candle_pos c" and "limit_fill b ord c = Inr (Some x)"
  shows "0 < x"
proof (cases "o_limit_price ord")
  case (Some limit)
  with assms(3) candle_posD [OF assms(2)] adverse_price_pos [OF assms(1)] show ?thesis
    by (cases "o_direction ord")
      (auto simp: limit_fill_def less_max_iff_disj split: if_splits)
qed (use assms(3) in \<open>simp add: limit_fill_def\<close>)

lemma stop_fill_pos:
  assumes "broker_ok b" and "candle_pos c" and "stop_fill b ord c = Inr (Some x)"
  shows "0 < x"
proof (cases "o_stop_price ord")
  case (Some stop)
  with assms(3) candle_posD [OF assms(2)] adverse_price_pos [OF assms(1)] show ?thesis
    by (cases "o_direction ord") (auto simp: stop_fill_def split: if_splits)
qed (use assms(3) in \<open>simp add: stop_fill_def\<close>)

lemma calculate_fill_price_pos:
  assumes "broker_ok b" and "candle_pos c" and "calculate_fill_price b ord c = Inr (Some x)"
  shows "0 < x"
  using assms limit_fill_pos [OF assms(1,2)] stop_fill_pos [OF assms(1,2)]
    adverse_price_pos [OF assms(1) candle_posD(2) [OF assms(2)]]
  by (cases "o_order_type ord") (auto simp: calculate_fill_price_def market_fill_def)

lemma execute_None: "calculate_fill_price b ord c = Inr None \<Longrightarrow> execute b ord c = Inr None"
  by (simp add: execute_def)

lemma execute_Some:
  "calculate_fill_price b ord c = Inr (Some x) \<Longrightarrow> execute b ord c =
    Inr (Some \<lparr>f_symbol = o_symbol ord, f_direction = o_direction ord,
      f_quantity = o_quantity ord, f_fill_price = x,
      f_commission = x * real_of_int (o_quantity ord) * br_commission_pct b,
      f_fill_date = c_timestamp c, f_order_id = o_order_id ord\<rparr>)"
  by (simp add: execute_def Let_def)

lemma execute_SomeE:
  assumes "execute b ord c = Inr (Some f)"
  obtains x where "calculate_fill_price b ord c = Inr (Some x)"
    and "f = \<lparr>f_symbol = o_symbol ord, f_direction = o_direction ord,
      f_quantity = o_quantity ord, f_fill_price = x,
      f_commission = x * real_of_int (o_quantity ord) * br_commission_pct b,
      f_fill_date = c_timestamp c, f_order_id = o_order_id ord\<rparr>"
proof -
  from assms obtain r where r: "calculate_fill_price b ord c = Inr r"
    by (cases "calculate_fill_price b ord c") (auto simp: execute_def)
  with assms obtain x where x: "r = Some x"
    using execute_None by (cases r) auto
  with r assms execute_Some [of b ord c x] show thesis
    by (intro that [of x]) simp_all
qed

lemma execute_fills_iff:
  "(\<exists>f. execute b ord c = Inr (Some f)) \<longleftrightarrow> (\<exists>x. calculate_fill_price b ord c = Inr (Some x))"
  by (blast intro: execute_Some elim: execute_SomeE)

lemma execute_price:
  "execute b ord c = Inr (Some f) \<Longrightarrow> calculate_fill_price b ord c = Inr (Some (f_fill_price f))"
  by (erule execute_SomeE) simp

text \<open>
  What the engine asks of whatever fills its orders: a valid order on a traded candle never
  raises, a fill is of the whole order, at a positive price, dated with the candle, and a
  market order always fills.
\<close>

locale fill_source =
  fixes exec :: "'b \<Rightarrow> order \<Rightarrow> candle \<Rightarrow> fill_event option result"
    and ok :: "'b \<Rightarrow> bool"
  assumes exec_returns: "order_ok ord \<Longrightarrow> \<exists>r. exec b ord c = Inr r"
    and exec_whole: "exec b ord c = Inr (Some f) \<Longrightarrow> f_symbol f = o_symbol ord \<and>
      f_direction f = o_direction ord \<and> f_quantity f = o_quantity ord \<and>
      f_fill_date f = c_timestamp c"
    and exec_valid: "ok b \<Longrightarrow> candle_pos c \<Longrightarrow> order_ok ord \<Longrightarrow> exec b ord c = Inr (Some f) \<Longrightarrow>
      0 < f_fill_price f \<and> 0 \<le> f_commission f"
    and exec_market: "o_order_type ord = MARKET \<Longrightarrow> exec b ord c = Inr r \<Longrightarrow> r \<noteq> None"
begin

text \<open>A fill of an order that fits the portfolio is always taken by \<open>record_fill\<close>.\<close>

lemma exec_then_record:
  assumes "ok b" and "candle_pos c" and "order_ok ord" and "portfolio_inv p"
    and "exec b ord c = Inr (Some f)"
    and "\<And>pos. dict_get (pf_open_positions p) (o_symbol ord) = Some pos \<Longrightarrow>
      o_direction ord = opposite (pos_direction pos) \<and> o_quantity ord = pos_quantity pos"
  shows "\<exists>p' out. record_fill p (f_symbol f) (f_direction f) (f_quantity f)
    (Fin (f_fill_price f)) (f_fill_date f) (Fin (f_commission f)) u = Inr (p', out)"
proof -
  have f: "f_symbol f = o_symbol ord" "f_direction f = o_direction ord"
      "f_quantity f = o_quantity ord"
    using exec_whole [OF assms(5)] by auto
  have "0 < f_quantity f" using assms(3) f by (simp add: order_ok_def)
  with exec_valid [OF assms(1-3,5)] show ?thesis
    using assms(6) f by (intro record_fill_returns [OF assms(4)]) auto
qed

lemma exec_market_fills:
  assumes "order_ok ord" and "o_order_type ord = MARKET"
  shows "\<exists>f. exec b ord c = Inr (Some f)"
  using exec_returns [OF assms(1), of b c] exec_market [OF assms(2), of b c] by auto

end

interpretation sim: fill_source execute broker_ok
proof (unfold_locales, goal_cases)
  case (1 ord b c)
  then obtain r where "calculate_fill_price b ord c = Inr r"
    using calculate_fill_price_returns by blast
  then show ?case by (cases r) (auto dest: execute_None execute_Some)
next
  case (2 b ord c f)
  then show ?case by (rule execute_SomeE) simp
next
  case (3 b c ord f)
  from 3(4) obtain x where x: "calculate_fill_price b ord c = Inr (Some x)" "f_fill_price f = x"
      "f_commission f = x * real_of_int (o_quantity ord) * br_commission_pct b"
    by (rule execute_SomeE) simp
  with 3(1,2) have "0 < x" using calculate_fill_price_pos by blast
  with x 3(1,3) show ?case by (simp add: broker_ok_def order_ok_def)
next
  case (4 ord b c r)
  then have "calculate_fill_price b ord c = Inr (Some (market_fill b ord c))"
    by (simp add: calculate_fill_price_def)
  with 4(2) show ?case using execute_Some by force
qed

text \<open>Price protection. A limit order never fills at a worse price than its limit: a buy
  at most at it, a sell at least at it, whatever the candle and the slippage.\<close>

theorem limit_fill_protected:
  assumes "o_order_type ord = LIMIT" and "o_limit_price ord = Some limit"
    and "execute b ord c = Inr (Some f)"
  shows "(o_direction ord = LONG \<longrightarrow> f_fill_price f \<le> limit) \<and>
    (o_direction ord = SHORT \<longrightarrow> limit \<le> f_fill_price f)"
  using assms(1,2) execute_price [OF assms(3)]
  by (cases "o_direction ord") (auto simp: fill_price_defs split: if_splits)

theorem limit_fill_protected_witness:
  "\<exists>f. execute \<lparr>br_slippage_pct = 1/10, br_commission_pct = 0\<rparr>
      \<lparr>o_symbol = ''SPY'', o_direction = LONG, o_quantity = 1, o_order_type = LIMIT,
       o_limit_price = Some 100, o_stop_price = None, o_created_at = 0, o_order_id = [],
       o_ident = 0\<rparr>
      \<lparr>c_timestamp = 1, c_open = 99, c_high = 101, c_low = 98, c_close = 100, c_volume = 1,
       c_adj_close = 100\<rparr> = Inr (Some f) \<and> f_fill_price f \<le> 100"
  (is "\<exists>f. execute ?b ?o ?c = _ \<and> _")
proof -
  have "\<exists>f. execute ?b ?o ?c = Inr (Some f)"
    by (simp add: execute_def fill_price_defs adverse_price_def Let_def)
  then obtain f where f: "execute ?b ?o ?c = Inr (Some f)" ..
  with limit_fill_protected [OF _ _ f, of 100] show ?thesis by simp
qed

text \<open>Gap risk and slippage. A market fill is never better than the open, a stop fill never
  better than the stop price, for a broker with non-negative slippage below one.\<close>

theorem market_and_stop_fills_adverse:
  assumes "broker_ok b" and "candle_pos c" and "execute b ord c = Inr (Some f)"
    and "o_order_type ord = MARKET \<and> ref = c_open c \<or>
         o_order_type ord = STOP \<and> o_stop_price ord = Some ref"
  shows "if o_direction ord = LONG then ref \<le> f_fill_price f else f_fill_price f \<le> ref"
proof -
  obtain x where x: "f_fill_price f = adverse_price b x (o_direction ord)" "0 < x"
      "if o_direction ord = LONG then ref \<le> x else x \<le> ref"
  proof (cases "o_order_type ord = MARKET")
    case True
    with assms(4) execute_price [OF assms(3)] candle_posD [OF assms(2)] show thesis
      by (intro that [of "c_open c"]) (simp_all add: calculate_fill_price_def market_fill_def)
  next
    case False
    with assms(4) have stop: "o_order_type ord = STOP" "o_stop_price ord = Some ref" by auto
    let ?x = "if o_direction ord = LONG then max (c_open c) ref else min (c_open c) ref"
    from stop execute_price [OF assms(3)] candle_posD [OF assms(2)]
    have "f_fill_price f = adverse_price b ?x (o_direction ord) \<and> 0 < ?x"
      by (cases "o_direction ord")
        (auto simp: calculate_fill_price_def stop_fill_def max_def min_def split: if_splits)
    then show thesis by (intro that [of ?x]) auto
  qed
  with adverse_price_LONG [OF assms(1), of x] adverse_price_SHORT [OF assms(1), of x]
  show ?thesis by (cases "o_direction ord") auto
qed

definition demo_candle :: "datetime \<Rightarrow> real \<Rightarrow> candle" where
  "demo_candle t x = \<lparr>c_timestamp = t, c_open = x, c_high = x + 2, c_low = x - 2, c_close = x + 1,
     c_volume = 10, c_adj_close = x + 1\<rparr>"

definition demo_order :: "direction \<Rightarrow> order_type \<Rightarrow> real option \<Rightarrow> order" where
  "demo_order d ty x = \<lparr>o_symbol = ''SPY'', o_direction = d, o_quantity = 3, o_order_type = ty,
     o_limit_price = x, o_stop_price = x, o_created_at = 0, o_order_id = [], o_ident = 0\<rparr>"

definition demo_broker :: broker where
  "demo_broker = \<lparr>br_slippage_pct = 1/2000, br_commission_pct = 1/1000\<rparr>"

lemmas demo_broker_eval = demo_candle_def demo_order_def demo_broker_def execute_def
  fill_price_defs adverse_price_def candle_pos_def candle_ok_def broker_ok_def Let_def

theorem market_and_stop_fills_adverse_witness:
  "\<exists>f. execute demo_broker (demo_order LONG STOP (Some 101)) (demo_candle 1 100) = Inr (Some f) \<and>
    101 \<le> f_fill_price f"
proof -
  have "\<exists>f. execute demo_broker (demo_order LONG STOP (Some 101)) (demo_candle 1 100) = Inr (Some f)"
    by (simp add: demo_broker_eval)
  then obtain f where
    f: "execute demo_broker (demo_order LONG STOP (Some 101)) (demo_candle 1 100) = Inr (Some f)" ..
  have "broker_ok demo_broker" and "candle_pos (demo_candle 1 100)"
    by (simp_all add: demo_broker_eval)
  from market_and_stop_fills_adverse [OF this f, of 101] f show ?thesis
    by (simp add: demo_order_def)
qed

text \<open>Triggering. A market order always fills; a conditional order of a valid candle fills
  exactly when the candle's range reaches its price: a buy limit or sell stop when the low
  is at or below it, a sell limit or buy stop when the high is at or above it.\<close>

theorem fill_trigger:
  assumes "order_ok ord" and "candle_ok c"
  shows "(\<exists>f. execute b ord c = Inr (Some f)) \<longleftrightarrow>
    (case o_order_type ord of
       MARKET \<Rightarrow> True
     | LIMIT \<Rightarrow> if o_direction ord = LONG then c_low c \<le> the (o_limit_price ord)
                else the (o_limit_price ord) \<le> c_high c
     | STOP \<Rightarrow> if o_direction ord = LONG then the (o_stop_price ord) \<le> c_high c
               else c_low c \<le> the (o_stop_price ord))"
  using assms unfolding execute_fills_iff
  by (cases "o_direction ord"; cases "o_order_type ord")
    (auto simp: fill_price_defs order_ok_def candle_ok_def split: if_splits)

theorem fill_trigger_witness:
  "\<not> (\<exists>f. execute demo_broker (demo_order SHORT LIMIT (Some 103)) (demo_candle 1 100) = Inr (Some f))"
  using fill_trigger [of "demo_order SHORT LIMIT (Some 103)" "demo_candle 1 100" demo_broker]
  by (simp add: demo_order_def demo_candle_def order_ok_def candle_ok_def)

end
