(* ===== verification/Position_Sizer.thy ===== *)
theory Position_Sizer
  imports Portfolio
begin

text \<open>
  The three position sizers of \<open>src/engine/position_sizer.py\<close>. Each is its validated
  parameters and a \<open>calculate\<close> function; the abstract base class is the interface
  \<open>position_sizer\<close>, which all three satisfy: a positive price gives a share count, and
  the count is at least one.
\<close>

section \<open>Fixed quantity and fixed fraction\<close>

definition fixed_quantity_init :: "int \<Rightarrow> int result" where
  "fixed_quantity_init quantity =
     (if quantity < 1 then Inl (ValueError ''quantity must be >= 1'') else Inr quantity)"

definition fixed_quantity_calculate ::
    "int \<Rightarrow> signal_event \<Rightarrow> portfolio \<Rightarrow> real \<Rightarrow> int result" where
  "fixed_quantity_calculate quantity sig p current_price = Inr quantity"

definition fixed_fraction_init :: "real \<Rightarrow> real result" where
  "fixed_fraction_init fraction =
     (if \<not> (0 < fraction \<and> fraction \<le> 1) then Inl (ValueError ''fraction must be in (0, 1]'')
      else Inr fraction)"

definition fixed_fraction_calculate ::
    "real \<Rightarrow> signal_event \<Rightarrow> portfolio \<Rightarrow> real \<Rightarrow> int result" where
  "fixed_fraction_calculate fraction sig p current_price =
     (if current_price \<le> 0 then Inl (ValueError ''current_price must be positive'')
      else rbind (fdiv (equity p * fraction) current_price) (\<lambda>x.
        let shares = \<lfloor>x\<rfloor> in Inr (max 1 shares)))"

section \<open>Kelly criterion\<close>

record kelly =
  k_lookback :: int
  k_fraction :: real
  k_max_pct :: real
  k_fallback :: real

definition kelly_init :: "int \<Rightarrow> real \<Rightarrow> real \<Rightarrow> kelly result" where
  "kelly_init lookback fraction max_pct =
     (if lookback < 1 then Inl (ValueError ''lookback must be >= 1'')
      else if \<not> (0 < fraction \<and> fraction \<le> 1) then Inl (ValueError ''fraction must be in (0, 1]'')
      else if \<not> (0 < max_pct \<and> max_pct \<le> 1) then Inl (ValueError ''max_pct must be in (0, 1]'')
      else rbind (fixed_fraction_init (2 / 100)) (\<lambda>fallback.
        Inr \<lparr>k_lookback = lookback, k_fraction = fraction, k_max_pct = max_pct,
             k_fallback = fallback\<rparr>))"

definition kelly_calculate :: "kelly \<Rightarrow> signal_event \<Rightarrow> portfolio \<Rightarrow> real \<Rightarrow> int result" where
  "kelly_calculate k sig p current_price =
     (if current_price \<le> 0 then Inl (ValueError ''current_price must be positive'')
      else
        let closed_trades = filter is_closed (pf_trades p);
            recent = last_n (nat (k_lookback k)) closed_trades
        in if int (length recent) < k_lookback k
           then fixed_fraction_calculate (k_fallback k) sig p current_price
        else
          let wins = filter (\<lambda>t. pnl t > 0) recent;
              losses = filter (\<lambda>t. pnl t \<le> 0) recent
          in rbind (fdiv (real (length wins)) (real (length recent))) (\<lambda>win_rate.
             if wins = [] \<or> losses = []
             then fixed_fraction_calculate (k_fallback k) sig p current_price
             else
               rbind (fdiv (sum_list (map pnl wins)) (real (length wins))) (\<lambda>avg_win.
               rbind (fdiv (sum_list (map pnl losses)) (real (length losses))) (\<lambda>l.
               let avg_loss = \<bar>l\<bar> in
               if avg_loss = 0 then fixed_fraction_calculate (k_fallback k) sig p current_price
               else
                 rbind (fdiv avg_win avg_loss) (\<lambda>win_loss_ratio.
                 rbind (fdiv (1 - win_rate) win_loss_ratio) (\<lambda>x.
                 let kelly_fraction = win_rate - x;
                     effective_fraction =
                       min (max (kelly_fraction * k_fraction k) 0) (k_max_pct k)
                 in if effective_fraction \<le> 0 then Inr 1
                    else rbind (fdiv (equity p * effective_fraction) current_price) (\<lambda>y.
                      Inr (max 1 \<lfloor>y\<rfloor>))))))))"

section \<open>The interface\<close>

locale position_sizer =
  fixes calculate :: "'z \<Rightarrow> signal_event \<Rightarrow> portfolio \<Rightarrow> real \<Rightarrow> int result"
    and sizer_ok :: "'z \<Rightarrow> bool"
  assumes calculate_returns: "sizer_ok z \<Longrightarrow> 0 < price \<Longrightarrow> \<exists>q. calculate z sig p price = Inr q"
    and calculate_at_least_one: "sizer_ok z \<Longrightarrow> calculate z sig p price = Inr q \<Longrightarrow> 1 \<le> q"
begin

text \<open>An opening order of the calculated size passes the checks of the order class.\<close>

lemma calculate_order_ok:
  assumes "sizer_ok z" and "calculate z sig p price = Inr q" and "signal_ok sig"
  shows "order_ok \<lparr>o_symbol = symb, o_direction = d, o_quantity = q,
    o_order_type = s_order_type sig, o_limit_price = s_limit_price sig,
    o_stop_price = s_stop_price sig, o_created_at = t, o_order_id = oid, o_ident = i\<rparr>"
  using calculate_at_least_one [OF assms(1,2)] assms(3)
  by (simp add: order_ok_def signal_ok_def)

end

definition fraction_ok :: "real \<Rightarrow> bool" where
  "fraction_ok f \<longleftrightarrow> 0 < f \<and> f \<le> 1"

definition kelly_ok :: "kelly \<Rightarrow> bool" where
  "kelly_ok k \<longleftrightarrow> 1 \<le> k_lookback k \<and> fraction_ok (k_fraction k) \<and> fraction_ok (k_max_pct k) \<and>
     fraction_ok (k_fallback k)"

lemma fixed_quantity_init_ok: "fixed_quantity_init q = Inr z \<Longrightarrow> 1 \<le> z"
  by (auto simp: fixed_quantity_init_def split: if_splits)

lemma fixed_fraction_init_ok: "fixed_fraction_init f = Inr z \<Longrightarrow> fraction_ok z"
  by (auto simp: fixed_fraction_init_def fraction_ok_def split: if_splits)

lemma kelly_init_ok: "kelly_init n f m = Inr k \<Longrightarrow> kelly_ok k"
  by (auto simp: kelly_init_def kelly_ok_def fixed_fraction_init_def fraction_ok_def
      split: if_splits)

lemma fixed_fraction_eq:
  "0 < price \<Longrightarrow> fixed_fraction_calculate f sig p price = Inr (max 1 \<lfloor>equity p * f / price\<rfloor>)"
  by (simp add: fixed_fraction_calculate_def Let_def)

text \<open>
  The Kelly sizer in closed form: it always returns, either one share, or the fallback, or
  the whole shares that a fraction between zero and the cap buys.
\<close>

lemma kelly_calculate_cases:
  assumes ok: "kelly_ok k" and price: "0 < price"
  shows "\<exists>f. 0 \<le> f \<and> f \<le> max (k_max_pct k) (k_fallback k) \<and>
    kelly_calculate k sig p price = Inr (max 1 \<lfloor>equity p * f / price\<rfloor>)"
proof -
  define recent where "recent = last_n (nat (k_lookback k)) (filter is_closed (pf_trades p))"
  define wins where "wins = filter (\<lambda>t. pnl t > 0) recent"
  define losses where "losses = filter (\<lambda>t. pnl t \<le> 0) recent"
  define win_rate where "win_rate = real (length wins) / real (length recent)"
  define avg_win where "avg_win = sum_list (map pnl wins) / real (length wins)"
  define l where "l = sum_list (map pnl losses) / real (length losses)"
  define y where "y = (1 - win_rate) / (avg_win / \<bar>l\<bar>)"
  define f where "f = min (max ((win_rate - y) * k_fraction k) 0) (k_max_pct k)"
  have fallback: "fraction_ok (k_fallback k)" and cap: "fraction_ok (k_max_pct k)"
    using ok by (simp_all add: kelly_ok_def)
  show ?thesis
  proof (cases "int (length recent) < k_lookback k \<or> wins = [] \<or> losses = [] \<or> \<bar>l\<bar> = 0")
    case True
    have "0 < length recent" if "\<not> int (length recent) < k_lookback k"
      using that ok by (auto simp: kelly_ok_def)
    with True price have "kelly_calculate k sig p price
        = fixed_fraction_calculate (k_fallback k) sig p price"
      by (auto simp: kelly_calculate_def Let_def recent_def [symmetric] wins_def [symmetric]
          losses_def [symmetric] l_def simp del: length_last_n)
    with fallback price show ?thesis
      by (intro exI [of _ "k_fallback k"]) (auto simp: fixed_fraction_eq fraction_ok_def)
  next
    case False
    then have "wins \<noteq> []" and "recent \<noteq> []" by (auto simp: wins_def)
    then have "0 < avg_win"
      unfolding avg_win_def by (intro divide_pos_pos sum_list_pos) (auto simp: wins_def)
    then have "fdiv (1 - win_rate) (avg_win / \<bar>l\<bar>) = Inr y"
      using False by (simp add: y_def del: divide_divide_eq_right)
    moreover have "fdiv (real (length wins)) (real (length recent)) = Inr win_rate"
        "fdiv (sum_list (map pnl wins)) (real (length wins)) = Inr avg_win"
        "fdiv (sum_list (map pnl losses)) (real (length losses)) = Inr l"
      using False \<open>recent \<noteq> []\<close> by (simp_all add: win_rate_def avg_win_def l_def)
    ultimately have "kelly_calculate k sig p price
        = (if f \<le> 0 then Inr 1 else Inr (max 1 \<lfloor>equity p * f / price\<rfloor>))"
      using False price
      by (simp add: kelly_calculate_def Let_def recent_def [symmetric] wins_def [symmetric]
          losses_def [symmetric] f_def [symmetric] del: length_last_n)
    moreover have "0 \<le> f" "f \<le> k_max_pct k"
      using cap by (auto simp: f_def fraction_ok_def)
    ultimately show ?thesis
      by (intro exI [of _ f]) (auto split: if_splits)
  qed
qed

interpretation fq: position_sizer fixed_quantity_calculate "\<lambda>q. 1 \<le> q"
  by unfold_locales (simp_all add: fixed_quantity_calculate_def)

interpretation ff: position_sizer fixed_fraction_calculate fraction_ok
proof (unfold_locales, goal_cases)
  case (1 z price sig p)
  then show ?case by (simp add: fixed_fraction_eq)
next
  case (2 z sig p price q)
  then show ?case
    by (auto simp: fixed_fraction_calculate_def result_simps Let_def split: if_splits)
qed

interpretation kc: position_sizer kelly_calculate kelly_ok
proof (unfold_locales, goal_cases)
  case (1 z price sig p)
  then show ?case using kelly_calculate_cases by blast
next
  case (2 z sig p price q)
  then have "0 < price"
    by (auto simp: kelly_calculate_def split: if_splits)
  with 2 show ?case
    using kelly_calculate_cases [of z price sig p] by auto
qed

text \<open>Exposure cap. A Kelly-sized position costs at most the larger of one share and the
  larger of the cap and the fallback fraction of a non-negative equity; the sizer returns on
  every positive price, whatever the trade history, so none of its divisions is by zero.\<close>

theorem kelly_exposure_capped:
  assumes "kelly_init n f m = Inr k" and "0 < price" and "0 \<le> equity p"
  shows "\<exists>q. kelly_calculate k sig p price = Inr q \<and> 1 \<le> q \<and>
    real_of_int q * price \<le> max price (equity p * max (k_max_pct k) (k_fallback k))"
proof -
  obtain g where g: "0 \<le> g" "g \<le> max (k_max_pct k) (k_fallback k)"
      "kelly_calculate k sig p price = Inr (max 1 \<lfloor>equity p * g / price\<rfloor>)"
    using kelly_calculate_cases [OF kelly_init_ok [OF assms(1)] assms(2)] by blast
  have "real_of_int \<lfloor>equity p * g / price\<rfloor> * price \<le> equity p * g / price * price"
    using assms(2) by (intro mult_right_mono) auto
  also have "\<dots> = equity p * g" using assms(2) by simp
  also have "\<dots> \<le> equity p * max (k_max_pct k) (k_fallback k)"
    using g assms(3) by (intro mult_left_mono) auto
  finally have "real_of_int (max 1 \<lfloor>equity p * g / price\<rfloor>) * price
      \<le> max price (equity p * max (k_max_pct k) (k_fallback k))"
    by (auto simp: max_def)
  with g show ?thesis by auto
qed

definition demo_signal :: "direction \<Rightarrow> signal_event" where
  "demo_signal d = \<lparr>s_symbol = [], s_direction = d, s_strength = 1, s_timestamp = 0,
     s_order_type = MARKET, s_limit_price = None, s_stop_price = None\<rparr>"

theorem kelly_exposure_capped_witness:
  "\<exists>k q. kelly_init 20 (1/2) (1/4) = Inr k \<and>
    kelly_calculate k (demo_signal LONG) demo_p0 7 = Inr q \<and> 1 \<le> q \<and> real_of_int q * 7 \<le> 250"
proof -
  have k: "kelly_init 20 (1/2) (1/4)
      = Inr \<lparr>k_lookback = 20, k_fraction = 1/2, k_max_pct = 1/4, k_fallback = 2/100\<rparr>"
    by (simp add: kelly_init_def fixed_fraction_init_def)
  have "equity demo_p0 = 1000"
    using portfolio_init_eq [OF demo_init] by (simp add: equity_def)
  with kelly_exposure_capped [OF k, of 7 demo_p0 "demo_signal LONG"] k
  show ?thesis by auto
qed

end
