(* ===== verification/Strategies.thy ===== *)
theory Strategies
  imports Market_Models
begin

text \<open>
  The strategy layer: the context of \<open>src/engine/context.py\<close>, the base class of
  \<open>src/strategies/base.py\<close> and the three strategies. A strategy object is the record of
  its attributes; \<open>on_candle\<close> returns the updated object with the signal, or the exception.
  The interface \<open>strategy\<close> states what the engine relies on, and all three strategies
  provide it; the lemmas relate their incremental indicators to the whole price history.
\<close>

section \<open>Context\<close>

record strategy_context =
  ctx_position_direction :: "direction option"
  ctx_position_quantity :: int
  ctx_pending_direction :: "direction option"
  ctx_pending_order_type :: "order_type option"
  ctx_forced_cover_pending :: bool

definition context_post_init :: "strategy_context \<Rightarrow> strategy_context result" where
  "context_post_init x =
     (if ctx_position_quantity x < 0
        then Inl (ValueError ''position_quantity must be nonnegative'')
      else if ctx_position_direction x = None \<and> ctx_position_quantity x \<noteq> 0
        then Inl (ValueError ''position_quantity must be zero when position_direction is None'')
      else if ctx_position_direction x \<noteq> None \<and> ctx_position_quantity x = 0
        then Inl (ValueError ''position_quantity must be positive when position_direction is set'')
      else Inr x)"

lemma context_post_init_iff:
  "context_post_init x = Inr y \<longleftrightarrow> y = x \<and>
     (case ctx_position_direction x of None \<Rightarrow> ctx_position_quantity x = 0
      | Some d \<Rightarrow> 0 < ctx_position_quantity x)"
  by (auto simp: context_post_init_def split: option.splits)

type_synonym 's on_candle =
  "'s \<Rightarrow> candle \<Rightarrow> strategy_context \<Rightarrow> ('s \<times> signal_event option) result"

text \<open>A signal with the defaults of the dataclass: market order, no conditional prices.\<close>

definition market_signal :: "string \<Rightarrow> direction \<Rightarrow> real \<Rightarrow> datetime \<Rightarrow> signal_event" where
  "market_signal symb d strength t =
     \<lparr>s_symbol = symb, s_direction = d, s_strength = strength, s_timestamp = t,
      s_order_type = MARKET, s_limit_price = None, s_stop_price = None\<rparr>"

definition flat :: "strategy_context \<Rightarrow> bool" where
  "flat x \<longleftrightarrow> ctx_position_direction x = None \<and> ctx_pending_direction x = None"

definition exitable :: "strategy_context \<Rightarrow> bool" where
  "exitable x \<longleftrightarrow> ctx_position_direction x = Some LONG \<and> \<not> ctx_forced_cover_pending x"

lemma not_flat_and_exitable: "\<not> (flat x \<and> exitable x)"
  by (simp add: flat_def exitable_def)

section \<open>Base class\<close>

definition vectorized_signal ::
    "'s on_candle \<Rightarrow> 's \<Rightarrow> candle list \<Rightarrow> strategy_context \<Rightarrow> ('s \<times> signal_event list) result" where
  "vectorized_signal on_candle s candles context =
     rfold (\<lambda>candle (s, signals).
       rbind (on_candle s candle context) (\<lambda>(s', signal).
         Inr (s', case signal of None \<Rightarrow> signals | Some sig \<Rightarrow> signals @ [sig])))
       candles (s, [])"

definition generate_orders :: "'s on_candle \<Rightarrow> 's on_candle" where
  "generate_orders on_candle s candle context = on_candle s candle context"

text \<open>Feeding a strategy a history, each candle with the context of its moment.\<close>

definition feed :: "'s on_candle \<Rightarrow> (candle \<times> strategy_context) list \<Rightarrow> 's \<Rightarrow> 's result" where
  "feed on_candle = rfold (\<lambda>(candle, context) s.
     rbind (on_candle s candle context) (\<lambda>(s', signal). Inr s'))"

text \<open>
  What the engine relies on: on an object in a valid state \<open>on_candle\<close> never raises and keeps
  the state valid, and a signal is complete.
\<close>

locale signal_source =
  fixes on_candle :: "'s on_candle"
    and valid :: "'s \<Rightarrow> bool"
  assumes on_candle_returns: "valid s \<Longrightarrow> \<exists>s' out. on_candle s c x = Inr (s', out) \<and> valid s'"
    and signal_complete: "valid s \<Longrightarrow> on_candle s c x = Inr (s', Some sig) \<Longrightarrow> signal_ok sig"
begin

lemma on_candle_valid: "valid s \<Longrightarrow> on_candle s c x = Inr (s', out) \<Longrightarrow> valid s'"
  using on_candle_returns [of s c x] by auto

lemma feed_returns: "valid s \<Longrightarrow> \<exists>s'. feed on_candle cs s = Inr s' \<and> valid s'"
  unfolding feed_def
proof (rule rfold_total)
  fix i s
  assume "valid s"
  then show "\<exists>t. (case i of (candle, context) \<Rightarrow> \<lambda>s. rbind (on_candle s candle context)
      (\<lambda>(s', signal). Inr s')) s = Inr t \<and> valid t"
    using on_candle_returns [of s "fst i" "snd i"] by (auto simp: split_beta)
qed

end

text \<open>
  The strategies of the repository promise more: a long signal is given only with no position
  and no pending order, a short one only to exit a long position, and \<open>reset\<close> gives a valid
  state.
\<close>

locale strategy = signal_source on_candle valid
  for on_candle :: "'s on_candle" and valid :: "'s \<Rightarrow> bool" +
  fixes reset :: "'s \<Rightarrow> 's"
  assumes entry_when_flat: "valid s \<Longrightarrow> on_candle s c x = Inr (s', Some sig) \<Longrightarrow>
      s_direction sig = LONG \<Longrightarrow> flat x"
    and exit_when_long: "valid s \<Longrightarrow> on_candle s c x = Inr (s', Some sig) \<Longrightarrow>
      s_direction sig = SHORT \<Longrightarrow> exitable x"
    and reset_valid: "valid s \<Longrightarrow> valid (reset s)"
begin

text \<open>With a fixed context all signals of a sweep point the same way.\<close>

lemma vectorized_signal_uniform:
  assumes "valid s"
  shows "\<exists>s' sigs. vectorized_signal on_candle s cs x = Inr (s', sigs) \<and> valid s' \<and>
    (\<forall>sig \<in> set sigs. signal_ok sig \<and> (if s_direction sig = LONG then flat x else exitable x))"
proof -
  let ?P = "\<lambda>(s', sigs). valid s' \<and>
    (\<forall>sig \<in> set sigs. signal_ok sig \<and> (if s_direction sig = LONG then flat x else exitable x))"
  have "\<exists>t. rfold (\<lambda>candle (s, signals). rbind (on_candle s candle x) (\<lambda>(s', signal).
      Inr (s', case signal of None \<Rightarrow> signals | Some sig \<Rightarrow> signals @ [sig]))) cs (s, []) = Inr t \<and> ?P t"
  proof (rule rfold_total)
    fix c st
    assume st: "?P st"
    obtain u sigs where u: "st = (u, sigs)" by (cases st)
    with st obtain u' out where step: "on_candle u c x = Inr (u', out)" "valid u'" "valid u"
      using on_candle_returns by fastforce
    have "signal_ok sig \<and> (if s_direction sig = LONG then flat x else exitable x)"
      if "out = Some sig" for sig
      using that step signal_complete entry_when_flat exit_when_long
      by (cases "s_direction sig") auto
    with st step u show "\<exists>t. (case st of (s, signals) \<Rightarrow> rbind (on_candle s c x) (\<lambda>(s', signal).
        Inr (s', case signal of None \<Rightarrow> signals | Some sig \<Rightarrow> signals @ [sig]))) = Inr t \<and> ?P t"
      by (cases out) auto
  qed (use assms in simp)
  then show ?thesis by (auto simp: vectorized_signal_def)
qed

end

section \<open>Moving-average crossover\<close>

record ma_crossover =
  ma_fast_period :: int
  ma_slow_period :: int
  ma_fast_window :: "real list"
  ma_slow_window :: "real list"
  ma_prev_fast_sma :: "real option"
  ma_prev_slow_sma :: "real option"

definition deque_append :: "int \<Rightarrow> 'a list \<Rightarrow> 'a \<Rightarrow> 'a list" where
  "deque_append maxlen w x = last_n (nat maxlen) (w @ [x])"

definition ma_init :: "int \<Rightarrow> int \<Rightarrow> ma_crossover result" where
  "ma_init fast_period slow_period =
     (if fast_period \<ge> slow_period
        then Inl (ValueError ''fast_period must be < slow_period'')
      else if fast_period < 0 \<or> slow_period < 0
        then Inl (ValueError ''maxlen must be non-negative'')
      else Inr \<lparr>ma_fast_period = fast_period, ma_slow_period = slow_period, ma_fast_window = [],
                ma_slow_window = [], ma_prev_fast_sma = None, ma_prev_slow_sma = None\<rparr>)"

definition sma :: "real list \<Rightarrow> real result" where
  "sma w = fdiv (sum_list w) (real (length w))"

definition ma_signal :: "real option \<Rightarrow> real option \<Rightarrow> real \<Rightarrow> real \<Rightarrow> candle \<Rightarrow> strategy_context
      \<Rightarrow> signal_event option" where
  "ma_signal prev_fast_sma prev_slow_sma fast_sma slow_sma candle context =
     (case (prev_fast_sma, prev_slow_sma) of
        (Some pf, Some ps) \<Rightarrow>
          let was_above = pf > ps; is_above = fast_sma > slow_sma
          in if \<not> was_above \<and> is_above \<and> ctx_position_direction context = None
                \<and> ctx_pending_direction context = None
             then Some (market_signal (strftime_ymd (c_timestamp candle)) LONG 1
               (c_timestamp candle))
             else if was_above \<and> \<not> is_above \<and> ctx_position_direction context = Some LONG
                \<and> \<not> ctx_forced_cover_pending context
             then Some (market_signal (strftime_ymd (c_timestamp candle)) SHORT 1
               (c_timestamp candle))
             else None
      | _ \<Rightarrow> None)"

definition ma_on_candle :: "ma_crossover on_candle" where
  "ma_on_candle s candle context =
     (let price = c_adj_close candle;
          s1 = s\<lparr>ma_fast_window := deque_append (ma_fast_period s) (ma_fast_window s) price,
                 ma_slow_window := deque_append (ma_slow_period s) (ma_slow_window s) price\<rparr>
      in if int (length (ma_slow_window s1)) < ma_slow_period s1 then Inr (s1, None)
      else
        rbind (sma (ma_fast_window s1)) (\<lambda>fast_sma.
        rbind (sma (ma_slow_window s1)) (\<lambda>slow_sma.
        let signal = ma_signal (ma_prev_fast_sma s1) (ma_prev_slow_sma s1) fast_sma slow_sma
              candle context
        in Inr (s1\<lparr>ma_prev_fast_sma := Some fast_sma, ma_prev_slow_sma := Some slow_sma\<rparr>,
                signal))))"

definition ma_reset :: "ma_crossover \<Rightarrow> ma_crossover" where
  "ma_reset s = s\<lparr>ma_fast_window := [], ma_slow_window := [], ma_prev_fast_sma := None,
     ma_prev_slow_sma := None\<rparr>"

section \<open>RSI mean reversion\<close>

record rsi_state =
  rsi_period :: int
  rsi_oversold :: real
  rsi_exit_level :: real
  rsi_previous_price :: "real option"
  rsi_seed_gain_total :: real
  rsi_seed_loss_total :: real
  rsi_change_count :: int
  rsi_avg_gain :: "real option"
  rsi_avg_loss :: "real option"
  rsi_rsi :: "real option"

definition rsi_init :: "int \<Rightarrow> real \<Rightarrow> real \<Rightarrow> rsi_state" where
  "rsi_init period oversold exit_level =
     \<lparr>rsi_period = period, rsi_oversold = oversold, rsi_exit_level = exit_level,
      rsi_previous_price = None, rsi_seed_gain_total = 0, rsi_seed_loss_total = 0,
      rsi_change_count = 0, rsi_avg_gain = None, rsi_avg_loss = None, rsi_rsi = None\<rparr>"

definition rsi_from_averages :: "real \<Rightarrow> real \<Rightarrow> real result" where
  "rsi_from_averages avg_gain avg_loss =
     (if avg_loss = 0 then Inr 100
      else rbind (fdiv avg_gain avg_loss) (\<lambda>rs.
        rbind (fdiv 100 (1 + rs)) (\<lambda>x. Inr (100 - x))))"

definition rsi_signal :: "rsi_state \<Rightarrow> candle \<Rightarrow> strategy_context \<Rightarrow> real \<Rightarrow> signal_event option result" where
  "rsi_signal s candle context rsi =
     (if ctx_position_direction context = None \<and> ctx_pending_direction context = None
         \<and> rsi < rsi_oversold s
      then rbind (fdiv (rsi_oversold s - rsi) (rsi_oversold s)) (\<lambda>strength.
        Inr (Some (market_signal [] LONG strength (c_timestamp candle))))
      else if ctx_position_direction context = Some LONG \<and> \<not> ctx_forced_cover_pending context
         \<and> rsi \<ge> rsi_exit_level s
      then Inr (Some (market_signal [] SHORT 1 (c_timestamp candle)))
      else Inr None)"

definition rsi_on_candle :: "rsi_state on_candle" where
  "rsi_on_candle s candle context =
     (case rsi_previous_price s of
        None \<Rightarrow> Inr (s\<lparr>rsi_previous_price := Some (c_adj_close candle)\<rparr>, None)
      | Some previous \<Rightarrow>
          let change = c_adj_close candle - previous;
              gain = max change 0;
              loss = max (- change) 0;
              n = real_of_int (rsi_period s);
              s1 = s\<lparr>rsi_previous_price := Some (c_adj_close candle),
                     rsi_change_count := rsi_change_count s + 1\<rparr>;
              finish = (\<lambda>s2 avg_gain avg_loss.
                rbind (rsi_from_averages avg_gain avg_loss) (\<lambda>rsi.
                rbind (rsi_signal s2 candle context rsi) (\<lambda>signal.
                Inr (s2\<lparr>rsi_avg_gain := Some avg_gain, rsi_avg_loss := Some avg_loss,
                        rsi_rsi := Some rsi\<rparr>, signal))))
          in case (rsi_avg_gain s1, rsi_avg_loss s1) of
               (Some ag, Some al) \<Rightarrow>
                 rbind (fdiv (ag * (n - 1) + gain) n) (\<lambda>avg_gain.
                 rbind (fdiv (al * (n - 1) + loss) n) (\<lambda>avg_loss.
                 finish s1 avg_gain avg_loss))
             | _ \<Rightarrow>
                 let s2 = s1\<lparr>rsi_seed_gain_total := rsi_seed_gain_total s1 + gain,
                             rsi_seed_loss_total := rsi_seed_loss_total s1 + loss\<rparr>
                 in if rsi_change_count s2 < rsi_period s2 then Inr (s2, None)
                    else
                      rbind (fdiv (rsi_seed_gain_total s2) n) (\<lambda>avg_gain.
                      rbind (fdiv (rsi_seed_loss_total s2) n) (\<lambda>avg_loss.
                      finish s2 avg_gain avg_loss)))"

definition rsi_reset :: "rsi_state \<Rightarrow> rsi_state" where
  "rsi_reset s = s\<lparr>rsi_previous_price := None, rsi_seed_gain_total := 0,
     rsi_seed_loss_total := 0, rsi_change_count := 0, rsi_avg_gain := None,
     rsi_avg_loss := None, rsi_rsi := None\<rparr>"

section \<open>Donchian breakout\<close>

record breakout =
  bo_lookback :: int
  bo_highs :: "real list"
  bo_lows :: "real list"
  bo_prev_high :: "real option"
  bo_prev_low :: "real option"

definition breakout_init :: "int \<Rightarrow> breakout result" where
  "breakout_init lookback =
     (if lookback < 0 then Inl (ValueError ''maxlen must be non-negative'')
      else Inr \<lparr>bo_lookback = lookback, bo_highs = [], bo_lows = [], bo_prev_high = None,
                bo_prev_low = None\<rparr>)"

definition py_max :: "real list \<Rightarrow> real result" where
  "py_max xs = (case xs of [] \<Rightarrow> Inl (ValueError ''max() iterable argument is empty'')
     | y # ys \<Rightarrow> Inr (fold max ys y))"

definition py_min :: "real list \<Rightarrow> real result" where
  "py_min xs = (case xs of [] \<Rightarrow> Inl (ValueError ''min() iterable argument is empty'')
     | y # ys \<Rightarrow> Inr (fold min ys y))"

definition breakout_signal ::
    "real \<Rightarrow> real \<Rightarrow> candle \<Rightarrow> strategy_context \<Rightarrow> signal_event option" where
  "breakout_signal prev_high prev_low candle context =
     (if ctx_position_direction context = None
         \<and> ctx_pending_direction context = None \<and> c_close candle > prev_high
      then Some \<lparr>s_symbol = [], s_direction = LONG, s_strength = 1,
                 s_timestamp = c_timestamp candle, s_order_type = STOP,
                 s_limit_price = None, s_stop_price = Some prev_high\<rparr>
      else if ctx_position_direction context = Some LONG
         \<and> \<not> ctx_forced_cover_pending context \<and> c_close candle < prev_low
      then Some (market_signal [] SHORT 1 (c_timestamp candle))
      else None)"

definition breakout_on_candle :: "breakout on_candle" where
  "breakout_on_candle s candle context =
     rbind
       (if int (length (bo_highs s)) \<ge> bo_lookback s
        then rbind (py_max (bo_highs s)) (\<lambda>h.
             rbind (py_min (bo_lows s)) (\<lambda>l.
             Inr (s\<lparr>bo_prev_high := Some h, bo_prev_low := Some l\<rparr>)))
        else Inr s)
       (\<lambda>s1.
        let s2 = s1\<lparr>bo_highs := deque_append (bo_lookback s1) (bo_highs s1) (c_high candle),
                    bo_lows := deque_append (bo_lookback s1) (bo_lows s1) (c_low candle)\<rparr>
        in if int (length (bo_highs s2)) < bo_lookback s2 then Inr (s2, None)
           else case (bo_prev_high s2, bo_prev_low s2) of
             (Some prev_high, Some prev_low) \<Rightarrow>
               Inr (s2, breakout_signal prev_high prev_low candle context)
           | _ \<Rightarrow> Inr (s2, None))"

definition breakout_reset :: "breakout \<Rightarrow> breakout" where
  "breakout_reset s = s\<lparr>bo_highs := [], bo_lows := [], bo_prev_high := None,
     bo_prev_low := None\<rparr>"

section \<open>The strategies satisfy the interface\<close>

definition ma_valid :: "ma_crossover \<Rightarrow> bool" where
  "ma_valid s \<longleftrightarrow> 1 \<le> ma_fast_period s \<and> ma_fast_period s < ma_slow_period s"

lemma deque_append_nonempty: "1 \<le> n \<Longrightarrow> deque_append n w x \<noteq> []"
  by (simp add: deque_append_def last_n_def)

lemma sma_nonempty: "w \<noteq> [] \<Longrightarrow> sma w = Inr (sum_list w / real (length w))"
  by (simp add: sma_def)

lemma market_signal_ok: "signal_ok (market_signal symb d x t)"
  by (simp add: market_signal_def signal_ok_def)

lemma market_signal_direction [simp]: "s_direction (market_signal symb d x t) = d"
  by (simp add: market_signal_def)

definition mean :: "real list \<Rightarrow> real" where
  "mean w = sum_list w / real (length w)"

text \<open>One bar in closed form: the windows move, and past the warm-up the averages follow.\<close>

definition ma_next :: "ma_crossover \<Rightarrow> candle \<Rightarrow> ma_crossover" where
  "ma_next s c =
     (let fast = deque_append (ma_fast_period s) (ma_fast_window s) (c_adj_close c);
          slow = deque_append (ma_slow_period s) (ma_slow_window s) (c_adj_close c);
          s1 = s\<lparr>ma_fast_window := fast, ma_slow_window := slow\<rparr>
      in if int (length slow) < ma_slow_period s then s1
         else s1\<lparr>ma_prev_fast_sma := Some (mean fast), ma_prev_slow_sma := Some (mean slow)\<rparr>)"

lemma ma_on_candle_eq:
  assumes "ma_valid s"
  shows "ma_on_candle s c x = Inr (ma_next s c,
    let fast = deque_append (ma_fast_period s) (ma_fast_window s) (c_adj_close c);
        slow = deque_append (ma_slow_period s) (ma_slow_window s) (c_adj_close c)
    in if int (length slow) < ma_slow_period s then None
       else ma_signal (ma_prev_fast_sma s) (ma_prev_slow_sma s) (mean fast) (mean slow) c x)"
proof -
  have "deque_append (ma_fast_period s) (ma_fast_window s) (c_adj_close c) \<noteq> []"
    and "deque_append (ma_slow_period s) (ma_slow_window s) (c_adj_close c) \<noteq> []"
    using assms by (simp_all add: ma_valid_def deque_append_nonempty)
  then show ?thesis
    by (simp add: ma_on_candle_def ma_next_def Let_def sma_nonempty mean_def)
qed

lemma ma_signal_context:
  "ma_signal pf ps f l c x = Some sig \<Longrightarrow> signal_ok sig \<and>
    (s_direction sig = LONG \<longrightarrow> flat x) \<and> (s_direction sig = SHORT \<longrightarrow> exitable x)"
  by (cases pf; cases ps)
    (auto simp: ma_signal_def market_signal_ok flat_def exitable_def Let_def split: if_splits)

interpretation ma: strategy ma_on_candle ma_valid ma_reset
proof (unfold_locales, goal_cases)
  case (1 s c x)
  then show ?case by (simp add: ma_on_candle_eq) (simp add: ma_valid_def ma_next_def Let_def)
next
  case (5 s)
  then show ?case by (simp add: ma_valid_def ma_reset_def)
qed (auto simp: ma_on_candle_eq Let_def split: if_splits dest: ma_signal_context)

definition rsi_valid :: "rsi_state \<Rightarrow> bool" where
  "rsi_valid s \<longleftrightarrow> 1 \<le> rsi_period s \<and> 0 \<le> rsi_seed_gain_total s \<and> 0 \<le> rsi_seed_loss_total s \<and>
     (\<forall>a. rsi_avg_gain s = Some a \<longrightarrow> 0 \<le> a) \<and> (\<forall>a. rsi_avg_loss s = Some a \<longrightarrow> 0 \<le> a)"

lemma rsi_from_averages_bounds:
  assumes "0 \<le> g" and "0 \<le> l"
  shows "\<exists>r. rsi_from_averages g l = Inr r \<and> 0 \<le> r \<and> r \<le> 100"
proof (cases "l = 0")
  case True
  then show ?thesis by (simp add: rsi_from_averages_def)
next
  case False
  let ?rs = "g / l"
  have rs: "0 \<le> ?rs" using assms by simp
  then have "100 / (1 + ?rs) \<le> 100" and "0 \<le> 100 / (1 + ?rs)"
    by (simp_all add: divide_le_eq)
  with False rs show ?thesis
    by (simp add: rsi_from_averages_def add_nonneg_eq_0_iff)
qed

lemma rsi_signal_returns:
  assumes "0 \<le> r"
  shows "\<exists>out. rsi_signal s c x r = Inr out"
  using assms by (auto simp: rsi_signal_def)

lemma rsi_signal_context:
  assumes "rsi_signal s c x r = Inr (Some sig)"
  shows "signal_ok sig \<and> (s_direction sig = LONG \<longrightarrow> flat x) \<and> (s_direction sig = SHORT \<longrightarrow> exitable x)"
  using assms
  by (auto simp: rsi_signal_def result_simps market_signal_ok flat_def exitable_def split: if_splits)

text \<open>One step of the averages: where the seed ends, and Wilder's smoothing after it.\<close>

definition rsi_averages :: "rsi_state \<Rightarrow> real \<Rightarrow> real \<Rightarrow> (real \<times> real) option" where
  "rsi_averages s gain loss =
     (let n = real_of_int (rsi_period s) in
      case (rsi_avg_gain s, rsi_avg_loss s) of
        (Some ag, Some al) \<Rightarrow> Some ((ag * (n - 1) + gain) / n, (al * (n - 1) + loss) / n)
      | _ \<Rightarrow> if rsi_change_count s + 1 < rsi_period s then None
             else Some ((rsi_seed_gain_total s + gain) / n, (rsi_seed_loss_total s + loss) / n))"

definition rsi_seeded :: "rsi_state \<Rightarrow> bool" where
  "rsi_seeded s \<longleftrightarrow> rsi_avg_gain s \<noteq> None \<and> rsi_avg_loss s \<noteq> None"

definition rsi_next :: "rsi_state \<Rightarrow> real \<Rightarrow> real \<Rightarrow> real \<Rightarrow> rsi_state" where
  "rsi_next s price gain loss =
     (let s1 = s\<lparr>rsi_previous_price := Some price, rsi_change_count := rsi_change_count s + 1\<rparr>
      in if rsi_seeded s then s1
         else s1\<lparr>rsi_seed_gain_total := rsi_seed_gain_total s + gain,
                 rsi_seed_loss_total := rsi_seed_loss_total s + loss\<rparr>)"

lemma rsi_on_candle_eq:
  assumes "1 \<le> rsi_period s" and "rsi_previous_price s = Some previous"
  shows "rsi_on_candle s c x =
    (let change = c_adj_close c - previous; gain = max change 0; loss = max (- change) 0;
         s1 = rsi_next s (c_adj_close c) gain loss
     in case rsi_averages s gain loss of
          None \<Rightarrow> Inr (s1, None)
        | Some (avg_gain, avg_loss) \<Rightarrow>
            rbind (rsi_from_averages avg_gain avg_loss) (\<lambda>rsi.
            rbind (rsi_signal s1 c x rsi) (\<lambda>signal.
            Inr (s1\<lparr>rsi_avg_gain := Some avg_gain, rsi_avg_loss := Some avg_loss,
                    rsi_rsi := Some rsi\<rparr>, signal))))"
  using assms
  by (simp add: rsi_on_candle_def rsi_averages_def rsi_next_def rsi_seeded_def Let_def
      split: option.splits)

lemma rsi_averages_nonneg:
  assumes "rsi_valid s" and "rsi_averages s gain loss = Some (ag, al)" and "0 \<le> gain" "0 \<le> loss"
  shows "0 \<le> ag \<and> 0 \<le> al"
proof -
  have "1 \<le> real_of_int (rsi_period s)" using assms(1) by (simp add: rsi_valid_def)
  with assms show ?thesis
    by (auto simp: rsi_averages_def rsi_valid_def Let_def split: option.splits if_splits)
qed

lemma rsi_next_valid:
  "rsi_valid s \<Longrightarrow> 0 \<le> gain \<Longrightarrow> 0 \<le> loss \<Longrightarrow> rsi_valid (rsi_next s price gain loss)"
  by (simp add: rsi_valid_def rsi_next_def Let_def)

lemma rsi_step:
  assumes valid: "rsi_valid s"
  shows "\<exists>s' out. rsi_on_candle s c x = Inr (s', out) \<and> rsi_valid s' \<and>
    (\<forall>sig. out = Some sig \<longrightarrow> signal_ok sig \<and> (s_direction sig = LONG \<longrightarrow> flat x) \<and>
       (s_direction sig = SHORT \<longrightarrow> exitable x))"
proof (cases "rsi_previous_price s")
  case None
  with valid show ?thesis by (simp add: rsi_on_candle_def rsi_valid_def)
next
  case (Some previous)
  define gain where "gain = max (c_adj_close c - previous) 0"
  define loss where "loss = max (- (c_adj_close c - previous)) 0"
  define s1 where "s1 = rsi_next s (c_adj_close c) gain loss"
  have period: "1 \<le> rsi_period s" using valid by (simp add: rsi_valid_def)
  have nonneg: "0 \<le> gain" "0 \<le> loss" by (simp_all add: gain_def loss_def)
  with valid have s1: "rsi_valid s1" by (simp add: s1_def rsi_next_valid)
  note step = rsi_on_candle_eq [OF period Some, of c x, unfolded Let_def,
      folded gain_def loss_def, folded s1_def]
  show ?thesis
  proof (cases "rsi_averages s gain loss")
    case None
    with step s1 show ?thesis by simp
  next
    case (Some av)
    then obtain ag al where av: "rsi_averages s gain loss = Some (ag, al)" by (cases av) auto
    with valid nonneg have "0 \<le> ag" "0 \<le> al" using rsi_averages_nonneg by blast+
    then obtain r where r: "rsi_from_averages ag al = Inr r" "0 \<le> r"
      using rsi_from_averages_bounds by blast
    then obtain out where out: "rsi_signal s1 c x r = Inr out"
      using rsi_signal_returns by blast
    have "rsi_valid (s1\<lparr>rsi_avg_gain := Some ag, rsi_avg_loss := Some al, rsi_rsi := Some r\<rparr>)"
      using s1 \<open>0 \<le> ag\<close> \<open>0 \<le> al\<close> by (simp add: rsi_valid_def)
    with step av r out show ?thesis
      using rsi_signal_context by fastforce
  qed
qed

interpretation rsi: strategy rsi_on_candle rsi_valid rsi_reset
proof (unfold_locales, goal_cases)
  case (1 s c x)
  then show ?case using rsi_step [of s c x] by blast
next
  case (2 s c x s' sig)
  then show ?case using rsi_step [of s c x] by auto
next
  case (3 s c x s' sig)
  then show ?case using rsi_step [of s c x] by auto
next
  case (4 s c x s' sig)
  then show ?case using rsi_step [of s c x] by auto
next
  case (5 s)
  then show ?case by (simp add: rsi_valid_def rsi_reset_def)
qed

definition breakout_valid :: "breakout \<Rightarrow> bool" where
  "breakout_valid s \<longleftrightarrow> 1 \<le> bo_lookback s \<and> length (bo_highs s) = length (bo_lows s)"

lemma length_deque_append: "length (deque_append n w x) = min (nat n) (Suc (length w))"
  by (simp add: deque_append_def)

lemma breakout_signal_context:
  "breakout_signal h l c x = Some sig \<Longrightarrow> signal_ok sig \<and>
    (s_direction sig = LONG \<longrightarrow> flat x) \<and> (s_direction sig = SHORT \<longrightarrow> exitable x)"
  by (auto simp: breakout_signal_def market_signal_def flat_def exitable_def signal_ok_def
      split: if_splits)

lemma py_max_nonempty: "xs \<noteq> [] \<Longrightarrow> py_max xs = Inr (Max (set xs))"
  by (cases xs) (simp_all add: py_max_def Max.set_eq_fold [symmetric])

lemma py_min_nonempty: "xs \<noteq> [] \<Longrightarrow> py_min xs = Inr (Min (set xs))"
  by (cases xs) (simp_all add: py_min_def Min.set_eq_fold [symmetric])

text \<open>The channel that a candle is compared with, and the state it leaves.\<close>

definition channel_of :: "breakout \<Rightarrow> breakout" where
  "channel_of s =
     (if bo_lookback s \<le> int (length (bo_highs s))
      then s\<lparr>bo_prev_high := Some (Max (set (bo_highs s))),
             bo_prev_low := Some (Min (set (bo_lows s)))\<rparr>
      else s)"

definition breakout_next :: "breakout \<Rightarrow> candle \<Rightarrow> breakout" where
  "breakout_next s c = (let s1 = channel_of s in
     s1\<lparr>bo_highs := deque_append (bo_lookback s) (bo_highs s) (c_high c),
        bo_lows := deque_append (bo_lookback s) (bo_lows s) (c_low c)\<rparr>)"

lemma breakout_on_candle_eq:
  assumes "breakout_valid s"
  shows "breakout_on_candle s c x = Inr (breakout_next s c,
    if int (length (deque_append (bo_lookback s) (bo_highs s) (c_high c))) < bo_lookback s then None
    else case (bo_prev_high (channel_of s), bo_prev_low (channel_of s)) of
      (Some h, Some l) \<Rightarrow> breakout_signal h l c x | _ \<Rightarrow> None)"
proof -
  have "(if int (length (bo_highs s)) \<ge> bo_lookback s
        then rbind (py_max (bo_highs s)) (\<lambda>h. rbind (py_min (bo_lows s)) (\<lambda>l.
             Inr (s\<lparr>bo_prev_high := Some h, bo_prev_low := Some l\<rparr>)))
        else Inr s) = Inr (channel_of s)"
  proof (cases "bo_lookback s \<le> int (length (bo_highs s))")
    case True
    with assms have "bo_highs s \<noteq> []" "bo_lows s \<noteq> []" by (auto simp: breakout_valid_def)
    with True show ?thesis by (simp add: channel_of_def py_max_nonempty py_min_nonempty)
  qed (simp add: channel_of_def)
  moreover have "bo_lookback (channel_of s) = bo_lookback s" "bo_highs (channel_of s) = bo_highs s"
      "bo_lows (channel_of s) = bo_lows s"
    by (simp_all add: channel_of_def)
  ultimately show ?thesis
    by (simp add: breakout_on_candle_def breakout_next_def Let_def split: option.split)
qed

lemma breakout_next_valid: "breakout_valid s \<Longrightarrow> breakout_valid (breakout_next s c)"
  by (simp add: breakout_valid_def breakout_next_def channel_of_def length_deque_append Let_def)

interpretation bo: strategy breakout_on_candle breakout_valid breakout_reset
proof (unfold_locales, goal_cases)
  case (1 s c x)
  then show ?case by (simp add: breakout_on_candle_eq breakout_next_valid)
next
  case (5 s)
  then show ?case by (simp add: breakout_valid_def breakout_reset_def)
qed (auto simp: breakout_on_candle_eq split: if_splits option.splits
    dest: breakout_signal_context)

section \<open>Indicators against the whole history\<close>

lemma feed_snoc:
  "feed on_candle (cs @ [(c, x)]) s =
    rbind (feed on_candle cs s) (\<lambda>s'. rbind (on_candle s' c x) (\<lambda>(s'', out). Inr s''))"
  by (cases "feed on_candle cs s") (simp_all add: feed_def rfold_append split_beta rbind_def
      split: sum.split)

text \<open>
  Induction over a history: a relation between the object and the candles it has seen, true at
  the start and kept by every bar, holds after any history, which never raises.
\<close>

lemma feed_tracks:
  assumes "\<And>s h c x. R s h \<Longrightarrow> \<exists>s' out. on_candle s c x = Inr (s', out) \<and> R s' (h @ [c])"
    and "R s []"
  shows "\<exists>s'. feed on_candle cs s = Inr s' \<and> R s' (map fst cs)"
proof (induction cs rule: rev_induct)
  case Nil
  with assms(2) show ?case by (simp add: feed_def)
next
  case (snoc cx cs)
  then obtain s' where "feed on_candle cs s = Inr s'" and "R s' (map fst cs)" by blast
  moreover obtain c x where cx: "cx = (c, x)" by (cases cx)
  moreover from assms(1) [OF \<open>R s' (map fst cs)\<close>, of c x] obtain s'' out
    where "on_candle s' c x = Inr (s'', out)" "R s'' (map fst cs @ [c])" by blast
  ultimately show ?case by (simp add: feed_snoc)
qed

lemma deque_append_last_n: "deque_append n (last_n (nat n) xs) x = last_n (nat n) (xs @ [x])"
  by (simp add: deque_append_def last_n_snoc)

definition ma_tracks :: "int \<Rightarrow> int \<Rightarrow> ma_crossover \<Rightarrow> candle list \<Rightarrow> bool" where
  "ma_tracks n m s h \<longleftrightarrow> (let ps = map c_adj_close h in
     1 \<le> n \<and> n < m \<and> ma_fast_period s = n \<and> ma_slow_period s = m \<and>
     ma_fast_window s = last_n (nat n) ps \<and> ma_slow_window s = last_n (nat m) ps \<and>
     ma_prev_fast_sma s = (if nat m \<le> length ps then Some (mean (last_n (nat n) ps)) else None) \<and>
     ma_prev_slow_sma s = (if nat m \<le> length ps then Some (mean (last_n (nat m) ps)) else None))"

lemma ma_tracks_valid: "ma_tracks n m s h \<Longrightarrow> ma_valid s"
  by (auto simp: ma_tracks_def ma_valid_def Let_def)

lemma ma_tracks_step: "ma_tracks n m s h \<Longrightarrow> ma_tracks n m (ma_next s c) (h @ [c])"
  by (auto simp: ma_tracks_def ma_next_def Let_def deque_append_last_n min_def)

text \<open>Reference: the crossover of the simple averages of the closing prices.\<close>

definition sma_cross ::
    "nat \<Rightarrow> nat \<Rightarrow> candle list \<Rightarrow> candle \<Rightarrow> strategy_context \<Rightarrow> signal_event option" where
  "sma_cross n m h c x =
     (let before = map c_adj_close h; after = map c_adj_close (h @ [c]);
          above = (\<lambda>ps. mean (last_n m ps) < mean (last_n n ps));
          sig = (\<lambda>d. Some (market_signal (strftime_ymd (c_timestamp c)) d 1 (c_timestamp c)))
      in if length before < m then None
         else if \<not> above before \<and> above after \<and> flat x then sig LONG
         else if above before \<and> \<not> above after \<and> exitable x then sig SHORT
         else None)"

lemma ma_tracks_signal:
  assumes "ma_tracks n m s h"
  shows "ma_on_candle s c x = Inr (ma_next s c, sma_cross (nat n) (nat m) h c x)"
proof -
  have windows: "ma_fast_window s = last_n (nat n) (map c_adj_close h)"
      "ma_slow_window s = last_n (nat m) (map c_adj_close h)"
      "ma_fast_period s = n" "ma_slow_period s = m" "1 \<le> n" "n < m"
    using assms by (simp_all add: ma_tracks_def Let_def)
  show ?thesis
  proof (cases "length h < nat m")
    case True
    then have "ma_prev_fast_sma s = None" using assms by (simp add: ma_tracks_def Let_def)
    with True show ?thesis
      by (simp add: ma_on_candle_eq [OF ma_tracks_valid [OF assms]] ma_signal_def sma_cross_def Let_def)
  next
    case False
    then have "ma_prev_fast_sma s = Some (mean (last_n (nat n) (map c_adj_close h)))"
        "ma_prev_slow_sma s = Some (mean (last_n (nat m) (map c_adj_close h)))"
      using assms by (simp_all add: ma_tracks_def Let_def)
    with False windows show ?thesis
      by (simp add: ma_on_candle_eq [OF ma_tracks_valid [OF assms]] ma_signal_def sma_cross_def
          flat_def exitable_def deque_append_last_n Let_def)
  qed
qed

text \<open>C10: the moving-average strategy computes what it says. After any history, whatever the
  contexts were, the signal on the next candle is the crossover of the two simple moving
  averages of the adjusted closes, computed from the whole history; within the first
  \<open>slow\<close> bars there is none.\<close>

theorem ma_signal_is_crossover:
  assumes "ma_init fast slow = Inr s0" and "1 \<le> fast"
  shows "\<exists>s s'. feed ma_on_candle history s0 = Inr s \<and>
    ma_on_candle s c x = Inr (s', sma_cross (nat fast) (nat slow) (map fst history) c x)"
proof -
  have "ma_tracks fast slow s0 []"
    using assms by (auto simp: ma_init_def ma_tracks_def last_n_def split: if_splits)
  then have "\<exists>s. feed ma_on_candle history s0 = Inr s \<and> ma_tracks fast slow s (map fst history)"
    by (rule feed_tracks [rotated])
      (auto simp: ma_on_candle_eq [OF ma_tracks_valid] intro: ma_tracks_step)
  then show ?thesis using ma_tracks_signal by blast
qed

definition bo_tracks :: "int \<Rightarrow> breakout \<Rightarrow> candle list \<Rightarrow> bool" where
  "bo_tracks n s h \<longleftrightarrow> 1 \<le> n \<and> bo_lookback s = n \<and>
     bo_highs s = last_n (nat n) (map c_high h) \<and> bo_lows s = last_n (nat n) (map c_low h) \<and>
     (length h < nat n \<longrightarrow> bo_prev_high s = None \<and> bo_prev_low s = None)"

lemma bo_tracks_valid: "bo_tracks n s h \<Longrightarrow> breakout_valid s"
  by (simp add: bo_tracks_def breakout_valid_def)

lemma bo_tracks_step: "bo_tracks n s h \<Longrightarrow> bo_tracks n (breakout_next s c) (h @ [c])"
  by (auto simp: bo_tracks_def breakout_next_def channel_of_def deque_append_last_n Let_def)

text \<open>Reference: the Donchian channel of the bars before the current one.\<close>

definition donchian_signal ::
    "nat \<Rightarrow> candle list \<Rightarrow> candle \<Rightarrow> strategy_context \<Rightarrow> signal_event option" where
  "donchian_signal n h c x =
     (if length h < n then None
      else breakout_signal (Max (set (last_n n (map c_high h)))) (Min (set (last_n n (map c_low h)))) c x)"

text \<open>The breakout strategy trades the channel of the preceding bars. After any history the
  signal compares the close with the highest high and the lowest low of the last
  \<open>lookback\<close> bars before the current one, and a long signal carries that high as its stop
  price.\<close>

theorem breakout_signal_is_donchian:
  assumes "breakout_init n = Inr s0" and "1 \<le> n"
  shows "\<exists>s s'. feed breakout_on_candle history s0 = Inr s \<and>
    breakout_on_candle s c x = Inr (s', donchian_signal (nat n) (map fst history) c x)"
proof -
  have "bo_tracks n s0 []"
    using assms by (auto simp: breakout_init_def bo_tracks_def last_n_def split: if_splits)
  then have "\<exists>s. feed breakout_on_candle history s0 = Inr s \<and> bo_tracks n s (map fst history)"
    by (rule feed_tracks [rotated])
      (auto simp: breakout_on_candle_eq [OF bo_tracks_valid] intro: bo_tracks_step)
  then obtain s where s: "feed breakout_on_candle history s0 = Inr s"
      and tr: "bo_tracks n s (map fst history)" by blast
  have "(if int (length (deque_append (bo_lookback s) (bo_highs s) (c_high c))) < bo_lookback s
      then None
      else case (bo_prev_high (channel_of s), bo_prev_low (channel_of s)) of
        (Some h, Some l) \<Rightarrow> breakout_signal h l c x | _ \<Rightarrow> None)
      = donchian_signal (nat n) (map fst history) c x"
    using tr
    by (auto simp: bo_tracks_def donchian_signal_def channel_of_def length_deque_append min_def
        split: option.split)
  with s show ?thesis
    by (simp add: breakout_on_candle_eq [OF bo_tracks_valid [OF tr]])
qed

section \<open>Wilder's averages\<close>

fun price_changes :: "real list \<Rightarrow> real list" where
  "price_changes (a # b # ps) = (b - a) # price_changes (b # ps)"
| "price_changes _ = []"

lemma price_changes_snoc:
  "ps \<noteq> [] \<Longrightarrow> price_changes (ps @ [x]) = price_changes ps @ [x - last ps]"
  by (induction ps rule: price_changes.induct) auto

lemma length_price_changes: "length (price_changes ps) = length ps - 1"
  by (induction ps rule: price_changes.induct) auto

text \<open>Reference: the mean of the first \<open>n\<close> values, smoothed by every later one.\<close>

definition wilder :: "nat \<Rightarrow> real list \<Rightarrow> real option" where
  "wilder n xs =
     (if length xs < n then None
      else Some (foldl (\<lambda>a g. (a * (real n - 1) + g) / real n) (mean (take n xs)) (drop n xs)))"

lemma wilder_snoc:
  assumes "0 < n"
  shows "wilder n (xs @ [g]) =
    (case wilder n xs of
       Some a \<Rightarrow> Some ((a * (real n - 1) + g) / real n)
     | None \<Rightarrow> if Suc (length xs) < n then None else Some ((sum_list xs + g) / real n))"
  using assms by (auto simp: wilder_def mean_def)

definition up_moves :: "candle list \<Rightarrow> real list" where
  "up_moves h = map (\<lambda>d. max d 0) (price_changes (map c_adj_close h))"

definition down_moves :: "candle list \<Rightarrow> real list" where
  "down_moves h = map (\<lambda>d. max (- d) 0) (price_changes (map c_adj_close h))"

text \<open>Reference: the index and the signal, computed from all closes up to the current bar.\<close>

definition wilder_rsi :: "nat \<Rightarrow> candle list \<Rightarrow> real option" where
  "wilder_rsi n h =
     (case (wilder n (up_moves h), wilder n (down_moves h)) of
        (Some g, Some l) \<Rightarrow> Some (if l = 0 then 100 else 100 - 100 / (1 + g / l))
      | _ \<Rightarrow> None)"

definition rsi_reference ::
    "nat \<Rightarrow> real \<Rightarrow> real \<Rightarrow> candle list \<Rightarrow> candle \<Rightarrow> strategy_context \<Rightarrow> signal_event option" where
  "rsi_reference n oversold exit_level h c x =
     (case wilder_rsi n (h @ [c]) of
        None \<Rightarrow> None
      | Some r \<Rightarrow>
          if flat x \<and> r < oversold
            then Some (market_signal [] LONG ((oversold - r) / oversold) (c_timestamp c))
          else if exitable x \<and> exit_level \<le> r
            then Some (market_signal [] SHORT 1 (c_timestamp c))
          else None)"

definition rsi_tracks :: "int \<Rightarrow> rsi_state \<Rightarrow> candle list \<Rightarrow> bool" where
  "rsi_tracks n s h \<longleftrightarrow> rsi_valid s \<and> rsi_period s = n \<and>
     rsi_previous_price s = (if h = [] then None else Some (c_adj_close (last h))) \<and>
     rsi_change_count s = int (length h - 1) \<and>
     rsi_avg_gain s = wilder (nat n) (up_moves h) \<and>
     rsi_avg_loss s = wilder (nat n) (down_moves h) \<and>
     (rsi_avg_gain s = None \<longrightarrow> rsi_seed_gain_total s = sum_list (up_moves h) \<and>
        rsi_seed_loss_total s = sum_list (down_moves h)) \<and>
     rsi_rsi s = wilder_rsi (nat n) h"

lemma moves_snoc:
  assumes "h \<noteq> []"
  shows "up_moves (h @ [c]) = up_moves h @ [max (c_adj_close c - c_adj_close (last h)) 0]"
    and "down_moves (h @ [c]) = down_moves h @ [max (- (c_adj_close c - c_adj_close (last h))) 0]"
  using assms by (simp_all add: up_moves_def down_moves_def price_changes_snoc last_map)

lemma length_moves: "length (up_moves h) = length h - 1" "length (down_moves h) = length h - 1"
  by (simp_all add: up_moves_def down_moves_def length_price_changes)

lemma wilder_None: "wilder n xs = None \<longleftrightarrow> length xs < n"
  by (simp add: wilder_def)

lemma wilder_both:
  "wilder n (up_moves h) = None \<longleftrightarrow> wilder n (down_moves h) = None"
  by (simp add: wilder_None length_moves)

text \<open>The averages that one bar computes are Wilder's averages of the longer history.\<close>

lemma rsi_averages_wilder:
  assumes "rsi_tracks n s h" and "h \<noteq> []"
    and "gain = max (c_adj_close c - c_adj_close (last h)) 0"
    and "loss = max (- (c_adj_close c - c_adj_close (last h))) 0"
  shows "rsi_averages s gain loss =
    (case (wilder (nat n) (up_moves (h @ [c])), wilder (nat n) (down_moves (h @ [c]))) of
       (Some a, Some b) \<Rightarrow> Some (a, b) | _ \<Rightarrow> None)"
proof -
  have n: "1 \<le> n" "0 < nat n" "real (nat n) = real_of_int n"
    using assms(1) by (auto simp: rsi_tracks_def rsi_valid_def)
  obtain k where k: "length h = Suc k"
    using assms(2) by (cases h) auto
  show ?thesis
  proof (cases "k < nat n")
    case True
    then have "wilder (nat n) (up_moves h) = None" "wilder (nat n) (down_moves h) = None"
      by (simp_all add: wilder_None length_moves k)
    moreover have "Suc k < nat n \<longleftrightarrow> int k + 1 < n" by linarith
    ultimately show ?thesis
      using assms n
      by (auto simp: rsi_averages_def rsi_tracks_def wilder_snoc moves_snoc length_moves k Let_def)
  next
    case False
    then obtain a b where "wilder (nat n) (up_moves h) = Some a" "wilder (nat n) (down_moves h) = Some b"
      by (cases "wilder (nat n) (up_moves h)"; cases "wilder (nat n) (down_moves h)")
        (auto simp: wilder_None length_moves k)
    with assms n show ?thesis
      by (simp add: rsi_averages_def rsi_tracks_def wilder_snoc moves_snoc Let_def)
  qed
qed

lemma rsi_from_averages_eq:
  "0 \<le> g \<Longrightarrow> 0 \<le> l \<Longrightarrow>
    rsi_from_averages g l = Inr (if l = 0 then 100 else 100 - 100 / (1 + g / l))"
  by (simp add: rsi_from_averages_def add_nonneg_eq_0_iff)

lemma rsi_signal_eq:
  assumes "0 \<le> r"
  shows "rsi_signal s c x r = Inr
    (if flat x \<and> r < rsi_oversold s
       then Some (market_signal [] LONG ((rsi_oversold s - r) / rsi_oversold s) (c_timestamp c))
     else if exitable x \<and> rsi_exit_level s \<le> r
       then Some (market_signal [] SHORT 1 (c_timestamp c))
     else None)"
  using assms by (auto simp: rsi_signal_def flat_def exitable_def)

lemma rsi_next_frame:
  "rsi_oversold (rsi_next s p g l) = rsi_oversold s"
  "rsi_exit_level (rsi_next s p g l) = rsi_exit_level s"
  "rsi_period (rsi_next s p g l) = rsi_period s"
  "rsi_previous_price (rsi_next s p g l) = Some p"
  "rsi_change_count (rsi_next s p g l) = rsi_change_count s + 1"
  "rsi_avg_gain (rsi_next s p g l) = rsi_avg_gain s"
  "rsi_avg_loss (rsi_next s p g l) = rsi_avg_loss s"
  "rsi_rsi (rsi_next s p g l) = rsi_rsi s"
  by (simp_all add: rsi_next_def Let_def)

lemma rsi_next_seed:
  "rsi_avg_gain s = None \<Longrightarrow>
    rsi_seed_gain_total (rsi_next s p g l) = rsi_seed_gain_total s + g \<and>
    rsi_seed_loss_total (rsi_next s p g l) = rsi_seed_loss_total s + l"
  by (simp add: rsi_next_def rsi_seeded_def Let_def)

lemma rsi_tracks_step:
  assumes tr: "rsi_tracks n s h"
  shows "\<exists>s'. rsi_on_candle s c x = Inr (s',
      rsi_reference (nat n) (rsi_oversold s) (rsi_exit_level s) h c x) \<and>
    rsi_tracks n s' (h @ [c]) \<and> rsi_oversold s' = rsi_oversold s \<and>
    rsi_exit_level s' = rsi_exit_level s"
proof (cases "h = []")
  case True
  have none: "wilder (nat n) [] = None"
    using tr by (simp add: rsi_tracks_def rsi_valid_def wilder_None)
  have "up_moves [] = []" "down_moves [] = []" "up_moves [c] = []" "down_moves [c] = []"
    by (simp_all add: up_moves_def down_moves_def)
  with True tr none show ?thesis
    by (simp add: rsi_on_candle_def rsi_reference_def wilder_rsi_def rsi_tracks_def rsi_valid_def)
next
  case False
  define gain where "gain = max (c_adj_close c - c_adj_close (last h)) 0"
  define loss where "loss = max (- (c_adj_close c - c_adj_close (last h))) 0"
  define s1 where "s1 = rsi_next s (c_adj_close c) gain loss"
  have valid: "rsi_valid s" and period: "1 \<le> rsi_period s" and pn: "rsi_period s = n"
    and prev: "rsi_previous_price s = Some (c_adj_close (last h))"
    using tr False by (simp_all add: rsi_tracks_def rsi_valid_def)
  have nonneg: "0 \<le> gain" "0 \<le> loss" by (simp_all add: gain_def loss_def)
  with valid have s1: "rsi_valid s1" by (simp add: s1_def rsi_next_valid)
  have count: "rsi_change_count s + 1 = int (length (h @ [c]) - 1)"
    using tr False by (cases h) (simp_all add: rsi_tracks_def)
  note step = rsi_on_candle_eq [OF period prev, of c x, unfolded Let_def,
      folded gain_def loss_def, folded s1_def]
  note av = rsi_averages_wilder [OF tr False gain_def loss_def]
  note moves = moves_snoc [OF False, of c, folded gain_def loss_def]
  show ?thesis
  proof (cases "wilder (nat n) (up_moves (h @ [c]))")
    case None
    then have none: "wilder (nat n) (down_moves (h @ [c])) = None"
      by (simp add: wilder_both [symmetric])
    have old: "rsi_avg_gain s = None" "rsi_avg_loss s = None"
      using None none tr by (auto simp: rsi_tracks_def wilder_None moves)
    moreover have "wilder (nat n) (up_moves h) = None" "wilder (nat n) (down_moves h) = None"
      using old tr by (simp_all add: rsi_tracks_def)
    ultimately have "rsi_tracks n s1 (h @ [c])"
      using tr s1 pn count None none rsi_next_seed [OF old(1)]
      by (simp add: rsi_tracks_def s1_def rsi_next_frame moves wilder_rsi_def)
    with None none step av show ?thesis
      by (auto simp: rsi_reference_def wilder_rsi_def s1_def rsi_next_frame)
  next
    case (Some ag)
    then obtain al where al: "wilder (nat n) (down_moves (h @ [c])) = Some al"
      using wilder_both by (metis not_None_eq)
    have avs: "rsi_averages s gain loss = Some (ag, al)" using av Some al by simp
    then have pos: "0 \<le> ag" "0 \<le> al" using rsi_averages_nonneg [OF valid _ nonneg] by blast+
    define r where "r = (if al = 0 then 100 else 100 - 100 / (1 + ag / al))"
    have r: "rsi_from_averages ag al = Inr r" "0 \<le> r" "wilder_rsi (nat n) (h @ [c]) = Some r"
      using rsi_from_averages_eq [OF pos] rsi_from_averages_bounds [OF pos] Some al
      by (auto simp: r_def wilder_rsi_def)
    let ?s' = "s1\<lparr>rsi_avg_gain := Some ag, rsi_avg_loss := Some al, rsi_rsi := Some r\<rparr>"
    have "rsi_valid ?s'" using s1 pos by (simp add: rsi_valid_def)
    then have "rsi_tracks n ?s' (h @ [c])"
      using pn count Some al r by (simp add: rsi_tracks_def s1_def rsi_next_frame)
    with step avs r show ?thesis
      by (simp add: rsi_signal_eq rsi_reference_def s1_def rsi_next_frame)
  qed
qed

lemma rsi_reference_bounds:
  assumes "rsi_tracks n s h" and "rsi_rsi s = Some r"
  shows "0 \<le> r \<and> r \<le> 100"
proof -
  obtain g l where "rsi_avg_gain s = Some g" "rsi_avg_loss s = Some l"
      "r = (if l = 0 then 100 else 100 - 100 / (1 + g / l))"
    using assms by (auto simp: rsi_tracks_def wilder_rsi_def split: option.splits)
  moreover from this have "0 \<le> g" "0 \<le> l"
    using assms by (auto simp: rsi_tracks_def rsi_valid_def)
  ultimately show ?thesis
    using rsi_from_averages_bounds [of g l] rsi_from_averages_eq [of g l] by auto
qed

text \<open>C11: the RSI strategy computes Wilder's index. After any history the next candle sets
  \<open>rsi\<close> to the index of Wilder's smoothed averages of all closes so far, which lies between 0
  and 100, and the signal is the threshold crossing of that index; before \<open>period\<close> price
  changes there is neither.\<close>

theorem rsi_is_wilder:
  assumes "1 \<le> n"
  shows "\<exists>s s'. feed rsi_on_candle history (rsi_init n oversold exit_level) = Inr s \<and>
    rsi_on_candle s c x
      = Inr (s', rsi_reference (nat n) oversold exit_level (map fst history) c x) \<and>
    rsi_rsi s' = wilder_rsi (nat n) (map fst history @ [c]) \<and>
    (\<forall>r. rsi_rsi s' = Some r \<longrightarrow> 0 \<le> r \<and> r \<le> 100)"
proof -
  let ?R = "\<lambda>s h. rsi_tracks n s h \<and> rsi_oversold s = oversold \<and> rsi_exit_level s = exit_level"
  have "wilder_rsi (nat n) [] = None" "wilder (nat n) [] = None"
      "up_moves [] = []" "down_moves [] = []"
    using assms by (simp_all add: wilder_rsi_def wilder_def up_moves_def down_moves_def)
  with assms have "?R (rsi_init n oversold exit_level) []"
    by (simp add: rsi_init_def rsi_tracks_def rsi_valid_def)
  then have "\<exists>s. feed rsi_on_candle history (rsi_init n oversold exit_level) = Inr s
      \<and> ?R s (map fst history)"
    by (rule feed_tracks [rotated]) (use rsi_tracks_step in fastforce)
  then obtain s where s: "feed rsi_on_candle history (rsi_init n oversold exit_level) = Inr s"
      "?R s (map fst history)" by blast
  with rsi_tracks_step [of n s "map fst history" c x] obtain s'
    where "rsi_on_candle s c x
        = Inr (s', rsi_reference (nat n) oversold exit_level (map fst history) c x)"
      and tr: "rsi_tracks n s' (map fst history @ [c])" by auto
  moreover have "rsi_rsi s' = wilder_rsi (nat n) (map fst history @ [c])"
    using tr by (simp add: rsi_tracks_def)
  ultimately show ?thesis using s rsi_reference_bounds [OF tr] by blast
qed

section \<open>Concrete runs\<close>

definition demo_bar :: "datetime \<Rightarrow> real \<Rightarrow> candle" where
  "demo_bar t x = \<lparr>c_timestamp = t, c_open = x, c_high = x + 1, c_low = x - 1, c_close = x,
     c_volume = 1, c_adj_close = x\<rparr>"

definition flat_context :: strategy_context where
  "flat_context = \<lparr>ctx_position_direction = None, ctx_position_quantity = 0,
     ctx_pending_direction = None, ctx_pending_order_type = None,
     ctx_forced_cover_pending = False\<rparr>"

definition demo_history :: "(candle \<times> strategy_context) list" where
  "demo_history = [(demo_bar 0 10, flat_context), (demo_bar 1 8, flat_context)]"

lemmas demo_strategy_eval = demo_bar_def flat_context_def demo_history_def flat_def exitable_def
  last_n_def mean_def

theorem ma_signal_is_crossover_witness:
  "\<exists>s0 s s' sig. ma_init 1 2 = Inr s0 \<and> feed ma_on_candle demo_history s0 = Inr s \<and>
    ma_on_candle s (demo_bar 2 12) flat_context = Inr (s', Some sig) \<and> s_direction sig = LONG"
proof -
  obtain s0 where s0: "ma_init 1 2 = Inr s0" by (simp add: ma_init_def)
  have cross: "sma_cross (nat 1) (nat 2) (map fst demo_history) (demo_bar 2 12) flat_context
      = Some (market_signal (strftime_ymd 2) LONG 1 2)"
    by (simp add: sma_cross_def demo_strategy_eval Let_def)
  have "\<exists>s s'. feed ma_on_candle demo_history s0 = Inr s \<and>
      ma_on_candle s (demo_bar 2 12) flat_context
        = Inr (s', Some (market_signal (strftime_ymd 2) LONG 1 2))"
    using ma_signal_is_crossover [OF s0, of demo_history "demo_bar 2 12" flat_context] cross
    by simp
  with s0 show ?thesis by (metis market_signal_direction)
qed

theorem breakout_signal_is_donchian_witness:
  "\<exists>s0 s s' sig. breakout_init 2 = Inr s0 \<and> feed breakout_on_candle demo_history s0 = Inr s \<and>
    breakout_on_candle s (demo_bar 2 12) flat_context = Inr (s', Some sig) \<and>
    s_stop_price sig = Some 11"
proof -
  obtain s0 where s0: "breakout_init 2 = Inr s0" by (simp add: breakout_init_def)
  obtain sig where sig: "donchian_signal (nat 2) (map fst demo_history) (demo_bar 2 12) flat_context
      = Some sig" "s_stop_price sig = Some 11"
    by (simp add: donchian_signal_def breakout_signal_def demo_strategy_eval)
  with breakout_signal_is_donchian [OF s0, of demo_history "demo_bar 2 12" flat_context]
  have "\<exists>s s'. feed breakout_on_candle demo_history s0 = Inr s \<and>
      breakout_on_candle s (demo_bar 2 12) flat_context = Inr (s', Some sig)"
    by simp
  with s0 sig show ?thesis by blast
qed

theorem rsi_is_wilder_witness:
  "\<exists>s s'. feed rsi_on_candle demo_history (rsi_init 2 30 50) = Inr s \<and>
    rsi_on_candle s (demo_bar 2 12) flat_context = Inr (s', None) \<and>
    rsi_rsi s' = Some (100 - 100 / 3)"
proof -
  have "wilder_rsi (nat 2) (map fst demo_history @ [demo_bar 2 12]) = Some (100 - 100 / 3)"
    by (simp add: wilder_rsi_def wilder_def up_moves_def down_moves_def demo_strategy_eval)
  moreover from this have
    "rsi_reference (nat 2) 30 50 (map fst demo_history) (demo_bar 2 12) flat_context = None"
    by (simp add: rsi_reference_def demo_strategy_eval)
  ultimately show ?thesis
    using rsi_is_wilder [of 2 demo_history 30 50 "demo_bar 2 12" flat_context] by auto
qed

text \<open>The constructors do not check for empty windows. A breakout with look-back 0 and a
  crossover with fast period 0 are constructed without complaint and raise on their first,
  respectively first complete, bar, and an RSI with period 0 raises on its second bar.\<close>

theorem zero_periods_accepted_then_raise:
  "(\<exists>s m. breakout_init 0 = Inr s \<and> breakout_on_candle s c x = Inl (ValueError m)) \<and>
   (\<exists>s. ma_init 0 1 = Inr s \<and> ma_on_candle s c x = Inl ZeroDivisionError) \<and>
   (\<exists>s. rsi_on_candle (rsi_init 0 lo hi) c x = Inr (s, None) \<and>
      rsi_on_candle s c' x' = Inl ZeroDivisionError)"
  by (simp add: breakout_init_def breakout_on_candle_def py_max_def ma_init_def ma_on_candle_def
      deque_append_def last_n_def sma_def fdiv_def rsi_init_def rsi_on_candle_def Let_def)

end
