(* ===== verification/Backtest_Engine.thy ===== *)
theory Backtest_Engine
  imports Broker Position_Sizer Strategies
begin

text \<open>
  The bar-by-bar engine of \<open>src/engine/backtest.py\<close>. One run is a fold of
  \<open>process_bar\<close> over the candles; inside a bar, events are drained from a FIFO queue by
  handlers that may append further events. The strategy, the sizer and the UUID source are
  the run's collaborators. The lifecycle log of orders is kept as a list, so that the fate of
  every order can be stated. The exceptions that leave \<open>run\<close> are its \<open>Inl\<close> values.
\<close>

section \<open>Configuration, result and state\<close>

record backtest_config =
  cfg_initial_capital :: xfloat
  cfg_commission_pct :: real
  cfg_slippage_pct :: real
  cfg_short_initial_margin :: xfloat
  cfg_short_maintenance_margin :: xfloat
  cfg_annual_short_borrow_rate :: xfloat
  cfg_borrow_day_count :: xfloat

definition config_post_init :: "backtest_config \<Rightarrow> backtest_config result" where
  "config_post_init cfg =
     (let margin_settings = [cfg_short_initial_margin cfg, cfg_short_maintenance_margin cfg,
            cfg_annual_short_borrow_rate cfg, cfg_borrow_day_count cfg]
      in if \<not> list_all isfinite margin_settings
           then Inl (ValueError ''Short margin settings must be finite'')
         else if cfg_short_initial_margin cfg < Fin 1
           then Inl (ValueError ''Short initial margin must be at least 1.0'')
         else if cfg_short_maintenance_margin cfg < Fin 0
           then Inl (ValueError ''Short maintenance margin must be nonnegative'')
         else if cfg_annual_short_borrow_rate cfg < Fin 0
           then Inl (ValueError ''Annual short borrow rate must be nonnegative'')
         else if cfg_borrow_day_count cfg \<le> Fin 0
           then Inl (ValueError ''Borrow day count must be positive'')
         else Inr cfg)"

record backtest_result =
  res_strategy_name :: string
  res_symbol :: string
  res_start_date :: datetime
  res_end_date :: datetime
  res_parameters :: "(string, real) dict"
  res_trades :: "trade list"
  res_equity_curve :: "equity_point list"
  res_final_equity :: real
  res_initial_capital :: xfloat
  res_run_id :: string

record pending_order =
  po_order :: order
  po_forced_cover :: bool

text \<open>The order lifecycle events that the engine logs.\<close>

datatype lifecycle =
    Queued order
  | Replaced order
  | Filled order
  | Rejected order
  | Untriggered order
  | Cancelled_end_of_data order
  | Margin_call_queued string int xfloat
  | Margin_call_unresolved order

text \<open>
  The mutable state of a run. \<open>rs_strategy\<close> is the strategy object. \<open>rs_next_ident\<close>
  supplies object identities: a new order gets one that no live order has. \<open>rs_fills\<close> counts
  the calls of \<open>record_fill\<close> and indexes the UUIDs that they draw.
\<close>

record ('s, 'z) run_state =
  rs_run_id :: string
  rs_portfolio :: portfolio
  rs_broker :: broker
  rs_strategy :: 's
  rs_requested_symbol :: "string option"
  rs_position_sizer :: 'z
  rs_symbol :: string
  rs_pending :: "pending_order option"
  rs_forced_order_ids :: "nat list"
  rs_next_ident :: nat
  rs_fills :: nat
  rs_log :: "lifecycle list"

text \<open>The code that a run calls but does not own.\<close>

record ('s, 'z) collaborators =
  env_name :: string
  env_parameters :: "'s \<Rightarrow> (string, real) dict"
  env_on_candle :: "'s on_candle"
  env_calculate :: "'z \<Rightarrow> signal_event \<Rightarrow> portfolio \<Rightarrow> real \<Rightarrow> int result"
  env_uuid :: "nat \<Rightarrow> string"

section \<open>Handlers\<close>

definition build_context :: "portfolio \<Rightarrow> pending_order option \<Rightarrow> strategy_context result" where
  "build_context p pending =
     (let (position_direction, position_quantity) =
        (case pf_open_positions p of
           (symb, pos) # _ \<Rightarrow> (Some (pos_direction pos), pos_quantity pos)
         | [] \<Rightarrow> (None, 0))
      in context_post_init
        \<lparr>ctx_position_direction = position_direction,
         ctx_position_quantity = position_quantity,
         ctx_pending_direction = map_option (\<lambda>po. o_direction (po_order po)) pending,
         ctx_pending_order_type = map_option (\<lambda>po. o_order_type (po_order po)) pending,
         ctx_forced_cover_pending =
           (case pending of None \<Rightarrow> False | Some po \<Rightarrow> po_forced_cover po)\<rparr>)"

text \<open>Python's \<open>a or b\<close> on strings that may be \<open>None\<close>: the empty string is false.\<close>

definition str_or :: "string option \<Rightarrow> string \<Rightarrow> string" where
  "str_or a b = (case a of None \<Rightarrow> b | Some s \<Rightarrow> if s = [] then b else s)"

definition build_order ::
    "('z \<Rightarrow> signal_event \<Rightarrow> portfolio \<Rightarrow> real \<Rightarrow> int result) \<Rightarrow> signal_event \<Rightarrow> portfolio \<Rightarrow> candle
      \<Rightarrow> string option \<Rightarrow> 'z \<Rightarrow> nat \<Rightarrow> order option result" where
  "build_order calculate signal p candle requested_symbol sizer ident =
     (let new_order = (\<lambda>symb quantity. rbind (order_post_init
            \<lparr>o_symbol = symb, o_direction = s_direction signal, o_quantity = quantity,
             o_order_type = s_order_type signal, o_limit_price = s_limit_price signal,
             o_stop_price = s_stop_price signal, o_created_at = s_timestamp signal,
             o_order_id = [], o_ident = ident\<rparr>) (\<lambda>ord. Inr (Some ord)))
      in case pf_open_positions p of
           (execution_symbol, pos) # _ \<Rightarrow>
             if s_direction signal \<noteq> opposite (pos_direction pos) then Inr None
             else new_order execution_symbol (pos_quantity pos)
         | [] \<Rightarrow>
             rbind (calculate sizer signal p (c_close candle))
               (new_order (str_or requested_symbol (s_symbol signal))))"

definition handle_fill_event ::
    "('s, 'z) collaborators \<Rightarrow> fill_event \<Rightarrow> ('s, 'z) run_state \<Rightarrow> ('s, 'z) run_state result" where
  "handle_fill_event env event st =
     (case rs_pending st of
        None \<Rightarrow> Inl (RuntimeError ''FillEvent dispatched without a pending order'')
      | Some pending \<Rightarrow>
          rbind (record_fill (rs_portfolio st) (f_symbol event) (f_direction event)
              (f_quantity event) (Fin (f_fill_price event)) (f_fill_date event)
              (Fin (f_commission event)) (env_uuid env (rs_fills st))) (\<lambda>(p, fill_outcome).
            let st1 = st\<lparr>rs_portfolio := p, rs_fills := rs_fills st + 1\<rparr>;
                st2 = (if \<not> fo_accepted fill_outcome
                       then st1\<lparr>rs_log := rs_log st1 @ [Rejected (po_order pending)]\<rparr>
                       else st1\<lparr>rs_log := rs_log st1 @ [Filled (po_order pending)],
                                rs_symbol := f_symbol event\<rparr>)
            in Inr (st2\<lparr>rs_pending := None\<rparr>)))"

definition handle_market_event ::
    "('s, 'z) collaborators \<Rightarrow> candle \<Rightarrow> event list \<Rightarrow> ('s, 'z) run_state
      \<Rightarrow> (event list \<times> ('s, 'z) run_state) result" where
  "handle_market_event env candle events st =
     rbind (build_context (rs_portfolio st) (rs_pending st)) (\<lambda>context.
     rbind (env_on_candle env (rs_strategy st) candle context) (\<lambda>(s', signal).
       let st1 = st\<lparr>rs_strategy := s'\<rparr>
       in Inr (case signal of None \<Rightarrow> (events, st1)
               | Some sig \<Rightarrow> (events @ [SignalEvent sig], st1))))"

definition handle_signal_event ::
    "('s, 'z) collaborators \<Rightarrow> signal_event \<Rightarrow> event list \<Rightarrow> ('s, 'z) run_state \<Rightarrow> candle
      \<Rightarrow> (event list \<times> ('s, 'z) run_state) result" where
  "handle_signal_event env event events st candle =
     (if (case rs_pending st of None \<Rightarrow> False | Some po \<Rightarrow> po_forced_cover po)
      then Inr (events, st)
      else rbind (build_order (env_calculate env) event (rs_portfolio st) candle
                    (rs_requested_symbol st) (rs_position_sizer st) (rs_next_ident st)) (\<lambda>ord.
        Inr (case ord of
               None \<Rightarrow> (events, st)
             | Some ord \<Rightarrow> (events @ [OrderEvent ord],
                            st\<lparr>rs_next_ident := rs_next_ident st + 1\<rparr>))))"

definition handle_order_event :: "order \<Rightarrow> ('s, 'z) run_state \<Rightarrow> ('s, 'z) run_state" where
  "handle_order_event ord st =
     (let forced_cover = o_ident ord \<in> set (rs_forced_order_ids st);
          st1 = st\<lparr>rs_forced_order_ids := removeAll (o_ident ord) (rs_forced_order_ids st)\<rparr>;
          st2 = (case rs_pending st1 of
                   None \<Rightarrow> st1
                 | Some po \<Rightarrow> st1\<lparr>rs_log := rs_log st1 @ [Replaced (po_order po)]\<rparr>)
      in st2\<lparr>rs_symbol := o_symbol ord,
             rs_pending := Some \<lparr>po_order = ord, po_forced_cover = forced_cover\<rparr>,
             rs_log := rs_log st2 @ [Queued ord]\<rparr>)"

definition dispatch_event ::
    "('s, 'z) collaborators \<Rightarrow> event \<Rightarrow> event list \<Rightarrow> ('s, 'z) run_state \<Rightarrow> candle
      \<Rightarrow> (event list \<times> ('s, 'z) run_state) result" where
  "dispatch_event env event events st candle =
     (case event of
        FillEvent f \<Rightarrow> rbind (handle_fill_event env f st) (\<lambda>st'. Inr (events, st'))
      | MarketEvent symb c \<Rightarrow> handle_market_event env c events st
      | SignalEvent sig \<Rightarrow> handle_signal_event env sig events st candle
      | OrderEvent ord \<Rightarrow> Inr (events, handle_order_event ord st))"

text \<open>
  Every handler replaces its event by at most one event of a later stage (market, signal,
  order), so draining the queue ends.
\<close>

fun event_rank :: "event \<Rightarrow> nat" where
  "event_rank (MarketEvent _ _) = 3"
| "event_rank (SignalEvent _) = 2"
| "event_rank (OrderEvent _) = 1"
| "event_rank (FillEvent _) = 1"

definition queue_rank :: "event list \<Rightarrow> nat" where
  "queue_rank events = sum_list (map event_rank events)"

lemma dispatch_decreases:
  assumes "dispatch_event env event events st candle = Inr (events', st')"
  shows "queue_rank events' < event_rank event + queue_rank events"
proof (cases event)
  case (MarketEvent symb c)
  with assms show ?thesis
    by (auto simp: dispatch_event_def handle_market_event_def result_simps queue_rank_def Let_def
        split: option.splits)
next
  case (SignalEvent sig)
  with assms show ?thesis
    by (auto simp: dispatch_event_def handle_signal_event_def result_simps queue_rank_def
        split: option.splits if_splits)
qed (use assms in \<open>auto simp: dispatch_event_def result_simps\<close>)

function drain_events ::
    "('s, 'z) collaborators \<Rightarrow> event list \<Rightarrow> ('s, 'z) run_state \<Rightarrow> candle
      \<Rightarrow> ('s, 'z) run_state result" where
  "drain_events env [] st candle = Inr st"
| "drain_events env (event # events) st candle =
     rbind (dispatch_event env event events st candle) (\<lambda>(events', st').
       drain_events env events' st' candle)"
  by pat_completeness auto

termination
  by (relation "measure (\<lambda>(env, events, st, candle). queue_rank events)")
    (auto dest: dispatch_decreases simp: queue_rank_def)

section \<open>A bar and a run\<close>

definition accrue_phase ::
    "nat \<Rightarrow> candle \<Rightarrow> ('s, 'z) run_state \<Rightarrow> ('s, 'z) run_state result" where
  "accrue_phase candle_index candle st =
     (if candle_index > 0
      then rbind (accrue_short_borrow (rs_portfolio st) (c_timestamp candle)) (\<lambda>(p, charge).
        Inr (st\<lparr>rs_portfolio := p\<rparr>))
      else Inr st)"

definition execute_phase ::
    "('s, 'z) collaborators \<Rightarrow> candle \<Rightarrow> ('s, 'z) run_state \<Rightarrow> ('s, 'z) run_state result" where
  "execute_phase env candle st =
     (case rs_pending st of
        None \<Rightarrow> Inr st
      | Some pending \<Rightarrow>
          rbind (execute (rs_broker st) (po_order pending) candle) (\<lambda>fill.
            case fill of
              None \<Rightarrow>
                let st1 = st\<lparr>rs_log := rs_log st @ [Untriggered (po_order pending)]\<rparr>
                in Inr (if o_order_type (po_order pending) \<notin> {LIMIT, STOP}
                        then st1\<lparr>rs_pending := None\<rparr> else st1)
            | Some f \<Rightarrow> drain_events env [FillEvent f] st candle))"

definition mark_phase :: "candle \<Rightarrow> ('s, 'z) run_state \<Rightarrow> ('s, 'z) run_state" where
  "mark_phase candle st =
     st\<lparr>rs_portfolio := update_prices (rs_portfolio st) [(rs_symbol st, c_close candle)]
          (c_timestamp candle)\<rparr>"

definition margin_phase ::
    "('s, 'z) collaborators \<Rightarrow> backtest_config \<Rightarrow> candle \<Rightarrow> ('s, 'z) run_state
      \<Rightarrow> ('s, 'z) run_state result" where
  "margin_phase env cfg candle st =
     (if (case rs_pending st of None \<Rightarrow> True | Some po \<Rightarrow> \<not> po_forced_cover po) then
        (case pf_open_positions (rs_portfolio st) of
           [(position_symbol, pos)] \<Rightarrow>
             (case maintenance_ratio (rs_portfolio st) position_symbol of
                Some ratio \<Rightarrow>
                  if pos_direction pos = SHORT \<and> ratio < cfg_short_maintenance_margin cfg then
                    rbind (order_post_init
                      \<lparr>o_symbol = position_symbol, o_direction = LONG,
                       o_quantity = pos_quantity pos, o_order_type = MARKET,
                       o_limit_price = None, o_stop_price = None,
                       o_created_at = c_timestamp candle, o_order_id = [],
                       o_ident = rs_next_ident st\<rparr>) (\<lambda>forced_order.
                    let st1 = st\<lparr>rs_next_ident := rs_next_ident st + 1,
                          rs_forced_order_ids := o_ident forced_order # rs_forced_order_ids st\<rparr>
                    in rbind (drain_events env [OrderEvent forced_order] st1 candle) (\<lambda>st2.
                      Inr (st2\<lparr>rs_log := rs_log st2 @
                        [Margin_call_queued position_symbol (pos_quantity pos) ratio]\<rparr>)))
                  else Inr st
              | None \<Rightarrow> Inr st)
         | _ \<Rightarrow> Inr st)
      else Inr st)"

definition process_bar ::
    "('s, 'z) collaborators \<Rightarrow> backtest_config \<Rightarrow> nat \<times> candle \<Rightarrow> ('s, 'z) run_state
      \<Rightarrow> ('s, 'z) run_state result" where
  "process_bar env cfg = (\<lambda>(candle_index, candle) st.
     rbind (accrue_phase candle_index candle st) (\<lambda>st1.
     rbind (execute_phase env candle st1) (\<lambda>st2.
     rbind (margin_phase env cfg candle (mark_phase candle st2)) (\<lambda>st3.
     drain_events env [MarketEvent (rs_symbol st3) candle] st3 candle))))"

fun strictly_increasing :: "candle list \<Rightarrow> bool" where
  "strictly_increasing (previous # current # cs) \<longleftrightarrow>
     \<not> c_timestamp current \<le> c_timestamp previous \<and> strictly_increasing (current # cs)"
| "strictly_increasing _ \<longleftrightarrow> True"

definition initial_state ::
    "backtest_config \<Rightarrow> string \<Rightarrow> string option \<Rightarrow> 'z \<Rightarrow> 's \<Rightarrow> ('s, 'z) run_state result" where
  "initial_state cfg run_id requested_symbol sizer strat =
     rbind (portfolio_init (cfg_initial_capital cfg) (cfg_short_initial_margin cfg)
        (cfg_short_maintenance_margin cfg) (cfg_annual_short_borrow_rate cfg)
        (cfg_borrow_day_count cfg)) (\<lambda>p. Inr
       \<lparr>rs_run_id = run_id, rs_portfolio = p,
        rs_broker = \<lparr>br_slippage_pct = cfg_slippage_pct cfg,
                     br_commission_pct = cfg_commission_pct cfg\<rparr>,
        rs_strategy = strat, rs_requested_symbol = requested_symbol,
        rs_position_sizer = sizer, rs_symbol = str_or requested_symbol ''UNKNOWN'',
        rs_pending = None, rs_forced_order_ids = [], rs_next_ident = 0, rs_fills = 0,
        rs_log = []\<rparr>)"

definition close_out :: "('s, 'z) run_state \<Rightarrow> ('s, 'z) run_state" where
  "close_out st =
     (case rs_pending st of
        None \<Rightarrow> st
      | Some po \<Rightarrow> st\<lparr>rs_log := rs_log st @ [Cancelled_end_of_data (po_order po)] @
          (if po_forced_cover po then [Margin_call_unresolved (po_order po)] else [])\<rparr>)"

text \<open>The run up to its last bar.\<close>

definition run_bars ::
    "('s, 'z) collaborators \<Rightarrow> 's \<Rightarrow> candle list \<Rightarrow> backtest_config \<Rightarrow> string \<Rightarrow> string option
      \<Rightarrow> 'z \<Rightarrow> ('s, 'z) run_state result" where
  "run_bars env strat candles cfg run_id requested_symbol sizer =
     (if candles = [] then Inl (ValueError ''candles list must not be empty'')
      else if \<not> strictly_increasing candles
        then Inl (ValueError ''candles must have strictly increasing timestamps'')
      else rbind (initial_state cfg run_id requested_symbol sizer strat)
        (rfold (process_bar env cfg) (enumerate 0 candles)))"

text \<open>
  \<open>_run\<close>: the result, with the final state of the run (the strategy object that the caller
  passed in, and the log).
\<close>

definition engine_run ::
    "('s, 'z) collaborators \<Rightarrow> 's \<Rightarrow> candle list \<Rightarrow> backtest_config \<Rightarrow> string \<Rightarrow> string option
      \<Rightarrow> 'z \<Rightarrow> (backtest_result \<times> ('s, 'z) run_state) result" where
  "engine_run env strat candles cfg run_id requested_symbol sizer =
     rbind (run_bars env strat candles cfg run_id requested_symbol sizer) (\<lambda>st.
       let st' = close_out st in
       Inr (\<lparr>res_strategy_name = env_name env, res_symbol = rs_symbol st',
             res_start_date = c_timestamp (hd candles),
             res_end_date = c_timestamp (last candles),
             res_parameters = env_parameters env (rs_strategy st'),
             res_trades = pf_trades (rs_portfolio st'),
             res_equity_curve = pf_equity_curve (rs_portfolio st'),
             res_final_equity = equity (rs_portfolio st'),
             res_initial_capital = cfg_initial_capital cfg,
             res_run_id = run_id\<rparr>, st'))"


section \<open>One bar in closed form\<close>

lemma drain_fill:
  "drain_events env [FillEvent f] st c = handle_fill_event env f st"
  by (cases "handle_fill_event env f st") (simp_all add: dispatch_event_def)

lemma drain_order: "drain_events env [OrderEvent ord] st c = Inr (handle_order_event ord st)"
  by (simp add: dispatch_event_def)

lemma drain_signal:
  "drain_events env [SignalEvent sig] st c =
    (if (case rs_pending st of None \<Rightarrow> False | Some po \<Rightarrow> po_forced_cover po) then Inr st
     else rbind (build_order (env_calculate env) sig (rs_portfolio st) c
        (rs_requested_symbol st) (rs_position_sizer st) (rs_next_ident st)) (\<lambda>ord.
       Inr (case ord of None \<Rightarrow> st
         | Some ord \<Rightarrow> handle_order_event ord (st\<lparr>rs_next_ident := rs_next_ident st + 1\<rparr>))))"
proof (cases "build_order (env_calculate env) sig (rs_portfolio st) c
        (rs_requested_symbol st) (rs_position_sizer st) (rs_next_ident st)")
  case (Inl e)
  then show ?thesis
    by (simp add: dispatch_event_def handle_signal_event_def)
next
  case (Inr r)
  then show ?thesis
    by (cases r) (simp_all add: dispatch_event_def handle_signal_event_def)
qed

lemma drain_market:
  "drain_events env [MarketEvent symb candle] st c =
    rbind (build_context (rs_portfolio st) (rs_pending st)) (\<lambda>context.
    rbind (env_on_candle env (rs_strategy st) candle context) (\<lambda>(s', signal).
      case signal of None \<Rightarrow> Inr (st\<lparr>rs_strategy := s'\<rparr>)
      | Some sig \<Rightarrow> drain_events env [SignalEvent sig] (st\<lparr>rs_strategy := s'\<rparr>) c))"
proof (cases "build_context (rs_portfolio st) (rs_pending st)")
  case (Inl e)
  then show ?thesis by (simp add: dispatch_event_def handle_market_event_def)
next
  case (Inr cx)
  show ?thesis
  proof (cases "env_on_candle env (rs_strategy st) candle cx")
    case (Inl e)
    with Inr show ?thesis by (simp add: dispatch_event_def handle_market_event_def)
  next
    case r: (Inr r)
    obtain s' signal where "r = (s', signal)" by (cases r)
    with Inr r show ?thesis
      by (cases signal) (simp_all add: dispatch_event_def handle_market_event_def Let_def)
  qed
qed

lemmas drain_simps = drain_fill drain_order drain_signal drain_market
declare drain_events.simps [simp del]

text \<open>The result of the market phase: the portfolio and the broker are untouched.\<close>

lemma handle_order_frame [simp]:
  "rs_portfolio (handle_order_event ord st) = rs_portfolio st"
  "rs_broker (handle_order_event ord st) = rs_broker st"
  "rs_strategy (handle_order_event ord st) = rs_strategy st"
  "rs_position_sizer (handle_order_event ord st) = rs_position_sizer st"
  "rs_requested_symbol (handle_order_event ord st) = rs_requested_symbol st"
  "rs_symbol (handle_order_event ord st) = o_symbol ord"
  "rs_pending (handle_order_event ord st) =
     Some \<lparr>po_order = ord, po_forced_cover = o_ident ord \<in> set (rs_forced_order_ids st)\<rparr>"
  "rs_forced_order_ids (handle_order_event ord st) =
     removeAll (o_ident ord) (rs_forced_order_ids st)"
  by (simp_all add: handle_order_event_def Let_def split: option.split)

text \<open>What a signal may leave pending: the old order, or one built from the signal.\<close>

lemma drain_market_cases [consumes 1, case_names Quiet Order]:
  assumes "drain_events env [MarketEvent symb candle] st c = Inr st'"
  obtains s' where "st' = st\<lparr>rs_strategy := s'\<rparr>"
  | s' sig ord cx st1 where
      "build_context (rs_portfolio st) (rs_pending st) = Inr cx"
      "env_on_candle env (rs_strategy st) candle cx = Inr (s', Some sig)"
      "\<not> (case rs_pending st of None \<Rightarrow> False | Some po \<Rightarrow> po_forced_cover po)"
      "build_order (env_calculate env) sig (rs_portfolio st) c (rs_requested_symbol st)
        (rs_position_sizer st) (rs_next_ident st) = Inr (Some ord)"
      "st1 = st\<lparr>rs_strategy := s', rs_next_ident := rs_next_ident st + 1\<rparr>"
      "st' = handle_order_event ord st1"
proof -
  from assms obtain cx s' signal where
    ctx: "build_context (rs_portfolio st) (rs_pending st) = Inr cx" and
    oc: "env_on_candle env (rs_strategy st) candle cx = Inr (s', signal)" and
    rest: "(case signal of None \<Rightarrow> Inr (st\<lparr>rs_strategy := s'\<rparr>)
      | Some sig \<Rightarrow> drain_events env [SignalEvent sig] (st\<lparr>rs_strategy := s'\<rparr>) c) = Inr st'"
    by (auto simp: drain_market result_simps)
  show thesis
  proof (cases signal)
    case None
    with rest show thesis by (intro that(1) [of s']) simp
  next
    case (Some sig)
    show thesis
    proof (cases "case rs_pending st of None \<Rightarrow> False | Some po \<Rightarrow> po_forced_cover po")
      case True
      with rest Some show thesis by (intro that(1) [of s']) (simp add: drain_signal)
    next
      case False
      with rest Some obtain r where
        r: "build_order (env_calculate env) sig (rs_portfolio st) c (rs_requested_symbol st)
          (rs_position_sizer st) (rs_next_ident st) = Inr r" and
        st': "(case r of None \<Rightarrow> st\<lparr>rs_strategy := s'\<rparr>
          | Some ord \<Rightarrow> handle_order_event ord
              (st\<lparr>rs_strategy := s', rs_next_ident := rs_next_ident st + 1\<rparr>)) = st'"
        by (auto simp: drain_signal result_simps cong: option.case_cong)
      show thesis
      proof (cases r)
        case None
        with st' show thesis by (intro that(1) [of s']) simp
      next
        case ord: (Some ord)
        with st' r False ctx oc Some show thesis
          by (intro that(2) [of cx s' sig ord _]) auto
      qed
    qed
  qed
qed

lemma drain_market_portfolio:
  assumes "drain_events env [MarketEvent symb candle] st c = Inr st'"
  shows "rs_portfolio st' = rs_portfolio st" "rs_broker st' = rs_broker st"
    "rs_position_sizer st' = rs_position_sizer st"
    "rs_requested_symbol st' = rs_requested_symbol st"
  using assms by (cases rule: drain_market_cases; simp)+

text \<open>The margin phase either does nothing or replaces the pending order by a forced cover.\<close>

definition margin_breach :: "backtest_config \<Rightarrow> portfolio \<Rightarrow> (string \<times> position) option" where
  "margin_breach cfg p =
     (case pf_open_positions p of
        [(symb, pos)] \<Rightarrow>
          (case maintenance_ratio p symb of
             Some ratio \<Rightarrow>
               if pos_direction pos = SHORT \<and> ratio < cfg_short_maintenance_margin cfg
               then Some (symb, pos) else None
           | None \<Rightarrow> None)
      | _ \<Rightarrow> None)"

definition cover_order :: "nat \<Rightarrow> candle \<Rightarrow> string \<times> position \<Rightarrow> order" where
  "cover_order ident candle = (\<lambda>(symb, pos).
     \<lparr>o_symbol = symb, o_direction = LONG, o_quantity = pos_quantity pos, o_order_type = MARKET,
      o_limit_price = None, o_stop_price = None, o_created_at = c_timestamp candle,
      o_order_id = [], o_ident = ident\<rparr>)"

definition call_margin :: "candle \<Rightarrow> string \<times> position \<Rightarrow> ('s, 'z) run_state \<Rightarrow> ('s, 'z) run_state" where
  "call_margin candle i st =
     (let forced_order = cover_order (rs_next_ident st) candle i;
          st1 = handle_order_event forced_order (st\<lparr>rs_next_ident := rs_next_ident st + 1,
            rs_forced_order_ids := rs_next_ident st # rs_forced_order_ids st\<rparr>)
      in st1\<lparr>rs_log := rs_log st1 @ [Margin_call_queued (fst i) (pos_quantity (snd i))
           (the (maintenance_ratio (rs_portfolio st) (fst i)))]\<rparr>)"

definition forced_pending :: "('s, 'z) run_state \<Rightarrow> bool" where
  "forced_pending st \<longleftrightarrow> (case rs_pending st of None \<Rightarrow> False | Some po \<Rightarrow> po_forced_cover po)"

lemma margin_breach_Some:
  "margin_breach cfg p = Some (symb, pos) \<Longrightarrow>
    pf_open_positions p = [(symb, pos)] \<and> pos_direction pos = SHORT \<and>
    (\<exists>ratio. maintenance_ratio p symb = Some ratio \<and> ratio < cfg_short_maintenance_margin cfg)"
  by (auto simp: margin_breach_def split: list.splits option.splits if_splits)

lemma margin_phase_eq:
  assumes "\<And>symb pos. (symb, pos) \<in> set (pf_open_positions (rs_portfolio st)) \<Longrightarrow> 0 < pos_quantity pos"
  shows "margin_phase env cfg candle st =
    (if forced_pending st then Inr st
     else case margin_breach cfg (rs_portfolio st) of
            None \<Rightarrow> Inr st | Some i \<Rightarrow> Inr (call_margin candle i st))"
proof (cases "forced_pending st \<or> margin_breach cfg (rs_portfolio st) = None")
  case True
  then show ?thesis
    by (auto simp: margin_phase_def forced_pending_def margin_breach_def
        split: list.splits option.splits if_splits)
next
  case False
  then obtain symb pos where breach: "margin_breach cfg (rs_portfolio st) = Some (symb, pos)"
    by auto
  note b = margin_breach_Some [OF breach]
  with assms have "0 < pos_quantity pos" by auto
  with b False breach show ?thesis
    by (auto simp: margin_phase_def forced_pending_def drain_order call_margin_def cover_order_def
        order_post_init_def Let_def split: option.splits)
qed

section \<open>The invariant of a run\<close>

text \<open>An order that closes exactly the given position.\<close>

definition fits :: "order \<Rightarrow> string \<times> position \<Rightarrow> bool" where
  "fits ord = (\<lambda>(symb, pos). o_symbol ord = symb \<and> o_direction ord = opposite (pos_direction pos) \<and>
     o_quantity ord = pos_quantity pos)"

definition book_ok :: "datetime \<Rightarrow> portfolio \<Rightarrow> bool" where
  "book_ok ts p \<longleftrightarrow> portfolio_inv p \<and> length (pf_open_positions p) \<le> 1 \<and>
     (\<forall>symb b. dict_get (pf_last_short_borrow_timestamp p) symb = Some b \<longrightarrow> b \<le> ts)"

definition pending_ok :: "('s, 'z) run_state \<Rightarrow> bool" where
  "pending_ok st \<longleftrightarrow> (\<forall>po. rs_pending st = Some po \<longrightarrow>
     order_ok (po_order po) \<and> o_symbol (po_order po) = rs_symbol st \<and>
     (\<forall>i \<in> set (pf_open_positions (rs_portfolio st)). fits (po_order po) i) \<and>
     (po_forced_cover po \<longrightarrow> o_order_type (po_order po) = MARKET \<and>
        (\<exists>symb pos. pf_open_positions (rs_portfolio st) = [(symb, pos)] \<and> pos_direction pos = SHORT)))"

text \<open>
  At most one position, under the symbol that is marked; a pending order is valid, closes the
  position if there is one, and is a forced cover only of a short; no forced identity is
  left over.
\<close>

definition run_inv :: "datetime \<Rightarrow> ('s, 'z) run_state \<Rightarrow> bool" where
  "run_inv ts st \<longleftrightarrow> book_ok ts (rs_portfolio st) \<and> pending_ok st \<and> broker_ok (rs_broker st) \<and>
     rs_forced_order_ids st = [] \<and>
     (\<forall>(symb, pos) \<in> set (pf_open_positions (rs_portfolio st)). symb = rs_symbol st)"

lemma run_invD:
  assumes "run_inv ts st"
  shows "book_ok ts (rs_portfolio st)" "portfolio_inv (rs_portfolio st)" "pending_ok st"
    "broker_ok (rs_broker st)" "rs_forced_order_ids st = []"
    "length (pf_open_positions (rs_portfolio st)) \<le> 1"
  using assms by (simp_all add: run_inv_def book_ok_def)

lemma book_ok_position:
  assumes "book_ok ts p"
  shows "pf_open_positions p = [] \<or>
    (\<exists>symb pos. pf_open_positions p = [(symb, pos)] \<and> position_ok pos)"
  using assms
  by (cases "pf_open_positions p") (auto simp: book_ok_def portfolio_inv_def)

lemma book_ok_mono: "book_ok ts p \<Longrightarrow> ts \<le> ts' \<Longrightarrow> book_ok ts' p"
  by (fastforce simp: book_ok_def)

lemma short_ts: "book_ok ts p \<Longrightarrow> (symb, pos) \<in> set (short_positions p) \<Longrightarrow> ts < ts' \<Longrightarrow>
    the (dict_get (pf_last_short_borrow_timestamp p) symb) < ts'"
  using inv_borrow_timestamp [of p symb] short_position_is_short [of p symb pos]
  by (fastforce simp: book_ok_def)

lemma accrue_book_ok:
  assumes "book_ok ts p" and "ts < ts'"
  shows "\<exists>p' charge. accrue_short_borrow p ts' = Inr (p', charge) \<and> book_ok ts' p'"
proof -
  have inv: "portfolio_inv p" using assms(1) by (simp add: book_ok_def)
  have "\<forall>(symb, pos) \<in> set (short_positions p).
      the (dict_get (pf_last_short_borrow_timestamp p) symb) < ts'"
    using short_ts [OF assms(1) _ assms(2)] by auto
  then obtain p' charge where acc: "accrue_short_borrow p ts' = Inr (p', charge)"
    by (cases "short_positions p = []") (simp_all add: accrue_short_borrow_eq [OF inv] Let_def)
  have "b \<le> ts'" if "dict_get (pf_last_short_borrow_timestamp p') symb = Some b" for symb b
    using that acc assms inv
    by (fastforce simp: accrue_short_borrow_eq Let_def dict_get_fold_set book_ok_def
        split: if_splits)
  with acc inv assms(1) show ?thesis
    by (auto simp: book_ok_def accrue_frame intro: accrue_inv)
qed

text \<open>A fill of an order that fits the book keeps it at one position at most.\<close>

lemma fill_book_ok:
  assumes book: "book_ok ts p" and fit: "\<forall>i \<in> set (pf_open_positions p). fits ord i"
    and fill: "record_fill p (o_symbol ord) (o_direction ord) (o_quantity ord) x t c u = Inr (p', out)"
    and "t \<le> ts"
  shows "book_ok ts p' \<and> (\<forall>(symb, pos) \<in> set (pf_open_positions p').
    symb = o_symbol ord \<and> (fo_accepted out \<longrightarrow> pos_direction pos = o_direction ord))"
proof -
  have inv: "portfolio_inv p'"
    using book fill by (auto simp: book_ok_def intro: record_fill_inv)
  have old: "b \<le> ts" if "dict_get (pf_last_short_borrow_timestamp p) symb = Some b" for symb b
    using book that by (simp add: book_ok_def)
  have one: "pf_open_positions p = [] \<or>
      (\<exists>pos. pf_open_positions p = [(o_symbol ord, pos)] \<and> o_direction ord = opposite (pos_direction pos))"
    using book_ok_position [OF book] fit by (auto simp: fits_def)
  from fill show ?thesis
  proof (cases rule: record_fill_cases)
    case (Reject pr cm)
    with book one show ?thesis by (auto simp: dict_get_def)
  next
    case (OpenLong pr cm)
    with one have "pf_open_positions p = []" by (auto simp: dict_get_def)
    with OpenLong inv old assms(4) show ?thesis
      by (auto simp: book_ok_def dict_set_def dict_laws split: if_splits)
  next
    case (OpenShort pr cm)
    with one have "pf_open_positions p = []" by (auto simp: dict_get_def)
    with OpenShort inv old assms(4) show ?thesis
      by (auto simp: book_ok_def dict_set_def dict.get_set_item
          simp flip: dict_set_def split: if_splits)
        (auto simp: dict_set_def)
  next
    case (CloseLong pr cm pos tr)
    with one have "dict_del (pf_open_positions p) (o_symbol ord) = []"
      by (auto simp: dict.items_del)
    with CloseLong inv old show ?thesis by (auto simp: book_ok_def)
  next
    case (CloseShort pr cm pos tr r b)
    with one have "dict_del (pf_open_positions p) (o_symbol ord) = []"
      by (auto simp: dict.items_del)
    with CloseShort inv old show ?thesis
      by (auto simp: book_ok_def dict_laws split: if_splits)
  qed
qed

lemma update_book_ok: "book_ok ts p \<Longrightarrow> book_ok ts (update_prices p prices t)"
  by (simp add: book_ok_def update_inv)

lemma accrue_phase_inv:
  assumes "run_inv ts st" and "i > 0 \<longrightarrow> ts < c_timestamp c" and "ts \<le> c_timestamp c"
  shows "\<exists>st'. accrue_phase i c st = Inr st' \<and> run_inv (c_timestamp c) st' \<and>
    rs_strategy st' = rs_strategy st \<and> rs_position_sizer st' = rs_position_sizer st \<and>
    rs_pending st' = rs_pending st \<and>
    pf_open_positions (rs_portfolio st') = pf_open_positions (rs_portfolio st)"
proof (cases "i > 0")
  case True
  then obtain p' charge where acc: "accrue_short_borrow (rs_portfolio st) (c_timestamp c) = Inr (p', charge)"
      and book: "book_ok (c_timestamp c) p'"
    using accrue_book_ok [OF run_invD(1) [OF assms(1)]] assms(2) by blast
  with True assms(1) accrue_frame [OF acc] show ?thesis
    by (simp add: accrue_phase_def run_inv_def pending_ok_def)
next
  case False
  with assms book_ok_mono [OF run_invD(1) [OF assms(1)] assms(3)] show ?thesis
    by (simp add: accrue_phase_def run_inv_def)
qed

lemma pending_fill_fits:
  assumes "run_inv ts st" and "rs_pending st = Some po"
    and "dict_get (pf_open_positions (rs_portfolio st)) (o_symbol (po_order po)) = Some pos"
  shows "o_direction (po_order po) = opposite (pos_direction pos) \<and>
    o_quantity (po_order po) = pos_quantity pos"
proof -
  have "(o_symbol (po_order po), pos) \<in> set (pf_open_positions (rs_portfolio st))"
    using assms(3) dict.get_items [OF inv_dict_ok [OF run_invD(2) [OF assms(1)]]] by blast
  with run_invD(3) [OF assms(1)] assms(2) show ?thesis
    by (fastforce simp: pending_ok_def fits_def)
qed

text \<open>The execution phase never raises, and decides the fate of the pending order.\<close>

lemma execute_phase_cases:
  assumes inv: "run_inv (c_timestamp c) st" and pos: "candle_pos c"
  obtains (Idle) "rs_pending st = None" "execute_phase env c st = Inr st"
  | (Waiting) po where "rs_pending st = Some po" "o_order_type (po_order po) \<noteq> MARKET"
      "execute_phase env c st = Inr (st\<lparr>rs_log := rs_log st @ [Untriggered (po_order po)]\<rparr>)"
  | (Executed) po x cm p' out where "rs_pending st = Some po"
      "record_fill (rs_portfolio st) (o_symbol (po_order po)) (o_direction (po_order po))
        (o_quantity (po_order po)) (Fin x) (c_timestamp c) (Fin cm) (env_uuid env (rs_fills st))
        = Inr (p', out)"
      "execute_phase env c st = Inr (st\<lparr>rs_portfolio := p', rs_fills := rs_fills st + 1,
        rs_log := rs_log st @
          [if fo_accepted out then Filled (po_order po) else Rejected (po_order po)],
        rs_symbol := (if fo_accepted out then o_symbol (po_order po) else rs_symbol st),
        rs_pending := None\<rparr>)"
proof (cases "rs_pending st")
  case None
  then show thesis by (intro that(1)) (simp_all add: execute_phase_def)
next
  case (Some po)
  have ok: "order_ok (po_order po)"
    using run_invD(3) [OF inv] Some by (simp add: pending_ok_def)
  then obtain r where r: "execute (rs_broker st) (po_order po) c = Inr r"
    using sim.exec_returns by blast
  show thesis
  proof (cases r)
    case None
    with r sim.exec_market [of "po_order po" "rs_broker st" c] have "o_order_type (po_order po) \<noteq> MARKET"
      by auto
    moreover from this have "o_order_type (po_order po) \<in> {LIMIT, STOP}"
      by (cases "o_order_type (po_order po)") auto
    ultimately show thesis
      using Some r None by (intro that(2)) (simp_all add: execute_phase_def Let_def)
  next
    case f: (Some f)
    note w = sim.exec_whole [OF r [unfolded f]]
    obtain p' out where rec: "record_fill (rs_portfolio st) (f_symbol f) (f_direction f)
        (f_quantity f) (Fin (f_fill_price f)) (f_fill_date f) (Fin (f_commission f))
        (env_uuid env (rs_fills st)) = Inr (p', out)"
      using sim.exec_then_record [OF run_invD(4) [OF inv] pos ok run_invD(2) [OF inv] r [unfolded f]]
        pending_fill_fits [OF inv Some] by blast
    then have "handle_fill_event env f st = Inr (st\<lparr>rs_portfolio := p', rs_fills := rs_fills st + 1,
        rs_log := rs_log st @
          [if fo_accepted out then Filled (po_order po) else Rejected (po_order po)],
        rs_symbol := (if fo_accepted out then o_symbol (po_order po) else rs_symbol st),
        rs_pending := None\<rparr>)"
      using Some w by (simp add: handle_fill_event_def Let_def)
    with Some r f rec w show thesis
      by (intro that(3)) (simp_all add: execute_phase_def drain_fill)
  qed
qed

lemma execute_phase_inv:
  assumes inv: "run_inv (c_timestamp c) st" and pos: "candle_pos c"
  shows "\<exists>st'. execute_phase env c st = Inr st' \<and> run_inv (c_timestamp c) st' \<and>
    rs_strategy st' = rs_strategy st \<and> rs_position_sizer st' = rs_position_sizer st \<and>
    (rs_pending st' = rs_pending st \<or> rs_pending st' = None)"
  using inv pos
proof (cases rule: execute_phase_cases [where env = env])
  case Idle
  with inv show ?thesis by simp
next
  case (Waiting po)
  with inv show ?thesis by (simp add: run_inv_def pending_ok_def)
next
  case (Executed po x cm p' out)
  have fit: "\<forall>i \<in> set (pf_open_positions (rs_portfolio st)). fits (po_order po) i"
    using run_invD(3) [OF inv] Executed(1) by (simp add: pending_ok_def)
  have symb: "o_symbol (po_order po) = rs_symbol st"
    using run_invD(3) [OF inv] Executed(1) by (simp add: pending_ok_def)
  from fill_book_ok [OF run_invD(1) [OF inv] fit Executed(2) order.refl] Executed symb inv
  show ?thesis by (auto simp: run_inv_def pending_ok_def)
qed

lemma mark_phase_inv: "run_inv ts st \<Longrightarrow> run_inv ts (mark_phase c st)"
  by (simp add: run_inv_def mark_phase_def pending_ok_def update_book_ok)

lemma mark_phase_frame [simp]:
  "rs_strategy (mark_phase c st) = rs_strategy st"
  "rs_position_sizer (mark_phase c st) = rs_position_sizer st"
  "rs_pending (mark_phase c st) = rs_pending st"
  "rs_log (mark_phase c st) = rs_log st"
  "pf_open_positions (rs_portfolio (mark_phase c st)) = pf_open_positions (rs_portfolio st)"
  by (simp_all add: mark_phase_def)

lemma run_inv_quantities:
  "run_inv ts st \<Longrightarrow> (symb, pos) \<in> set (pf_open_positions (rs_portfolio st)) \<Longrightarrow> 0 < pos_quantity pos"
  by (auto simp: run_inv_def book_ok_def portfolio_inv_def position_ok_def)

lemma call_margin_frame [simp]:
  "rs_portfolio (call_margin c i st) = rs_portfolio st"
  "rs_strategy (call_margin c i st) = rs_strategy st"
  "rs_position_sizer (call_margin c i st) = rs_position_sizer st"
  "rs_broker (call_margin c i st) = rs_broker st"
  "rs_symbol (call_margin c i st) = fst i"
  "rs_pending (call_margin c i st) =
     Some \<lparr>po_order = cover_order (rs_next_ident st) c i, po_forced_cover = True\<rparr>"
  by (cases i; simp add: call_margin_def cover_order_def Let_def)+

lemma margin_phase_inv:
  assumes inv: "run_inv ts st"
  shows "\<exists>st'. margin_phase env cfg c st = Inr st' \<and> run_inv ts st' \<and>
    rs_portfolio st' = rs_portfolio st \<and>
    rs_strategy st' = rs_strategy st \<and> rs_position_sizer st' = rs_position_sizer st"
proof (cases "forced_pending st \<or> margin_breach cfg (rs_portfolio st) = None")
  case True
  with inv show ?thesis by (auto simp: margin_phase_eq [OF run_inv_quantities [OF inv]])
next
  case False
  then obtain symb pos where breach: "margin_breach cfg (rs_portfolio st) = Some (symb, pos)"
    by auto
  note b = margin_breach_Some [OF breach]
  have "0 < pos_quantity pos" using run_inv_quantities [OF inv] b by auto
  moreover have "rs_forced_order_ids (call_margin c (symb, pos) st) = []"
    using run_invD(5) [OF inv] by (simp add: call_margin_def cover_order_def Let_def)
  ultimately have "run_inv ts (call_margin c (symb, pos) st)"
    using inv b by (simp add: run_inv_def pending_ok_def fits_def cover_order_def order_ok_def)
  with False breach show ?thesis
    by (simp add: margin_phase_eq [OF run_inv_quantities [OF inv]])
qed

lemma build_context_returns:
  assumes "book_ok ts p"
  shows "\<exists>x. build_context p pending = Inr x \<and>
    ctx_position_direction x = (case pf_open_positions p of [] \<Rightarrow> None
      | (symb, pos) # _ \<Rightarrow> Some (pos_direction pos)) \<and>
    ctx_pending_direction x = map_option (\<lambda>po. o_direction (po_order po)) pending"
  using book_ok_position [OF assms]
  by (auto simp: build_context_def context_post_init_def position_ok_def)

lemma build_order_SomeD:
  assumes "build_order calc sig p c rq z i = Inr (Some ord)"
  shows "order_ok ord \<and> o_ident ord = i \<and> o_direction ord = s_direction sig \<and>
    (\<forall>symb pos ps. pf_open_positions p = (symb, pos) # ps \<longrightarrow> fits ord (symb, pos))"
  using assms
  by (cases "pf_open_positions p")
    (auto simp: build_order_def result_simps order_post_init_iff fits_def split: if_splits)

definition run_sound ::
    "('s \<Rightarrow> bool) \<Rightarrow> ('z \<Rightarrow> bool) \<Rightarrow> datetime \<Rightarrow> ('s, 'z) run_state \<Rightarrow> bool" where
  "run_sound valid sizer_ok ts st \<longleftrightarrow>
     run_inv ts st \<and> valid (rs_strategy st) \<and> sizer_ok (rs_position_sizer st)"

text \<open>
  A run whose strategy and sizer satisfy their interfaces: every phase of every bar returns
  and keeps the invariant.
\<close>

locale backtest_run =
  signal_source "env_on_candle env" valid + position_sizer "env_calculate env" sizer_ok
  for env :: "('s, 'z) collaborators" and valid and sizer_ok
begin

lemma build_order_returns:
  assumes "book_ok ts p" and "sizer_ok z" and "signal_ok sig" and "candle_pos c"
  shows "\<exists>r. build_order (env_calculate env) sig p c rq z i = Inr r"
proof (cases "pf_open_positions p")
  case Nil
  obtain q where q: "env_calculate env z sig p (c_close c) = Inr q"
    using calculate_returns [OF assms(2) candle_posD(4) [OF assms(4)]] by blast
  with Nil calculate_order_ok [OF assms(2) q assms(3)] show ?thesis
    by (simp add: build_order_def Let_def order_post_init_iff [THEN iffD2])
next
  case (Cons a ps)
  then obtain symb pos where "a = (symb, pos)" "position_ok pos"
    using book_ok_position [OF assms(1)] by auto
  with Cons assms(3) show ?thesis
    by (auto simp: build_order_def order_post_init_def position_ok_def signal_ok_def)
qed

lemma market_phase_returns:
  assumes "run_sound valid sizer_ok ts st" and "candle_pos c"
  shows "\<exists>st'. drain_events env [MarketEvent symb c] st c = Inr st'"
proof -
  from assms(1) have inv: "run_inv ts st" and valid: "valid (rs_strategy st)"
    and sizer: "sizer_ok (rs_position_sizer st)" by (simp_all add: run_sound_def)
  obtain x where x: "build_context (rs_portfolio st) (rs_pending st) = Inr x"
    using build_context_returns [OF run_invD(1) [OF inv]] by blast
  obtain s' out where oc: "env_on_candle env (rs_strategy st) c x = Inr (s', out)"
    using on_candle_returns [OF valid] by blast
  show ?thesis
  proof (cases out)
    case None
    with x oc show ?thesis by (simp add: drain_market)
  next
    case (Some sig)
    with oc have "signal_ok sig" using signal_complete [OF valid] by blast
    then obtain r where "build_order (env_calculate env) sig (rs_portfolio st) c
        (rs_requested_symbol st) (rs_position_sizer st) (rs_next_ident st) = Inr r"
      using build_order_returns [OF run_invD(1) [OF inv] sizer _ assms(2)] by blast
    with x oc Some show ?thesis by (auto simp: drain_market drain_signal)
  qed
qed

lemma market_phase_sound:
  assumes "run_sound valid sizer_ok ts st" and "drain_events env [MarketEvent symb c] st c = Inr st'"
  shows "run_sound valid sizer_ok ts st'"
proof -
  from assms(1) have inv: "run_inv ts st" and valid: "valid (rs_strategy st)"
    and sizer: "sizer_ok (rs_position_sizer st)" by (simp_all add: run_sound_def)
  obtain x where x: "build_context (rs_portfolio st) (rs_pending st) = Inr x"
    using build_context_returns [OF run_invD(1) [OF inv]] by blast
  obtain s1 out where oc: "env_on_candle env (rs_strategy st) c x = Inr (s1, out)" "valid s1"
    using on_candle_returns [OF valid] by blast
  from assms(2) show ?thesis
  proof (cases rule: drain_market_cases)
    case (Quiet s')
    moreover have "valid s'"
    proof -
      have "rs_strategy st' = s1"
        using assms(2) x oc by (auto simp: drain_market drain_signal result_simps
            split: option.splits if_splits)
      with Quiet oc show ?thesis by simp
    qed
    ultimately show ?thesis using inv sizer by (simp add: run_sound_def run_inv_def pending_ok_def)
  next
    case (Order s' sig ord cx st1)
    then have "valid s'" using x oc by simp
    moreover have "order_ok ord"
        "\<forall>i \<in> set (pf_open_positions (rs_portfolio st)). fits ord i \<and> fst i = o_symbol ord"
      using build_order_SomeD [OF Order(4)] book_ok_position [OF run_invD(1) [OF inv]]
      by (auto simp: fits_def)
    ultimately show ?thesis
      using Order inv sizer run_invD(5) [OF inv]
      by (force simp: run_sound_def run_inv_def pending_ok_def)
  qed
qed

lemma process_bar_sound:
  assumes snd: "run_sound valid sizer_ok ts st" and "candle_pos c" and "i > 0 \<longrightarrow> ts < c_timestamp c"
    and "ts \<le> c_timestamp c"
  shows "\<exists>st'. process_bar env cfg (i, c) st = Inr st' \<and> run_sound valid sizer_ok (c_timestamp c) st'"
proof -
  from snd have inv: "run_inv ts st" by (simp add: run_sound_def)
  obtain st1 where st1: "accrue_phase i c st = Inr st1" "run_inv (c_timestamp c) st1"
      "rs_strategy st1 = rs_strategy st" "rs_position_sizer st1 = rs_position_sizer st"
    using accrue_phase_inv [OF inv assms(3,4)] by blast
  obtain st2 where st2: "execute_phase env c st1 = Inr st2" "run_inv (c_timestamp c) st2"
      "rs_strategy st2 = rs_strategy st1" "rs_position_sizer st2 = rs_position_sizer st1"
    using execute_phase_inv [OF st1(2) assms(2)] by blast
  obtain st3 where st3: "margin_phase env cfg c (mark_phase c st2) = Inr st3"
      "run_inv (c_timestamp c) st3" "rs_strategy st3 = rs_strategy st2"
      "rs_position_sizer st3 = rs_position_sizer st2"
    using margin_phase_inv [OF mark_phase_inv [OF st2(2)]] by force
  have "run_sound valid sizer_ok (c_timestamp c) st3"
    using snd st1 st2 st3 by (simp add: run_sound_def)
  with st1 st2 st3 show ?thesis
    using market_phase_returns [OF _ assms(2)] market_phase_sound
    by (fastforce simp: process_bar_def)
qed

lemma bars_sound:
  assumes "run_sound valid sizer_ok ts st" and "\<forall>c \<in> set cs. candle_pos c" and "strictly_increasing cs"
    and "cs \<noteq> [] \<Longrightarrow> ts \<le> c_timestamp (hd cs) \<and> (i > 0 \<longrightarrow> ts < c_timestamp (hd cs))"
  shows "\<exists>st'. rfold (process_bar env cfg) (enumerate i cs) st = Inr st' \<and>
    run_sound valid sizer_ok (if cs = [] then ts else c_timestamp (last cs)) st'"
  using assms
proof (induction cs arbitrary: ts st i)
  case Nil
  then show ?case by simp
next
  case (Cons c cs)
  then obtain st1 where st1: "process_bar env cfg (i, c) st = Inr st1" "run_sound valid sizer_ok (c_timestamp c) st1"
    using process_bar_sound [of ts st c i cfg] by fastforce
  have inc: "strictly_increasing cs" and "cs \<noteq> [] \<Longrightarrow> c_timestamp c < c_timestamp (hd cs)"
    using Cons.prems(3) by (cases cs; simp)+
  with Cons.IH [OF st1(2) _ inc, of "Suc i"] Cons.prems(2) st1(1) show ?case
    by (auto simp: enumerate_simps split: if_splits)
qed

end

section \<open>Whole runs\<close>

definition config_ok :: "backtest_config \<Rightarrow> bool" where
  "config_ok cfg \<longleftrightarrow> config_post_init cfg = Inr cfg \<and> isfinite (cfg_initial_capital cfg) \<and>
     Fin 0 < cfg_initial_capital cfg \<and>
     broker_ok \<lparr>br_slippage_pct = cfg_slippage_pct cfg, br_commission_pct = cfg_commission_pct cfg\<rparr>"

lemma config_post_init_validates:
  "config_post_init cfg = Inr cfg' \<longleftrightarrow> cfg' = cfg \<and>
    validate_short_settings (cfg_short_initial_margin cfg) (cfg_short_maintenance_margin cfg)
      (cfg_annual_short_borrow_rate cfg) (cfg_borrow_day_count cfg) = Inr ()"
  by (auto simp: config_post_init_def validate_short_settings_def Let_def)

lemma initial_state_eq:
  assumes "initial_state cfg rid rq z s = Inr st"
  shows "portfolio_init (cfg_initial_capital cfg) (cfg_short_initial_margin cfg)
      (cfg_short_maintenance_margin cfg) (cfg_annual_short_borrow_rate cfg)
      (cfg_borrow_day_count cfg) = Inr (rs_portfolio st)"
    and "rs_strategy st = s" "rs_position_sizer st = z" "rs_pending st = None"
    "rs_forced_order_ids st = []" "rs_log st = []" "rs_symbol st = str_or rq ''UNKNOWN''"
    "rs_broker st = \<lparr>br_slippage_pct = cfg_slippage_pct cfg, br_commission_pct = cfg_commission_pct cfg\<rparr>"
  using assms by (auto simp: initial_state_def result_simps)

lemma initial_state_returns:
  assumes "config_ok cfg"
  shows "\<exists>st. initial_state cfg rid rq z s = Inr st"
proof -
  obtain k where "cfg_initial_capital cfg = Fin k" "0 < k"
    using assms by (cases "cfg_initial_capital cfg") (auto simp: config_ok_def)
  with assms show ?thesis
    by (simp add: initial_state_def portfolio_init_def config_ok_def config_post_init_validates)
qed

lemma initial_state_inv:
  assumes "initial_state cfg rid rq z s = Inr st" and "config_ok cfg"
  shows "run_inv ts st"
  using portfolio_init_inv [OF initial_state_eq(1) [OF assms(1)]]
    portfolio_init_eq [OF initial_state_eq(1) [OF assms(1)]] initial_state_eq [OF assms(1)] assms(2)
  by (simp add: run_inv_def book_ok_def pending_ok_def config_ok_def)

text \<open>A bar, taken apart.\<close>

lemma process_barE:
  assumes "process_bar env cfg (i, c) st = Inr st'"
  obtains st1 st2 st3 where "accrue_phase i c st = Inr st1" "execute_phase env c st1 = Inr st2"
    "margin_phase env cfg c (mark_phase c st2) = Inr st3"
    "drain_events env [MarketEvent (rs_symbol st3) c] st3 c = Inr st'"
  using assms by (auto simp: process_bar_def result_simps)

lemma margin_phase_portfolio:
  "margin_phase env cfg c st = Inr st' \<Longrightarrow> rs_portfolio st' = rs_portfolio st"
  by (auto simp: margin_phase_def result_simps order_post_init_iff drain_order Let_def
      split: if_splits list.splits option.splits)

lemma pf_run_trans: "pf_run q g r \<Longrightarrow> pf_run p f q \<Longrightarrow> pf_run p (f + g) r"
proof (induction rule: pf_run.induct)
  case (pf_more q g p' h p'')
  then show ?case using pf_run.pf_more [of p "f + g" p' h p''] by (simp add: add.assoc)
qed simp

lemma pf_run_step: "pf_step p f p' \<Longrightarrow> pf_run p f p'"
  using pf_more [OF pf_start] by force

lemma accrue_phase_portfolio:
  assumes "accrue_phase i c st = Inr st1"
  shows "\<exists>fees. pf_run (rs_portfolio st) fees (rs_portfolio st1) \<and>
      (short_positions (rs_portfolio st) = [] \<longrightarrow> fees = 0)"
    and "pf_equity_curve (rs_portfolio st1) = pf_equity_curve (rs_portfolio st)"
    "pf_trades (rs_portfolio st1) = pf_trades (rs_portfolio st)"
    "pf_open_positions (rs_portfolio st1) = pf_open_positions (rs_portfolio st)"
    "rs_pending st1 = rs_pending st" "rs_log st1 = rs_log st" "rs_strategy st1 = rs_strategy st"
    "rs_symbol st1 = rs_symbol st" "rs_fills st1 = rs_fills st" "rs_broker st1 = rs_broker st"
proof -
  show "\<exists>fees. pf_run (rs_portfolio st) fees (rs_portfolio st1) \<and>
      (short_positions (rs_portfolio st) = [] \<longrightarrow> fees = 0)"
  proof (cases "i > 0")
    case True
    with assms obtain p charge
      where acc: "accrue_short_borrow (rs_portfolio st) (c_timestamp c) = Inr (p, charge)"
        and st1: "rs_portfolio st1 = p"
      by (auto simp: accrue_phase_def result_simps)
    moreover have "charge = 0" if "short_positions (rs_portfolio st) = []"
      using acc that by (simp add: accrue_short_borrow_def)
    ultimately show ?thesis using pf_run_step [OF pf_accrue [OF acc]] by auto
  qed (use assms in \<open>auto simp: accrue_phase_def intro: pf_start\<close>)
qed (use assms in \<open>auto simp: accrue_phase_def result_simps accrue_frame split: if_splits\<close>)

lemma handle_fill_portfolio:
  assumes "handle_fill_event env f st = Inr st'"
  shows "\<exists>out. record_fill (rs_portfolio st) (f_symbol f) (f_direction f) (f_quantity f)
    (Fin (f_fill_price f)) (f_fill_date f) (Fin (f_commission f)) (env_uuid env (rs_fills st))
    = Inr (rs_portfolio st', out)"
  using assms
  by (auto simp: handle_fill_event_def result_simps Let_def split: option.splits)

lemma record_fill_trades:
  assumes "record_fill p symb d q x t c u = Inr (p', out)"
  shows "\<exists>trs. pf_trades p' = pf_trades p @ trs"
  using assms by (cases rule: record_fill_cases) auto

lemma execute_phase_portfolio:
  assumes "execute_phase env c st = Inr st2"
  shows "pf_run (rs_portfolio st) 0 (rs_portfolio st2) \<and>
    pf_equity_curve (rs_portfolio st2) = pf_equity_curve (rs_portfolio st) \<and>
    (\<exists>trs. pf_trades (rs_portfolio st2) = pf_trades (rs_portfolio st) @ trs)"
proof (cases "rs_portfolio st2 = rs_portfolio st")
  case True
  then show ?thesis by (simp add: pf_start)
next
  case False
  with assms obtain f where "handle_fill_event env f st = Inr st2"
    by (auto simp: execute_phase_def result_simps drain_fill Let_def split: option.splits if_splits)
  then obtain symb d q x t cm u out where fill: "record_fill (rs_portfolio st) symb d q x t cm u
      = Inr (rs_portfolio st2, out)"
    using handle_fill_portfolio by blast
  then show ?thesis
    using pf_run_step [OF pf_fill [OF fill]] record_fill_frame [OF fill] record_fill_trades [OF fill]
    by simp
qed

lemma process_bar_portfolio:
  assumes "process_bar env cfg (i, c) st = Inr st'"
  shows "\<exists>fees p symb. pf_run (rs_portfolio st) fees p \<and>
    rs_portfolio st' = update_prices p [(symb, c_close c)] (c_timestamp c) \<and>
    pf_equity_curve p = pf_equity_curve (rs_portfolio st) \<and>
    (\<exists>trs. pf_trades p = pf_trades (rs_portfolio st) @ trs) \<and>
    (short_positions (rs_portfolio st) = [] \<longrightarrow> fees = 0)"
proof -
  from assms obtain st1 st2 st3 where bar: "accrue_phase i c st = Inr st1"
      "execute_phase env c st1 = Inr st2" "margin_phase env cfg c (mark_phase c st2) = Inr st3"
      "drain_events env [MarketEvent (rs_symbol st3) c] st3 c = Inr st'"
    by (rule process_barE)
  obtain fees where fees: "pf_run (rs_portfolio st) fees (rs_portfolio st1)"
      "short_positions (rs_portfolio st) = [] \<longrightarrow> fees = 0"
    using accrue_phase_portfolio(1) [OF bar(1)] by blast
  note ex = execute_phase_portfolio [OF bar(2)]
  have "pf_run (rs_portfolio st) (fees + 0) (rs_portfolio st2)"
    using pf_run_trans [OF _ fees(1)] ex by blast
  moreover have "rs_portfolio st'
      = update_prices (rs_portfolio st2) [(rs_symbol st2, c_close c)] (c_timestamp c)"
    using drain_market_portfolio(1) [OF bar(4)] margin_phase_portfolio [OF bar(3)]
    by (simp add: mark_phase_def)
  ultimately show ?thesis
    using ex fees(2) accrue_phase_portfolio(2,3) [OF bar(1)] by fastforce
qed

lemma equity_cong:
  assumes "pf_cash p = pf_cash q" and "pf_restricted_collateral p = pf_restricted_collateral q"
    and "pf_open_positions p = pf_open_positions q" and "pf_current_prices p = pf_current_prices q"
  shows "equity p = equity q"
proof -
  have "position_value p = position_value q"
    using assms(4) by (simp add: position_value_def marked_price_def fun_eq_iff)
  with assms show ?thesis by (simp add: equity_def)
qed

lemma update_prices_curve:
  "\<exists>pt. pf_equity_curve (update_prices p prices ts) = pf_equity_curve p @ [pt] \<and>
    ep_date pt = ts \<and> ep_equity pt = equity (update_prices p prices ts)"
proof -
  have "equity (update_prices p prices ts)
      = equity (p\<lparr>pf_current_prices := dict_update (pf_current_prices p) prices\<rparr>)"
    by (rule equity_cong) simp_all
  then show ?thesis by (simp add: update_prices_def Let_def)
qed

text \<open>What a sequence of bars does to the portfolio.\<close>

lemma bars_portfolio:
  assumes "rfold (process_bar env cfg) (enumerate i cs) st = Inr st'"
  shows "(\<exists>fees. pf_run (rs_portfolio st) fees (rs_portfolio st')) \<and>
    (\<exists>pts. pf_equity_curve (rs_portfolio st') = pf_equity_curve (rs_portfolio st) @ pts \<and>
       map ep_date pts = map c_timestamp cs \<and>
       (cs \<noteq> [] \<longrightarrow> ep_equity (last pts) = equity (rs_portfolio st'))) \<and>
    (\<exists>trs. pf_trades (rs_portfolio st') = pf_trades (rs_portfolio st) @ trs)"
  using assms
proof (induction cs arbitrary: i st)
  case Nil
  then show ?case by (auto intro: pf_start)
next
  case (Cons c cs)
  from Cons.prems obtain st1 where st1: "process_bar env cfg (i, c) st = Inr st1"
      "rfold (process_bar env cfg) (enumerate (Suc i) cs) st1 = Inr st'"
    by (auto simp: enumerate_simps result_simps)
  from process_bar_portfolio [OF st1(1)] obtain fees p symb trs where
    p: "pf_run (rs_portfolio st) fees p"
      "rs_portfolio st1 = update_prices p [(symb, c_close c)] (c_timestamp c)"
      "pf_equity_curve p = pf_equity_curve (rs_portfolio st)"
      "pf_trades p = pf_trades (rs_portfolio st) @ trs"
    by blast
  have run1: "pf_run (rs_portfolio st) (fees + 0) (rs_portfolio st1)"
    unfolding p(2) by (rule pf_more [OF p(1) pf_update])
  have curve1: "\<exists>pt. pf_equity_curve (rs_portfolio st1) = pf_equity_curve (rs_portfolio st) @ [pt] \<and>
      ep_date pt = c_timestamp c \<and> ep_equity pt = equity (rs_portfolio st1)"
    using update_prices_curve [of p "[(symb, c_close c)]" "c_timestamp c"] p(2,3) by simp
  from Cons.IH [OF st1(2)] obtain fees' pts trs' where
    ih: "pf_run (rs_portfolio st1) fees' (rs_portfolio st')"
      "pf_equity_curve (rs_portfolio st') = pf_equity_curve (rs_portfolio st1) @ pts"
      "map ep_date pts = map c_timestamp cs"
      "cs \<noteq> [] \<longrightarrow> ep_equity (last pts) = equity (rs_portfolio st')"
      "pf_trades (rs_portfolio st') = pf_trades (rs_portfolio st1) @ trs'"
    by blast
  have "pts = [] \<longleftrightarrow> cs = []" using ih(3) by (metis map_is_Nil_conv)
  moreover have "rs_portfolio st' = rs_portfolio st1" if "cs = []"
    using st1(2) that by simp
  ultimately have "\<exists>pts. pf_equity_curve (rs_portfolio st') = pf_equity_curve (rs_portfolio st) @ pts \<and>
       map ep_date pts = map c_timestamp (c # cs) \<and>
       (c # cs \<noteq> [] \<longrightarrow> ep_equity (last pts) = equity (rs_portfolio st'))"
    using curve1 ih(2-4) by fastforce
  moreover have "\<exists>trs. pf_trades (rs_portfolio st') = pf_trades (rs_portfolio st) @ trs"
    using ih(5) p(2,4) by simp
  ultimately show ?case using pf_run_trans [OF ih(1) run1] by blast
qed

text \<open>An invariant of the bars, and the way through a bar that keeps one.\<close>

lemma bars_invariant:
  assumes "\<And>i c st st'. Q c \<Longrightarrow> P st \<Longrightarrow> process_bar env cfg (i, c) st = Inr st' \<Longrightarrow> P st'"
    and "rfold (process_bar env cfg) (enumerate i cs) st = Inr st'" and "\<forall>c \<in> set cs. Q c" and "P st"
  shows "P st'"
  using assms(2-)
proof (induction cs arbitrary: i st)
  case Nil
  then show ?case by simp
next
  case (Cons c cs)
  then obtain st1 where "process_bar env cfg (i, c) st = Inr st1"
      "rfold (process_bar env cfg) (enumerate (Suc i) cs) st1 = Inr st'"
    by (auto simp: enumerate_simps result_simps)
  with Cons assms(1) show ?case by fastforce
qed

subsection \<open>The fate of orders\<close>

fun queued_of :: "lifecycle \<Rightarrow> order list" where
  "queued_of (Queued ord) = [ord]"
| "queued_of _ = []"

fun settled_of :: "lifecycle \<Rightarrow> order list" where
  "settled_of (Filled ord) = [ord]"
| "settled_of (Rejected ord) = [ord]"
| "settled_of (Replaced ord) = [ord]"
| "settled_of (Cancelled_end_of_data ord) = [ord]"
| "settled_of _ = []"

definition pending_list :: "('s, 'z) run_state \<Rightarrow> order list" where
  "pending_list st = (case rs_pending st of None \<Rightarrow> [] | Some po \<Rightarrow> [po_order po])"

definition orders_conserved :: "('s, 'z) run_state \<Rightarrow> bool" where
  "orders_conserved st \<longleftrightarrow> mset (concat (map queued_of (rs_log st)))
     = mset (concat (map settled_of (rs_log st))) + mset (pending_list st)"

lemma handle_order_conserved:
  "orders_conserved st \<Longrightarrow> orders_conserved (handle_order_event ord st)"
  by (auto simp: orders_conserved_def handle_order_event_def pending_list_def Let_def
      split: option.splits)

lemma handle_fill_conserved:
  "handle_fill_event env f st = Inr st' \<Longrightarrow> orders_conserved st \<Longrightarrow> orders_conserved st'"
  by (auto simp: orders_conserved_def handle_fill_event_def pending_list_def result_simps Let_def
      split: option.splits)

lemma conserved_cong:
  "rs_log st' = rs_log st \<Longrightarrow> rs_pending st' = rs_pending st \<Longrightarrow>
    orders_conserved st' = orders_conserved st"
  by (simp add: orders_conserved_def pending_list_def)

lemma execute_phase_conserved:
  assumes "execute_phase env c st = Inr st'" and "orders_conserved st"
  shows "orders_conserved st'"
proof (cases "rs_pending st")
  case None
  with assms show ?thesis by (simp add: execute_phase_def)
next
  case (Some po)
  with assms(1) obtain r where r: "execute (rs_broker st) (po_order po) c = Inr r"
    by (auto simp: execute_phase_def result_simps)
  show ?thesis
  proof (cases r)
    case None
    with r have "o_order_type (po_order po) \<noteq> MARKET"
      using sim.exec_market by blast
    then have "o_order_type (po_order po) \<in> {LIMIT, STOP}"
      by (cases "o_order_type (po_order po)") auto
    with assms Some r None show ?thesis
      by (auto simp: execute_phase_def Let_def orders_conserved_def pending_list_def)
  next
    case (Some f)
    with \<open>rs_pending st = Some po\<close> assms r show ?thesis
      using handle_fill_conserved by (auto simp: execute_phase_def drain_fill)
  qed
qed

lemma margin_phase_conserved:
  assumes "margin_phase env cfg c st = Inr st'" and "orders_conserved st"
  shows "orders_conserved st'"
proof (cases "st' = st")
  case False
  with assms(1) obtain ord st1 symb q r where
    "st' = (handle_order_event ord st1)\<lparr>rs_log := rs_log (handle_order_event ord st1) @
      [Margin_call_queued symb q r]\<rparr>"
    "rs_log st1 = rs_log st" "rs_pending st1 = rs_pending st"
    by (auto simp: margin_phase_def result_simps order_post_init_iff drain_order Let_def
        split: if_splits list.splits option.splits)
  moreover from this have "orders_conserved (handle_order_event ord st1)"
    using assms(2) conserved_cong handle_order_conserved by blast
  ultimately show ?thesis by (simp add: orders_conserved_def pending_list_def)
qed (use assms in simp)

lemma drain_market_conserved:
  assumes "drain_events env [MarketEvent symb c] st c' = Inr st'" and "orders_conserved st"
  shows "orders_conserved st'"
  using assms(1)
proof (cases rule: drain_market_cases)
  case (Quiet s')
  with assms(2) show ?thesis using conserved_cong [of st' st] by simp
next
  case (Order s' sig ord cx st1)
  with assms(2) show ?thesis using handle_order_conserved conserved_cong [of st1 st] by simp
qed

lemma process_bar_conserved:
  assumes "process_bar env cfg (i, c) st = Inr st'" and "orders_conserved st"
  shows "orders_conserved st'"
proof -
  from assms(1) obtain st1 st2 st3 where bar: "accrue_phase i c st = Inr st1"
      "execute_phase env c st1 = Inr st2" "margin_phase env cfg c (mark_phase c st2) = Inr st3"
      "drain_events env [MarketEvent (rs_symbol st3) c] st3 c = Inr st'"
    by (rule process_barE)
  have "orders_conserved st1"
    using assms(2) accrue_phase_portfolio(5,6) [OF bar(1)] conserved_cong by blast
  then have "orders_conserved st2" using execute_phase_conserved [OF bar(2)] by blast
  then have "orders_conserved (mark_phase c st2)" using conserved_cong [of "mark_phase c st2" st2] by simp
  then have "orders_conserved st3" using margin_phase_conserved [OF bar(3)] by blast
  then show ?thesis using drain_market_conserved [OF bar(4)] by blast
qed

lemma close_out_settles:
  "orders_conserved st \<Longrightarrow> mset (concat (map queued_of (rs_log (close_out st))))
     = mset (concat (map settled_of (rs_log (close_out st))))"
  by (auto simp: orders_conserved_def close_out_def pending_list_def split: option.splits)

lemma run_barsE:
  assumes "run_bars env s cs cfg rid rq z = Inr st"
  obtains st0 where "cs \<noteq> []" "strictly_increasing cs" "initial_state cfg rid rq z s = Inr st0"
    "rfold (process_bar env cfg) (enumerate 0 cs) st0 = Inr st"
  using assms by (auto simp: run_bars_def result_simps split: if_splits)

lemma engine_runE:
  assumes "engine_run env s cs cfg rid rq z = Inr (res, st')"
  obtains st where "run_bars env s cs cfg rid rq z = Inr st" "st' = close_out st"
    "rs_portfolio st' = rs_portfolio st" "res_trades res = pf_trades (rs_portfolio st)"
    "res_equity_curve res = pf_equity_curve (rs_portfolio st)"
    "res_final_equity res = equity (rs_portfolio st)"
    "res_initial_capital res = cfg_initial_capital cfg"
    "res_start_date res = c_timestamp (hd cs)" "res_end_date res = c_timestamp (last cs)"
proof -
  from assms obtain st where st: "run_bars env s cs cfg rid rq z = Inr st" "st' = close_out st"
    by (auto simp: engine_run_def result_simps Let_def)
  moreover have "rs_portfolio (close_out st) = rs_portfolio st"
    by (simp add: close_out_def split: option.split)
  ultimately show thesis
    using assms by (intro that [of st]) (auto simp: engine_run_def Let_def)
qed

text \<open>C6: no order is lost. In every run that returns, the orders that were queued are, as a
  multiset, exactly those that were filled, rejected, replaced or cancelled at the end of the
  data.\<close>

theorem orders_all_settled:
  assumes "engine_run env s cs cfg rid rq z = Inr (res, st)"
  shows "mset (concat (map queued_of (rs_log st))) = mset (concat (map settled_of (rs_log st)))"
proof -
  from assms obtain st1 where st1: "run_bars env s cs cfg rid rq z = Inr st1" "st = close_out st1"
    by (rule engine_runE)
  from st1(1) obtain st0 where st0: "initial_state cfg rid rq z s = Inr st0"
      "rfold (process_bar env cfg) (enumerate 0 cs) st0 = Inr st1"
    by (rule run_barsE)
  have "orders_conserved st0"
    using initial_state_eq [OF st0(1)] by (simp add: orders_conserved_def pending_list_def)
  then have "orders_conserved st1"
    using bars_invariant [where Q = "\<lambda>c. True" and P = orders_conserved, OF _ st0(2)]
      process_bar_conserved by blast
  then show ?thesis using st1(2) close_out_settles by blast
qed

subsection \<open>When trades happen\<close>

definition trades_dated :: "datetime set \<Rightarrow> portfolio \<Rightarrow> bool" where
  "trades_dated T p \<longleftrightarrow>
     (\<forall>t \<in> set (pf_trades p). \<exists>x. t_exit_date t = Some x \<and> t_entry_date t < x \<and>
        t_entry_date t \<in> T \<and> x \<in> T) \<and>
     (\<forall>(symb, pos) \<in> set (pf_open_positions p). pos_entry_date pos \<in> T)"

lemma trades_dated_cong:
  "pf_trades p = pf_trades q \<Longrightarrow> pf_open_positions p = pf_open_positions q \<Longrightarrow>
    trades_dated T p = trades_dated T q"
  by (simp add: trades_dated_def)

lemma trades_dated_mono: "trades_dated T p \<Longrightarrow> T \<subseteq> T' \<Longrightarrow> trades_dated T' p"
  by (fastforce simp: trades_dated_def)

lemma record_fill_dated:
  assumes fill: "record_fill p symb d q x t c u = Inr (p', out)"
    and dated: "trades_dated T p" and before: "\<forall>s \<in> T. s < t"
  shows "trades_dated (insert t T) p'"
proof -
  note old = trades_dated_mono [OF dated, of "insert t T"]
  have entry: "pos_entry_date pos \<in> T" if "dict_get (pf_open_positions p) symb = Some pos" for pos
    using that dated by (auto simp: trades_dated_def dict_get_def dest!: map_of_SomeD)
  from fill show ?thesis
  proof (cases rule: record_fill_cases)
    case (CloseLong pr cm pos tr)
    with old entry [of pos] before show ?thesis
      by (auto simp: trades_dated_def set_dict_del)
  next
    case (CloseShort pr cm pos tr r b)
    with old entry [of pos] before show ?thesis
      by (auto simp: trades_dated_def set_dict_del)
  qed (use old in \<open>auto simp: trades_dated_def set_dict_set\<close>)
qed

lemma execute_phase_dated:
  assumes "execute_phase env c st = Inr st'" and "trades_dated T (rs_portfolio st)"
    and "\<forall>s \<in> T. s < c_timestamp c"
  shows "trades_dated (insert (c_timestamp c) T) (rs_portfolio st')"
proof (cases "rs_portfolio st' = rs_portfolio st")
  case True
  with trades_dated_mono [OF assms(2) subset_insertI] show ?thesis by simp
next
  case False
  with assms(1) have "\<exists>po f. execute (rs_broker st) po c = Inr (Some f) \<and>
      handle_fill_event env f st = Inr st'"
    by (auto simp: execute_phase_def result_simps drain_fill Let_def split: option.splits if_splits)
  then obtain po f where "execute (rs_broker st) po c = Inr (Some f)"
    and h: "handle_fill_event env f st = Inr st'" by blast
  then have "f_fill_date f = c_timestamp c" using sim.exec_whole by blast
  with handle_fill_portfolio [OF h] record_fill_dated [OF _ assms(2,3)] show ?thesis by auto
qed

lemma process_bar_dated:
  assumes bar: "process_bar env cfg (i, c) st = Inr st'" and dated: "trades_dated T (rs_portfolio st)"
    and before: "\<forall>s \<in> T. s < c_timestamp c"
  shows "trades_dated (insert (c_timestamp c) T) (rs_portfolio st')"
    and "rs_pending st = None \<Longrightarrow> trades_dated T (rs_portfolio st')"
proof -
  from bar obtain st1 st2 st3 where ph: "accrue_phase i c st = Inr st1"
      "execute_phase env c st1 = Inr st2" "margin_phase env cfg c (mark_phase c st2) = Inr st3"
      "drain_events env [MarketEvent (rs_symbol st3) c] st3 c = Inr st'"
    by (rule process_barE)
  have st1: "trades_dated T (rs_portfolio st1)"
    using dated trades_dated_cong [OF accrue_phase_portfolio(3,4) [OF ph(1)]] by simp
  have out: "trades_dated U (rs_portfolio st') = trades_dated U (rs_portfolio st2)" for U
    using drain_market_portfolio(1) [OF ph(4)] margin_phase_portfolio [OF ph(3)]
    by (intro trades_dated_cong) (simp_all add: mark_phase_def)
  show "trades_dated (insert (c_timestamp c) T) (rs_portfolio st')"
    using execute_phase_dated [OF ph(2) st1 before] out by simp
  show "trades_dated T (rs_portfolio st')" if "rs_pending st = None"
    using that st1 out ph(2) accrue_phase_portfolio(5) [OF ph(1)] by (simp add: execute_phase_def)
qed

lemma increasing_tail:
  "strictly_increasing (c # cs) \<Longrightarrow> \<forall>d \<in> set cs. c_timestamp c < c_timestamp d"
proof (induction cs arbitrary: c)
  case (Cons d cs)
  then show ?case by fastforce
qed simp

lemma increasing_Cons: "strictly_increasing (c # cs) \<Longrightarrow> strictly_increasing cs"
  by (cases cs) auto

lemma bars_dated:
  assumes "rfold (process_bar env cfg) (enumerate i cs) st = Inr st'"
    and "trades_dated T (rs_portfolio st)" and "strictly_increasing cs"
    and "\<forall>s \<in> T. \<forall>c \<in> set cs. s < c_timestamp c"
  shows "trades_dated (T \<union> c_timestamp ` set cs) (rs_portfolio st')"
  using assms
proof (induction cs arbitrary: i st T)
  case Nil
  then show ?case by simp
next
  case (Cons c cs)
  then obtain st1 where st1: "process_bar env cfg (i, c) st = Inr st1"
      "rfold (process_bar env cfg) (enumerate (Suc i) cs) st1 = Inr st'"
    by (auto simp: enumerate_simps result_simps)
  have "trades_dated (insert (c_timestamp c) T) (rs_portfolio st1)"
    using process_bar_dated(1) [OF st1(1) Cons.prems(2)] Cons.prems(4) by simp
  with Cons.IH [OF st1(2), of "insert (c_timestamp c) T"] Cons.prems(3,4)
    increasing_tail [OF Cons.prems(3)] increasing_Cons [OF Cons.prems(3)]
  show ?case by simp
qed

text \<open>C4: no look-ahead in time. In every run that returns, each trade is entered and exited at
  the timestamps of candles, the exit strictly after the entry, and never on the first
  candle: an order that a bar gives rise to is filled on a later one.\<close>

theorem trades_fill_on_later_bars:
  assumes "engine_run env s cs cfg rid rq z = Inr (res, st)"
  shows "\<forall>t \<in> set (res_trades res). \<exists>x. t_exit_date t = Some x \<and> t_entry_date t < x \<and>
    t_entry_date t \<in> c_timestamp ` set (tl cs) \<and> x \<in> c_timestamp ` set (tl cs)"
proof -
  from assms obtain st1 where st1: "run_bars env s cs cfg rid rq z = Inr st1"
      "res_trades res = pf_trades (rs_portfolio st1)"
    by (rule engine_runE)
  from st1(1) obtain st0 where st0: "cs \<noteq> []" "strictly_increasing cs"
      "initial_state cfg rid rq z s = Inr st0"
      "rfold (process_bar env cfg) (enumerate 0 cs) st0 = Inr st1"
    by (rule run_barsE)
  then obtain c cs' where cs: "cs = c # cs'" by (cases cs) auto
  with st0(4) obtain u where u: "process_bar env cfg (0, c) st0 = Inr u"
      "rfold (process_bar env cfg) (enumerate (Suc 0) cs') u = Inr st1"
    by (auto simp: enumerate_simps result_simps)
  have "trades_dated {} (rs_portfolio st0)"
    using portfolio_init_eq [OF initial_state_eq(1) [OF st0(3)]] by (simp add: trades_dated_def)
  then have "trades_dated {} (rs_portfolio u)"
    using process_bar_dated(2) [OF u(1)] initial_state_eq(4) [OF st0(3)] by simp
  then have "trades_dated ({} \<union> c_timestamp ` set cs') (rs_portfolio st1)"
    using bars_dated [OF u(2)] st0(2) cs increasing_Cons by blast
  with st1(2) cs show ?thesis by (auto simp: trades_dated_def)
qed

text \<open>C3: causality. A run on the first candles of a series computes exactly the first points of
  the equity curve and the first trades of the run on the whole series: later candles change
  nothing that was recorded earlier.\<close>

theorem run_is_causal:
  assumes "run_bars env s (cs1 @ cs2) cfg rid rq z = Inr st" and "cs1 \<noteq> []"
  shows "\<exists>st1 pts trs. run_bars env s cs1 cfg rid rq z = Inr st1 \<and>
    pf_equity_curve (rs_portfolio st) = pf_equity_curve (rs_portfolio st1) @ pts \<and>
    length (pf_equity_curve (rs_portfolio st1)) = length cs1 \<and>
    pf_trades (rs_portfolio st) = pf_trades (rs_portfolio st1) @ trs"
proof -
  from assms(1) obtain st0 where st0: "strictly_increasing (cs1 @ cs2)"
      "initial_state cfg rid rq z s = Inr st0"
      "rfold (process_bar env cfg) (enumerate 0 (cs1 @ cs2)) st0 = Inr st"
    by (rule run_barsE)
  then obtain st1 where st1: "rfold (process_bar env cfg) (enumerate 0 cs1) st0 = Inr st1"
      "rfold (process_bar env cfg) (enumerate (length cs1) cs2) st1 = Inr st"
    by (auto simp: enumerate_append_eq rfold_append result_simps)
  have "strictly_increasing cs1"
    using st0(1) by (induction cs1 rule: strictly_increasing.induct) auto
  then have "run_bars env s cs1 cfg rid rq z = Inr st1"
    using assms(2) st0(2) st1(1) by (simp add: run_bars_def)
  moreover have "length (pf_equity_curve (rs_portfolio st1)) = length cs1"
    using bars_portfolio [OF st1(1)] portfolio_init_eq(5) [OF initial_state_eq(1) [OF st0(2)]]
    by (metis append_Nil length_map)
  ultimately show ?thesis
    using bars_portfolio [OF st1(2)] by blast
qed


subsection \<open>Runs return\<close>

context backtest_run
begin

lemma run_bars_returns:
  assumes "config_ok cfg" and "valid s" and "sizer_ok z" and "\<forall>c \<in> set cs. candle_pos c"
    and "cs \<noteq> []" and "strictly_increasing cs"
  shows "\<exists>st. run_bars env s cs cfg rid rq z = Inr st \<and>
    run_sound valid sizer_ok (c_timestamp (last cs)) st"
proof -
  obtain st0 where st0: "initial_state cfg rid rq z s = Inr st0"
    using initial_state_returns [OF assms(1), of rid rq z s] by blast
  have "run_sound valid sizer_ok (c_timestamp (hd cs)) st0"
    using initial_state_inv [OF st0 assms(1)] initial_state_eq [OF st0] assms(2,3)
    by (simp add: run_sound_def)
  with bars_sound [of "c_timestamp (hd cs)" st0 cs 0 cfg] assms(4-6) st0 show ?thesis
    by (simp add: run_bars_def)
qed

lemma forced_after_breach:
  assumes snd: "run_sound valid sizer_ok ts st" and pos: "candle_pos c"
    and "i > 0 \<longrightarrow> ts < c_timestamp c" and "ts \<le> c_timestamp c"
    and bar: "process_bar env cfg (i, c) st = Inr st'"
    and breach: "margin_breach cfg (rs_portfolio st') = Some (symb, p)"
  shows "forced_pending st'"
proof -
  from bar obtain st1 st2 st3 where ph: "accrue_phase i c st = Inr st1"
      "execute_phase env c st1 = Inr st2" "margin_phase env cfg c (mark_phase c st2) = Inr st3"
      "drain_events env [MarketEvent (rs_symbol st3) c] st3 c = Inr st'"
    by (rule process_barE)
  from snd have inv: "run_inv ts st" by (simp add: run_sound_def)
  have inv1: "run_inv (c_timestamp c) st1"
    using accrue_phase_inv [OF inv assms(3,4)] ph(1) by auto
  have inv2: "run_inv (c_timestamp c) st2"
    using execute_phase_inv [OF inv1 pos, of env] ph(2) by auto
  have "\<not> forced_pending st2"
    using inv1 pos
  proof (cases rule: execute_phase_cases [where env = env])
    case (Waiting po)
    with ph(2) run_invD(3) [OF inv1] show ?thesis
      by (auto simp: forced_pending_def pending_ok_def)
  qed (use ph(2) in \<open>auto simp: forced_pending_def\<close>)
  moreover have "rs_portfolio st' = rs_portfolio (mark_phase c st2)"
    using drain_market_portfolio(1) [OF ph(4)] margin_phase_portfolio [OF ph(3)] by simp
  ultimately have "st3 = call_margin c (symb, p) (mark_phase c st2)"
    using ph(3) breach run_inv_quantities [OF mark_phase_inv [OF inv2, of c]]
    by (subst (asm) margin_phase_eq) (auto simp: forced_pending_def)
  then have "forced_pending st3" by (simp add: forced_pending_def)
  with ph(4) show ?thesis
    by (cases rule: drain_market_cases) (auto simp: forced_pending_def)
qed

lemma forced_cover_executes:
  assumes snd: "run_sound valid sizer_ok ts st" and pos: "candle_pos c"
    and "ts < c_timestamp c" and forced: "forced_pending st"
    and bar: "process_bar env cfg (Suc i, c) st = Inr st'"
  shows "\<exists>symb p tr. pf_open_positions (rs_portfolio st) = [(symb, p)] \<and>
    pf_open_positions (rs_portfolio st') = [] \<and>
    pf_trades (rs_portfolio st') = pf_trades (rs_portfolio st) @ [tr] \<and>
    t_symbol tr = symb \<and> t_direction tr = SHORT \<and> t_exit_date tr = Some (c_timestamp c)"
proof -
  from bar obtain st1 st2 st3 where ph: "accrue_phase (Suc i) c st = Inr st1"
      "execute_phase env c st1 = Inr st2" "margin_phase env cfg c (mark_phase c st2) = Inr st3"
      "drain_events env [MarketEvent (rs_symbol st3) c] st3 c = Inr st'"
    by (rule process_barE)
  note acc = accrue_phase_portfolio(2-) [OF ph(1)]
  from snd have inv: "run_inv ts st" by (simp add: run_sound_def)
  have inv1: "run_inv (c_timestamp c) st1"
    using accrue_phase_inv [OF inv, of "Suc i" c] assms(3) ph(1) by auto
  from forced obtain po where po: "rs_pending st1 = Some po" "po_forced_cover po"
    using acc by (auto simp: forced_pending_def split: option.splits)
  then obtain symb p where sp: "pf_open_positions (rs_portfolio st1) = [(symb, p)]"
      "pos_direction p = SHORT" "fits (po_order po) (symb, p)" "o_order_type (po_order po) = MARKET"
    using run_invD(3) [OF inv1] by (auto simp: pending_ok_def)
  have out: "pf_open_positions (rs_portfolio st') = pf_open_positions (rs_portfolio st2)"
      "pf_trades (rs_portfolio st') = pf_trades (rs_portfolio st2)"
    using drain_market_portfolio(1) [OF ph(4)] margin_phase_portfolio [OF ph(3)]
    by (simp_all add: mark_phase_def)
  from inv1 pos show ?thesis
  proof (cases rule: execute_phase_cases [where env = env])
    case (Executed po' x cm p' out')
    with po sp have rec: "record_fill (rs_portfolio st1) symb LONG (pos_quantity p) (Fin x)
        (c_timestamp c) (Fin cm) (env_uuid env (rs_fills st1)) = Inr (p', out')"
      by (simp add: fits_def)
    have "dict_get (pf_open_positions (rs_portfolio st1)) symb = Some p"
      using sp(1) by (simp add: dict_get_def)
    with rec sp have "pf_open_positions p' = [] \<and> (\<exists>tr. pf_trades p' = pf_trades (rs_portfolio st1) @ [tr]
        \<and> t_symbol tr = symb \<and> t_direction tr = SHORT \<and> t_exit_date tr = Some (c_timestamp c))"
      by (cases rule: record_fill_cases) (auto simp: dict.items_del)
    with Executed(3) ph(2) out sp(1) acc show ?thesis by auto
  qed (use po sp in auto)
qed

lemma margin_call_two_bars:
  assumes "config_ok cfg" and "valid s" and "sizer_ok z"
    and pos: "\<forall>c \<in> set (cs @ [c1, c2]). candle_pos c" and inc: "strictly_increasing (cs @ [c1, c2])"
    and run1: "run_bars env s (cs @ [c1]) cfg rid rq z = Inr st1"
    and breach: "margin_breach cfg (rs_portfolio st1) = Some (symb, p)"
  shows "\<exists>st2 tr. run_bars env s (cs @ [c1, c2]) cfg rid rq z = Inr st2 \<and>
    pf_open_positions (rs_portfolio st2) = [] \<and>
    pf_trades (rs_portfolio st2) = pf_trades (rs_portfolio st1) @ [tr] \<and>
    t_symbol tr = symb \<and> t_direction tr = SHORT \<and> t_exit_date tr = Some (c_timestamp c2)"
proof -
  obtain st2 where run2: "run_bars env s (cs @ [c1, c2]) cfg rid rq z = Inr st2"
    using run_bars_returns [OF assms(1-3) pos _ inc] by auto
  then obtain st0 where st0: "initial_state cfg rid rq z s = Inr st0"
      "rfold (process_bar env cfg) (enumerate 0 (cs @ [c1, c2])) st0 = Inr st2"
    by (rule run_barsE)
  then obtain u where u: "rfold (process_bar env cfg) (enumerate 0 cs) st0 = Inr u"
      "process_bar env cfg (length cs, c1) u = Inr st1" "process_bar env cfg (Suc (length cs), c2) st1 = Inr st2"
    using run1 by (auto simp: run_bars_def enumerate_append_eq enumerate_simps rfold_append
        result_simps split: if_splits)
  have incs: "strictly_increasing cs" "strictly_increasing (cs @ [c1])"
      "c_timestamp c1 < c_timestamp c2" "cs \<noteq> [] \<longrightarrow> c_timestamp (last cs) < c_timestamp c1"
    using inc by (induction cs rule: strictly_increasing.induct) (auto split: if_splits)
  let ?ts = "if cs = [] then c_timestamp c1 else c_timestamp (last cs)"
  have "run_sound valid sizer_ok (if cs = [] then c_timestamp c1 else c_timestamp (hd cs)) st0"
    using initial_state_inv [OF st0(1) assms(1)] initial_state_eq [OF st0(1)] assms(2,3)
    by (simp add: run_sound_def)
  with bars_sound [of _ st0 cs 0 cfg] u(1) pos incs(1) have "run_sound valid sizer_ok ?ts u"
    by (auto split: if_splits)
  then have forced: "forced_pending st1"
    using forced_after_breach [OF _ _ _ _ u(2) breach] pos incs(4) by (auto split: if_splits)
  have "run_sound valid sizer_ok (c_timestamp c1) st1"
    using run_bars_returns [OF assms(1-3), of "cs @ [c1]" rid rq] pos incs(2) run1 by auto
  from forced_cover_executes [OF this _ incs(3) forced u(3)] pos margin_breach_Some [OF breach] run2
  show ?thesis by auto
qed

end

text \<open>C1: runs return. With a strategy and a sizer that satisfy their interfaces, a valid
  configuration and candles with positive prices, \<open>run\<close> raises no exception exactly when there
  is a candle and the timestamps increase; otherwise it raises \<open>ValueError\<close>. The result has one
  equity point per candle, in order, the last of which is the final equity, and at most one
  position is open.\<close>

theorem run_returns:
  assumes "backtest_run env valid sizer_ok" and "config_ok cfg" and "valid s" and "sizer_ok z"
    and "\<forall>c \<in> set cs. candle_pos c"
  shows "if cs \<noteq> [] \<and> strictly_increasing cs
    then \<exists>res st. engine_run env s cs cfg rid rq z = Inr (res, st) \<and>
      map ep_date (res_equity_curve res) = map c_timestamp cs \<and>
      ep_equity (last (res_equity_curve res)) = res_final_equity res \<and>
      length (pf_open_positions (rs_portfolio st)) \<le> 1
    else \<exists>m. engine_run env s cs cfg rid rq z = Inl (ValueError m)"
proof (cases "cs \<noteq> [] \<and> strictly_increasing cs")
  case True
  then obtain st where st: "run_bars env s cs cfg rid rq z = Inr st"
      "run_sound valid sizer_ok (c_timestamp (last cs)) st"
    using backtest_run.run_bars_returns [OF assms] by blast
  then obtain res st' where run: "engine_run env s cs cfg rid rq z = Inr (res, st')"
    by (simp add: engine_run_def Let_def)
  from st(1) obtain st0 where st0: "initial_state cfg rid rq z s = Inr st0"
      "rfold (process_bar env cfg) (enumerate 0 cs) st0 = Inr st"
    by (rule run_barsE)
  have len: "length (pf_open_positions (rs_portfolio st)) \<le> 1"
    using st(2) run_invD(6) by (auto simp: run_sound_def)
  have "pf_equity_curve (rs_portfolio st0) = []"
    using portfolio_init_eq(5) [OF initial_state_eq(1) [OF st0(1)]] .
  with bars_portfolio [OF st0(2)] True have
    "map ep_date (pf_equity_curve (rs_portfolio st)) = map c_timestamp cs \<and>
     ep_equity (last (pf_equity_curve (rs_portfolio st))) = equity (rs_portfolio st)"
    by auto
  with run st(1) len True show ?thesis
    by (auto elim!: engine_runE)
next
  case False
  then show ?thesis by (auto simp: engine_run_def run_bars_def)
qed

text \<open>C2: a margin call is covered on the next bar. When a bar leaves a short position below the
  maintenance margin, then whatever the strategy signals, the next candle closes the position
  at that candle: no position is left and exactly the covering trade is added.\<close>

theorem margin_call_covered_next_bar:
  assumes "backtest_run env valid sizer_ok" and "config_ok cfg" and "valid s" and "sizer_ok z"
    and "\<forall>c \<in> set (cs @ [c1, c2]). candle_pos c" and "strictly_increasing (cs @ [c1, c2])"
    and "run_bars env s (cs @ [c1]) cfg rid rq z = Inr st1"
    and "margin_breach cfg (rs_portfolio st1) = Some (symb, p)"
  shows "\<exists>st2 tr. run_bars env s (cs @ [c1, c2]) cfg rid rq z = Inr st2 \<and>
    pf_open_positions (rs_portfolio st2) = [] \<and>
    pf_trades (rs_portfolio st2) = pf_trades (rs_portfolio st1) @ [tr] \<and>
    t_symbol tr = symb \<and> t_direction tr = SHORT \<and> t_exit_date tr = Some (c_timestamp c2)"
  using backtest_run.margin_call_two_bars [OF assms] .

subsection \<open>The strategies of the repository never go short\<close>

definition long_only :: "('s, 'z) run_state \<Rightarrow> bool" where
  "long_only st \<longleftrightarrow>
     (\<forall>(symb, pos) \<in> set (pf_open_positions (rs_portfolio st)). pos_direction pos = LONG) \<and>
     (\<forall>po. rs_pending st = Some po \<longrightarrow> pf_open_positions (rs_portfolio st) = [] \<longrightarrow>
        o_direction (po_order po) = LONG) \<and>
     (\<forall>t \<in> set (pf_trades (rs_portfolio st)). t_direction t = LONG)"

lemma long_only_no_shorts: "long_only st \<Longrightarrow> short_positions (rs_portfolio st) = []"
  by (auto simp: long_only_def short_positions_def filter_empty_conv)

lemma long_only_no_breach: "long_only st \<Longrightarrow> margin_breach cfg (rs_portfolio st) = None"
  by (auto simp: long_only_def margin_breach_def split: list.splits option.splits)

lemma execute_phase_long_only:
  assumes inv: "run_inv (c_timestamp c) st" and pos: "candle_pos c" and lo: "long_only st"
    and ex: "execute_phase env c st = Inr st'"
  shows "long_only st'"
  using inv pos
proof (cases rule: execute_phase_cases [where env = env])
  case Idle
  with lo ex show ?thesis by simp
next
  case (Waiting po)
  with lo ex show ?thesis by (auto simp: long_only_def)
next
  case (Executed po x cm p' out)
  have fit: "\<forall>i \<in> set (pf_open_positions (rs_portfolio st)). fits (po_order po) i"
    using run_invD(3) [OF inv] Executed(1) by (simp add: pending_ok_def)
  have one: "pf_open_positions (rs_portfolio st) = [] \<and> o_direction (po_order po) = LONG \<or>
      (\<exists>pos. pf_open_positions (rs_portfolio st) = [(o_symbol (po_order po), pos)] \<and>
        pos_direction pos = LONG \<and> o_direction (po_order po) = SHORT)"
    using book_ok_position [OF run_invD(1) [OF inv]] fit lo Executed(1)
    by (auto simp: fits_def long_only_def)
  from Executed(2) have "(\<forall>(symb, pos) \<in> set (pf_open_positions p'). pos_direction pos = LONG) \<and>
      (\<forall>t \<in> set (pf_trades p'). t_direction t = LONG)"
  proof (cases rule: record_fill_cases)
    case (OpenLong pr cm)
    with lo show ?thesis by (auto simp: long_only_def set_dict_set)
  next
    case (OpenShort pr cm)
    with one show ?thesis by (auto simp: dict_get_def)
  next
    case (CloseLong pr cm pos tr)
    with lo show ?thesis by (auto simp: long_only_def set_dict_del)
  next
    case (CloseShort pr cm pos tr r b)
    with one show ?thesis by (auto simp: dict_get_def split: if_splits)
  qed (use lo in \<open>auto simp: long_only_def\<close>)
  with Executed(3) ex show ?thesis by (auto simp: long_only_def)
qed

locale lawful_run =
  strategy "env_on_candle env" valid reset + position_sizer "env_calculate env" sizer_ok
  for env :: "('s, 'z) collaborators" and valid and sizer_ok and reset

sublocale lawful_run \<subseteq> backtest_run env valid sizer_ok
  by unfold_locales

context lawful_run
begin

lemma market_phase_long_only:
  assumes snd: "run_sound valid sizer_ok ts st" and lo: "long_only st"
    and "drain_events env [MarketEvent symb c] st c = Inr st'"
  shows "long_only st'"
  using assms(3)
proof (cases rule: drain_market_cases)
  case (Quiet s')
  with lo show ?thesis by (simp add: long_only_def)
next
  case (Order s' sig ord cx st1)
  from snd have inv: "run_inv ts st" and valid: "valid (rs_strategy st)"
    by (simp_all add: run_sound_def)
  have cx: "ctx_position_direction cx = (case pf_open_positions (rs_portfolio st) of [] \<Rightarrow> None
      | (symb, pos) # _ \<Rightarrow> Some (pos_direction pos))"
    using build_context_returns [OF run_invD(1) [OF inv], of "rs_pending st"] Order(1) by auto
  have "s_direction sig = LONG" if "pf_open_positions (rs_portfolio st) = []"
  proof (rule ccontr)
    assume "s_direction sig \<noteq> LONG"
    then have "s_direction sig = SHORT" by (cases "s_direction sig") auto
    with Order(2) exit_when_long [OF valid] have "exitable cx" by blast
    with cx that show False by (simp add: exitable_def)
  qed
  with lo Order(6) build_order_SomeD [OF Order(4)] show ?thesis
    by (simp add: Order(5) long_only_def)
qed

lemma process_bar_long_only:
  assumes snd: "run_sound valid sizer_ok ts st" and "candle_pos c" and "i > 0 \<longrightarrow> ts < c_timestamp c"
    and "ts \<le> c_timestamp c" and bar: "process_bar env cfg (i, c) st = Inr st'" and lo: "long_only st"
  shows "long_only st'"
proof -
  from bar obtain st1 st2 st3 where ph: "accrue_phase i c st = Inr st1"
      "execute_phase env c st1 = Inr st2" "margin_phase env cfg c (mark_phase c st2) = Inr st3"
      "drain_events env [MarketEvent (rs_symbol st3) c] st3 c = Inr st'"
    by (rule process_barE)
  from snd have inv: "run_inv ts st" by (simp add: run_sound_def)
  obtain inv1: "run_inv (c_timestamp c) st1"
      and s1: "rs_strategy st1 = rs_strategy st" "rs_position_sizer st1 = rs_position_sizer st"
    using accrue_phase_inv [OF inv assms(3,4)] ph(1) by auto
  obtain inv2: "run_inv (c_timestamp c) st2"
      and s2: "rs_strategy st2 = rs_strategy st1" "rs_position_sizer st2 = rs_position_sizer st1"
    using execute_phase_inv [OF inv1 assms(2), of env] ph(2) by auto
  have "long_only st1"
    using lo accrue_phase_portfolio(3-5) [OF ph(1)] by (simp add: long_only_def)
  then have "long_only st2"
    using execute_phase_long_only [OF inv1 assms(2) _ ph(2)] by blast
  then have lo2: "long_only (mark_phase c st2)" by (simp add: long_only_def mark_phase_def)
  moreover have "st3 = mark_phase c st2"
    using ph(3) long_only_no_breach [OF lo2, of cfg]
      run_inv_quantities [OF mark_phase_inv [OF inv2, of c]]
    by (subst (asm) margin_phase_eq) (auto split: if_splits)
  moreover have "run_sound valid sizer_ok (c_timestamp c) (mark_phase c st2)"
    using snd s1 s2 mark_phase_inv [OF inv2] by (simp add: run_sound_def)
  ultimately show ?thesis using market_phase_long_only ph(4) by blast
qed

lemma bars_long_only:
  assumes "run_sound valid sizer_ok ts st" and "\<forall>c \<in> set cs. candle_pos c" and "strictly_increasing cs"
    and "cs \<noteq> [] \<Longrightarrow> ts \<le> c_timestamp (hd cs) \<and> (i > 0 \<longrightarrow> ts < c_timestamp (hd cs))"
    and "rfold (process_bar env cfg) (enumerate i cs) st = Inr st'" and "long_only st"
  shows "long_only st' \<and> pf_run (rs_portfolio st) 0 (rs_portfolio st')"
  using assms
proof (induction cs arbitrary: ts st i)
  case Nil
  then show ?case by (simp add: pf_start)
next
  case (Cons c cs)
  then obtain st1 where st1: "process_bar env cfg (i, c) st = Inr st1"
      "rfold (process_bar env cfg) (enumerate (Suc i) cs) st1 = Inr st'"
    by (auto simp: enumerate_simps result_simps)
  have ts: "i > 0 \<longrightarrow> ts < c_timestamp c" "ts \<le> c_timestamp c" and c: "candle_pos c"
    using Cons.prems(2,4) by simp_all
  have sound1: "run_sound valid sizer_ok (c_timestamp c) st1"
    using process_bar_sound [OF Cons.prems(1) c ts, of cfg] st1(1) by auto
  have lo1: "long_only st1"
    using process_bar_long_only [OF Cons.prems(1) c ts st1(1) Cons.prems(6)] .
  obtain p symb where p: "pf_run (rs_portfolio st) 0 p"
      "rs_portfolio st1 = update_prices p [(symb, c_close c)] (c_timestamp c)"
    using process_bar_portfolio [OF st1(1)] long_only_no_shorts [OF Cons.prems(6)] by blast
  have "pf_run (rs_portfolio st) (0 + 0) (rs_portfolio st1)"
    unfolding p(2) by (rule pf_more [OF p(1) pf_update])
  moreover have "long_only st' \<and> pf_run (rs_portfolio st1) 0 (rs_portfolio st')"
    using Cons.IH [OF sound1 _ _ _ st1(2) lo1] Cons.prems(2) increasing_tail [OF Cons.prems(3)]
      increasing_Cons [OF Cons.prems(3)] by (cases cs) auto
  ultimately show ?case using pf_run_trans [of "rs_portfolio st1" 0 "rs_portfolio st'" _ "0 + 0"] by simp
qed

lemma run_bars_long_only:
  assumes "config_ok cfg" and "valid s" and "sizer_ok z" and "\<forall>c \<in> set cs. candle_pos c"
    and "run_bars env s cs cfg rid rq z = Inr st"
  shows "\<exists>st0. initial_state cfg rid rq z s = Inr st0 \<and> long_only st \<and>
    pf_run (rs_portfolio st0) 0 (rs_portfolio st)"
proof -
  from assms(5) obtain st0 where st0: "cs \<noteq> []" "strictly_increasing cs"
      "initial_state cfg rid rq z s = Inr st0"
      "rfold (process_bar env cfg) (enumerate 0 cs) st0 = Inr st"
    by (rule run_barsE)
  have "run_sound valid sizer_ok (c_timestamp (hd cs)) st0"
    using initial_state_inv [OF st0(3) assms(1)] initial_state_eq [OF st0(3)] assms(2,3)
    by (simp add: run_sound_def)
  moreover have "long_only st0"
    using portfolio_init_eq [OF initial_state_eq(1) [OF st0(3)]] initial_state_eq(4) [OF st0(3)]
    by (simp add: long_only_def)
  ultimately show ?thesis
    using bars_long_only [OF _ assms(4) st0(2) _ st0(4)] st0(3) by simp
qed

end

text \<open>C7: long only. A run of a strategy that enters only when flat and exits only from a long
  position, as all strategies of the repository do, never opens a short position; so it pays no
  borrow fees, and the final equity is exactly the initial capital plus the profit and loss of
  the trades plus the unrealised result of the open position.\<close>

theorem shipped_strategies_long_only:
  assumes "lawful_run env valid sizer_ok reset" and "config_ok cfg" and "valid s" and "sizer_ok z"
    and "\<forall>c \<in> set cs. candle_pos c" and "engine_run env s cs cfg rid rq z = Inr (res, st)"
  shows "(\<forall>t \<in> set (res_trades res). t_direction t = LONG) \<and>
    (\<forall>(symb, pos) \<in> set (pf_open_positions (rs_portfolio st)). pos_direction pos = LONG) \<and>
    res_final_equity res = fin_val (cfg_initial_capital cfg) + sum_list (map pnl (res_trades res))
      + sum_list (map (unrealised (rs_portfolio st)) (pf_open_positions (rs_portfolio st)))"
proof -
  from assms(6) obtain st1 where st1: "run_bars env s cs cfg rid rq z = Inr st1"
      "rs_portfolio st = rs_portfolio st1" "res_trades res = pf_trades (rs_portfolio st1)"
      "res_final_equity res = equity (rs_portfolio st1)"
    by (rule engine_runE)
  obtain st0 where st0: "initial_state cfg rid rq z s = Inr st0" "long_only st1"
      and run: "pf_run (rs_portfolio st0) 0 (rs_portfolio st1)"
    using lawful_run.run_bars_long_only [OF assms(1-5) st1(1)] by blast
  note init = initial_state_eq(1) [OF st0(1)]
  have "booked (rs_portfolio st1) = fin_val (cfg_initial_capital cfg)"
    using pf_run_booked [OF run portfolio_init_inv [OF init]] portfolio_init_eq [OF init]
    by (simp add: booked_def)
  with st0(2) st1 show ?thesis by (simp add: equity_booked long_only_def)
qed

subsection \<open>The registered strategies as collaborators\<close>

text \<open>
  The three entries of \<open>STRATEGY_REGISTRY\<close>, each with its \<open>name\<close> and \<open>parameters\<close>, for any
  sizer and UUID source.
\<close>

definition ma_env where
  "ma_env calc uuid = \<lparr>env_name = ''ma_crossover'',
     env_parameters = (\<lambda>s. [(''fast_period'', real_of_int (ma_fast_period s)),
       (''slow_period'', real_of_int (ma_slow_period s))]),
     env_on_candle = ma_on_candle, env_calculate = calc, env_uuid = uuid\<rparr>"

definition rsi_env where
  "rsi_env calc uuid = \<lparr>env_name = ''rsi_mean_reversion'',
     env_parameters = (\<lambda>s. [(''period'', real_of_int (rsi_period s)),
       (''oversold'', rsi_oversold s), (''exit_level'', rsi_exit_level s)]),
     env_on_candle = rsi_on_candle, env_calculate = calc, env_uuid = uuid\<rparr>"

definition breakout_env where
  "breakout_env calc uuid = \<lparr>env_name = ''breakout'',
     env_parameters = (\<lambda>s. [(''lookback'', real_of_int (bo_lookback s))]),
     env_on_candle = breakout_on_candle, env_calculate = calc, env_uuid = uuid\<rparr>"

lemmas env_defs = ma_env_def rsi_env_def breakout_env_def

interpretation ma_fq: lawful_run "ma_env fixed_quantity_calculate uuid" ma_valid "\<lambda>q. 1 \<le> q" ma_reset
  for uuid
  by (simp add: lawful_run_def env_defs ma.strategy_axioms fq.position_sizer_axioms)

interpretation ma_ff: lawful_run "ma_env fixed_fraction_calculate uuid" ma_valid fraction_ok ma_reset
  for uuid
  by (simp add: lawful_run_def env_defs ma.strategy_axioms ff.position_sizer_axioms)

interpretation ma_kc: lawful_run "ma_env kelly_calculate uuid" ma_valid kelly_ok ma_reset
  for uuid
  by (simp add: lawful_run_def env_defs ma.strategy_axioms kc.position_sizer_axioms)

interpretation rsi_fq: lawful_run "rsi_env fixed_quantity_calculate uuid" rsi_valid "\<lambda>q. 1 \<le> q" rsi_reset
  for uuid
  by (simp add: lawful_run_def env_defs rsi.strategy_axioms fq.position_sizer_axioms)

interpretation rsi_kc: lawful_run "rsi_env kelly_calculate uuid" rsi_valid kelly_ok rsi_reset
  for uuid
  by (simp add: lawful_run_def env_defs rsi.strategy_axioms kc.position_sizer_axioms)

interpretation bo_fq: lawful_run "breakout_env fixed_quantity_calculate uuid" breakout_valid "\<lambda>q. 1 \<le> q"
    breakout_reset
  for uuid
  by (simp add: lawful_run_def env_defs bo.strategy_axioms fq.position_sizer_axioms)

interpretation bo_kc: lawful_run "breakout_env kelly_calculate uuid" breakout_valid kelly_ok breakout_reset
  for uuid
  by (simp add: lawful_run_def env_defs bo.strategy_axioms kc.position_sizer_axioms)

subsection \<open>Concrete runs\<close>

definition demo_config :: backtest_config where
  "demo_config = \<lparr>cfg_initial_capital = Fin 1000, cfg_commission_pct = 0, cfg_slippage_pct = 0,
     cfg_short_initial_margin = Fin (3/2), cfg_short_maintenance_margin = Fin (3/10),
     cfg_annual_short_borrow_rate = Fin 0, cfg_borrow_day_count = Fin 365\<rparr>"

lemma demo_config_ok: "config_ok demo_config"
  by (simp add: demo_config_def config_ok_def config_post_init_def broker_ok_def)

definition demo_breakout :: breakout where
  "demo_breakout = \<lparr>bo_lookback = 1, bo_highs = [], bo_lows = [], bo_prev_high = None,
     bo_prev_low = None\<rparr>"

definition demo_series :: "candle list" where
  "demo_series = [demo_bar 0 10, demo_bar 1 13, demo_bar 2 15, demo_bar 3 9, demo_bar 4 8]"

lemma demo_series_ok: "\<forall>c \<in> set demo_series. candle_pos c" "strictly_increasing demo_series"
    "demo_series \<noteq> []"
  by (simp_all add: demo_series_def demo_bar_def candle_pos_def candle_ok_def)

lemma demo_breakout_valid: "breakout_valid demo_breakout"
  by (simp add: demo_breakout_def breakout_valid_def)

abbreviation demo_env :: "(breakout, int) collaborators" where
  "demo_env \<equiv> breakout_env fixed_quantity_calculate (\<lambda>n. ''00000000'')"

lemma demo_run_bars:
  "\<exists>st. run_bars demo_env demo_breakout demo_series demo_config [] None 2 = Inr st"
  using bo_fq.run_bars_returns [where uuid = "\<lambda>n. ''00000000''" and z = 2 and rid = "[]" and rq = None,
      OF demo_config_ok demo_breakout_valid _ demo_series_ok(1,3,2)] by auto

lemma demo_engine_run:
  "\<exists>res st. engine_run demo_env demo_breakout demo_series demo_config [] None 2 = Inr (res, st)"
  using demo_run_bars by (auto simp: engine_run_def Let_def)

theorem run_returns_witness:
  "\<exists>res st. engine_run demo_env demo_breakout demo_series demo_config [] None 2 = Inr (res, st) \<and>
    map ep_date (res_equity_curve res) = [0, 1, 2, 3, 4]"
proof -
  have "map c_timestamp demo_series = [0, 1, 2, 3, 4]"
    by (simp add: demo_series_def demo_bar_def)
  with run_returns [where z = 2 and rid = "[]" and rq = None, OF
      bo_fq.backtest_run_axioms [of "\<lambda>n. ''00000000''"] demo_config_ok demo_breakout_valid _
      demo_series_ok(1)] demo_series_ok(2,3)
  show ?thesis by auto
qed

theorem orders_all_settled_witness:
  "\<exists>res st. engine_run demo_env demo_breakout demo_series demo_config [] None 2 = Inr (res, st) \<and>
    mset (concat (map queued_of (rs_log st))) = mset (concat (map settled_of (rs_log st)))"
proof -
  obtain res st where "engine_run demo_env demo_breakout demo_series demo_config [] None 2 = Inr (res, st)"
    using demo_engine_run by blast
  with orders_all_settled [OF this] show ?thesis by blast
qed

theorem trades_fill_on_later_bars_witness:
  "\<exists>res st. engine_run demo_env demo_breakout demo_series demo_config [] None 2 = Inr (res, st) \<and>
    (\<forall>t \<in> set (res_trades res). t_entry_date t \<in> {1, 2, 3, 4})"
proof -
  obtain res st where "engine_run demo_env demo_breakout demo_series demo_config [] None 2 = Inr (res, st)"
    using demo_engine_run by blast
  with trades_fill_on_later_bars [OF this] show ?thesis
    by (fastforce simp: demo_series_def demo_bar_def)
qed

theorem run_is_causal_witness:
  "\<exists>st st1 pts. run_bars demo_env demo_breakout demo_series demo_config [] None 2 = Inr st \<and>
    run_bars demo_env demo_breakout (take 2 demo_series) demo_config [] None 2 = Inr st1 \<and>
    pf_equity_curve (rs_portfolio st) = pf_equity_curve (rs_portfolio st1) @ pts"
proof -
  obtain st where st: "run_bars demo_env demo_breakout (take 2 demo_series @ drop 2 demo_series)
      demo_config [] None 2 = Inr st"
    using demo_run_bars by (simp only: append_take_drop_id) blast
  with run_is_causal [OF st] demo_series_ok(3) show ?thesis by auto
qed


theorem shipped_strategies_long_only_witness:
  "\<exists>res st. engine_run demo_env demo_breakout demo_series demo_config [] None 2 = Inr (res, st) \<and>
    (\<forall>t \<in> set (res_trades res). t_direction t = LONG)"
proof -
  obtain res st where run: "engine_run demo_env demo_breakout demo_series demo_config [] None 2 = Inr (res, st)"
    using demo_engine_run by blast
  with shipped_strategies_long_only [OF bo_fq.lawful_run_axioms demo_config_ok demo_breakout_valid
      _ demo_series_ok(1) run] show ?thesis by auto
qed

text \<open>
  A strategy that follows a script of signals, as the engine's tests use, to reach a margin
  call: it sells short on the first bar, the price triples.
\<close>

definition scripted_on_candle :: "signal_event option list on_candle" where
  "scripted_on_candle s c x = (case s of [] \<Rightarrow> Inr ([], None) | out # s' \<Rightarrow> Inr (s', out))"

definition scripted_valid :: "signal_event option list \<Rightarrow> bool" where
  "scripted_valid s \<longleftrightarrow> (\<forall>sig. Some sig \<in> set s \<longrightarrow> signal_ok sig)"

definition scripted_env :: "(signal_event option list, int) collaborators" where
  "scripted_env = \<lparr>env_name = ''scripted'', env_parameters = (\<lambda>s. []),
     env_on_candle = scripted_on_candle, env_calculate = fixed_quantity_calculate,
     env_uuid = (\<lambda>n. ''00000000'')\<rparr>"

interpretation scripted: backtest_run scripted_env scripted_valid "\<lambda>q. 1 \<le> q"
proof (simp add: backtest_run_def scripted_env_def fq.position_sizer_axioms, unfold_locales, goal_cases)
  case (1 s c x)
  then show ?case
    by (cases s) (auto simp: scripted_on_candle_def scripted_valid_def)
next
  case (2 s c x s' sig)
  then show ?case
    by (cases s) (auto simp: scripted_on_candle_def scripted_valid_def)
qed

definition short_script :: "signal_event option list" where
  "short_script = [Some (market_signal ''SPY'' SHORT 1 0)]"

definition squeeze :: "candle list" where
  "squeeze = [demo_bar 0 100, (demo_bar 1 100)\<lparr>c_high := 300, c_close := 280\<rparr>, demo_bar 2 280]"

lemma squeeze_run:
  "\<exists>st symb p. run_bars scripted_env short_script [squeeze ! 0, squeeze ! 1] demo_config [] None 5 = Inr st \<and>
    margin_breach demo_config (rs_portfolio st) = Some (symb, p)"
  by (simp add: run_bars_def squeeze_def demo_bar_def initial_state_def demo_config_def
      portfolio_init_def validate_short_settings_def enumerate_simps process_bar_def
      accrue_phase_def execute_phase_def mark_phase_def margin_phase_def drain_simps
      build_context_def context_post_init_def scripted_env_def scripted_on_candle_def
      short_script_def market_signal_def build_order_def order_post_init_def str_or_def
      fixed_quantity_calculate_def handle_order_event_def handle_fill_event_def execute_def
      calculate_fill_price_def market_fill_def adverse_price_def accrue_short_borrow_def
      short_positions_def record_fill_def accepted_def rejected_def dict_get_def dict_set_def
      dict_update_def dict_default_def update_prices_def equity_def position_value_def
      marked_price_def maintenance_ratio_def margin_breach_def Let_def)

theorem margin_call_covered_next_bar_witness:
  "\<exists>st2 tr. run_bars scripted_env short_script squeeze demo_config [] None 5 = Inr st2 \<and>
    pf_open_positions (rs_portfolio st2) = [] \<and> tr \<in> set (pf_trades (rs_portfolio st2)) \<and>
    t_direction tr = SHORT \<and> t_exit_date tr = Some 2"
proof -
  obtain st symb p where st: "run_bars scripted_env short_script ([squeeze ! 0] @ [squeeze ! 1])
      demo_config [] None 5 = Inr st" "margin_breach demo_config (rs_portfolio st) = Some (symb, p)"
    using squeeze_run by auto
  have valid: "scripted_valid short_script"
    by (simp add: scripted_valid_def short_script_def market_signal_ok)
  have sq: "squeeze = [squeeze ! 0] @ [squeeze ! 1, squeeze ! 2]"
    by (simp add: squeeze_def)
  have "\<forall>c \<in> set ([squeeze ! 0] @ [squeeze ! 1, squeeze ! 2]). candle_pos c"
      "strictly_increasing ([squeeze ! 0] @ [squeeze ! 1, squeeze ! 2])"
      "c_timestamp (squeeze ! 2) = 2"
    by (simp_all add: squeeze_def demo_bar_def candle_pos_def candle_ok_def)
  with margin_call_covered_next_bar [OF scripted.backtest_run_axioms demo_config_ok valid _ _ _ st]
  show ?thesis by (subst sq) fastforce
qed

end
