(* ===== verification/Metrics.thy ===== *)
theory Metrics
  imports Backtest_Engine
begin

text \<open>
  The performance metrics of \<open>src/analytics/metrics.py\<close>, as functions of the equity curve
  and the trades. Means and deviations are those of exact arithmetic; an infinite profit
  factor is \<open>PosInf\<close>. The lemmas relate each metric to a reference: the drawdown to the
  running maximum, the growth rate to compounded returns, the profit factor to the net profit.
\<close>

section \<open>Metric names\<close>

datatype metric_name = SHARPE_RATIO | SORTINO_RATIO | CAGR | MAX_DRAWDOWN | MAX_DRAWDOWN_DURATION
  | WIN_RATE | PROFIT_FACTOR | CALMAR_RATIO | TOTAL_TRADES | TOTAL_RETURN

fun metric_value :: "metric_name \<Rightarrow> string" where
  "metric_value SHARPE_RATIO = ''sharpe_ratio''"
| "metric_value SORTINO_RATIO = ''sortino_ratio''"
| "metric_value CAGR = ''cagr''"
| "metric_value MAX_DRAWDOWN = ''max_drawdown''"
| "metric_value MAX_DRAWDOWN_DURATION = ''max_drawdown_duration''"
| "metric_value WIN_RATE = ''win_rate''"
| "metric_value PROFIT_FACTOR = ''profit_factor''"
| "metric_value CALMAR_RATIO = ''calmar_ratio''"
| "metric_value TOTAL_TRADES = ''total_trades''"
| "metric_value TOTAL_RETURN = ''total_return''"

definition all_metric_names :: "metric_name list" where
  "all_metric_names = [SHARPE_RATIO, SORTINO_RATIO, CAGR, MAX_DRAWDOWN, MAX_DRAWDOWN_DURATION,
     WIN_RATE, PROFIT_FACTOR, CALMAR_RATIO, TOTAL_TRADES, TOTAL_RETURN]"

definition parse_metric_name :: "string \<Rightarrow> metric_name result" where
  "parse_metric_name metric =
     (case find (\<lambda>m. metric_value m = metric) all_metric_names of
        Some m \<Rightarrow> Inr m
      | None \<Rightarrow> Inl (ValueError ''Unsupported permutation metric''))"

definition require_metric :: "(string, xfloat) dict \<Rightarrow> metric_name \<Rightarrow> xfloat result" where
  "require_metric metrics metric =
     (case dict_get metrics (metric_value metric) of
        Some v \<Rightarrow> Inr v
      | None \<Rightarrow> Inl (RuntimeError ''Declared permutation metric is missing''))"

section \<open>Returns and ratios\<close>

definition equity_curve_to_returns :: "equity_point list \<Rightarrow> real list" where
  "equity_curve_to_returns equity_curve =
     (if length equity_curve < 2 then []
      else let equities = map ep_equity equity_curve in
        map (\<lambda>i. (equities ! i - equities ! (i - 1)) / equities ! (i - 1))
          (filter (\<lambda>i. equities ! (i - 1) \<noteq> 0) [1 ..< length equities]))"

text \<open>\<open>numpy\<close>'s \<open>mean\<close> and \<open>std(ddof=1)\<close> of a list with at least two elements.\<close>

definition np_mean :: "real list \<Rightarrow> real" where
  "np_mean xs = sum_list xs / real (length xs)"

definition np_std1 :: "real list \<Rightarrow> real" where
  "np_std1 xs = sqrt (sum_list (map (\<lambda>x. (x - np_mean xs)\<^sup>2) xs) / real (length xs - 1))"

definition py_sqrt :: "real \<Rightarrow> real result" where
  "py_sqrt x = (if x < 0 then Inl (ValueError ''math domain error'') else Inr (sqrt x))"

definition sharpe_ratio :: "real list \<Rightarrow> real \<Rightarrow> int \<Rightarrow> real result" where
  "sharpe_ratio returns risk_free_rate periods_per_year =
     (if length returns < 2 then Inr 0
      else let std = np_std1 returns in
        if std < 1 / 10 ^ 10 then Inr 0
        else rbind (fdiv risk_free_rate (real_of_int periods_per_year)) (\<lambda>daily_rf.
          let excess_mean = np_mean returns - daily_rf in
          rbind (py_sqrt (real_of_int periods_per_year)) (\<lambda>r.
            Inr (excess_mean / std * r))))"

definition sortino_ratio :: "real list \<Rightarrow> real \<Rightarrow> int \<Rightarrow> real result" where
  "sortino_ratio returns risk_free_rate periods_per_year =
     (if length returns < 2 then Inr 0
      else rbind (fdiv risk_free_rate (real_of_int periods_per_year)) (\<lambda>daily_rf.
        let downside_gaps = map (\<lambda>r. min (r - daily_rf) 0) returns;
            downside_deviation = sqrt (np_mean (map (\<lambda>g. g\<^sup>2) downside_gaps))
        in if downside_deviation < 1 / 10 ^ 10 then Inr 0
           else let excess_mean = np_mean returns - daily_rf in
             rbind (py_sqrt (real_of_int periods_per_year)) (\<lambda>r.
               Inr (excess_mean / downside_deviation * r))))"

text \<open>
  \<open>float(x ** y - 1)\<close>: a negative base with a fractional exponent gives a complex number,
  which \<open>float\<close> refuses with \<open>TypeError\<close>.
\<close>

definition py_pow :: "real \<Rightarrow> real \<Rightarrow> real result" where
  "py_pow x y =
     (if x > 0 then Inr (x powr y)
      else if x = 0 then
        (if y > 0 then Inr 0 else if y = 0 then Inr 1 else Inl ZeroDivisionError)
      else if y = of_int \<lfloor>y\<rfloor> then Inr ((if even \<lfloor>y\<rfloor> then 1 else - 1) * (- x) powr y)
      else Inl (TypeError ''float() argument must be a string or a real number, not complex''))"

definition cagr :: "equity_point list \<Rightarrow> int \<Rightarrow> real result" where
  "cagr equity_curve periods_per_year =
     (if length equity_curve < 2 then Inr 0
      else let initial = ep_equity (equity_curve ! 0); final = ep_equity (last equity_curve) in
        if initial \<le> 0 then Inr 0
        else let n_bars = length equity_curve - 1 in
          rbind (fdiv final initial) (\<lambda>ratio.
          rbind (fdiv (real_of_int periods_per_year) (real n_bars)) (\<lambda>y.
          rbind (py_pow ratio y) (\<lambda>g. Inr (g - 1)))))"

section \<open>Drawdowns\<close>

definition drawdown_step :: "real \<Rightarrow> real \<times> real \<Rightarrow> real \<times> real" where
  "drawdown_step eq = (\<lambda>(peak, min_dd).
     let peak = (if eq > peak then eq else peak);
         dd = (if peak > 0 then (eq - peak) / peak else 0)
     in (peak, if dd < min_dd then dd else min_dd))"

definition max_drawdown :: "equity_point list \<Rightarrow> real" where
  "max_drawdown equity_curve =
     (if equity_curve = [] then 0
      else let equities = map ep_equity equity_curve in
        snd (fold drawdown_step equities (equities ! 0, 0)))"

definition duration_step :: "nat \<times> real \<Rightarrow> real \<times> nat \<times> nat \<Rightarrow> real \<times> nat \<times> nat" where
  "duration_step = (\<lambda>(i, eq) (peak, peak_idx, max_duration).
     if eq \<ge> peak then (eq, i, max_duration)
     else let duration = i - peak_idx in
       (peak, peak_idx, if duration > max_duration then duration else max_duration))"

definition max_drawdown_duration :: "equity_point list \<Rightarrow> nat" where
  "max_drawdown_duration equity_curve =
     (if equity_curve = [] then 0
      else let equities = map ep_equity equity_curve in
        snd (snd (fold duration_step (enumerate 0 equities) (equities ! 0, 0, 0))))"

section \<open>Trades\<close>

definition win_rate :: "trade list \<Rightarrow> real" where
  "win_rate trades =
     (let closed = filter is_closed trades in
      if closed = [] then 0
      else real (length (filter (\<lambda>t. pnl t > 0) closed)) / real (length closed))"

definition profit_factor :: "trade list \<Rightarrow> xfloat" where
  "profit_factor trades =
     (let closed = filter is_closed trades;
          gross_profit = sum_list (map pnl (filter (\<lambda>t. pnl t > 0) closed));
          gross_loss = sum_list (map (\<lambda>t. \<bar>pnl t\<bar>) (filter (\<lambda>t. pnl t < 0) closed))
      in if gross_loss = 0 then (if gross_profit > 0 then PosInf else Fin 0)
         else Fin (gross_profit / gross_loss))"

definition calmar_ratio :: "equity_point list \<Rightarrow> int \<Rightarrow> real result" where
  "calmar_ratio equity_curve periods_per_year =
     (let mdd = max_drawdown equity_curve in
      if mdd = 0 then Inr 0
      else rbind (cagr equity_curve periods_per_year) (\<lambda>c. Inr (c / \<bar>mdd\<bar>)))"

definition total_return :: "real \<Rightarrow> xfloat \<Rightarrow> xfloat" where
  "total_return final_equity initial_capital =
     (if initial_capital > Fin 0
      then (case initial_capital of Fin k \<Rightarrow> Fin ((final_equity - k) / k) | _ \<Rightarrow> NaN)
      else Fin 0)"

definition compute_all_metrics :: "backtest_result \<Rightarrow> (string, xfloat) dict result" where
  "compute_all_metrics result =
     (let returns = equity_curve_to_returns (res_equity_curve result);
          closed_trades = filter is_closed (res_trades result)
      in rbind (sharpe_ratio returns (4 / 100) 252) (\<lambda>sharpe.
         rbind (sortino_ratio returns (4 / 100) 252) (\<lambda>sortino.
         rbind (cagr (res_equity_curve result) 252) (\<lambda>growth.
         rbind (calmar_ratio (res_equity_curve result) 252) (\<lambda>calmar. Inr
           [(metric_value SHARPE_RATIO, Fin sharpe), (metric_value SORTINO_RATIO, Fin sortino),
            (metric_value CAGR, Fin growth),
            (metric_value MAX_DRAWDOWN, Fin (max_drawdown (res_equity_curve result))),
            (metric_value MAX_DRAWDOWN_DURATION,
               Fin (real (max_drawdown_duration (res_equity_curve result)))),
            (metric_value WIN_RATE, Fin (win_rate (res_trades result))),
            (metric_value PROFIT_FACTOR, profit_factor (res_trades result)),
            (metric_value CALMAR_RATIO, Fin calmar),
            (metric_value TOTAL_TRADES, Fin (real (length closed_trades))),
            (metric_value TOTAL_RETURN,
               total_return (res_final_equity result) (res_initial_capital result))])))))"

section \<open>Properties\<close>

lemma all_metric_names_complete: "m \<in> set all_metric_names"
  by (cases m) (simp_all add: all_metric_names_def)

lemma metric_value_inject: "metric_value m = metric_value m' \<longleftrightarrow> m = m'"
  by (cases m; cases m') simp_all

lemma parse_metric_name_Inr: "parse_metric_name s = Inr m \<longleftrightarrow> metric_value m = s"
proof
  assume "parse_metric_name s = Inr m"
  then show "metric_value m = s"
    by (auto simp: parse_metric_name_def find_Some_iff split: option.splits)
next
  assume m: "metric_value m = s"
  have "find (\<lambda>m. metric_value m = s) all_metric_names \<noteq> None"
    unfolding find_None_iff using m all_metric_names_complete by blast
  then obtain m' where m': "find (\<lambda>m. metric_value m = s) all_metric_names = Some m'" by auto
  then have "metric_value m' = s" by (auto simp: find_Some_iff)
  with m m' show "parse_metric_name s = Inr m"
    by (simp add: parse_metric_name_def metric_value_inject [symmetric])
qed

lemma parse_metric_name_Inl:
  "parse_metric_name s = Inl e \<longleftrightarrow>
    e = ValueError ''Unsupported permutation metric'' \<and> (\<forall>m. metric_value m \<noteq> s)"
  using all_metric_names_complete
  by (auto simp: parse_metric_name_def find_None_iff find_Some_iff split: option.splits)

subsection \<open>Drawdowns\<close>

lemma drawdown_fold:
  assumes "0 < peak" and "m \<le> 0"
  shows "fold drawdown_step es (peak, m) =
    (fold max es peak, Min (insert m (set (drawdowns peak es))))"
  using assms
proof (induction es arbitrary: peak m)
  case Nil
  then show ?case by simp
next
  case (Cons e es)
  define peak' where "peak' = max peak e"
  have p: "0 < peak'" using Cons.prems(1) by (simp add: peak'_def)
  define d where "d = (e - peak') / peak'"
  have "d \<le> 0" using p by (simp add: d_def peak'_def divide_nonpos_pos)
  have step: "drawdown_step e (peak, m) = (peak', min m d)"
    using p by (auto simp: drawdown_step_def peak'_def d_def Let_def max_def min_def)
  have "Min (insert (min m d) (set (drawdowns peak' es)))
      = Min (insert m (insert d (set (drawdowns peak' es))))"
    by (cases "drawdowns peak' es = []")
      (simp_all add: min.assoc)
  moreover have "drawdowns peak (e # es) = d # drawdowns peak' es"
    by (simp add: peak'_def d_def Let_def)
  moreover have "fold max (e # es) peak = fold max es peak'"
    by (simp add: peak'_def max.commute)
  ultimately show ?case
    using Cons.IH [OF p, of "min m d"] Cons.prems(2) step by (simp only: fold_simps list.set)
qed

lemma drawdowns_nonpos:
  "0 < peak \<Longrightarrow> d \<in> set (drawdowns peak es) \<Longrightarrow> d \<le> 0"
proof (induction es arbitrary: peak)
  case (Cons e es)
  have "0 < max peak e" using Cons.prems(1) by simp
  with Cons show ?case by (auto simp: Let_def divide_nonpos_pos)
qed simp

lemma drawdowns_bound:
  "0 < peak \<Longrightarrow> \<forall>e \<in> set es. 0 \<le> e \<Longrightarrow> d \<in> set (drawdowns peak es) \<Longrightarrow> - 1 \<le> d"
proof (induction es arbitrary: peak)
  case (Cons e es)
  have p: "0 < max peak e" using Cons.prems(1) by simp
  have "- 1 \<le> (e - max peak e) / max peak e"
    using p Cons.prems(2) by (simp add: le_divide_eq)
  with Cons p show ?case by (auto simp: Let_def)
qed simp

lemma max_drawdown_Min:
  assumes "curve \<noteq> []" and "0 < ep_equity (hd curve)"
  shows "max_drawdown curve
    = Min (set (drawdowns (ep_equity (hd curve)) (map ep_equity curve)))"
proof -
  obtain c cs where curve: "curve = c # cs" using assms(1) by (cases curve) auto
  let ?D = "set (drawdowns (ep_equity c) (map ep_equity curve))"
  have "0 \<in> ?D" by (simp add: curve Let_def)
  then have "insert 0 ?D = ?D" by blast
  moreover have "max_drawdown curve = Min (insert 0 ?D)"
    using drawdown_fold [of "ep_equity c" 0 "map ep_equity curve"] assms(2)
    by (simp only: max_drawdown_def curve Let_def) simp
  ultimately show ?thesis by (simp add: curve)
qed

text \<open>Maximum drawdown. For a curve that starts above zero the loop computes the minimum of
  the drawdowns of all points against the running maximum; it lies between minus one and zero
  when no equity is negative.\<close>

theorem max_drawdown_is_minimum:
  assumes "curve \<noteq> []" and "0 < ep_equity (hd curve)"
  shows "max_drawdown curve
      = Min (set (drawdowns (ep_equity (hd curve)) (map ep_equity curve))) \<and>
    max_drawdown curve \<le> 0 \<and>
    ((\<forall>pt \<in> set curve. 0 \<le> ep_equity pt) \<longrightarrow> - 1 \<le> max_drawdown curve)"
proof -
  let ?D = "set (drawdowns (ep_equity (hd curve)) (map ep_equity curve))"
  note eq = max_drawdown_Min [OF assms]
  have "?D \<noteq> {}" using assms(1) by (cases curve) (simp_all add: Let_def)
  then have "Min ?D \<in> ?D" by (intro Min_in) auto
  with drawdowns_nonpos [OF assms(2)] drawdowns_bound [OF assms(2), of "map ep_equity curve"] eq
  show ?thesis by auto
qed

definition demo_curve :: "equity_point list" where
  "demo_curve = map (\<lambda>e. \<lparr>ep_date = 0, ep_equity = e, ep_drawdown_pct = 0\<rparr>) [100, 110, 90, 95, 80, 100]"

theorem max_drawdown_is_minimum_witness: "max_drawdown demo_curve = - 3 / 11"
proof -
  have "demo_curve \<noteq> []" "0 < ep_equity (hd demo_curve)"
    by (simp_all add: demo_curve_def)
  from max_drawdown_is_minimum [OF this] show ?thesis
    by (simp add: demo_curve_def Let_def)
qed

definition longest :: "nat \<Rightarrow> real list \<Rightarrow> real \<Rightarrow> nat \<Rightarrow> nat \<Rightarrow> nat" where
  "longest i es peak j m = snd (snd (fold duration_step (enumerate i es) (peak, j, m)))"

lemma longest_simps [simp]:
  "longest i [] peak j m = m"
  "longest i (e # es) peak j m =
    (if peak \<le> e then longest (Suc i) es e i m else longest (Suc i) es peak j (max m (i - j)))"
  by (simp_all add: longest_def enumerate_simps duration_step_def Let_def max_def)

lemma longest_ge: "m \<le> longest i es peak j m"
proof (induction es arbitrary: i peak j m)
  case (Cons e es)
  show ?case
    using Cons.IH [where i = "Suc i" and peak = e and j = i and m = m]
      Cons.IH [where i = "Suc i" and peak = peak and j = j and m = "max m (i - j)"] by simp
qed simp

lemma longest_le: "j < i \<Longrightarrow> longest i es peak j m \<le> max m (i + length es - 1 - j)"
proof (induction es arbitrary: i peak j m)
  case (Cons e es)
  show ?case
    using Cons.IH [where j = i and i = "Suc i" and peak = e and m = m]
      Cons.IH [where j = j and i = "Suc i" and peak = peak and m = "max m (i - j)"] Cons.prems
    by (auto simp: max_def split: if_splits)
qed simp

lemma longest_sorted: "sorted (peak # es) \<Longrightarrow> longest i es peak j m = m"
  by (induction es arbitrary: i peak j m) auto

lemma longest_unsorted: "j < i \<Longrightarrow> \<not> sorted (peak # es) \<Longrightarrow> 1 \<le> longest i es peak j m"
proof (induction es arbitrary: i peak j m)
  case (Cons e es)
  show ?case
  proof (cases "peak \<le> e")
    case True
    with Cons.prems(2) have "\<not> sorted (e # es)" by (auto intro: order.trans)
    with True Cons.IH [where j = i and i = "Suc i" and peak = e and m = m] show ?thesis by simp
  next
    case False
    with Cons.prems(1) longest_ge [where m = "max m (i - j)" and i = "Suc i" and es = es and peak = peak and j = j] show ?thesis by simp linarith
  qed
qed simp

text \<open>Drawdown duration. The longest drawdown lasts fewer bars than the curve has, and it is
  zero exactly when the equity never falls.\<close>

theorem drawdown_duration_bounds:
  assumes "curve \<noteq> []"
  shows "max_drawdown_duration curve < length curve \<and>
    (max_drawdown_duration curve = 0 \<longleftrightarrow> sorted (map ep_equity curve))"
proof -
  obtain c cs where curve: "curve = c # cs" using assms by (cases curve) auto
  have "duration_step (0, ep_equity c) (ep_equity c, 0, 0) = (ep_equity c, 0, 0)"
    by (simp add: duration_step_def)
  then have d: "max_drawdown_duration curve = longest 1 (map ep_equity cs) (ep_equity c) 0 0"
    by (simp add: max_drawdown_duration_def curve enumerate_simps longest_def)
  show ?thesis
  proof (cases "sorted (map ep_equity curve)")
    case True
    then have "max_drawdown_duration curve = 0"
      using longest_sorted [of "ep_equity c" "map ep_equity cs"] d by (simp add: curve)
    with True curve show ?thesis by simp
  next
    case False
    then have "1 \<le> max_drawdown_duration curve"
      using longest_unsorted [where j = 0 and i = 1 and peak = "ep_equity c" and es = "map ep_equity cs"] d by (simp add: curve)
    moreover have "max_drawdown_duration curve \<le> length cs"
      using longest_le [where j = 0 and i = 1 and es = "map ep_equity cs" and peak = "ep_equity c" and m = 0] d by simp
    ultimately show ?thesis using False curve by simp
  qed
qed

theorem drawdown_duration_bounds_witness:
  "max_drawdown_duration demo_curve < 6 \<and> max_drawdown_duration demo_curve \<noteq> 0"
  using drawdown_duration_bounds [of demo_curve] by (simp add: demo_curve_def)

subsection \<open>Trades\<close>

lemma pnl_split:
  "sum_list (map pnl ts) = sum_list (map pnl (filter (\<lambda>t. pnl t > 0) ts))
    - sum_list (map (\<lambda>t. \<bar>pnl t\<bar>) (filter (\<lambda>t. pnl t < 0) ts))"
  by (induction ts) auto

lemma gross_nonneg:
  "0 \<le> sum_list (map pnl (filter (\<lambda>t. pnl t > 0) ts))"
  "0 \<le> sum_list (map (\<lambda>t. \<bar>pnl t\<bar>) (filter (\<lambda>t. pnl t < 0) ts))"
  by (auto intro!: sum_list_nonneg)

text \<open>Profit factor and win rate. The profit factor exceeds one exactly when the closed
  trades made a net profit, it is never negative, and the win rate lies between zero and one.\<close>

theorem profit_factor_sign:
  "(Fin 1 < profit_factor trades \<longleftrightarrow> 0 < sum_list (map pnl (filter is_closed trades))) \<and>
    Fin 0 \<le> profit_factor trades \<and> 0 \<le> win_rate trades \<and> win_rate trades \<le> 1"
proof -
  let ?c = "filter is_closed trades"
  let ?gp = "sum_list (map pnl (filter (\<lambda>t. pnl t > 0) ?c))"
  let ?gl = "sum_list (map (\<lambda>t. \<bar>pnl t\<bar>) (filter (\<lambda>t. pnl t < 0) ?c))"
  have net: "sum_list (map pnl ?c) = ?gp - ?gl" by (rule pnl_split)
  have nn: "0 \<le> ?gp" "0 \<le> ?gl" by (rule gross_nonneg)+
  have "length (filter (\<lambda>t. pnl t > 0) ?c) \<le> length ?c" by (rule length_filter_le)
  then have "0 \<le> win_rate trades" "win_rate trades \<le> 1"
    by (auto simp: win_rate_def Let_def divide_le_eq simp del: filter_filter)
  moreover have "Fin 0 \<le> profit_factor trades"
    using nn by (simp add: profit_factor_def Let_def)
  moreover have "Fin 1 < profit_factor trades \<longleftrightarrow> ?gl < ?gp"
  proof (cases "?gl = 0")
    case True
    then show ?thesis by (simp add: profit_factor_def Let_def del: filter_filter)
  next
    case False
    with nn(2) have "0 < ?gl" by simp
    with False show ?thesis by (simp add: profit_factor_def Let_def less_divide_eq del: filter_filter)
  qed
  ultimately show ?thesis using net by simp
qed

subsection \<open>Growth\<close>

lemma prod_telescope:
  fixes e :: "nat \<Rightarrow> real"
  assumes "\<And>i. i \<le> n \<Longrightarrow> e i \<noteq> 0"
  shows "prod_list (map (\<lambda>i. 1 + (e i - e (i - 1)) / e (i - 1)) [1 ..< Suc n]) = e n / e 0"
  using assms
proof (induction n)
  case 0
  then show ?case by simp
next
  case (Suc n)
  then have "prod_list (map (\<lambda>i. 1 + (e i - e (i - 1)) / e (i - 1)) [1 ..< Suc n]) = e n / e 0"
    and nz: "e n \<noteq> 0" by simp_all
  then show ?case by (simp add: field_simps)
qed

lemma returns_compound:
  assumes "2 \<le> length curve" and "\<forall>pt \<in> set curve. ep_equity pt \<noteq> 0"
  shows "prod_list (map (\<lambda>r. 1 + r) (equity_curve_to_returns curve))
    = ep_equity (last curve) / ep_equity (hd curve)"
proof -
  define e where "e = (\<lambda>i. map ep_equity curve ! i)"
  obtain n where n: "length curve = Suc n" using assms(1) by (cases "length curve") auto
  have nz: "e i \<noteq> 0" if "i \<le> n" for i
    using that assms(2) n by (simp add: e_def nth_map)
  have "filter (\<lambda>i. e (i - 1) \<noteq> 0) [1 ..< Suc n] = [1 ..< Suc n]"
    using nz by (intro filter_True) auto
  then have "equity_curve_to_returns curve = map (\<lambda>i. (e i - e (i - 1)) / e (i - 1)) [1 ..< Suc n]"
    using assms(1) n by (simp add: equity_curve_to_returns_def e_def Let_def del: upt_Suc)
  then have "prod_list (map (\<lambda>r. 1 + r) (equity_curve_to_returns curve)) = e n / e 0"
    using prod_telescope [of n e] nz by (simp add: comp_def del: upt_Suc)
  moreover have "curve \<noteq> []" using n by auto
  then have "e n = ep_equity (last curve)" "e 0 = ep_equity (hd curve)"
    using n last_conv_nth [of curve] hd_conv_nth [of curve] by (auto simp: e_def)
  ultimately show ?thesis by simp
qed

lemma cagr_eq:
  assumes "2 \<le> length curve" and "0 < ep_equity (hd curve)"
  shows "cagr curve ppy = rbind (py_pow (ep_equity (last curve) / ep_equity (hd curve))
    (real_of_int ppy / real (length curve - 1))) (\<lambda>g. Inr (g - 1))"
proof -
  have "curve \<noteq> []" using assms(1) by auto
  then have "curve ! 0 = hd curve" by (simp add: hd_conv_nth)
  with assms show ?thesis by (simp add: cagr_def Let_def)
qed

text \<open>The growth rate compounds. For positive equities the annualised rate, compounded over
  the length of the curve, gives back the product of all bar-by-bar growth factors, which is
  the ratio of the last equity to the first.\<close>

theorem cagr_compounds:
  assumes "2 \<le> length curve" and "\<forall>pt \<in> set curve. 0 < ep_equity pt" and "0 < ppy"
  shows "\<exists>g. cagr curve ppy = Inr g \<and>
    (1 + g) powr (real (length curve - 1) / real_of_int ppy)
      = prod_list (map (\<lambda>r. 1 + r) (equity_curve_to_returns curve)) \<and>
    prod_list (map (\<lambda>r. 1 + r) (equity_curve_to_returns curve))
      = ep_equity (last curve) / ep_equity (hd curve)"
proof -
  let ?x = "ep_equity (last curve) / ep_equity (hd curve)"
  let ?y = "real_of_int ppy / real (length curve - 1)"
  have "curve \<noteq> []" using assms(1) by auto
  then have first: "0 < ep_equity (hd curve)" and final: "0 < ep_equity (last curve)"
    using assms(2) by simp_all
  then have x: "0 < ?x" by simp
  have "cagr curve ppy = Inr (?x powr ?y - 1)"
    using x by (simp add: cagr_eq [OF assms(1) first] py_pow_def)
  moreover have "(1 + (?x powr ?y - 1)) powr (real (length curve - 1) / real_of_int ppy) = ?x"
    using assms(1,3) x first final by (simp add: powr_powr)
  moreover have "prod_list (map (\<lambda>r. 1 + r) (equity_curve_to_returns curve)) = ?x"
    using returns_compound [OF assms(1)] assms(2) by (metis less_irrefl)
  ultimately show ?thesis by auto
qed

theorem cagr_compounds_witness:
  "\<exists>g. cagr demo_curve 252 = Inr g \<and> (1 + g) powr (5 / 252) = 1"
proof -
  have "2 \<le> length demo_curve" "\<forall>pt \<in> set demo_curve. 0 < ep_equity pt" "length demo_curve = 6"
      "ep_equity (last demo_curve) / ep_equity (hd demo_curve) = 1"
    by (simp_all add: demo_curve_def)
  with cagr_compounds [of demo_curve 252] show ?thesis by auto
qed

lemma fraction_is_int:
  assumes "0 < n"
  shows "252 / real n = of_int \<lfloor>252 / real n\<rfloor> \<longleftrightarrow> n dvd 252"
proof
  assume eq: "252 / real n = of_int \<lfloor>252 / real n\<rfloor>"
  then have "real_of_int 252 = real_of_int (\<lfloor>252 / real n\<rfloor> * int n)"
    using assms by (simp add: field_simps)
  then have "252 = \<lfloor>252 / real n\<rfloor> * int n" by linarith
  then have "int n dvd 252" by (metis dvd_triv_right)
  then show "n dvd 252" by (metis int_dvd_int_iff of_nat_numeral)
next
  assume "n dvd 252"
  then obtain k where "252 = n * k" by (elim dvdE)
  then have "252 / real n = real k" using assms by (metis nonzero_mult_div_cancel_left of_nat_0_less_iff
        less_irrefl of_nat_mult of_nat_numeral)
  then show "252 / real n = of_int \<lfloor>252 / real n\<rfloor>" by simp
qed

text \<open>The only failing metric: a curve that ends below zero over a number of bars that does not
  divide a year.\<close>

definition cagr_fails :: "equity_point list \<Rightarrow> bool" where
  "cagr_fails curve \<longleftrightarrow> 2 \<le> length curve \<and> 0 < ep_equity (hd curve) \<and>
     ep_equity (last curve) < 0 \<and> \<not> (length curve - 1) dvd 252"

lemma cagr_returns: "(\<exists>g. cagr curve 252 = Inr g) \<longleftrightarrow> \<not> cagr_fails curve"
proof (cases "2 \<le> length curve \<and> 0 < ep_equity (hd curve)")
  case True
  let ?x = "ep_equity (last curve) / ep_equity (hd curve)"
  have n: "0 < length curve - 1" using True by simp
  have neg: "?x < 0 \<longleftrightarrow> ep_equity (last curve) < 0" using True by (simp add: divide_less_0_iff)
  show ?thesis
    using True fraction_is_int [OF n] neg n
    by (auto simp: cagr_eq py_pow_def cagr_fails_def)
next
  case False
  then have "length curve < 2 \<or> ep_equity (curve ! 0) \<le> 0"
    by (cases curve) (auto simp: not_le not_less)
  with False show ?thesis
    by (auto simp: cagr_def cagr_fails_def Let_def)
qed

lemma sharpe_returns: "\<exists>r. sharpe_ratio xs rf 252 = Inr r"
  by (simp add: sharpe_ratio_def Let_def py_sqrt_def)

lemma sortino_returns: "\<exists>r. sortino_ratio xs rf 252 = Inr r"
  by (simp add: sortino_ratio_def Let_def py_sqrt_def)

lemma calmar_returns: "\<not> cagr_fails curve \<Longrightarrow> \<exists>r. calmar_ratio curve 252 = Inr r"
  using cagr_returns [of curve] by (auto simp: calmar_ratio_def Let_def)

lemma compute_all_metrics_returns:
  assumes "\<not> cagr_fails (res_equity_curve res)"
  shows "\<exists>ms. compute_all_metrics res = Inr ms \<and> map fst ms = map metric_value all_metric_names"
proof -
  let ?rets = "equity_curve_to_returns (res_equity_curve res)"
  obtain a b g d where "sharpe_ratio ?rets (4 / 100) 252 = Inr a"
      "sortino_ratio ?rets (4 / 100) 252 = Inr b" "cagr (res_equity_curve res) 252 = Inr g"
      "calmar_ratio (res_equity_curve res) 252 = Inr d"
    using sharpe_returns [of ?rets "4 / 100"] sortino_returns [of ?rets "4 / 100"]
      cagr_returns [of "res_equity_curve res"] calmar_returns [OF assms] assms by auto
  then show ?thesis
    by (simp add: compute_all_metrics_def all_metric_names_def Let_def del: metric_value.simps)
qed


end
