(* ===== verification/Walk_Forward.thy ===== *)
theory Walk_Forward
  imports Metrics
begin

text \<open>
  The walk-forward analysis of \<open>src/analytics/walk_forward.py\<close>. The strategy class (its
  constructor, its parameter space and its behaviour) and the random generator are parameters
  of the analyser; the number of draws made so far is explicit state. The window loop is a
  partial function: it is shown to return when the step is positive, and not to return a
  result when the step is zero.
\<close>

section \<open>Python arithmetic and slices\<close>

text \<open>\<open>int(x)\<close> truncates toward zero; slices clip, and count from the end for negative bounds;
  indexing raises outside the list.\<close>

definition py_int :: "real \<Rightarrow> int" where
  "py_int x = (if x \<ge> 0 then \<lfloor>x\<rfloor> else \<lceil>x\<rceil>)"

definition slice_bound :: "nat \<Rightarrow> int \<Rightarrow> nat" where
  "slice_bound n i = (let j = (if i < 0 then i + int n else i) in nat (max 0 (min (int n) j)))"

definition py_slice :: "'a list \<Rightarrow> int \<Rightarrow> int \<Rightarrow> 'a list" where
  "py_slice xs a b =
     (let i = slice_bound (length xs) a; j = slice_bound (length xs) b in take (j - i) (drop i xs))"

definition py_index :: "'a list \<Rightarrow> int \<Rightarrow> 'a result" where
  "py_index xs i =
     (let j = (if i < 0 then i + int (length xs) else i)
      in if 0 \<le> j \<and> j < int (length xs) then Inr (xs ! nat j) else Inl IndexError)"

lemma py_slice_nonneg:
  "0 \<le> a \<Longrightarrow> a \<le> b \<Longrightarrow> b \<le> int (length xs) \<Longrightarrow> py_slice xs a b = take (nat (b - a)) (drop (nat a) xs)"
  by (simp add: py_slice_def slice_bound_def Let_def nat_diff_distrib)

lemma py_index_nonneg:
  "0 \<le> i \<Longrightarrow> i < int (length xs) \<Longrightarrow> py_index xs i = Inr (xs ! nat i)"
  by (simp add: py_index_def Let_def)

section \<open>The analyser\<close>

datatype param_value = PInt int | PFloat real

fun param_real :: "param_value \<Rightarrow> real" where
  "param_real (PInt i) = real_of_int i"
| "param_real (PFloat x) = x"

type_synonym params = "(string, param_value) dict"

text \<open>
  \<open>wf_make\<close> is the constructor \<open>strategy_cls(**params)\<close>, \<open>wf_env\<close> the class, \<open>wf_space\<close> its
  parameter space. \<open>wf_randint k b\<close> is what the \<open>k\<close>-th draw \<open>randint(0, b)\<close> returns,
  \<open>wf_uuid k\<close> the UUID of the run made after \<open>k\<close> draws and \<open>wf_now\<close> the clock.
\<close>

record 's wf_analyzer =
  wf_make :: "params \<Rightarrow> 's result"
  wf_env :: "('s, int) collaborators"
  wf_space :: "(string \<times> real \<times> real \<times> real) list"
  wf_in_sample_days :: int
  wf_out_of_sample_days :: int
  wf_step_days :: int
  wf_optimization_metric :: string
  wf_trials :: int
  wf_config :: backtest_config
  wf_symbol :: "string option"
  wf_randint :: "nat \<Rightarrow> int \<Rightarrow> int"
  wf_uuid :: "nat \<Rightarrow> string"
  wf_now :: datetime

record window_result =
  w_window_index :: nat
  w_in_sample_start :: datetime
  w_in_sample_end :: datetime
  w_oos_start :: datetime
  w_oos_end :: datetime
  w_best_params :: params
  w_oos_sharpe :: real
  w_oos_result :: backtest_result

record walk_forward_result =
  wr_windows :: "window_result list"
  wr_combined_equity_curve :: "equity_point list"
  wr_optimization_stability :: xfloat
  wr_combined_sharpe :: real
  wr_combined_metrics :: "(string, xfloat) dict"

definition sample_one ::
    "'s wf_analyzer \<Rightarrow> string \<times> real \<times> real \<times> real \<Rightarrow> nat \<times> params \<Rightarrow> (nat \<times> params) result" where
  "sample_one a = (\<lambda>(name, low, high, step) (k, ps).
     rbind (fdiv (high - low) step) (\<lambda>x.
       let n_steps = py_int x + 1 in
       if n_steps - 1 < 0 then Inl (ValueError ''empty range for randrange()'')
       else let chosen = low + real_of_int (wf_randint a k (n_steps - 1)) * step in
         Inr (k + 1, dict_set ps name
           (if step = real_of_int (py_int step) then PInt (py_int chosen) else PFloat chosen))))"

definition sample_params :: "'s wf_analyzer \<Rightarrow> nat \<Rightarrow> (nat \<times> params) result" where
  "sample_params a k = rfold (sample_one a) (wf_space a) (k, [])"

definition wf_run_backtest ::
    "'s wf_analyzer \<Rightarrow> nat \<Rightarrow> candle list \<Rightarrow> params \<Rightarrow> backtest_result result" where
  "wf_run_backtest a k candles ps =
     (case wf_make a ps of
        Inl (ValueError m) \<Rightarrow> Inr
          \<lparr>res_strategy_name = env_name (wf_env a),
           res_symbol = (case wf_symbol a of None \<Rightarrow> [] | Some s \<Rightarrow> s),
           res_start_date = (if candles = [] then wf_now a else c_timestamp (hd candles)),
           res_end_date = (if candles = [] then wf_now a else c_timestamp (last candles)),
           res_parameters = map (map_prod id param_real) ps,
           res_trades = [], res_equity_curve = [],
           res_final_equity = fin_val (cfg_initial_capital (wf_config a)),
           res_initial_capital = cfg_initial_capital (wf_config a),
           res_run_id = wf_uuid a k\<rparr>
      | Inl e \<Rightarrow> Inl e
      | Inr strat \<Rightarrow>
          rbind (engine_run ((wf_env a)\<lparr>env_calculate := fixed_quantity_calculate\<rparr>) strat
            candles (wf_config a) (wf_uuid a k) (wf_symbol a) 1) (\<lambda>(result, st). Inr result))"

text \<open>One trial of the search: the draws so far, the best parameters and their metric.\<close>

definition optimize_trial ::
    "'s wf_analyzer \<Rightarrow> candle list \<Rightarrow> nat \<times> params \<times> xfloat \<Rightarrow> (nat \<times> params \<times> xfloat) result" where
  "optimize_trial a train_candles = (\<lambda>(k, best_params, best_metric).
     rbind (sample_params a k) (\<lambda>(k', ps).
     rbind (wf_run_backtest a k' train_candles ps) (\<lambda>result.
       if res_equity_curve result = [] then Inr (k', best_params, best_metric)
       else rbind (compute_all_metrics result) (\<lambda>metrics.
         let metric_value = dict_default metrics (wf_optimization_metric a) NegInf in
         if metric_value > best_metric then Inr (k', ps, metric_value)
         else Inr (k', best_params, best_metric)))))"

definition optimize_window ::
    "'s wf_analyzer \<Rightarrow> nat \<Rightarrow> candle list \<Rightarrow> (nat \<times> params) result" where
  "optimize_window a k train_candles =
     rbind (rfold (\<lambda>_. optimize_trial a train_candles) [0 ..< nat (wf_trials a)] (k, [], NegInf))
       (\<lambda>(k', best_params, best_metric).
         if best_params \<noteq> [] then Inr (k', best_params) else sample_params a k')"

text \<open>Chaining an out-of-sample curve to the combined one.\<close>

definition chain_equity :: "equity_point list \<Rightarrow> equity_point list \<Rightarrow> equity_point list" where
  "chain_equity combined_equity oos =
     (if combined_equity \<noteq> [] \<and> oos \<noteq> [] then
        let last_equity = ep_equity (last combined_equity);
            first_oos = ep_equity (hd oos);
            scale = (if first_oos > 0 then last_equity / first_oos else 1)
        in combined_equity @ map (\<lambda>pt. \<lparr>ep_date = ep_date pt, ep_equity = ep_equity pt * scale,
             ep_drawdown_pct = ep_drawdown_pct pt\<rparr>) oos
      else combined_equity @ oos)"

record wf_state =
  ws_draws :: nat
  ws_windows :: "window_result list"
  ws_combined :: "equity_point list"
  ws_sharpes :: "real list"

definition wf_window ::
    "'s wf_analyzer \<Rightarrow> candle list \<Rightarrow> int \<Rightarrow> wf_state \<Rightarrow> wf_state result" where
  "wf_window a candles start ws =
     (let is_end = start + wf_in_sample_days a; oos_end = is_end + wf_out_of_sample_days a;
          train_candles = py_slice candles start is_end;
          oos_candles = py_slice candles is_end oos_end
      in rbind (optimize_window a (ws_draws ws) train_candles) (\<lambda>(k, best_params).
         rbind (wf_run_backtest a k oos_candles best_params) (\<lambda>oos_result.
         rbind (sharpe_ratio (equity_curve_to_returns (res_equity_curve oos_result)) (4 / 100) 252)
           (\<lambda>oos_sharpe.
         rbind (py_index candles start) (\<lambda>c1.
         rbind (py_index candles (is_end - 1)) (\<lambda>c2.
         rbind (py_index candles is_end) (\<lambda>c3.
         rbind (py_index candles (oos_end - 1)) (\<lambda>c4. Inr
           \<lparr>ws_draws = k,
            ws_windows = ws_windows ws @ [\<lparr>w_window_index = length (ws_windows ws),
              w_in_sample_start = c_timestamp c1, w_in_sample_end = c_timestamp c2,
              w_oos_start = c_timestamp c3, w_oos_end = c_timestamp c4,
              w_best_params = best_params, w_oos_sharpe = oos_sharpe,
              w_oos_result = oos_result\<rparr>],
            ws_combined = chain_equity (ws_combined ws) (res_equity_curve oos_result),
            ws_sharpes = ws_sharpes ws @ [oos_sharpe]\<rparr>))))))))"

partial_function (option) wf_loop ::
    "'s wf_analyzer \<Rightarrow> candle list \<Rightarrow> int \<Rightarrow> wf_state \<Rightarrow> wf_state result option" where
  "wf_loop a candles start ws =
     (if start + wf_in_sample_days a + wf_out_of_sample_days a > int (length candles)
      then Some (Inr ws)
      else case wf_window a candles start ws of
             Inl e \<Rightarrow> Some (Inl e)
           | Inr ws' \<Rightarrow> wf_loop a candles (start + wf_step_days a) ws')"

text \<open>\<open>numpy\<close>'s population standard deviation.\<close>

definition np_std0 :: "real list \<Rightarrow> real" where
  "np_std0 xs = sqrt (sum_list (map (\<lambda>x. (x - np_mean xs)\<^sup>2) xs) / real (length xs))"

definition stability :: "real list \<Rightarrow> xfloat" where
  "stability oos_sharpes =
     (if oos_sharpes \<noteq> [] \<and> length oos_sharpes > 1 then
        (if np_mean oos_sharpes \<noteq> 0 then Fin (np_std0 oos_sharpes / \<bar>np_mean oos_sharpes\<bar>) else PosInf)
      else Fin 0)"

definition combined_result :: "'s wf_analyzer \<Rightarrow> wf_state \<Rightarrow> backtest_result" where
  "combined_result a ws =
     (let combined = ws_combined ws in
      \<lparr>res_strategy_name = env_name (wf_env a),
       res_symbol = str_or (wf_symbol a) ''combined'',
       res_start_date = (if combined = [] then wf_now a else ep_date (hd combined)),
       res_end_date = (if combined = [] then wf_now a else ep_date (last combined)),
       res_parameters = [],
       res_trades = concat (map (\<lambda>w. res_trades (w_oos_result w)) (ws_windows ws)),
       res_equity_curve = combined,
       res_final_equity = (if combined = [] then fin_val (cfg_initial_capital (wf_config a))
                           else ep_equity (last combined)),
       res_initial_capital = cfg_initial_capital (wf_config a),
       res_run_id = wf_uuid a (ws_draws ws)\<rparr>)"

definition wf_finish :: "'s wf_analyzer \<Rightarrow> wf_state \<Rightarrow> walk_forward_result result" where
  "wf_finish a ws =
     rbind (sharpe_ratio (equity_curve_to_returns (ws_combined ws)) (4 / 100) 252) (\<lambda>combined_sharpe.
     rbind (compute_all_metrics (combined_result a ws)) (\<lambda>combined_metrics. Inr
       \<lparr>wr_windows = ws_windows ws, wr_combined_equity_curve = ws_combined ws,
        wr_optimization_stability = stability (ws_sharpes ws),
        wr_combined_sharpe = combined_sharpe, wr_combined_metrics = combined_metrics\<rparr>))"

definition wf_run :: "'s wf_analyzer \<Rightarrow> candle list \<Rightarrow> walk_forward_result result option" where
  "wf_run a candles =
     map_option (\<lambda>r. rbind r (wf_finish a))
       (wf_loop a candles 0 \<lparr>ws_draws = 0, ws_windows = [], ws_combined = [], ws_sharpes = []\<rparr>)"

section \<open>The window loop\<close>

lemma wf_loop_returns:
  assumes "1 \<le> wf_step_days a"
  shows "\<exists>r. wf_loop a candles start ws = Some r"
proof (induction "nat (int (length candles) + 1 - (start + wf_in_sample_days a + wf_out_of_sample_days a))"
    arbitrary: start ws rule: less_induct)
  case less
  show ?case
  proof (cases "start + wf_in_sample_days a + wf_out_of_sample_days a > int (length candles)")
    case True
    then show ?thesis by (subst wf_loop.simps) simp
  next
    case False
    show ?thesis
    proof (cases "wf_window a candles start ws")
      case (Inl e)
      with False show ?thesis by (subst wf_loop.simps) simp
    next
      case (Inr ws')
      from False assms have "\<exists>r. wf_loop a candles (start + wf_step_days a) ws' = Some r"
        by (intro less) simp
      with False Inr show ?thesis by (subst wf_loop.simps) simp
    qed
  qed
qed

text \<open>C13: the analysis ends. With a positive step the window loop returns on every series, be it
  with a result or with an exception.\<close>

theorem wf_run_terminates:
  assumes "1 \<le> wf_step_days a"
  shows "\<exists>r. wf_run a candles = Some r"
  using wf_loop_returns [OF assms] by (simp add: wf_run_def)

lemma wf_loop_step_zero:
  assumes "wf_loop a candles start ws = Some r"
  shows "wf_step_days a = 0 \<longrightarrow>
    start + wf_in_sample_days a + wf_out_of_sample_days a \<le> int (length candles) \<longrightarrow> (\<exists>e. r = Inl e)"
proof (rule wf_loop.raw_induct [OF _ assms, where P = "\<lambda>a candles start ws r. wf_step_days a = 0 \<longrightarrow>
    start + wf_in_sample_days a + wf_out_of_sample_days a \<le> int (length candles) \<longrightarrow> (\<exists>e. r = Inl e)"],
    intro impI)
  fix f and a :: "'a wf_analyzer" and candles start ws r
  assume IH: "\<And>a candles start ws r. f a candles start ws = Some r \<Longrightarrow> wf_step_days a = 0 \<longrightarrow>
      start + wf_in_sample_days a + wf_out_of_sample_days a \<le> int (length candles) \<longrightarrow> (\<exists>e. r = Inl e)"
    and body: "(if start + wf_in_sample_days a + wf_out_of_sample_days a > int (length candles)
      then Some (Inr ws)
      else case wf_window a candles start ws of
             Inl e \<Rightarrow> Some (Inl e)
           | Inr ws' \<Rightarrow> f a candles (start + wf_step_days a) ws') = Some r"
    and z: "wf_step_days a = 0"
    and fits: "start + wf_in_sample_days a + wf_out_of_sample_days a \<le> int (length candles)"
  show "\<exists>e. r = Inl e"
  proof (cases "wf_window a candles start ws")
    case (Inl e)
    with body fits show ?thesis by auto
  next
    case (Inr ws')
    with body fits z have "f a candles start ws' = Some r" by auto
    from IH [OF this] z fits show ?thesis by blast
  qed
qed

text \<open>C14: a zero step never gives a result. When the first window fits the series, the analysis
  with \<open>step_days = 0\<close> either raises or runs forever.\<close>

theorem wf_zero_step_gives_no_result:
  assumes "wf_step_days a = 0" and "wf_in_sample_days a + wf_out_of_sample_days a \<le> int (length candles)"
  shows "\<nexists>res. wf_run a candles = Some (Inr res)"
proof
  assume "\<exists>res. wf_run a candles = Some (Inr res)"
  then obtain ws where "wf_loop a candles 0
      \<lparr>ws_draws = 0, ws_windows = [], ws_combined = [], ws_sharpes = []\<rparr> = Some (Inr ws)"
    by (auto simp: wf_run_def result_simps)
  with wf_loop_step_zero [OF this] assms show False by simp
qed

section \<open>The windows\<close>

text \<open>Reference: the window that starts at bar \<open>s\<close>.\<close>

definition window_at :: "'s wf_analyzer \<Rightarrow> candle list \<Rightarrow> nat \<Rightarrow> window_result \<Rightarrow> bool" where
  "window_at a candles s w \<longleftrightarrow>
     (let i = nat (wf_in_sample_days a); n = nat (wf_out_of_sample_days a) in
      s + i + n \<le> length candles \<and>
      w_in_sample_start w = c_timestamp (candles ! s) \<and>
      w_in_sample_end w = c_timestamp (candles ! (s + i - 1)) \<and>
      w_oos_start w = c_timestamp (candles ! (s + i)) \<and>
      w_oos_end w = c_timestamp (candles ! (s + i + n - 1)) \<and>
      (\<exists>k. wf_run_backtest a k (take n (drop (s + i) candles)) (w_best_params w) = Inr (w_oos_result w)))"

lemma wf_window_at:
  assumes "wf_window a candles (int s) ws = Inr ws'" and "1 \<le> wf_in_sample_days a"
    and "1 \<le> wf_out_of_sample_days a"
    and "int s + wf_in_sample_days a + wf_out_of_sample_days a \<le> int (length candles)"
  shows "\<exists>w. ws_windows ws' = ws_windows ws @ [w] \<and> w_window_index w = length (ws_windows ws) \<and>
    window_at a candles s w \<and> ws_combined ws' = chain_equity (ws_combined ws)
      (res_equity_curve (w_oos_result w))"
proof -
  define i where "i = nat (wf_in_sample_days a)"
  define n where "n = nat (wf_out_of_sample_days a)"
  have i: "wf_in_sample_days a = int i" "1 \<le> i" and n: "wf_out_of_sample_days a = int n" "1 \<le> n"
    using assms(2,3) by (simp_all add: i_def n_def)
  have fits: "s + i + n \<le> length candles" using assms(4) i n by simp
  have slice: "py_slice candles (int s + int i) (int s + int i + int n) = take n (drop (s + i) candles)"
    using fits by (simp add: py_slice_nonneg nat_add_distrib)
  have idx: "py_index candles (int s) = Inr (candles ! s)"
    "py_index candles (int s + int i - 1) = Inr (candles ! (s + i - 1))"
    "py_index candles (int s + int i) = Inr (candles ! (s + i))"
    "py_index candles (int s + int i + int n - 1) = Inr (candles ! (s + i + n - 1))"
    using fits i(2) n(2) by (simp_all add: py_index_nonneg nat_add_distrib nat_diff_distrib)
  from assms(1) show ?thesis
    by (auto simp: wf_window_def i n slice idx result_simps Let_def window_at_def fits)
qed

lemma wf_loop_windows:
  assumes "wf_loop a candles (int s) ws = Some (Inr ws')" and "1 \<le> wf_in_sample_days a"
    and "1 \<le> wf_out_of_sample_days a" and step: "1 \<le> wf_step_days a"
  shows "\<exists>new. ws_windows ws' = ws_windows ws @ new \<and>
    (\<forall>j < length new. w_window_index (new ! j) = length (ws_windows ws) + j \<and>
       window_at a candles (s + j * nat (wf_step_days a)) (new ! j)) \<and>
    length candles < s + length new * nat (wf_step_days a) + nat (wf_in_sample_days a)
      + nat (wf_out_of_sample_days a) \<and>
    ws_combined ws' = foldl chain_equity (ws_combined ws)
      (map (\<lambda>w. res_equity_curve (w_oos_result w)) new)"
  using assms(1)
proof (induction "Suc (length candles) - s" arbitrary: s ws rule: less_induct)
  case less
  let ?fits = "int s + wf_in_sample_days a + wf_out_of_sample_days a \<le> int (length candles)"
  show ?case
  proof (cases ?fits)
    case False
    with less.prems have "ws' = ws" by (subst (asm) wf_loop.simps) simp
    with False assms(2,3) show ?thesis by (intro exI [of _ "[]"]) auto
  next
    case True
    with less.prems obtain ws1 where ws1: "wf_window a candles (int s) ws = Inr ws1"
        "wf_loop a candles (int s + wf_step_days a) ws1 = Some (Inr ws')"
      by (subst (asm) wf_loop.simps) (auto split: sum.splits)
    obtain w where w: "ws_windows ws1 = ws_windows ws @ [w]"
        "w_window_index w = length (ws_windows ws)" "window_at a candles s w"
        "ws_combined ws1 = chain_equity (ws_combined ws) (res_equity_curve (w_oos_result w))"
      using wf_window_at [OF ws1(1) assms(2,3) True] by blast
    define s' where "s' = s + nat (wf_step_days a)"
    have loop: "wf_loop a candles (int s') ws1 = Some (Inr ws')"
      using ws1(2) step by (simp add: s'_def)
    have "Suc (length candles) - s' < Suc (length candles) - s"
      using True step assms(2,3) by (simp add: s'_def)
    from less.hyps [OF this loop] obtain new where new:
      "ws_windows ws' = ws_windows ws1 @ new"
      "\<forall>j < length new. w_window_index (new ! j) = length (ws_windows ws1) + j \<and>
         window_at a candles (s' + j * nat (wf_step_days a)) (new ! j)"
      "length candles < s' + length new * nat (wf_step_days a) + nat (wf_in_sample_days a)
        + nat (wf_out_of_sample_days a)"
      "ws_combined ws' = foldl chain_equity (ws_combined ws1)
        (map (\<lambda>w. res_equity_curve (w_oos_result w)) new)"
      by blast
    have "w_window_index ((w # new) ! j) = length (ws_windows ws) + j \<and>
        window_at a candles (s + j * nat (wf_step_days a)) ((w # new) ! j)"
      if "j < length (w # new)" for j
      using that w new(2) by (cases j) (auto simp: s'_def add.assoc)
    with w new show ?thesis by (intro exI [of _ "w # new"]) (auto simp: s'_def)
  qed
qed

lemma wf_runE:
  assumes "wf_run a candles = Some (Inr res)"
  obtains ws where "wf_loop a candles 0
      \<lparr>ws_draws = 0, ws_windows = [], ws_combined = [], ws_sharpes = []\<rparr> = Some (Inr ws)"
    "wr_windows res = ws_windows ws" "wr_combined_equity_curve res = ws_combined ws"
  using assms by (auto simp: wf_run_def wf_finish_def result_simps Let_def)

lemma wf_run_windows:
  assumes "wf_run a candles = Some (Inr res)" and "1 \<le> wf_in_sample_days a"
    and "1 \<le> wf_out_of_sample_days a" and "1 \<le> wf_step_days a"
  shows "(\<forall>j < length (wr_windows res). w_window_index (wr_windows res ! j) = j \<and>
      window_at a candles (j * nat (wf_step_days a)) (wr_windows res ! j)) \<and>
    length candles < length (wr_windows res) * nat (wf_step_days a) + nat (wf_in_sample_days a)
      + nat (wf_out_of_sample_days a) \<and>
    wr_combined_equity_curve res = foldl chain_equity []
      (map (\<lambda>w. res_equity_curve (w_oos_result w)) (wr_windows res))"
proof -
  from assms(1) obtain ws where ws: "wf_loop a candles (int 0)
      \<lparr>ws_draws = 0, ws_windows = [], ws_combined = [], ws_sharpes = []\<rparr> = Some (Inr ws)"
      "wr_windows res = ws_windows ws" "wr_combined_equity_curve res = ws_combined ws"
    using wf_runE by (metis of_nat_0)
  show ?thesis using wf_loop_windows [OF ws(1) assms(2-4)] ws(2,3) by auto
qed

lemma wf_finish_returns:
  assumes "\<not> cagr_fails (ws_combined ws)"
  shows "\<exists>res. wf_finish a ws = Inr res \<and> wr_windows res = ws_windows ws"
proof -
  obtain ms where "compute_all_metrics (combined_result a ws) = Inr ms"
    using compute_all_metrics_returns [of "combined_result a ws"] assms
    by (auto simp: combined_result_def Let_def)
  moreover obtain x where "sharpe_ratio (equity_curve_to_returns (ws_combined ws)) (4 / 100) 252 = Inr x"
    using sharpe_returns by blast
  ultimately show ?thesis by (simp add: wf_finish_def)
qed

lemma increasing_nth:
  "strictly_increasing cs \<Longrightarrow> i < j \<Longrightarrow> j < length cs \<Longrightarrow> c_timestamp (cs ! i) < c_timestamp (cs ! j)"
proof (induction cs arbitrary: i j)
  case (Cons c cs)
  then obtain j' where j: "j = Suc j'" by (cases j) auto
  show ?case
  proof (cases i)
    case 0
    with Cons j increasing_tail [OF Cons.prems(1)] show ?thesis by simp
  next
    case (Suc i')
    with Cons j increasing_Cons [OF Cons.prems(1)] show ?thesis by simp
  qed
qed simp

text \<open>The windows roll over the series. Window \<open>j\<close> starts at bar \<open>j * step\<close>, trains on the
  in-sample bars, is evaluated by a backtest of exactly the out-of-sample bars after them, and
  no further window would fit; every training period ends before its test period starts.\<close>

theorem wf_windows_roll:
  assumes "wf_run a candles = Some (Inr res)" and "1 \<le> wf_in_sample_days a"
    and "1 \<le> wf_out_of_sample_days a" and "1 \<le> wf_step_days a" and "strictly_increasing candles"
  shows "(\<forall>j < length (wr_windows res). w_window_index (wr_windows res ! j) = j \<and>
      window_at a candles (j * nat (wf_step_days a)) (wr_windows res ! j) \<and>
      w_in_sample_end (wr_windows res ! j) < w_oos_start (wr_windows res ! j)) \<and>
    length candles < length (wr_windows res) * nat (wf_step_days a) + nat (wf_in_sample_days a)
      + nat (wf_out_of_sample_days a)"
proof -
  note w = wf_run_windows [OF assms(1-4)]
  have "w_in_sample_end v < w_oos_start v" if "window_at a candles s v" for s v
    using that assms(2,3) increasing_nth [OF assms(5)]
    by (auto simp: window_at_def Let_def)
  with w show ?thesis by blast
qed

section \<open>The combined curve\<close>

definition growth :: "equity_point list \<Rightarrow> real" where
  "growth c = ep_equity (last c) / ep_equity (hd c)"

lemma chain_equity_growth:
  assumes "combined \<noteq> []" and "oos \<noteq> []" and "0 < ep_equity (hd oos)" and "0 < ep_equity (hd combined)"
  shows "chain_equity combined oos \<noteq> []" "hd (chain_equity combined oos) = hd combined"
    "growth (chain_equity combined oos) = growth combined * growth oos"
  using assms by (simp_all add: chain_equity_def Let_def growth_def last_map mult.commute)

lemma foldl_chain_growth:
  assumes "cs \<noteq> []" and "\<forall>c \<in> set cs. c \<noteq> [] \<and> 0 < ep_equity (hd c)"
  shows "foldl chain_equity [] cs \<noteq> [] \<and> hd (foldl chain_equity [] cs) = hd (hd cs) \<and>
    growth (foldl chain_equity [] cs) = prod_list (map growth cs)"
  using assms
proof (induction cs rule: rev_induct)
  case Nil
  then show ?case by simp
next
  case (snoc c cs)
  show ?case
  proof (cases "cs = []")
    case True
    with snoc.prems show ?thesis by (simp add: chain_equity_def)
  next
    case False
    with snoc have ih: "foldl chain_equity [] cs \<noteq> []" "hd (foldl chain_equity [] cs) = hd (hd cs)"
        "growth (foldl chain_equity [] cs) = prod_list (map growth cs)" by auto
    have "0 < ep_equity (hd (hd cs))" using snoc.prems(2) False by simp
    with chain_equity_growth [OF ih(1), of c] ih snoc.prems(2) False show ?thesis by simp
  qed
qed

text \<open>The combined curve compounds the out-of-sample results. Its growth is the product of the
  growth factors of the windows' own curves: rescaling each segment to continue from the last
  combined equity neither adds nor loses performance.\<close>

theorem wf_combined_growth:
  assumes "wf_run a candles = Some (Inr res)" and "1 \<le> wf_in_sample_days a"
    and "1 \<le> wf_out_of_sample_days a" and "1 \<le> wf_step_days a" and "wr_windows res \<noteq> []"
    and "\<forall>w \<in> set (wr_windows res). res_equity_curve (w_oos_result w) \<noteq> [] \<and>
      0 < ep_equity (hd (res_equity_curve (w_oos_result w)))"
  shows "growth (wr_combined_equity_curve res)
    = prod_list (map (\<lambda>w. growth (res_equity_curve (w_oos_result w))) (wr_windows res))"
proof -
  let ?cs = "map (\<lambda>w. res_equity_curve (w_oos_result w)) (wr_windows res)"
  have "growth (foldl chain_equity [] ?cs) = prod_list (map growth ?cs)"
    using assms(5,6) by (intro conjunct2 [OF conjunct2 [OF foldl_chain_growth]]) auto
  then show ?thesis using wf_run_windows [OF assms(1-4)] by (simp add: comp_def)
qed

section \<open>The parameter search\<close>

text \<open>The trials that gave a curve, with their metric, in order.\<close>

definition logged_trial ::
    "'s wf_analyzer \<Rightarrow> candle list \<Rightarrow> nat \<times> (params \<times> xfloat) list \<Rightarrow> (nat \<times> (params \<times> xfloat) list) result" where
  "logged_trial a train_candles = (\<lambda>(k, trail).
     rbind (sample_params a k) (\<lambda>(k', ps).
     rbind (wf_run_backtest a k' train_candles ps) (\<lambda>result.
       if res_equity_curve result = [] then Inr (k', trail)
       else rbind (compute_all_metrics result) (\<lambda>metrics.
         Inr (k', trail @ [(ps, dict_default metrics (wf_optimization_metric a) NegInf)])))))"

lemma xfloat_less_trans: "(x :: xfloat) < y \<Longrightarrow> y < z \<Longrightarrow> x < z"
  by (cases x; cases y; cases z) simp_all

lemma not_less_NegInf: "\<not> x < NegInf"
  by (cases x) simp_all

definition best_of :: "(params \<times> xfloat) list \<Rightarrow> params \<Rightarrow> xfloat \<Rightarrow> bool" where
  "best_of trail ps m \<longleftrightarrow> (\<forall>(q, v) \<in> set trail. \<not> m < v) \<and>
     (if m = NegInf then ps = [] else (ps, m) \<in> set trail)"

lemma trial_tracks:
  assumes "optimize_trial a cs (k, ps, m) = Inr (k', ps', m')" and "best_of trail ps m"
  shows "\<exists>trail'. logged_trial a cs (k, trail) = Inr (k', trail') \<and> best_of trail' ps' m'"
proof -
  from assms(1) obtain q result where q: "sample_params a k = Inr (k', q)"
      "wf_run_backtest a k' cs q = Inr result"
    by (auto simp: optimize_trial_def result_simps Let_def split: if_splits)
  show ?thesis
  proof (cases "res_equity_curve result = []")
    case True
    with q assms show ?thesis by (simp add: optimize_trial_def logged_trial_def)
  next
    case False
    with q assms(1) obtain metrics where metrics: "compute_all_metrics result = Inr metrics"
      by (auto simp: optimize_trial_def result_simps)
    define v where "v = dict_default metrics (wf_optimization_metric a) NegInf"
    have trail: "logged_trial a cs (k, trail) = Inr (k', trail @ [(q, v)])"
      using q False metrics by (simp add: logged_trial_def v_def)
    show ?thesis
    proof (cases "m < v")
      case True
      with assms(1) q False metrics have "ps' = q" "m' = v"
        by (auto simp: optimize_trial_def v_def Let_def)
      moreover have "\<not> v < w" if "\<not> m < w" for w
        using that True xfloat_less_trans by blast
      moreover have "v \<noteq> NegInf" "\<not> v < v"
        using True by (cases v; cases m; simp)+
      ultimately have "best_of (trail @ [(q, v)]) ps' m'"
        using assms(2) by (auto simp: best_of_def)
      with trail show ?thesis by blast
    next
      case False': False
      with assms(1) q False metrics have "ps' = ps" "m' = m"
        by (auto simp: optimize_trial_def v_def Let_def)
      with False' assms(2) have "best_of (trail @ [(q, v)]) ps' m'"
        by (auto simp: best_of_def split: if_splits)
      with trail show ?thesis by blast
    qed
  qed
qed

lemma trials_track:
  assumes "rfold (\<lambda>_. optimize_trial a cs) xs (k, ps, m) = Inr (k', ps', m')" and "best_of trail ps m"
  shows "\<exists>trail'. rfold (\<lambda>_. logged_trial a cs) xs (k, trail) = Inr (k', trail') \<and> best_of trail' ps' m'"
  using assms
proof (induction xs arbitrary: k ps m trail)
  case Nil
  then show ?case by simp
next
  case (Cons x xs)
  then obtain k1 ps1 m1 where t: "optimize_trial a cs (k, ps, m) = Inr (k1, ps1, m1)"
      "rfold (\<lambda>_. optimize_trial a cs) xs (k1, ps1, m1) = Inr (k', ps', m')"
    by (auto simp: result_simps)
  obtain trail1 where "logged_trial a cs (k, trail) = Inr (k1, trail1)" "best_of trail1 ps1 m1"
    using trial_tracks [OF t(1) Cons.prems(2)] by blast
  with Cons.IH [OF t(2)] show ?case by auto
qed

text \<open>The search keeps the best trial. When some trial of a window has a metric above minus
  infinity, \<open>optimize_window\<close> returns the parameters of a trial whose metric no other trial
  exceeds.\<close>

theorem optimize_window_is_best:
  assumes "optimize_window a k cs = Inr (k', best)"
  shows "\<exists>k1 trail. rfold (\<lambda>_. logged_trial a cs) [0 ..< nat (wf_trials a)] (k, []) = Inr (k1, trail) \<and>
    ((\<exists>(q, v) \<in> set trail. NegInf < v \<and> q \<noteq> []) \<and> (\<forall>(q, v) \<in> set trail. q \<noteq> []) \<longrightarrow>
      (\<exists>m. (best, m) \<in> set trail \<and> (\<forall>(q, v) \<in> set trail. \<not> m < v)))"
proof -
  from assms obtain k1 ps m where t: "rfold (\<lambda>_. optimize_trial a cs) [0 ..< nat (wf_trials a)]
      (k, [], NegInf) = Inr (k1, ps, m)"
    and r: "(if ps \<noteq> [] then Inr (k1, ps) else sample_params a k1) = Inr (k', best)"
    by (auto simp: optimize_window_def result_simps split: if_splits)
  have "best_of [] [] NegInf" by (simp add: best_of_def)
  from trials_track [OF t this] obtain trail where
    trail: "rfold (\<lambda>_. logged_trial a cs) [0 ..< nat (wf_trials a)] (k, []) = Inr (k1, trail)"
      "best_of trail ps m" by blast
  have "\<exists>m. (best, m) \<in> set trail \<and> (\<forall>(q, v) \<in> set trail. \<not> m < v)"
    if "\<exists>(q, v) \<in> set trail. NegInf < v \<and> q \<noteq> []" and "\<forall>(q, v) \<in> set trail. q \<noteq> []"
  proof -
    from that(1) trail(2) have "m \<noteq> NegInf" by (auto simp: best_of_def)
    with trail(2) have "(ps, m) \<in> set trail" by (simp add: best_of_def)
    moreover from this that(2) have "ps \<noteq> []" by auto
    ultimately show ?thesis using r trail(2) by (auto simp: best_of_def)
  qed
  with trail show ?thesis by blast
qed

section \<open>A concrete analysis\<close>

text \<open>A strategy that never trades, one bar in and one bar out of sample, three bars.\<close>

definition demo_wf :: "int \<Rightarrow> signal_event option list wf_analyzer" where
  "demo_wf step = \<lparr>wf_make = (\<lambda>ps. Inr []), wf_env = scripted_env,
     wf_space = [(''lookback'', 1, 3, 1)], wf_in_sample_days = 1, wf_out_of_sample_days = 1,
     wf_step_days = step, wf_optimization_metric = ''sharpe_ratio'', wf_trials = 1,
     wf_config = demo_config, wf_symbol = None, wf_randint = (\<lambda>k b. b), wf_uuid = (\<lambda>k. []),
     wf_now = 0\<rparr>"

lemma demo_sample: "sample_params (demo_wf step) k = Inr (Suc k, [(''lookback'', PInt 3)])"
  by (simp add: sample_params_def sample_one_def demo_wf_def py_int_def dict_set_def Let_def)

lemma demo_wf_backtest:
  "\<exists>r. wf_run_backtest (demo_wf step) k [demo_bar t x] ps = Inr r \<and>
    res_equity_curve r = [\<lparr>ep_date = t, ep_equity = 1000, ep_drawdown_pct = 0\<rparr>] \<and>
    res_final_equity r = 1000 \<and> res_initial_capital r = Fin 1000 \<and> res_trades r = []"
  by (simp add: wf_run_backtest_def demo_wf_def engine_run_def run_bars_def demo_bar_def
      initial_state_def demo_config_def portfolio_init_def validate_short_settings_def
      enumerate_simps process_bar_def accrue_phase_def execute_phase_def mark_phase_def
      margin_phase_def drain_simps build_context_def context_post_init_def scripted_env_def
      scripted_on_candle_def update_prices_def equity_def close_out_def Let_def)

lemma one_bar_metrics:
  assumes "length (res_equity_curve r) = 1"
  shows "\<exists>ms. compute_all_metrics r = Inr ms \<and> dict_default ms ''sharpe_ratio'' NegInf = Fin 0"
proof -
  have "length (res_equity_curve r) < 2" using assms by simp
  then have "cagr (res_equity_curve r) 252 = Inr 0" "equity_curve_to_returns (res_equity_curve r) = []"
    by (simp_all add: cagr_def equity_curve_to_returns_def)
  then show ?thesis
    by (simp add: compute_all_metrics_def sharpe_ratio_def sortino_ratio_def calmar_ratio_def
        dict_default_def Let_def)
qed

lemma demo_optimize:
  "optimize_window (demo_wf step) k [demo_bar t x] = Inr (Suc k, [(''lookback'', PInt 3)])"
proof -
  obtain r where r: "wf_run_backtest (demo_wf step) (Suc k) [demo_bar t x] [(''lookback'', PInt 3)] = Inr r"
      "length (res_equity_curve r) = 1"
    using demo_wf_backtest [of step "Suc k" t x] by fastforce
  obtain ms where "compute_all_metrics r = Inr ms" "dict_default ms ''sharpe_ratio'' NegInf = Fin 0"
    using one_bar_metrics [OF r(2)] by blast
  moreover have "wf_trials (demo_wf step) = 1" "wf_optimization_metric (demo_wf step) = ''sharpe_ratio''"
    by (simp_all add: demo_wf_def)
  ultimately show ?thesis
    using r by (auto simp: optimize_window_def optimize_trial_def demo_sample Let_def)
qed

lemma demo_window:
  assumes "0 \<le> s" and "s + 2 \<le> int (length bars)" and "\<forall>c \<in> set bars. \<exists>t x. c = demo_bar t x"
  shows "\<exists>ws' w t. wf_window (demo_wf step) bars s ws = Inr ws' \<and> ws_windows ws' = ws_windows ws @ [w] \<and>
    res_equity_curve (w_oos_result w) = [\<lparr>ep_date = t, ep_equity = 1000, ep_drawdown_pct = 0\<rparr>] \<and>
    ws_combined ws' = chain_equity (ws_combined ws)
      [\<lparr>ep_date = t, ep_equity = 1000, ep_drawdown_pct = 0\<rparr>]"
proof -
  have days: "wf_in_sample_days (demo_wf step) = 1" "wf_out_of_sample_days (demo_wf step) = 1"
    by (simp_all add: demo_wf_def)
  define n where "n = nat s"
  have n: "s = int n" "n + 2 \<le> length bars" using assms(1,2) by (simp_all add: n_def)
  have slices: "py_slice bars s (s + 1) = [bars ! n]" "py_slice bars (s + 1) (s + 1 + 1) = [bars ! Suc n]"
    using n by (simp_all add: py_slice_nonneg nat_add_distrib take_Suc hd_drop_conv_nth)
  have idx: "py_index bars s = Inr (bars ! n)" "py_index bars (s + 1 - 1) = Inr (bars ! n)"
      "py_index bars (s + 1) = Inr (bars ! Suc n)" "py_index bars (s + 1 + 1 - 1) = Inr (bars ! Suc n)"
    using n by (simp_all add: py_index_nonneg nat_add_distrib)
  have two: "s + 1 + 1 = 2 + s" by simp
  have "bars ! n \<in> set bars" "bars ! Suc n \<in> set bars" using n by simp_all
  with assms(3) obtain t1 x1 t2 x2 where bars: "bars ! n = demo_bar t1 x1" "bars ! Suc n = demo_bar t2 x2"
    by blast
  obtain r where "wf_run_backtest (demo_wf step) (Suc (ws_draws ws)) [demo_bar t2 x2]
      [(''lookback'', PInt 3)] = Inr r"
      "res_equity_curve r = [\<lparr>ep_date = t2, ep_equity = 1000, ep_drawdown_pct = 0\<rparr>]"
    using demo_wf_backtest [of step "Suc (ws_draws ws)" t2 x2] by blast
  then show ?thesis
    by (simp add: wf_window_def days slices slices [unfolded two] idx bars demo_optimize
        sharpe_ratio_def equity_curve_to_returns_def Let_def)
qed

definition demo_bars :: "candle list" where
  "demo_bars = [demo_bar 0 10, demo_bar 1 11, demo_bar 2 12]"

lemma demo_wf_run:
  "\<exists>res. wf_run (demo_wf 1) demo_bars = Some (Inr res) \<and> length (wr_windows res) = 2 \<and>
    (\<forall>w \<in> set (wr_windows res). \<exists>t. res_equity_curve (w_oos_result w)
      = [\<lparr>ep_date = t, ep_equity = 1000, ep_drawdown_pct = 0\<rparr>])"
proof -
  let ?ws = "\<lparr>ws_draws = 0, ws_windows = [], ws_combined = [], ws_sharpes = []\<rparr>"
  have bars: "\<forall>c \<in> set demo_bars. \<exists>t x. c = demo_bar t x" "length demo_bars = 3"
    by (auto simp: demo_bars_def)
  have days: "wf_in_sample_days (demo_wf 1) = 1" "wf_out_of_sample_days (demo_wf 1) = 1"
      "wf_step_days (demo_wf 1) = 1"
    by (simp_all add: demo_wf_def)
  obtain ws1 w1 t1 where s1: "wf_window (demo_wf 1) demo_bars 0 ?ws = Inr ws1" "ws_windows ws1 = [w1]"
      "res_equity_curve (w_oos_result w1) = [\<lparr>ep_date = t1, ep_equity = 1000, ep_drawdown_pct = 0\<rparr>]"
      "ws_combined ws1 = [\<lparr>ep_date = t1, ep_equity = 1000, ep_drawdown_pct = 0\<rparr>]"
    using demo_window [of 0 demo_bars 1 ?ws] bars by (auto simp: chain_equity_def)
  obtain ws2 w2 t2 where s2: "wf_window (demo_wf 1) demo_bars 1 ws1 = Inr ws2"
      "ws_windows ws2 = [w1, w2]"
      "res_equity_curve (w_oos_result w2) = [\<lparr>ep_date = t2, ep_equity = 1000, ep_drawdown_pct = 0\<rparr>]"
      "ep_equity (last (ws_combined ws2)) = 1000"
    using demo_window [of 1 demo_bars 1 ws1] bars s1 by (auto simp: chain_equity_def)
  have loop: "wf_loop (demo_wf 1) demo_bars 0 ?ws = Some (Inr ws2)"
    using s1(1) s2(1) bars(2)
    by (subst wf_loop.simps, simp add: days) (subst wf_loop.simps, simp add: days,
        subst wf_loop.simps, simp add: days)
  have "\<not> cagr_fails (ws_combined ws2)" using s2(4) by (simp add: cagr_fails_def)
  then obtain res where "wf_finish (demo_wf 1) ws2 = Inr res" "wr_windows res = ws_windows ws2"
    using wf_finish_returns by blast
  with loop s1 s2 show ?thesis by (auto simp: wf_run_def)
qed

theorem wf_run_terminates_witness: "\<exists>r. wf_run (demo_wf 1) demo_bars = Some r"
  using wf_run_terminates [of "demo_wf 1" demo_bars] by (simp add: demo_wf_def)

theorem wf_zero_step_gives_no_result_witness:
  "\<nexists>res. wf_run (demo_wf 0) demo_bars = Some (Inr res)"
  using wf_zero_step_gives_no_result [of "demo_wf 0" demo_bars]
  by (simp add: demo_wf_def demo_bars_def)

theorem wf_windows_roll_witness:
  "\<exists>res. wf_run (demo_wf 1) demo_bars = Some (Inr res) \<and> length (wr_windows res) = 2 \<and>
    w_oos_start (wr_windows res ! 1) = 2"
proof -
  obtain res where res: "wf_run (demo_wf 1) demo_bars = Some (Inr res)" "length (wr_windows res) = 2"
    using demo_wf_run by blast
  have days: "wf_in_sample_days (demo_wf 1) = 1" "wf_out_of_sample_days (demo_wf 1) = 1"
      "wf_step_days (demo_wf 1) = 1"
    by (simp_all add: demo_wf_def)
  have "strictly_increasing demo_bars" "c_timestamp (demo_bars ! Suc (Suc 0)) = 2"
    by (simp_all add: demo_bars_def demo_bar_def)
  with wf_windows_roll [OF res(1)] res show ?thesis
    by (auto simp: days window_at_def Let_def)
qed

theorem wf_combined_growth_witness:
  "\<exists>res. wf_run (demo_wf 1) demo_bars = Some (Inr res) \<and> growth (wr_combined_equity_curve res) = 1"
proof -
  obtain res where res: "wf_run (demo_wf 1) demo_bars = Some (Inr res)" "length (wr_windows res) = 2"
      "\<forall>w \<in> set (wr_windows res). \<exists>t. res_equity_curve (w_oos_result w)
        = [\<lparr>ep_date = t, ep_equity = 1000, ep_drawdown_pct = 0\<rparr>]"
    using demo_wf_run by blast
  have days: "1 \<le> wf_in_sample_days (demo_wf 1)" "1 \<le> wf_out_of_sample_days (demo_wf 1)"
      "1 \<le> wf_step_days (demo_wf 1)"
    by (simp_all add: demo_wf_def)
  have one: "growth (res_equity_curve (w_oos_result w)) = 1" if "w \<in> set (wr_windows res)" for w
    using that res(3) by (auto simp: growth_def)
  have "wr_windows res \<noteq> []" using res(2) by auto
  moreover have "\<forall>w \<in> set (wr_windows res). res_equity_curve (w_oos_result w) \<noteq> [] \<and>
      0 < ep_equity (hd (res_equity_curve (w_oos_result w)))"
    using res(3) by fastforce
  ultimately have "growth (wr_combined_equity_curve res)
      = prod_list (map (\<lambda>w. growth (res_equity_curve (w_oos_result w))) (wr_windows res))"
    by (rule wf_combined_growth [OF res(1) days])
  also have "\<dots> = prod_list (map (\<lambda>w. 1) (wr_windows res))"
    using one by (simp cong: map_cong)
  finally show ?thesis using res(1) by (auto simp: map_replicate_const)
qed

theorem optimize_window_is_best_witness:
  "\<exists>k1 trail m. rfold (\<lambda>_. logged_trial (demo_wf 1) [demo_bar 0 10]) [0 ..< 1] (0, []) = Inr (k1, trail) \<and>
    ([(''lookback'', PInt 3)], m) \<in> set trail"
proof -
  obtain r where r: "wf_run_backtest (demo_wf 1) 1 [demo_bar 0 10] [(''lookback'', PInt 3)] = Inr r"
      "length (res_equity_curve r) = 1"
    using demo_wf_backtest [of 1 1 0 10 "[(''lookback'', PInt 3)]"] by force
  moreover obtain ms where "compute_all_metrics r = Inr ms"
      "dict_default ms ''sharpe_ratio'' NegInf = Fin 0"
    using one_bar_metrics [OF r(2)] by blast
  moreover have "wf_optimization_metric (demo_wf 1) = ''sharpe_ratio''" "wf_trials (demo_wf 1) = 1"
    by (simp_all add: demo_wf_def)
  ultimately have "rfold (\<lambda>_. logged_trial (demo_wf 1) [demo_bar 0 10]) [0 ..< nat (wf_trials (demo_wf 1))]
      (0, []) = Inr (1, [([(''lookback'', PInt 3)], Fin 0)])"
    by (auto simp: logged_trial_def demo_sample)
  with optimize_window_is_best [OF demo_optimize [of 1 0 0 10]] show ?thesis
    by (auto simp: demo_wf_def)
qed

end
