(* ===== verification/Permutation_Test.thy ===== *)
theory Permutation_Test
  imports Walk_Forward
begin

text \<open>
  The permutation test of \<open>src/analytics/permutation_test.py\<close>. The shuffle of the random
  generator, the strategy class and the process pool are parameters: the pool's outcome is the
  order in which the tasks complete, or a failure of the pool after some completions. For
  positive prices \<open>numpy\<close>'s logarithm is \<open>ln\<close>; the statements about prices assume them
  positive.
\<close>

section \<open>Synthetic prices\<close>

definition permute_returns :: "(int \<Rightarrow> real list \<Rightarrow> real list) \<Rightarrow> int \<Rightarrow> real list \<Rightarrow> real list" where
  "permute_returns shuffle seed log_returns = shuffle seed log_returns"

text \<open>\<open>prices[i + 1] = prices[i] * exp(lr)\<close>, starting from the initial price.\<close>

fun reconstruct_prices :: "real list \<Rightarrow> real \<Rightarrow> real list" where
  "reconstruct_prices [] p = [p]"
| "reconstruct_prices (lr # lrs) p = p # reconstruct_prices lrs (p * exp lr)"

definition synthetic_candle :: "datetime \<Rightarrow> real \<Rightarrow> real \<Rightarrow> candle result" where
  "synthetic_candle ts p volume = candle_post_init
     \<lparr>c_timestamp = ts, c_open = p, c_high = p, c_low = p, c_close = p, c_volume = volume,
      c_adj_close = p\<rparr>"

fun candles_from_prices :: "real list \<Rightarrow> candle list \<Rightarrow> candle list result" where
  "candles_from_prices (p # prices) (candle # original) =
     rbind (synthetic_candle (c_timestamp candle) p (c_volume candle)) (\<lambda>c.
     rbind (candles_from_prices prices original) (\<lambda>cs. Inr (c # cs)))"
| "candles_from_prices _ _ = Inr []"

fun permutation_candles :: "real list \<Rightarrow> datetime list \<Rightarrow> candle list result" where
  "permutation_candles (p # prices) (ts # timestamps) =
     rbind (synthetic_candle ts p 1000000) (\<lambda>c.
     rbind (permutation_candles prices timestamps) (\<lambda>cs. Inr (c # cs)))"
| "permutation_candles _ _ = Inr []"

fun price_ratios :: "real list \<Rightarrow> real list" where
  "price_ratios (a # b # ps) = (b / a) # price_ratios (b # ps)"
| "price_ratios _ = []"

definition compute_log_returns :: "candle list \<Rightarrow> real list" where
  "compute_log_returns candles = map ln (price_ratios (map c_adj_close candles))"

section \<open>The tester\<close>

record 's permutation_tester =
  pt_strategy :: 's
  pt_candles :: "candle list"
  pt_n_permutations :: int
  pt_metric :: metric_name
  pt_seed :: int
  pt_config :: backtest_config
  pt_symbol :: "string option"

text \<open>
  The code the tester calls: the strategy class with its constructor and \<open>reset\<close>, the generator's
  shuffle, the UUIDs of the runs, and the pool.
\<close>

datatype pool_run = Completed "int list" | Broken_after "int list"

record 's pt_world =
  pw_env :: "('s, int) collaborators"
  pw_make :: "(string, real) dict \<Rightarrow> 's result"
  pw_reset :: "'s \<Rightarrow> 's"
  pw_shuffle :: "int \<Rightarrow> real list \<Rightarrow> real list"
  pw_run_id :: "int \<Rightarrow> string"
  pw_pool :: "int list \<Rightarrow> pool_run"

record permutation_result =
  pr_actual_metric :: xfloat
  pr_permuted_metrics :: "xfloat list"
  pr_p_value :: real
  pr_is_significant :: bool
  pr_percentile :: real

definition pt_init ::
    "'s \<Rightarrow> candle list \<Rightarrow> int \<Rightarrow> string \<Rightarrow> int \<Rightarrow> backtest_config \<Rightarrow> string option
      \<Rightarrow> 's permutation_tester result" where
  "pt_init strat candles n metric seed cfg symb =
     rbind (parse_metric_name metric) (\<lambda>m. Inr
       \<lparr>pt_strategy = strat, pt_candles = candles, pt_n_permutations = n, pt_metric = m,
        pt_seed = seed, pt_config = cfg, pt_symbol = symb\<rparr>)"

definition run_single_permutation ::
    "'s pt_world \<Rightarrow> (string, real) dict \<Rightarrow> real list \<Rightarrow> real list \<Rightarrow> datetime list \<Rightarrow> metric_name
      \<Rightarrow> backtest_config \<Rightarrow> string option \<Rightarrow> int \<Rightarrow> xfloat result" where
  "run_single_permutation pw params log_returns original_prices timestamps metric cfg symb seed =
     (let lr_arr = pw_shuffle pw seed log_returns in
      rbind (case original_prices of [] \<Rightarrow> Inl IndexError | p # ps \<Rightarrow> Inr p) (\<lambda>p0.
      rbind (permutation_candles (reconstruct_prices lr_arr p0) timestamps) (\<lambda>candles.
      rbind (pw_make pw params) (\<lambda>strat.
      rbind (config_post_init cfg) (\<lambda>cfg'.
      rbind (engine_run ((pw_env pw)\<lparr>env_calculate := fixed_quantity_calculate\<rparr>) strat candles cfg'
        (pw_run_id pw seed) symb 1) (\<lambda>(result, st).
      rbind (compute_all_metrics result) (\<lambda>metrics.
      require_metric metrics metric)))))))"

text \<open>
  Collecting the completed tasks: the first one that failed ends the collection with the
  worker error.
\<close>

definition collect_one :: "(int \<Rightarrow> xfloat result) \<Rightarrow> int \<Rightarrow> xfloat list \<Rightarrow> xfloat list result" where
  "collect_one task s acc =
     (case task s of Inl e \<Rightarrow> Inl (RuntimeError ''permutation worker error'')
      | Inr m \<Rightarrow> Inr (acc @ [m]))"

definition sequential_one :: "(int \<Rightarrow> xfloat result) \<Rightarrow> int \<Rightarrow> xfloat list \<Rightarrow> xfloat list result" where
  "sequential_one task s acc = rbind (task s) (\<lambda>m. Inr (acc @ [m]))"

definition permuted_metrics ::
    "(int list \<Rightarrow> pool_run) \<Rightarrow> (int \<Rightarrow> xfloat result) \<Rightarrow> int list \<Rightarrow> xfloat list result" where
  "permuted_metrics pool task seeds =
     (case pool seeds of
        Completed order \<Rightarrow> rfold (collect_one task) order []
      | Broken_after finished \<Rightarrow>
          rbind (rfold (collect_one task) finished []) (\<lambda>_. rfold (sequential_one task) seeds []))"

text \<open>\<open>sorted\<close> on floats, and \<open>list.index\<close>.\<close>

fun insert_float :: "xfloat \<Rightarrow> xfloat list \<Rightarrow> xfloat list" where
  "insert_float x [] = [x]"
| "insert_float x (y # ys) = (if x < y then x # y # ys else y # insert_float x ys)"

definition py_sorted :: "xfloat list \<Rightarrow> xfloat list" where
  "py_sorted xs = fold insert_float xs []"

fun index_of :: "xfloat list \<Rightarrow> xfloat \<Rightarrow> nat result" where
  "index_of [] x = Inl (ValueError ''value is not in list'')"
| "index_of (y # ys) x = (if y = x then Inr 0 else rbind (index_of ys x) (\<lambda>i. Inr (Suc i)))"

definition permutation_statistics :: "xfloat \<Rightarrow> xfloat list \<Rightarrow> permutation_result result" where
  "permutation_statistics actual_metric permuted =
     (let n = length permuted;
          count_gte = length (filter (\<lambda>m. m \<ge> actual_metric) permuted);
          p_value = real (count_gte + 1) / real (n + 1);
          all_metrics = py_sorted (permuted @ [actual_metric])
      in rbind (index_of all_metrics actual_metric) (\<lambda>rank. Inr
        \<lparr>pr_actual_metric = actual_metric, pr_permuted_metrics = permuted, pr_p_value = p_value,
         pr_is_significant = (p_value < 5 / 100),
         pr_percentile = real rank / real (length all_metrics) * 100\<rparr>))"

definition pt_run :: "'s pt_world \<Rightarrow> 's permutation_tester \<Rightarrow> permutation_result result" where
  "pt_run pw t =
     rbind (engine_run ((pw_env pw)\<lparr>env_calculate := fixed_quantity_calculate\<rparr>) (pt_strategy t)
        (pt_candles t) (pt_config t) (pw_run_id pw (pt_seed t - 1)) (pt_symbol t) 1) (\<lambda>(actual_result, st).
     let strat = pw_reset pw (rs_strategy st) in
     rbind (compute_all_metrics actual_result) (\<lambda>actual_metrics.
     rbind (require_metric actual_metrics (pt_metric t)) (\<lambda>actual_metric.
     let log_returns = compute_log_returns (pt_candles t);
         original_prices = map c_adj_close (pt_candles t);
         timestamps = map c_timestamp (pt_candles t);
         seeds = map (\<lambda>i. pt_seed t + i) [0 .. pt_n_permutations t - 1];
         task = run_single_permutation pw (env_parameters (pw_env pw) strat) log_returns
           original_prices timestamps (pt_metric t) (pt_config t) (pt_symbol t)
     in rbind (permuted_metrics (pw_pool pw) task seeds) (permutation_statistics actual_metric))))"

section \<open>Price series\<close>

lemma reconstruct_ratios:
  "\<forall>q \<in> set (p # ps). 0 < q \<Longrightarrow> reconstruct_prices (map ln (price_ratios (p # ps))) p = p # ps"
proof (induction ps arbitrary: p)
  case (Cons q ps)
  then have "p * exp (ln (q / p)) = q" by simp
  with Cons show ?case by simp
qed simp

lemma ratios_reconstruct:
  "0 < p \<Longrightarrow> map ln (price_ratios (reconstruct_prices lrs p)) = lrs"
proof (induction lrs arbitrary: p)
  case (Cons lr lrs)
  obtain ps where ps: "reconstruct_prices lrs (p * exp lr) = (p * exp lr) # ps"
    by (cases lrs) auto
  with Cons.IH [of "p * exp lr"] Cons.prems show ?case by simp
qed simp

lemma length_reconstruct [simp]: "length (reconstruct_prices lrs p) = Suc (length lrs)"
  by (induction lrs arbitrary: p) auto

lemma hd_reconstruct [simp]: "hd (reconstruct_prices lrs p) = p"
  by (cases lrs) auto

lemma last_reconstruct: "last (reconstruct_prices lrs p) = p * exp (sum_list lrs)"
proof (induction lrs arbitrary: p)
  case (Cons lr lrs)
  have "reconstruct_prices lrs (p * exp lr) \<noteq> []" by (cases lrs) auto
  with Cons show ?case by (simp add: exp_add)
qed simp

lemma reconstruct_pos: "0 < p \<Longrightarrow> \<forall>q \<in> set (reconstruct_prices lrs p). 0 < q"
proof (induction lrs arbitrary: p)
  case (Cons lr lrs)
  with Cons.IH [of "p * exp lr"] show ?case by simp
qed simp

lemma length_price_ratios: "length (price_ratios ps) = length ps - 1"
  by (induction ps rule: price_ratios.induct) auto

lemma permutation_candles_valid:
  assumes "\<forall>q \<in> set ps. 0 < q" and "length ps = length ts"
  shows "\<exists>cs. permutation_candles ps ts = Inr cs \<and> map c_timestamp cs = ts \<and>
    map c_adj_close cs = ps \<and> map c_close cs = ps \<and> (\<forall>c \<in> set cs. candle_pos c)"
  using assms(2,1)
  by (induction ps ts rule: list_induct2)
    (auto simp: synthetic_candle_def candle_post_init_def candle_pos_def candle_ok_def)

text \<open>C15: a permutation keeps what it should. When the shuffle permutes its input, the synthetic
  series is a valid series of positive candles with the original timestamps, first and last
  price, and its log-returns are exactly the shuffled ones: the same distribution in another
  order.\<close>

theorem permutation_preserves_distribution:
  assumes "candles \<noteq> []" and "\<forall>c \<in> set candles. 0 < c_adj_close c"
    and "\<And>xs. mset (shuffle seed xs) = mset xs"
  shows "\<exists>cs. permutation_candles (reconstruct_prices (permute_returns shuffle seed
        (compute_log_returns candles)) (c_adj_close (hd candles))) (map c_timestamp candles) = Inr cs \<and>
    map c_timestamp cs = map c_timestamp candles \<and> (\<forall>c \<in> set cs. candle_pos c) \<and>
    c_adj_close (hd cs) = c_adj_close (hd candles) \<and>
    c_adj_close (last cs) = c_adj_close (last candles) \<and>
    mset (compute_log_returns cs) = mset (compute_log_returns candles)"
proof -
  let ?p = "c_adj_close (hd candles)"
  define lrs where "lrs = shuffle seed (compute_log_returns candles)"
  have ms: "mset lrs = mset (compute_log_returns candles)" using assms(3) by (simp add: lrs_def)
  have p: "0 < ?p" using assms(1,2) by simp
  have len: "length lrs = length (compute_log_returns candles)"
    using ms by (rule mset_eq_length)
  then have "Suc (length lrs) = length candles"
    using assms(1) by (cases candles) (simp_all add: compute_log_returns_def length_price_ratios)
  then obtain cs where cs: "permutation_candles (reconstruct_prices lrs ?p) (map c_timestamp candles) = Inr cs"
      "map c_timestamp cs = map c_timestamp candles" "map c_adj_close cs = reconstruct_prices lrs ?p"
      "\<forall>c \<in> set cs. candle_pos c"
    using permutation_candles_valid [OF reconstruct_pos [OF p], of lrs "map c_timestamp candles"] by auto
  have "reconstruct_prices (compute_log_returns candles) ?p = map c_adj_close candles"
    using assms(1,2) reconstruct_ratios [of ?p "map c_adj_close (tl candles)"]
    by (cases candles) (simp_all add: compute_log_returns_def)
  then have "?p * exp (sum_list (compute_log_returns candles)) = last (map c_adj_close candles)"
    by (simp add: last_reconstruct [symmetric])
  moreover have "sum_list lrs = sum_list (compute_log_returns candles)"
    using ms by (metis sum_mset_sum_list)
  ultimately have last: "last (map c_adj_close cs) = last (map c_adj_close candles)"
    using cs(3) by (simp add: last_reconstruct)
  have "cs \<noteq> []" using cs(2) assms(1) by auto
  then have "c_adj_close (hd cs) = ?p" "c_adj_close (last cs) = c_adj_close (last candles)"
    using arg_cong [OF cs(3), of hd] last assms(1) by (simp_all add: hd_map last_map)
  moreover have "compute_log_returns cs = lrs"
    using ratios_reconstruct [OF p] cs(3) by (simp add: compute_log_returns_def)
  ultimately show ?thesis using cs ms by (auto simp: permute_returns_def lrs_def)
qed

theorem permutation_preserves_distribution_witness:
  "\<exists>cs. permutation_candles (reconstruct_prices (permute_returns (\<lambda>s. rev) 0
        (compute_log_returns demo_bars)) 10) [0, 1, 2] = Inr cs \<and> c_adj_close (last cs) = 12"
  using permutation_preserves_distribution [of demo_bars "\<lambda>s. rev" 0]
  by (auto simp: demo_bars_def demo_bar_def)

section \<open>Statistics\<close>

lemma xfloat_total: "x \<noteq> NaN \<Longrightarrow> y \<noteq> NaN \<Longrightarrow> x \<noteq> y \<Longrightarrow> x < y \<or> y < (x :: xfloat)"
  by (cases x; cases y) auto

lemma xfloat_asym: "x < y \<Longrightarrow> \<not> y < (x :: xfloat)"
  by (cases x; cases y) auto

lemma xfloat_not_less_trans:
  "x \<noteq> NaN \<Longrightarrow> y \<noteq> NaN \<Longrightarrow> z \<noteq> NaN \<Longrightarrow> \<not> y < x \<Longrightarrow> \<not> z < y \<Longrightarrow> \<not> z < (x :: xfloat)"
  by (cases x; cases y; cases z) auto

lemma mset_insert_float [simp]: "mset (insert_float x ys) = add_mset x (mset ys)"
  by (induction ys) auto

lemma insert_float_sorted:
  assumes "sorted_wrt (\<lambda>a b. \<not> b < a) ys" and "x \<noteq> NaN" and "NaN \<notin> set ys"
  shows "sorted_wrt (\<lambda>a b. \<not> b < a) (insert_float x ys)"
  using assms
proof (induction ys)
  case (Cons y ys)
  show ?case
  proof (cases "x < y")
    case True
    have "\<not> z < x" if "z \<in> set ys" for z
      using that Cons.prems True xfloat_asym [OF True] xfloat_not_less_trans [of x y z] by auto
    with True Cons.prems xfloat_asym [OF True] show ?thesis by simp
  next
    case False
    have "set (insert_float x ys) = insert x (set ys)"
      using mset_insert_float [of x ys] by (metis set_mset_add_mset_insert set_mset_mset)
    with False Cons show ?thesis by simp
  qed
qed simp

lemma py_sorted_props:
  assumes "NaN \<notin> set xs"
  shows "sorted_wrt (\<lambda>a b. \<not> b < a) (py_sorted xs) \<and> mset (py_sorted xs) = mset xs"
proof -
  have "NaN \<notin> set xs \<Longrightarrow> NaN \<notin> set ys \<Longrightarrow> sorted_wrt (\<lambda>a b. \<not> b < a) ys \<Longrightarrow>
    sorted_wrt (\<lambda>a b. \<not> b < a) (fold insert_float xs ys) \<and>
    mset (fold insert_float xs ys) = mset xs + mset ys" for ys
  proof (induction xs arbitrary: ys)
    case (Cons x xs)
    have "set (insert_float x ys) = insert x (set ys)"
      using mset_insert_float [of x ys] by (metis set_mset_add_mset_insert set_mset_mset)
    moreover have "x \<noteq> NaN" using Cons.prems(1) by auto
    ultimately show ?case
      using Cons.IH [of "insert_float x ys"] Cons.prems insert_float_sorted [of ys x] by simp
  qed simp
  from this [of "[]"] assms show ?thesis by (simp add: py_sorted_def)
qed

lemma index_of_sorted:
  assumes "sorted_wrt (\<lambda>a b. \<not> b < a) ys" and "NaN \<notin> set ys" and "x \<in> set ys"
  shows "index_of ys x = Inr (length (filter (\<lambda>y. y < x) ys))"
  using assms
proof (induction ys)
  case (Cons y ys)
  show ?case
  proof (cases "y = x")
    case True
    then have "filter (\<lambda>y. y < x) (y # ys) = []"
      using Cons.prems xfloat_asym [of x x] by (auto simp: filter_empty_conv)
    with True show ?thesis by simp
  next
    case False
    with Cons.prems have "x \<in> set ys" "\<not> x < y" by auto
    with False Cons.prems have "y < x" using xfloat_total [of y x] by auto
    with False Cons \<open>x \<in> set ys\<close> show ?thesis by simp
  qed
qed simp

lemma permutation_statistics_eq:
  assumes "NaN \<notin> set (x # ms)"
  shows "permutation_statistics x ms = Inr
    \<lparr>pr_actual_metric = x, pr_permuted_metrics = ms,
     pr_p_value = real (length (filter (\<lambda>m. x \<le> m) ms) + 1) / real (length ms + 1),
     pr_is_significant = (real (length (filter (\<lambda>m. x \<le> m) ms) + 1) / real (length ms + 1) < 5 / 100),
     pr_percentile = real (length (filter (\<lambda>m. m < x) ms)) / real (length ms + 1) * 100\<rparr>"
proof -
  note s = py_sorted_props [of "ms @ [x]"]
  have "set (py_sorted (ms @ [x])) = set (ms @ [x])"
    using s assms by (intro mset_eq_setD) auto
  then have "x \<in> set (py_sorted (ms @ [x]))" "NaN \<notin> set (py_sorted (ms @ [x]))"
    using assms by auto
  then have "index_of (py_sorted (ms @ [x])) x = Inr (length (filter (\<lambda>y. y < x) (py_sorted (ms @ [x]))))"
    using s assms index_of_sorted by auto
  moreover have "length (filter (\<lambda>y. y < x) (py_sorted (ms @ [x]))) = length (filter (\<lambda>y. y < x) ms)"
  proof -
    have "mset (filter (\<lambda>y. y < x) (py_sorted (ms @ [x]))) = mset (filter (\<lambda>y. y < x) (ms @ [x]))"
      using s assms by (simp add: mset_filter)
    then have "length (filter (\<lambda>y. y < x) (py_sorted (ms @ [x]))) = length (filter (\<lambda>y. y < x) (ms @ [x]))"
      by (rule mset_eq_length)
    then show ?thesis using xfloat_asym [of x x] by auto
  qed
  moreover have "length (py_sorted (ms @ [x])) = length ms + 1"
    using s assms mset_eq_length [of "py_sorted (ms @ [x])" "ms @ [x]"] by auto
  ultimately show ?thesis by (simp add: permutation_statistics_def Let_def)
qed



section \<open>The pool\<close>

text \<open>What the tester may assume of the pool: completed tasks are exactly the submitted ones.\<close>

definition pool_ok :: "(int list \<Rightarrow> pool_run) \<Rightarrow> bool" where
  "pool_ok pool \<longleftrightarrow> (\<forall>seeds order. pool seeds = Completed order \<longrightarrow> mset order = mset seeds)"

lemma collect_one_simps:
  "collect_one task s acc = Inr acc' \<longleftrightarrow> (\<exists>m. task s = Inr m \<and> acc' = acc @ [m])"
  "sequential_one task s acc = Inr acc' \<longleftrightarrow> (\<exists>m. task s = Inr m \<and> acc' = acc @ [m])"
  by (auto simp: collect_one_def sequential_one_def result_simps split: sum.splits)

lemma rfold_collect:
  "rfold (collect_one task) order acc = Inr ms \<Longrightarrow>
    ms = acc @ map (\<lambda>s. projr (task s)) order \<and> (\<forall>s \<in> set order. \<exists>m. task s = Inr m)"
proof (induction order arbitrary: acc)
  case (Cons s order)
  then obtain m where m: "task s = Inr m" "rfold (collect_one task) order (acc @ [m]) = Inr ms"
    by (auto simp: result_simps collect_one_simps)
  with Cons.IH [OF m(2)] show ?case by auto
qed simp

lemma rfold_sequential:
  "rfold (sequential_one task) seeds acc = Inr ms \<Longrightarrow>
    ms = acc @ map (\<lambda>s. projr (task s)) seeds \<and> (\<forall>s \<in> set seeds. \<exists>m. task s = Inr m)"
proof (induction seeds arbitrary: acc)
  case (Cons s order)
  then obtain m where m: "task s = Inr m" "rfold (sequential_one task) order (acc @ [m]) = Inr ms"
    by (auto simp: result_simps collect_one_simps)
  with Cons.IH [OF m(2)] show ?case by auto
qed simp

lemma permuted_metrics_mset:
  assumes "pool_ok pool" and "permuted_metrics pool task seeds = Inr ms"
  shows "mset ms = image_mset (\<lambda>s. projr (task s)) (mset seeds)"
proof (cases "pool seeds")
  case (Completed order)
  then have "ms = map (\<lambda>s. projr (task s)) order" "mset order = mset seeds"
    using assms rfold_collect [of task order "[]" ms] by (auto simp: permuted_metrics_def pool_ok_def)
  then show ?thesis by simp
next
  case (Broken_after finished)
  then have "rfold (sequential_one task) seeds [] = Inr ms"
    using assms(2) by (auto simp: permuted_metrics_def result_simps)
  from rfold_sequential [OF this] show ?thesis by simp
qed

text \<open>The result does not depend on scheduling. Whatever order the workers complete in, and
  whether the pool breaks and every seed is run again sequentially, a test that returns has the
  same sample (as a multiset), p-value, significance and percentile.\<close>

theorem permutation_scheduling_irrelevant:
  assumes "pool_ok pool1" and "pool_ok pool2"
    and "permuted_metrics pool1 task seeds = Inr ms1" and "permuted_metrics pool2 task seeds = Inr ms2"
    and "permutation_statistics x ms1 = Inr r1" and "permutation_statistics x ms2 = Inr r2"
    and "NaN \<notin> set (x # ms1)"
  shows "mset (pr_permuted_metrics r1) = mset (pr_permuted_metrics r2) \<and>
    pr_p_value r1 = pr_p_value r2 \<and> pr_is_significant r1 = pr_is_significant r2 \<and>
    pr_percentile r1 = pr_percentile r2"
proof -
  have ms: "mset ms1 = mset ms2"
    using permuted_metrics_mset assms(1-4) by metis
  then have nan2: "NaN \<notin> set (x # ms2)" using assms(7) by (auto dest: mset_eq_setD)
  have "length (filter P ms1) = length (filter P ms2)" for P
    using ms by (metis mset_filter size_mset)
  moreover have "length ms1 = length ms2" using ms by (rule mset_eq_length)
  ultimately show ?thesis
    using assms(5,6) permutation_statistics_eq [OF assms(7)] permutation_statistics_eq [OF nan2] ms
    by auto
qed

theorem permutation_scheduling_irrelevant_witness:
  "\<exists>r1 r2. permutation_statistics (Fin 1) [Fin 0, Fin 2] = Inr r1 \<and>
    permutation_statistics (Fin 1) [Fin 2, Fin 0] = Inr r2 \<and> pr_percentile r1 = pr_percentile r2"
proof -
  let ?task = "\<lambda>s. Inr (Fin (real_of_int s)) :: xfloat result"
  have ok: "pool_ok (\<lambda>seeds. Broken_after [])" "pool_ok (\<lambda>seeds. Completed (rev seeds))"
    by (simp_all add: pool_ok_def)
  have ms: "permuted_metrics (\<lambda>seeds. Broken_after []) ?task [0, 2] = Inr [Fin 0, Fin 2]"
      "permuted_metrics (\<lambda>seeds. Completed (rev seeds)) ?task [0, 2] = Inr [Fin 2, Fin 0]"
    by (simp_all add: permuted_metrics_def collect_one_def sequential_one_def)
  obtain r1 r2 where r: "permutation_statistics (Fin 1) [Fin 0, Fin 2] = Inr r1"
      "permutation_statistics (Fin 1) [Fin 2, Fin 0] = Inr r2"
    using permutation_statistics_eq [of "Fin 1"] by simp
  from permutation_scheduling_irrelevant [OF ok ms r] r show ?thesis by auto
qed

end
