(* ===== verification/Job_Store.thy ===== *)
theory Job_Store
  imports Py_Prelude
begin

text \<open>
  The in-memory job store of \<open>src/api/jobs.py\<close>. The lock makes \<open>get\<close> and \<open>set\<close> atomic, so an
  execution of any number of threads is a sequence of these operations, each at a reading of
  the monotonic clock; \<open>js_reach\<close> is the set of stores that such sequences reach. The
  abstract specification is the map from job identifiers to the job last set.
\<close>

section \<open>State and operations\<close>

record 'r async_job =
  aj_job_id :: string
  aj_status :: string
  aj_result :: "'r option"
  aj_error :: "string option"

record 'r job_entry =
  je_job :: "'r async_job"
  je_updated_at :: real

record 'r job_store =
  js_max_terminal_jobs :: int
  js_terminal_ttl_seconds :: real
  js_entries :: "(string, 'r job_entry) dict"

definition terminal :: "'r async_job \<Rightarrow> bool" where
  "terminal job \<longleftrightarrow> aj_status job \<in> {''done'', ''error''}"

definition job_store_init :: "int \<Rightarrow> xfloat \<Rightarrow> 'r job_store result" where
  "job_store_init max_terminal_jobs terminal_ttl_seconds =
     (if max_terminal_jobs < 1 then Inl (ValueError ''max_terminal_jobs must be positive'')
      else if \<not> isfinite terminal_ttl_seconds \<or> terminal_ttl_seconds \<le> Fin 0
        then Inl (ValueError ''terminal_ttl_seconds must be finite and positive'')
      else Inr \<lparr>js_max_terminal_jobs = max_terminal_jobs,
                js_terminal_ttl_seconds = fin_val terminal_ttl_seconds, js_entries = []\<rparr>)"

definition without_expired ::
    "'r job_store \<Rightarrow> (string, 'r job_entry) dict \<Rightarrow> real \<Rightarrow> (string, 'r job_entry) dict" where
  "without_expired s entries now = filter (\<lambda>(job_id, entry).
     \<not> terminal (je_job entry) \<or> now - je_updated_at entry < js_terminal_ttl_seconds s) entries"

definition within_terminal_capacity ::
    "'r job_store \<Rightarrow> (string, 'r job_entry) dict \<Rightarrow> (string, 'r job_entry) dict" where
  "within_terminal_capacity s entries =
     (let term = sort_key (\<lambda>(job_id, entry). je_updated_at entry)
            (filter (\<lambda>(job_id, entry). terminal (je_job entry)) entries);
          excess = int (length term) - js_max_terminal_jobs s
      in if excess \<le> 0 then entries
         else let evicted = map fst (take (nat excess) term)
              in filter (\<lambda>(job_id, entry). job_id \<notin> set evicted) entries)"

definition job_get :: "'r job_store \<Rightarrow> string \<Rightarrow> real \<Rightarrow> 'r job_store \<times> 'r async_job option" where
  "job_get s job_id now =
     (let entries = without_expired s (js_entries s) now
      in (s\<lparr>js_entries := entries\<rparr>, map_option je_job (dict_get entries job_id)))"

definition job_set :: "'r job_store \<Rightarrow> string \<Rightarrow> 'r async_job \<Rightarrow> real \<Rightarrow> 'r job_store" where
  "job_set s job_id job now =
     (let entries = without_expired s (js_entries s) now;
          entries = dict_set entries job_id \<lparr>je_job = job, je_updated_at = now\<rparr>
      in s\<lparr>js_entries := within_terminal_capacity s entries\<rparr>)"

section \<open>Filtering dictionaries\<close>

lemma dict_ok_filter: "dict_ok d \<Longrightarrow> dict_ok (filter P d)"
  by (simp add: dict_ok_def distinct_map_filter)

lemma dict_get_filter:
  "dict_ok d \<Longrightarrow> dict_get (filter P d) k = (case dict_get d k of None \<Rightarrow> None
     | Some v \<Rightarrow> if P (k, v) then Some v else None)"
proof (induction d)
  case (Cons i d)
  have rest: "dict_get (filter P d) k = (case dict_get d k of None \<Rightarrow> None
     | Some v \<Rightarrow> if P (k, v) then Some v else None)"
    using Cons by (simp add: dict_ok_def)
  show ?case
  proof (cases "fst i = k")
    case True
    then have "dict_get d k = None"
      using Cons.prems by (auto simp: dict_ok_def dict_get_def map_of_eq_None_iff)
    with True rest show ?thesis by (cases i) (auto simp: dict_get_def)
  next
    case False
    with rest show ?thesis by (cases i) (auto simp: dict_get_def)
  qed
qed simp

section \<open>Capacity\<close>

definition terminals :: "(string, 'r job_entry) dict \<Rightarrow> (string, 'r job_entry) dict" where
  "terminals d = filter (\<lambda>(k, e). terminal (je_job e)) d"

lemma evicted_terminal:
  assumes "dict_ok d" and "k \<in> set (map fst (take n (sort_key f (terminals d))))"
  shows "\<exists>e. dict_get d k = Some e \<and> terminal (je_job e)"
proof -
  from assms(2) obtain e where "(k, e) \<in> set (sort_key f (terminals d))"
    by (auto dest: in_set_takeD)
  then have "(k, e) \<in> set d" "terminal (je_job e)" by (auto simp: terminals_def)
  with assms(1) show ?thesis using dict.get_items by fastforce
qed

lemma capacity_active:
  assumes "dict_ok d" and "dict_get d k = Some e" and "\<not> terminal (je_job e)"
  shows "dict_get (within_terminal_capacity s d) k = Some e"
  using assms evicted_terminal [OF assms(1), of k]
  by (auto simp: within_terminal_capacity_def terminals_def [symmetric] Let_def dict_get_filter)

lemma capacity_subset:
  "dict_ok d \<Longrightarrow> dict_get (within_terminal_capacity s d) k = Some e \<Longrightarrow> dict_get d k = Some e"
  by (auto simp: within_terminal_capacity_def Let_def dict_get_filter split: if_splits option.splits)

lemma capacity_dict_ok: "dict_ok d \<Longrightarrow> dict_ok (within_terminal_capacity s d)"
  by (auto simp: within_terminal_capacity_def Let_def dict_ok_filter)

lemma length_filter_sort_key: "length (filter P (sort_key f xs)) = length (filter P xs)"
proof -
  have "mset (filter P (sort_key f xs)) = mset (filter P xs)" by simp
  then show ?thesis by (metis size_mset)
qed

lemma distinct_terminals:
  assumes "dict_ok d"
  shows "distinct (map fst (sort_key f (terminals d)))"
proof -
  have "distinct (map fst (terminals d))"
    using dict_ok_filter [OF assms] by (simp add: terminals_def dict_ok_def)
  moreover have "mset (map fst (sort_key f (terminals d))) = mset (map fst (terminals d))" by simp
  ultimately show ?thesis by (metis mset_eq_imp_distinct_iff)
qed

lemma capacity_bound:
  assumes ok: "dict_ok d" and "0 \<le> js_max_terminal_jobs s"
  shows "int (length (terminals (within_terminal_capacity s d))) \<le> js_max_terminal_jobs s"
proof -
  let ?t = "sort_key (\<lambda>(k, e). je_updated_at e) (terminals d)"
  define n where "n = nat (int (length ?t) - js_max_terminal_jobs s)"
  show ?thesis
  proof (cases "int (length ?t) \<le> js_max_terminal_jobs s")
    case True
    then show ?thesis by (simp add: within_terminal_capacity_def terminals_def [symmetric] Let_def)
  next
    case False
    let ?ev = "map fst (take n ?t)"
    note dist = distinct_terminals [OF ok, of "\<lambda>(k, e). je_updated_at e"]
    have "length (filter (\<lambda>i. fst i \<notin> set ?ev) ?t) = length (drop n ?t)"
    proof -
      have "filter (\<lambda>i. fst i \<notin> set ?ev) (take n ?t @ drop n ?t) = drop n ?t"
      proof -
        have "filter (\<lambda>i. fst i \<notin> set ?ev) (take n ?t) = []"
          by (auto simp: filter_empty_conv)
        moreover have "filter (\<lambda>i. fst i \<notin> set ?ev) (drop n ?t) = drop n ?t"
        proof (rule filter_True, rule ballI)
          fix i
          assume "i \<in> set (drop n ?t)"
          then have "fst i \<in> set (drop n (map fst ?t))" by (auto simp: drop_map)
          with dist have "fst i \<notin> set (take n (map fst ?t))"
            by (metis disjoint_iff set_take_disj_set_drop_if_distinct le_refl)
          then show "fst i \<notin> set ?ev" by (simp add: take_map)
        qed
        ultimately show ?thesis by (simp only: filter_append append_Nil)
      qed
      then show ?thesis by simp
    qed
    moreover have "length (filter (\<lambda>i. fst i \<notin> set ?ev) ?t)
        = length (filter (\<lambda>i. fst i \<notin> set ?ev) (terminals d))"
      by (rule length_filter_sort_key)
    ultimately have "length (terminals (filter (\<lambda>(k, e). k \<notin> set ?ev) d)) = length ?t - n"
      by (simp add: terminals_def filter_filter split_def conj_commute)
    moreover have "int (length ?t - n) \<le> js_max_terminal_jobs s" using False assms(2) by (simp add: n_def)
    ultimately show ?thesis
      using False by (simp add: within_terminal_capacity_def terminals_def [symmetric] Let_def n_def)
  qed
qed

section \<open>Executions\<close>

inductive js_reach ::
    "'r job_store \<Rightarrow> real \<Rightarrow> (string \<Rightarrow> 'r async_job option) \<Rightarrow> 'r job_store \<Rightarrow> bool" for s0 where
  js_start: "js_reach s0 t (\<lambda>_. None) s0"
| js_get: "js_reach s0 t last_set s \<Longrightarrow> t \<le> now \<Longrightarrow> js_reach s0 now last_set (fst (job_get s k now))"
| js_set: "js_reach s0 t last_set s \<Longrightarrow> t \<le> now \<Longrightarrow>
    js_reach s0 now (last_set(k \<mapsto> job)) (job_set s k job now)"

definition store_inv :: "real \<Rightarrow> (string \<Rightarrow> 'r async_job option) \<Rightarrow> 'r job_store \<Rightarrow> bool" where
  "store_inv t last_set s \<longleftrightarrow> 1 \<le> js_max_terminal_jobs s \<and> 0 < js_terminal_ttl_seconds s \<and>
     dict_ok (js_entries s) \<and> int (length (terminals (js_entries s))) \<le> js_max_terminal_jobs s \<and>
     (\<forall>k e. dict_get (js_entries s) k = Some e \<longrightarrow> last_set k = Some (je_job e) \<and> je_updated_at e \<le> t) \<and>
     (\<forall>k job. last_set k = Some job \<longrightarrow> \<not> terminal job \<longrightarrow>
        (\<exists>e. dict_get (js_entries s) k = Some e \<and> je_job e = job))"

lemma without_expired_get:
  assumes "dict_ok d"
  shows "dict_get (without_expired s d now) k = (case dict_get d k of None \<Rightarrow> None
    | Some e \<Rightarrow> if \<not> terminal (je_job e) \<or> now - je_updated_at e < js_terminal_ttl_seconds s
        then Some e else None)"
proof -
  let ?P = "\<lambda>(job_id, entry). \<not> terminal (je_job entry) \<or> now - je_updated_at entry < js_terminal_ttl_seconds s"
  show ?thesis
    unfolding without_expired_def dict_get_filter [OF assms, of ?P k] by (simp split: option.split)
qed

lemma length_terminals_filter: "length (terminals (filter P d)) \<le> length (terminals d)"
proof -
  have "terminals (filter P d) = filter P (terminals d)"
    by (simp add: terminals_def filter_filter conj_commute)
  then show ?thesis by simp
qed

lemma without_expired_inv:
  assumes "store_inv t last_set s" and "t \<le> now"
  shows "store_inv now last_set (s\<lparr>js_entries := without_expired s (js_entries s) now\<rparr>)"
proof -
  have ok: "dict_ok (js_entries s)" using assms(1) by (simp add: store_inv_def)
  have "length (terminals (without_expired s (js_entries s) now)) \<le> length (terminals (js_entries s))"
    unfolding without_expired_def by (rule length_terminals_filter)
  with assms show ?thesis
    by (fastforce simp: store_inv_def without_expired_get [OF ok] dict_ok_filter
        without_expired_def [THEN arg_cong [of _ _ dict_ok]] split: option.splits if_splits)
qed

lemma job_set_inv:
  assumes "store_inv t last_set s" and "t \<le> now"
  shows "store_inv now (last_set(k \<mapsto> job)) (job_set s k job now)"
proof -
  let ?w = "without_expired s (js_entries s) now"
  let ?d = "dict_set ?w k \<lparr>je_job = job, je_updated_at = now\<rparr>"
  note w = without_expired_inv [OF assms]
  have okw: "dict_ok ?w" using w by (simp add: store_inv_def)
  then have ok: "dict_ok ?d" by (rule dict.ok_set)
  have get: "dict_get ?d j = (if j = k then Some \<lparr>je_job = job, je_updated_at = now\<rparr> else dict_get ?w j)" for j
    by (rule dict.get_set_item)
  have "int (length (terminals (within_terminal_capacity s ?d))) \<le> js_max_terminal_jobs s"
    using capacity_bound [OF ok] w by (simp add: store_inv_def)
  moreover have "(last_set(k \<mapsto> job)) j = Some (je_job e) \<and> je_updated_at e \<le> now"
    if "dict_get (within_terminal_capacity s ?d) j = Some e" for j e
    using capacity_subset [OF ok that] w by (auto simp: get store_inv_def split: if_splits)
  moreover have "\<exists>e. dict_get (within_terminal_capacity s ?d) j = Some e \<and> je_job e = job'"
    if "(last_set(k \<mapsto> job)) j = Some job'" "\<not> terminal job'" for j job'
  proof -
    have "\<exists>e. dict_get ?d j = Some e \<and> je_job e = job'"
    proof (cases "j = k")
      case True
      with that show ?thesis by (simp add: dict.get_set_item)
    next
      case False
      with that show ?thesis using w by (simp add: dict.get_set_item store_inv_def)
    qed
    then obtain e where "dict_get ?d j = Some e" "je_job e = job'" by blast
    with that(2) show ?thesis using capacity_active [OF ok] by auto
  qed
  ultimately show ?thesis
    using w capacity_dict_ok [OF ok] by (simp add: job_set_def store_inv_def Let_def)
qed

lemma js_reach_inv:
  assumes "js_reach s0 t last_set s" and "store_inv t0 (\<lambda>_. None) s0" and "js_entries s0 = []"
  shows "store_inv t last_set s"
  using assms(1)
proof (induction rule: js_reach.induct)
  case (js_start t)
  with assms(2,3) show ?case by (simp add: store_inv_def)
next
  case (js_get t last_set s now k)
  then show ?case using without_expired_inv by (auto simp: job_get_def Let_def)
next
  case (js_set t last_set s now k job)
  then show ?case using job_set_inv by blast
qed

lemma job_store_init_inv:
  assumes "job_store_init n ttl = Inr s0"
  shows "store_inv t (\<lambda>_. None) s0" and "js_entries s0 = []"
  using assms by (cases ttl; auto simp: job_store_init_def store_inv_def terminals_def split: if_splits)+

text \<open>C17: the store implements its specification. In every execution of a store, \<open>get\<close> returns
  either the job last set under the identifier or nothing, and nothing only if no job was set
  or the last one is terminal: active jobs are never lost. At most \<open>max_terminal_jobs\<close>
  terminal jobs are kept.\<close>

theorem job_store_refines:
  assumes "job_store_init n ttl = Inr s0" and "js_reach s0 t last_set s" and "t \<le> now"
  shows "(case snd (job_get s k now) of
       Some job \<Rightarrow> last_set k = Some job
     | None \<Rightarrow> (case last_set k of None \<Rightarrow> True | Some job \<Rightarrow> terminal job)) \<and>
    int (length (terminals (js_entries s))) \<le> js_max_terminal_jobs s"
proof -
  have inv: "store_inv t last_set s"
    using js_reach_inv [OF assms(2)] job_store_init_inv [OF assms(1)] by blast
  then have "dict_ok (js_entries s)" by (simp add: store_inv_def)
  with inv show ?thesis
    by (fastforce simp: job_get_def store_inv_def without_expired_get Let_def
        split: option.splits if_splits)
qed

lemma job_store_refines_witness:
  "(case snd (job_get (job_set \<lparr>js_max_terminal_jobs = 1, js_terminal_ttl_seconds = 60, js_entries = []\<rparr>
        ''j1'' \<lparr>aj_job_id = ''j1'', aj_status = ''running'', aj_result = None :: nat option, aj_error = None\<rparr> 0) ''j1'' 5) of
       Some job \<Rightarrow> aj_status job = ''running'' | None \<Rightarrow> False)"
proof -
  let ?s0 = "\<lparr>js_max_terminal_jobs = 1, js_terminal_ttl_seconds = 60, js_entries = []\<rparr> :: nat job_store"
  let ?j = "\<lparr>aj_job_id = ''j1'', aj_status = ''running'', aj_result = None, aj_error = None\<rparr> :: nat async_job"
  have init: "job_store_init 1 (Fin 60) = Inr ?s0" by (simp add: job_store_init_def)
  have reach: "js_reach ?s0 0 (Map.empty(''j1'' \<mapsto> ?j)) (job_set ?s0 ''j1'' ?j 0)"
    by (rule js_set [OF js_start [of ?s0 0]]) simp
  show ?thesis
    using job_store_refines [OF init reach, of 5 "''j1''"] by (auto simp: terminal_def split: option.splits)
qed

text \<open>The newest terminal job is not the one that is evicted.\<close>

lemma newest_kept:
  assumes ok: "dict_ok d" and k: "dict_get d k = Some e"
    and newest: "\<And>j f. dict_get d j = Some f \<Longrightarrow> j \<noteq> k \<Longrightarrow> je_updated_at f < je_updated_at e"
    and "1 \<le> js_max_terminal_jobs s"
  shows "dict_get (within_terminal_capacity s d) k = Some e"
proof -
  let ?t = "sort_key (\<lambda>(k, e). je_updated_at e) (terminals d)"
  define n where "n = nat (int (length ?t) - js_max_terminal_jobs s)"
  note dist = distinct_terminals [OF ok, of "\<lambda>(k, e). je_updated_at e"]
  have "k \<notin> set (map fst (take n ?t))" if "js_max_terminal_jobs s < int (length ?t)"
  proof
    assume "k \<in> set (map fst (take n ?t))"
    then obtain i where i: "i < n" "i < length ?t" "fst (?t ! i) = k"
      by (auto simp: in_set_conv_nth)
    have last: "i < length ?t - 1" using i that assms(4) by (simp add: n_def)
    obtain j f where jf: "?t ! (length ?t - 1) = (j, f)" by fastforce
    have mem: "(j, f) \<in> set d" and memk: "?t ! i \<in> set d"
      using jf last nth_mem [of "length ?t - 1" ?t] nth_mem [OF i(2)] by (auto simp: terminals_def)
    have "j \<noteq> k"
    proof
      assume "j = k"
      then have "map fst ?t ! i = map fst ?t ! (length ?t - 1)" using i last jf by simp
      moreover have "i < length (map fst ?t)" "length ?t - 1 < length (map fst ?t)" using last by (simp_all del: length_sort)
      ultimately have "i = length ?t - 1" using nth_eq_iff_index_eq [OF dist] by blast
      with last show False by simp
    qed
    moreover have "dict_get d j = Some f" using mem ok dict.get_items by fastforce
    ultimately have "je_updated_at f < je_updated_at e" by (rule newest [rotated])
    moreover have "?t ! i = (k, e)"
      using memk i(3) k ok dict.get_items [of d k] by (metis option.inject prod.collapse)
    moreover have "map (\<lambda>(k, e). je_updated_at e) ?t ! i \<le> map (\<lambda>(k, e). je_updated_at e) ?t ! (length ?t - 1)"
      by (rule sorted_nth_mono [OF sorted_sort_key]) (use last in auto)
    ultimately show False using i last jf by auto
  qed
  with ok k show ?thesis
    by (auto simp: within_terminal_capacity_def terminals_def [symmetric] Let_def dict_get_filter n_def)
qed

text \<open>A result is available for its lifetime. A job that is set at a reading of the clock
  later than that of every earlier operation is returned by \<open>get\<close> until the time to live has
  passed, however many terminal jobs the store holds.\<close>

theorem set_job_is_returned:
  assumes "job_store_init n ttl = Inr s0" and "js_reach s0 t last_set s" and "t < now"
    and "now' - now < js_terminal_ttl_seconds s"
  shows "snd (job_get (job_set s k job now) k now') = Some job"
proof -
  let ?w = "without_expired s (js_entries s) now"
  let ?d = "dict_set ?w k \<lparr>je_job = job, je_updated_at = now\<rparr>"
  have inv: "store_inv t last_set s"
    using js_reach_inv [OF assms(2)] job_store_init_inv [OF assms(1)] by blast
  then have ok: "dict_ok (js_entries s)" by (simp add: store_inv_def)
  then have okd: "dict_ok ?d" by (simp add: dict.ok_set without_expired_def dict_ok_filter)
  have older: "je_updated_at f < now" if "dict_get ?w j = Some f" for j f
    using that inv assms(3) by (force simp: without_expired_get [OF ok] store_inv_def split: option.splits if_splits)
  have "dict_get (within_terminal_capacity s ?d) k = Some \<lparr>je_job = job, je_updated_at = now\<rparr>"
    by (rule newest_kept [OF okd]) (use inv older in \<open>auto simp: dict.get_set_item store_inv_def\<close>)
  then show ?thesis
    using assms(4) by (simp add: job_get_def job_set_def Let_def without_expired_get capacity_dict_ok [OF okd])
qed

lemma set_job_is_returned_witness:
  "snd (job_get (job_set (job_set \<lparr>js_max_terminal_jobs = 1, js_terminal_ttl_seconds = 60, js_entries = []\<rparr>
        ''a'' \<lparr>aj_job_id = ''a'', aj_status = ''done'', aj_result = Some (1 :: nat), aj_error = None\<rparr> 0)
      ''b'' \<lparr>aj_job_id = ''b'', aj_status = ''done'', aj_result = Some 2, aj_error = None\<rparr> 1) ''b'' 30)
   = Some \<lparr>aj_job_id = ''b'', aj_status = ''done'', aj_result = Some 2, aj_error = None\<rparr>"
proof -
  let ?s0 = "\<lparr>js_max_terminal_jobs = 1, js_terminal_ttl_seconds = 60, js_entries = []\<rparr> :: nat job_store"
  let ?a = "\<lparr>aj_job_id = ''a'', aj_status = ''done'', aj_result = Some 1, aj_error = None\<rparr> :: nat async_job"
  have init: "job_store_init 1 (Fin 60) = Inr ?s0" by (simp add: job_store_init_def)
  have reach: "js_reach ?s0 0 (Map.empty(''a'' \<mapsto> ?a)) (job_set ?s0 ''a'' ?a 0)"
    by (rule js_set [OF js_start [of ?s0 0]]) simp
  show ?thesis
    by (rule set_job_is_returned [OF init reach]) (simp_all add: job_set_def Let_def)
qed

end
