(* ===== verification/Adjustments.thy ===== *)
theory Adjustments
  imports Py_Prelude
begin

text \<open>
  Corporate-action adjustments of OHLCV frames, \<open>src/data/adjustments.py\<close>. A frame is its index
  and its columns in order; columns have the length of the index. A warning is the date and the
  size of the gap, which the source formats as text.
\<close>

section \<open>Model\<close>

record price_frame =
  fr_index :: "datetime list"
  fr_columns :: "(string, real list) dict"

definition price_names :: "string list" where
  "price_names = [''open'', ''high'', ''low'', ''close'', ''adj_close'']"

definition price_cols :: "price_frame \<Rightarrow> string list" where
  "price_cols df = filter (\<lambda>c. dict_get (fr_columns df) c \<noteq> None) price_names"

text \<open>\<open>for col in cols: df[col] = f(df[col])\<close> on columns that exist.\<close>

definition update_column :: "(real list \<Rightarrow> real list) \<Rightarrow> string \<Rightarrow> price_frame \<Rightarrow> price_frame" where
  "update_column f col df = (case dict_get (fr_columns df) col of None \<Rightarrow> df
     | Some v \<Rightarrow> df\<lparr>fr_columns := dict_set (fr_columns df) col (f v)\<rparr>)"

definition adjust_for_splits :: "price_frame \<Rightarrow> real \<Rightarrow> price_frame result" where
  "adjust_for_splits df split_factor =
     (if split_factor \<le> 0 then Inl (ValueError ''split_factor must be positive'')
      else let df = fold (update_column (map (\<lambda>x. x / split_factor))) (price_cols df) df
           in Inr (if dict_get (fr_columns df) ''volume'' \<noteq> None
                   then update_column (map (\<lambda>x. x * split_factor)) ''volume'' df else df))"

definition reference_close :: "price_frame \<Rightarrow> datetime \<Rightarrow> real option" where
  "reference_close df ex_date =
     (case dict_get (fr_columns df) ''close'' of
        None \<Rightarrow> None
      | Some close \<Rightarrow>
          (case filter (\<lambda>(t, p). ex_date \<le> t) (zip (fr_index df) close) of
             (t, p) # _ \<Rightarrow> Some p
           | [] \<Rightarrow> (case close of [] \<Rightarrow> None | p # _ \<Rightarrow> Some p)))"

definition scale_before :: "datetime list \<Rightarrow> datetime \<Rightarrow> real \<Rightarrow> real list \<Rightarrow> real list" where
  "scale_before index ex_date factor v =
     map (\<lambda>(t, x). if t < ex_date then x * factor else x) (zip index v)"

definition adjust_for_dividends :: "price_frame \<Rightarrow> real \<Rightarrow> datetime \<Rightarrow> price_frame result" where
  "adjust_for_dividends df dividend ex_date =
     (if dividend < 0 then Inl (ValueError ''dividend must be non-negative'')
      else (case reference_close df ex_date of
          None \<Rightarrow> Inr df
        | Some ref_close \<Rightarrow>
            if ref_close = 0 then Inr df
            else let factor = (ref_close - dividend) / ref_close
                 in Inr (fold (update_column (scale_before (fr_index df) ex_date factor)) (price_cols df) df)))"

text \<open>\<open>pct_change\<close>: a change from zero is infinite, or not a number if nothing changed.\<close>

definition pct_change :: "real \<Rightarrow> real \<Rightarrow> xfloat" where
  "pct_change prev cur = (if prev \<noteq> 0 then Fin ((cur - prev) / prev)
     else if cur = 0 then NaN else if cur > 0 then PosInf else NegInf)"

fun xabs :: "xfloat \<Rightarrow> xfloat" where
  "xabs (Fin x) = Fin \<bar>x\<bar>"
| "xabs NegInf = PosInf"
| "xabs x = x"

fun pct_changes :: "datetime list \<Rightarrow> real list \<Rightarrow> (datetime \<times> xfloat) list" where
  "pct_changes (s # t # ts) (p # q # ps) = (t, pct_change p q) # pct_changes (t # ts) (q # ps)"
| "pct_changes _ _ = []"

definition validate_adjustment :: "price_frame \<Rightarrow> real \<Rightarrow> (datetime \<times> xfloat) list" where
  "validate_adjustment df threshold =
     (case dict_get (fr_columns df) ''close'' of
        None \<Rightarrow> []
      | Some close \<Rightarrow> if length (fr_index df) < 2 then []
          else map (\<lambda>(date, pct). (date, xabs pct))
            (filter (\<lambda>(date, pct). Fin threshold < xabs pct)
              (filter (\<lambda>(date, pct). pct \<noteq> NaN) (pct_changes (fr_index df) close))))"

section \<open>Columns\<close>

definition frame_ok :: "price_frame \<Rightarrow> bool" where
  "frame_ok df \<longleftrightarrow> dict_ok (fr_columns df) \<and>
     (\<forall>c v. dict_get (fr_columns df) c = Some v \<longrightarrow> length v = length (fr_index df))"

lemma update_column_get:
  "dict_get (fr_columns (update_column f col df)) c =
     (if c = col then map_option f (dict_get (fr_columns df) c) else dict_get (fr_columns df) c)"
  by (auto simp: update_column_def dict.get_set_item split: option.splits)

lemma update_column_frame [simp]: "fr_index (update_column f col df) = fr_index df"
  by (auto simp: update_column_def split: option.splits)

lemma update_columns_get:
  "distinct cols \<Longrightarrow> dict_get (fr_columns (fold (update_column f) cols df)) c =
     (if c \<in> set cols then map_option f (dict_get (fr_columns df) c) else dict_get (fr_columns df) c)"
  by (induction cols arbitrary: df) (auto simp: update_column_get)

lemma update_columns_index [simp]: "fr_index (fold (update_column f) cols df) = fr_index df"
  by (induction cols arbitrary: df) auto

text \<open>Assigning an existing column keeps the order of the columns.\<close>

lemma update_present: "map_of d k = Some v \<Longrightarrow> map fst (AList.update k w d) = map fst d"
  by (induction d) (auto split: if_splits)

lemma update_column_keys [simp]:
  "map fst (fr_columns (update_column f col df)) = map fst (fr_columns df)"
  by (auto simp: update_column_def dict_set_def dict_get_def update_present split: option.splits)

lemma update_columns_keys [simp]:
  "map fst (fr_columns (fold (update_column f) cols df)) = map fst (fr_columns df)"
  by (induction cols arbitrary: df) auto

lemma frame_eqI:
  assumes "dict_ok (fr_columns a)" and "map fst (fr_columns a) = map fst (fr_columns b)"
    and "\<And>c. dict_get (fr_columns a) c = dict_get (fr_columns b) c" and "fr_index a = fr_index b"
  shows "(a :: price_frame) = b"
proof -
  have "fr_columns a = fr_columns b"
  proof (rule nth_equalityI)
    show len: "length (fr_columns a) = length (fr_columns b)" using assms(2) by (metis length_map)
    fix i assume i: "i < length (fr_columns a)"
    have okb: "dict_ok (fr_columns b)" using assms(1,2) by (simp add: dict_ok_def)
    obtain k v w where kv: "fr_columns a ! i = (k, v)" "fr_columns b ! i = (k, w)"
      using assms(2) i len by (metis nth_map prod.collapse)
    then have "dict_get (fr_columns a) k = Some v" "dict_get (fr_columns b) k = Some w"
      using assms(1) okb i len by (metis dict.get_items nth_mem)+
    with assms(3) kv show "fr_columns a ! i = fr_columns b ! i" by simp
  qed
  with assms(4) show ?thesis by (cases a; cases b) simp
qed

lemma distinct_price_cols: "distinct (price_cols df)"
  by (simp add: price_cols_def price_names_def)

lemma price_cols_get: "c \<in> set (price_cols df) \<longleftrightarrow> c \<in> set price_names \<and> dict_get (fr_columns df) c \<noteq> None"
  by (auto simp: price_cols_def)

section \<open>Properties\<close>

lemma split_columns:
  assumes "adjust_for_splits df k = Inr df'"
  shows "dict_get (fr_columns df') c =
      (if c \<in> set price_names then map_option (map (\<lambda>x. x / k)) (dict_get (fr_columns df) c)
       else if c = ''volume'' then map_option (map (\<lambda>x. x * k)) (dict_get (fr_columns df) c)
       else dict_get (fr_columns df) c)"
    and "fr_index df' = fr_index df" and "map fst (fr_columns df') = map fst (fr_columns df)" and "0 < k"
proof -
  have vol: "''volume'' \<notin> set price_names" by (simp add: price_names_def)
  show "0 < k" using assms by (auto simp: adjust_for_splits_def split: if_splits)
  then show "fr_index df' = fr_index df" "map fst (fr_columns df') = map fst (fr_columns df)"
    using assms by (auto simp: adjust_for_splits_def Let_def split: if_splits)
  show "dict_get (fr_columns df') c =
      (if c \<in> set price_names then map_option (map (\<lambda>x. x / k)) (dict_get (fr_columns df) c)
       else if c = ''volume'' then map_option (map (\<lambda>x. x * k)) (dict_get (fr_columns df) c)
       else dict_get (fr_columns df) c)"
    using assms \<open>0 < k\<close> vol
    by (auto simp: adjust_for_splits_def Let_def update_column_get update_columns_get distinct_price_cols price_cols_get
        split: if_splits)
qed

lemma adjust_for_splits_total: "0 < k \<Longrightarrow> \<exists>df'. adjust_for_splits df k = Inr df'"
  by (simp add: adjust_for_splits_def Let_def)

text \<open>A split adjustment preserves the value of the traded volume in every price column and
  row, and is undone by the adjustment with the inverse factor: the frame comes back with its
  columns in order.\<close>

theorem split_adjustment_roundtrip:
  assumes "frame_ok df" and "0 < k"
  shows "\<exists>df'. adjust_for_splits df k = Inr df' \<and> adjust_for_splits df' (1 / k) = Inr df \<and>
    (\<forall>c \<in> set price_names. \<forall>p v p' v'.
       dict_get (fr_columns df) c = Some p \<and> dict_get (fr_columns df) ''volume'' = Some v \<and>
       dict_get (fr_columns df') c = Some p' \<and> dict_get (fr_columns df') ''volume'' = Some v' \<longrightarrow>
       (\<forall>i < length p. p' ! i * v' ! i = p ! i * v ! i))"
proof -
  obtain df' where df': "adjust_for_splits df k = Inr df'" using adjust_for_splits_total [OF assms(2)] by blast
  obtain df'' where df'': "adjust_for_splits df' (1 / k) = Inr df''"
    using adjust_for_splits_total [of "1 / k"] assms(2) by fastforce
  have vol: "''volume'' \<notin> set price_names" by (simp add: price_names_def)
  have id: "map (\<lambda>x. x / k / (1 / k)) v = v" "map (\<lambda>x. x * k * (1 / k)) v = v" for v
    using assms(2) by (auto intro!: map_idI)
  have "dict_get (fr_columns df'') c = dict_get (fr_columns df) c" for c
    unfolding split_columns(1) [OF df''] split_columns(1) [OF df']
    using id by (cases "dict_get (fr_columns df) c") (auto simp: comp_def)
  then have "df'' = df"
    using assms(1) split_columns(2,3) [OF df''] split_columns(2,3) [OF df']
    by (intro frame_eqI) (auto simp: frame_ok_def dict_ok_def)
  moreover have "p' ! i * v' ! i = p ! i * v ! i"
    if "c \<in> set price_names" "dict_get (fr_columns df) c = Some p" "dict_get (fr_columns df) ''volume'' = Some v"
      "dict_get (fr_columns df') c = Some p'" "dict_get (fr_columns df') ''volume'' = Some v'" "i < length p"
    for c p v p' v' i
  proof -
    have "length p = length v" using assms(1) that(2,3) by (simp add: frame_ok_def)
    moreover have "p' = map (\<lambda>x. x / k) p" "v' = map (\<lambda>x. x * k) v"
      using that split_columns(1) [OF df'] vol by auto
    ultimately show ?thesis using that(6) assms(2) by simp
  qed
  ultimately show ?thesis using df' df'' by blast
qed

definition demo_prices :: price_frame where
  "demo_prices = \<lparr>fr_index = [0, 86400000000, 172800000000],
     fr_columns = [(''close'', [100, 102, 98]), (''volume'', [10, 20, 30])]\<rparr>"

lemma demo_prices_ok: "frame_ok demo_prices"
  by (auto simp: frame_ok_def demo_prices_def dict_ok_def dict_get_def split: if_splits)

lemma split_adjustment_roundtrip_witness:
  "\<exists>df'. adjust_for_splits demo_prices 2 = Inr df' \<and> adjust_for_splits df' (1 / 2) = Inr demo_prices"
  using split_adjustment_roundtrip [OF demo_prices_ok, of 2] by auto

text \<open>A dividend adjustment scales every price strictly before the ex-date by the same factor and
  changes nothing else: the other rows, the other columns, the index and the column order stay.
  Returns between two rows before the ex-date are unchanged unless the dividend is the whole
  reference price, and positive prices stay positive exactly if the dividend is smaller than it.\<close>

theorem dividend_adjustment_exact:
  assumes "frame_ok df" and "0 \<le> dividend" and "reference_close df ex_date = Some ref" and "0 < ref"
  shows "\<exists>df'. adjust_for_dividends df dividend ex_date = Inr df' \<and>
    fr_index df' = fr_index df \<and> map fst (fr_columns df') = map fst (fr_columns df) \<and>
    (\<forall>c. c \<notin> set price_names \<longrightarrow> dict_get (fr_columns df') c = dict_get (fr_columns df) c) \<and>
    (\<forall>c \<in> set price_names. \<forall>p. dict_get (fr_columns df) c = Some p \<longrightarrow>
       (\<exists>p'. dict_get (fr_columns df') c = Some p' \<and> length p' = length p \<and>
         (\<forall>i < length p. p' ! i = (if fr_index df ! i < ex_date then p ! i * ((ref - dividend) / ref) else p ! i)) \<and>
         (\<forall>i < length p. \<forall>j < length p. fr_index df ! i < ex_date \<and> fr_index df ! j < ex_date \<and> dividend \<noteq> ref \<longrightarrow>
            p' ! j / p' ! i = p ! j / p ! i) \<and>
         (\<forall>i < length p. fr_index df ! i < ex_date \<and> 0 < p ! i \<longrightarrow> (0 < p' ! i \<longleftrightarrow> dividend < ref))))"
proof -
  let ?k = "(ref - dividend) / ref"
  let ?df' = "fold (update_column (scale_before (fr_index df) ex_date ?k)) (price_cols df) df"
  have run: "adjust_for_dividends df dividend ex_date = Inr ?df'"
    using assms(2-4) by (simp add: adjust_for_dividends_def)
  have get: "dict_get (fr_columns ?df') c = (if c \<in> set price_names
      then map_option (scale_before (fr_index df) ex_date ?k) (dict_get (fr_columns df) c)
      else dict_get (fr_columns df) c)" for c
    by (auto simp: update_columns_get distinct_price_cols price_cols_get)
  have "\<exists>p'. dict_get (fr_columns ?df') c = Some p' \<and> length p' = length p \<and>
         (\<forall>i < length p. p' ! i = (if fr_index df ! i < ex_date then p ! i * ?k else p ! i)) \<and>
         (\<forall>i < length p. \<forall>j < length p. fr_index df ! i < ex_date \<and> fr_index df ! j < ex_date \<and> dividend \<noteq> ref \<longrightarrow>
            p' ! j / p' ! i = p ! j / p ! i) \<and>
         (\<forall>i < length p. fr_index df ! i < ex_date \<and> 0 < p ! i \<longrightarrow> (0 < p' ! i \<longleftrightarrow> dividend < ref))"
    if "c \<in> set price_names" "dict_get (fr_columns df) c = Some p" for c p
  proof -
    have len: "length p = length (fr_index df)" using assms(1) that(2) by (simp add: frame_ok_def)
    let ?p' = "scale_before (fr_index df) ex_date ?k p"
    have nth: "?p' ! i = (if fr_index df ! i < ex_date then p ! i * ?k else p ! i)" if "i < length p" for i
      using that len by (simp add: scale_before_def)
    have "0 < p ! i * ?k \<longleftrightarrow> dividend < ref" if "0 < p ! i" for i
      using that assms(4) by (simp add: zero_less_mult_iff zero_less_divide_iff)
    then show ?thesis
      using that nth len assms(4) by (intro exI [of _ ?p']) (auto simp: get scale_before_def)
  qed
  note cols = this
  show ?thesis
  proof (intro exI [of _ ?df'] conjI allI impI ballI)
    show "adjust_for_dividends df dividend ex_date = Inr ?df'" by (rule run)
    show "fr_index ?df' = fr_index df" by simp
    show "map fst (fr_columns ?df') = map fst (fr_columns df)" by simp
    show "dict_get (fr_columns ?df') c = dict_get (fr_columns df) c" if "c \<notin> set price_names" for c
      using that by (simp only: get if_False)
  qed (rule cols)
qed

lemma dividend_adjustment_exact_witness:
  "\<exists>df'. adjust_for_dividends demo_prices 51 86400000000 = Inr df' \<and>
     (\<exists>p'. dict_get (fr_columns df') ''close'' = Some p' \<and> p' ! 0 = 50)"
proof -
  have "reference_close demo_prices 86400000000 = Some 102"
    by (simp add: reference_close_def demo_prices_def dict_get_def)
  then obtain df' where "adjust_for_dividends demo_prices 51 86400000000 = Inr df'"
      "\<forall>c \<in> set price_names. \<forall>p. dict_get (fr_columns demo_prices) c = Some p \<longrightarrow>
       (\<exists>p'. dict_get (fr_columns df') c = Some p' \<and>
         (\<forall>i < length p. p' ! i = (if fr_index demo_prices ! i < 86400000000 then p ! i * ((102 - 51) / 102) else p ! i)))"
    using dividend_adjustment_exact [OF demo_prices_ok, of 51 86400000000 102] by (simp, metis)
  then show ?thesis by (auto simp: price_names_def demo_prices_def dict_get_def)
qed

lemma pct_changes_nth:
  "length ts = length ps \<Longrightarrow> set (pct_changes ts ps)
     = {(ts ! Suc i, pct_change (ps ! i) (ps ! Suc i)) | i. Suc i < length ps}"
proof (induction ts ps rule: pct_changes.induct)
  case (1 s t ts p q ps)
  have "{((s # t # ts) ! Suc i, pct_change ((p # q # ps) ! i) ((p # q # ps) ! Suc i)) | i. Suc i < length (p # q # ps)}
      = insert (t, pct_change p q) {((t # ts) ! Suc i, pct_change ((q # ps) ! i) ((q # ps) ! Suc i)) | i. Suc i < length (q # ps)}"
    (is "?l = ?r")
  proof (intro equalityI subsetI)
    fix x assume "x \<in> ?l"
    then obtain i where "x = ((s # t # ts) ! Suc i, pct_change ((p # q # ps) ! i) ((p # q # ps) ! Suc i))"
        "Suc i < length (p # q # ps)" by blast
    then show "x \<in> ?r" by (cases i) auto
  next
    fix x assume "x \<in> ?r"
    then consider "x = (t, pct_change p q)"
      | i where "x = ((t # ts) ! Suc i, pct_change ((q # ps) ! i) ((q # ps) ! Suc i))" "Suc i < length (q # ps)" by blast
    then show "x \<in> ?l"
    proof cases
      case 1
      then show ?thesis by (intro CollectI exI [of _ 0]) simp
    next
      case (2 i)
      then show ?thesis by (intro CollectI exI [of _ "Suc i"]) simp
    qed
  qed
  with 1 show ?case by simp
qed auto

text \<open>The validation flags exactly the bars whose close differs from the one before by more than
  the threshold, a change from a zero close included.\<close>

theorem gaps_flagged_exactly:
  assumes "frame_ok df" and "dict_get (fr_columns df) ''close'' = Some close"
  shows "(t, g) \<in> set (validate_adjustment df threshold) \<longleftrightarrow>
    (\<exists>i. Suc i < length close \<and> t = fr_index df ! Suc i \<and>
       g = xabs (pct_change (close ! i) (close ! Suc i)) \<and> Fin threshold < g)"
proof -
  have len: "length (fr_index df) = length close" using assms by (simp add: frame_ok_def)
  have nan: "pct \<noteq> NaN" if "Fin threshold < xabs pct" for pct using that by (cases pct) auto
  show ?thesis
  proof (cases "length (fr_index df) < 2")
    case True
    then show ?thesis using assms(2) len by (auto simp: validate_adjustment_def)
  next
    case False
    then show ?thesis
      using assms(2) pct_changes_nth [OF len] nan by (auto simp: validate_adjustment_def image_iff; blast)
  qed
qed

lemma gaps_flagged_exactly_witness:
  "(86400000000, Fin (2 / 100)) \<in> set (validate_adjustment demo_prices (1 / 100))"
proof -
  have "dict_get (fr_columns demo_prices) ''close'' = Some [100, 102, 98]"
    by (simp add: demo_prices_def dict_get_def)
  from gaps_flagged_exactly [OF demo_prices_ok this, of 86400000000 "Fin (2 / 100)" "1 / 100"]
  show ?thesis by (auto simp: demo_prices_def pct_change_def intro!: exI [of _ 0])
qed

end
