(* ===== verification/Data_Contracts.thy ===== *)
theory Data_Contracts
  imports Py_Prelude "HOL-Library.Sublist"
begin

text \<open>
  The contracts of the market-data subsystem, \<open>src/data/contracts.py\<close>: the enumerations and
  their values, the exception classes with their inheritance, the admission of a request, the
  two policies, the evidence records, and the redaction of structured metadata. The redaction
  of free text (\<open>_redact_text\<close>, a chain of URL parsing and regular expressions) is the argument
  \<open>redact\<close> of the definitions that call it: what is proved holds for every such function.
  A \<open>str\<close> is a list of ASCII characters, a \<open>date\<close> the number of days since 1970-01-01, and a
  \<open>datetime\<close> its wall-clock reading in microseconds.
\<close>

section \<open>Enumerations\<close>

datatype provider = YFINANCE | ALPHA_VANTAGE

datatype source_preference = AUTO | SRC_YFINANCE | SRC_ALPHA_VANTAGE

datatype acquisition_status = SUCCESS | PARTIAL_SUCCESS | FAILED

datatype cache_status = MISS | FULL_HIT | PARTIAL_HIT | STALE_REFRESH | FORCED_REFRESH | INVALIDATED

datatype quality_severity = INFO | WARNING | FATAL

datatype action_coverage = REPRESENTED | NOT_REPRESENTED | UNKNOWN

fun provider_value :: "provider \<Rightarrow> string" where
  "provider_value YFINANCE = ''yfinance''"
| "provider_value ALPHA_VANTAGE = ''alpha_vantage''"

fun source_value :: "source_preference \<Rightarrow> string" where
  "source_value AUTO = ''auto''"
| "source_value SRC_YFINANCE = provider_value YFINANCE"
| "source_value SRC_ALPHA_VANTAGE = provider_value ALPHA_VANTAGE"

definition all_sources :: "source_preference list" where
  "all_sources = [AUTO, SRC_YFINANCE, SRC_ALPHA_VANTAGE]"

section \<open>Exceptions\<close>

text \<open>The classes in the order of the source; every class but the base has one parent.\<close>

datatype error_class =
    DataAcquisitionError
  | InvalidRequestError
  | ContractViolationError
  | ProviderError
  | TransientProviderError
  | ProviderAuthenticationError
  | ProviderEntitlementError
  | ProviderQuotaError
  | ProviderSchemaError
  | NoUsableDataError
  | ProviderExhaustedError
  | QualityError
  | CacheError
  | CachePublicationError
  | ManifestError
  | ArtifactError
  | ConcurrentPublicationError

fun parent_class :: "error_class \<Rightarrow> error_class option" where
  "parent_class DataAcquisitionError = None"
| "parent_class TransientProviderError = Some ProviderError"
| "parent_class ProviderAuthenticationError = Some ProviderError"
| "parent_class ProviderEntitlementError = Some ProviderError"
| "parent_class ProviderQuotaError = Some ProviderError"
| "parent_class ProviderSchemaError = Some ProviderError"
| "parent_class ProviderExhaustedError = Some NoUsableDataError"
| "parent_class CachePublicationError = Some CacheError"
| "parent_class ArtifactError = Some ManifestError"
| "parent_class ConcurrentPublicationError = Some CachePublicationError"
| "parent_class _ = Some DataAcquisitionError"

inductive subclass_of :: "error_class \<Rightarrow> error_class \<Rightarrow> bool" where
  subclass_refl: "subclass_of c c"
| subclass_step: "parent_class c = Some d \<Longrightarrow> subclass_of d e \<Longrightarrow> subclass_of c e"

code_pred subclass_of .

inductive_cases subclass_ofE: "subclass_of c e"

text \<open>An exception is of one of these classes or of a class of the language or a library.\<close>

datatype exn_class = Acquisition error_class | External string

record exn =
  exn_class :: exn_class
  exn_message :: string
  exn_acquisition_id :: "string option"
  exn_retry_after_seconds :: "xfloat option"

definition is_instance :: "exn \<Rightarrow> error_class \<Rightarrow> bool" where
  "is_instance e c = (case exn_class e of Acquisition d \<Rightarrow> subclass_of d c | External _ \<Rightarrow> False)"

definition acquisition_error ::
    "(string \<Rightarrow> string) \<Rightarrow> error_class \<Rightarrow> string \<Rightarrow> string option \<Rightarrow> exn" where
  "acquisition_error redact c message acquisition_id =
     \<lparr>exn_class = Acquisition c, exn_message = redact message,
      exn_acquisition_id = acquisition_id, exn_retry_after_seconds = None\<rparr>"

definition assign_acquisition_id :: "exn \<Rightarrow> string \<Rightarrow> exn" where
  "assign_acquisition_id e acquisition_id =
     (if exn_acquisition_id e = None then e\<lparr>exn_acquisition_id := Some acquisition_id\<rparr> else e)"

lemma subclass_of_base: "subclass_of c DataAcquisitionError"
proof -
  have direct: "parent_class d = Some DataAcquisitionError \<Longrightarrow> subclass_of d DataAcquisitionError" for d
    by (rule subclass_step [OF _ subclass_refl])
  have two: "parent_class d = Some e \<Longrightarrow> parent_class e = Some DataAcquisitionError \<Longrightarrow>
      subclass_of d DataAcquisitionError" for d e
    by (rule subclass_step [OF _ direct])
  show ?thesis
    by (cases c) (auto intro: direct two subclass_refl subclass_step [OF _ two])
qed

text \<open>The classes without subclasses are the only instances of themselves.\<close>

lemma subclass_of_leaf [simp]:
  "subclass_of c TransientProviderError \<longleftrightarrow> c = TransientProviderError"
  "subclass_of c ProviderQuotaError \<longleftrightarrow> c = ProviderQuotaError"
  "subclass_of c ProviderEntitlementError \<longleftrightarrow> c = ProviderEntitlementError"
proof -
  have leaf: "subclass_of c d \<Longrightarrow> (\<And>x. parent_class x \<noteq> Some d) \<Longrightarrow> c = d" for c d
    by (induction rule: subclass_of.induct) auto
  have none: "parent_class x \<noteq> Some TransientProviderError" "parent_class x \<noteq> Some ProviderQuotaError"
    "parent_class x \<noteq> Some ProviderEntitlementError" for x
    by (cases x; simp)+
  show "subclass_of c TransientProviderError \<longleftrightarrow> c = TransientProviderError"
    "subclass_of c ProviderQuotaError \<longleftrightarrow> c = ProviderQuotaError"
    "subclass_of c ProviderEntitlementError \<longleftrightarrow> c = ProviderEntitlementError"
    using leaf none subclass_refl by blast+
qed

section \<open>Strings\<close>

definition is_space :: "char \<Rightarrow> bool" where
  "is_space c \<longleftrightarrow> of_char c \<in> {9 :: nat, 10, 11, 12, 13, 28, 29, 30, 31, 32}"

definition py_strip :: "string \<Rightarrow> string" where
  "py_strip s = rev (dropWhile is_space (rev (dropWhile is_space s)))"

definition upper_char :: "char \<Rightarrow> char" where
  "upper_char c = (let n = (of_char c :: nat) in if 97 \<le> n \<and> n \<le> 122 then char_of (n - 32) else c)"

definition lower_char :: "char \<Rightarrow> char" where
  "lower_char c = (let n = (of_char c :: nat) in if 65 \<le> n \<and> n \<le> 90 then char_of (n + 32) else c)"

definition py_upper :: "string \<Rightarrow> string" where
  "py_upper s = map upper_char s"

definition py_lower :: "string \<Rightarrow> string" where
  "py_lower s = map lower_char s"

definition is_upper_or_digit :: "char \<Rightarrow> bool" where
  "is_upper_or_digit c \<longleftrightarrow> (let n = (of_char c :: nat) in (65 \<le> n \<and> n \<le> 90) \<or> (48 \<le> n \<and> n \<le> 57))"

definition symbol_pattern :: "string \<Rightarrow> bool" where
  "symbol_pattern s = (case s of [] \<Rightarrow> False
     | c # cs \<Rightarrow> is_upper_or_digit c \<and> length cs \<le> 31 \<and>
         list_all (\<lambda>d. is_upper_or_digit d \<or> d \<in> {CHR ''.'', CHR ''_'', CHR ''-''}) cs)"

section \<open>Structured metadata\<close>

text \<open>The values a metadata mapping may hold; a scalar is a number, a flag or nothing.\<close>

datatype metadata =
    MMap "(string \<times> metadata) list"
  | MStr string
  | MSeq "metadata list"
  | MSet "metadata list"
  | MInt int
  | MFloat xfloat
  | MOther

definition redacted_text :: string where
  "redacted_text = ''[REDACTED]''"

definition sensitive_words :: "string list" where
  "sensitive_words = [''apikey'', ''api_key'', ''api-key'', ''x-api-key'', ''authorization'',
     ''accesstoken'', ''access_token'', ''access-token'', ''refreshtoken'', ''refresh_token'',
     ''refresh-token'', ''token'', ''secret'', ''password'', ''cookie'', ''credential'']"

definition is_sensitive_key :: "string \<Rightarrow> bool" where
  "is_sensitive_key key \<longleftrightarrow> list_ex (\<lambda>w. sublist w (py_lower key)) sensitive_words"

fun freeze_metadata :: "(string \<Rightarrow> string) \<Rightarrow> metadata \<Rightarrow> metadata" where
  "freeze_metadata redact (MMap items) = MMap (map (\<lambda>(key, item).
     (key, if is_sensitive_key key then MStr redacted_text else freeze_metadata redact item)) items)"
| "freeze_metadata redact (MStr s) = MStr (redact s)"
| "freeze_metadata redact (MSeq items) = MSeq (map (freeze_metadata redact) items)"
| "freeze_metadata redact (MSet items) = MSet (remdups (map (freeze_metadata redact) items))"
| "freeze_metadata redact (MInt i) = MInt i"
| "freeze_metadata redact (MFloat x) = MFloat x"
| "freeze_metadata redact MOther = MOther"

section \<open>Requests\<close>

text \<open>
  The arguments of \<open>AcquisitionRequest\<close> before \<open>__post_init__\<close>: the code checks their classes,
  so each is a value of any class. A member of a \<open>StrEnum\<close> is a \<open>str\<close>.
\<close>

datatype py_arg =
    AStr string
  | ASource source_preference
  | ADate int
  | ADatetime datetime
  | ABool bool
  | AOther

record raw_request =
  rr_symbol :: py_arg
  rr_start :: py_arg
  rr_end :: py_arg
  rr_interval :: py_arg
  rr_calendar :: py_arg
  rr_source :: py_arg
  rr_use_cache :: py_arg
  rr_refresh :: py_arg

record acquisition_request =
  ar_symbol :: string
  ar_start :: int
  ar_end :: int
  ar_interval :: string
  ar_calendar :: string
  ar_source :: source_preference
  ar_use_cache :: bool
  ar_refresh :: bool

definition DEFAULT_CALENDAR :: string where "DEFAULT_CALENDAR = ''XNYS''"

definition DEFAULT_INTERVAL :: string where "DEFAULT_INTERVAL = ''1d''"

fun arg_str :: "py_arg \<Rightarrow> string option" where
  "arg_str (AStr s) = Some s"
| "arg_str (ASource p) = Some (source_value p)"
| "arg_str _ = None"

fun arg_bool :: "py_arg \<Rightarrow> bool option" where
  "arg_bool (ABool b) = Some b"
| "arg_bool _ = None"

text \<open>The class of the exception and the fixed part of its message.\<close>

type_synonym 'a acq = "(error_class \<times> string) + 'a"

fun coerce_date :: "py_arg \<Rightarrow> string \<Rightarrow> int acq" where
  "coerce_date (ADatetime t) field_name = Inr (t div 86400000000)"
| "coerce_date (ADate d) field_name = Inr d"
| "coerce_date _ field_name = Inl (InvalidRequestError, field_name @ '' must be a date or datetime'')"

definition coerce_source :: "py_arg \<Rightarrow> source_preference acq" where
  "coerce_source value = (case arg_str value of
     None \<Rightarrow> Inl (InvalidRequestError, ''unsupported source'')
   | Some s \<Rightarrow> (case find (\<lambda>p. source_value p = s) all_sources of
       None \<Rightarrow> Inl (InvalidRequestError, ''unsupported source'')
     | Some p \<Rightarrow> Inr p))"

definition acquisition_request_init :: "raw_request \<Rightarrow> acquisition_request acq" where
  "acquisition_request_init raw =
     (case arg_str (rr_symbol raw) of
        None \<Rightarrow> Inl (InvalidRequestError, ''symbol must be a string'')
      | Some text \<Rightarrow>
          let symbol = py_upper (py_strip text) in
          if \<not> symbol_pattern symbol
          then Inl (InvalidRequestError, ''symbol must use the safe V1 symbol grammar'')
          else rbind (coerce_date (rr_start raw) ''start'') (\<lambda>start.
            rbind (coerce_date (rr_end raw) ''end'') (\<lambda>end_date.
              if start > end_date then Inl (InvalidRequestError, ''start must not be after end'')
              else if arg_str (rr_interval raw) \<noteq> Some DEFAULT_INTERVAL
                then Inl (InvalidRequestError, ''V1 supports interval '1d' only'')
              else if arg_str (rr_calendar raw) \<noteq> Some DEFAULT_CALENDAR
                then Inl (InvalidRequestError, ''V1 supports calendar 'XNYS' only'')
              else (case (arg_bool (rr_use_cache raw), arg_bool (rr_refresh raw)) of
                  (Some use_cache, Some refresh) \<Rightarrow>
                    rbind (coerce_source (rr_source raw)) (\<lambda>source.
                      Inr \<lparr>ar_symbol = symbol, ar_start = start, ar_end = end_date,
                           ar_interval = DEFAULT_INTERVAL, ar_calendar = DEFAULT_CALENDAR,
                           ar_source = source, ar_use_cache = use_cache, ar_refresh = refresh\<rparr>)
                | _ \<Rightarrow> Inl (InvalidRequestError, ''use_cache and refresh must be boolean'')))))"

section \<open>Policies\<close>

record quality_policy =
  qp_minimum_coverage :: real
  qp_max_consecutive_missing_sessions :: int
  qp_action_relative_tolerance :: real
  qp_action_absolute_tolerance :: real

definition default_quality_policy :: quality_policy where
  "default_quality_policy = \<lparr>qp_minimum_coverage = 98 / 100, qp_max_consecutive_missing_sessions = 2,
     qp_action_relative_tolerance = 1 / 10 ^ 9, qp_action_absolute_tolerance = 1 / 10 ^ 12\<rparr>"

definition quality_policy_post_init :: "quality_policy \<Rightarrow> quality_policy result" where
  "quality_policy_post_init p =
     (if \<not> (0 \<le> qp_minimum_coverage p \<and> qp_minimum_coverage p \<le> 1)
        then Inl (ValueError ''minimum_coverage must be between zero and one'')
      else if qp_max_consecutive_missing_sessions p < 0
        then Inl (ValueError ''max_consecutive_missing_sessions must be non-negative'')
      else if qp_action_relative_tolerance p < 0 \<or> qp_action_absolute_tolerance p < 0
        then Inl (ValueError ''action tolerances must be non-negative'')
      else Inr p)"

record retry_policy =
  rp_max_attempts :: int
  rp_base_delay_seconds :: real
  rp_max_delay_seconds :: real
  rp_max_retry_after_seconds :: real

definition default_retry_policy :: retry_policy where
  "default_retry_policy = \<lparr>rp_max_attempts = 3, rp_base_delay_seconds = 1 / 2,
     rp_max_delay_seconds = 8, rp_max_retry_after_seconds = 8\<rparr>"

definition retry_policy_post_init :: "retry_policy \<Rightarrow> retry_policy result" where
  "retry_policy_post_init p =
     (if rp_max_attempts p < 1 then Inl (ValueError ''max_attempts must be at least one'')
      else if rp_base_delay_seconds p < 0 \<or> rp_max_delay_seconds p < rp_base_delay_seconds p
        then Inl (ValueError ''retry delays must be non-negative and capped above the base delay'')
      else if rp_max_retry_after_seconds p < 0
        then Inl (ValueError ''max_retry_after_seconds must be non-negative'')
      else Inr p)"

lemma default_policies_valid:
  "quality_policy_post_init default_quality_policy = Inr default_quality_policy"
  "retry_policy_post_init default_retry_policy = Inr default_retry_policy"
  by (simp_all add: quality_policy_post_init_def default_quality_policy_def
      retry_policy_post_init_def default_retry_policy_def)

section \<open>Evidence\<close>

record quality_finding =
  qf_severity :: quality_severity
  qf_code :: string
  qf_message :: string
  qf_details :: "(string \<times> metadata) list"

record rejected_row =
  rj_source_row_number :: nat
  rj_reason :: string
  rj_timestamp :: "string option"
  rj_details :: "(string \<times> metadata) list"

record attempt_evidence =
  ae_provider :: provider
  ae_attempt_number :: int
  ae_started_at :: datetime
  ae_duration_seconds :: real
  ae_outcome :: string
  ae_retry_delay_seconds :: "real option"
  ae_error_type :: "string option"
  ae_error_message :: "string option"

record cache_evidence =
  ce_status :: cache_status
  ce_generation_id :: "string option"
  ce_cache_key :: "string option"
  ce_compatibility_reason :: "string option"
  ce_covered_sessions :: int
  ce_missing_sessions :: int

record lineage_segment =
  ls_start :: int
  ls_end :: int
  ls_provider :: provider
  ls_acquired_at :: datetime
  ls_action_coverage :: action_coverage
  ls_content_hash :: string
  ls_action_signature :: string

definition freeze_details :: "(string \<Rightarrow> string) \<Rightarrow> (string \<times> metadata) list \<Rightarrow> (string \<times> metadata) list" where
  "freeze_details redact d = (case freeze_metadata redact (MMap d) of MMap d' \<Rightarrow> d' | _ \<Rightarrow> d)"

definition mk_finding ::
    "(string \<Rightarrow> string) \<Rightarrow> quality_severity \<Rightarrow> string \<Rightarrow> string \<Rightarrow> (string \<times> metadata) list \<Rightarrow> quality_finding" where
  "mk_finding redact severity code message details =
     \<lparr>qf_severity = severity, qf_code = code, qf_message = redact message,
      qf_details = freeze_details redact details\<rparr>"

definition mk_rejected ::
    "(string \<Rightarrow> string) \<Rightarrow> nat \<Rightarrow> string \<Rightarrow> string option \<Rightarrow> rejected_row" where
  "mk_rejected redact number reason timestamp =
     \<lparr>rj_source_row_number = number, rj_reason = redact reason, rj_timestamp = timestamp,
      rj_details = []\<rparr>"

definition attempt_post_init :: "(string \<Rightarrow> string) \<Rightarrow> attempt_evidence \<Rightarrow> attempt_evidence" where
  "attempt_post_init redact a = a\<lparr>ae_error_message := map_option redact (ae_error_message a)\<rparr>"

definition cache_evidence_post_init :: "(string \<Rightarrow> string) \<Rightarrow> cache_evidence \<Rightarrow> cache_evidence" where
  "cache_evidence_post_init redact c =
     c\<lparr>ce_compatibility_reason := map_option redact (ce_compatibility_reason c)\<rparr>"

definition warning_code_pattern :: "string \<Rightarrow> bool" where
  "warning_code_pattern s = (case s of [] \<Rightarrow> False
     | c # cs \<Rightarrow> of_char c \<in> {97 :: nat .. 122} \<and> length cs \<le> 63 \<and>
         list_all (\<lambda>d. of_char d \<in> {97 :: nat .. 122} \<or> of_char d \<in> {48 :: nat .. 57} \<or> d = CHR ''_'') cs)"

record acquisition_warning =
  aw_code :: string
  aw_message :: string

definition acquisition_warning_init ::
    "(string \<Rightarrow> string) \<Rightarrow> string \<Rightarrow> string \<Rightarrow> acquisition_warning result" where
  "acquisition_warning_init redact code message =
     (if \<not> warning_code_pattern code then Inl (ValueError ''warning code uses an invalid grammar'')
      else Inr \<lparr>aw_code = code, aw_message = redact message\<rparr>)"

lemma mk_finding_simps [simp]:
  "qf_severity (mk_finding redact s c m d) = s" "qf_code (mk_finding redact s c m d) = c"
  by (simp_all add: mk_finding_def)

lemma mk_rejected_simps [simp]:
  "rj_source_row_number (mk_rejected redact n r t) = n" "rj_reason (mk_rejected redact n r t) = redact r"
  by (simp_all add: mk_rejected_def)

section \<open>Properties\<close>

text \<open>No value is left under a sensitive key, at any depth.\<close>

fun sanitized :: "(string \<Rightarrow> string) \<Rightarrow> metadata \<Rightarrow> bool" where
  "sanitized redact (MMap items) = (\<forall>(key, item) \<in> set items.
     if is_sensitive_key key then item = MStr redacted_text else sanitized redact item)"
| "sanitized redact (MStr s) = (\<exists>t. s = redact t)"
| "sanitized redact (MSeq items) = (\<forall>item \<in> set items. sanitized redact item)"
| "sanitized redact (MSet items) = (\<forall>item \<in> set items. sanitized redact item)"
| "sanitized redact _ = True"

lemma freeze_sanitized: "sanitized redact (freeze_metadata redact m)"
proof (induction redact m rule: freeze_metadata.induct)
  case (1 redact items)
  then show ?case by fastforce
qed auto

lemma freeze_idem:
  assumes "\<And>s. redact (redact s) = redact s"
  shows "freeze_metadata redact (freeze_metadata redact m) = freeze_metadata redact m"
  using assms
proof (induction redact m rule: freeze_metadata.induct)
  case (1 redact items)
  then show ?case by fastforce
next
  case (4 redact items)
  have "map (freeze_metadata redact) (remdups (map (freeze_metadata redact) items))
      = remdups (map (freeze_metadata redact) items)"
    by (rule map_idI) (use 4 in auto)
  then show ?case by simp
qed auto

text \<open>Metadata that crosses the boundary is redacted at every depth: no value is left under
  a sensitive key and every other string has passed the text redaction. Freezing frozen
  metadata again changes nothing if the text redaction is idempotent.\<close>

theorem frozen_metadata_redacted:
  assumes "\<And>s. redact (redact s) = redact s"
  shows "sanitized redact (freeze_metadata redact m) \<and>
    freeze_metadata redact (freeze_metadata redact m) = freeze_metadata redact m"
  using freeze_sanitized freeze_idem [of redact m] assms by blast

lemma frozen_metadata_redacted_witness:
  "sanitized (\<lambda>s. s) (MMap [(''X-Api-Key'', MStr redacted_text), (''nested'', MMap [(''Token'', MStr redacted_text)])])"
proof -
  let ?m = "MMap [(''X-Api-Key'', MStr ''abc''), (''nested'', MMap [(''Token'', MInt 7)])]"
  have "is_sensitive_key ''X-Api-Key''" "is_sensitive_key ''Token''" "\<not> is_sensitive_key ''nested''" by code_simp+
  then show ?thesis
    using frozen_metadata_redacted [of "\<lambda>s. s" ?m] by (simp add: redacted_text_def)
qed

text \<open>Stripping and upper-casing leave a string of the symbol grammar as it is.\<close>

lemma symbol_pattern_chars:
  assumes "symbol_pattern s" and "c \<in> set s"
  shows "is_upper_or_digit c \<or> c \<in> {CHR ''.'', CHR ''_'', CHR ''-''}"
  using assms by (auto simp: symbol_pattern_def list_all_iff split: list.splits)

lemma upper_symbol_char:
  assumes "is_upper_or_digit c \<or> c \<in> {CHR ''.'', CHR ''_'', CHR ''-''}"
  shows "upper_char c = c" and "\<not> is_space c"
  using assms by (auto simp: upper_char_def is_upper_or_digit_def is_space_def Let_def)

lemma dropWhile_none: "(\<And>c. c \<in> set s \<Longrightarrow> \<not> P c) \<Longrightarrow> dropWhile P s = s"
  by (cases s) auto

lemma symbol_normal:
  assumes "symbol_pattern s"
  shows "py_upper (py_strip s) = s"
proof -
  have "\<not> is_space c" if "c \<in> set s" for c
    using symbol_pattern_chars [OF assms that] upper_symbol_char by blast
  then have "py_strip s = s"
    using dropWhile_none [of s is_space] dropWhile_none [of "rev s" is_space] by (simp add: py_strip_def)
  moreover have "map upper_char s = s"
    by (rule map_idI) (use symbol_pattern_chars [OF assms] upper_symbol_char in blast)
  ultimately show ?thesis by (simp add: py_upper_def)
qed

definition raw_of :: "acquisition_request \<Rightarrow> raw_request" where
  "raw_of r = \<lparr>rr_symbol = AStr (ar_symbol r), rr_start = ADate (ar_start r), rr_end = ADate (ar_end r),
     rr_interval = AStr (ar_interval r), rr_calendar = AStr (ar_calendar r),
     rr_source = ASource (ar_source r), rr_use_cache = ABool (ar_use_cache r),
     rr_refresh = ABool (ar_refresh r)\<rparr>"

lemma coerce_source_member [simp]: "coerce_source (ASource p) = Inr p"
  by (cases p) (simp_all add: coerce_source_def all_sources_def)

text \<open>An admitted request is canonical: its symbol is a safe path component (of the grammar,
  at most 32 characters, no separator, neither empty nor a dot name), its range is ordered, and
  admitting it again returns it unchanged.\<close>

theorem admitted_request_canonical:
  assumes "acquisition_request_init raw = Inr r"
  shows "symbol_pattern (ar_symbol r) \<and> length (ar_symbol r) \<le> 32 \<and>
    CHR ''/'' \<notin> set (ar_symbol r) \<and> hd (ar_symbol r) \<noteq> CHR ''.'' \<and> ar_start r \<le> ar_end r \<and>
    acquisition_request_init (raw_of r) = Inr r"
proof -
  obtain sy where r: "ar_symbol r = py_upper (py_strip sy)" "symbol_pattern (ar_symbol r)"
      "ar_start r \<le> ar_end r" "ar_interval r = DEFAULT_INTERVAL" "ar_calendar r = DEFAULT_CALENDAR"
    using assms by (auto simp: acquisition_request_init_def Let_def result_simps
        split: option.splits if_splits)
  have slash: "CHR ''/'' \<notin> set (ar_symbol r)"
    using symbol_pattern_chars [OF r(2), of "CHR ''/''"] by (auto simp: is_upper_or_digit_def)
  have shape: "length (ar_symbol r) \<le> 32" "hd (ar_symbol r) \<noteq> CHR ''.''"
    using r(2) by (auto simp: symbol_pattern_def is_upper_or_digit_def split: list.splits)
  have "acquisition_request_init (raw_of r) = Inr r"
    using r symbol_normal [OF r(2)] by (simp add: acquisition_request_init_def raw_of_def Let_def)
  with r slash shape show ?thesis by blast
qed

definition demo_raw_request :: raw_request where
  "demo_raw_request = \<lparr>rr_symbol = AStr '' brk.b '', rr_start = ADate 19000, rr_end = ADatetime 1650000000000000,
     rr_interval = AStr ''1d'', rr_calendar = AStr ''XNYS'', rr_source = AStr ''yfinance'',
     rr_use_cache = ABool True, rr_refresh = ABool False\<rparr>"

definition demo_request :: acquisition_request where
  "demo_request = \<lparr>ar_symbol = ''BRK.B'', ar_start = 19000, ar_end = 19097, ar_interval = ''1d'',
     ar_calendar = ''XNYS'', ar_source = SRC_YFINANCE, ar_use_cache = True, ar_refresh = False\<rparr>"

lemma admitted_request_canonical_witness:
  "symbol_pattern (ar_symbol demo_request) \<and> length (ar_symbol demo_request) \<le> 32 \<and>
    CHR ''/'' \<notin> set (ar_symbol demo_request) \<and> hd (ar_symbol demo_request) \<noteq> CHR ''.'' \<and>
    ar_start demo_request \<le> ar_end demo_request \<and>
    acquisition_request_init (raw_of demo_request) = Inr demo_request"
  by (rule admitted_request_canonical [of demo_raw_request]) code_simp

end
