(* ===== verification/Calendars.thy ===== *)
theory Calendars
  imports Data_Contracts
begin

text \<open>
  The exchange calendar boundary of \<open>src/data/calendars.py\<close>. The schedule of
  \<open>pandas_market_calendars\<close> is the argument \<open>schedule\<close>: from a first and a last day to the
  sessions between them, each with its label and its close. A timestamp is a number of
  microseconds; normalising one sets it back to midnight.
\<close>

section \<open>Model\<close>

datatype day_arg = DayDate int | DayDatetime datetime

fun as_date :: "day_arg \<Rightarrow> int" where
  "as_date (DayDatetime t) = t div 86400000000"
| "as_date (DayDate d) = d"

definition normalize_ts :: "datetime \<Rightarrow> datetime" where
  "normalize_ts t = t - t mod 86400000000"

type_synonym session_schedule = "int \<Rightarrow> int \<Rightarrow> (datetime \<times> datetime) list"

definition expected_sessions :: "session_schedule \<Rightarrow> day_arg \<Rightarrow> day_arg \<Rightarrow> datetime list acq" where
  "expected_sessions schedule start end_arg =
     (let start_date = as_date start; end_date = as_date end_arg in
      if start_date > end_date then Inl (InvalidRequestError, ''start must not be after end'')
      else Inr (map (\<lambda>(label, close). normalize_ts label) (schedule start_date end_date)))"

definition session_closes :: "session_schedule \<Rightarrow> day_arg \<Rightarrow> day_arg \<Rightarrow> (datetime, datetime) dict" where
  "session_closes schedule start end_arg =
     fold (\<lambda>(label, close) d. dict_set d (normalize_ts label) close)
       (schedule (as_date start) (as_date end_arg)) []"

datatype market_calendar = XNYSCalendar

definition calendar_registry :: "(string, market_calendar) dict" where
  "calendar_registry = [(DEFAULT_CALENDAR, XNYSCalendar)]"

definition get_market_calendar :: "string \<Rightarrow> market_calendar acq" where
  "get_market_calendar calendar_id = (case dict_get calendar_registry calendar_id of
     Some c \<Rightarrow> Inr c | None \<Rightarrow> Inl (InvalidRequestError, ''unsupported calendar''))"

text \<open>The loop of \<open>group_contiguous_sessions\<close>: its state is the list of groups, the start of the
  open group and the session before.\<close>

type_synonym group_state = "(datetime \<times> datetime) list \<times> datetime option \<times> datetime option"

fun group_step :: "datetime list \<Rightarrow> datetime \<Rightarrow> group_state \<Rightarrow> group_state" where
  "group_step missing session (groups, group_start, previous) =
     (if session \<in> set missing
      then (groups, (if group_start = None then Some session else group_start), Some session)
      else (case (group_start, previous) of
          (Some start, Some prev) \<Rightarrow> (groups @ [(start, prev)], None, None)
        | _ \<Rightarrow> (groups, group_start, previous)))"

definition group_contiguous_sessions ::
    "datetime list \<Rightarrow> datetime list \<Rightarrow> (datetime \<times> datetime) list" where
  "group_contiguous_sessions expected_index missing_index =
     (let expected = map normalize_ts expected_index;
          missing = map normalize_ts missing_index
      in case fold (group_step missing) expected ([], None, None) of
           (groups, Some start, Some prev) \<Rightarrow> groups @ [(start, prev)]
         | (groups, _, _) \<Rightarrow> groups)"

lemma normalize_ts_idem [simp]: "normalize_ts (normalize_ts t) = normalize_ts t"
  by (simp add: normalize_ts_def)

lemma normalize_ts_le: "normalize_ts t \<le> t"
  by (simp add: normalize_ts_def)

lemma normalize_ts_mono: "s \<le> t \<Longrightarrow> normalize_ts s \<le> normalize_ts t"
  unfolding normalize_ts_def by (simp add: minus_mod_eq_mult_div zdiv_mono1)

section \<open>Runs of missing sessions\<close>

text \<open>The reference: a maximal run of positions whose sessions are missing.\<close>

definition missing_run :: "'a set \<Rightarrow> 'a list \<Rightarrow> nat \<Rightarrow> nat \<Rightarrow> bool" where
  "missing_run M xs i j \<longleftrightarrow> i \<le> j \<and> j < length xs \<and> (\<forall>k. i \<le> k \<and> k \<le> j \<longrightarrow> xs ! k \<in> M) \<and>
     (i = 0 \<or> xs ! (i - 1) \<notin> M) \<and> (Suc j = length xs \<or> xs ! Suc j \<notin> M)"

text \<open>The run that is still open at the end of a list, and the runs that are closed before it.\<close>

definition open_run :: "'a set \<Rightarrow> 'a list \<Rightarrow> nat \<Rightarrow> bool" where
  "open_run M xs i \<longleftrightarrow> i < length xs \<and> (\<forall>k. i \<le> k \<and> k < length xs \<longrightarrow> xs ! k \<in> M) \<and>
     (i = 0 \<or> xs ! (i - 1) \<notin> M)"

definition closed_run :: "'a set \<Rightarrow> 'a list \<Rightarrow> nat \<Rightarrow> nat \<Rightarrow> bool" where
  "closed_run M xs i j \<longleftrightarrow> missing_run M xs i j \<and> Suc j < length xs"

lemma open_run_le:
  assumes "open_run M xs i" and "open_run M xs j"
  shows "j \<le> i"
proof (rule ccontr)
  assume "\<not> j \<le> i"
  then have "i \<le> j - 1 \<and> j - 1 < length xs" "j \<noteq> 0" using assms(2) by (auto simp: open_run_def)
  with assms show False by (auto simp: open_run_def)
qed

lemma open_run_unique: "open_run M xs i \<Longrightarrow> open_run M xs j \<Longrightarrow> i = j"
  using open_run_le by (metis le_antisym)

lemma missing_run_split:
  "missing_run M xs i j \<longleftrightarrow> closed_run M xs i j \<or> (open_run M xs i \<and> Suc j = length xs)"
proof (cases "Suc j = length xs")
  case True
  then have "k \<le> j \<longleftrightarrow> k < length xs" for k by linarith
  with True show ?thesis by (auto simp: missing_run_def closed_run_def open_run_def)
next
  case False
  then show ?thesis by (auto simp: missing_run_def closed_run_def)
qed

lemma open_run_exists: "xs \<noteq> [] \<Longrightarrow> last xs \<in> M \<Longrightarrow> \<exists>i. open_run M xs i"
proof (induction xs rule: rev_induct)
  case (snoc x xs)
  show ?case
  proof (cases "xs \<noteq> [] \<and> last xs \<in> M")
    case True
    with snoc.IH obtain i where "open_run M xs i" by blast
    with snoc.prems have "open_run M (xs @ [x]) i" by (auto simp: open_run_def nth_append less_Suc_eq)
    then show ?thesis by blast
  next
    case False
    then have "open_run M (xs @ [x]) (length xs)"
      using snoc.prems by (cases "xs = []") (auto simp: open_run_def nth_append less_Suc_eq last_conv_nth)
    then show ?thesis by blast
  qed
qed simp

lemma no_open_run: "(\<forall>k. \<not> open_run M xs k) \<longleftrightarrow> xs = [] \<or> last xs \<notin> M"
proof
  assume "xs = [] \<or> last xs \<notin> M"
  then show "\<forall>k. \<not> open_run M xs k"
  proof
    assume "last xs \<notin> M"
    then have "xs = [] \<or> xs ! (length xs - 1) \<notin> M" by (metis last_conv_nth)
    then show ?thesis by (auto simp: open_run_def)
  qed (simp add: open_run_def)
qed (use open_run_exists in blast)

lemma open_run_snoc:
  "open_run M (xs @ [x]) i \<longleftrightarrow>
     x \<in> M \<and> (open_run M xs i \<or> (i = length xs \<and> (\<forall>k. \<not> open_run M xs k)))"
proof (cases "i < length xs")
  case True
  then show ?thesis by (auto simp: open_run_def nth_append less_Suc_eq)
next
  case False
  then show ?thesis
    unfolding no_open_run
    by (cases "xs = []") (auto simp: open_run_def nth_append last_conv_nth less_Suc_eq)
qed

lemma closed_run_snoc:
  "closed_run M (xs @ [x]) i j \<longleftrightarrow> closed_run M xs i j \<or> (x \<notin> M \<and> open_run M xs i \<and> Suc j = length xs)"
proof -
  consider "Suc j < length xs" | "Suc j = length xs" | "length xs < Suc j" by linarith
  then show ?thesis
  proof cases
    case 1
    then have "(xs @ [x]) ! k = xs ! k" if "k \<le> Suc j" for k using that by (simp add: nth_append)
    with 1 show ?thesis by (auto simp: closed_run_def missing_run_def)
  next
    case 2
    then have "(xs @ [x]) ! k = xs ! k" "k \<le> j \<longleftrightarrow> k < length xs" if "k \<le> j" for k
      using that by (simp_all add: nth_append)
    moreover have "k \<le> j \<longleftrightarrow> k < length xs" for k using 2 by linarith
    moreover have "(xs @ [x]) ! Suc j = x" using 2 by (simp add: nth_append)
    ultimately show ?thesis using 2
      by (auto simp: closed_run_def missing_run_def open_run_def)
  next
    case 3
    then show ?thesis by (auto simp: closed_run_def missing_run_def)
  qed
qed

definition closed_pairs :: "'a set \<Rightarrow> 'a list \<Rightarrow> ('a \<times> 'a) set" where
  "closed_pairs M xs = {(xs ! i, xs ! j) | i j. closed_run M xs i j}"

definition open_pairs :: "'a set \<Rightarrow> 'a list \<Rightarrow> ('a \<times> 'a) set" where
  "open_pairs M xs = {(xs ! i, last xs) | i. open_run M xs i}"

lemma open_pairs_run: "open_run M xs i \<Longrightarrow> open_pairs M xs = {(xs ! i, last xs)}"
  unfolding open_pairs_def using open_run_unique by blast

lemma open_pairs_none: "(\<And>k. \<not> open_run M xs k) \<Longrightarrow> open_pairs M xs = {}"
  by (simp add: open_pairs_def)

lemma open_run_last: "open_run M xs i \<Longrightarrow> \<exists>j. Suc j = length xs \<and> last xs = xs ! j"
proof (cases "xs = []")
  case False
  then show ?thesis by (intro exI [of _ "length xs - 1"]) (simp add: last_conv_nth)
qed (simp add: open_run_def)

lemma run_pairs:
  "{(xs ! i, xs ! j) | i j. missing_run M xs i j} = closed_pairs M xs \<union> open_pairs M xs"
proof (intro equalityI subsetI)
  fix p assume "p \<in> {(xs ! i, xs ! j) | i j. missing_run M xs i j}"
  then obtain i j where p: "p = (xs ! i, xs ! j)" "missing_run M xs i j" by blast
  show "p \<in> closed_pairs M xs \<union> open_pairs M xs"
  proof (cases "closed_run M xs i j")
    case True
    with p show ?thesis by (auto simp: closed_pairs_def)
  next
    case False
    with p(2) have o: "open_run M xs i" "Suc j = length xs" by (auto simp: missing_run_split)
    then have "last xs = xs ! j" using open_run_last [of M xs i] by (metis Suc_inject)
    with o p(1) show ?thesis by (auto simp: open_pairs_def)
  qed
next
  fix p assume "p \<in> closed_pairs M xs \<union> open_pairs M xs"
  then consider i j where "p = (xs ! i, xs ! j)" "closed_run M xs i j"
    | i where "p = (xs ! i, last xs)" "open_run M xs i"
    by (auto simp: closed_pairs_def open_pairs_def)
  then show "p \<in> {(xs ! i, xs ! j) | i j. missing_run M xs i j}"
  proof cases
    case 1
    then show ?thesis by (auto simp: missing_run_split)
  next
    case (2 i)
    then obtain j where "Suc j = length xs" "last xs = xs ! j" using open_run_last by blast
    with 2 have "missing_run M xs i j" "p = (xs ! i, xs ! j)" by (auto simp: missing_run_split)
    then show ?thesis by blast
  qed
qed

lemma closed_pairs_snoc:
  "closed_pairs M (xs @ [x]) = closed_pairs M xs \<union> (if x \<in> M then {} else open_pairs M xs)"
proof -
  have old: "(xs @ [x]) ! i = xs ! i" "(xs @ [x]) ! j = xs ! j" if "missing_run M xs i j" for i j
    using that by (auto simp: missing_run_def nth_append)
  have "closed_pairs M (xs @ [x]) =
      {(xs ! i, xs ! j) | i j. closed_run M xs i j \<or> (x \<notin> M \<and> open_run M xs i \<and> Suc j = length xs)}"
  proof -
    have "(xs @ [x]) ! i = xs ! i \<and> (xs @ [x]) ! j = xs ! j" if "closed_run M (xs @ [x]) i j" for i j
      using that old [of i j] by (auto simp: closed_run_snoc missing_run_split)
    then show ?thesis unfolding closed_pairs_def closed_run_snoc [symmetric] by (metis (lifting))
  qed
  also have "\<dots> = closed_pairs M xs \<union> (if x \<in> M then {} else open_pairs M xs)"
  proof (cases "x \<in> M")
    case True
    then show ?thesis by (simp add: closed_pairs_def)
  next
    case False
    then have "{(xs ! i, xs ! j) | i j. closed_run M xs i j \<or> (x \<notin> M \<and> open_run M xs i \<and> Suc j = length xs)}
        = {(xs ! i, xs ! j) | i j. missing_run M xs i j}" by (simp add: missing_run_split)
    with False show ?thesis by (simp add: run_pairs)
  qed
  finally show ?thesis .
qed

text \<open>The invariant of the loop after the sessions \<open>xs\<close>.\<close>

definition group_inv :: "datetime set \<Rightarrow> datetime list \<Rightarrow> group_state \<Rightarrow> bool" where
  "group_inv M xs st = (case st of (groups, group_start, previous) \<Rightarrow>
     set groups = closed_pairs M xs \<and>
     ((group_start = None \<and> previous = None \<and> (\<forall>k. \<not> open_run M xs k)) \<or>
      (\<exists>i. open_run M xs i \<and> group_start = Some (xs ! i) \<and> previous = Some (last xs))))"

lemma group_inv_step:
  assumes "group_inv (set missing) xs st"
  shows "group_inv (set missing) (xs @ [x]) (group_step missing x st)"
proof -
  obtain groups a b where st: "st = (groups, a, b)" by (cases st) auto
  have nth: "(xs @ [x]) ! i = xs ! i" if "open_run (set missing) xs i" for i
    using that by (simp add: open_run_def nth_append)
  show ?thesis
  proof (cases "x \<in> set missing")
    case True
    with assms nth show ?thesis
      unfolding group_inv_def st by (auto simp: closed_pairs_snoc open_run_snoc)
  next
    case False
    from assms consider "a = None" "b = None" "\<forall>k. \<not> open_run (set missing) xs k"
      | i where "open_run (set missing) xs i" "a = Some (xs ! i)" "b = Some (last xs)"
      unfolding group_inv_def st by auto
    then show ?thesis
      by cases (use False assms in \<open>simp_all add: group_inv_def st closed_pairs_snoc open_run_snoc
          open_pairs_run open_pairs_none insert_commute\<close>)
  qed
qed

lemma group_inv_fold: "group_inv (set missing) xs (fold (group_step missing) xs ([], None, None))"
proof (induction xs rule: rev_induct)
  case Nil
  show ?case by (simp add: group_inv_def closed_pairs_def closed_run_def open_run_def)
next
  case (snoc x xs)
  then show ?case using group_inv_step [of missing xs] by simp
qed

lemma group_runs:
  "set (group_contiguous_sessions expected missing) =
     {(map normalize_ts expected ! i, map normalize_ts expected ! j) | i j.
        missing_run (normalize_ts ` set missing) (map normalize_ts expected) i j}"
proof -
  let ?M = "normalize_ts ` set missing" and ?e = "map normalize_ts expected"
  obtain groups a b where st: "fold (group_step (map normalize_ts missing)) ?e ([], None, None) = (groups, a, b)"
    by (cases "fold (group_step (map normalize_ts missing)) ?e ([], None, None)") auto
  have inv: "group_inv ?M ?e (groups, a, b)"
    using group_inv_fold [of "map normalize_ts missing" ?e] st by simp
  then consider "a = None" "b = None" "\<forall>k. \<not> open_run ?M ?e k"
    | i where "open_run ?M ?e i" "a = Some (?e ! i)" "b = Some (last ?e)"
    by (auto simp: group_inv_def)
  then show ?thesis
    unfolding run_pairs group_contiguous_sessions_def Let_def st
    by cases (use inv in \<open>auto simp: group_inv_def open_pairs_run open_pairs_none\<close>)
qed

text \<open>The gaps that \<open>group_contiguous_sessions\<close> reports are exactly the maximal runs of
  missing sessions among the expected ones: a pair is reported iff it is the first and the last
  session of a run that is missing throughout and bordered by present sessions or the ends.\<close>

theorem groups_are_maximal_runs:
  "(a, b) \<in> set (group_contiguous_sessions expected missing) \<longleftrightarrow>
     (\<exists>i j. i \<le> j \<and> j < length expected \<and>
        a = normalize_ts (expected ! i) \<and> b = normalize_ts (expected ! j) \<and>
        (\<forall>k \<in> {i .. j}. normalize_ts (expected ! k) \<in> normalize_ts ` set missing) \<and>
        (i = 0 \<or> normalize_ts (expected ! (i - 1)) \<notin> normalize_ts ` set missing) \<and>
        (Suc j = length expected \<or> normalize_ts (expected ! Suc j) \<notin> normalize_ts ` set missing))"
    (is "?l \<longleftrightarrow> (\<exists>i j. ?run i j)")
proof -
  have "missing_run (normalize_ts ` set missing) (map normalize_ts expected) i j \<and>
      a = map normalize_ts expected ! i \<and> b = map normalize_ts expected ! j \<longleftrightarrow> ?run i j" for i j
  proof (cases "i \<le> j \<and> j < length expected")
    case True
    then have "Suc j = length expected \<or> Suc j < length expected" by linarith
    with True show ?thesis by (auto simp: missing_run_def)
  next
    case False
    then show ?thesis by (auto simp: missing_run_def)
  qed
  then have "(\<exists>i j. ?run i j) \<longleftrightarrow> (\<exists>i j. missing_run (normalize_ts ` set missing) (map normalize_ts expected) i j \<and>
      a = map normalize_ts expected ! i \<and> b = map normalize_ts expected ! j)" by presburger
  then show ?thesis unfolding group_runs by auto
qed

lemma groups_are_maximal_runs_witness:
  "group_contiguous_sessions [0, 86400000000, 172800000000, 259200000000] [86400000000, 172800000005]
     = [(86400000000, 172800000000)] \<and>
   (\<exists>i j. (86400000000 :: int) = normalize_ts ([0, 86400000000, 172800000000, 259200000000] ! i) \<and> i \<le> j)"
proof -
  have eq: "group_contiguous_sessions [0, 86400000000, 172800000000, 259200000000] [86400000000, 172800000005]
     = [(86400000000, 172800000000)]" by code_simp
  then show ?thesis
    using groups_are_maximal_runs [of 86400000000 172800000000 "[0, 86400000000, 172800000000, 259200000000]"
        "[86400000000, 172800000005]"] by auto
qed

end
