(* ===== verification/Normalization.thy ===== *)
theory Normalization
  imports Data_Contracts Calendars "HOL-Library.Product_Lexorder"
begin

text \<open>
  Provider frames to canonical candidates, \<open>src/data/normalization.py\<close>. A frame is its column
  labels and its rows, each with its index value and one cell per column. What pandas does with
  an index value is a parameter: \<open>pd_timestamp\<close> (the constructor: a wall-clock reading with the
  presence of a zone, NaT, or an exception) and \<open>pd_localize\<close> (the exception that localising a
  naive reading in a zone raises, if any).
\<close>

section \<open>Cells and numbers\<close>

datatype cell =
    CNone
  | CBool bool
  | CNum xfloat
  | CStr string
  | CObject string "xfloat option"

definition is_digit :: "char \<Rightarrow> bool" where
  "is_digit c \<longleftrightarrow> 48 \<le> (of_char c :: nat) \<and> (of_char c :: nat) \<le> 57"

text \<open>Digits with single underscores between them.\<close>

fun digit_part :: "string \<Rightarrow> nat list option" where
  "digit_part [] = None"
| "digit_part [c] = (if is_digit c then Some [of_char c - 48] else None)"
| "digit_part (c # d # cs) =
     (if \<not> is_digit c then None
      else map_option ((#) (of_char c - 48)) (digit_part (if d = CHR ''_'' then cs else d # cs)))"

definition nat_of_digits :: "nat list \<Rightarrow> nat" where
  "nat_of_digits ds = fold (\<lambda>d n. 10 * n + d) ds 0"

fun take_sign :: "string \<Rightarrow> real \<times> string" where
  "take_sign (c # cs) = (if c = CHR ''-'' then (-1, cs) else if c = CHR ''+'' then (1, cs) else (1, c # cs))"
| "take_sign [] = (1, [])"

fun break_at :: "(char \<Rightarrow> bool) \<Rightarrow> string \<Rightarrow> string \<times> string option" where
  "break_at P s = (case dropWhile (\<lambda>c. \<not> P c) s of [] \<Rightarrow> (s, None) | c # rest \<Rightarrow> (takeWhile (\<lambda>c. \<not> P c) s, Some rest))"

definition optional_digits :: "string \<Rightarrow> nat list option" where
  "optional_digits s = (if s = [] then Some [] else digit_part s)"

definition parse_mantissa :: "string \<Rightarrow> real option" where
  "parse_mantissa s = (case break_at (\<lambda>c. c = CHR ''.'') s of
     (whole, None) \<Rightarrow> map_option (\<lambda>ds. real (nat_of_digits ds)) (digit_part whole)
   | (whole, Some part) \<Rightarrow> if whole = [] \<and> part = [] then None
       else (case (optional_digits whole, optional_digits part) of
           (Some ws, Some fs) \<Rightarrow> Some (real (nat_of_digits ws) + real (nat_of_digits fs) / 10 ^ length fs)
         | _ \<Rightarrow> None))"

definition parse_exponent :: "string option \<Rightarrow> real option" where
  "parse_exponent e = (case e of None \<Rightarrow> Some 1
     | Some s \<Rightarrow> (case take_sign s of (sign, ds) \<Rightarrow>
         map_option (\<lambda>n. if sign < 0 then 1 / 10 ^ nat_of_digits n else 10 ^ nat_of_digits n) (digit_part ds)))"

text \<open>\<open>float(s)\<close> of a string: None is the \<open>ValueError\<close>.\<close>

definition float_of_string :: "string \<Rightarrow> xfloat option" where
  "float_of_string s = (case take_sign (py_strip s) of (sign, body) \<Rightarrow>
     let low = py_lower body in
     if low = ''nan'' then Some NaN
     else if low \<in> {''inf'', ''infinity''} then Some (if sign < 0 then NegInf else PosInf)
     else (case break_at (\<lambda>c. c = CHR ''e'') low of (mantissa, exponent) \<Rightarrow>
       (case (parse_mantissa mantissa, parse_exponent exponent) of
          (Some m, Some e) \<Rightarrow> Some (Fin (sign * m * e))
        | _ \<Rightarrow> None)))"

fun as_float :: "cell \<Rightarrow> xfloat" where
  "as_float CNone = NaN"
| "as_float (CBool b) = NaN"
| "as_float (CNum x) = x"
| "as_float (CStr s) = (case float_of_string s of Some x \<Rightarrow> x | None \<Rightarrow> NaN)"
| "as_float (CObject tag f) = (case f of Some x \<Rightarrow> x | None \<Rightarrow> NaN)"

section \<open>Frames\<close>

datatype column = ColName string | ColTuple string "string list"

record provider_frame =
  pf_columns :: "column list"
  pf_rows :: "(cell \<times> cell list) list"

record provider_batch =
  pb_provider :: provider
  pb_request :: acquisition_request
  pb_frame :: provider_frame
  pb_received_at :: datetime
  pb_native_timezone :: "string option"
  pb_action_coverage :: action_coverage

record canonical_row =
  cr_timestamp :: datetime
  cr_symbol :: string
  cr_open :: cell
  cr_high :: cell
  cr_low :: cell
  cr_close :: cell
  cr_volume :: cell
  cr_adj_close :: cell
  cr_dividend_amount :: cell
  cr_split_coefficient :: cell
  cr_source :: string

text \<open>A row of the internal candidate frame also keeps its position in the provider frame.\<close>

record candidate_row = canonical_row +
  cr_source_row_number :: nat

definition CANONICAL_COLUMNS :: "string list" where
  "CANONICAL_COLUMNS = [''timestamp'', ''symbol'', ''open'', ''high'', ''low'', ''close'', ''volume'',
     ''adj_close'', ''dividend_amount'', ''split_coefficient'', ''source'']"

definition NUMERIC_COLUMNS :: "string list" where
  "NUMERIC_COLUMNS = [''open'', ''high'', ''low'', ''close'', ''volume'', ''adj_close'',
     ''dividend_amount'', ''split_coefficient'']"

definition yfinance_fields :: "(string, string) dict" where
  "yfinance_fields = [(''open'', ''open''), (''high'', ''high''), (''low'', ''low''), (''close'', ''close''),
     (''volume'', ''volume''), (''adj close'', ''adj_close''), (''dividends'', ''dividend_amount''),
     (''stock splits'', ''split_coefficient'')]"

definition alpha_vantage_fields :: "(string, string) dict" where
  "alpha_vantage_fields = [(''1. open'', ''open''), (''2. high'', ''high''), (''3. low'', ''low''),
     (''4. close'', ''close''), (''6. volume'', ''volume''), (''5. adjusted close'', ''adj_close''),
     (''7. dividend amount'', ''dividend_amount''), (''8. split coefficient'', ''split_coefficient'')]"

text \<open>The essential fields in alphabetical order, the order in which missing ones are reported.\<close>

definition essential_fields :: "string list" where
  "essential_fields = [''adj_close'', ''close'', ''high'', ''low'', ''open'', ''volume'']"

record normalization_counters =
  nc_provider_rows :: int
  nc_timestamp_unclassifiable_rows :: int
  nc_out_of_range_rows :: int
  nc_in_range_rows :: int
  nc_dedupe_input_rows :: int

definition normalization_counters_valid :: "normalization_counters \<Rightarrow> bool" where
  "normalization_counters_valid c \<longleftrightarrow>
     nc_provider_rows c = nc_timestamp_unclassifiable_rows c + nc_out_of_range_rows c + nc_in_range_rows c \<and>
     nc_in_range_rows c = nc_dedupe_input_rows c"

record normalization_result =
  nr_provider :: provider
  nr_counters :: normalization_counters
  nr_findings :: "quality_finding list"
  nr_timestamp_rejections :: "rejected_row list"
  nr_candidate_frame :: "candidate_row list"

definition findings_fatal :: "quality_finding list \<Rightarrow> bool" where
  "findings_fatal fs \<longleftrightarrow> list_ex (\<lambda>f. qf_severity f = FATAL) fs"

definition normalization_is_fatal :: "normalization_result \<Rightarrow> bool" where
  "normalization_is_fatal r = findings_fatal (nr_findings r)"

section \<open>Columns\<close>

fun column_name :: "column \<Rightarrow> string" where
  "column_name (ColTuple first rest) = py_lower (py_strip first)"
| "column_name (ColName name) = py_lower (py_strip name)"

fun column_symbol :: "column \<Rightarrow> string list" where
  "column_symbol (ColTuple first (second # rest)) =
     (if py_strip second \<noteq> [] then [py_upper (py_strip second)] else [])"
| "column_symbol _ = []"

fun native_columns :: "column list \<Rightarrow> (string, column) dict \<Rightarrow> (string, column) dict result" where
  "native_columns [] native = Inr native"
| "native_columns (column # columns) native =
     (if dict_get native (column_name column) \<noteq> None then Inl (ValueError ''ambiguous provider field'')
      else native_columns columns (dict_set native (column_name column) column))"

definition provider_fields :: "provider \<Rightarrow> (string, string) dict" where
  "provider_fields p = (if p = YFINANCE then yfinance_fields else alpha_vantage_fields)"

definition provider_columns :: "provider_batch \<Rightarrow> ((string, column) dict \<times> (string, string) dict) result" where
  "provider_columns batch =
     rbind (native_columns (pf_columns (pb_frame batch)) []) (\<lambda>native.
       let seen_symbols = concat (map column_symbol (pf_columns (pb_frame batch))) in
       if seen_symbols \<noteq> [] \<and> set seen_symbols \<noteq> {ar_symbol (pb_request batch)}
       then Inl (ValueError ''provider frame contains the wrong symbol'')
       else Inr (native, provider_fields (pb_provider batch)))"

section \<open>Timestamps\<close>

datatype pd_error = PdTypeError | PdValueError | PdOverflowError | PdZoneNotFound | PdOther string

record pd_api =
  pd_timestamp :: "cell \<Rightarrow> pd_error + (datetime \<times> bool) option"
  pd_localize :: "datetime \<Rightarrow> string \<Rightarrow> pd_error option"

fun caught :: "pd_error \<Rightarrow> 'a option \<Rightarrow> pd_error + 'a option" where
  "caught (PdOther m) v = Inl (PdOther m)"
| "caught _ v = Inr v"

definition parse_daily_timestamp :: "pd_api \<Rightarrow> cell \<Rightarrow> string option \<Rightarrow> pd_error + datetime option" where
  "parse_daily_timestamp pd value native_timezone =
     (case value of CNone \<Rightarrow> Inr None | CBool _ \<Rightarrow> Inr None | CNum _ \<Rightarrow> Inr None
      | _ \<Rightarrow> (case pd_timestamp pd value of
          Inl e \<Rightarrow> caught e None
        | Inr None \<Rightarrow> Inr None
        | Inr (Some (reading, zoned)) \<Rightarrow>
            (case (if zoned then None else native_timezone) of
               None \<Rightarrow> Inr (Some (normalize_ts reading))
             | Some zone \<Rightarrow> (case pd_localize pd reading zone of
                 Some e \<Rightarrow> caught e None
               | None \<Rightarrow> Inr (Some (normalize_ts reading))))))"

section \<open>Normalisation\<close>

text \<open>\<open>provider_row.loc[column]\<close>: labels are unique once the native names are.\<close>

definition row_cell :: "column list \<Rightarrow> cell list \<Rightarrow> column \<Rightarrow> cell" where
  "row_cell columns cells column = (case map_of (zip columns cells) column of Some c \<Rightarrow> c | None \<Rightarrow> CNone)"

definition canonical_value ::
    "(string, column) dict \<Rightarrow> (string, string) dict \<Rightarrow> column list \<Rightarrow> cell list \<Rightarrow> string \<Rightarrow> xfloat option" where
  "canonical_value native field_mapping columns cells name =
     (case find (\<lambda>(native_name, canonical_name). canonical_name = name \<and> dict_get native native_name \<noteq> None) field_mapping of
        None \<Rightarrow> None
      | Some (native_name, canonical_name) \<Rightarrow>
          map_option (\<lambda>column. as_float (row_cell columns cells column)) (dict_get native native_name))"

definition value_or :: "xfloat option \<Rightarrow> xfloat \<Rightarrow> cell" where
  "value_or v d = CNum (case v of Some x \<Rightarrow> x | None \<Rightarrow> d)"

definition canonical_row_of ::
    "provider_batch \<Rightarrow> (string, column) dict \<Rightarrow> (string, string) dict \<Rightarrow> nat \<Rightarrow> datetime \<Rightarrow> cell list \<Rightarrow> candidate_row" where
  "canonical_row_of batch native field_mapping number timestamp cells =
     (let get = canonical_value native field_mapping (pf_columns (pb_frame batch)) cells;
          represented = (pb_action_coverage batch = REPRESENTED)
      in \<lparr>cr_timestamp = timestamp, cr_symbol = ar_symbol (pb_request batch),
          cr_open = value_or (get ''open'') NaN, cr_high = value_or (get ''high'') NaN,
          cr_low = value_or (get ''low'') NaN, cr_close = value_or (get ''close'') NaN,
          cr_volume = value_or (get ''volume'') NaN, cr_adj_close = value_or (get ''adj_close'') NaN,
          cr_dividend_amount = value_or (get ''dividend_amount'') (if represented then Fin 0 else NaN),
          cr_split_coefficient = value_or (get ''split_coefficient'') (if represented then Fin 1 else NaN),
          cr_source = provider_value (pb_provider batch), cr_source_row_number = number\<rparr>)"

record row_loop =
  rl_rejections :: "rejected_row list"
  rl_rows :: "candidate_row list"
  rl_unclassifiable :: int
  rl_out_of_range :: int

definition classify_row ::
    "(string \<Rightarrow> string) \<Rightarrow> pd_api \<Rightarrow> provider_batch \<Rightarrow> (string, column) dict \<Rightarrow> (string, string) dict \<Rightarrow>
     nat \<times> cell \<times> cell list \<Rightarrow> row_loop \<Rightarrow> pd_error + row_loop" where
  "classify_row redact pd batch native field_mapping = (\<lambda>(number, value, cells) s.
     rbind (parse_daily_timestamp pd value (pb_native_timezone batch)) (\<lambda>parsed.
       case parsed of
         None \<Rightarrow> Inr (s\<lparr>rl_unclassifiable := rl_unclassifiable s + 1,
           rl_rejections := rl_rejections s @ [mk_rejected redact number ''timestamp_unclassifiable'' None]\<rparr>)
       | Some timestamp \<Rightarrow>
           if timestamp < ar_start (pb_request batch) * 86400000000 \<or>
              timestamp > ar_end (pb_request batch) * 86400000000
           then Inr (s\<lparr>rl_out_of_range := rl_out_of_range s + 1\<rparr>)
           else Inr (s\<lparr>rl_rows := rl_rows s @ [canonical_row_of batch native field_mapping number timestamp cells]\<rparr>)))"

definition row_key :: "candidate_row \<Rightarrow> datetime \<times> nat" where
  "row_key r = (cr_timestamp r, cr_source_row_number r)"

datatype norm_error = Pandas pd_error | CounterAssertion

definition fatal_schema_result ::
    "(string \<Rightarrow> string) \<Rightarrow> provider_batch \<Rightarrow> int \<Rightarrow> string \<Rightarrow> norm_error + normalization_result" where
  "fatal_schema_result redact batch provider_rows reason =
     (let counters = \<lparr>nc_provider_rows = provider_rows, nc_timestamp_unclassifiable_rows = provider_rows,
            nc_out_of_range_rows = 0, nc_in_range_rows = 0, nc_dedupe_input_rows = 0\<rparr>
      in if \<not> normalization_counters_valid counters then Inl CounterAssertion
         else Inr \<lparr>nr_provider = pb_provider batch, nr_counters = counters,
           nr_findings = [mk_finding redact FATAL ''unusable_schema''
             ''provider frame cannot be mapped to the canonical schema'' [(''reason'', MStr reason)]],
           nr_timestamp_rejections = [], nr_candidate_frame = []\<rparr>)"

fun join_with :: "string \<Rightarrow> string list \<Rightarrow> string" where
  "join_with sep [] = []"
| "join_with sep [x] = x"
| "join_with sep (x # y # ys) = x @ sep @ join_with sep (y # ys)"

fun error_text :: "py_error \<Rightarrow> string" where
  "error_text (ValueError m) = m"
| "error_text _ = []"

definition missing_essential :: "(string, column) dict \<Rightarrow> (string, string) dict \<Rightarrow> string list" where
  "missing_essential native field_mapping =
     (let available = map snd (filter (\<lambda>(native_name, canonical). dict_get native native_name \<noteq> None) field_mapping)
      in filter (\<lambda>f. f \<notin> set available) essential_fields)"

definition normalize_provider_batch ::
    "(string \<Rightarrow> string) \<Rightarrow> pd_api \<Rightarrow> provider_batch \<Rightarrow> norm_error + normalization_result" where
  "normalize_provider_batch redact pd batch =
     (let provider_rows = int (length (pf_rows (pb_frame batch))) in
      case provider_columns batch of
        Inl error \<Rightarrow> fatal_schema_result redact batch provider_rows (error_text error)
      | Inr (native, field_mapping) \<Rightarrow>
          if missing_essential native field_mapping \<noteq> []
          then fatal_schema_result redact batch provider_rows
                 (''missing required provider fields: '' @ join_with '', '' (missing_essential native field_mapping))
          else (case rfold (classify_row redact pd batch native field_mapping)
                   (enumerate 0 (pf_rows (pb_frame batch)))
                   \<lparr>rl_rejections = [], rl_rows = [], rl_unclassifiable = 0, rl_out_of_range = 0\<rparr> of
              Inl e \<Rightarrow> Inl (Pandas e)
            | Inr s \<Rightarrow>
                let candidate = sort_key row_key (rl_rows s);
                    in_range = int (length candidate);
                    counters = \<lparr>nc_provider_rows = provider_rows,
                      nc_timestamp_unclassifiable_rows = rl_unclassifiable s,
                      nc_out_of_range_rows = rl_out_of_range s, nc_in_range_rows = in_range,
                      nc_dedupe_input_rows = in_range\<rparr>
                in if \<not> normalization_counters_valid counters then Inl CounterAssertion
                   else Inr \<lparr>nr_provider = pb_provider batch, nr_counters = counters,
                     nr_findings =
                       [mk_finding redact INFO ''normalized''
                          ''provider rows mapped, range-filtered, and stably sorted''
                          [(''provider'', MStr (provider_value (pb_provider batch)))]] @
                       (if rl_rejections s \<noteq> []
                        then [mk_finding redact WARNING ''timestamp_unclassifiable''
                                ''provider rows had unclassifiable timestamps''
                                [(''rows'', MInt (int (length (rl_rejections s))))]]
                        else []),
                     nr_timestamp_rejections = rl_rejections s, nr_candidate_frame = candidate\<rparr>))"

section \<open>Properties\<close>

text \<open>What the parser says of row \<open>k\<close>, and where the row belongs.\<close>

definition row_time :: "pd_api \<Rightarrow> provider_batch \<Rightarrow> nat \<Rightarrow> pd_error + datetime option" where
  "row_time pd batch k =
     parse_daily_timestamp pd (fst (pf_rows (pb_frame batch) ! k)) (pb_native_timezone batch)"

definition in_request :: "provider_batch \<Rightarrow> datetime \<Rightarrow> bool" where
  "in_request batch t \<longleftrightarrow> ar_start (pb_request batch) * 86400000000 \<le> t \<and>
     t \<le> ar_end (pb_request batch) * 86400000000"

definition row_unclassifiable :: "pd_api \<Rightarrow> provider_batch \<Rightarrow> nat \<Rightarrow> bool" where
  "row_unclassifiable pd batch k \<longleftrightarrow> row_time pd batch k = Inr None"

definition row_in_range :: "pd_api \<Rightarrow> provider_batch \<Rightarrow> nat \<Rightarrow> bool" where
  "row_in_range pd batch k \<longleftrightarrow> (\<exists>t. row_time pd batch k = Inr (Some t) \<and> in_request batch t)"

lemma rfold_classify:
  assumes "\<And>k. k < n \<Longrightarrow> \<exists>t. row_time pd batch k = Inr t" and "n \<le> length (pf_rows (pb_frame batch))"
  shows "rfold (classify_row redact pd batch native field_mapping) (take n (enumerate 0 (pf_rows (pb_frame batch))))
      \<lparr>rl_rejections = [], rl_rows = [], rl_unclassifiable = 0, rl_out_of_range = 0\<rparr> =
    Inr \<lparr>rl_rejections = map (\<lambda>k. mk_rejected redact k ''timestamp_unclassifiable'' None)
           (filter (row_unclassifiable pd batch) [0 ..< n]),
         rl_rows = map (\<lambda>k. canonical_row_of batch native field_mapping k
             (case row_time pd batch k of Inr (Some t) \<Rightarrow> t | _ \<Rightarrow> 0) (snd (pf_rows (pb_frame batch) ! k)))
           (filter (row_in_range pd batch) [0 ..< n]),
         rl_unclassifiable = int (length (filter (row_unclassifiable pd batch) [0 ..< n])),
         rl_out_of_range = int (length (filter (\<lambda>k. \<not> row_unclassifiable pd batch k \<and> \<not> row_in_range pd batch k) [0 ..< n]))\<rparr>"
  using assms
proof (induction n)
  case 0
  then show ?case by simp
next
  case (Suc n)
  let ?rows = "pf_rows (pb_frame batch)"
  have row: "take (Suc n) (enumerate 0 ?rows) = take n (enumerate 0 ?rows) @ [(n, ?rows ! n)]"
    using Suc.prems(2) by (simp add: take_Suc_conv_app_nth nth_enumerate_eq)
  obtain t where t: "row_time pd batch n = Inr t" using Suc.prems(1) by blast
  then have parse: "parse_daily_timestamp pd (fst (?rows ! n)) (pb_native_timezone batch) = Inr t"
    by (simp add: row_time_def)
  show ?case
  proof (cases t)
    case None
    then have "row_unclassifiable pd batch n" "\<not> row_in_range pd batch n"
      using t by (simp_all add: row_unclassifiable_def row_in_range_def)
    with Suc parse None show ?thesis
      by (simp add: row rfold_append classify_row_def split_def)
  next
    case (Some u)
    then have "\<not> row_unclassifiable pd batch n" "row_in_range pd batch n \<longleftrightarrow> in_request batch u"
      using t by (simp_all add: row_unclassifiable_def row_in_range_def)
    with Suc parse Some t show ?thesis
      by (auto simp: row rfold_append classify_row_def split_def in_request_def)
  qed
qed

lemma rfold_classify_all:
  assumes "\<And>k. k < length (pf_rows (pb_frame batch)) \<Longrightarrow> \<exists>t. row_time pd batch k = Inr t"
  shows "\<exists>s. rfold (classify_row redact pd batch native field_mapping) (enumerate 0 (pf_rows (pb_frame batch)))
      \<lparr>rl_rejections = [], rl_rows = [], rl_unclassifiable = 0, rl_out_of_range = 0\<rparr> = Inr s \<and>
    map rj_source_row_number (rl_rejections s) = filter (row_unclassifiable pd batch) [0 ..< length (pf_rows (pb_frame batch))] \<and>
    map cr_source_row_number (rl_rows s) = filter (row_in_range pd batch) [0 ..< length (pf_rows (pb_frame batch))] \<and>
    (\<forall>r \<in> set (rl_rows s). row_time pd batch (cr_source_row_number r) = Inr (Some (cr_timestamp r)) \<and>
       in_request batch (cr_timestamp r) \<and> cr_symbol r = ar_symbol (pb_request batch) \<and>
       cr_source r = provider_value (pb_provider batch)) \<and>
    rl_unclassifiable s = int (length (filter (row_unclassifiable pd batch) [0 ..< length (pf_rows (pb_frame batch))])) \<and>
    rl_out_of_range s = int (length (filter (\<lambda>k. \<not> row_unclassifiable pd batch k \<and> \<not> row_in_range pd batch k)
       [0 ..< length (pf_rows (pb_frame batch))]))"
proof -
  let ?n = "length (pf_rows (pb_frame batch))"
  have all: "take ?n (enumerate 0 (pf_rows (pb_frame batch))) = enumerate 0 (pf_rows (pb_frame batch))" by simp
  have num: "cr_source_row_number (canonical_row_of batch native field_mapping k t c) = k"
    "cr_timestamp (canonical_row_of batch native field_mapping k t c) = t"
    "cr_symbol (canonical_row_of batch native field_mapping k t c) = ar_symbol (pb_request batch)"
    "cr_source (canonical_row_of batch native field_mapping k t c) = provider_value (pb_provider batch)" for k t c
    by (simp_all add: canonical_row_of_def Let_def)
  show ?thesis
    using rfold_classify [of ?n pd batch redact native field_mapping, OF assms] unfolding all
    by (auto simp: num comp_def row_in_range_def)
qed

definition schema_ok :: "provider_batch \<Rightarrow> bool" where
  "schema_ok batch = (case provider_columns batch of Inl _ \<Rightarrow> False
     | Inr (native, field_mapping) \<Rightarrow> missing_essential native field_mapping = [])"

lemma sort_key_strict:
  fixes f :: "'a \<Rightarrow> 'b :: linorder"
  assumes "distinct (map f xs)"
  shows "sorted_wrt (\<lambda>a b. f a < f b) (sort_key f xs)"
proof -
  have "mset (map f (sort_key f xs)) = mset (map f xs)" by simp
  then have "distinct (map f (sort_key f xs))" using assms by (metis mset_eq_imp_distinct_iff)
  then have "sorted_wrt (<) (map f (sort_key f xs))" by (simp add: strict_sorted_iff)
  then show ?thesis by (simp add: sorted_wrt_map)
qed

lemma distinct_row_keys: "distinct (map cr_source_row_number xs) \<Longrightarrow> distinct (map row_key xs)"
  by (auto simp: distinct_map inj_on_def row_key_def)

lemma count_split:
  "length xs = length (filter P xs) + length (filter (\<lambda>x. \<not> P x \<and> \<not> Q x) xs) + length (filter Q xs)"
  if "\<And>x. \<not> (P x \<and> Q x)"
  using that by (induction xs) auto

lemma fatal_schema_Inr:
  "\<exists>r. fatal_schema_result redact batch n reason = Inr r \<and> normalization_counters_valid (nr_counters r) \<and>
     nc_provider_rows (nr_counters r) = n \<and> nc_in_range_rows (nr_counters r) = 0 \<and>
     normalization_is_fatal r \<and> nr_candidate_frame r = [] \<and> nr_timestamp_rejections r = []"
  by (simp add: fatal_schema_result_def normalization_counters_valid_def normalization_is_fatal_def findings_fatal_def)

lemma normalize_usable:
  assumes rows: "\<And>k. k < length (pf_rows (pb_frame batch)) \<Longrightarrow> \<exists>t. row_time pd batch k = Inr t"
    and ok: "schema_ok batch"
  shows "\<exists>r. normalize_provider_batch redact pd batch = Inr r \<and>
    normalization_counters_valid (nr_counters r) \<and> \<not> normalization_is_fatal r \<and>
    nc_provider_rows (nr_counters r) = int (length (pf_rows (pb_frame batch))) \<and>
    nc_in_range_rows (nr_counters r) = int (length (nr_candidate_frame r)) \<and>
    sorted_wrt (\<lambda>a b. row_key a < row_key b) (nr_candidate_frame r) \<and>
    cr_source_row_number ` set (nr_candidate_frame r) = {k. k < length (pf_rows (pb_frame batch)) \<and> row_in_range pd batch k} \<and>
    map rj_source_row_number (nr_timestamp_rejections r)
      = filter (row_unclassifiable pd batch) [0 ..< length (pf_rows (pb_frame batch))] \<and>
    (\<forall>c \<in> set (nr_candidate_frame r). row_time pd batch (cr_source_row_number c) = Inr (Some (cr_timestamp c)) \<and>
       in_request batch (cr_timestamp c) \<and> cr_symbol c = ar_symbol (pb_request batch) \<and>
       cr_source c = provider_value (pb_provider batch))"
proof -
  let ?n = "length (pf_rows (pb_frame batch))"
  from ok obtain native field_mapping where cols: "provider_columns batch = Inr (native, field_mapping)"
      "missing_essential native field_mapping = []"
    by (auto simp: schema_ok_def split: sum.splits)
  obtain s where s: "rfold (classify_row redact pd batch native field_mapping) (enumerate 0 (pf_rows (pb_frame batch)))
        \<lparr>rl_rejections = [], rl_rows = [], rl_unclassifiable = 0, rl_out_of_range = 0\<rparr> = Inr s"
      "map rj_source_row_number (rl_rejections s) = filter (row_unclassifiable pd batch) [0 ..< ?n]"
      "map cr_source_row_number (rl_rows s) = filter (row_in_range pd batch) [0 ..< ?n]"
      "\<forall>r \<in> set (rl_rows s). row_time pd batch (cr_source_row_number r) = Inr (Some (cr_timestamp r)) \<and>
         in_request batch (cr_timestamp r) \<and> cr_symbol r = ar_symbol (pb_request batch) \<and>
         cr_source r = provider_value (pb_provider batch)"
      "rl_unclassifiable s = int (length (filter (row_unclassifiable pd batch) [0 ..< ?n]))"
      "rl_out_of_range s = int (length (filter (\<lambda>k. \<not> row_unclassifiable pd batch k \<and> \<not> row_in_range pd batch k) [0 ..< ?n]))"
    using rfold_classify_all [OF rows, of redact native field_mapping] by blast
  have dist: "distinct (map cr_source_row_number (rl_rows s))" unfolding s(3) by simp
  have "int ?n = rl_unclassifiable s + rl_out_of_range s + int (length (rl_rows s))"
  proof -
    have "length (rl_rows s) = length (filter (row_in_range pd batch) [0 ..< ?n])" using s(3) by (metis length_map)
    moreover have "\<not> (row_unclassifiable pd batch k \<and> row_in_range pd batch k)" for k
      by (auto simp: row_unclassifiable_def row_in_range_def)
    ultimately show ?thesis
      using count_split [of "row_unclassifiable pd batch" "row_in_range pd batch" "[0 ..< ?n]"] s(5,6) by simp
  qed
  moreover have "sorted_wrt (\<lambda>a b. row_key a < row_key b) (sort_key row_key (rl_rows s))"
    by (rule sort_key_strict [OF distinct_row_keys [OF dist]])
  moreover have "cr_source_row_number ` set (rl_rows s) = {k. k < ?n \<and> row_in_range pd batch k}"
    using arg_cong [OF s(3), of set] by auto
  ultimately show ?thesis
    using s cols
    by (auto simp: normalize_provider_batch_def Let_def normalization_counters_valid_def
        normalization_is_fatal_def findings_fatal_def)
qed

lemma normalize_unusable:
  assumes "\<not> schema_ok batch"
  shows "\<exists>r. normalize_provider_batch redact pd batch = Inr r \<and>
    normalization_counters_valid (nr_counters r) \<and> normalization_is_fatal r \<and>
    nc_provider_rows (nr_counters r) = int (length (pf_rows (pb_frame batch))) \<and>
    nc_in_range_rows (nr_counters r) = 0 \<and> nr_candidate_frame r = [] \<and> nr_timestamp_rejections r = []"
proof -
  let ?n = "int (length (pf_rows (pb_frame batch)))"
  have "\<exists>reason. normalize_provider_batch redact pd batch = fatal_schema_result redact batch ?n reason"
  proof (cases "provider_columns batch")
    case (Inl e)
    then show ?thesis by (auto simp: normalize_provider_batch_def)
  next
    case (Inr c)
    then show ?thesis using assms by (cases c) (auto simp: normalize_provider_batch_def schema_ok_def)
  qed
  then show ?thesis using fatal_schema_Inr [of redact batch ?n] by metis
qed

text \<open>Normalisation accounts for every provider row exactly once. If the timestamp parser raises
  only exceptions that are caught, the counter assertions hold and: an unusable schema gives an
  empty fatal result; otherwise the candidate holds exactly the rows whose timestamp lies in the
  requested range, in strictly increasing order of timestamp and row number, the rejections are
  exactly the rows without a timestamp, and the remaining rows are counted as out of range.\<close>

theorem normalization_accounts_for_rows:
  assumes "\<And>k. k < length (pf_rows (pb_frame batch)) \<Longrightarrow> \<exists>t. row_time pd batch k = Inr t"
  shows "\<exists>r. normalize_provider_batch redact pd batch = Inr r \<and>
    normalization_counters_valid (nr_counters r) \<and>
    nc_provider_rows (nr_counters r) = int (length (pf_rows (pb_frame batch))) \<and>
    nc_in_range_rows (nr_counters r) = int (length (nr_candidate_frame r)) \<and>
    (normalization_is_fatal r \<longleftrightarrow> \<not> schema_ok batch) \<and>
    (if schema_ok batch
     then sorted_wrt (\<lambda>a b. row_key a < row_key b) (nr_candidate_frame r) \<and>
       cr_source_row_number ` set (nr_candidate_frame r)
         = {k. k < length (pf_rows (pb_frame batch)) \<and> row_in_range pd batch k} \<and>
       map rj_source_row_number (nr_timestamp_rejections r)
         = filter (row_unclassifiable pd batch) [0 ..< length (pf_rows (pb_frame batch))]
     else nr_candidate_frame r = [])"
proof (cases "schema_ok batch")
  case True
  obtain r where "normalize_provider_batch redact pd batch = Inr r"
      "normalization_counters_valid (nr_counters r)" "\<not> normalization_is_fatal r"
      "nc_provider_rows (nr_counters r) = int (length (pf_rows (pb_frame batch)))"
      "nc_in_range_rows (nr_counters r) = int (length (nr_candidate_frame r))"
      "sorted_wrt (\<lambda>a b. row_key a < row_key b) (nr_candidate_frame r)"
      "cr_source_row_number ` set (nr_candidate_frame r)
         = {k. k < length (pf_rows (pb_frame batch)) \<and> row_in_range pd batch k}"
      "map rj_source_row_number (nr_timestamp_rejections r)
         = filter (row_unclassifiable pd batch) [0 ..< length (pf_rows (pb_frame batch))]"
    using normalize_usable [OF assms True, of redact] by blast
  with True show ?thesis by simp
next
  case False
  with normalize_unusable [OF False, of redact pd] show ?thesis by auto
qed

definition demo_pd :: pd_api where
  "demo_pd = \<lparr>pd_timestamp = (\<lambda>c. case c of CStr ''2022-01-10'' \<Rightarrow> Inr (Some (1641816000000000, False))
       | CStr ''2022-01-11'' \<Rightarrow> Inr (Some (1641859200000000, False)) | _ \<Rightarrow> Inl PdValueError),
     pd_localize = (\<lambda>_ _. None)\<rparr>"

definition demo_batch :: provider_batch where
  "demo_batch = \<lparr>pb_provider = ALPHA_VANTAGE, pb_request = demo_request, pb_frame = \<lparr>pf_columns =
       map ColName [''1. open'', ''2. high'', ''3. low'', ''4. close'', ''5. adjusted close'', ''6. volume'',
         ''7. dividend amount'', ''8. split coefficient''],
     pf_rows = [(CStr ''2022-01-11'', map CStr [''10.5'', ''12'', ''1e1'', ''11'', ''11'', ''1_000'', ''0'', ''1'']),
        (CStr ''n/a'', map CStr [''1'', ''1'', ''1'', ''1'', ''1'', ''1'', ''0'', ''1'']),
        (CStr ''2022-01-10'', map CStr [''10'', ''12'', ''9'', ''11'', ''11'', ''5'', ''0'', ''1''])]\<rparr>,
     pb_received_at = 1642000000000000, pb_native_timezone = Some ''America/New_York'', pb_action_coverage = REPRESENTED\<rparr>"

lemma demo_batch_rows: "k < length (pf_rows (pb_frame demo_batch)) \<Longrightarrow> \<exists>t. row_time demo_pd demo_batch k = Inr t"
  by (auto simp: demo_batch_def demo_pd_def row_time_def parse_daily_timestamp_def less_Suc_eq numeral_3_eq_3)

lemma normalization_accounts_for_rows_witness:
  "\<exists>r. normalize_provider_batch (\<lambda>s. s) demo_pd demo_batch = Inr r \<and>
     map cr_source_row_number (nr_candidate_frame r) = [2, 0] \<and>
     map rj_source_row_number (nr_timestamp_rejections r) = [1] \<and> normalization_counters_valid (nr_counters r)"
proof -
  have "(case normalize_provider_batch (\<lambda>s. s) demo_pd demo_batch of Inl _ \<Rightarrow> False
      | Inr r \<Rightarrow> map cr_source_row_number (nr_candidate_frame r) = [2, 0] \<and>
          map rj_source_row_number (nr_timestamp_rejections r) = [1])"
    by code_simp
  then show ?thesis
    using normalization_accounts_for_rows [OF demo_batch_rows, of "\<lambda>s. s"] by auto
qed

end
