(* ===== verification/Quality.thy ===== *)
theory Quality
  imports Normalization
begin

text \<open>
  Quality evaluation of candidates and of complete requests, \<open>src/data/quality.py\<close>. The digest
  of \<open>hashlib\<close> and the text that \<open>json\<close> writes for a float are parameters of the action
  signature. A frame is its column names, its column types, whether its timestamps carry a
  zone, and its rows.
\<close>

section \<open>Rows\<close>

fun numeric_cell :: "'a canonical_row_scheme \<Rightarrow> string \<Rightarrow> cell" where
  "numeric_cell r column =
     (if column = ''open'' then cr_open r else if column = ''high'' then cr_high r
      else if column = ''low'' then cr_low r else if column = ''close'' then cr_close r
      else if column = ''volume'' then cr_volume r else if column = ''adj_close'' then cr_adj_close r
      else if column = ''dividend_amount'' then cr_dividend_amount r else cr_split_coefficient r)"

declare numeric_cell.simps [simp del]

text \<open>\<open>isinstance(value, int | float)\<close> and finite; a \<open>bool\<close> is an \<open>int\<close>.\<close>

fun finite_numeric :: "cell \<Rightarrow> real option" where
  "finite_numeric (CNum (Fin x)) = Some x"
| "finite_numeric (CBool b) = Some (if b then 1 else 0)"
| "finite_numeric _ = None"

definition reason_if :: "bool \<Rightarrow> string \<Rightarrow> string list" where
  "reason_if b reason = (if b then [reason] else [])"

definition row_reasons :: "'a canonical_row_scheme \<Rightarrow> string list" where
  "row_reasons r =
     (let values = (\<lambda>column. finite_numeric (numeric_cell r column));
          below = (\<lambda>column P. case values column of Some v \<Rightarrow> P v | None \<Rightarrow> False)
      in concat (map (\<lambda>column. reason_if (values column = None) (column @ ''_not_finite_numeric'')) NUMERIC_COLUMNS) @
         concat (map (\<lambda>column. reason_if (below column (\<lambda>v. v \<le> 0)) (column @ ''_not_positive''))
           [''open'', ''high'', ''low'', ''close'', ''adj_close'']) @
         reason_if (below ''volume'' (\<lambda>v. v < 0)) ''volume_negative'' @
         reason_if (below ''dividend_amount'' (\<lambda>v. v < 0)) ''dividend_amount_negative'' @
         reason_if (below ''split_coefficient'' (\<lambda>v. v \<le> 0)) ''split_coefficient_not_positive'' @
         reason_if (case (values ''high'', values ''open'', values ''close'') of
             (Some h, Some op, Some cl) \<Rightarrow> h < max op cl | _ \<Rightarrow> False) ''high_below_open_or_close'' @
         reason_if (case (values ''low'', values ''open'', values ''close'') of
             (Some l, Some op, Some cl) \<Rightarrow> min op cl < l | _ \<Rightarrow> False) ''low_above_open_or_close'' @
         reason_if (case (values ''adj_close'', values ''close'') of
             (Some ac, Some cl) \<Rightarrow> cl \<noteq> 0 \<and> ac / cl \<le> 0 | _ \<Rightarrow> False) ''adjustment_factor_not_positive_finite'')"

fun cell_isna :: "cell \<Rightarrow> bool" where
  "cell_isna CNone = True"
| "cell_isna (CNum NaN) = True"
| "cell_isna _ = False"

fun cell_eq :: "cell \<Rightarrow> cell \<Rightarrow> bool" where
  "cell_eq (CNum x) (CNum y) = (x \<noteq> NaN \<and> x = y)"
| "cell_eq (CBool b) (CNum y) = (y = Fin (if b then 1 else 0))"
| "cell_eq (CNum x) (CBool b) = (x = Fin (if b then 1 else 0))"
| "cell_eq c d = (c = d)"

definition same_duplicate_value :: "cell \<Rightarrow> cell \<Rightarrow> bool" where
  "same_duplicate_value left right = (if cell_isna left \<and> cell_isna right then True else cell_eq left right)"

definition same_row :: "'a canonical_row_scheme \<Rightarrow> 'a canonical_row_scheme \<Rightarrow> bool" where
  "same_row a b \<longleftrightarrow> cr_symbol a = cr_symbol b \<and>
     list_all (\<lambda>column. same_duplicate_value (numeric_cell a column) (numeric_cell b column)) NUMERIC_COLUMNS \<and>
     cr_source a = cr_source b"

fun rows_identical :: "'a canonical_row_scheme list \<Rightarrow> bool" where
  "rows_identical [] = True"
| "rows_identical (first # rest) = list_all (same_row first) rest"

text \<open>\<open>groupby("timestamp", sort=False)\<close>: groups in the order of their first rows.\<close>

function group_by_timestamp :: "'a canonical_row_scheme list \<Rightarrow> 'a canonical_row_scheme list list" where
  "group_by_timestamp [] = []"
| "group_by_timestamp (r # rs) =
     (r # filter (\<lambda>s. cr_timestamp s = cr_timestamp r) rs) #
     group_by_timestamp (filter (\<lambda>s. cr_timestamp s \<noteq> cr_timestamp r) rs)"
  by pat_completeness auto
termination by (relation "measure length") (auto simp: less_Suc_eq_le)

section \<open>Results\<close>

record reconciliation_counters =
  rc_provider_rows :: int
  rc_timestamp_unclassifiable_rows :: int
  rc_out_of_range_rows :: int
  rc_in_range_rows :: int
  rc_dedupe_input_rows :: int
  rc_exact_duplicate_rows_removed :: int
  rc_conflicting_duplicate_rows :: int
  rc_nonconflicting_unique_rows :: int
  rc_accepted_unique_rows :: int
  rc_rejected_unique_rows :: int
  rc_expected_sessions :: int
  rc_accepted_expected_sessions :: int
  rc_missing_sessions :: int

definition reconciliation_counters_valid :: "reconciliation_counters \<Rightarrow> bool" where
  "reconciliation_counters_valid c \<longleftrightarrow>
     rc_provider_rows c = rc_timestamp_unclassifiable_rows c + rc_out_of_range_rows c + rc_in_range_rows c \<and>
     rc_in_range_rows c = rc_dedupe_input_rows c \<and>
     rc_dedupe_input_rows c = rc_exact_duplicate_rows_removed c + rc_conflicting_duplicate_rows c +
       rc_nonconflicting_unique_rows c \<and>
     rc_nonconflicting_unique_rows c = rc_accepted_unique_rows c + rc_rejected_unique_rows c \<and>
     rc_expected_sessions c = rc_accepted_expected_sessions c + rc_missing_sessions c"

record quality_result =
  qr_severity :: quality_severity
  qr_findings :: "quality_finding list"
  qr_rejected_rows :: "rejected_row list"
  qr_counters :: reconciliation_counters
  qr_coverage :: "real option"
  qr_max_consecutive_missing_sessions :: "int option"
  qr_action_signature :: "string option"
  qr_frame :: "canonical_row list option"

record cached_revision =
  rv_timestamp :: datetime
  rv_field :: string
  rv_cached_value :: "xfloat option"
  rv_refreshed_value :: "xfloat option"

fun severity_rank :: "quality_severity \<Rightarrow> nat" where
  "severity_rank INFO = 0"
| "severity_rank WARNING = 1"
| "severity_rank FATAL = 2"

definition severity_of :: "quality_finding list \<Rightarrow> quality_severity" where
  "severity_of findings = (case map qf_severity findings of
     [] \<Rightarrow> INFO
   | s # ss \<Rightarrow> fold (\<lambda>x m. if severity_rank m < severity_rank x then x else m) ss s)"

section \<open>Action signatures\<close>

record digest_api =
  float_repr :: "real \<Rightarrow> string"
  sha256_hexdigest :: "string \<Rightarrow> string"

definition action_tuple :: "'a canonical_row_scheme \<Rightarrow> (string \<times> real \<times> real) result" where
  "action_tuple r =
     (let dividend = as_float (cr_dividend_amount r); split = as_float (cr_split_coefficient r) in
      if \<not> isfinite dividend \<or> dividend < Fin 0
        then Inl (ValueError ''dividend_amount must be finite and nonnegative'')
      else if \<not> isfinite split \<or> split \<le> Fin 0
        then Inl (ValueError ''split_coefficient must be finite and positive'')
      else Inr (strftime_ymd (cr_timestamp r), fin_val dividend, fin_val split))"

fun map_result :: "('a \<Rightarrow> 'e + 'b) \<Rightarrow> 'a list \<Rightarrow> 'e + 'b list" where
  "map_result f [] = Inr []"
| "map_result f (x # xs) = rbind (f x) (\<lambda>y. rbind (map_result f xs) (\<lambda>ys. Inr (y # ys)))"

definition action_payload :: "digest_api \<Rightarrow> (string \<times> real \<times> real) list \<Rightarrow> string" where
  "action_payload api tuples = ''['' @ join_with '','' (map (\<lambda>(day, dividend, split).
     ''['' @ [CHR 34] @ day @ [CHR 34] @ '','' @ float_repr api dividend @ '','' @ float_repr api split @ '']'') tuples) @ '']''"

definition action_signature :: "digest_api \<Rightarrow> 'a canonical_row_scheme list \<Rightarrow> string result" where
  "action_signature api frame =
     rbind (map_result action_tuple (sort_key cr_timestamp frame)) (\<lambda>tuples.
       Inr (sha256_hexdigest api (action_payload api tuples)))"

section \<open>Range candidates\<close>

record dedupe_state =
  dd_exact_removed :: int
  dd_conflicting_rows :: int
  dd_retained :: "candidate_row list"

definition dedupe_group :: "candidate_row list \<Rightarrow> dedupe_state \<Rightarrow> dedupe_state" where
  "dedupe_group rows s =
     (if length rows = 1 then s\<lparr>dd_retained := dd_retained s @ [hd rows]\<rparr>
      else if rows_identical rows
        then s\<lparr>dd_exact_removed := dd_exact_removed s + int (length rows) - 1,
               dd_retained := dd_retained s @ [hd rows]\<rparr>
      else s\<lparr>dd_conflicting_rows := dd_conflicting_rows s + int (length rows)\<rparr>)"

definition dedupe :: "candidate_row list \<Rightarrow> dedupe_state" where
  "dedupe frame = fold dedupe_group (group_by_timestamp frame)
     \<lparr>dd_exact_removed = 0, dd_conflicting_rows = 0, dd_retained = []\<rparr>"

record accept_state =
  ac_accepted :: "canonical_row list"
  ac_rejected :: "rejected_row list"
  ac_calendar_mismatches :: int

definition accept_row :: "(string \<Rightarrow> string) \<Rightarrow> datetime list \<Rightarrow> candidate_row \<Rightarrow> accept_state \<Rightarrow> accept_state" where
  "accept_row redact expected row s =
     (let reasons = row_reasons row;
          mismatch = (reasons = [] \<and> cr_timestamp row \<notin> set expected);
          reasons = (if mismatch then [''calendar_mismatch''] else reasons);
          s = (if mismatch then s\<lparr>ac_calendar_mismatches := ac_calendar_mismatches s + 1\<rparr> else s)
      in if reasons \<noteq> []
         then s\<lparr>ac_rejected := ac_rejected s @ [mk_rejected redact (cr_source_row_number row)
                  (join_with '','' reasons) (Some (strftime_ymd (cr_timestamp row)))]\<rparr>
         else s\<lparr>ac_accepted := ac_accepted s @ [canonical_row.truncate row]\<rparr>)"

definition finding_if :: "bool \<Rightarrow> quality_finding \<Rightarrow> quality_finding list" where
  "finding_if b f = (if b then [f] else [])"

definition evaluate_range_candidate ::
    "(string \<Rightarrow> string) \<Rightarrow> digest_api \<Rightarrow> normalization_result \<Rightarrow> datetime list \<Rightarrow> quality_result result" where
  "evaluate_range_candidate redact api normalized expected_index =
     (let expected = map normalize_ts expected_index;
          dd = dedupe (nr_candidate_frame normalized);
          ac = fold (accept_row redact expected) (dd_retained dd)
            \<lparr>ac_accepted = [], ac_rejected = nr_timestamp_rejections normalized, ac_calendar_mismatches = 0\<rparr>;
          accepted = ac_accepted ac;
          rejected_unique = int (length (dd_retained dd)) - int (length accepted);
          findings = nr_findings normalized @
            finding_if (dd_exact_removed dd \<noteq> 0) (mk_finding redact WARNING ''exact_duplicates_removed''
              ''identical duplicate rows were removed'' [(''rows'', MInt (dd_exact_removed dd))]) @
            finding_if (dd_conflicting_rows dd \<noteq> 0) (mk_finding redact FATAL ''conflicting_duplicates''
              ''conflicting timestamp duplicates make the candidate unusable'' [(''rows'', MInt (dd_conflicting_rows dd))]) @
            finding_if (rejected_unique \<noteq> 0) (mk_finding redact WARNING ''rejected_rows''
              ''isolated invalid unique rows were rejected'' [(''rows'', MInt rejected_unique)]) @
            finding_if (ac_calendar_mismatches ac \<noteq> 0) (mk_finding redact FATAL ''calendar_mismatch''
              ''valid provider rows do not belong to the expected exchange calendar'' [(''rows'', MInt (ac_calendar_mismatches ac))]) @
            finding_if (accepted = []) (mk_finding redact FATAL ''no_accepted_rows''
              ''candidate has no structurally accepted rows'' []);
          accepted_expected = int (card (set (map cr_timestamp accepted) \<inter> set expected));
          counters = \<lparr>rc_provider_rows = nc_provider_rows (nr_counters normalized),
            rc_timestamp_unclassifiable_rows = nc_timestamp_unclassifiable_rows (nr_counters normalized),
            rc_out_of_range_rows = nc_out_of_range_rows (nr_counters normalized),
            rc_in_range_rows = nc_in_range_rows (nr_counters normalized),
            rc_dedupe_input_rows = nc_dedupe_input_rows (nr_counters normalized),
            rc_exact_duplicate_rows_removed = dd_exact_removed dd,
            rc_conflicting_duplicate_rows = dd_conflicting_rows dd,
            rc_nonconflicting_unique_rows = int (length (dd_retained dd)),
            rc_accepted_unique_rows = int (length accepted), rc_rejected_unique_rows = rejected_unique,
            rc_expected_sessions = int (length expected), rc_accepted_expected_sessions = accepted_expected,
            rc_missing_sessions = int (length expected) - accepted_expected\<rparr>;
          severity = severity_of findings
      in if \<not> reconciliation_counters_valid counters then Inl AssertionError
         else rbind (if accepted = [] then Inr None
                     else rbind (action_signature api accepted) (\<lambda>sig. Inr (Some sig))) (\<lambda>signature.
           Inr \<lparr>qr_severity = severity, qr_findings = findings, qr_rejected_rows = ac_rejected ac,
             qr_counters = counters, qr_coverage = None, qr_max_consecutive_missing_sessions = None,
             qr_action_signature = signature,
             qr_frame = (if severity = FATAL then None else Some accepted)\<rparr>))"

section \<open>Complete requests\<close>

record canonical_frame =
  cf_columns :: "string list"
  cf_dtypes :: "string list"
  cf_zoned :: bool
  cf_rows :: "canonical_row list"

definition expected_dtypes :: "string list" where
  "expected_dtypes = [''datetime64[ns]'', ''string''] @ replicate 8 ''float64'' @ [''string'']"

definition canonical_contract_errors :: "canonical_frame \<Rightarrow> acquisition_request \<Rightarrow> string list" where
  "canonical_contract_errors frame request =
     (if cf_columns frame \<noteq> CANONICAL_COLUMNS then [''columns'']
      else let dtypes = reason_if (cf_dtypes frame \<noteq> expected_dtypes) ''dtypes'';
               timestamps = map cr_timestamp (cf_rows frame)
           in if cf_rows frame = [] then dtypes @ [''no_accepted_rows'']
              else dtypes @
                reason_if (cf_zoned frame \<or> \<not> sorted timestamps) ''timestamp_order'' @
                reason_if (\<not> distinct timestamps) ''timestamp_duplicates'' @
                reason_if (set (map cr_symbol (cf_rows frame)) \<noteq> {ar_symbol request}) ''symbol'' @
                reason_if (\<not> set (map cr_source (cf_rows frame)) \<subseteq> {provider_value YFINANCE, provider_value ALPHA_VANTAGE}) ''source'' @
                reason_if (list_ex (\<lambda>r. row_reasons r \<noteq> []) (cf_rows frame)) ''row_values'')"

text \<open>\<open>DatetimeIndex.difference\<close> and \<open>intersection\<close>: the distinct elements, in increasing order.\<close>

definition index_difference :: "datetime list \<Rightarrow> datetime list \<Rightarrow> datetime list" where
  "index_difference a b = sort (remdups (filter (\<lambda>t. t \<notin> set b) a))"

definition index_intersection :: "datetime list \<Rightarrow> datetime list \<Rightarrow> datetime list" where
  "index_intersection a b = sort (remdups (filter (\<lambda>t. t \<in> set b) a))"

definition session_positions :: "datetime list \<Rightarrow> (datetime, int) dict" where
  "session_positions expected = fold (\<lambda>(index, timestamp) d. dict_set d timestamp (int index)) (enumerate 0 expected) []"

definition max_gap_of :: "datetime list \<Rightarrow> datetime list \<Rightarrow> int result" where
  "max_gap_of expected missing =
     rbind (map_result (\<lambda>(start, end_ts).
         rbind (dict_item (session_positions expected) end_ts) (\<lambda>e.
           rbind (dict_item (session_positions expected) start) (\<lambda>s. Inr (e - s + 1))))
       (group_contiguous_sessions expected missing)) (\<lambda>gaps.
       Inr (case gaps of [] \<Rightarrow> 0 | g # gs \<Rightarrow> fold max gs g))"

definition evaluate_complete_request ::
    "(string \<Rightarrow> string) \<Rightarrow> digest_api \<Rightarrow> canonical_frame \<Rightarrow> acquisition_request \<Rightarrow> datetime list \<Rightarrow>
     quality_policy option \<Rightarrow> quality_result result" where
  "evaluate_complete_request redact api candidate request expected_index policy =
     (let applied = (case policy of Some p \<Rightarrow> p | None \<Rightarrow> default_quality_policy);
          expected = map normalize_ts expected_index;
          structural = canonical_contract_errors candidate request;
          accepted = map cr_timestamp (cf_rows candidate);
          contract_errors = (if structural = [] \<and> index_difference accepted expected \<noteq> []
            then [''calendar_mismatch''] else structural);
          accepted_expected = (if structural = [] then int (length (index_intersection accepted expected)) else 0);
          missing = (if structural = [] then index_difference expected accepted else expected);
          contract_findings =
            finding_if (contract_errors \<noteq> []) (mk_finding redact FATAL ''canonical_contract_failed''
              ''complete merged frame failed the canonical contract'' [(''reasons'', MSeq (map MStr contract_errors))]) @
            finding_if (''calendar_mismatch'' \<in> set contract_errors) (mk_finding redact FATAL ''calendar_mismatch''
              ''complete frame contains non-session timestamps'' []);
          expected_count = int (length expected);
          coverage = (if expected_count \<noteq> 0 then real_of_int accepted_expected / real_of_int expected_count else 1)
      in rbind (max_gap_of expected missing) (\<lambda>max_gap.
        let policy_findings = (if contract_errors \<noteq> [] then [] else
              finding_if (coverage < qp_minimum_coverage applied) (mk_finding redact FATAL ''insufficient_coverage''
                ''complete request coverage is below policy''
                [(''coverage'', MFloat (Fin coverage)), (''minimum'', MFloat (Fin (qp_minimum_coverage applied)))]) @
              finding_if (max_gap > qp_max_consecutive_missing_sessions applied) (mk_finding redact FATAL ''excessive_gap''
                ''complete request has too many consecutive missing sessions''
                [(''maximum_gap'', MInt max_gap), (''allowed'', MInt (qp_max_consecutive_missing_sessions applied))]));
            warned = (if contract_errors \<noteq> [] then [] else
              finding_if (missing \<noteq> [] \<and> \<not> findings_fatal (contract_findings @ policy_findings))
                (mk_finding redact WARNING ''missing_sessions'' ''complete request has limited missing sessions''
                  [(''sessions'', MInt (int (length missing))), (''maximum_gap'', MInt max_gap)]));
            findings = contract_findings @ policy_findings @ warned;
            rows = int (length (cf_rows candidate));
            counters = \<lparr>rc_provider_rows = rows, rc_timestamp_unclassifiable_rows = 0, rc_out_of_range_rows = 0,
              rc_in_range_rows = rows, rc_dedupe_input_rows = rows, rc_exact_duplicate_rows_removed = 0,
              rc_conflicting_duplicate_rows = 0, rc_nonconflicting_unique_rows = rows,
              rc_accepted_unique_rows = rows, rc_rejected_unique_rows = 0,
              rc_expected_sessions = expected_count, rc_accepted_expected_sessions = accepted_expected,
              rc_missing_sessions = expected_count - accepted_expected\<rparr>;
            severity = severity_of findings;
            canonical = (if severity = FATAL then None else Some (cf_rows candidate))
        in if \<not> reconciliation_counters_valid counters then Inl AssertionError
           else rbind (case canonical of None \<Rightarrow> Inr None
                | Some rows \<Rightarrow> rbind (action_signature api rows) (\<lambda>sig. Inr (Some sig))) (\<lambda>signature.
             Inr \<lparr>qr_severity = severity, qr_findings = findings, qr_rejected_rows = [], qr_counters = counters,
               qr_coverage = Some coverage, qr_max_consecutive_missing_sessions = Some max_gap,
               qr_action_signature = signature, qr_frame = canonical\<rparr>)))"

section \<open>Refresh comparison\<close>

text \<open>\<open>math.isclose\<close>.\<close>

definition is_close_tol :: "real \<Rightarrow> real \<Rightarrow> xfloat \<Rightarrow> xfloat \<Rightarrow> bool" where
  "is_close_tol rel_tol abs_tol a b = (case (a, b) of
     (Fin x, Fin y) \<Rightarrow> x = y \<or> \<bar>x - y\<bar> \<le> max (rel_tol * max \<bar>x\<bar> \<bar>y\<bar>) abs_tol
   | (PosInf, PosInf) \<Rightarrow> True | (NegInf, NegInf) \<Rightarrow> True | _ \<Rightarrow> False)"

definition is_close :: "xfloat \<Rightarrow> xfloat \<Rightarrow> bool" where
  "is_close = is_close_tol (1 / 10 ^ 9) (1 / 10 ^ 12)"

definition indexed_unique_rows :: "canonical_row list \<Rightarrow> (datetime, canonical_row) dict result" where
  "indexed_unique_rows frame =
     (if \<not> distinct (map cr_timestamp frame) then Inl (ValueError ''refresh comparison requires unique timestamps'')
      else Inr (fold (\<lambda>r d. dict_set d (cr_timestamp r) r) frame []))"

definition column_value :: "canonical_row option \<Rightarrow> string \<Rightarrow> xfloat option" where
  "column_value row column = map_option (\<lambda>r. as_float (numeric_cell r column)) row"

definition compare_timestamp :: "(datetime, canonical_row) dict \<Rightarrow> (datetime, canonical_row) dict \<Rightarrow> datetime \<Rightarrow> cached_revision list" where
  "compare_timestamp cached_rows refreshed_rows timestamp =
     concat (map (\<lambda>column.
       let old_value = column_value (dict_get cached_rows timestamp) column;
           new_value = column_value (dict_get refreshed_rows timestamp) column
       in if (case (old_value, new_value) of (Some a, Some b) \<Rightarrow> is_close a b | _ \<Rightarrow> False) then []
          else [\<lparr>rv_timestamp = timestamp, rv_field = column, rv_cached_value = old_value,
                 rv_refreshed_value = new_value\<rparr>]) NUMERIC_COLUMNS)"

definition compare_cached_and_refreshed :: "canonical_row list \<Rightarrow> canonical_row list \<Rightarrow> cached_revision list result" where
  "compare_cached_and_refreshed cached refreshed =
     rbind (indexed_unique_rows cached) (\<lambda>cached_rows.
       rbind (indexed_unique_rows refreshed) (\<lambda>refreshed_rows.
         Inr (concat (map (compare_timestamp cached_rows refreshed_rows)
           (sort (remdups (map fst cached_rows @ map fst refreshed_rows)))))))"

section \<open>Valid rows\<close>

definition row_valid :: "'a canonical_row_scheme \<Rightarrow> bool" where
  "row_valid r \<longleftrightarrow> (\<exists>op h l cl v ac d s.
     finite_numeric (cr_open r) = Some op \<and> finite_numeric (cr_high r) = Some h \<and>
     finite_numeric (cr_low r) = Some l \<and> finite_numeric (cr_close r) = Some cl \<and>
     finite_numeric (cr_volume r) = Some v \<and> finite_numeric (cr_adj_close r) = Some ac \<and>
     finite_numeric (cr_dividend_amount r) = Some d \<and> finite_numeric (cr_split_coefficient r) = Some s \<and>
     0 < l \<and> l \<le> min op cl \<and> max op cl \<le> h \<and> 0 \<le> v \<and> 0 < ac \<and> 0 \<le> d \<and> 0 < s)"

lemma numeric_cell_simps [simp]:
  "numeric_cell r ''open'' = cr_open r" "numeric_cell r ''high'' = cr_high r"
  "numeric_cell r ''low'' = cr_low r" "numeric_cell r ''close'' = cr_close r"
  "numeric_cell r ''volume'' = cr_volume r" "numeric_cell r ''adj_close'' = cr_adj_close r"
  "numeric_cell r ''dividend_amount'' = cr_dividend_amount r"
  "numeric_cell r ''split_coefficient'' = cr_split_coefficient r"
  by (simp_all add: numeric_cell.simps)

lemma reason_if_Nil [simp]: "reason_if b m = [] \<longleftrightarrow> \<not> b"
  by (simp add: reason_if_def)

lemma row_reasons_Nil: "row_reasons r = [] \<longleftrightarrow> row_valid r"
proof
  assume "row_reasons r = []"
  then show "row_valid r"
    by (fastforce simp: row_reasons_def row_valid_def Let_def NUMERIC_COLUMNS_def not_le not_less
        split: option.splits)
next
  assume "row_valid r"
  then obtain op h l cl v ac d s where r: "finite_numeric (cr_open r) = Some op"
     "finite_numeric (cr_high r) = Some h" "finite_numeric (cr_low r) = Some l"
     "finite_numeric (cr_close r) = Some cl" "finite_numeric (cr_volume r) = Some v"
     "finite_numeric (cr_adj_close r) = Some ac" "finite_numeric (cr_dividend_amount r) = Some d"
     "finite_numeric (cr_split_coefficient r) = Some s"
     "0 < l" "l \<le> min op cl" "max op cl \<le> h" "0 \<le> v" "0 < ac" "0 \<le> d" "0 < s"
    unfolding row_valid_def by blast
  then have "0 < op" "0 < cl" "0 < h" by auto
  with r show "row_reasons r = []"
    by (simp add: row_reasons_def Let_def NUMERIC_COLUMNS_def not_le not_less zero_less_divide_iff divide_le_0_iff)
qed

section \<open>Duplicates\<close>

definition usable_group :: "candidate_row list \<Rightarrow> bool" where
  "usable_group rows \<longleftrightarrow> length rows = 1 \<or> rows_identical rows"

lemma dedupe_fold:
  "dd_retained (fold dedupe_group gs s) = dd_retained s @ map hd (filter usable_group gs)"
  "(\<And>g. g \<in> set gs \<Longrightarrow> g \<noteq> []) \<Longrightarrow>
     dd_exact_removed (fold dedupe_group gs s) + dd_conflicting_rows (fold dedupe_group gs s)
       + int (length (dd_retained (fold dedupe_group gs s)))
     = dd_exact_removed s + dd_conflicting_rows s + int (length (dd_retained s)) + int (length (concat gs))"
  "(\<And>g. g \<in> set gs \<Longrightarrow> g \<noteq> []) \<Longrightarrow> 0 \<le> dd_conflicting_rows s \<Longrightarrow>
     dd_conflicting_rows s \<le> dd_conflicting_rows (fold dedupe_group gs s) \<and>
     (dd_conflicting_rows (fold dedupe_group gs s) = dd_conflicting_rows s \<longleftrightarrow> list_all usable_group gs)"
proof -
  show "dd_retained (fold dedupe_group gs s) = dd_retained s @ map hd (filter usable_group gs)"
    by (induction gs arbitrary: s) (auto simp: dedupe_group_def usable_group_def)
  show "(\<And>g. g \<in> set gs \<Longrightarrow> g \<noteq> []) \<Longrightarrow>
     dd_exact_removed (fold dedupe_group gs s) + dd_conflicting_rows (fold dedupe_group gs s)
       + int (length (dd_retained (fold dedupe_group gs s)))
     = dd_exact_removed s + dd_conflicting_rows s + int (length (dd_retained s)) + int (length (concat gs))"
  proof (induction gs arbitrary: s)
    case (Cons g gs)
    then have "0 < length g" by auto
    with Cons.IH [of "dedupe_group g s"] Cons.prems show ?case
      by (auto simp: dedupe_group_def split: if_splits)
  qed simp
  show "(\<And>g. g \<in> set gs \<Longrightarrow> g \<noteq> []) \<Longrightarrow> 0 \<le> dd_conflicting_rows s \<Longrightarrow>
     dd_conflicting_rows s \<le> dd_conflicting_rows (fold dedupe_group gs s) \<and>
     (dd_conflicting_rows (fold dedupe_group gs s) = dd_conflicting_rows s \<longleftrightarrow> list_all usable_group gs)"
  proof (induction gs arbitrary: s)
    case (Cons g gs)
    have len: "0 < length g" using Cons.prems by auto
    show ?case
    proof (cases "usable_group g")
      case True
      then have "dd_conflicting_rows (dedupe_group g s) = dd_conflicting_rows s"
        by (auto simp: dedupe_group_def usable_group_def)
      with Cons.IH [of "dedupe_group g s"] Cons.prems True show ?thesis by simp
    next
      case False
      then have "dd_conflicting_rows (dedupe_group g s) = dd_conflicting_rows s + int (length g)"
        by (auto simp: dedupe_group_def usable_group_def)
      with Cons.IH [of "dedupe_group g s"] Cons.prems False len show ?thesis by auto
    qed
  qed simp
qed

lemma group_by_timestamp_basic:
  "g \<in> set (group_by_timestamp rs) \<Longrightarrow> g \<noteq> []"
  "mset (concat (group_by_timestamp rs)) = mset rs"
proof -
  show "g \<in> set (group_by_timestamp rs) \<Longrightarrow> g \<noteq> []"
    by (induction rs rule: group_by_timestamp.induct) auto
  show "mset (concat (group_by_timestamp rs)) = mset rs"
  proof (induction rs rule: group_by_timestamp.induct)
    case (2 r rs)
    have "mset (filter (\<lambda>s. cr_timestamp s = cr_timestamp r) rs)
        + mset (filter (\<lambda>s. cr_timestamp s \<noteq> cr_timestamp r) rs) = mset rs"
      by (induction rs) auto
    with 2 show ?case by simp
  qed simp
qed

text \<open>A group is all rows with one timestamp, in order, and every timestamp has its group.\<close>

lemma group_by_timestamp_group:
  "g \<in> set (group_by_timestamp rs) \<Longrightarrow> g = filter (\<lambda>s. cr_timestamp s = cr_timestamp (hd g)) rs"
proof (induction rs rule: group_by_timestamp.induct)
  case (2 r rs)
  show ?case
  proof (cases "g = r # filter (\<lambda>s. cr_timestamp s = cr_timestamp r) rs")
    case False
    let ?rest = "filter (\<lambda>s. cr_timestamp s \<noteq> cr_timestamp r) rs"
    have g: "g \<in> set (group_by_timestamp ?rest)" using 2 False by simp
    have "g \<noteq> []" by (rule group_by_timestamp_basic(1) [OF g])
    have gf: "g = filter (\<lambda>s. cr_timestamp s = cr_timestamp (hd g)) ?rest" using 2 g by simp
    then have "hd g \<in> set ?rest" using \<open>g \<noteq> []\<close> by (metis filter_is_subset list.set_sel(1) subsetD)
    then have "cr_timestamp (hd g) \<noteq> cr_timestamp r" by simp
    with gf show ?thesis by (smt (verit) filter.simps(2) filter_cong filter_filter)
  qed simp
qed simp

lemma group_by_timestamp_heads:
  assumes "sorted (map cr_timestamp rs)"
  shows "sorted_wrt (<) (map (\<lambda>g. cr_timestamp (hd g)) (group_by_timestamp rs))"
  using assms
proof (induction rs rule: group_by_timestamp.induct)
  case (2 r rs)
  let ?rest = "filter (\<lambda>s. cr_timestamp s \<noteq> cr_timestamp r) rs"
  have "sorted (map cr_timestamp ?rest)"
    using 2 by (simp add: sorted_filter)
  moreover have "cr_timestamp r < cr_timestamp (hd g)" if "g \<in> set (group_by_timestamp ?rest)" for g
  proof -
    have "hd g \<in> set (concat (group_by_timestamp ?rest))"
      unfolding set_concat using that group_by_timestamp_basic(1) [OF that] by (intro UN_I [of g]) auto
    then have "hd g \<in> set ?rest" using group_by_timestamp_basic(2) [of ?rest] by (metis set_mset_mset)
    with 2 show ?thesis by (auto simp: order_less_le)
  qed
  ultimately show ?case using 2 by simp
qed simp

section \<open>Acceptance, severity, signatures\<close>

definition acceptable :: "datetime list \<Rightarrow> 'a canonical_row_scheme \<Rightarrow> bool" where
  "acceptable expected r \<longleftrightarrow> row_valid r \<and> cr_timestamp r \<in> set expected"

lemma accept_fold:
  "ac_accepted (fold (accept_row redact expected) rs s)
     = ac_accepted s @ map canonical_row.truncate (filter (acceptable expected) rs)"
  "map rj_source_row_number (ac_rejected (fold (accept_row redact expected) rs s))
     = map rj_source_row_number (ac_rejected s) @ map cr_source_row_number (filter (\<lambda>r. \<not> acceptable expected r) rs)"
  "ac_calendar_mismatches (fold (accept_row redact expected) rs s)
     = ac_calendar_mismatches s + int (length (filter (\<lambda>r. row_valid r \<and> cr_timestamp r \<notin> set expected) rs))"
  by (induction rs arbitrary: s)
    (auto simp: accept_row_def acceptable_def Let_def row_reasons_Nil)

lemma fold_severity:
  "fold (\<lambda>x m. if severity_rank m < severity_rank x then x else m) ss s = FATAL \<longleftrightarrow> s = FATAL \<or> FATAL \<in> set ss"
proof (induction ss arbitrary: s)
  case (Cons x ss)
  then show ?case by (cases x; cases s) auto
qed simp

lemma severity_fatal: "severity_of fs = FATAL \<longleftrightarrow> findings_fatal fs"
proof (cases fs)
  case (Cons f gs)
  have "FATAL \<in> qf_severity ` set gs \<longleftrightarrow> (\<exists>f \<in> set gs. qf_severity f = FATAL)" by force
  with Cons show ?thesis by (simp add: severity_of_def findings_fatal_def list_ex_iff fold_severity)
qed (simp add: severity_of_def findings_fatal_def)

lemma findings_fatal_append [simp]: "findings_fatal (xs @ ys) \<longleftrightarrow> findings_fatal xs \<or> findings_fatal ys"
  by (simp add: findings_fatal_def)

lemma findings_fatal_if [simp]: "findings_fatal (finding_if b f) \<longleftrightarrow> b \<and> qf_severity f = FATAL"
  by (simp add: finding_if_def findings_fatal_def)

lemma map_result_total:
  "(\<And>x. x \<in> set xs \<Longrightarrow> \<exists>y. f x = Inr y) \<Longrightarrow> \<exists>ys. map_result f xs = Inr ys"
proof (induction xs)
  case (Cons x xs)
  then obtain y ys where "f x = Inr y" "map_result f xs = Inr ys" by fastforce
  then show ?case by simp
qed simp

lemma numeric_as_float:
  assumes "finite_numeric c = Some x" and "\<And>b. c \<noteq> CBool b"
  shows "as_float c = Fin x"
  using assms by (cases c rule: finite_numeric.cases) auto

text \<open>The numeric columns of a frame with the canonical types hold floats.\<close>

definition float_row :: "'a canonical_row_scheme \<Rightarrow> bool" where
  "float_row r \<longleftrightarrow> (\<forall>column \<in> set NUMERIC_COLUMNS. \<exists>x. numeric_cell r column = CNum x)"

lemma action_tuple_total: "row_valid r \<Longrightarrow> float_row r \<Longrightarrow> \<exists>t. action_tuple r = Inr t"
proof -
  assume "row_valid r" and fl: "float_row r"
  then obtain d s where d: "finite_numeric (cr_dividend_amount r) = Some d" "0 \<le> d"
      "finite_numeric (cr_split_coefficient r) = Some s" "0 < s"
    unfolding row_valid_def by blast
  have "as_float (cr_dividend_amount r) = Fin d" "as_float (cr_split_coefficient r) = Fin s"
    using fl d by (auto simp: float_row_def NUMERIC_COLUMNS_def intro!: numeric_as_float)
  with d show ?thesis by (simp add: action_tuple_def)
qed

lemma action_signature_total:
  assumes "\<And>r. r \<in> set rows \<Longrightarrow> row_valid r \<and> float_row r"
  shows "\<exists>sig. action_signature api rows = Inr sig"
proof -
  have "\<exists>ts. map_result action_tuple (sort_key cr_timestamp rows) = Inr ts"
  proof (rule map_result_total)
    fix r assume "r \<in> set (sort_key cr_timestamp rows)"
    then show "\<exists>t. action_tuple r = Inr t" using assms [of r] action_tuple_total [of r] by simp
  qed
  then show ?thesis by (auto simp: action_signature_def)
qed

lemma truncate_simps [simp]:
  "cr_timestamp (canonical_row.truncate r) = cr_timestamp r" "cr_symbol (canonical_row.truncate r) = cr_symbol r"
  "cr_open (canonical_row.truncate r) = cr_open r" "cr_high (canonical_row.truncate r) = cr_high r"
  "cr_low (canonical_row.truncate r) = cr_low r" "cr_close (canonical_row.truncate r) = cr_close r"
  "cr_volume (canonical_row.truncate r) = cr_volume r" "cr_adj_close (canonical_row.truncate r) = cr_adj_close r"
  "cr_dividend_amount (canonical_row.truncate r) = cr_dividend_amount r"
  "cr_split_coefficient (canonical_row.truncate r) = cr_split_coefficient r"
  "cr_source (canonical_row.truncate r) = cr_source r"
  by (simp_all add: canonical_row.truncate_def)

lemma truncate_row [simp]:
  "row_valid (canonical_row.truncate r) = row_valid r" "float_row (canonical_row.truncate r) = float_row r"
  "acceptable expected (canonical_row.truncate r) = acceptable expected r"
  by (simp_all add: row_valid_def float_row_def acceptable_def NUMERIC_COLUMNS_def)

text \<open>The rows that survive deduplication: the first of each group of identical rows.\<close>

definition retained_rows :: "candidate_row list \<Rightarrow> candidate_row list" where
  "retained_rows frame = map hd (filter usable_group (group_by_timestamp frame))"

lemma retained_subset: "set (retained_rows frame) \<subseteq> set frame"
proof
  fix r assume "r \<in> set (retained_rows frame)"
  then obtain g where g: "g \<in> set (group_by_timestamp frame)" "r = hd g" by (auto simp: retained_rows_def)
  then have "r \<in> set g" using group_by_timestamp_basic(1) [OF g(1)] by simp
  then have "r \<in> set (concat (group_by_timestamp frame))" unfolding set_concat using g(1) by blast
  then show "r \<in> set frame" using group_by_timestamp_basic(2) [of frame] by (metis set_mset_mset)
qed

lemma retained_increasing:
  assumes "sorted (map cr_timestamp frame)"
  shows "sorted_wrt (<) (map cr_timestamp (retained_rows frame))"
proof -
  have "sorted_wrt (\<lambda>g h. cr_timestamp (hd g) < cr_timestamp (hd h)) (group_by_timestamp frame)"
    using group_by_timestamp_heads [OF assms] by (simp add: sorted_wrt_map)
  then show ?thesis by (simp add: retained_rows_def sorted_wrt_map sorted_wrt_filter)
qed

lemma dedupe_simps:
  "dd_retained (dedupe frame) = retained_rows frame"
  "dd_exact_removed (dedupe frame) + dd_conflicting_rows (dedupe frame) + int (length (retained_rows frame))
     = int (length frame)"
  "dd_conflicting_rows (dedupe frame) = 0 \<longleftrightarrow> list_all usable_group (group_by_timestamp frame)"
proof -
  let ?s0 = "\<lparr>dd_exact_removed = 0, dd_conflicting_rows = 0, dd_retained = []\<rparr>"
  have len: "length (concat (group_by_timestamp frame)) = length frame"
    by (metis group_by_timestamp_basic(2) size_mset)
  show ret: "dd_retained (dedupe frame) = retained_rows frame"
    by (simp add: dedupe_def dedupe_fold(1) retained_rows_def)
  show "dd_exact_removed (dedupe frame) + dd_conflicting_rows (dedupe frame) + int (length (retained_rows frame))
     = int (length frame)"
    using dedupe_fold(2) [of "group_by_timestamp frame" ?s0, OF group_by_timestamp_basic(1)] len ret
    by (simp add: dedupe_def)
  show "dd_conflicting_rows (dedupe frame) = 0 \<longleftrightarrow> list_all usable_group (group_by_timestamp frame)"
    using dedupe_fold(3) [of "group_by_timestamp frame" ?s0, OF group_by_timestamp_basic(1)]
    by (simp add: dedupe_def)
qed

text \<open>What a normalisation result promises to the evaluation.\<close>

definition normalized_ok :: "normalization_result \<Rightarrow> bool" where
  "normalized_ok n \<longleftrightarrow> normalization_counters_valid (nr_counters n) \<and>
     nc_in_range_rows (nr_counters n) = int (length (nr_candidate_frame n)) \<and>
     sorted (map cr_timestamp (nr_candidate_frame n)) \<and> (\<forall>r \<in> set (nr_candidate_frame n). float_row r)"

text \<open>The accepted rows of a candidate.\<close>

definition accepted_rows :: "normalization_result \<Rightarrow> datetime list \<Rightarrow> canonical_row list" where
  "accepted_rows n expected =
     map canonical_row.truncate (filter (acceptable expected) (retained_rows (nr_candidate_frame n)))"

definition candidate_usable :: "normalization_result \<Rightarrow> datetime list \<Rightarrow> bool" where
  "candidate_usable n expected \<longleftrightarrow> \<not> normalization_is_fatal n \<and>
     list_all usable_group (group_by_timestamp (nr_candidate_frame n)) \<and>
     (\<forall>r \<in> set (retained_rows (nr_candidate_frame n)). row_valid r \<longrightarrow> cr_timestamp r \<in> set expected) \<and>
     accepted_rows n expected \<noteq> []"

lemma evaluate_range_result:
  assumes "normalized_ok n"
  shows "\<exists>q. evaluate_range_candidate redact api n expected = Inr q \<and>
    reconciliation_counters_valid (qr_counters q) \<and>
    (qr_severity q = FATAL \<longleftrightarrow> \<not> candidate_usable n (map normalize_ts expected)) \<and>
    qr_frame q = (if candidate_usable n (map normalize_ts expected)
                  then Some (accepted_rows n (map normalize_ts expected)) else None) \<and>
    map rj_source_row_number (qr_rejected_rows q) =
      map rj_source_row_number (nr_timestamp_rejections n) @
      map cr_source_row_number (filter (\<lambda>r. \<not> acceptable (map normalize_ts expected) r)
        (retained_rows (nr_candidate_frame n)))"
proof -
  let ?f = "nr_candidate_frame n" and ?e = "map normalize_ts expected"
  let ?acc = "accepted_rows n ?e" and ?ret = "retained_rows ?f"
  have n: "normalization_counters_valid (nr_counters n)" "nc_in_range_rows (nr_counters n) = int (length ?f)"
    "\<And>r. r \<in> set ?f \<Longrightarrow> float_row r" using assms by (auto simp: normalized_ok_def)
  have valid: "row_valid r \<and> float_row r" if "r \<in> set ?acc" for r
    using that n(3) retained_subset by (fastforce simp: accepted_rows_def acceptable_def)
  obtain sig where sig: "action_signature api ?acc = Inr sig"
    using action_signature_total [OF valid] by blast
  have le: "length ?acc \<le> length ?ret" by (simp add: accepted_rows_def)
  have mism: "filter (\<lambda>r. row_valid r \<and> cr_timestamp r \<notin> set ?e) ?ret = [] \<longleftrightarrow>
      (\<forall>r \<in> set ?ret. row_valid r \<longrightarrow> cr_timestamp r \<in> set ?e)" by (auto simp: filter_empty_conv)
  show ?thesis
    unfolding evaluate_range_candidate_def Let_def dedupe_simps(1) accept_fold accepted_rows_def [symmetric]
    using n(1,2) sig dedupe_simps(2,3) [of ?f] mism
    by (auto simp: accepted_rows_def [symmetric] reconciliation_counters_valid_def normalization_counters_valid_def
        severity_fatal candidate_usable_def normalization_is_fatal_def [symmetric] accept_fold(2))
qed

text \<open>Normalisation gives what the evaluation needs.\<close>

lemma canonical_row_of_float [simp]: "float_row (canonical_row_of batch native field_mapping k t cells)"
  by (simp add: float_row_def NUMERIC_COLUMNS_def canonical_row_of_def value_or_def Let_def)

lemma classify_row_float:
  assumes "classify_row redact pd batch native field_mapping x s = Inr t" and "\<forall>r \<in> set (rl_rows s). float_row r"
  shows "\<forall>r \<in> set (rl_rows t). float_row r"
proof -
  obtain number v cells where x: "x = (number, v, cells)" by (cases x) auto
  from assms(1) obtain parsed where p: "parse_daily_timestamp pd v (pb_native_timezone batch) = Inr parsed"
    by (auto simp: classify_row_def x result_simps)
  show ?thesis
    using assms p by (cases parsed) (auto simp: classify_row_def x split: if_splits)
qed

lemma normalize_float_rows:
  assumes "normalize_provider_batch redact pd batch = Inr n"
  shows "\<forall>r \<in> set (nr_candidate_frame n). float_row r"
proof -
  have inv: "\<forall>r \<in> set (rl_rows t). float_row r"
    if "rfold (classify_row redact pd batch native field_mapping) xs s = Inr t" "\<forall>r \<in> set (rl_rows s). float_row r"
    for native field_mapping xs s t
    by (rule rfold_invariant [where P = "\<lambda>s. \<forall>r \<in> set (rl_rows s). float_row r", OF _ that])
      (rule classify_row_float)
  show ?thesis
    using assms
    by (auto simp: normalize_provider_batch_def fatal_schema_result_def Let_def split: sum.splits if_splits dest!: inv)
qed

lemma sorted_row_key: "sorted_wrt (\<lambda>a b. row_key a < row_key b) xs \<Longrightarrow> sorted (map cr_timestamp xs)"
  by (induction xs) (auto simp: row_key_def less_prod_def split: if_splits)

lemma normalize_normalized_ok:
  assumes "\<And>k. k < length (pf_rows (pb_frame batch)) \<Longrightarrow> \<exists>t. row_time pd batch k = Inr t"
  shows "\<exists>n. normalize_provider_batch redact pd batch = Inr n \<and> normalized_ok n \<and>
    (\<forall>r \<in> set (nr_candidate_frame n). cr_symbol r = ar_symbol (pb_request batch) \<and>
       cr_source r = provider_value (pb_provider batch) \<and> in_request batch (cr_timestamp r))"
proof (cases "schema_ok batch")
  case True
  then obtain n where "normalize_provider_batch redact pd batch = Inr n"
      "normalization_counters_valid (nr_counters n)"
      "nc_in_range_rows (nr_counters n) = int (length (nr_candidate_frame n))"
      "sorted_wrt (\<lambda>a b. row_key a < row_key b) (nr_candidate_frame n)"
      "\<forall>r \<in> set (nr_candidate_frame n). cr_symbol r = ar_symbol (pb_request batch) \<and>
         cr_source r = provider_value (pb_provider batch) \<and> in_request batch (cr_timestamp r)"
    using normalize_usable [OF assms, of redact] by blast
  then show ?thesis
    using normalize_float_rows [of redact pd batch n] sorted_row_key by (auto simp: normalized_ok_def)
next
  case False
  with normalize_unusable [OF False, of redact pd] show ?thesis by (auto simp: normalized_ok_def)
qed

section \<open>Properties of the range evaluation\<close>

text \<open>The evaluation of a normalised candidate never fails an assertion, and its counters
  reconcile every provider row. The candidate is fatal exactly if it was fatal before, has
  conflicting duplicates, has a valid row off the calendar, or no acceptable row. Otherwise the
  result is the valid session rows, one per timestamp, in strictly increasing order; every
  other retained row is reported as rejected.\<close>

theorem range_evaluation_sound:
  assumes "\<And>k. k < length (pf_rows (pb_frame batch)) \<Longrightarrow> \<exists>t. row_time pd batch k = Inr t"
  shows "\<exists>n q. normalize_provider_batch redact pd batch = Inr n \<and>
    evaluate_range_candidate redact api n expected = Inr q \<and>
    reconciliation_counters_valid (qr_counters q) \<and>
    (qr_severity q = FATAL \<longleftrightarrow> \<not> candidate_usable n (map normalize_ts expected)) \<and>
    (case qr_frame q of
       None \<Rightarrow> qr_severity q = FATAL
     | Some frame \<Rightarrow> frame = accepted_rows n (map normalize_ts expected) \<and> frame \<noteq> [] \<and>
         sorted_wrt (<) (map cr_timestamp frame) \<and>
         (\<forall>r \<in> set frame. row_valid r \<and> cr_timestamp r \<in> normalize_ts ` set expected \<and>
            in_request batch (cr_timestamp r))) \<and>
    length (qr_rejected_rows q) = length (nr_timestamp_rejections n) +
      (length (retained_rows (nr_candidate_frame n)) - length (accepted_rows n (map normalize_ts expected)))"
proof -
  let ?e = "map normalize_ts expected"
  obtain n where n: "normalize_provider_batch redact pd batch = Inr n" "normalized_ok n"
      "\<forall>r \<in> set (nr_candidate_frame n). in_request batch (cr_timestamp r)"
    using normalize_normalized_ok [OF assms, of redact] by blast
  obtain q where q: "evaluate_range_candidate redact api n expected = Inr q"
      "reconciliation_counters_valid (qr_counters q)"
      "qr_severity q = FATAL \<longleftrightarrow> \<not> candidate_usable n ?e"
      "qr_frame q = (if candidate_usable n ?e then Some (accepted_rows n ?e) else None)"
      "map rj_source_row_number (qr_rejected_rows q) = map rj_source_row_number (nr_timestamp_rejections n) @
        map cr_source_row_number (filter (\<lambda>r. \<not> acceptable ?e r) (retained_rows (nr_candidate_frame n)))"
    using evaluate_range_result [OF n(2), of redact api expected] by blast
  have "sorted_wrt (<) (map cr_timestamp (accepted_rows n ?e))"
    using retained_increasing [of "nr_candidate_frame n"] n(2)
    by (simp add: normalized_ok_def accepted_rows_def sorted_wrt_map sorted_wrt_filter)
  moreover have "row_valid r \<and> cr_timestamp r \<in> normalize_ts ` set expected \<and> in_request batch (cr_timestamp r)"
    if "r \<in> set (accepted_rows n ?e)" for r
    using that n(3) retained_subset by (fastforce simp: accepted_rows_def acceptable_def)
  moreover have "length (qr_rejected_rows q) = length (nr_timestamp_rejections n) +
      (length (retained_rows (nr_candidate_frame n)) - length (accepted_rows n ?e))"
    using arg_cong [OF q(5), of length]
      sum_length_filter_compl [of "acceptable ?e" "retained_rows (nr_candidate_frame n)"]
    by (simp add: accepted_rows_def)
  ultimately show ?thesis
    using n(1) q by (intro exI [of _ n] exI [of _ q]) (auto simp: candidate_usable_def)
qed

definition demo_digest :: digest_api where
  "demo_digest = \<lparr>float_repr = (\<lambda>_. ''x''), sha256_hexdigest = (\<lambda>s. s)\<rparr>"

lemma range_evaluation_sound_witness:
  "\<exists>n q. normalize_provider_batch (\<lambda>s. s) demo_pd demo_batch = Inr n \<and>
     evaluate_range_candidate (\<lambda>s. s) demo_digest n [1641772800000000, 1641859200000000] = Inr q \<and>
     reconciliation_counters_valid (qr_counters q)"
  using range_evaluation_sound [OF demo_batch_rows, of "\<lambda>s. s" demo_digest "[1641772800000000, 1641859200000000]"]
  by blast

text \<open>C19: the two stages agree: a frame that the range evaluation accepts satisfies the canonical
  contract of the complete evaluation for the same request.\<close>

theorem accepted_frame_is_canonical:
  assumes "\<And>k. k < length (pf_rows (pb_frame batch)) \<Longrightarrow> \<exists>t. row_time pd batch k = Inr t"
    and "normalize_provider_batch redact pd batch = Inr n"
    and "evaluate_range_candidate redact api n expected = Inr q" and "qr_frame q = Some rows"
  shows "canonical_contract_errors \<lparr>cf_columns = CANONICAL_COLUMNS, cf_dtypes = expected_dtypes,
      cf_zoned = False, cf_rows = rows\<rparr> (pb_request batch) = []"
proof -
  let ?e = "map normalize_ts expected"
  have n: "normalized_ok n" "\<forall>r \<in> set (nr_candidate_frame n). cr_symbol r = ar_symbol (pb_request batch) \<and>
      cr_source r = provider_value (pb_provider batch)"
    using normalize_normalized_ok [OF assms(1), of redact] assms(2) by auto
  have rows: "rows = accepted_rows n ?e" "rows \<noteq> []"
    using evaluate_range_result [OF n(1), of redact api expected] assms(3,4)
    by (auto simp: candidate_usable_def split: if_splits)
  have mem: "row_valid r \<and> cr_symbol r = ar_symbol (pb_request batch) \<and> cr_source r = provider_value (pb_provider batch)"
    if "r \<in> set rows" for r
    using that n(2) retained_subset unfolding rows(1) by (fastforce simp: accepted_rows_def acceptable_def)
  have "sorted_wrt (<) (map cr_timestamp rows)"
    using retained_increasing [of "nr_candidate_frame n"] n(1)
    by (simp add: rows(1) normalized_ok_def accepted_rows_def sorted_wrt_map sorted_wrt_filter)
  then have "sorted (map cr_timestamp rows)" "distinct (map cr_timestamp rows)"
    by (simp_all add: strict_sorted_iff)
  moreover have "cr_symbol ` set rows = {ar_symbol (pb_request batch)}" using mem rows(2) by (cases rows) auto
  moreover have "cr_source ` set rows \<subseteq> {provider_value YFINANCE, provider_value ALPHA_VANTAGE}"
    using mem by (cases "pb_provider batch") auto
  moreover have "\<not> list_ex (\<lambda>r. row_reasons r \<noteq> []) rows" using mem by (auto simp: list_ex_iff row_reasons_Nil)
  ultimately show ?thesis using rows(2) by (simp add: canonical_contract_errors_def)
qed

lemma accepted_frame_is_canonical_witness:
  "\<exists>rows. length rows = 2 \<and> canonical_contract_errors \<lparr>cf_columns = CANONICAL_COLUMNS, cf_dtypes = expected_dtypes,
      cf_zoned = False, cf_rows = rows\<rparr> (pb_request demo_batch) = []"
proof -
  have "(case normalize_provider_batch (\<lambda>s. s) demo_pd demo_batch of Inl _ \<Rightarrow> False
      | Inr n \<Rightarrow> (case evaluate_range_candidate (\<lambda>s. s) demo_digest n [1641772800000000, 1641859200000000] of
          Inl _ \<Rightarrow> False | Inr q \<Rightarrow> (case qr_frame q of None \<Rightarrow> False | Some rows \<Rightarrow> length rows = 2)))"
    by code_simp
  then obtain n q rows where "normalize_provider_batch (\<lambda>s. s) demo_pd demo_batch = Inr n"
      "evaluate_range_candidate (\<lambda>s. s) demo_digest n [1641772800000000, 1641859200000000] = Inr q"
      "qr_frame q = Some rows" "length rows = 2"
    by (auto split: sum.splits option.splits)
  then show ?thesis using accepted_frame_is_canonical [OF demo_batch_rows] by blast
qed

section \<open>Complete requests\<close>

lemma session_positions_snoc:
  "session_positions (xs @ [x]) = dict_set (session_positions xs) x (int (length xs))"
  by (simp add: session_positions_def enumerate_append_eq)

lemma session_positions_get:
  "distinct xs \<Longrightarrow> i < length xs \<Longrightarrow> dict_get (session_positions xs) (xs ! i) = Some (int i)"
proof (induction xs rule: rev_induct)
  case (snoc x xs)
  show ?case
  proof (cases "i = length xs")
    case True
    then show ?thesis by (simp add: session_positions_snoc dict.get_set_item)
  next
    case False
    with snoc.prems have i: "i < length xs" by simp
    then have "xs ! i \<noteq> x" using snoc.prems by auto
    with snoc i show ?thesis by (simp add: session_positions_snoc dict.get_set_item nth_append)
  qed
qed simp

lemma map_result_map: "(\<And>x. x \<in> set xs \<Longrightarrow> f x = Inr (h x)) \<Longrightarrow> map_result f xs = Inr (map h xs)"
  by (induction xs) auto

lemma fold_max_props:
  fixes g :: int
  shows "fold max gs g \<in> set (g # gs)" and "x \<in> set (g # gs) \<Longrightarrow> x \<le> fold max gs g"
proof -
  have "fold max gs g = Max (set (g # gs))" using Max.set_eq_fold [of g gs] by (simp add: max.commute)
  then show "fold max gs g \<in> set (g # gs)" and "x \<in> set (g # gs) \<Longrightarrow> x \<le> fold max gs g"
    by (metis List.finite_set Max_in list.distinct(1) set_empty, metis List.finite_set Max_ge)
qed

text \<open>The reported gap is the length of the longest run of missing sessions, zero without one.\<close>

lemma max_gap_longest_run:
  assumes dist: "distinct e" and norm: "\<And>t. t \<in> set e \<union> set missing \<Longrightarrow> normalize_ts t = t"
  shows "\<exists>gap. max_gap_of e missing = Inr gap \<and> 0 \<le> gap \<and>
    (\<forall>k \<ge> 0. gap \<le> k \<longleftrightarrow> (\<forall>i j. missing_run (set missing) e i j \<longrightarrow> int j - int i + 1 \<le> k))"
proof -
  let ?pos = "\<lambda>t. the (dict_get (session_positions e) t)"
  let ?h = "\<lambda>(a, b). ?pos b - ?pos a + 1"
  let ?groups = "group_contiguous_sessions e missing"
  have e: "map normalize_ts e = e" by (rule map_idI) (simp add: norm)
  have m: "normalize_ts ` set missing = set missing" using norm by force
  have groups: "set ?groups = {(e ! i, e ! j) | i j. missing_run (set missing) e i j}"
    using group_runs [of e missing] by (simp only: e m)
  have run: "?pos (e ! i) = int i" "?pos (e ! j) = int j" "dict_item (session_positions e) (e ! i) = Inr (int i)"
    "dict_item (session_positions e) (e ! j) = Inr (int j)" if "missing_run (set missing) e i j" for i j
    using that session_positions_get [OF dist, of i] session_positions_get [OF dist, of j]
    by (auto simp: missing_run_def dict_item_get)
  have "(case p of (start, end_ts) \<Rightarrow> rbind (dict_item (session_positions e) end_ts) (\<lambda>x.
      rbind (dict_item (session_positions e) start) (\<lambda>s. Inr (x - s + 1)))) = Inr (?h p)"
    if "p \<in> set ?groups" for p
    using that run unfolding groups by (auto simp del: One_nat_def)
  then have gap: "max_gap_of e missing = Inr (case map ?h ?groups of [] \<Rightarrow> 0 | g # gs \<Rightarrow> fold max gs g)"
    unfolding max_gap_of_def by (subst map_result_map [where h = ?h]) auto
  have vals: "set (map ?h ?groups) = {int j - int i + 1 | i j. missing_run (set missing) e i j}"
  proof -
    have "?h (e ! i, e ! j) = int j - int i + 1" if "missing_run (set missing) e i j" for i j
      using run [OF that] by simp
    then show ?thesis unfolding set_map groups by force
  qed
  have pos: "0 < x" if "x \<in> set (map ?h ?groups)" for x
    using that unfolding vals by (auto simp: missing_run_def)
  show ?thesis
  proof (cases "map ?h ?groups")
    case Nil
    then have "\<not> missing_run (set missing) e i j" for i j using vals by auto
    with gap Nil show ?thesis by simp
  next
    case (Cons g gs)
    have bound: "fold max gs g \<le> k \<longleftrightarrow> (\<forall>i j. missing_run (set missing) e i j \<longrightarrow> int j - int i + 1 \<le> k)" for k
    proof -
      have "fold max gs g \<le> k \<longleftrightarrow> (\<forall>x \<in> set (map ?h ?groups). x \<le> k)"
        unfolding Cons using fold_max_props [where gs = gs and g = g] by (meson order_trans)
      also have "\<dots> \<longleftrightarrow> (\<forall>i j. missing_run (set missing) e i j \<longrightarrow> int j - int i + 1 \<le> k)"
        unfolding vals by blast
      finally show ?thesis .
    qed
    have "0 < fold max gs g" using fold_max_props(1) [of gs g] pos unfolding Cons by blast
    moreover have "max_gap_of e missing = Inr (fold max gs g)" using gap unfolding Cons by simp
    ultimately show ?thesis using bound by (intro exI [of _ "fold max gs g"]) simp
  qed
qed

text \<open>The policy, stated over the rows and the calendar.\<close>

definition complete_ok ::
    "canonical_frame \<Rightarrow> acquisition_request \<Rightarrow> datetime list \<Rightarrow> quality_policy \<Rightarrow> bool" where
  "complete_ok frame request e p \<longleftrightarrow>
     canonical_contract_errors frame request = [] \<and>
     cr_timestamp ` set (cf_rows frame) \<subseteq> set e \<and>
     qp_minimum_coverage p \<le> real (length (cf_rows frame)) / real (length e) \<and>
     (\<forall>i j. missing_run (set e - cr_timestamp ` set (cf_rows frame)) e i j \<longrightarrow>
        int j - int i + 1 \<le> qp_max_consecutive_missing_sessions p)"

lemma contract_ok_rows:
  assumes "canonical_contract_errors frame request = []"
  shows "cf_dtypes frame = expected_dtypes" "cf_rows frame \<noteq> []" "distinct (map cr_timestamp (cf_rows frame))"
    "\<And>r. r \<in> set (cf_rows frame) \<Longrightarrow> row_valid r"
  using assms by (auto simp: canonical_contract_errors_def Let_def list_ex_iff row_reasons_Nil split: if_splits)

lemma index_difference_set [simp]: "set (index_difference a b) = set a - set b"
  by (auto simp: index_difference_def)

lemma index_difference_Nil: "index_difference a b = [] \<longleftrightarrow> set a \<subseteq> set b"
  by (metis Diff_eq_empty_iff index_difference_set set_empty)

lemma index_intersection_length:
  "distinct a \<Longrightarrow> set a \<subseteq> set b \<Longrightarrow> length (index_intersection a b) = length a"
  by (simp add: index_intersection_def distinct_remdups_id filter_True subset_iff)

text \<open>C20: the final verdict on a complete request. With distinct expected sessions the evaluation
  never fails an assertion, and it is not fatal exactly if the merged frame satisfies the
  canonical contract, holds session timestamps only, covers the required share of the sessions,
  and misses no longer run of consecutive sessions than the policy allows; then the frame is
  published unchanged, otherwise nothing is.\<close>

theorem complete_evaluation_correct:
  assumes "distinct (map normalize_ts expected)"
    and "cf_dtypes frame = expected_dtypes \<Longrightarrow> \<forall>r \<in> set (cf_rows frame). float_row r"
    and "\<forall>r \<in> set (cf_rows frame). normalize_ts (cr_timestamp r) = cr_timestamp r"
    and "quality_policy_post_init p = Inr p"
  shows "\<exists>q. evaluate_complete_request redact api frame request expected (Some p) = Inr q \<and>
    reconciliation_counters_valid (qr_counters q) \<and>
    (qr_severity q \<noteq> FATAL \<longleftrightarrow> complete_ok frame request (map normalize_ts expected) p) \<and>
    qr_frame q = (if complete_ok frame request (map normalize_ts expected) p then Some (cf_rows frame) else None)"
proof -
  let ?e = "map normalize_ts expected" and ?ts = "map cr_timestamp (cf_rows frame)"
  let ?ok = "canonical_contract_errors frame request = []"
  define missing where "missing = (if ?ok then index_difference ?e ?ts else ?e)"
  have m: "set missing = (if ?ok then set ?e - set ?ts else set ?e)" by (simp add: missing_def)
  have norm: "normalize_ts t = t" if "t \<in> set ?e \<union> set missing" for t
    using that m by (auto split: if_splits)
  obtain gap where gap: "max_gap_of ?e missing = Inr gap" "0 \<le> gap"
      "\<And>k. 0 \<le> k \<Longrightarrow> gap \<le> k \<longleftrightarrow> (\<forall>i j. missing_run (set missing) ?e i j \<longrightarrow> int j - int i + 1 \<le> k)"
    using max_gap_longest_run [OF assms(1) norm] by blast
  have pol: "0 \<le> qp_max_consecutive_missing_sessions p"
    using assms(4) by (auto simp: quality_policy_post_init_def split: if_splits)
  show ?thesis
  proof (cases "?ok \<and> set ?ts \<subseteq> set ?e")
    case False
    then have bad: "\<not> complete_ok frame request ?e p" by (auto simp: complete_ok_def)
    from False show ?thesis
      using gap(1) bad
      by (auto simp: evaluate_complete_request_def Let_def missing_def [symmetric] index_difference_Nil
          reconciliation_counters_valid_def severity_fatal)
  next
    case True
    note rows = contract_ok_rows [OF conjunct1 [OF True]]
    have len: "length (index_intersection ?ts ?e) = length (cf_rows frame)"
      using index_intersection_length [OF rows(3), of ?e] True by simp
    have ne: "length expected \<noteq> 0" using True rows(2) by (cases expected; cases "cf_rows frame") auto
    obtain sig where sig: "action_signature api (cf_rows frame) = Inr sig"
      using action_signature_total [of "cf_rows frame" api] rows assms(2) by blast
    have ok: "complete_ok frame request ?e p \<longleftrightarrow>
        \<not> real (length (cf_rows frame)) / real (length expected) < qp_minimum_coverage p \<and>
        \<not> qp_max_consecutive_missing_sessions p < gap"
      using True gap(3) [OF pol] m by (auto simp: complete_ok_def not_less)
    have gap': "max_gap_of ?e (index_difference ?e ?ts) = Inr gap" using gap(1) True by (simp add: missing_def)
    show ?thesis
      using True gap' ok sig len ne
      by (auto simp: evaluate_complete_request_def Let_def index_difference_Nil
          reconciliation_counters_valid_def severity_fatal)
  qed
qed

definition demo_row :: "datetime \<Rightarrow> canonical_row" where
  "demo_row t = \<lparr>cr_timestamp = t, cr_symbol = ''BRK.B'', cr_open = CNum (Fin 10), cr_high = CNum (Fin 12),
     cr_low = CNum (Fin 9), cr_close = CNum (Fin 11), cr_volume = CNum (Fin 100), cr_adj_close = CNum (Fin 11),
     cr_dividend_amount = CNum (Fin 0), cr_split_coefficient = CNum (Fin 1), cr_source = ''yfinance''\<rparr>"

definition demo_frame :: canonical_frame where
  "demo_frame = \<lparr>cf_columns = CANONICAL_COLUMNS, cf_dtypes = expected_dtypes, cf_zoned = False,
     cf_rows = [demo_row 0, demo_row 172800000000]\<rparr>"

lemma complete_evaluation_correct_witness:
  "\<exists>q. evaluate_complete_request (\<lambda>s. s) demo_digest demo_frame demo_request [0, 86400000000, 172800000000]
       (Some default_quality_policy) = Inr q \<and> qr_frame q = None"
proof -
  have rows: "\<forall>r \<in> set (cf_rows demo_frame). float_row r" "\<forall>r \<in> set (cf_rows demo_frame). normalize_ts (cr_timestamp r) = cr_timestamp r"
    by (simp_all add: demo_frame_def demo_row_def float_row_def NUMERIC_COLUMNS_def normalize_ts_def)
  have bad: "\<not> complete_ok demo_frame demo_request (map normalize_ts [0, 86400000000, 172800000000]) default_quality_policy"
    by (simp add: complete_ok_def demo_frame_def default_quality_policy_def)
  have "distinct (map normalize_ts [0, 86400000000, 172800000000])" by (simp add: normalize_ts_def)
  then show ?thesis
    using complete_evaluation_correct [of "[0, 86400000000, 172800000000]" demo_frame default_quality_policy
        "\<lambda>s. s" demo_digest demo_request] rows bad default_policies_valid(1) by auto
qed

section \<open>Refresh comparison\<close>

lemma indexed_unique_rows_get:
  assumes "distinct (map cr_timestamp frame)"
  shows "\<exists>d. indexed_unique_rows frame = Inr d \<and> dict_ok d \<and>
    (\<forall>t r. dict_get d t = Some r \<longleftrightarrow> r \<in> set frame \<and> cr_timestamp r = t)"
proof -
  let ?d = "fold (\<lambda>r d. dict_set d (cr_timestamp r) r) frame []"
  have "dict_ok ?d \<and> (\<forall>t r. dict_get ?d t = Some r \<longleftrightarrow> r \<in> set frame \<and> cr_timestamp r = t)"
    using assms
  proof (induction frame rule: rev_induct)
    case (snoc x xs)
    then have "cr_timestamp r \<noteq> cr_timestamp x" if "r \<in> set xs" for r
      using that by (force simp: image_iff)
    with snoc show ?case by (auto simp: dict.ok_set dict.get_set_item)
  qed simp
  with assms show ?thesis by (simp add: indexed_unique_rows_def)
qed

lemma indexed_keys:
  assumes "dict_ok d" and "\<And>t r. dict_get d t = Some r \<longleftrightarrow> r \<in> set frame \<and> cr_timestamp r = t"
  shows "fst ` set d = cr_timestamp ` set frame"
proof -
  have "t \<in> fst ` set d \<longleftrightarrow> (\<exists>r. dict_get d t = Some r)" for t
    using dict.get_None [OF assms(1), of t] by auto
  then have "t \<in> fst ` set d \<longleftrightarrow> t \<in> cr_timestamp ` set frame" for t
    unfolding assms(2) by auto
  then show ?thesis by blast
qed

lemma matched_iff:
  assumes "inj_on f C" and "inj_on f R"
  shows "(\<forall>t \<in> f ` C \<union> f ` R. \<exists>a b. a \<in> C \<and> f a = t \<and> b \<in> R \<and> f b = t \<and> P a b) \<longleftrightarrow>
    f ` C = f ` R \<and> (\<forall>a \<in> C. \<forall>b \<in> R. f a = f b \<longrightarrow> P a b)" (is "?l \<longleftrightarrow> ?r")
proof
  assume l: ?l
  have "f ` C = f ` R"
  proof (intro equalityI subsetI)
    fix t assume "t \<in> f ` C"
    with l obtain b where "b \<in> R" "f b = t" by blast
    then show "t \<in> f ` R" by blast
  next
    fix t assume "t \<in> f ` R"
    with l obtain a where "a \<in> C" "f a = t" by blast
    then show "t \<in> f ` C" by blast
  qed
  moreover have "P a b" if "a \<in> C" "b \<in> R" "f a = f b" for a b
  proof -
    have "f a \<in> f ` C \<union> f ` R" using that by blast
    with l obtain a' b' where "a' \<in> C" "f a' = f a" "b' \<in> R" "f b' = f a" "P a' b'" by blast
    with that assms show ?thesis by (metis inj_onD)
  qed
  ultimately show ?r by blast
next
  assume r: ?r
  show ?l
  proof
    fix t assume "t \<in> f ` C \<union> f ` R"
    with r have "t \<in> f ` C" "t \<in> f ` R" by auto
    then obtain a b where "a \<in> C" "f a = t" "b \<in> R" "f b = t" by (metis imageE)
    with r show "\<exists>a b. a \<in> C \<and> f a = t \<and> b \<in> R \<and> f b = t \<and> P a b" by metis
  qed
qed

text \<open>The refresh comparison reports a revision exactly if something material changed: no
  revision is reported iff both frames have the same timestamps and every numeric value of
  corresponding rows is close; every reported timestamp is of one of the frames.\<close>

theorem revisions_iff_changed:
  assumes "distinct (map cr_timestamp cached)" and "distinct (map cr_timestamp refreshed)"
  shows "\<exists>rs. compare_cached_and_refreshed cached refreshed = Inr rs \<and>
    (rs = [] \<longleftrightarrow> cr_timestamp ` set cached = cr_timestamp ` set refreshed \<and>
       (\<forall>a \<in> set cached. \<forall>b \<in> set refreshed. cr_timestamp a = cr_timestamp b \<longrightarrow>
          (\<forall>column \<in> set NUMERIC_COLUMNS.
             is_close (as_float (numeric_cell a column)) (as_float (numeric_cell b column)))))"
proof -
  obtain c where c: "indexed_unique_rows cached = Inr c" "dict_ok c"
      "\<And>t r. dict_get c t = Some r \<longleftrightarrow> r \<in> set cached \<and> cr_timestamp r = t"
    using indexed_unique_rows_get [OF assms(1)] by blast
  obtain d where d: "indexed_unique_rows refreshed = Inr d" "dict_ok d"
      "\<And>t r. dict_get d t = Some r \<longleftrightarrow> r \<in> set refreshed \<and> cr_timestamp r = t"
    using indexed_unique_rows_get [OF assms(2)] by blast
  note keys = indexed_keys [OF c(2,3)] indexed_keys [OF d(2,3)]
  have at: "compare_timestamp c d t = [] \<longleftrightarrow> (\<exists>a b. dict_get c t = Some a \<and> dict_get d t = Some b \<and>
      (\<forall>column \<in> set NUMERIC_COLUMNS. is_close (as_float (numeric_cell a column)) (as_float (numeric_cell b column))))" for t
    by (cases "dict_get c t"; cases "dict_get d t") (auto simp: compare_timestamp_def column_value_def NUMERIC_COLUMNS_def)
  let ?keys = "cr_timestamp ` set cached \<union> cr_timestamp ` set refreshed"
  let ?rs = "concat (map (compare_timestamp c d) (sort (remdups (map fst c @ map fst d))))"
  let ?close = "\<lambda>a b. \<forall>column \<in> set NUMERIC_COLUMNS. is_close (as_float (numeric_cell a column)) (as_float (numeric_cell b column))"
  have "?rs = [] \<longleftrightarrow> (\<forall>t \<in> ?keys. compare_timestamp c d t = [])" unfolding keys [symmetric] by auto
  also have "\<dots> \<longleftrightarrow> (\<forall>t \<in> ?keys. \<exists>a b. a \<in> set cached \<and> cr_timestamp a = t \<and> b \<in> set refreshed \<and>
      cr_timestamp b = t \<and> ?close a b)"
    unfolding at c(3) d(3) by (simp only: conj_assoc)
  also have "\<dots> \<longleftrightarrow> cr_timestamp ` set cached = cr_timestamp ` set refreshed \<and>
      (\<forall>a \<in> set cached. \<forall>b \<in> set refreshed. cr_timestamp a = cr_timestamp b \<longrightarrow> ?close a b)"
    by (rule matched_iff) (use assms in \<open>simp_all add: distinct_map\<close>)
  finally show ?thesis using c(1) d(1) by (simp add: compare_cached_and_refreshed_def)
qed

lemma revisions_iff_changed_witness:
  "\<exists>rs. compare_cached_and_refreshed [demo_row 0] [demo_row 0, demo_row 86400000000] = Inr rs \<and> rs \<noteq> []"
proof -
  have "cr_timestamp ` set [demo_row 0] \<noteq> cr_timestamp ` set [demo_row 0, demo_row 86400000000]"
    by (simp add: demo_row_def)
  then show ?thesis
    using revisions_iff_changed [of "[demo_row 0]" "[demo_row 0, demo_row 86400000000]"] by (auto simp: demo_row_def)
qed

text \<open>A frame that the complete evaluation passes on satisfies the canonical contract.\<close>

lemma published_frame_canonical:
  assumes "evaluate_complete_request redact api frame request expected policy = Inr q" and "qr_frame q = Some rows"
  shows "rows = cf_rows frame" and "canonical_contract_errors frame request = []"
proof -
  from assms show "rows = cf_rows frame"
    by (auto simp: evaluate_complete_request_def Let_def result_simps split: if_splits)
  have fatal: "findings_fatal (finding_if True (mk_finding redact FATAL a b c) @ fs)" for a b c fs
    by (simp add: findings_fatal_def finding_if_def mk_finding_def)
  show "canonical_contract_errors frame request = []"
  proof (rule ccontr)
    assume "canonical_contract_errors frame request \<noteq> []"
    with assms show False
      by (auto simp: evaluate_complete_request_def Let_def result_simps severity_fatal fatal split: if_splits)
  qed
qed

end
