(* ===== verification/Retry.thy ===== *)
theory Retry
  imports Data_Contracts
begin

text \<open>
  The retry executor of \<open>src/data/retry.py\<close>. The injected clock, operation, random source,
  sleeper and observer form the world: each is read from an arbitrary sequence of readings or
  outcomes, so a theorem about every world holds for every behaviour of the callables, and the
  world records how often each was called and with what. The observer may raise.
\<close>

section \<open>Model\<close>

datatype failure_classification = RETRYABLE | FALLBACKABLE | TERMINAL

record 'v retry_result =
  rr_value :: 'v
  rr_attempts :: "attempt_evidence list"

record retry_executor =
  rx_policy :: retry_policy
  rx_max_retry_after_seconds :: real

definition retry_executor_init :: "retry_policy \<Rightarrow> real option \<Rightarrow> retry_executor result" where
  "retry_executor_init policy max_retry_after_seconds =
     (let cap = (case max_retry_after_seconds of None \<Rightarrow> rp_max_retry_after_seconds policy | Some m \<Rightarrow> m)
      in if cap < 0 then Inl (ValueError ''max_retry_after_seconds must be non-negative'')
         else Inr \<lparr>rx_policy = policy, rx_max_retry_after_seconds = cap\<rparr>)"

definition classify :: "exn \<Rightarrow> failure_classification" where
  "classify e =
     (if is_instance e TransientProviderError then RETRYABLE
      else if is_instance e ProviderQuotaError \<or> is_instance e ProviderEntitlementError then FALLBACKABLE
      else TERMINAL)"

record 'v retry_world =
  rw_clock :: "nat \<Rightarrow> datetime"
  rw_clock_reads :: nat
  rw_operation :: "nat \<Rightarrow> exn + 'v"
  rw_calls :: nat
  rw_random :: "nat \<Rightarrow> real"
  rw_draws :: nat
  rw_observer :: "attempt_evidence \<Rightarrow> exn option"
  rw_observed :: "attempt_evidence list"
  rw_sleeps :: "real list"

definition read_clock :: "'v retry_world \<Rightarrow> datetime \<times> 'v retry_world" where
  "read_clock w = (rw_clock w (rw_clock_reads w), w\<lparr>rw_clock_reads := Suc (rw_clock_reads w)\<rparr>)"

definition call_operation :: "'v retry_world \<Rightarrow> (exn + 'v) \<times> 'v retry_world" where
  "call_operation w = (rw_operation w (rw_calls w), w\<lparr>rw_calls := Suc (rw_calls w)\<rparr>)"

definition draw_random :: "'v retry_world \<Rightarrow> real \<times> 'v retry_world" where
  "draw_random w = (rw_random w (rw_draws w), w\<lparr>rw_draws := Suc (rw_draws w)\<rparr>)"

definition observe :: "attempt_evidence \<Rightarrow> 'v retry_world \<Rightarrow> exn option \<times> 'v retry_world" where
  "observe a w = (rw_observer w a, w\<lparr>rw_observed := rw_observed w @ [a]\<rparr>)"

definition sleep :: "real \<Rightarrow> 'v retry_world \<Rightarrow> 'v retry_world" where
  "sleep d w = w\<lparr>rw_sleeps := rw_sleeps w @ [d]\<rparr>"

fun class_name :: "exn_class \<Rightarrow> string" where
  "class_name (External name) = name"
| "class_name (Acquisition DataAcquisitionError) = ''DataAcquisitionError''"
| "class_name (Acquisition InvalidRequestError) = ''InvalidRequestError''"
| "class_name (Acquisition ContractViolationError) = ''ContractViolationError''"
| "class_name (Acquisition ProviderError) = ''ProviderError''"
| "class_name (Acquisition TransientProviderError) = ''TransientProviderError''"
| "class_name (Acquisition ProviderAuthenticationError) = ''ProviderAuthenticationError''"
| "class_name (Acquisition ProviderEntitlementError) = ''ProviderEntitlementError''"
| "class_name (Acquisition ProviderQuotaError) = ''ProviderQuotaError''"
| "class_name (Acquisition ProviderSchemaError) = ''ProviderSchemaError''"
| "class_name (Acquisition NoUsableDataError) = ''NoUsableDataError''"
| "class_name (Acquisition ProviderExhaustedError) = ''ProviderExhaustedError''"
| "class_name (Acquisition QualityError) = ''QualityError''"
| "class_name (Acquisition CacheError) = ''CacheError''"
| "class_name (Acquisition CachePublicationError) = ''CachePublicationError''"
| "class_name (Acquisition ManifestError) = ''ManifestError''"
| "class_name (Acquisition ArtifactError) = ''ArtifactError''"
| "class_name (Acquisition ConcurrentPublicationError) = ''ConcurrentPublicationError''"

text \<open>\<open>retry_after_seconds\<close> may be any number: a NaN compares as false, infinity is capped.\<close>

definition delay_seconds :: "retry_executor \<Rightarrow> int \<Rightarrow> exn \<Rightarrow> 'v retry_world \<Rightarrow> real \<times> 'v retry_world" where
  "delay_seconds x attempt_number e w =
     (let jittered =
        (let cap = min (rp_max_delay_seconds (rx_policy x))
                       (rp_base_delay_seconds (rx_policy x) * 2 ^ nat (attempt_number - 1));
             (jitter, w) = draw_random w
         in (cap * min 1 (max 0 jitter), w))
      in case exn_retry_after_seconds e of
           None \<Rightarrow> jittered
         | Some retry_after \<Rightarrow>
             if Fin 0 \<le> retry_after
             then ((case retry_after of Fin r \<Rightarrow> min r (rx_max_retry_after_seconds x)
                      | _ \<Rightarrow> rx_max_retry_after_seconds x), w)
             else jittered)"

definition duration_since :: "datetime \<Rightarrow> datetime \<Rightarrow> real" where
  "duration_since now started_at = max 0 (total_seconds (now - started_at))"

fun execute_loop :: "(string \<Rightarrow> string) \<Rightarrow> retry_executor \<Rightarrow> provider \<Rightarrow> int list \<Rightarrow>
    attempt_evidence list \<Rightarrow> 'v retry_world \<Rightarrow> (exn + 'v retry_result) \<times> 'v retry_world" where
  "execute_loop redact x provider [] attempts w =
     (Inl (acquisition_error redact DataAcquisitionError ''retry loop terminated unexpectedly'' None), w)"
| "execute_loop redact x provider (number # numbers) attempts w =
     (let (started_at, w) = read_clock w;
          (outcome, w) = call_operation w
      in case outcome of
           Inl error \<Rightarrow>
             (let (now, w) = read_clock w;
                  duration = duration_since now started_at
              in if classify error \<noteq> RETRYABLE \<or> number = rp_max_attempts (rx_policy x)
                 then (let (raised, w) = observe (attempt_post_init redact
                           \<lparr>ae_provider = provider, ae_attempt_number = number, ae_started_at = started_at,
                            ae_duration_seconds = duration, ae_outcome = ''failed'',
                            ae_retry_delay_seconds = None, ae_error_type = Some (class_name (exn_class error)),
                            ae_error_message = Some (exn_message error)\<rparr>) w
                       in (case raised of Some e \<Rightarrow> Inl e | None \<Rightarrow> Inl error, w))
                 else (let (delay, w) = delay_seconds x number error w;
                           attempt = attempt_post_init redact
                             \<lparr>ae_provider = provider, ae_attempt_number = number, ae_started_at = started_at,
                              ae_duration_seconds = duration, ae_outcome = ''retry'',
                              ae_retry_delay_seconds = Some delay,
                              ae_error_type = Some (class_name (exn_class error)),
                              ae_error_message = Some (exn_message error)\<rparr>;
                           (raised, w) = observe attempt w
                       in (case raised of Some e \<Rightarrow> (Inl e, w)
                           | None \<Rightarrow> execute_loop redact x provider numbers (attempts @ [attempt]) (sleep delay w))))
         | Inr value \<Rightarrow>
             (let (now, w) = read_clock w;
                  duration = duration_since now started_at;
                  attempt = attempt_post_init redact
                    \<lparr>ae_provider = provider, ae_attempt_number = number, ae_started_at = started_at,
                     ae_duration_seconds = duration, ae_outcome = ''success'',
                     ae_retry_delay_seconds = None, ae_error_type = None, ae_error_message = None\<rparr>;
                  (raised, w) = observe attempt w
              in (case raised of Some e \<Rightarrow> Inl e
                  | None \<Rightarrow> Inr \<lparr>rr_value = value, rr_attempts = attempts @ [attempt]\<rparr>, w)))"

definition execute_observed :: "(string \<Rightarrow> string) \<Rightarrow> retry_executor \<Rightarrow> provider \<Rightarrow> 'v retry_world \<Rightarrow>
    (exn + 'v retry_result) \<times> 'v retry_world" where
  "execute_observed redact x provider w =
     execute_loop redact x provider [1 .. rp_max_attempts (rx_policy x)] [] w"

text \<open>\<open>execute\<close> passes an observer that does nothing.\<close>

definition execute_retry :: "(string \<Rightarrow> string) \<Rightarrow> retry_executor \<Rightarrow> provider \<Rightarrow> 'v retry_world \<Rightarrow>
    (exn + 'v retry_result) \<times> 'v retry_world" where
  "execute_retry redact x provider w =
     execute_loop redact x provider [1 .. rp_max_attempts (rx_policy x)] [] (w\<lparr>rw_observer := \<lambda>_. None\<rparr>)"

section \<open>Delays\<close>

lemma delay_world:
  "snd (delay_seconds x n e w) = w \<or> snd (delay_seconds x n e w) = w\<lparr>rw_draws := Suc (rw_draws w)\<rparr>"
  by (auto simp: delay_seconds_def draw_random_def Let_def split: option.splits)

lemma delay_bounds:
  assumes "retry_policy_post_init (rx_policy x) = Inr (rx_policy x)" and "0 \<le> rx_max_retry_after_seconds x"
  shows "0 \<le> fst (delay_seconds x n e w)"
    and "fst (delay_seconds x n e w) \<le> max (rp_max_delay_seconds (rx_policy x)) (rx_max_retry_after_seconds x)"
proof -
  let ?p = "rx_policy x"
  let ?cap = "min (rp_max_delay_seconds ?p) (rp_base_delay_seconds ?p * 2 ^ nat (n - 1))"
  have p: "0 \<le> rp_base_delay_seconds ?p" "rp_base_delay_seconds ?p \<le> rp_max_delay_seconds ?p"
    using assms(1) by (auto simp: retry_policy_post_init_def split: if_splits)
  then have cap: "0 \<le> ?cap" by auto
  have jit: "0 \<le> ?cap * min 1 (max 0 j)" "?cap * min 1 (max 0 j) \<le> rp_max_delay_seconds ?p" for j
  proof -
    show "0 \<le> ?cap * min 1 (max 0 j)" using cap by (intro mult_nonneg_nonneg) auto
    have "?cap * min 1 (max 0 j) \<le> ?cap * 1" using cap by (intro mult_left_mono) auto
    then show "?cap * min 1 (max 0 j) \<le> rp_max_delay_seconds ?p" by simp
  qed
  have wait: "0 \<le> (case r of Fin r \<Rightarrow> min r (rx_max_retry_after_seconds x) | _ \<Rightarrow> rx_max_retry_after_seconds x)"
    "(case r of Fin r \<Rightarrow> min r (rx_max_retry_after_seconds x) | _ \<Rightarrow> rx_max_retry_after_seconds x)
       \<le> rx_max_retry_after_seconds x" if "Fin 0 \<le> r" for r
    using that assms(2) by (cases r; simp)+
  show "0 \<le> fst (delay_seconds x n e w)"
    using jit(1) wait(1) by (auto simp: delay_seconds_def draw_random_def Let_def split: option.splits)
  show "fst (delay_seconds x n e w) \<le> max (rp_max_delay_seconds ?p) (rx_max_retry_after_seconds x)"
    using jit(2) wait(2) by (fastforce simp: delay_seconds_def draw_random_def Let_def le_max_iff_disj split: option.splits)
qed

section \<open>Executions\<close>

lemma retry_step:
  fixes w :: "'v retry_world"
  assumes "rw_operation w (rw_calls w) = Inl e" and "classify e = RETRYABLE"
    and "k \<noteq> rp_max_attempts (rx_policy x)" and "\<And>a. rw_observer w a = None"
  shows "\<exists>w' a d. execute_loop redact x p (k # ks) atts w = execute_loop redact x p ks (atts @ [a]) w' \<and>
    rw_operation w' = rw_operation w \<and> rw_observer w' = rw_observer w \<and> rw_calls w' = Suc (rw_calls w) \<and>
    rw_observed w' = rw_observed w @ [a] \<and> rw_sleeps w' = rw_sleeps w @ [d] \<and>
    (\<exists>v :: 'v retry_world. d = fst (delay_seconds x k e v)) \<and>
    ae_attempt_number a = k \<and> ae_outcome a = ''retry'' \<and> ae_retry_delay_seconds a = Some d"
proof -
  let ?w1 = "w\<lparr>rw_clock_reads := Suc (rw_clock_reads w), rw_calls := Suc (rw_calls w),
      rw_clock_reads := Suc (Suc (rw_clock_reads w))\<rparr>"
  obtain d w2 where d: "delay_seconds x k e ?w1 = (d, w2)" by fastforce
  have w2: "w2 = ?w1 \<or> w2 = ?w1\<lparr>rw_draws := Suc (rw_draws ?w1)\<rparr>"
    using delay_world [of x k e ?w1] d by simp
  then have same: "rw_operation w2 = rw_operation w" "rw_observer w2 = rw_observer w"
    "rw_calls w2 = Suc (rw_calls w)" "rw_observed w2 = rw_observed w" "rw_sleeps w2 = rw_sleeps w"
    by auto
  let ?a = "attempt_post_init redact \<lparr>ae_provider = p, ae_attempt_number = k,
      ae_started_at = rw_clock w (rw_clock_reads w),
      ae_duration_seconds = duration_since (rw_clock w (Suc (rw_clock_reads w))) (rw_clock w (rw_clock_reads w)),
      ae_outcome = ''retry'', ae_retry_delay_seconds = Some d,
      ae_error_type = Some (class_name (exn_class e)), ae_error_message = Some (exn_message e)\<rparr>"
  have eq: "execute_loop redact x p (k # ks) atts w
      = execute_loop redact x p ks (atts @ [?a]) (sleep d (w2\<lparr>rw_observed := rw_observed w2 @ [?a]\<rparr>))"
    using assms d same by (simp add: read_clock_def call_operation_def observe_def Let_def)
  show ?thesis
    by (rule exI [of _ "sleep d (w2\<lparr>rw_observed := rw_observed w2 @ [?a]\<rparr>)"], rule exI [of _ ?a], rule exI [of _ d])
      (use eq same d in \<open>auto simp del: execute_loop.simps simp: sleep_def attempt_post_init_def intro!: exI [of _ ?w1]\<close>)
qed

lemma last_step:
  assumes "\<And>a. rw_observer w a = None" and "rw_operation w (rw_calls w) = out"
    and "\<And>e. out = Inl e \<Longrightarrow> classify e \<noteq> RETRYABLE \<or> k = rp_max_attempts (rx_policy x)"
  shows "\<exists>w' a. execute_loop redact x p (k # ks) atts w =
      (map_sum (\<lambda>e. e) (\<lambda>v. \<lparr>rr_value = v, rr_attempts = atts @ [a]\<rparr>) out, w') \<and>
    rw_calls w' = Suc (rw_calls w) \<and> rw_observed w' = rw_observed w @ [a] \<and> rw_sleeps w' = rw_sleeps w \<and>
    ae_attempt_number a = k \<and> ae_outcome a = (case out of Inl _ \<Rightarrow> ''failed'' | Inr _ \<Rightarrow> ''success'') \<and>
    ae_retry_delay_seconds a = None"
  using assms
  by (cases out) (auto simp: read_clock_def call_operation_def observe_def attempt_post_init_def Let_def)

text \<open>What an execution from attempt \<open>k\<close> does: \<open>n\<close> transient failures, then the last attempt.\<close>

definition execution_spec :: "retry_executor \<Rightarrow> int \<Rightarrow> attempt_evidence list \<Rightarrow> 'v retry_world \<Rightarrow>
    (exn + 'v retry_result) \<times> 'v retry_world \<Rightarrow> nat \<Rightarrow> attempt_evidence list \<Rightarrow> real list \<Rightarrow> bool" where
  "execution_spec x k atts w out n evidence delays \<longleftrightarrow>
     k + int n \<le> rp_max_attempts (rx_policy x) \<and>
     (\<forall>i < n. \<exists>e. rw_operation w (rw_calls w + i) = Inl e \<and> classify e = RETRYABLE) \<and>
     (case rw_operation w (rw_calls w + n) of
        Inl e \<Rightarrow> fst out = Inl e \<and> (classify e \<noteq> RETRYABLE \<or> k + int n = rp_max_attempts (rx_policy x))
      | Inr v \<Rightarrow> fst out = Inr \<lparr>rr_value = v, rr_attempts = atts @ evidence\<rparr>) \<and>
     rw_calls (snd out) = rw_calls w + n + 1 \<and>
     rw_observed (snd out) = rw_observed w @ evidence \<and> rw_sleeps (snd out) = rw_sleeps w @ delays \<and>
     length delays = n \<and>
     map ae_attempt_number evidence = [k .. k + int n] \<and>
     map ae_outcome evidence = replicate n ''retry'' @
       [case rw_operation w (rw_calls w + n) of Inl _ \<Rightarrow> ''failed'' | Inr _ \<Rightarrow> ''success''] \<and>
     map ae_retry_delay_seconds evidence = map Some delays @ [None] \<and>
     (\<forall>d \<in> set delays. 0 \<le> d \<and> d \<le> max (rp_max_delay_seconds (rx_policy x)) (rx_max_retry_after_seconds x))"

lemma execution_spec_last:
  assumes "\<And>a. rw_observer w a = None" and "k \<le> rp_max_attempts (rx_policy x)"
    and "\<And>e. rw_operation w (rw_calls w) = Inl e \<Longrightarrow> classify e \<noteq> RETRYABLE \<or> k = rp_max_attempts (rx_policy x)"
  shows "\<exists>a. execution_spec x k atts w (execute_loop redact x p (k # ks) atts w) 0 [a] []"
proof -
  from last_step [of w "rw_operation w (rw_calls w)" k x redact p ks atts] assms(1,3)
  obtain w' a where "execute_loop redact x p (k # ks) atts w =
      (map_sum (\<lambda>e. e) (\<lambda>v. \<lparr>rr_value = v, rr_attempts = atts @ [a]\<rparr>) (rw_operation w (rw_calls w)), w')"
      "rw_calls w' = Suc (rw_calls w)" "rw_observed w' = rw_observed w @ [a]" "rw_sleeps w' = rw_sleeps w"
      "ae_attempt_number a = k" "ae_retry_delay_seconds a = None"
      "ae_outcome a = (case rw_operation w (rw_calls w) of Inl _ \<Rightarrow> ''failed'' | Inr _ \<Rightarrow> ''success'')"
    by blast
  then have "execution_spec x k atts w (execute_loop redact x p (k # ks) atts w) 0 [a] []"
    using assms(2,3) by (cases "rw_operation w (rw_calls w)") (auto simp del: execute_loop.simps simp: execution_spec_def)
  then show ?thesis by blast
qed

lemma execution_spec_step:
  assumes "execution_spec x (k + 1) (atts @ [a]) w' out n evidence delays"
    and "rw_operation w (rw_calls w) = Inl e" and "classify e = RETRYABLE"
    and "rw_operation w' = rw_operation w" and "rw_calls w' = Suc (rw_calls w)"
    and "rw_observed w' = rw_observed w @ [a]" and "rw_sleeps w' = rw_sleeps w @ [d]"
    and "ae_attempt_number a = k" and "ae_outcome a = ''retry''" and "ae_retry_delay_seconds a = Some d"
    and "0 \<le> d \<and> d \<le> max (rp_max_delay_seconds (rx_policy x)) (rx_max_retry_after_seconds x)"
  shows "execution_spec x k atts w out (Suc n) (a # evidence) (d # delays)"
proof -
  have "[k .. k + int (Suc n)] = k # [k + 1 .. k + 1 + int n]" by (simp add: upto_rec1 algebra_simps)
  moreover have "\<exists>e. rw_operation w (rw_calls w + i) = Inl e \<and> classify e = RETRYABLE" if "i < Suc n" for i
    using that assms(1-5) by (cases i) (auto simp: execution_spec_def)
  ultimately show ?thesis
    using assms unfolding execution_spec_def by (simp add: add.commute add.left_commute split: sum.splits)
qed

lemma execution_spec_exists:
  fixes w :: "'v retry_world"
  assumes "retry_policy_post_init (rx_policy x) = Inr (rx_policy x)" and "0 \<le> rx_max_retry_after_seconds x"
    and "\<And>a. rw_observer w a = None" and "k \<le> rp_max_attempts (rx_policy x)"
  shows "\<exists>n evidence delays. execution_spec x k atts w
    (execute_loop redact x p [k .. rp_max_attempts (rx_policy x)] atts w) n evidence delays"
  using assms(3,4)
proof (induction "nat (rp_max_attempts (rx_policy x) - k)" arbitrary: k atts w)
  case (0 k)
  then have "[k .. rp_max_attempts (rx_policy x)] = [k]" by simp
  with 0 show ?case using execution_spec_last [of w k x] by fastforce
next
  case (Suc m k)
  let ?N = "rp_max_attempts (rx_policy x)"
  have ks: "[k .. ?N] = k # [k + 1 .. ?N]" using Suc.prems by (simp add: upto_rec1)
  show ?case
  proof (cases "\<exists>e. rw_operation w (rw_calls w) = Inl e \<and> classify e = RETRYABLE")
    case False
    then show ?thesis unfolding ks using execution_spec_last [OF Suc.prems] by blast
  next
    case True
    then obtain e where e: "rw_operation w (rw_calls w) = Inl e" "classify e = RETRYABLE" by blast
    have "k \<noteq> ?N" using Suc.hyps(2) by auto
    from retry_step [OF e this Suc.prems(1), of redact p "[k + 1 .. ?N]" atts]
    obtain w' a d v where w': "execute_loop redact x p (k # [k + 1 .. ?N]) atts w
          = execute_loop redact x p [k + 1 .. ?N] (atts @ [a]) w'"
        "rw_operation w' = rw_operation w" "rw_observer w' = rw_observer w" "rw_calls w' = Suc (rw_calls w)"
        "rw_observed w' = rw_observed w @ [a]" "rw_sleeps w' = rw_sleeps w @ [d]"
        "d = fst (delay_seconds x k e (v :: 'v retry_world))"
        "ae_attempt_number a = k" "ae_outcome a = ''retry''" "ae_retry_delay_seconds a = Some d"
      by blast
    have "\<And>b. rw_observer w' b = None" "k + 1 \<le> ?N" using w'(3) Suc.prems \<open>k \<noteq> ?N\<close> by auto
    moreover have "m = nat (?N - (k + 1))" using Suc.hyps(2) by simp
    ultimately obtain n evidence delays where
        "execution_spec x (k + 1) (atts @ [a]) w' (execute_loop redact x p [k + 1 .. ?N] (atts @ [a]) w') n evidence delays"
      using Suc.hyps(1) by blast
    from execution_spec_step [OF this e w'(2,4-6,8-10)] delay_bounds [OF assms(1,2)] w'(7)
    show ?thesis unfolding ks w'(1) by blast
  qed
qed

text \<open>C18: what \<open>execute_observed\<close> does with a valid policy and an observer that does not raise, for
  every sequence of outcomes of the operation. The operation is called \<open>n + 1\<close> times, at most
  \<open>max_attempts\<close>; the first \<open>n\<close> calls failed transiently and each was followed by a sleep of a
  bounded, non-negative delay. The last call decides: its value is returned with the evidence,
  or its exception is raised because it is not transient or the attempts are used up. The
  observer saw one evidence record per call, numbered from one, with these outcomes and delays.\<close>

theorem execute_observed_contract:
  assumes "retry_policy_post_init policy = Inr policy" and "retry_executor_init policy cap = Inr x"
    and "\<And>a. rw_observer w a = None" and "rw_calls w = 0" and "rw_observed w = []" and "rw_sleeps w = []"
  shows "\<exists>n evidence delays.
    (case execute_observed redact x p w of (out, w') \<Rightarrow>
      1 + int n \<le> rp_max_attempts policy \<and>
      (\<forall>i < n. \<exists>e. rw_operation w i = Inl e \<and> classify e = RETRYABLE) \<and>
      (case rw_operation w n of
         Inl e \<Rightarrow> out = Inl e \<and> (classify e \<noteq> RETRYABLE \<or> 1 + int n = rp_max_attempts policy)
       | Inr v \<Rightarrow> out = Inr \<lparr>rr_value = v, rr_attempts = evidence\<rparr>) \<and>
      rw_calls w' = n + 1 \<and> rw_observed w' = evidence \<and> rw_sleeps w' = delays \<and> length delays = n \<and>
      map ae_attempt_number evidence = [1 .. 1 + int n] \<and>
      map ae_outcome evidence = replicate n ''retry'' @
        [case rw_operation w n of Inl _ \<Rightarrow> ''failed'' | Inr _ \<Rightarrow> ''success''] \<and>
      map ae_retry_delay_seconds evidence = map Some delays @ [None] \<and>
      (\<forall>d \<in> set delays. 0 \<le> d \<and> d \<le> max (rp_max_delay_seconds policy) (rx_max_retry_after_seconds x)))"
proof -
  have x: "rx_policy x = policy" "0 \<le> rx_max_retry_after_seconds x" "1 \<le> rp_max_attempts policy"
    using assms(1,2)
    by (auto simp: retry_executor_init_def retry_policy_post_init_def Let_def split: if_splits option.splits)
  from execution_spec_exists [of x w 1 "[]" redact p] x assms(1,3)
  obtain n evidence delays where
      "execution_spec x 1 [] w (execute_observed redact x p w) n evidence delays"
    by (auto simp: execute_observed_def)
  moreover obtain out w' where "execute_observed redact x p w = (out, w')" by fastforce
  ultimately show ?thesis
    using x assms(4-6)
    by (intro exI [of _ n] exI [of _ evidence] exI [of _ delays])
      (simp add: execution_spec_def cong: sum.case_cong)
qed

definition demo_transient :: exn where
  "demo_transient = \<lparr>exn_class = Acquisition TransientProviderError, exn_message = ''timeout'',
     exn_acquisition_id = None, exn_retry_after_seconds = Some (Fin 100)\<rparr>"

definition demo_world :: "nat retry_world" where
  "demo_world = \<lparr>rw_clock = (\<lambda>n. int n * 1000000), rw_clock_reads = 0,
     rw_operation = (\<lambda>n. if n = 0 then Inl demo_transient else Inr 7), rw_calls = 0,
     rw_random = (\<lambda>_. 1), rw_draws = 0, rw_observer = (\<lambda>_. None), rw_observed = [], rw_sleeps = []\<rparr>"

definition demo_executor :: retry_executor where
  "demo_executor = \<lparr>rx_policy = default_retry_policy, rx_max_retry_after_seconds = 8\<rparr>"

lemma execute_observed_contract_witness:
  "\<exists>n evidence. rw_sleeps (snd (execute_observed (\<lambda>s. s) demo_executor YFINANCE demo_world)) \<noteq> [] \<and> n = 1 \<and>
     fst (execute_observed (\<lambda>s. s) demo_executor YFINANCE demo_world) = Inr \<lparr>rr_value = 7, rr_attempts = evidence\<rparr> \<and>
     map ae_outcome evidence = [''retry'', ''success'']"
proof -
  have c: "classify demo_transient = RETRYABLE" by (simp add: classify_def is_instance_def demo_transient_def)
  have d: "rw_operation demo_world 0 = Inl demo_transient" "\<And>n. 0 < n \<Longrightarrow> rw_operation demo_world n = Inr 7"
    "rw_calls demo_world = 0" "rw_observed demo_world = []" "rw_sleeps demo_world = []"
    "\<And>a. rw_observer demo_world a = None"
    by (simp_all add: demo_world_def)
  have init: "retry_executor_init default_retry_policy None = Inr demo_executor"
    by (simp add: retry_executor_init_def demo_executor_def default_retry_policy_def)
  obtain out w' where ow: "execute_observed (\<lambda>s. s) demo_executor YFINANCE demo_world = (out, w')" by fastforce
  from execute_observed_contract [OF default_policies_valid(2) init d(6,3,4,5), of "\<lambda>s. s" YFINANCE,
      unfolded ow prod.case]
  obtain n evidence delays where run:
      "\<forall>i < n. \<exists>e. rw_operation demo_world i = Inl e \<and> classify e = RETRYABLE"
      "case rw_operation demo_world n of
         Inl e \<Rightarrow> out = Inl e \<and> (classify e \<noteq> RETRYABLE \<or> 1 + int n = rp_max_attempts default_retry_policy)
       | Inr v \<Rightarrow> out = Inr \<lparr>rr_value = v, rr_attempts = evidence\<rparr>"
      "rw_sleeps w' = delays" "length delays = n"
      "map ae_outcome evidence = replicate n ''retry'' @
        [case rw_operation demo_world n of Inl _ \<Rightarrow> ''failed'' | Inr _ \<Rightarrow> ''success'']"
    by (elim exE conjE) (rule that; assumption)
  have "n \<noteq> 0"
  proof
    assume "n = 0"
    with run(2) c d(1) show False by (simp add: default_retry_policy_def)
  qed
  moreover have "\<not> 1 < n" using run(1) d(2) [of 1] by auto
  ultimately have n: "n = 1" by simp
  show ?thesis
    by (rule exI [of _ 1], rule exI [of _ evidence]) (use run n d(2) [of 1] in \<open>auto simp: ow\<close>)
qed

end
