(* ===== verification/Acquisition.thy ===== *)
theory Acquisition
  imports Quality Retry
begin

text \<open>
  The decisions of the acquisition service, \<open>src/data/acquisition.py\<close>: which sessions are fetched
  again, how the providers of a range are tried in turn, how fetched ranges are merged into the
  cached frame, and the lineage of the result. The provider adapters, pandas' text of a frame and
  the exchange schedule are parameters of the service; the cached lineage is the parsed list of
  segments of the manifest.
\<close>

section \<open>State\<close>

record freshness_policy =
  fp_recent_ttl :: int
  fp_historical_ttl :: int
  fp_availability_lag :: int
  fp_recent_overlap_sessions :: int

definition freshness_policy_post_init :: "freshness_policy \<Rightarrow> freshness_policy result" where
  "freshness_policy_post_init f =
     (if fp_recent_ttl f < 0 \<or> fp_historical_ttl f < 0 \<or> fp_availability_lag f < 0 \<or>
         fp_recent_overlap_sessions f < 1
      then Inl (ValueError ''freshness durations must be non-negative and overlap positive'') else Inr f)"

definition default_freshness :: freshness_policy where
  "default_freshness = \<lparr>fp_recent_ttl = 3600000000, fp_historical_ttl = 604800000000,
     fp_availability_lag = 1800000000, fp_recent_overlap_sessions = 5\<rparr>"

text \<open>What the service reads of a \<open>CacheReadResult\<close>: status and frame, and of its manifest the lineage
  that \<open>_cached_lineage\<close> and the time that \<open>_cached_completed_at\<close> parse.\<close>

record cache_read =
  cd_status :: cache_status
  cd_frame :: "canonical_row list option"
  cd_lineage :: "lineage_segment list"
  cd_completed_at :: "datetime option"

record accepted_range =
  rg_request :: acquisition_request
  rg_frame :: "canonical_row list"
  rg_provider :: provider
  rg_acquired_at :: datetime
  rg_action_coverage :: action_coverage
  rg_has_warnings :: bool

record evidence =
  ev_findings :: "quality_finding list"
  ev_rejected_rows :: "rejected_row list"
  ev_provider_skips :: "(string, string) dict"

text \<open>The attempts of the evidence are what the retry executor's observer has seen so far.\<close>

record service =
  sv_redact :: "string \<Rightarrow> string"
  sv_digest :: digest_api
  sv_frame_json :: "canonical_row list \<Rightarrow> string"
  sv_pd :: pd_api
  sv_schedule :: session_schedule
  sv_retry :: retry_executor
  sv_factories :: "provider list"
  sv_eligibility :: "provider \<Rightarrow> acquisition_request \<Rightarrow> bool \<times> string option"
  sv_fetch :: "provider \<Rightarrow> acquisition_request \<Rightarrow> nat \<Rightarrow> exn + provider_batch"
  sv_quality_policy :: quality_policy
  sv_freshness :: freshness_policy

type_synonym world = "provider_batch retry_world"

section \<open>Planning\<close>

definition index_union :: "datetime list \<Rightarrow> datetime list \<Rightarrow> datetime list" where
  "index_union a b = sort (remdups (a @ b))"

definition cache_frame :: "cache_read \<Rightarrow> canonical_row list" where
  "cache_frame cache = (case cd_frame cache of None \<Rightarrow> [] | Some rows \<Rightarrow> rows)"

definition requested_frame :: "canonical_row list \<Rightarrow> datetime list \<Rightarrow> canonical_row list" where
  "requested_frame frame expected = sort_key cr_timestamp (filter (\<lambda>r. cr_timestamp r \<in> set expected) frame)"

definition latest_completed :: "service \<Rightarrow> acquisition_request \<Rightarrow> datetime \<Rightarrow> datetime option" where
  "latest_completed svc request now =
     (let closes = session_closes (sv_schedule svc) (DayDate (ar_start request)) (DayDate (ar_end request));
          completed = map (\<lambda>(session, close). normalize_ts session)
            (filter (\<lambda>(session, close). close + fp_availability_lag (sv_freshness svc) \<le> now) closes)
      in case completed of [] \<Rightarrow> None | t # ts \<Rightarrow> Some (fold max ts t))"

fun get_indexer :: "datetime list \<Rightarrow> datetime \<Rightarrow> int" where
  "get_indexer [] t = -1"
| "get_indexer (x # xs) t = (if x = t then 0 else let p = get_indexer xs t in if p < 0 then -1 else p + 1)"

definition recent_window :: "service \<Rightarrow> datetime list \<Rightarrow> datetime option \<Rightarrow> datetime list" where
  "recent_window svc expected latest =
     (case latest of None \<Rightarrow> []
      | Some t \<Rightarrow> let position = get_indexer expected t;
                     first = max 0 (position - fp_recent_overlap_sessions (sv_freshness svc) + 1)
                 in drop (nat first) (take (nat (position + 1)) expected))"

definition segment_sessions :: "datetime list \<Rightarrow> lineage_segment \<Rightarrow> datetime list" where
  "segment_sessions expected segment =
     filter (\<lambda>t. ls_start segment * 86400000000 \<le> t \<and> t \<le> ls_end segment * 86400000000) expected"

definition stale_step ::
    "service \<Rightarrow> datetime list \<Rightarrow> datetime list \<Rightarrow> datetime \<Rightarrow> lineage_segment \<Rightarrow>
     datetime list \<times> datetime list \<Rightarrow> datetime list \<times> datetime list" where
  "stale_step svc expected window now segment = (\<lambda>(stale, covered).
     let relevant = segment_sessions expected segment in
     if relevant = [] then (stale, covered)
     else let covered = index_union covered relevant;
              age = now - ls_acquired_at segment;
              recent = index_intersection relevant window;
              historical = index_difference relevant window;
              stale = (if recent \<noteq> [] \<and> age > fp_recent_ttl (sv_freshness svc)
                       then index_union stale recent else stale);
              stale = (if historical \<noteq> [] \<and> age > fp_historical_ttl (sv_freshness svc)
                       then index_union stale historical else stale)
          in (stale, covered))"

definition stale_sessions ::
    "service \<Rightarrow> acquisition_request \<Rightarrow> datetime list \<Rightarrow> cache_read \<Rightarrow> datetime \<Rightarrow> datetime list" where
  "stale_sessions svc request expected cache now =
     (if cache_frame cache = [] then []
      else if cd_lineage cache = [] then expected
      else let window = recent_window svc expected (latest_completed svc request now);
               (stale, covered) = fold (stale_step svc expected window now) (cd_lineage cache) ([], []);
               cached_sessions = map cr_timestamp (cache_frame cache)
           in sort (index_union stale (index_difference (index_intersection expected cached_sessions) covered)))"

definition plan_ranges ::
    "service \<Rightarrow> acquisition_request \<Rightarrow> datetime list \<Rightarrow> cache_read \<Rightarrow> canonical_row list \<Rightarrow> datetime \<Rightarrow>
     cache_status \<times> (datetime \<times> datetime) list" where
  "plan_ranges svc request expected cache requested_cached now =
     (if \<not> ar_use_cache request then (FORCED_REFRESH, group_contiguous_sessions expected expected)
      else if cd_status cache = INVALIDATED then (INVALIDATED, group_contiguous_sessions expected expected)
      else let cached_sessions = map cr_timestamp requested_cached;
               missing = index_difference expected cached_sessions;
               refresh_sessions = (if ar_refresh request then expected
                                   else stale_sessions svc request expected cache now);
               status = (if ar_refresh request then FORCED_REFRESH
                         else if refresh_sessions \<noteq> [] then STALE_REFRESH
                         else if missing \<noteq> [] then (if cached_sessions = [] then MISS else PARTIAL_HIT)
                         else FULL_HIT);
               needed = sort (index_union missing refresh_sessions)
           in (status, group_contiguous_sessions expected needed))"

definition covers_all :: "datetime list \<Rightarrow> (datetime \<times> datetime) list \<Rightarrow> bool" where
  "covers_all expected ranges = (length ranges = 1 \<and> hd ranges = (hd expected, last expected))"

section \<open>Fetching a range\<close>

definition provider_order :: "source_preference \<Rightarrow> provider list" where
  "provider_order source = (case source of AUTO \<Rightarrow> [YFINANCE, ALPHA_VANTAGE]
     | SRC_YFINANCE \<Rightarrow> [YFINANCE] | SRC_ALPHA_VANTAGE \<Rightarrow> [ALPHA_VANTAGE])"

fun py_error_name :: "py_error \<Rightarrow> string" where
  "py_error_name (ValueError _) = ''ValueError''"
| "py_error_name (TypeError _) = ''TypeError''"
| "py_error_name KeyError = ''KeyError''"
| "py_error_name IndexError = ''IndexError''"
| "py_error_name ZeroDivisionError = ''ZeroDivisionError''"
| "py_error_name (RuntimeError _) = ''RuntimeError''"
| "py_error_name AssertionError = ''AssertionError''"

definition external :: "string \<Rightarrow> exn" where
  "external name = \<lparr>exn_class = External name, exn_message = [], exn_acquisition_id = None,
     exn_retry_after_seconds = None\<rparr>"

fun norm_exn :: "norm_error \<Rightarrow> exn" where
  "norm_exn (Pandas (PdOther name)) = external name"
| "norm_exn (Pandas _) = external ''ValueError''"
| "norm_exn CounterAssertion = external ''AssertionError''"

definition evaluate_batch ::
    "service \<Rightarrow> provider_batch \<Rightarrow> datetime list \<Rightarrow> exn + quality_result" where
  "evaluate_batch svc batch expected =
     (case normalize_provider_batch (sv_redact svc) (sv_pd svc) batch of
        Inl e \<Rightarrow> Inl (norm_exn e)
      | Inr n \<Rightarrow> (case evaluate_range_candidate (sv_redact svc) (sv_digest svc) n expected of
          Inl e \<Rightarrow> Inl (external (py_error_name e)) | Inr q \<Rightarrow> Inr q))"

definition run_provider :: "service \<Rightarrow> provider \<Rightarrow> acquisition_request \<Rightarrow> world \<Rightarrow>
    (exn + provider_batch retry_result) \<times> world" where
  "run_provider svc p request w =
     execute_observed (sv_redact svc) (sv_retry svc) p
       (w\<lparr>rw_operation := sv_fetch svc p request, rw_observer := \<lambda>_. None\<rparr>)"

definition fatal_fetch_error :: "source_preference \<Rightarrow> exn \<Rightarrow> bool" where
  "fatal_fetch_error source e \<longleftrightarrow>
     is_instance e InvalidRequestError \<or> is_instance e ContractViolationError \<or>
     classify e = TERMINAL \<or> (is_instance e ProviderQuotaError \<and> source \<noteq> AUTO)"

fun fetch_providers ::
    "service \<Rightarrow> source_preference \<Rightarrow> acquisition_request \<Rightarrow> datetime list \<Rightarrow> provider list \<Rightarrow> exn list \<Rightarrow>
     evidence \<Rightarrow> world \<Rightarrow> (exn + accepted_range) \<times> evidence \<times> world" where
  "fetch_providers svc source request expected [] errors ev w =
     (Inl (if errors \<noteq> [] \<and> list_all (\<lambda>e. is_instance e QualityError) errors
           then acquisition_error (sv_redact svc) NoUsableDataError ''provider candidates failed quality validation'' None
           else acquisition_error (sv_redact svc) ProviderExhaustedError ''market data providers were exhausted'' None),
      ev, w)"
| "fetch_providers svc source request expected (p # ps) errors ev w =
     (if p \<notin> set (sv_factories svc)
      then fetch_providers svc source request expected ps errors
             (if dict_get (ev_provider_skips ev) (provider_value p) = None
              then ev\<lparr>ev_provider_skips := dict_set (ev_provider_skips ev) (provider_value p) ''provider is not configured''\<rparr>
              else ev) w
      else case sv_eligibility svc p request of (eligible, reason) \<Rightarrow>
        if \<not> eligible
        then fetch_providers svc source request expected ps errors
               (ev\<lparr>ev_provider_skips := dict_set (ev_provider_skips ev) (provider_value p)
                  (case reason of Some (c # cs) \<Rightarrow> c # cs | _ \<Rightarrow> ''provider is ineligible'')\<rparr>) w
        else (case run_provider svc p request w of
            (Inl e, w) \<Rightarrow>
              if fatal_fetch_error source e then (Inl e, ev, w)
              else fetch_providers svc source request expected ps (errors @ [e]) ev w
          | (Inr retried, w) \<Rightarrow>
              let batch = rr_value retried in
              if pb_provider batch \<noteq> p \<or> pb_request batch \<noteq> request
              then (Inl (acquisition_error (sv_redact svc) ContractViolationError
                      ''provider batch identity is incompatible'' None), ev, w)
              else (case evaluate_batch svc batch expected of
                  Inl e \<Rightarrow> (Inl e, ev, w)
                | Inr q \<Rightarrow>
                    let ev = ev\<lparr>ev_findings := ev_findings ev @ qr_findings q,
                               ev_rejected_rows := ev_rejected_rows ev @ qr_rejected_rows q\<rparr>
                    in (case (qr_severity q = FATAL, qr_frame q) of
                        (False, Some rows) \<Rightarrow>
                          (Inr \<lparr>rg_request = request, rg_frame = rows, rg_provider = p,
                                rg_acquired_at = pb_received_at batch, rg_action_coverage = pb_action_coverage batch,
                                rg_has_warnings = (qr_severity q = WARNING)\<rparr>, ev, w)
                      | _ \<Rightarrow> fetch_providers svc source request expected ps
                               (errors @ [acquisition_error (sv_redact svc) QualityError
                                  ''provider range failed structural validation'' None]) ev w))))"

definition range_request :: "acquisition_request \<Rightarrow> datetime \<Rightarrow> datetime \<Rightarrow> acquisition_request acq" where
  "range_request parent start end_ts = acquisition_request_init
     ((raw_of parent)\<lparr>rr_start := ADate (start div 86400000000), rr_end := ADate (end_ts div 86400000000),
        rr_use_cache := ABool False, rr_refresh := ABool False\<rparr>)"

definition acq_exn :: "service \<Rightarrow> error_class \<times> string \<Rightarrow> exn" where
  "acq_exn svc e = acquisition_error (sv_redact svc) (fst e) (snd e) None"

definition fetch_range ::
    "service \<Rightarrow> acquisition_request \<Rightarrow> datetime \<Rightarrow> datetime \<Rightarrow> evidence \<Rightarrow> world \<Rightarrow>
     (exn + accepted_range) \<times> evidence \<times> world" where
  "fetch_range svc parent start end_ts ev w =
     (case range_request parent start end_ts of
        Inl e \<Rightarrow> (Inl (acq_exn svc e), ev, w)
      | Inr request \<Rightarrow>
          (case expected_sessions (sv_schedule svc) (DayDate (ar_start request)) (DayDate (ar_end request)) of
             Inl e \<Rightarrow> (Inl (acq_exn svc e), ev, w)
           | Inr expected \<Rightarrow>
               fetch_providers svc (ar_source parent) request expected (provider_order (ar_source parent)) [] ev w))"

section \<open>Assembly\<close>

text \<open>\<open>drop_duplicates("timestamp", keep="last")\<close>.\<close>

fun keep_last :: "canonical_row list \<Rightarrow> canonical_row list" where
  "keep_last [] = []"
| "keep_last (r # rs) = (if cr_timestamp r \<in> cr_timestamp ` set rs then keep_last rs else r # keep_last rs)"

definition merge_ranges :: "canonical_row list \<Rightarrow> accepted_range list \<Rightarrow> canonical_row list" where
  "merge_ranges cached accepted = sort_key cr_timestamp (keep_last (cached @ concat (map rg_frame accepted)))"

definition actions_changed :: "service \<Rightarrow> canonical_row list \<Rightarrow> accepted_range list \<Rightarrow> bool" where
  "actions_changed svc cached accepted =
     (if cached = [] then False
      else list_ex (\<lambda>old. list_ex (\<lambda>new. cr_timestamp old = cr_timestamp new \<and>
        list_ex (\<lambda>column. \<not> is_close_tol (qp_action_relative_tolerance (sv_quality_policy svc))
            (qp_action_absolute_tolerance (sv_quality_policy svc))
            (as_float (numeric_cell old column)) (as_float (numeric_cell new column)))
          [''dividend_amount'', ''split_coefficient'']) (concat (map rg_frame accepted))) cached)"

definition frame_hash :: "service \<Rightarrow> canonical_row list \<Rightarrow> string" where
  "frame_hash svc frame = sha256_hexdigest (sv_digest svc) (sv_frame_json svc frame)"

type_synonym provenance = "provider \<times> datetime \<times> action_coverage \<times> int \<times> int \<times> string"

definition parse_provider :: "string \<Rightarrow> provider result" where
  "parse_provider s = (case find (\<lambda>p. provider_value p = s) [YFINANCE, ALPHA_VANTAGE] of
     Some p \<Rightarrow> Inr p | None \<Rightarrow> Inl (ValueError ''is not a valid Provider''))"

definition refreshed_rows :: "accepted_range list \<Rightarrow> (datetime, accepted_range) dict" where
  "refreshed_rows accepted = fold (\<lambda>(t, item) d. dict_set d t item)
     (concat (map (\<lambda>item. map (\<lambda>r. (cr_timestamp r, item)) (rg_frame item)) accepted)) []"

definition row_provenance ::
    "service \<Rightarrow> lineage_segment list \<Rightarrow> (datetime, accepted_range) dict \<Rightarrow> datetime \<Rightarrow> canonical_row \<Rightarrow>
     provenance result" where
  "row_provenance svc cached_lineage refreshed default_time row =
     (let day = cr_timestamp row div 86400000000 in
      case dict_get refreshed (cr_timestamp row) of
        Some new \<Rightarrow> Inr (rg_provider new, rg_acquired_at new, rg_action_coverage new,
          ar_start (rg_request new), ar_end (rg_request new), frame_hash svc (rg_frame new))
      | None \<Rightarrow> rbind (parse_provider (cr_source row)) (\<lambda>p.
          case find (\<lambda>item. ls_start item \<le> day \<and> day \<le> ls_end item \<and> ls_provider item = p) cached_lineage of
            None \<Rightarrow> Inr (p, default_time, UNKNOWN, day, day, ''unsegmented'')
          | Some segment \<Rightarrow> Inr (ls_provider segment, ls_acquired_at segment, ls_action_coverage segment,
              ls_start segment, ls_end segment, ls_content_hash segment)))"

text \<open>The loop over the row indices: a group ends where the provenance differs from its first row's.\<close>

function provenance_groups ::
    "(canonical_row \<times> provenance) list \<Rightarrow> (canonical_row list \<times> provenance) list" where
  "provenance_groups [] = []"
| "provenance_groups ((r, p) # rest) =
     (r # map fst (takeWhile (\<lambda>x. snd x = p) rest), p) # provenance_groups (dropWhile (\<lambda>x. snd x = p) rest)"
  by pat_completeness auto
termination by (relation "measure length") (auto simp: le_imp_less_Suc length_dropWhile_le)

definition lineage_segment_of :: "service \<Rightarrow> canonical_row list \<times> provenance \<Rightarrow> lineage_segment result" where
  "lineage_segment_of svc = (\<lambda>(rows, p, acquired_at, coverage, _).
     rbind (action_signature (sv_digest svc) rows) (\<lambda>sig.
       Inr \<lparr>ls_start = cr_timestamp (hd rows) div 86400000000, ls_end = cr_timestamp (last rows) div 86400000000,
            ls_provider = p, ls_acquired_at = acquired_at, ls_action_coverage = coverage,
            ls_content_hash = frame_hash svc rows, ls_action_signature = sig\<rparr>))"

definition rebuild_lineage ::
    "service \<Rightarrow> canonical_row list \<Rightarrow> cache_read \<Rightarrow> accepted_range list \<Rightarrow> datetime \<Rightarrow> lineage_segment list result" where
  "rebuild_lineage svc assembled cache accepted now =
     (let default_time = (case cd_completed_at cache of Some t \<Rightarrow> t | None \<Rightarrow> now) in
      rbind (map_result (row_provenance svc (cd_lineage cache) (refreshed_rows accepted) default_time) assembled)
        (\<lambda>provenance. map_result (lineage_segment_of svc) (provenance_groups (zip assembled provenance))))"

definition accepted_warnings :: "accepted_range list \<Rightarrow> quality_result \<Rightarrow> bool" where
  "accepted_warnings accepted final \<longleftrightarrow> qr_severity final = WARNING \<or> list_ex rg_has_warnings accepted"

section \<open>What is planned\<close>

lemma set_index_union [simp]: "set (index_union a b) = set a \<union> set b"
  by (auto simp: index_union_def)

lemma set_index_intersection [simp]: "set (index_intersection a b) = set a \<inter> set b"
  by (auto simp: index_intersection_def)

lemma run_end:
  assumes "k < length xs" and "xs ! k \<in> M"
  shows "\<exists>j. k \<le> j \<and> j < length xs \<and> (\<forall>m. k \<le> m \<and> m \<le> j \<longrightarrow> xs ! m \<in> M) \<and>
    (Suc j = length xs \<or> xs ! Suc j \<notin> M)"
  using assms
proof (induction "length xs - k" arbitrary: k)
  case (Suc n k)
  show ?case
  proof (cases "Suc k = length xs \<or> xs ! Suc k \<notin> M")
    case True
    with Suc.prems show ?thesis by (intro exI [of _ k]) (auto simp: le_antisym)
  next
    case False
    then have "Suc k < length xs" "xs ! Suc k \<in> M" using Suc.prems by auto
    moreover have "n = length xs - Suc k" using Suc.hyps(2) by simp
    ultimately obtain j where j: "Suc k \<le> j" "j < length xs" "\<forall>m. Suc k \<le> m \<and> m \<le> j \<longrightarrow> xs ! m \<in> M"
        "Suc j = length xs \<or> xs ! Suc j \<notin> M"
      using Suc.hyps(1) by blast
    then have "xs ! m \<in> M" if "k \<le> m \<and> m \<le> j" for m
      using that Suc.prems(2) by (cases "m = k") auto
    with j show ?thesis by (intro exI [of _ j]) auto
  qed
qed simp

lemma run_containing:
  assumes "k < length xs" and "xs ! k \<in> M"
  shows "\<exists>i j. missing_run M xs i j \<and> i \<le> k \<and> k \<le> j"
proof -
  have "last (take (Suc k) xs) = xs ! k" using assms(1) by (simp add: take_Suc_conv_app_nth)
  then obtain i where i: "open_run M (take (Suc k) xs) i"
    using open_run_exists [of "take (Suc k) xs" M] assms by fastforce
  obtain j where j: "k \<le> j" "j < length xs" "\<forall>m. k \<le> m \<and> m \<le> j \<longrightarrow> xs ! m \<in> M"
      "Suc j = length xs \<or> xs ! Suc j \<notin> M" using run_end [OF assms] by blast
  have "xs ! m \<in> M" if "i \<le> m \<and> m \<le> j" for m
    using that i j(3) assms(1) by (cases "m \<le> k") (auto simp: open_run_def)
  moreover have "i \<le> k" "i = 0 \<or> xs ! (i - 1) \<notin> M" using i assms(1) by (auto simp: open_run_def)
  ultimately have "missing_run M xs i j" using j by (auto simp: missing_run_def)
  with \<open>i \<le> k\<close> j(1) show ?thesis by blast
qed

text \<open>A sorted calendar: the sessions inside the reported ranges are exactly the needed ones.\<close>

lemma ranges_cover:
  assumes "sorted_wrt (<) expected" and norm: "\<And>t. t \<in> set expected \<union> set needed \<Longrightarrow> normalize_ts t = t"
    and "s \<in> set expected"
  shows "(\<exists>(a, b) \<in> set (group_contiguous_sessions expected needed). a \<le> s \<and> s \<le> b) \<longleftrightarrow> s \<in> set needed"
proof -
  have e: "map normalize_ts expected = expected" by (rule map_idI) (simp add: norm)
  have m: "normalize_ts ` set needed = set needed" using norm by force
  have groups: "set (group_contiguous_sessions expected needed) =
      {(expected ! i, expected ! j) | i j. missing_run (set needed) expected i j}"
    using group_runs [of expected needed] by (simp only: e m)
  obtain k where k: "k < length expected" "s = expected ! k" using assms(3) by (auto simp: in_set_conv_nth)
  have mono: "expected ! i \<le> expected ! j \<longleftrightarrow> i \<le> j" if "i < length expected" "j < length expected" for i j
  proof (cases i j rule: linorder_cases)
    case less
    then show ?thesis using sorted_wrt_nth_less [OF assms(1) less that(2)] by simp
  next
    case greater
    then show ?thesis using sorted_wrt_nth_less [OF assms(1) greater that(1)] by simp
  qed simp
  show ?thesis
  proof
    assume "\<exists>(a, b) \<in> set (group_contiguous_sessions expected needed). a \<le> s \<and> s \<le> b"
    then obtain i j where "missing_run (set needed) expected i j" "expected ! i \<le> s" "s \<le> expected ! j"
      unfolding groups by auto
    with k mono [of i k] mono [of k j] show "s \<in> set needed" by (auto simp: missing_run_def)
  next
    assume "s \<in> set needed"
    then obtain i j where r: "missing_run (set needed) expected i j" "i \<le> k" "k \<le> j"
      using run_containing [of k expected "set needed"] k by auto
    then have "expected ! i \<le> s" "s \<le> expected ! j"
      using k mono [of i k] mono [of k j] by (auto simp: missing_run_def)
    with r(1) show "\<exists>(a, b) \<in> set (group_contiguous_sessions expected needed). a \<le> s \<and> s \<le> b"
      unfolding groups by blast
  qed
qed

lemma groups_Nil:
  assumes "\<And>t. t \<in> set expected \<union> set needed \<Longrightarrow> normalize_ts t = t" and "set needed \<subseteq> set expected"
  shows "group_contiguous_sessions expected needed = [] \<longleftrightarrow> needed = []"
proof -
  have e: "map normalize_ts expected = expected" by (rule map_idI) (simp add: assms(1))
  have m: "normalize_ts ` set needed = set needed" using assms(1) by force
  have groups: "set (group_contiguous_sessions expected needed) =
      {(expected ! i, expected ! j) | i j. missing_run (set needed) expected i j}"
    using group_runs [of expected needed] by (simp only: e m)
  show ?thesis
  proof
    assume nil: "group_contiguous_sessions expected needed = []"
    show "needed = []"
    proof (rule ccontr)
      assume "needed \<noteq> []"
      then have "hd needed \<in> set expected" using assms(2) by auto
      then obtain k where "k < length expected" "expected ! k = hd needed" by (auto simp: in_set_conv_nth)
      with run_containing [of k expected "set needed"] \<open>needed \<noteq> []\<close> obtain i j where
        "missing_run (set needed) expected i j" by auto
      with groups nil show False by auto
    qed
  next
    assume "needed = []"
    then have "set (group_contiguous_sessions expected needed) = {}"
      unfolding groups by (auto simp: missing_run_def)
    then show "group_contiguous_sessions expected needed = []" by simp
  qed
qed

section \<open>Staleness\<close>

definition segment_covers :: "lineage_segment \<Rightarrow> datetime \<Rightarrow> bool" where
  "segment_covers g t \<longleftrightarrow> ls_start g * 86400000000 \<le> t \<and> t \<le> ls_end g * 86400000000"

definition segment_ttl :: "service \<Rightarrow> datetime list \<Rightarrow> datetime \<Rightarrow> int" where
  "segment_ttl svc window t =
     (if t \<in> set window then fp_recent_ttl (sv_freshness svc) else fp_historical_ttl (sv_freshness svc))"

lemma stale_step_sets:
  "set (fst (stale_step svc expected window now g (stale, covered))) = set stale \<union>
     {t \<in> set expected. segment_covers g t \<and> segment_ttl svc window t < now - ls_acquired_at g}"
  "set (snd (stale_step svc expected window now g (stale, covered))) = set covered \<union>
     {t \<in> set expected. segment_covers g t}"
proof -
  have rel: "set (segment_sessions expected g) = {t \<in> set expected. segment_covers g t}"
    by (auto simp: segment_sessions_def segment_covers_def)
  have ne: "xs = [] \<longleftrightarrow> set xs = {}" for xs :: "datetime list" by simp
  show "set (fst (stale_step svc expected window now g (stale, covered))) = set stale \<union>
     {t \<in> set expected. segment_covers g t \<and> segment_ttl svc window t < now - ls_acquired_at g}"
    unfolding stale_step_def Let_def ne [of "segment_sessions expected g"] prod.case
      ne [of "index_intersection _ _"] ne [of "index_difference _ _"] set_index_intersection index_difference_set rel
    by (auto simp: rel segment_ttl_def split: if_splits)
  show "set (snd (stale_step svc expected window now g (stale, covered))) = set covered \<union>
     {t \<in> set expected. segment_covers g t}"
    unfolding stale_step_def Let_def ne [of "segment_sessions expected g"] prod.case rel
    by (auto simp: rel)
qed

lemma stale_step_state:
  "set (fst (stale_step svc expected window now g st)) = set (fst st) \<union>
     {t \<in> set expected. segment_covers g t \<and> segment_ttl svc window t < now - ls_acquired_at g}"
  "set (snd (stale_step svc expected window now g st)) = set (snd st) \<union> {t \<in> set expected. segment_covers g t}"
  using stale_step_sets [of svc expected window now g "fst st" "snd st"] by simp_all

lemma stale_fold_sets:
  "set (fst (fold (stale_step svc expected window now) gs st)) = set (fst st) \<union>
     {t \<in> set expected. \<exists>g \<in> set gs. segment_covers g t \<and> segment_ttl svc window t < now - ls_acquired_at g}"
  "set (snd (fold (stale_step svc expected window now) gs st)) = set (snd st) \<union>
     {t \<in> set expected. \<exists>g \<in> set gs. segment_covers g t}"
  by (induction gs arbitrary: st) (auto simp: stale_step_state)

lemma stale_sessions_set:
  assumes "cache_frame cache \<noteq> []" and "cd_lineage cache \<noteq> []"
  shows "set (stale_sessions svc request expected cache now) = {t \<in> set expected.
    (\<exists>g \<in> set (cd_lineage cache). segment_covers g t \<and>
       segment_ttl svc (recent_window svc expected (latest_completed svc request now)) t < now - ls_acquired_at g) \<or>
    (t \<in> cr_timestamp ` set (cache_frame cache) \<and> (\<forall>g \<in> set (cd_lineage cache). \<not> segment_covers g t))}"
proof -
  let ?w = "recent_window svc expected (latest_completed svc request now)"
  obtain stale covered where f: "fold (stale_step svc expected ?w now) (cd_lineage cache) ([], []) = (stale, covered)"
    by fastforce
  note sets = stale_fold_sets [where svc = svc and expected = expected and window = ?w and now = now
      and gs = "cd_lineage cache" and st = "([], [])", unfolded f, simplified]
  show ?thesis
    using assms by (auto simp: stale_sessions_def f sets)
qed

section \<open>Properties of the plan\<close>

lemma stale_sessions_subset: "set (stale_sessions svc request expected cache now) \<subseteq> set expected"
proof (cases "cache_frame cache = [] \<or> cd_lineage cache = []")
  case True
  then show ?thesis by (auto simp: stale_sessions_def)
next
  case False
  then show ?thesis by (auto simp: stale_sessions_set)
qed

definition needs_fetch ::
    "service \<Rightarrow> acquisition_request \<Rightarrow> datetime list \<Rightarrow> cache_read \<Rightarrow> canonical_row list \<Rightarrow> datetime \<Rightarrow> datetime \<Rightarrow> bool" where
  "needs_fetch svc request expected cache requested_cached now s \<longleftrightarrow>
     \<not> ar_use_cache request \<or> cd_status cache = INVALIDATED \<or> ar_refresh request \<or>
     s \<notin> cr_timestamp ` set requested_cached \<or> s \<in> set (stale_sessions svc request expected cache now)"


definition demo_service :: service where
  "demo_service = \<lparr>sv_redact = (\<lambda>s. s), sv_digest = demo_digest, sv_frame_json = (\<lambda>_. ''[]''), sv_pd = demo_pd,
     sv_schedule = (\<lambda>a b. [(0, 72000000000), (86400000000, 158400000000), (172800000000, 244800000000)]),
     sv_retry = demo_executor, sv_factories = [YFINANCE, ALPHA_VANTAGE],
     sv_eligibility = (\<lambda>p _. (p = ALPHA_VANTAGE, None)), sv_fetch = (\<lambda>p r _. Inr (demo_batch\<lparr>pb_request := r\<rparr>)),
     sv_quality_policy = default_quality_policy, sv_freshness = default_freshness\<rparr>"

definition demo_cache :: cache_read where
  "demo_cache = \<lparr>cd_status = FULL_HIT, cd_frame = Some [demo_row 0], cd_lineage = [], cd_completed_at = None\<rparr>"


text \<open>A cached session is fetched again exactly if it is stale: some lineage segment that covers
  it is older than its time to live, the shorter one for the last sessions before the latest
  completed close, or no segment accounts for it.\<close>

theorem stale_iff_expired:
  assumes "cache_frame cache \<noteq> []" and "cd_lineage cache \<noteq> []" and "t \<in> set expected"
    and "t \<in> cr_timestamp ` set (cache_frame cache)"
  shows "t \<in> set (stale_sessions svc request expected cache now) \<longleftrightarrow>
    (\<forall>g \<in> set (cd_lineage cache). \<not> segment_covers g t) \<or>
    (\<exists>g \<in> set (cd_lineage cache). segment_covers g t \<and>
       (if t \<in> set (recent_window svc expected (latest_completed svc request now))
        then fp_recent_ttl (sv_freshness svc) else fp_historical_ttl (sv_freshness svc)) < now - ls_acquired_at g)"
  using assms by (auto simp: stale_sessions_set segment_ttl_def)

lemma stale_iff_expired_witness:
  "0 \<in> set (stale_sessions demo_service demo_request [0] (demo_cache\<lparr>cd_lineage :=
     [\<lparr>ls_start = 0, ls_end = 0, ls_provider = YFINANCE, ls_acquired_at = 0, ls_action_coverage = UNKNOWN,
       ls_content_hash = [], ls_action_signature = []\<rparr>]\<rparr>) 700000000000)"
proof -
  let ?g = "\<lparr>ls_start = 0, ls_end = 0, ls_provider = YFINANCE, ls_acquired_at = 0, ls_action_coverage = UNKNOWN,
       ls_content_hash = [], ls_action_signature = []\<rparr> :: lineage_segment"
  let ?c = "demo_cache\<lparr>cd_lineage := [?g]\<rparr>"
  have "cache_frame ?c \<noteq> []" "cd_lineage ?c \<noteq> []" "0 \<in> cr_timestamp ` set (cache_frame ?c)"
    by (simp_all add: cache_frame_def demo_cache_def demo_row_def)
  from stale_iff_expired [OF this(1,2) _ this(3), of "[0]" demo_service demo_request 700000000000]
  show ?thesis by (auto simp: segment_covers_def demo_service_def default_freshness_def)
qed

section \<open>Fetched ranges\<close>

lemma rfold_Inr_each: "rfold f xs s = Inr t \<Longrightarrow> x \<in> set xs \<Longrightarrow> \<exists>u v. f x u = Inr v"
  by (induction xs arbitrary: s) (auto simp: result_simps)

lemma normalize_Inr_rows:
  assumes "normalize_provider_batch redact pd batch = Inr n" and "schema_ok batch"
    and "k < length (pf_rows (pb_frame batch))"
  shows "\<exists>t. row_time pd batch k = Inr t"
proof -
  let ?rows = "pf_rows (pb_frame batch)"
  from assms(1,2) obtain native field_mapping s where run:
      "rfold (classify_row redact pd batch native field_mapping) (enumerate 0 ?rows)
        \<lparr>rl_rejections = [], rl_rows = [], rl_unclassifiable = 0, rl_out_of_range = 0\<rparr> = Inr s"
    by (auto simp: normalize_provider_batch_def schema_ok_def Let_def split: sum.splits)
  have mem: "(k, ?rows ! k) \<in> set (enumerate 0 ?rows)"
    using assms(3) by (metis add_0 length_enumerate nth_enumerate_eq nth_mem)
  obtain u v where "classify_row redact pd batch native field_mapping (k, ?rows ! k) u = Inr v"
    using rfold_Inr_each [OF run mem] by blast
  then show ?thesis by (cases "?rows ! k") (auto simp: classify_row_def row_time_def result_simps)
qed

text \<open>Whatever the parser does: a normalisation that returns is one the evaluation can rely on.\<close>

lemma normalize_Inr_ok:
  assumes "normalize_provider_batch redact pd batch = Inr n"
  shows "normalized_ok n" and "\<forall>r \<in> set (nr_candidate_frame n). cr_symbol r = ar_symbol (pb_request batch) \<and>
    cr_source r = provider_value (pb_provider batch)"
proof -
  have "normalized_ok n \<and> (\<forall>r \<in> set (nr_candidate_frame n). cr_symbol r = ar_symbol (pb_request batch) \<and>
    cr_source r = provider_value (pb_provider batch))"
  proof (cases "schema_ok batch")
    case True
    then show ?thesis
      using normalize_normalized_ok [OF normalize_Inr_rows [OF assms True], of redact] assms by auto
  next
    case False
    then show ?thesis using normalize_unusable [OF False, of redact pd] assms by (auto simp: normalized_ok_def)
  qed
  then show "normalized_ok n" and "\<forall>r \<in> set (nr_candidate_frame n). cr_symbol r = ar_symbol (pb_request batch) \<and>
    cr_source r = provider_value (pb_provider batch)" by blast+
qed

definition range_frame_ok :: "acquisition_request \<Rightarrow> provider \<Rightarrow> datetime list \<Rightarrow> canonical_row list \<Rightarrow> bool" where
  "range_frame_ok request p expected rows \<longleftrightarrow> rows \<noteq> [] \<and> sorted_wrt (<) (map cr_timestamp rows) \<and>
     (\<forall>r \<in> set rows. row_valid r \<and> float_row r \<and> cr_timestamp r \<in> normalize_ts ` set expected \<and>
        cr_symbol r = ar_symbol request \<and> cr_source r = provider_value p)"

lemma evaluate_batch_frame:
  assumes "evaluate_batch svc batch expected = Inr q" and "qr_frame q = Some rows"
  shows "range_frame_ok (pb_request batch) (pb_provider batch) expected rows"
proof -
  obtain n where n: "normalize_provider_batch (sv_redact svc) (sv_pd svc) batch = Inr n"
      "evaluate_range_candidate (sv_redact svc) (sv_digest svc) n expected = Inr q"
    using assms(1) by (auto simp: evaluate_batch_def split: sum.splits)
  note ok = normalize_Inr_ok [OF n(1)]
  have rows: "rows = accepted_rows n (map normalize_ts expected)" "rows \<noteq> []"
    using evaluate_range_result [OF ok(1), of "sv_redact svc" "sv_digest svc" expected] n(2) assms(2)
    by (auto simp: candidate_usable_def split: if_splits)
  have "sorted_wrt (<) (map cr_timestamp rows)"
    using retained_increasing [of "nr_candidate_frame n"] ok(1)
    by (simp add: rows(1) normalized_ok_def accepted_rows_def sorted_wrt_map sorted_wrt_filter)
  moreover have "row_valid r \<and> float_row r \<and> cr_timestamp r \<in> normalize_ts ` set expected \<and>
      cr_symbol r = ar_symbol (pb_request batch) \<and> cr_source r = provider_value (pb_provider batch)" if "r \<in> set rows" for r
  proof -
    from that obtain c where c: "r = canonical_row.truncate c" "c \<in> set (nr_candidate_frame n)"
        "acceptable (map normalize_ts expected) c"
      using retained_subset by (force simp: rows(1) accepted_rows_def)
    then show ?thesis using ok by (auto simp: normalized_ok_def acceptable_def)
  qed
  ultimately show ?thesis using rows(2) by (simp add: range_frame_ok_def)
qed

definition provider_usable :: "service \<Rightarrow> acquisition_request \<Rightarrow> provider \<Rightarrow> bool" where
  "provider_usable svc request p \<longleftrightarrow> p \<in> set (sv_factories svc) \<and> fst (sv_eligibility svc p request)"

lemma fetch_providers_sound:
  "fetch_providers svc source request expected ps errors ev w = (Inr a, ev', w') \<Longrightarrow>
    rg_provider a \<in> set ps \<and> provider_usable svc request (rg_provider a) \<and> rg_request a = request \<and>
    range_frame_ok request (rg_provider a) expected (rg_frame a)"
proof (induction ps arbitrary: errors ev w)
  case (Cons p ps)
  show ?case
  proof (cases "provider_usable svc request p")
    case False
    with Cons show ?thesis by (auto simp: provider_usable_def split: prod.splits if_splits)
  next
    case True
    then obtain reason where el: "p \<in> set (sv_factories svc)" "sv_eligibility svc p request = (True, reason)"
      by (cases "sv_eligibility svc p request") (auto simp: provider_usable_def)
    obtain out w1 where run: "run_provider svc p request w = (out, w1)" by fastforce
    show ?thesis
    proof (cases out)
      case (Inl e)
      with Cons el run show ?thesis by (fastforce split: if_splits)
    next
      case (Inr retried)
      let ?b = "rr_value retried"
      show ?thesis
      proof (cases "pb_provider ?b \<noteq> p \<or> pb_request ?b \<noteq> request")
        case True
        with Cons.prems el run Inr show ?thesis by simp
      next
        case id: False
        show ?thesis
        proof (cases "evaluate_batch svc ?b expected")
          case (Inl e)
          with Cons.prems el run Inr id show ?thesis by simp
        next
          case q: (Inr q)
          show ?thesis
          proof (cases "qr_severity q \<noteq> FATAL \<and> qr_frame q \<noteq> None")
            case True
            then obtain rows where rows: "qr_severity q \<noteq> FATAL" "qr_frame q = Some rows" by blast
            then have "a = \<lparr>rg_request = request, rg_frame = rows, rg_provider = p, rg_acquired_at = pb_received_at ?b,
                rg_action_coverage = pb_action_coverage ?b, rg_has_warnings = (qr_severity q = WARNING)\<rparr>"
              using Cons.prems el run Inr id q by (simp add: Let_def)
            then show ?thesis
              using evaluate_batch_frame [OF q rows(2)] id \<open>provider_usable svc request p\<close> by simp
          next
            case False
            then have "(qr_severity q = FATAL, qr_frame q) = (True, qr_frame q) \<or> qr_frame q = None" by auto
            with Cons.prems el run Inr id q have "\<exists>errors ev w. fetch_providers svc source request expected ps errors ev w = (Inr a, ev', w')"
              by (cases "qr_frame q"; cases "qr_severity q = FATAL") (auto simp: Let_def)
            with Cons.IH show ?thesis by fastforce
          qed
        qed
      qed
    qed
  qed
qed simp

text \<open>The evidence of one provider names that provider only.\<close>

lemma execute_loop_observed:
  "\<exists>new. rw_observed (snd (execute_loop redact x p ns atts w)) = rw_observed w @ new \<and>
     (\<forall>a \<in> set new. ae_provider a = p)"
proof (induction ns arbitrary: atts w)
  case Nil
  show ?case by simp
next
  case (Cons k ks)
  obtain t0 w0 where c0: "read_clock w = (t0, w0)" "rw_observed w0 = rw_observed w" by (simp add: read_clock_def)
  obtain out w1 where op: "call_operation w0 = (out, w1)" "rw_observed w1 = rw_observed w"
    using c0(2) by (simp add: call_operation_def)
  obtain t1 w2 where c1: "read_clock w1 = (t1, w2)" "rw_observed w2 = rw_observed w"
    using op(2) by (simp add: read_clock_def)
  have obs: "rw_observed (snd (observe a v)) = rw_observed v @ [a]" for a and v :: "'a retry_world"
    by (simp add: observe_def)
  have prov: "ae_provider (attempt_post_init redact a) = ae_provider a" for a by (simp add: attempt_post_init_def)
  show ?case
  proof (cases "\<exists>e. out = Inl e \<and> \<not> (classify e \<noteq> RETRYABLE \<or> k = rp_max_attempts (rx_policy x))")
    case False
    then show ?thesis
      using c0 op c1 by (cases out) (auto simp: Let_def observe_def prov)
  next
    case True
    then obtain e where e: "out = Inl e" "classify e = RETRYABLE" "k \<noteq> rp_max_attempts (rx_policy x)" by blast
    obtain d w3 where d: "delay_seconds x k e w2 = (d, w3)" "rw_observed w3 = rw_observed w"
      using delay_world [of x k e w2] c1(2) by (cases "delay_seconds x k e w2") auto
    let ?a = "attempt_post_init redact \<lparr>ae_provider = p, ae_attempt_number = k, ae_started_at = t0,
        ae_duration_seconds = duration_since t1 t0, ae_outcome = ''retry'', ae_retry_delay_seconds = Some d,
        ae_error_type = Some (class_name (exn_class e)), ae_error_message = Some (exn_message e)\<rparr>"
    obtain r w4 where o: "observe ?a w3 = (r, w4)" "rw_observed w4 = rw_observed w @ [?a]"
      using d(2) by (simp add: observe_def)
    show ?thesis
    proof (cases r)
      case None
      obtain new where "rw_observed (snd (execute_loop redact x p ks (atts @ [?a]) (sleep d w4)))
          = rw_observed (sleep d w4) @ new" "\<forall>a \<in> set new. ae_provider a = p"
        using Cons.IH by blast
      with o None show ?thesis
        using c0 op c1 e d by (simp add: Let_def sleep_def prov)
    next
      case (Some f)
      with o show ?thesis using c0 op c1 e d by (simp add: Let_def prov)
    qed
  qed
qed

lemma run_provider_observed:
  "\<exists>new. rw_observed (snd (run_provider svc p request w)) = rw_observed w @ new \<and> (\<forall>a \<in> set new. ae_provider a = p)"
  using execute_loop_observed [of "sv_redact svc" "sv_retry svc" p _ "[]"
      "w\<lparr>rw_operation := sv_fetch svc p request, rw_observer := \<lambda>_. None\<rparr>"]
  by (simp add: run_provider_def execute_observed_def)

definition contacted_only :: "service \<Rightarrow> acquisition_request \<Rightarrow> provider list \<Rightarrow> world \<Rightarrow> world \<Rightarrow> bool" where
  "contacted_only svc request ps w w' \<longleftrightarrow> (\<exists>new. rw_observed w' = rw_observed w @ new \<and>
     (\<forall>a \<in> set new. ae_provider a \<in> set ps \<and> provider_usable svc request (ae_provider a)))"

lemma contacted_only_refl [simp]: "contacted_only svc request ps w w"
  by (simp add: contacted_only_def)

lemma contacted_only_step:
  assumes "rw_observed w1 = rw_observed w @ new" and "\<forall>a \<in> set new. ae_provider a = p"
    and "provider_usable svc request p" and "contacted_only svc request ps w1 w'"
  shows "contacted_only svc request (p # ps) w w'"
  using assms unfolding contacted_only_def by (metis (no_types, lifting) Un_iff append.assoc list.set_intros set_append)

lemma contacted_only_skip: "contacted_only svc request ps w w' \<Longrightarrow> contacted_only svc request (p # ps) w w'"
  by (auto simp: contacted_only_def)

lemma fetch_providers_contacts:
  "contacted_only svc request ps w (snd (snd (fetch_providers svc source request expected ps errors ev w)))"
proof (induction ps arbitrary: errors ev w)
  case (Cons p ps)
  show ?case
  proof (cases "provider_usable svc request p")
    case False
    then show ?thesis
      using Cons.IH by (auto simp: provider_usable_def split: prod.splits intro!: contacted_only_skip)
  next
    case True
    then obtain reason where el: "p \<in> set (sv_factories svc)" "sv_eligibility svc p request = (True, reason)"
      by (cases "sv_eligibility svc p request") (auto simp: provider_usable_def)
    obtain out w1 where run: "run_provider svc p request w = (out, w1)" by fastforce
    obtain new where new: "rw_observed w1 = rw_observed w @ new" "\<forall>a \<in> set new. ae_provider a = p"
      using run_provider_observed [of svc p request w] run by auto
    note step = contacted_only_step [OF new True]
    have stop: "contacted_only svc request (p # ps) w w1" by (rule step) simp
    have go: "contacted_only svc request (p # ps) w
        (snd (snd (fetch_providers svc source request expected ps errors' ev' w1)))" for errors' ev'
      by (rule step [OF Cons.IH])
    show ?thesis
    proof (cases out)
      case (Inl e)
      with el run stop go show ?thesis by simp
    next
      case (Inr retried)
      with el run stop go show ?thesis
        by (auto simp: Let_def split: sum.splits option.splits bool.splits)
    qed
  qed
qed simp

text \<open>Fetching a range. Whatever happens, only configured and eligible providers of the caller's
  preference are contacted: with an explicit source no other provider is. If a range is
  accepted, it comes from such a provider, answers the range's own request, and its rows are
  valid, of that symbol and provider, on expected sessions, in strictly increasing order.\<close>

theorem fetched_range_valid:
  assumes "range_request parent start end_ts = Inr request"
    and "expected_sessions (sv_schedule svc) (DayDate (ar_start request)) (DayDate (ar_end request)) = Inr expected"
    and "fetch_range svc parent start end_ts ev w = (out, ev', w')"
  shows "contacted_only svc request (provider_order (ar_source parent)) w w' \<and>
    (\<forall>a. out = Inr a \<longrightarrow> rg_provider a \<in> set (provider_order (ar_source parent)) \<and>
       provider_usable svc request (rg_provider a) \<and> rg_request a = request \<and>
       range_frame_ok request (rg_provider a) expected (rg_frame a))"
proof -
  have run: "fetch_providers svc (ar_source parent) request expected (provider_order (ar_source parent)) [] ev w = (out, ev', w')"
    using assms by (simp add: fetch_range_def)
  show ?thesis
    using fetch_providers_contacts [of svc request "provider_order (ar_source parent)" w "ar_source parent" expected "[]" ev]
      fetch_providers_sound [of svc "ar_source parent" request expected "provider_order (ar_source parent)" "[]" ev w]
    by (simp add: run)
qed

definition demo_parent :: acquisition_request where
  "demo_parent = demo_request\<lparr>ar_source := AUTO\<rparr>"

definition demo_range_service :: service where
  "demo_range_service = demo_service\<lparr>sv_schedule :=
     (\<lambda>a b. [(1641772800000000, 1641844800000000), (1641859200000000, 1641931200000000)])\<rparr>"

definition demo_fetch_world :: world where
  "demo_fetch_world = \<lparr>rw_clock = (\<lambda>n. int n), rw_clock_reads = 0, rw_operation = (\<lambda>_. Inl demo_transient),
     rw_calls = 0, rw_random = (\<lambda>_. 0), rw_draws = 0, rw_observer = (\<lambda>_. None), rw_observed = [], rw_sleeps = []\<rparr>"

definition demo_evidence :: evidence where
  "demo_evidence = \<lparr>ev_findings = [], ev_rejected_rows = [], ev_provider_skips = []\<rparr>"

lemma fetched_range_valid_witness:
  "\<exists>a ev' w'. fetch_range demo_range_service demo_parent 1641600000000000 1642204800000000 demo_evidence demo_fetch_world
      = (Inr a, ev', w') \<and> rg_provider a = ALPHA_VANTAGE \<and> sorted_wrt (<) (map cr_timestamp (rg_frame a))"
proof -
  have "(case fetch_range demo_range_service demo_parent 1641600000000000 1642204800000000 demo_evidence demo_fetch_world of
      (Inr a, ev', w') \<Rightarrow> rg_provider a = ALPHA_VANTAGE | _ \<Rightarrow> False)" by code_simp
  then obtain a ev' w' where run: "fetch_range demo_range_service demo_parent 1641600000000000 1642204800000000 demo_evidence demo_fetch_world
      = (Inr a, ev', w')" "rg_provider a = ALPHA_VANTAGE"
    by (auto split: prod.splits sum.splits)
  obtain request where req: "range_request demo_parent 1641600000000000 1642204800000000 = Inr request" "ar_start request \<le> ar_end request"
  proof -
    have "(case range_request demo_parent 1641600000000000 1642204800000000 of Inr r \<Rightarrow> ar_start r \<le> ar_end r | _ \<Rightarrow> False)"
      by code_simp
    then show ?thesis using that by (auto split: sum.splits)
  qed
  obtain expected where ex: "expected_sessions (sv_schedule demo_range_service) (DayDate (ar_start request))
      (DayDate (ar_end request)) = Inr expected" using req(2) by (simp add: expected_sessions_def)
  from fetched_range_valid [OF req(1) ex run(1)] run show ?thesis by (auto simp: range_frame_ok_def)
qed

section \<open>Merging\<close>

lemma keep_last_timestamps: "cr_timestamp ` set (keep_last rs) = cr_timestamp ` set rs"
  by (induction rs) auto

lemma keep_last_distinct: "distinct (map cr_timestamp (keep_last rs))"
proof (induction rs)
  case (Cons r rs)
  then show ?case using keep_last_timestamps [of rs] by auto
qed simp

lemma keep_last_subset: "set (keep_last rs) \<subseteq> set rs"
  by (induction rs) auto

lemma keep_last_append:
  "r \<in> set (keep_last (xs @ ys)) \<longleftrightarrow>
     r \<in> set (keep_last ys) \<or> (r \<in> set (keep_last xs) \<and> cr_timestamp r \<notin> cr_timestamp ` set ys)"
proof (induction xs)
  case Nil
  show ?case by simp
next
  case (Cons x xs)
  have "cr_timestamp ` set (xs @ ys) = cr_timestamp ` set xs \<union> cr_timestamp ` set ys" by auto
  with Cons keep_last_subset [of ys] show ?case by auto
qed

text \<open>A row of the concatenated ranges comes from the last range that has its timestamp.\<close>

lemma keep_last_ranges:
  "r \<in> set (keep_last (concat fs)) \<Longrightarrow>
     \<exists>k < length fs. r \<in> set (fs ! k) \<and> (\<forall>m. k < m \<and> m < length fs \<longrightarrow> cr_timestamp r \<notin> cr_timestamp ` set (fs ! m))"
proof (induction fs)
  case (Cons f fs)
  from Cons.prems have "r \<in> set (keep_last (concat fs)) \<or>
      (r \<in> set (keep_last f) \<and> cr_timestamp r \<notin> cr_timestamp ` set (concat fs))"
    by (simp add: keep_last_append)
  then show ?case
  proof
    assume "r \<in> set (keep_last (concat fs))"
    then obtain k where "k < length fs" "r \<in> set (fs ! k)"
        "\<forall>m. k < m \<and> m < length fs \<longrightarrow> cr_timestamp r \<notin> cr_timestamp ` set (fs ! m)"
      using Cons.IH by blast
    then show ?thesis by (intro exI [of _ "Suc k"]) (auto simp: nth_Cons split: nat.split)
  next
    assume r: "r \<in> set (keep_last f) \<and> cr_timestamp r \<notin> cr_timestamp ` set (concat fs)"
    have "cr_timestamp r \<notin> cr_timestamp ` set (fs ! m)" if "m < length fs" for m
    proof -
      have "set (fs ! m) \<subseteq> set (concat fs)" using nth_mem [OF that] by auto
      with r show ?thesis by blast
    qed
    with r keep_last_subset [of f] show ?thesis
      by (intro exI [of _ 0]) (auto simp: nth_Cons split: nat.split)
  qed
qed simp

text \<open>Merging fetched ranges into the cached frame gives one row per timestamp of either, in
  strictly increasing order; where a fetched range has the timestamp, the row is that of the
  last such range, and elsewhere it is the cached one.\<close>

theorem merge_prefers_fetched:
  "sorted_wrt (<) (map cr_timestamp (merge_ranges cached accepted)) \<and>
   cr_timestamp ` set (merge_ranges cached accepted)
     = cr_timestamp ` set cached \<union> (\<Union>a \<in> set accepted. cr_timestamp ` set (rg_frame a)) \<and>
   (\<forall>r \<in> set (merge_ranges cached accepted).
      (\<exists>k < length accepted. r \<in> set (rg_frame (accepted ! k)) \<and>
         (\<forall>m. k < m \<and> m < length accepted \<longrightarrow> cr_timestamp r \<notin> cr_timestamp ` set (rg_frame (accepted ! m)))) \<or>
      (r \<in> set cached \<and> (\<forall>a \<in> set accepted. cr_timestamp r \<notin> cr_timestamp ` set (rg_frame a))))"
proof (intro conjI)
  let ?rows = "keep_last (cached @ concat (map rg_frame accepted))"
  show "sorted_wrt (<) (map cr_timestamp (merge_ranges cached accepted))"
    using sort_key_strict [OF keep_last_distinct, of "cached @ concat (map rg_frame accepted)"]
    by (simp add: merge_ranges_def sorted_wrt_map)
  show "cr_timestamp ` set (merge_ranges cached accepted)
     = cr_timestamp ` set cached \<union> (\<Union>a \<in> set accepted. cr_timestamp ` set (rg_frame a))"
    by (auto simp: merge_ranges_def keep_last_timestamps image_Un)
  show "\<forall>r \<in> set (merge_ranges cached accepted).
      (\<exists>k < length accepted. r \<in> set (rg_frame (accepted ! k)) \<and>
         (\<forall>m. k < m \<and> m < length accepted \<longrightarrow> cr_timestamp r \<notin> cr_timestamp ` set (rg_frame (accepted ! m)))) \<or>
      (r \<in> set cached \<and> (\<forall>a \<in> set accepted. cr_timestamp r \<notin> cr_timestamp ` set (rg_frame a)))"
  proof
    fix r assume "r \<in> set (merge_ranges cached accepted)"
    then have "r \<in> set ?rows" by (simp add: merge_ranges_def)
    then consider "r \<in> set (keep_last (concat (map rg_frame accepted)))"
      | "r \<in> set (keep_last cached)" "cr_timestamp r \<notin> cr_timestamp ` set (concat (map rg_frame accepted))"
      by (auto simp: keep_last_append)
    then show "(\<exists>k < length accepted. r \<in> set (rg_frame (accepted ! k)) \<and>
         (\<forall>m. k < m \<and> m < length accepted \<longrightarrow> cr_timestamp r \<notin> cr_timestamp ` set (rg_frame (accepted ! m)))) \<or>
      (r \<in> set cached \<and> (\<forall>a \<in> set accepted. cr_timestamp r \<notin> cr_timestamp ` set (rg_frame a)))"
    proof cases
      case 1
      from keep_last_ranges [OF this] show ?thesis by auto
    next
      case 2
      then show ?thesis using keep_last_subset [of cached] by auto
    qed
  qed
qed

lemma merge_prefers_fetched_witness:
  "map cr_timestamp (merge_ranges [demo_row 5, demo_row 1] [\<lparr>rg_request = demo_request, rg_frame = [(demo_row 5)\<lparr>cr_source := ''x''\<rparr>],
     rg_provider = YFINANCE, rg_acquired_at = 0, rg_action_coverage = UNKNOWN, rg_has_warnings = False\<rparr>]) = [1, 5] \<and>
   sorted_wrt (<) (map cr_timestamp (merge_ranges [demo_row 5, demo_row 1] []))"
  using merge_prefers_fetched [of "[demo_row 5, demo_row 1]" "[]"]
  by (simp add: merge_ranges_def demo_row_def)

section \<open>Lineage\<close>

lemma provenance_groups_concat: "concat (map fst (provenance_groups xs)) = map fst xs"
proof (induction xs rule: provenance_groups.induct)
  case (2 r p rest)
  have "map fst (takeWhile (\<lambda>x. snd x = p) rest) @ map fst (dropWhile (\<lambda>x. snd x = p) rest) = map fst rest"
    by (metis map_append takeWhile_dropWhile_id)
  with 2 show ?case by simp
qed simp

lemma provenance_groups_uniform:
  "(rows, p) \<in> set (provenance_groups xs) \<Longrightarrow> rows \<noteq> [] \<and> (\<forall>r \<in> set rows. (r, p) \<in> set xs)"
proof (induction xs rule: provenance_groups.induct)
  case (2 r q rest)
  show ?case
  proof (cases "(rows, p) = (r # map fst (takeWhile (\<lambda>x. snd x = q) rest), q)")
    case True
    then show ?thesis by (auto dest: set_takeWhileD)
  next
    case False
    with 2 show ?thesis by (auto dest: set_dropWhileD)
  qed
qed simp

lemma map_result_Inr: "map_result f xs = Inr ys \<longleftrightarrow> list_all2 (\<lambda>x y. f x = Inr y) xs ys"
proof (induction xs arbitrary: ys)
  case Nil
  show ?case by auto
next
  case (Cons x xs)
  then show ?case by (auto simp: result_simps list_all2_Cons1)
qed

text \<open>What consecutive rows of equal provenance give: a partition of the frame, in which every row
  has the provenance of its segment.\<close>

definition segment_of_rows :: "service \<Rightarrow> canonical_row list \<Rightarrow> lineage_segment \<Rightarrow> bool" where
  "segment_of_rows svc rows g \<longleftrightarrow> rows \<noteq> [] \<and>
     ls_start g = cr_timestamp (hd rows) div 86400000000 \<and> ls_end g = cr_timestamp (last rows) div 86400000000 \<and>
     ls_content_hash g = frame_hash svc rows \<and> action_signature (sv_digest svc) rows = Inr (ls_action_signature g)"

lemma segments_partition:
  assumes ps: "list_all2 (\<lambda>r y. f r = Inr y) assembled ps"
    and segs: "list_all2 (\<lambda>x g. lineage_segment_of svc x = Inr g) (provenance_groups (zip assembled ps)) segments"
  shows "\<exists>parts. concat parts = assembled \<and> list_all2 (\<lambda>rows g. segment_of_rows svc rows g \<and>
      (\<forall>r \<in> set rows. \<exists>rest. f r = Inr (ls_provider g, ls_acquired_at g, ls_action_coverage g, rest))) parts segments"
proof -
  let ?gs = "provenance_groups (zip assembled ps)"
  have "concat (map fst ?gs) = assembled"
    using list_all2_lengthD [OF ps] by (simp add: provenance_groups_concat)
  moreover have "list_all2 (\<lambda>rows g. segment_of_rows svc rows g \<and>
      (\<forall>r \<in> set rows. \<exists>rest. f r = Inr (ls_provider g, ls_acquired_at g, ls_action_coverage g, rest))) (map fst ?gs) segments"
    unfolding list_all2_map1
  proof (rule list.rel_mono_strong [OF segs])
    fix x g assume x: "x \<in> set ?gs" and g: "lineage_segment_of svc x = Inr g"
    obtain rows p acquired_at coverage rest where xe: "x = (rows, p, acquired_at, coverage, rest)" by (cases x) auto
    note uniform = provenance_groups_uniform [OF x [unfolded xe]]
    have "f r = Inr (p, acquired_at, coverage, rest)" if "r \<in> set rows" for r
    proof -
      from uniform that have "(r, p, acquired_at, coverage, rest) \<in> set (zip assembled ps)" by blast
      with ps show ?thesis by (auto simp: list_all2_iff)
    qed
    with uniform g show "segment_of_rows svc (fst x) g \<and>
      (\<forall>r \<in> set (fst x). \<exists>rest. f r = Inr (ls_provider g, ls_acquired_at g, ls_action_coverage g, rest))"
      by (cases rest) (auto simp: lineage_segment_of_def segment_of_rows_def xe result_simps)
  qed
  ultimately show ?thesis by blast
qed

text \<open>The rebuilt lineage partitions the assembled frame: its segments are, in order, non-empty
  consecutive groups of rows that together are the frame, each with the dates of its first and
  last row and the digests of its rows. Every row of a fetched range is in a segment with that
  range's provider, time of acquisition and action coverage.\<close>

theorem lineage_partitions_frame:
  assumes "rebuild_lineage svc assembled cache accepted now = Inr segments"
  shows "\<exists>parts. concat parts = assembled \<and> list_all2 (\<lambda>rows g. segment_of_rows svc rows g \<and>
      (\<forall>r \<in> set rows. \<forall>a. dict_get (refreshed_rows accepted) (cr_timestamp r) = Some a \<longrightarrow>
         ls_provider g = rg_provider a \<and> ls_acquired_at g = rg_acquired_at a \<and>
         ls_action_coverage g = rg_action_coverage a)) parts segments"
proof -
  define default_time where "default_time = (case cd_completed_at cache of Some t \<Rightarrow> t | None \<Rightarrow> now)"
  let ?prov = "row_provenance svc (cd_lineage cache) (refreshed_rows accepted) default_time"
  from assms obtain ps where ps: "list_all2 (\<lambda>r y. ?prov r = Inr y) assembled ps"
      and segs: "list_all2 (\<lambda>x g. lineage_segment_of svc x = Inr g) (provenance_groups (zip assembled ps)) segments"
    by (auto simp: rebuild_lineage_def Let_def default_time_def [symmetric] result_simps map_result_Inr)
  have prov: "ls_provider g = rg_provider a \<and> ls_acquired_at g = rg_acquired_at a \<and> ls_action_coverage g = rg_action_coverage a"
    if "?prov r = Inr (ls_provider g, ls_acquired_at g, ls_action_coverage g, rest)"
      "dict_get (refreshed_rows accepted) (cr_timestamp r) = Some a" for r g a rest
    using that by (simp add: row_provenance_def Let_def)
  from segments_partition [OF ps segs] obtain parts where "concat parts = assembled"
      and parts: "list_all2 (\<lambda>rows g. segment_of_rows svc rows g \<and>
        (\<forall>r \<in> set rows. \<exists>rest. ?prov r = Inr (ls_provider g, ls_acquired_at g, ls_action_coverage g, rest))) parts segments"
    by blast
  moreover from parts have "list_all2 (\<lambda>rows g. segment_of_rows svc rows g \<and>
      (\<forall>r \<in> set rows. \<forall>a. dict_get (refreshed_rows accepted) (cr_timestamp r) = Some a \<longrightarrow>
         ls_provider g = rg_provider a \<and> ls_acquired_at g = rg_acquired_at a \<and>
         ls_action_coverage g = rg_action_coverage a)) parts segments"
    by (rule list_all2_mono) (use prov in blast)
  ultimately show ?thesis by blast
qed

lemma lineage_partitions_frame_witness:
  "\<exists>segments parts. rebuild_lineage demo_service [demo_row 0, demo_row 86400000000] demo_cache [] 7 = Inr segments \<and>
     concat parts = [demo_row 0, demo_row 86400000000] \<and> length parts = length segments"
proof -
  have "case rebuild_lineage demo_service [demo_row 0, demo_row 86400000000] demo_cache [] 7 of Inr _ \<Rightarrow> True | _ \<Rightarrow> False"
    by code_simp
  then obtain segments where run: "rebuild_lineage demo_service [demo_row 0, demo_row 86400000000] demo_cache [] 7 = Inr segments"
    by (auto split: sum.splits)
  from lineage_partitions_frame [OF run] run show ?thesis by (auto dest: list_all2_lengthD)
qed

end
