(* ===== verification/Candle_Frames.thy ===== *)
theory Candle_Frames
  imports Market_Models Quality
begin

text \<open>
  From validated frames to candles, \<open>df_to_candles\<close> of \<open>src/data/__init__.py\<close>. A frame is its column
  labels, whether its index is a \<open>DatetimeIndex\<close>, and its rows, each with an index value and one
  value per column. \<open>pd.Timestamp\<close> is a parameter: the reading with the presence of a zone, NaT
  or an exception. The candle keeps the wall-clock reading.
\<close>

section \<open>Conversion\<close>

datatype frame_value = FTime datetime | FCell cell

record data_frame =
  df_columns :: "string list"
  df_datetime_index :: bool
  df_rows :: "(frame_value \<times> frame_value list) list"

type_synonym timestamp_api = "frame_value \<Rightarrow> pd_error + (datetime \<times> bool) option"

definition candle_columns :: "string list" where
  "candle_columns = [''open'', ''high'', ''low'', ''close'', ''volume'', ''adj_close'']"

text \<open>\<open>row[column]\<close>: with a repeated label it is a series, of which neither \<open>float\<close> nor
  \<open>pd.Timestamp\<close> can be taken.\<close>

definition row_value :: "string list \<Rightarrow> frame_value list \<Rightarrow> string \<Rightarrow> pd_error + frame_value" where
  "row_value columns cells column =
     (case filter (\<lambda>(label, v). label = column) (zip columns cells) of [(_, v)] \<Rightarrow> Inr v | _ \<Rightarrow> Inl PdTypeError)"

fun py_float :: "frame_value \<Rightarrow> pd_error + xfloat" where
  "py_float (FTime t) = Inl PdTypeError"
| "py_float (FCell CNone) = Inl PdTypeError"
| "py_float (FCell (CBool b)) = Inr (Fin (if b then 1 else 0))"
| "py_float (FCell (CNum x)) = Inr x"
| "py_float (FCell (CStr s)) = (case float_of_string s of Some x \<Rightarrow> Inr x | None \<Rightarrow> Inl PdValueError)"
| "py_float (FCell (CObject tag f)) = (case f of Some x \<Rightarrow> Inr x | None \<Rightarrow> Inl PdTypeError)"

definition row_timestamp :: "timestamp_api \<Rightarrow> data_frame \<Rightarrow> frame_value \<times> frame_value list \<Rightarrow> pd_error + datetime" where
  "row_timestamp pd frame = (\<lambda>(index_value, cells).
     rbind (if ''timestamp'' \<in> set (df_columns frame) then row_value (df_columns frame) cells ''timestamp''
            else Inr index_value) (\<lambda>v.
       rbind (pd v) (\<lambda>t. case t of None \<Rightarrow> Inl PdValueError | Some (reading, zoned) \<Rightarrow> Inr reading)))"

definition row_float :: "data_frame \<Rightarrow> frame_value list \<Rightarrow> string \<Rightarrow> pd_error + xfloat" where
  "row_float frame cells column = rbind (row_value (df_columns frame) cells column) py_float"

definition candle_of_values ::
    "datetime \<Rightarrow> xfloat \<Rightarrow> xfloat \<Rightarrow> xfloat \<Rightarrow> xfloat \<Rightarrow> xfloat \<Rightarrow> xfloat \<Rightarrow> pd_error + candle" where
  "candle_of_values timestamp op h l cl v ac =
     (if \<not> list_all isfinite [op, h, l, cl, v, ac] then Inl PdValueError
      else if list_ex (\<lambda>x. fin_val x \<le> 0) [op, h, l, cl, ac] then Inl PdValueError
      else if fin_val v < 0 then Inl PdValueError
      else (case candle_post_init \<lparr>c_timestamp = timestamp, c_open = fin_val op, c_high = fin_val h,
                c_low = fin_val l, c_close = fin_val cl, c_volume = fin_val v, c_adj_close = fin_val ac\<rparr> of
              Inl e \<Rightarrow> Inl PdValueError | Inr c \<Rightarrow> Inr c))"

definition candle_of_row :: "timestamp_api \<Rightarrow> data_frame \<Rightarrow> frame_value \<times> frame_value list \<Rightarrow> pd_error + candle" where
  "candle_of_row pd frame row =
     (let get = row_float frame (snd row) in
      rbind (row_timestamp pd frame row) (\<lambda>timestamp.
        rbind (get ''open'') (\<lambda>op. rbind (get ''high'') (\<lambda>h. rbind (get ''low'') (\<lambda>l.
          rbind (get ''close'') (\<lambda>cl. rbind (get ''volume'') (\<lambda>v. rbind (get ''adj_close'') (\<lambda>ac.
            candle_of_values timestamp op h l cl v ac))))))))"

text \<open>\<open>str\<close> of a natural number.\<close>

fun nat_str :: "nat \<Rightarrow> string" where
  "nat_str n = (if n < 10 then [] else nat_str (n div 10)) @ [char_of (48 + n mod 10)]"

declare nat_str.simps [simp del]

datatype conversion_error = Violation string | Uncaught string

definition violation_at :: "nat \<Rightarrow> pd_error \<Rightarrow> conversion_error" where
  "violation_at position e = (case e of PdOther name \<Rightarrow> Uncaught name
     | _ \<Rightarrow> Violation (''Candle conversion failed at row '' @ nat_str position))"

fun candle_rows :: "timestamp_api \<Rightarrow> data_frame \<Rightarrow> (nat \<times> frame_value \<times> frame_value list) list \<Rightarrow>
    conversion_error + candle list" where
  "candle_rows pd frame [] = Inr []"
| "candle_rows pd frame ((position, row) # rows) =
     (case candle_of_row pd frame row of
        Inl e \<Rightarrow> Inl (violation_at position e)
      | Inr c \<Rightarrow> rbind (candle_rows pd frame rows) (\<lambda>cs. Inr (c # cs)))"

definition df_to_candles :: "timestamp_api \<Rightarrow> data_frame \<Rightarrow> conversion_error + candle list" where
  "df_to_candles pd frame =
     (case filter (\<lambda>column. column \<notin> set (df_columns frame)) candle_columns of
        column # _ \<Rightarrow> Inl (Violation (''Candle frame is missing field '' @ [CHR 0x27] @ column @ [CHR 0x27]))
      | [] \<Rightarrow>
          if ''timestamp'' \<notin> set (df_columns frame) \<and> \<not> df_datetime_index frame
          then Inl (Violation (''Candle frame is missing field '' @ [CHR 0x27] @ ''timestamp'' @ [CHR 0x27]))
          else candle_rows pd frame (enumerate 0 (df_rows frame)))"

section \<open>Which frames convert\<close>

text \<open>The candle that a row stands for: its reading and its values are finite, positive and ordered.\<close>

definition row_is_candle :: "timestamp_api \<Rightarrow> data_frame \<Rightarrow> frame_value \<times> frame_value list \<Rightarrow> candle \<Rightarrow> bool" where
  "row_is_candle pd frame row c \<longleftrightarrow>
     row_timestamp pd frame row = Inr (c_timestamp c) \<and>
     row_float frame (snd row) ''open'' = Inr (Fin (c_open c)) \<and>
     row_float frame (snd row) ''high'' = Inr (Fin (c_high c)) \<and>
     row_float frame (snd row) ''low'' = Inr (Fin (c_low c)) \<and>
     row_float frame (snd row) ''close'' = Inr (Fin (c_close c)) \<and>
     row_float frame (snd row) ''volume'' = Inr (Fin (c_volume c)) \<and>
     row_float frame (snd row) ''adj_close'' = Inr (Fin (c_adj_close c)) \<and>
     candle_pos c \<and> 0 < c_adj_close c"

lemma candle_of_values_Inr:
  "candle_of_values t op h l cl v ac = Inr c \<longleftrightarrow>
     t = c_timestamp c \<and> op = Fin (c_open c) \<and> h = Fin (c_high c) \<and> l = Fin (c_low c) \<and> cl = Fin (c_close c) \<and>
     v = Fin (c_volume c) \<and> ac = Fin (c_adj_close c) \<and> candle_pos c \<and> 0 < c_adj_close c"
proof
  assume "candle_of_values t op h l cl v ac = Inr c"
  then show "t = c_timestamp c \<and> op = Fin (c_open c) \<and> h = Fin (c_high c) \<and> l = Fin (c_low c) \<and> cl = Fin (c_close c) \<and>
     v = Fin (c_volume c) \<and> ac = Fin (c_adj_close c) \<and> candle_pos c \<and> 0 < c_adj_close c"
    by (auto simp: candle_of_values_def isfinite_Ex candle_pos_def candle_post_init_iff split: if_splits sum.splits)
next
  assume c: "t = c_timestamp c \<and> op = Fin (c_open c) \<and> h = Fin (c_high c) \<and> l = Fin (c_low c) \<and> cl = Fin (c_close c) \<and>
     v = Fin (c_volume c) \<and> ac = Fin (c_adj_close c) \<and> candle_pos c \<and> 0 < c_adj_close c"
  then have "candle_post_init c = Inr c" "0 < c_open c" "0 < c_high c" "0 < c_low c" "0 < c_close c" "0 \<le> c_volume c"
    using candle_posD [of c] by (auto simp: candle_pos_def candle_post_init_iff candle_ok_def)
  with c show "candle_of_values t op h l cl v ac = Inr c"
    by (cases c) (simp add: candle_of_values_def)
qed

lemma candle_of_row_Inr: "candle_of_row pd frame row = Inr c \<longleftrightarrow> row_is_candle pd frame row c"
  by (auto simp: candle_of_row_def row_is_candle_def Let_def result_simps candle_of_values_Inr)

lemma candle_rows_Inr:
  "candle_rows pd frame rows = Inr cs \<longleftrightarrow> list_all2 (row_is_candle pd frame) (map snd rows) cs"
proof (induction rows arbitrary: cs)
  case (Cons a rows)
  obtain k row where "a = (k, row)" by (cases a)
  with Cons show ?case
    by (auto simp: list_all2_Cons1 result_simps candle_of_row_Inr [symmetric] split: sum.splits)
qed auto

lemma candle_rows_Inl:
  "candle_rows pd frame rows = Inl e \<Longrightarrow>
     \<exists>i < length rows. (\<exists>x. candle_of_row pd frame (snd (rows ! i)) = Inl x \<and> e = violation_at (fst (rows ! i)) x) \<and>
       (\<forall>j < i. \<exists>c. row_is_candle pd frame (snd (rows ! j)) c)"
proof (induction rows)
  case (Cons a rows)
  obtain k row where a: "a = (k, row)" by (cases a)
  show ?case
  proof (cases "candle_of_row pd frame row")
    case (Inl x)
    with Cons.prems a show ?thesis by (intro exI [of _ 0]) auto
  next
    case (Inr c)
    with Cons.prems a have "candle_rows pd frame rows = Inl e" by (auto simp: result_simps)
    from Cons.IH [OF this] obtain i where "i < length rows"
        "\<exists>x. candle_of_row pd frame (snd (rows ! i)) = Inl x \<and> e = violation_at (fst (rows ! i)) x"
        "\<forall>j < i. \<exists>c. row_is_candle pd frame (snd (rows ! j)) c" by blast
    with Inr a show ?thesis
      by (intro exI [of _ "Suc i"]) (auto simp: nth_Cons candle_of_row_Inr split: nat.split)
  qed
qed simp

text \<open>Which frames have the fields of a candle.\<close>

definition has_fields :: "data_frame \<Rightarrow> bool" where
  "has_fields frame \<longleftrightarrow> set candle_columns \<subseteq> set (df_columns frame) \<and>
     (''timestamp'' \<in> set (df_columns frame) \<or> df_datetime_index frame)"

lemma df_to_candles_fields:
  "has_fields frame \<Longrightarrow> df_to_candles pd frame = candle_rows pd frame (enumerate 0 (df_rows frame))"
  "\<not> has_fields frame \<Longrightarrow> \<exists>m. df_to_candles pd frame = Inl (Violation m)"
proof -
  have missing: "filter (\<lambda>column. column \<notin> set (df_columns frame)) candle_columns = [] \<longleftrightarrow>
      set candle_columns \<subseteq> set (df_columns frame)"
    by (auto simp: filter_empty_conv)
  show "has_fields frame \<Longrightarrow> df_to_candles pd frame = candle_rows pd frame (enumerate 0 (df_rows frame))"
    using missing by (auto simp: df_to_candles_def has_fields_def)
  assume fields: "\<not> has_fields frame"
  show "\<exists>m. df_to_candles pd frame = Inl (Violation m)"
  proof (cases "filter (\<lambda>column. column \<notin> set (df_columns frame)) candle_columns")
    case Nil
    with missing fields show ?thesis by (simp add: df_to_candles_def has_fields_def)
  qed (simp add: df_to_candles_def)
qed

text \<open>The conversion is all or nothing. It returns exactly if the fields are present and every
  row is a candle, and then there is one candle per row, in order, each with positive prices in
  order; otherwise it raises, naming the first row that is not a candle.\<close>

theorem candle_conversion_atomic:
  "case df_to_candles pd frame of
     Inr cs \<Rightarrow> has_fields frame \<and> list_all2 (row_is_candle pd frame) (df_rows frame) cs
   | Inl e \<Rightarrow> (\<not> has_fields frame \<and> (\<exists>m. e = Violation m)) \<or>
       (\<exists>i < length (df_rows frame). (\<forall>c. \<not> row_is_candle pd frame (df_rows frame ! i) c) \<and>
          (\<forall>j < i. \<exists>c. row_is_candle pd frame (df_rows frame ! j) c) \<and>
          (e = Violation (''Candle conversion failed at row '' @ nat_str i) \<or> (\<exists>name. e = Uncaught name)))"
proof (cases "has_fields frame")
  case True
  note conv = df_to_candles_fields(1) [OF True, of pd]
  show ?thesis
  proof (cases "df_to_candles pd frame")
    case (Inr cs)
    with conv have "list_all2 (row_is_candle pd frame) (df_rows frame) cs"
      using candle_rows_Inr [of pd frame "enumerate 0 (df_rows frame)" cs] by simp
    with True show ?thesis by (simp add: Inr)
  next
    case (Inl e)
    with conv candle_rows_Inl [of pd frame "enumerate 0 (df_rows frame)" e]
    obtain i x where i: "i < length (df_rows frame)" "candle_of_row pd frame (df_rows frame ! i) = Inl x"
        "e = violation_at i x" "\<forall>j < i. \<exists>c. row_is_candle pd frame (df_rows frame ! j) c"
      by (auto simp: nth_enumerate_eq)
    then have "\<forall>c. \<not> row_is_candle pd frame (df_rows frame ! i) c"
      by (auto simp: candle_of_row_Inr [symmetric])
    moreover have "e = Violation (''Candle conversion failed at row '' @ nat_str i) \<or> (\<exists>name. e = Uncaught name)"
      using i(3) by (auto simp: violation_at_def split: pd_error.splits)
    ultimately show ?thesis using i Inl by auto
  qed
next
  case False
  with df_to_candles_fields(2) [OF False, of pd] show ?thesis by auto
qed

definition demo_timestamp :: timestamp_api where
  "demo_timestamp v = (case v of FTime t \<Rightarrow> Inr (Some (t, False)) | FCell _ \<Rightarrow> Inl PdTypeError)"

definition demo_candle_frame :: "real list \<Rightarrow> data_frame" where
  "demo_candle_frame opens = \<lparr>df_columns = ''timestamp'' # candle_columns, df_datetime_index = False,
     df_rows = map (\<lambda>op. (FCell CNone, FTime 5 # map (\<lambda>x. FCell (CNum (Fin x))) [op, 12, 9, 11, 100, 11])) opens\<rparr>"

lemma candle_conversion_atomic_witness:
  "\<exists>cs e. df_to_candles demo_timestamp (demo_candle_frame [10, 11]) = Inr cs \<and> length cs = 2 \<and>
     df_to_candles demo_timestamp (demo_candle_frame [10, 20]) = Inl e \<and>
     (\<exists>i < 2. \<forall>c. \<not> row_is_candle demo_timestamp (demo_candle_frame [10, 20]) (df_rows (demo_candle_frame [10, 20]) ! i) c)"
proof -
  have "case df_to_candles demo_timestamp (demo_candle_frame [10, 11]) of Inr _ \<Rightarrow> True | _ \<Rightarrow> False"
    "case df_to_candles demo_timestamp (demo_candle_frame [10, 20]) of Inl _ \<Rightarrow> True | _ \<Rightarrow> False"
    by code_simp+
  moreover have "has_fields (demo_candle_frame [10, 20])" "length (df_rows (demo_candle_frame [10, 20])) = 2"
      "length (df_rows (demo_candle_frame [10, 11])) = 2"
    by (auto simp: has_fields_def demo_candle_frame_def)
  ultimately show ?thesis
    using candle_conversion_atomic [where pd = demo_timestamp and frame = "demo_candle_frame [10, 11]"]
      candle_conversion_atomic [where pd = demo_timestamp and frame = "demo_candle_frame [10, 20]"]
    by (auto split: sum.splits dest: list_all2_lengthD)
qed

section \<open>Validated frames convert\<close>

definition canonical_data_frame :: "canonical_row list \<Rightarrow> data_frame" where
  "canonical_data_frame rows = \<lparr>df_columns = CANONICAL_COLUMNS, df_datetime_index = False,
     df_rows = map (\<lambda>(i, r). (FCell (CNum (Fin (real i))),
       [FTime (cr_timestamp r), FCell (CStr (cr_symbol r)), FCell (cr_open r), FCell (cr_high r), FCell (cr_low r),
        FCell (cr_close r), FCell (cr_volume r), FCell (cr_adj_close r), FCell (cr_dividend_amount r),
        FCell (cr_split_coefficient r), FCell (CStr (cr_source r))])) (enumerate 0 rows)\<rparr>"

definition canonical_candle :: "canonical_row \<Rightarrow> candle" where
  "canonical_candle r =
     (let value = (\<lambda>c. case finite_numeric c of Some x \<Rightarrow> x | None \<Rightarrow> 0)
      in \<lparr>c_timestamp = cr_timestamp r, c_open = value (cr_open r), c_high = value (cr_high r),
          c_low = value (cr_low r), c_close = value (cr_close r), c_volume = value (cr_volume r),
          c_adj_close = value (cr_adj_close r)\<rparr>)"

lemma py_float_finite: "finite_numeric c = Some x \<Longrightarrow> py_float (FCell c) = Inr (Fin x)"
  by (cases c rule: finite_numeric.cases) auto

lemma canonical_row_candle:
  assumes "row_valid r" and "\<And>t. \<exists>zoned. pd (FTime t) = Inr (Some (t, zoned))"
    and "row = (v, [FTime (cr_timestamp r), FCell (CStr (cr_symbol r)), FCell (cr_open r), FCell (cr_high r), FCell (cr_low r),
        FCell (cr_close r), FCell (cr_volume r), FCell (cr_adj_close r), FCell (cr_dividend_amount r),
        FCell (cr_split_coefficient r), FCell (CStr (cr_source r))])"
  shows "row_is_candle pd (canonical_data_frame rows) row (canonical_candle r)"
proof -
  obtain zoned where z: "pd (FTime (cr_timestamp r)) = Inr (Some (cr_timestamp r, zoned))" using assms(2) by blast
  from assms(1) show ?thesis unfolding row_valid_def
    by (auto simp: assms(3) row_is_candle_def row_timestamp_def row_float_def row_value_def canonical_data_frame_def
        CANONICAL_COLUMNS_def canonical_candle_def z py_float_finite candle_pos_def candle_ok_def)
qed

lemma canonical_frame_converts:
  assumes "\<And>r. r \<in> set rows \<Longrightarrow> row_valid r" and "\<And>t. \<exists>zoned. pd (FTime t) = Inr (Some (t, zoned))"
  shows "df_to_candles pd (canonical_data_frame rows) = Inr (map canonical_candle rows)"
    and "\<forall>c \<in> set (map canonical_candle rows). candle_pos c"
proof -
  have "has_fields (canonical_data_frame rows)"
    by (auto simp: has_fields_def canonical_data_frame_def CANONICAL_COLUMNS_def candle_columns_def)
  moreover have all: "list_all2 (row_is_candle pd (canonical_data_frame rows)) (df_rows (canonical_data_frame rows))
      (map canonical_candle rows)"
    using assms(1) by (auto simp: list_all2_conv_all_nth canonical_data_frame_def nth_enumerate_eq
        intro!: canonical_row_candle [unfolded canonical_data_frame_def] assms(2))
  ultimately show "df_to_candles pd (canonical_data_frame rows) = Inr (map canonical_candle rows)"
    by (simp add: df_to_candles_fields candle_rows_Inr)
  show "\<forall>c \<in> set (map canonical_candle rows). candle_pos c"
    using all by (auto simp: row_is_candle_def list_all2_conv_all_nth in_set_conv_nth)
qed

end
