(* ===== verification/Store_Artifacts.thy ===== *)
theory Store_Artifacts
  imports Acquisition Candle_Frames "HOL-Library.List_Lexorder" "HOL-Library.Char_ord"
begin

text \<open>
  Validation and lineage of cache generations, \<open>src/data/store_artifacts.py\<close>, with the frame
  helpers of \<open>src/data/store.py\<close> that a publication uses when another process has published in
  the meantime. The lineage of a stored manifest is its parsed list of segments.
\<close>

section \<open>Model\<close>

text \<open>The checks of one row, in the order of the source; \<open>float\<close> of a cell that is not a number
  raises.\<close>

definition cell_float :: "cell \<Rightarrow> exn + xfloat" where
  "cell_float c = (case py_float (FCell c) of
     Inr x \<Rightarrow> Inr x
   | Inl e \<Rightarrow> Inl (external (if e = PdValueError then ''ValueError'' else ''TypeError'')))"

definition violation :: "(string \<Rightarrow> string) \<Rightarrow> string \<Rightarrow> exn" where
  "violation redact message = acquisition_error redact ContractViolationError message None"

definition validate_row :: "(string \<Rightarrow> string) \<Rightarrow> canonical_row \<Rightarrow> unit \<Rightarrow> exn + unit" where
  "validate_row redact r u =
     rbind (map_result (\<lambda>column. cell_float (numeric_cell r column)) NUMERIC_COLUMNS) (\<lambda>values.
       let value = (\<lambda>column. case map_of (zip NUMERIC_COLUMNS values) column of Some x \<Rightarrow> fin_val x | None \<Rightarrow> 0) in
       if \<not> list_all isfinite values
         then Inl (violation redact ''canonical cache contains non-finite values'')
       else if list_ex (\<lambda>column. value column \<le> 0) [''open'', ''high'', ''low'', ''close'', ''adj_close'']
         then Inl (violation redact ''canonical cache contains non-positive prices'')
       else if value ''volume'' < 0 \<or> value ''dividend_amount'' < 0
         then Inl (violation redact ''canonical cache contains negative quantities'')
       else if value ''split_coefficient'' \<le> 0
         then Inl (violation redact ''canonical cache contains an invalid split coefficient'')
       else if value ''high'' < max (value ''open'') (value ''close'')
         then Inl (violation redact ''canonical cache high is inconsistent'')
       else if value ''low'' > min (value ''open'') (value ''close'')
         then Inl (violation redact ''canonical cache low is inconsistent'')
       else Inr ())"

definition validate_canonical ::
    "(string \<Rightarrow> string) \<Rightarrow> canonical_frame \<Rightarrow> acquisition_request \<Rightarrow> exn + unit" where
  "validate_canonical redact frame request =
     (let timestamps = map cr_timestamp (cf_rows frame) in
      if cf_rows frame = [] \<or> cf_columns frame = []
        then Inl (violation redact ''canonical cache frame must be non-empty'')
      else if cf_columns frame \<noteq> CANONICAL_COLUMNS
        then Inl (violation redact ''canonical cache columns are incompatible'')
      else if cf_dtypes frame \<noteq> expected_dtypes
        then Inl (violation redact ''canonical cache dtypes are incompatible'')
      else if cf_zoned frame \<or> \<not> sorted timestamps \<or> \<not> distinct timestamps
        then Inl (violation redact ''canonical cache timestamps are incompatible'')
      else if set (map cr_symbol (cf_rows frame)) \<noteq> {ar_symbol request}
        then Inl (violation redact ''canonical cache symbol is incompatible'')
      else if \<not> set (map cr_source (cf_rows frame)) \<subseteq> {provider_value YFINANCE, provider_value ALPHA_VANTAGE}
        then Inl (violation redact ''canonical cache source is incompatible'')
      else rfold (validate_row redact) (cf_rows frame) ())"

text \<open>\<open>_merge_lineage\<close>: a dictionary keyed by all fields of a segment has one entry per segment, in
  the order of the first occurrences; \<open>sorted\<close> is stable and leaves the action coverage out of
  its key.\<close>

definition lineage_key :: "lineage_segment \<Rightarrow> int \<times> int \<times> string \<times> int \<times> string \<times> string" where
  "lineage_key g = (ls_start g, ls_end g, provider_value (ls_provider g), ls_acquired_at g,
     ls_content_hash g, ls_action_signature g)"

definition unique_segments :: "lineage_segment list \<Rightarrow> (lineage_segment, lineage_segment) dict" where
  "unique_segments gs = fold (\<lambda>g d. dict_set d g g) gs []"

definition merge_lineage :: "lineage_segment list \<Rightarrow> lineage_segment list \<Rightarrow> lineage_segment list" where
  "merge_lineage existing incoming = sort_key lineage_key (map snd (unique_segments (existing @ incoming)))"

definition in_ranges :: "(int \<times> int) list \<Rightarrow> int \<Rightarrow> bool" where
  "in_ranges ranges day = list_ex (\<lambda>(start, end_day). start \<le> day \<and> day \<le> end_day) ranges"

definition rebase_provenance ::
    "service \<Rightarrow> lineage_segment list \<Rightarrow> lineage_segment list \<Rightarrow> (int \<times> int) list \<Rightarrow> canonical_row \<Rightarrow> exn + provenance" where
  "rebase_provenance svc existing incoming replace_ranges row =
     (let day = cr_timestamp row div 86400000000;
          candidates = (if in_ranges replace_ranges day then incoming else existing)
      in case find (\<lambda>g. ls_start g \<le> day \<and> day \<le> ls_end g) candidates of
           None \<Rightarrow> Inl (acquisition_error (sv_redact svc) CachePublicationError
             ''rebased cache lineage does not cover every row'' None)
         | Some g \<Rightarrow> Inr (ls_provider g, ls_acquired_at g, ls_action_coverage g, ls_start g, ls_end g, ls_content_hash g))"

definition rebase_segment :: "service \<Rightarrow> canonical_row list \<times> provenance \<Rightarrow> exn + lineage_segment" where
  "rebase_segment svc x = (case lineage_segment_of svc x of Inr g \<Rightarrow> Inr g | Inl e \<Rightarrow> Inl (external (py_error_name e)))"

definition rebase_lineage ::
    "service \<Rightarrow> lineage_segment list \<Rightarrow> lineage_segment list \<Rightarrow> canonical_row list \<Rightarrow> (int \<times> int) list \<Rightarrow>
     exn + lineage_segment list" where
  "rebase_lineage svc existing incoming assembled replace_ranges =
     rbind (map_result (rebase_provenance svc existing incoming replace_ranges) assembled)
       (\<lambda>provenance. map_result (rebase_segment svc) (provenance_groups (zip assembled provenance)))"

definition merge_canonical :: "canonical_row list \<Rightarrow> canonical_row list \<Rightarrow> canonical_row list" where
  "merge_canonical current candidate = sort_key cr_timestamp (keep_last (current @ candidate))"

definition rows_in_ranges :: "canonical_row list \<Rightarrow> (int \<times> int) list \<Rightarrow> canonical_row list" where
  "rows_in_ranges frame ranges =
     filter (\<lambda>r. list_ex (\<lambda>(start, end_day). start * 86400000000 \<le> cr_timestamp r \<and>
       cr_timestamp r \<le> end_day * 86400000000) ranges) frame"

text \<open>The part of \<open>publish_generation\<close> that assembles the frame and the lineage to publish, given the
  generation found under the lock: \<open>latest\<close> is its identifier, frame and lineage.\<close>

definition rebase_candidate ::
    "service \<Rightarrow> string option \<Rightarrow> (string \<times> canonical_row list \<times> lineage_segment list) option \<Rightarrow>
     canonical_row list \<Rightarrow> lineage_segment list \<Rightarrow> (int \<times> int) list \<Rightarrow>
     exn + (canonical_row list \<times> lineage_segment list)" where
  "rebase_candidate svc expected_base latest candidate lineage replace_ranges =
     (case latest of
        None \<Rightarrow> Inr (candidate, lineage)
      | Some (latest_id, latest_frame, latest_lineage) \<Rightarrow>
          if expected_base = Some latest_id then Inr (candidate, lineage)
          else let incoming = (if replace_ranges \<noteq> [] then rows_in_ranges candidate replace_ranges else candidate);
                   assembled = merge_canonical latest_frame incoming
               in rbind (if replace_ranges \<noteq> [] then rebase_lineage svc latest_lineage lineage assembled replace_ranges
                         else Inr (merge_lineage latest_lineage lineage)) (\<lambda>merged.
                  Inr (assembled, merged)))"

section \<open>The two contracts agree\<close>

lemma rfold_unit: "rfold f xs () = Inr () \<longleftrightarrow> (\<forall>x \<in> set xs. f x () = Inr ())"
  by (induction xs) (auto simp: result_simps)

lemma cell_float_num: "cell_float (CNum x) = Inr x"
  by (simp add: cell_float_def)

lemma validate_row_iff:
  assumes "float_row r"
  shows "validate_row redact r () = Inr () \<longleftrightarrow> row_valid r"
proof -
  from assms obtain op h l cl v ac d s where r: "cr_open r = CNum op" "cr_high r = CNum h" "cr_low r = CNum l"
      "cr_close r = CNum cl" "cr_volume r = CNum v" "cr_adj_close r = CNum ac"
      "cr_dividend_amount r = CNum d" "cr_split_coefficient r = CNum s"
    by (auto simp: float_row_def NUMERIC_COLUMNS_def)
  show ?thesis
  proof (cases "list_all isfinite [op, h, l, cl, v, ac, d, s]")
    case True
    then obtain op' h' l' cl' v' ac' d' s' where f: "op = Fin op'" "h = Fin h'" "l = Fin l'" "cl = Fin cl'"
        "v = Fin v'" "ac = Fin ac'" "d = Fin d'" "s = Fin s'"
      by (auto simp: isfinite_Ex)
    show ?thesis
      by (auto simp: validate_row_def NUMERIC_COLUMNS_def r f cell_float_num row_valid_def Let_def not_le not_less)
  next
    case False
    then have "validate_row redact r () \<noteq> Inr ()"
      by (auto simp: validate_row_def NUMERIC_COLUMNS_def r cell_float_num Let_def)
    moreover have "\<not> row_valid r"
      using False by (auto simp: row_valid_def r isfinite_Ex elim!: finite_numeric.elims)
    ultimately show ?thesis by simp
  qed
qed

text \<open>The store's validation of a frame and the canonical contract of the quality evaluation, which
  are written separately, accept the same frames.\<close>

theorem store_contract_agrees:
  assumes "cf_dtypes frame = expected_dtypes \<Longrightarrow> \<forall>r \<in> set (cf_rows frame). float_row r"
  shows "validate_canonical redact frame request = Inr () \<longleftrightarrow> canonical_contract_errors frame request = []"
proof (cases "cf_dtypes frame = expected_dtypes")
  case True
  with assms have "rfold (validate_row redact) (cf_rows frame) () = Inr () \<longleftrightarrow> (\<forall>r \<in> set (cf_rows frame). row_valid r)"
    by (simp add: rfold_unit validate_row_iff)
  moreover have "CANONICAL_COLUMNS \<noteq> []" by (simp add: CANONICAL_COLUMNS_def)
  ultimately show ?thesis
    by (auto simp: validate_canonical_def canonical_contract_errors_def Let_def reason_if_def True list_ex_iff row_reasons_Nil)
qed (auto simp: validate_canonical_def canonical_contract_errors_def Let_def reason_if_def)

definition demo_mixed_frame :: canonical_frame where
  "demo_mixed_frame = demo_frame\<lparr>cf_rows := [demo_row 0, (demo_row 5)\<lparr>cr_high := CNum (Fin 1)\<rparr>]\<rparr>"

lemma store_contract_agrees_witness:
  "validate_canonical (\<lambda>s. s) demo_frame demo_request = Inr () \<and>
   canonical_contract_errors demo_frame demo_request = [] \<and>
   validate_canonical (\<lambda>s. s) demo_mixed_frame demo_request \<noteq> Inr ()"
proof -
  have fl: "\<forall>r \<in> set (cf_rows demo_frame). float_row r" "\<forall>r \<in> set (cf_rows demo_mixed_frame). float_row r"
    by (simp_all add: demo_frame_def demo_mixed_frame_def demo_row_def float_row_def NUMERIC_COLUMNS_def)
  have "validate_canonical (\<lambda>s. s) demo_frame demo_request = Inr ()" by code_simp
  moreover have "canonical_contract_errors demo_mixed_frame demo_request \<noteq> []" by code_simp
  ultimately show ?thesis
    using store_contract_agrees [of demo_frame] store_contract_agrees [of demo_mixed_frame] fl by blast
qed

section \<open>Merged lineage\<close>

lemma unique_segments_fold:
  "dict_ok d \<Longrightarrow> dict_ok (fold (\<lambda>g d. dict_set d g g) gs d) \<and>
     (\<forall>k. dict_get (fold (\<lambda>g d. dict_set d g g) gs d) k = (if k \<in> set gs then Some k else dict_get d k))"
  by (induction gs arbitrary: d) (auto simp: dict_laws)

lemma unique_segments_values:
  "set (map snd (unique_segments gs)) = set gs" "distinct (map snd (unique_segments gs))"
proof -
  let ?d = "unique_segments gs"
  have d: "dict_ok ?d" "\<And>k. dict_get ?d k = (if k \<in> set gs then Some k else None)"
    using unique_segments_fold [of "[]" gs] by (auto simp: unique_segments_def)
  have items: "(k, v) \<in> set ?d \<longleftrightarrow> k = v \<and> v \<in> set gs" for k v
    using dict.get_items [OF d(1), of k v] d(2) [of k] by (auto split: if_splits)
  then have "map snd ?d = map fst ?d" by auto
  with d(1) show "distinct (map snd ?d)" unfolding dict_ok_def by metis
  show "set (map snd ?d) = set gs"
    using items by (force simp: image_iff)
qed

text \<open>Merging the lineage of the published generation with an incoming one loses and invents no
  segment, keeps each once, and orders them by date range, provider, time and digests.\<close>

theorem merged_lineage_complete:
  "set (merge_lineage existing incoming) = set existing \<union> set incoming \<and>
   distinct (merge_lineage existing incoming) \<and>
   sorted (map lineage_key (merge_lineage existing incoming))"
  using unique_segments_values [of "existing @ incoming"] by (simp add: merge_lineage_def)

section \<open>Rebasing a publication\<close>

lemma merge_canonical_rows:
  "sorted_wrt (<) (map cr_timestamp (merge_canonical current candidate))"
  "cr_timestamp ` set (merge_canonical current candidate) = cr_timestamp ` set current \<union> cr_timestamp ` set candidate"
  "r \<in> set (merge_canonical current candidate) \<Longrightarrow>
     r \<in> set candidate \<or> (r \<in> set current \<and> cr_timestamp r \<notin> cr_timestamp ` set candidate)"
proof -
  show "sorted_wrt (<) (map cr_timestamp (merge_canonical current candidate))"
    using sort_key_strict [OF keep_last_distinct, of "current @ candidate"]
    by (simp add: merge_canonical_def sorted_wrt_map)
  show "cr_timestamp ` set (merge_canonical current candidate) = cr_timestamp ` set current \<union> cr_timestamp ` set candidate"
    by (simp add: merge_canonical_def keep_last_timestamps image_Un)
  assume "r \<in> set (merge_canonical current candidate)"
  then show "r \<in> set candidate \<or> (r \<in> set current \<and> cr_timestamp r \<notin> cr_timestamp ` set candidate)"
    using keep_last_subset by (auto simp: merge_canonical_def keep_last_append)
qed

lemma rebase_segment_Inr: "rebase_segment svc x = Inr g \<longleftrightarrow> lineage_segment_of svc x = Inr g"
  by (simp add: rebase_segment_def split: sum.split)

text \<open>A segment of the incoming lineage for a replaced day, of the published one for another day.\<close>

definition rebased_from :: "(int \<times> int) list \<Rightarrow> lineage_segment list \<Rightarrow> lineage_segment list \<Rightarrow> canonical_row \<Rightarrow> lineage_segment \<Rightarrow> bool" where
  "rebased_from ranges published incoming r g \<longleftrightarrow>
     (let day = cr_timestamp r div 86400000000 in
      \<exists>s \<in> set (if in_ranges ranges day then incoming else published).
        ls_start s \<le> day \<and> day \<le> ls_end s \<and> ls_provider s = ls_provider g \<and> ls_acquired_at s = ls_acquired_at g \<and>
        ls_action_coverage s = ls_action_coverage g)"

lemma rebase_provenance_from:
  assumes "rebase_provenance svc published incoming ranges r = Inr (ls_provider g, ls_acquired_at g, ls_action_coverage g, rest)"
  shows "rebased_from ranges published incoming r g"
  using assms by (auto simp: rebase_provenance_def rebased_from_def Let_def find_Some_iff split: option.splits if_splits)

text \<open>A publication that finds another generation than the one it started from keeps that
  generation's rows. The rebased frame has strictly increasing timestamps, those of the published
  frame and of the candidate's rows in the replaced ranges; a row is the candidate's only inside
  the ranges, and the published one wherever the candidate replaces nothing. The rebased lineage
  partitions the frame, and every row's provenance comes from the incoming segments if its day is
  replaced and from the published ones otherwise.\<close>

theorem rebase_keeps_published_rows:
  assumes "rebase_candidate svc base (Some (latest_id, frame, published)) candidate incoming ranges = Inr (assembled, merged)"
    and "base \<noteq> Some latest_id" and "ranges \<noteq> []"
  shows "sorted_wrt (<) (map cr_timestamp assembled) \<and>
    cr_timestamp ` set assembled = cr_timestamp ` set frame \<union> cr_timestamp ` set (rows_in_ranges candidate ranges) \<and>
    (\<forall>r \<in> set assembled. r \<in> set (rows_in_ranges candidate ranges) \<or>
       (r \<in> set frame \<and> cr_timestamp r \<notin> cr_timestamp ` set (rows_in_ranges candidate ranges))) \<and>
    (\<exists>parts. concat parts = assembled \<and> list_all2 (\<lambda>rows g. segment_of_rows svc rows g \<and>
       (\<forall>r \<in> set rows. rebased_from ranges published incoming r g)) parts merged)"
proof -
  let ?in = "rows_in_ranges candidate ranges"
  let ?prov = "rebase_provenance svc published incoming ranges"
  from assms have asm: "assembled = merge_canonical frame ?in"
      and lin: "rebase_lineage svc published incoming assembled ranges = Inr merged"
    by (auto simp: rebase_candidate_def Let_def result_simps)
  from lin obtain ps where ps: "list_all2 (\<lambda>r y. ?prov r = Inr y) assembled ps"
      and segs: "list_all2 (\<lambda>x g. lineage_segment_of svc x = Inr g) (provenance_groups (zip assembled ps)) merged"
    by (auto simp: rebase_lineage_def result_simps map_result_Inr rebase_segment_Inr)
  from segments_partition [OF ps segs] obtain parts where "concat parts = assembled"
      and parts: "list_all2 (\<lambda>rows g. segment_of_rows svc rows g \<and>
        (\<forall>r \<in> set rows. \<exists>rest. ?prov r = Inr (ls_provider g, ls_acquired_at g, ls_action_coverage g, rest))) parts merged"
    by blast
  moreover from parts have "list_all2 (\<lambda>rows g. segment_of_rows svc rows g \<and>
      (\<forall>r \<in> set rows. rebased_from ranges published incoming r g)) parts merged"
    by (rule list_all2_mono) (use rebase_provenance_from in blast)
  ultimately show ?thesis
    using merge_canonical_rows [where current = frame and candidate = ?in] unfolding asm by blast
qed

definition demo_segment :: lineage_segment where
  "demo_segment = \<lparr>ls_start = 0, ls_end = 5, ls_provider = YFINANCE, ls_acquired_at = 7,
     ls_action_coverage = UNKNOWN, ls_content_hash = ''c'', ls_action_signature = ''s''\<rparr>"

lemma rebase_keeps_published_rows_witness:
  "\<exists>assembled merged. rebase_candidate demo_service None
      (Some (''g2'', [demo_row 0, demo_row 86400000000], [demo_segment])) [demo_row 86400000000, demo_row 172800000000]
      [demo_segment\<lparr>ls_acquired_at := 9\<rparr>] [(1, 1)] = Inr (assembled, merged) \<and>
    cr_timestamp ` set assembled = {0, 86400000000}"
proof -
  have "case rebase_candidate demo_service None
      (Some (''g2'', [demo_row 0, demo_row 86400000000], [demo_segment])) [demo_row 86400000000, demo_row 172800000000]
      [demo_segment\<lparr>ls_acquired_at := 9\<rparr>] [(1, 1)] of Inr _ \<Rightarrow> True | _ \<Rightarrow> False"
    by code_simp
  then obtain assembled merged where run: "rebase_candidate demo_service None
      (Some (''g2'', [demo_row 0, demo_row 86400000000], [demo_segment])) [demo_row 86400000000, demo_row 172800000000]
      [demo_segment\<lparr>ls_acquired_at := 9\<rparr>] [(1, 1)] = Inr (assembled, merged)"
    by (auto split: sum.splits)
  from rebase_keeps_published_rows [OF run] run show ?thesis
    by (auto simp: rows_in_ranges_def demo_row_def)
qed

end
