(* ===== verification/Documents.thy ===== *)
theory Documents
  imports Store_Artifacts
begin

text \<open>
  The documents of the data layer: JSON values, \<open>json_safe\<close> and the manifest of
  \<open>src/data/contracts.py\<close>, the parsers of \<open>src/data/store_artifacts.py\<close> and
  \<open>src/data/acquisition.py\<close> for a stored lineage, and the identifier and timestamp checks of
  \<open>src/data/store.py\<close>. A JSON object is its list of members; a writer sorts its keys, as
  \<open>json.dumps(sort_keys=True)\<close> does. The text of dates and times is a parameter, of which the
  statements assume that \<open>fromisoformat\<close> inverts \<open>isoformat\<close>.
\<close>

section \<open>JSON values\<close>

datatype json =
    JNull
  | JBool bool
  | JInt int
  | JFloat xfloat
  | JStr string
  | JList "json list"
  | JObj "(string \<times> json) list"

text \<open>\<open>d.get(key)\<close> of a value that is an object; a missing key is null.\<close>

fun members :: "json \<Rightarrow> (string \<times> json) list option" where
  "members (JObj kvs) = Some kvs"
| "members _ = None"

fun jget :: "json \<Rightarrow> string \<Rightarrow> json" where
  "jget (JObj kvs) key = (case map_of kvs key of Some v \<Rightarrow> v | None \<Rightarrow> JNull)"
| "jget _ key = JNull"

fun jkeys :: "json \<Rightarrow> string set" where
  "jkeys (JObj kvs) = set (map fst kvs)"
| "jkeys _ = {}"

fun json_sorted :: "json \<Rightarrow> json" where
  "json_sorted (JObj kvs) = JObj (sort_key fst (map (\<lambda>(k, v). (k, json_sorted v)) kvs))"
| "json_sorted (JList vs) = JList (map json_sorted vs)"
| "json_sorted v = v"

record iso_api =
  iso_text :: "datetime \<Rightarrow> string"
  iso_parse :: "string \<Rightarrow> (datetime \<times> int option) option"
  date_text :: "int \<Rightarrow> string"
  date_parse :: "string \<Rightarrow> int option"

text \<open>The text of an aware UTC time and of a date, and what \<open>fromisoformat\<close> makes of a text: the
  instant with its offset from UTC, if it has one, or a \<open>ValueError\<close>.\<close>

definition iso_ok :: "iso_api \<Rightarrow> bool" where
  "iso_ok fmt \<longleftrightarrow> (\<forall>t. iso_parse fmt (iso_text fmt t) = Some (t, Some 0)) \<and>
     (\<forall>d. date_parse fmt (date_text fmt d) = Some d)"

section \<open>Values of the contracts\<close>

fun status_value :: "acquisition_status \<Rightarrow> string" where
  "status_value SUCCESS = ''success''"
| "status_value PARTIAL_SUCCESS = ''partial_success''"
| "status_value FAILED = ''failed''"

fun cache_status_value :: "cache_status \<Rightarrow> string" where
  "cache_status_value MISS = ''miss''"
| "cache_status_value FULL_HIT = ''full_hit''"
| "cache_status_value PARTIAL_HIT = ''partial_hit''"
| "cache_status_value STALE_REFRESH = ''stale_refresh''"
| "cache_status_value FORCED_REFRESH = ''forced_refresh''"
| "cache_status_value INVALIDATED = ''invalidated''"

fun severity_value :: "quality_severity \<Rightarrow> string" where
  "severity_value INFO = ''info''"
| "severity_value WARNING = ''warning''"
| "severity_value FATAL = ''fatal''"

fun coverage_value :: "action_coverage \<Rightarrow> string" where
  "coverage_value REPRESENTED = ''represented''"
| "coverage_value NOT_REPRESENTED = ''not_represented''"
| "coverage_value UNKNOWN = ''unknown''"

definition CONTRACT_VERSION :: string where "CONTRACT_VERSION = ''1''"

record acquisition_manifest =
  mf_acquisition_id :: string
  mf_request :: acquisition_request
  mf_status :: acquisition_status
  mf_schema_version :: string
  mf_quality_policy :: quality_policy
  mf_retry_policy :: retry_policy
  mf_environment_versions :: "(string, string) dict"
  mf_cache :: cache_evidence
  mf_attempts :: "attempt_evidence list"
  mf_provider_skips :: "(string, string) dict"
  mf_findings :: "quality_finding list"
  mf_rejected_rows :: "rejected_row list"
  mf_lineage :: "lineage_segment list"
  mf_counters :: "(string, int) dict"
  mf_coverage :: "real option"
  mf_output_hash :: "string option"
  mf_duration_seconds :: "real option"
  mf_started_at :: "datetime option"
  mf_completed_at :: "datetime option"

definition freeze_strings :: "(string \<Rightarrow> string) \<Rightarrow> (string, string) dict \<Rightarrow> (string, string) dict" where
  "freeze_strings redact d = map (\<lambda>(key, item). (key, if is_sensitive_key key then redacted_text else redact item)) d"

text \<open>A counter under a sensitive key would become the redaction mark; the counters are the fields
  of the reconciliation record, none of which is sensitive.\<close>

definition acquisition_manifest_post_init :: "(string \<Rightarrow> string) \<Rightarrow> acquisition_manifest \<Rightarrow> acquisition_manifest" where
  "acquisition_manifest_post_init redact m =
     m\<lparr>mf_environment_versions := freeze_strings redact (mf_environment_versions m),
       mf_provider_skips := freeze_strings redact (mf_provider_skips m)\<rparr>"

section \<open>Serialisation\<close>

definition jopt :: "('a \<Rightarrow> json) \<Rightarrow> 'a option \<Rightarrow> json" where
  "jopt f v = (case v of None \<Rightarrow> JNull | Some x \<Rightarrow> f x)"

definition jmapping :: "('a \<Rightarrow> json) \<Rightarrow> (string, 'a) dict \<Rightarrow> json" where
  "jmapping f d = JObj (map (\<lambda>(key, item). (key, if is_sensitive_key key then JStr redacted_text else f item)) d)"

fun json_of_metadata :: "(string \<Rightarrow> string) \<Rightarrow> metadata \<Rightarrow> json" where
  "json_of_metadata redact (MMap items) = JObj (map (\<lambda>(key, item).
     (key, if is_sensitive_key key then JStr redacted_text else json_of_metadata redact item)) items)"
| "json_of_metadata redact (MStr s) = JStr (redact s)"
| "json_of_metadata redact (MSeq items) = JList (map (json_of_metadata redact) items)"
| "json_of_metadata redact (MSet items) = JList (map (json_of_metadata redact) items)"
| "json_of_metadata redact (MInt i) = JInt i"
| "json_of_metadata redact (MFloat x) = JFloat x"
| "json_of_metadata redact MOther = JNull"

text \<open>\<open>json_safe\<close> of a value that is JSON already redacts its texts and its sensitive members.\<close>

fun json_safe_json :: "(string \<Rightarrow> string) \<Rightarrow> json \<Rightarrow> json" where
  "json_safe_json redact (JObj kvs) = JObj (map (\<lambda>(key, item).
     (key, if is_sensitive_key key then JStr redacted_text else json_safe_json redact item)) kvs)"
| "json_safe_json redact (JList vs) = JList (map (json_safe_json redact) vs)"
| "json_safe_json redact (JStr s) = JStr (redact s)"
| "json_safe_json redact v = v"

definition request_to_dict :: "(string \<Rightarrow> string) \<Rightarrow> iso_api \<Rightarrow> acquisition_request \<Rightarrow> json" where
  "request_to_dict redact fmt r = JObj
     [(''symbol'', JStr (redact (ar_symbol r))), (''start'', JStr (date_text fmt (ar_start r))),
      (''end'', JStr (date_text fmt (ar_end r))), (''interval'', JStr (redact (ar_interval r))),
      (''calendar'', JStr (redact (ar_calendar r))), (''source'', JStr (source_value (ar_source r))),
      (''use_cache'', JBool (ar_use_cache r)), (''refresh'', JBool (ar_refresh r))]"

definition quality_policy_to_dict :: "quality_policy \<Rightarrow> json" where
  "quality_policy_to_dict p = JObj
     [(''minimum_coverage'', JFloat (Fin (qp_minimum_coverage p))),
      (''max_consecutive_missing_sessions'', JInt (qp_max_consecutive_missing_sessions p)),
      (''action_relative_tolerance'', JFloat (Fin (qp_action_relative_tolerance p))),
      (''action_absolute_tolerance'', JFloat (Fin (qp_action_absolute_tolerance p)))]"

definition retry_policy_to_dict :: "retry_policy \<Rightarrow> json" where
  "retry_policy_to_dict p = JObj
     [(''max_attempts'', JInt (rp_max_attempts p)),
      (''base_delay_seconds'', JFloat (Fin (rp_base_delay_seconds p))),
      (''max_delay_seconds'', JFloat (Fin (rp_max_delay_seconds p))),
      (''max_retry_after_seconds'', JFloat (Fin (rp_max_retry_after_seconds p)))]"

definition cache_evidence_to_dict :: "(string \<Rightarrow> string) \<Rightarrow> cache_evidence \<Rightarrow> json" where
  "cache_evidence_to_dict redact c = JObj
     [(''status'', JStr (cache_status_value (ce_status c))),
      (''generation_id'', jopt (\<lambda>s. JStr (redact s)) (ce_generation_id c)),
      (''cache_key'', jopt (\<lambda>s. JStr (redact s)) (ce_cache_key c)),
      (''compatibility_reason'', jopt (\<lambda>s. JStr (redact s)) (ce_compatibility_reason c)),
      (''covered_sessions'', JInt (ce_covered_sessions c)), (''missing_sessions'', JInt (ce_missing_sessions c))]"

definition attempt_to_dict :: "(string \<Rightarrow> string) \<Rightarrow> iso_api \<Rightarrow> attempt_evidence \<Rightarrow> json" where
  "attempt_to_dict redact fmt a = JObj
     [(''provider'', JStr (provider_value (ae_provider a))), (''attempt_number'', JInt (ae_attempt_number a)),
      (''started_at'', JStr (iso_text fmt (ae_started_at a))),
      (''duration_seconds'', JFloat (Fin (ae_duration_seconds a))), (''outcome'', JStr (redact (ae_outcome a))),
      (''retry_delay_seconds'', jopt (\<lambda>x. JFloat (Fin x)) (ae_retry_delay_seconds a)),
      (''error_type'', jopt (\<lambda>s. JStr (redact s)) (ae_error_type a)),
      (''error_message'', jopt (\<lambda>s. JStr (redact s)) (ae_error_message a))]"

definition finding_to_dict :: "(string \<Rightarrow> string) \<Rightarrow> quality_finding \<Rightarrow> json" where
  "finding_to_dict redact f = JObj
     [(''severity'', JStr (severity_value (qf_severity f))), (''code'', JStr (redact (qf_code f))),
      (''message'', JStr (redact (qf_message f))), (''details'', json_of_metadata redact (MMap (qf_details f)))]"

definition rejected_to_dict :: "(string \<Rightarrow> string) \<Rightarrow> rejected_row \<Rightarrow> json" where
  "rejected_to_dict redact r = JObj
     [(''source_row_number'', JInt (int (rj_source_row_number r))), (''reason'', JStr (redact (rj_reason r))),
      (''timestamp'', jopt (\<lambda>s. JStr (redact s)) (rj_timestamp r)),
      (''details'', json_of_metadata redact (MMap (rj_details r)))]"

definition segment_to_dict :: "(string \<Rightarrow> string) \<Rightarrow> iso_api \<Rightarrow> lineage_segment \<Rightarrow> json" where
  "segment_to_dict redact fmt g = JObj
     [(''start'', JStr (date_text fmt (ls_start g))), (''end'', JStr (date_text fmt (ls_end g))),
      (''provider'', JStr (provider_value (ls_provider g))),
      (''acquired_at'', JStr (iso_text fmt (ls_acquired_at g))),
      (''action_coverage'', JStr (coverage_value (ls_action_coverage g))),
      (''content_hash'', JStr (redact (ls_content_hash g))),
      (''action_signature'', JStr (redact (ls_action_signature g)))]"

definition manifest_to_dict :: "(string \<Rightarrow> string) \<Rightarrow> iso_api \<Rightarrow> acquisition_manifest \<Rightarrow> json" where
  "manifest_to_dict redact fmt m = JObj
     [(''acquisition_id'', JStr (redact (mf_acquisition_id m))), (''request'', request_to_dict redact fmt (mf_request m)),
      (''status'', JStr (status_value (mf_status m))), (''schema_version'', JStr (redact (mf_schema_version m))),
      (''quality_policy'', quality_policy_to_dict (mf_quality_policy m)),
      (''retry_policy'', retry_policy_to_dict (mf_retry_policy m)),
      (''environment_versions'', jmapping (\<lambda>s. JStr (redact s)) (mf_environment_versions m)),
      (''cache'', cache_evidence_to_dict redact (mf_cache m)),
      (''attempts'', JList (map (attempt_to_dict redact fmt) (mf_attempts m))),
      (''provider_skips'', jmapping (\<lambda>s. JStr (redact s)) (mf_provider_skips m)),
      (''findings'', JList (map (finding_to_dict redact) (mf_findings m))),
      (''rejected_rows'', JList (map (rejected_to_dict redact) (mf_rejected_rows m))),
      (''lineage'', JList (map (segment_to_dict redact fmt) (mf_lineage m))),
      (''counters'', jmapping JInt (mf_counters m)), (''coverage'', jopt (\<lambda>x. JFloat (Fin x)) (mf_coverage m)),
      (''output_hash'', jopt (\<lambda>s. JStr (redact s)) (mf_output_hash m)),
      (''duration_seconds'', jopt (\<lambda>x. JFloat (Fin x)) (mf_duration_seconds m)),
      (''started_at'', jopt (\<lambda>t. JStr (iso_text fmt t)) (mf_started_at m)),
      (''completed_at'', jopt (\<lambda>t. JStr (iso_text fmt t)) (mf_completed_at m))]"

section \<open>Parsing\<close>

definition raise_as :: "string \<Rightarrow> string \<Rightarrow> exn" where
  "raise_as cls message = \<lparr>exn_class = External cls, exn_message = message, exn_acquisition_id = None,
     exn_retry_after_seconds = None\<rparr>"

text \<open>The subclasses of \<open>ValueError\<close> and \<open>OSError\<close> that occur.\<close>

definition is_value_error :: "exn \<Rightarrow> bool" where
  "is_value_error e \<longleftrightarrow> exn_class e \<in> {External ''ValueError'', External ''JSONDecodeError'', External ''UnicodeDecodeError''}"

definition is_type_error :: "exn \<Rightarrow> bool" where
  "is_type_error e \<longleftrightarrow> exn_class e = External ''TypeError''"

definition is_os_error :: "exn \<Rightarrow> bool" where
  "is_os_error e \<longleftrightarrow> exn_class e \<in> {External ''OSError'', External ''FileExistsError'', External ''FileNotFoundError'',
     External ''NotADirectoryError'', External ''IsADirectoryError''}"

definition parse_utc_timestamp :: "iso_api \<Rightarrow> json \<Rightarrow> exn + datetime" where
  "parse_utc_timestamp fmt value = (case value of
     JStr s \<Rightarrow> (case iso_parse fmt s of
         None \<Rightarrow> Inl (raise_as ''ValueError'' ''Invalid isoformat string'')
       | Some (t, offset) \<Rightarrow> if offset = Some 0 then Inr t
           else Inl (raise_as ''ValueError'' ''timestamp evidence must be UTC''))
   | _ \<Rightarrow> Inl (raise_as ''TypeError'' ''timestamp evidence must be an ISO string''))"

definition safe_id_char :: "char \<Rightarrow> bool" where
  "safe_id_char c \<longleftrightarrow> (let n = (of_char c :: nat) in
     (48 \<le> n \<and> n \<le> 57) \<or> (65 \<le> n \<and> n \<le> 90) \<or> (97 \<le> n \<and> n \<le> 122))"

definition safe_id :: "string \<Rightarrow> bool" where
  "safe_id s = (case s of [] \<Rightarrow> False
     | c # cs \<Rightarrow> safe_id_char c \<and> length cs \<le> 127 \<and>
         list_all (\<lambda>d. safe_id_char d \<or> d \<in> {CHR ''.'', CHR ''_'', CHR ''-''}) cs)"

definition is_sha256 :: "json \<Rightarrow> bool" where
  "is_sha256 value = (case value of
     JStr s \<Rightarrow> length s = 64 \<and> list_all (\<lambda>c. let n = (of_char c :: nat) in (48 \<le> n \<and> n \<le> 57) \<or> (97 \<le> n \<and> n \<le> 102)) s
   | _ \<Rightarrow> False)"

definition validate_generation_id :: "json \<Rightarrow> exn + string" where
  "validate_generation_id value = (case value of
     JStr s \<Rightarrow> if safe_id s then Inr s
               else Inl (raise_as ''ValueError'' ''generation identifier uses an unsafe path grammar'')
   | _ \<Rightarrow> Inl (raise_as ''ValueError'' ''generation identifier uses an unsafe path grammar''))"

definition validate_acquisition_id :: "json \<Rightarrow> exn + string" where
  "validate_acquisition_id value = (case value of
     JStr s \<Rightarrow> if safe_id s then Inr s
               else Inl (raise_as ''ValueError'' ''acquisition identifier uses an unsafe path grammar'')
   | _ \<Rightarrow> Inl (raise_as ''ValueError'' ''acquisition identifier uses an unsafe path grammar''))"

definition lineage_fields :: "string list" where
  "lineage_fields = [''start'', ''end'', ''provider'', ''acquired_at'', ''action_coverage'', ''content_hash'',
     ''action_signature'']"

definition parse_date :: "iso_api \<Rightarrow> json \<Rightarrow> int option" where
  "parse_date fmt value = (case value of JStr s \<Rightarrow> date_parse fmt s | _ \<Rightarrow> None)"

definition parse_coverage :: "json \<Rightarrow> action_coverage option" where
  "parse_coverage value = (case value of
     JStr s \<Rightarrow> find (\<lambda>c. coverage_value c = s) [REPRESENTED, NOT_REPRESENTED, UNKNOWN] | _ \<Rightarrow> None)"

definition parse_provider_json :: "json \<Rightarrow> provider option" where
  "parse_provider_json value = (case value of
     JStr s \<Rightarrow> find (\<lambda>p. provider_value p = s) [YFINANCE, ALPHA_VANTAGE] | _ \<Rightarrow> None)"

text \<open>The store's parser of a segment fails on anything that is not of the schema. The service's
  parser needs the fields but takes any values for the digests, of which only texts occur in the
  model, and any time, a naive one as UTC.\<close>

definition segment_from_document :: "iso_api \<Rightarrow> json \<Rightarrow> lineage_segment option" where
  "segment_from_document fmt item =
     (if members item = None \<or> jkeys item \<noteq> set lineage_fields then None
      else (case (parse_date fmt (jget item ''start''), parse_date fmt (jget item ''end''),
                 parse_provider_json (jget item ''provider''), parse_utc_timestamp fmt (jget item ''acquired_at''),
                 parse_coverage (jget item ''action_coverage''), jget item ''content_hash'', jget item ''action_signature'') of
          (Some start, Some end_date, Some p, Inr acquired_at, Some coverage, JStr content_hash, JStr signature) \<Rightarrow>
            if start > end_date \<or> \<not> is_sha256 (JStr content_hash) \<or> signature = [] then None
            else Some \<lparr>ls_start = start, ls_end = end_date, ls_provider = p, ls_acquired_at = acquired_at,
                   ls_action_coverage = coverage, ls_content_hash = content_hash, ls_action_signature = signature\<rparr>
        | _ \<Rightarrow> None))"

definition lineage_from_document :: "(string \<Rightarrow> string) \<Rightarrow> iso_api \<Rightarrow> json \<Rightarrow> exn + lineage_segment list" where
  "lineage_from_document redact fmt value =
     (case value of
        JList items \<Rightarrow> map_result (\<lambda>item. case segment_from_document fmt item of Some g \<Rightarrow> Inr g
          | None \<Rightarrow> Inl (acquisition_error redact CachePublicationError
              ''embedded acquisition manifest lineage is incompatible'' None)) items
      | _ \<Rightarrow> Inl (acquisition_error redact CachePublicationError
              ''embedded acquisition manifest lineage is incompatible'' None))"

definition as_utc :: "datetime \<times> int option \<Rightarrow> datetime" where
  "as_utc x = fst x"

fun text_of :: "json \<Rightarrow> string" where
  "text_of (JStr s) = s"
| "text_of _ = []"

definition cached_segment :: "iso_api \<Rightarrow> json \<Rightarrow> lineage_segment option" where
  "cached_segment fmt item =
     (if \<not> set lineage_fields \<subseteq> jkeys item then None
      else (case (parse_date fmt (jget item ''start''), parse_date fmt (jget item ''end''),
           parse_provider_json (jget item ''provider''),
           (case jget item ''acquired_at'' of JStr s \<Rightarrow> iso_parse fmt s | _ \<Rightarrow> None),
           parse_coverage (jget item ''action_coverage'')) of
        (Some start, Some end_date, Some p, Some t, Some coverage) \<Rightarrow>
          Some \<lparr>ls_start = start, ls_end = end_date, ls_provider = p, ls_acquired_at = as_utc t,
            ls_action_coverage = coverage, ls_content_hash = text_of (jget item ''content_hash''),
            ls_action_signature = text_of (jget item ''action_signature'')\<rparr>
      | _ \<Rightarrow> None))"

definition cached_lineage :: "iso_api \<Rightarrow> json option \<Rightarrow> lineage_segment list" where
  "cached_lineage fmt manifest = (case manifest of
     None \<Rightarrow> []
   | Some doc \<Rightarrow> (case jget doc ''lineage'' of
       JList items \<Rightarrow>
         let segments = map (cached_segment fmt) (filter (\<lambda>item. members item \<noteq> None) items)
         in if list_ex (\<lambda>g. g = None) segments then [] else map the segments
     | _ \<Rightarrow> []))"

definition cached_completed_at :: "iso_api \<Rightarrow> json option \<Rightarrow> datetime option" where
  "cached_completed_at fmt manifest = (case manifest of
     None \<Rightarrow> None
   | Some doc \<Rightarrow> (case jget doc ''completed_at'' of
       JStr s \<Rightarrow> map_option as_utc (iso_parse fmt s) | _ \<Rightarrow> None))"

definition cached_output_hash :: "json option \<Rightarrow> string option" where
  "cached_output_hash manifest = (case manifest of
     None \<Rightarrow> None | Some doc \<Rightarrow> (case jget doc ''output_hash'' of JStr s \<Rightarrow> Some s | _ \<Rightarrow> None))"

section \<open>Reading what was written\<close>

lemma map_of_filter_key: "map_of kvs k = (case filter (\<lambda>x. fst x = k) kvs of [] \<Rightarrow> None | x # _ \<Rightarrow> Some (snd x))"
  by (induction kvs) auto

lemma map_of_sort_key [simp]: "map_of (sort_key fst kvs) = map_of kvs"
  by (rule ext) (simp add: map_of_filter_key sort_key_stable)

lemma jget_sorted [simp]: "jget (json_sorted v) k = json_sorted (jget v k)"
proof (cases v)
  case (JObj kvs)
  then show ?thesis by (simp add: map_of_map split: option.split)
qed simp_all

lemma jkeys_sorted [simp]: "jkeys (json_sorted v) = jkeys v"
  by (cases v) (auto simp: image_image split_beta)

lemma members_sorted [simp]: "members (json_sorted v) = None \<longleftrightarrow> members v = None"
  by (cases v) auto

lemma parse_simps [simp]:
  "iso_ok fmt \<Longrightarrow> parse_date fmt (JStr (date_text fmt d)) = Some d"
  "iso_ok fmt \<Longrightarrow> parse_utc_timestamp fmt (JStr (iso_text fmt t)) = Inr t"
  "parse_provider_json (JStr (provider_value p)) = Some p"
  "parse_coverage (JStr (coverage_value c)) = Some c"
proof -
  show "parse_provider_json (JStr (provider_value p)) = Some p"
    by (cases p) (simp_all add: parse_provider_json_def)
  show "parse_coverage (JStr (coverage_value c)) = Some c"
    by (cases c) (simp_all add: parse_coverage_def)
qed (simp_all add: iso_ok_def parse_date_def parse_utc_timestamp_def)

lemma segment_dict_simps [simp]:
  "members (segment_to_dict redact fmt g) \<noteq> None" "jkeys (segment_to_dict redact fmt g) = set lineage_fields"
  "jget (segment_to_dict redact fmt g) ''start'' = JStr (date_text fmt (ls_start g))"
  "jget (segment_to_dict redact fmt g) ''end'' = JStr (date_text fmt (ls_end g))"
  "jget (segment_to_dict redact fmt g) ''provider'' = JStr (provider_value (ls_provider g))"
  "jget (segment_to_dict redact fmt g) ''acquired_at'' = JStr (iso_text fmt (ls_acquired_at g))"
  "jget (segment_to_dict redact fmt g) ''action_coverage'' = JStr (coverage_value (ls_action_coverage g))"
  "jget (segment_to_dict redact fmt g) ''content_hash'' = JStr (redact (ls_content_hash g))"
  "jget (segment_to_dict redact fmt g) ''action_signature'' = JStr (redact (ls_action_signature g))"
  by (simp_all add: segment_to_dict_def lineage_fields_def)

lemma segment_dict_sorted [simp]:
  "json_sorted (segment_to_dict redact fmt g) \<noteq> JNull" by (simp add: segment_to_dict_def)

text \<open>A segment that the store accepts when it reads it back: its dates are in order and its digests
  are digests that the redaction of text leaves alone.\<close>

definition storable_segment :: "(string \<Rightarrow> string) \<Rightarrow> lineage_segment \<Rightarrow> bool" where
  "storable_segment redact g \<longleftrightarrow> ls_start g \<le> ls_end g \<and> is_sha256 (JStr (ls_content_hash g)) \<and>
     ls_action_signature g \<noteq> [] \<and> redact (ls_content_hash g) = ls_content_hash g \<and>
     redact (ls_action_signature g) = ls_action_signature g"

lemma segment_parsed:
  assumes "iso_ok fmt" and "storable_segment redact g"
  shows "segment_from_document fmt (json_sorted (segment_to_dict redact fmt g)) = Some g"
    and "cached_segment fmt (json_sorted (segment_to_dict redact fmt g)) = Some g"
proof -
  from assms(2) have "\<not> ls_start g > ls_end g" "is_sha256 (JStr (ls_content_hash g))" "ls_action_signature g \<noteq> []"
      "redact (ls_content_hash g) = ls_content_hash g" "redact (ls_action_signature g) = ls_action_signature g"
    by (simp_all add: storable_segment_def)
  then show "segment_from_document fmt (json_sorted (segment_to_dict redact fmt g)) = Some g"
    using assms(1) by (simp add: segment_from_document_def)
  show "cached_segment fmt (json_sorted (segment_to_dict redact fmt g)) = Some g"
    using assms by (simp add: cached_segment_def storable_segment_def as_utc_def iso_ok_def)
qed

text \<open>C29: a lineage survives storage. The document that a manifest is written as, with its keys sorted,
  gives the same segments back to the store's strict parser and to the service's lenient one, and
  the time of completion.\<close>

theorem lineage_document_roundtrip:
  assumes "iso_ok fmt" and "\<forall>g \<in> set (mf_lineage m). storable_segment redact g"
  shows "lineage_from_document redact fmt (jget (json_sorted (manifest_to_dict redact fmt m)) ''lineage'') = Inr (mf_lineage m) \<and>
    cached_lineage fmt (Some (json_sorted (manifest_to_dict redact fmt m))) = mf_lineage m \<and>
    cached_completed_at fmt (Some (json_sorted (manifest_to_dict redact fmt m))) = mf_completed_at m"
proof (intro conjI)
  let ?items = "map json_sorted (map (segment_to_dict redact fmt) (mf_lineage m))"
  have lin: "jget (json_sorted (manifest_to_dict redact fmt m)) ''lineage'' = JList ?items"
    by (simp add: manifest_to_dict_def)
  have "map_result (\<lambda>item. case segment_from_document fmt item of Some g \<Rightarrow> Inr g
      | None \<Rightarrow> Inl (acquisition_error redact CachePublicationError
          ''embedded acquisition manifest lineage is incompatible'' None)) ?items = Inr (mf_lineage m)"
    using assms by (auto simp: map_result_Inr list_all2_conv_all_nth segment_parsed)
  then show "lineage_from_document redact fmt (jget (json_sorted (manifest_to_dict redact fmt m)) ''lineage'')
      = Inr (mf_lineage m)"
    unfolding lin by (simp add: lineage_from_document_def)
  have "filter (\<lambda>item. members item \<noteq> None) ?items = ?items"
    by (rule filter_True) (auto simp del: not_None_eq)
  moreover have "map (cached_segment fmt) ?items = map Some (mf_lineage m)"
    using assms by (auto simp: segment_parsed)
  ultimately show "cached_lineage fmt (Some (json_sorted (manifest_to_dict redact fmt m))) = mf_lineage m"
    unfolding cached_lineage_def option.case lin by (auto simp: Let_def list_ex_iff o_def intro!: map_idI)
  have "jget (json_sorted (manifest_to_dict redact fmt m)) ''completed_at'' = jopt (\<lambda>t. JStr (iso_text fmt t)) (mf_completed_at m)"
    by (simp add: manifest_to_dict_def jopt_def split: option.split)
  then show "cached_completed_at fmt (Some (json_sorted (manifest_to_dict redact fmt m))) = mf_completed_at m"
    using assms(1) unfolding cached_completed_at_def option.case
    by (simp add: jopt_def as_utc_def iso_ok_def split: option.split)
qed

section \<open>An instance of the date texts\<close>

definition int_text :: "int \<Rightarrow> string" where
  "int_text n = (if n < 0 then CHR ''-'' else CHR ''+'') # nat_str (nat \<bar>n\<bar>)"

definition int_parse :: "string \<Rightarrow> int option" where
  "int_parse s = (case s of [] \<Rightarrow> None
     | c # ds \<Rightarrow> Some ((if c = CHR ''-'' then - 1 else 1) * int (fold (\<lambda>d n. 10 * n + (of_char d - 48)) ds 0)))"

lemma nat_str_parse: "fold (\<lambda>d n. 10 * n + (of_char d - 48)) (nat_str n) 0 = (n :: nat)"
proof (induction n rule: nat_str.induct)
  case (1 n)
  then show ?case by (subst nat_str.simps) auto
qed

lemma int_text_parse: "int_parse (int_text n) = Some n"
  by (auto simp: int_parse_def int_text_def nat_str_parse)

definition demo_fmt :: iso_api where
  "demo_fmt = \<lparr>iso_text = int_text, iso_parse = (\<lambda>s. map_option (\<lambda>n. (n, Some 0)) (int_parse s)),
     date_text = int_text, date_parse = int_parse\<rparr>"

lemma demo_fmt_ok: "iso_ok demo_fmt"
  by (simp add: iso_ok_def demo_fmt_def int_text_parse)

definition demo_manifest :: acquisition_manifest where
  "demo_manifest = \<lparr>mf_acquisition_id = ''a1'', mf_request = demo_request, mf_status = SUCCESS,
     mf_schema_version = CONTRACT_VERSION, mf_quality_policy = default_quality_policy,
     mf_retry_policy = default_retry_policy, mf_environment_versions = [],
     mf_cache = \<lparr>ce_status = MISS, ce_generation_id = None, ce_cache_key = None, ce_compatibility_reason = None,
       ce_covered_sessions = 0, ce_missing_sessions = 0\<rparr>,
     mf_attempts = [], mf_provider_skips = [], mf_findings = [], mf_rejected_rows = [],
     mf_lineage = [demo_segment\<lparr>ls_content_hash := replicate 64 (CHR ''0'')\<rparr>], mf_counters = [], mf_coverage = None,
     mf_output_hash = None, mf_duration_seconds = None, mf_started_at = Some 5, mf_completed_at = Some 9\<rparr>"

lemma lineage_document_roundtrip_witness:
  "cached_lineage demo_fmt (Some (json_sorted (manifest_to_dict (\<lambda>s. s) demo_fmt demo_manifest))) =
     [demo_segment\<lparr>ls_content_hash := replicate 64 (CHR ''0'')\<rparr>]"
proof -
  have "\<forall>g \<in> set (mf_lineage demo_manifest). storable_segment (\<lambda>s. s) g"
    by (simp add: demo_manifest_def demo_segment_def storable_segment_def is_sha256_def list_all_iff)
  moreover have "mf_lineage demo_manifest = [demo_segment\<lparr>ls_content_hash := replicate 64 (CHR ''0'')\<rparr>]"
    by (simp add: demo_manifest_def)
  ultimately show ?thesis using lineage_document_roundtrip [OF demo_fmt_ok, of demo_manifest "\<lambda>s. s"] by simp
qed

end
