(* ===== verification/Files.thy ===== *)
theory Files
  imports Documents
begin

text \<open>
  The file systems that the store and the manifest archive write to. A file system maps a path,
  the list of its components below the configured root, to what is seen there when links on the
  way are followed. The content of a file is what its reader decodes: a JSON text, a parquet
  frame, or bytes that are neither. Every writing call may fail: the world says which of its
  calls raise \<open>OSError\<close>, so a statement about every world covers every failure, and a crash is a
  failure of all calls from some point on. \<open>fsync\<close> has no effect but its failure.
\<close>

section \<open>File systems\<close>

datatype content = JsonText json | ParquetData canonical_frame | OtherBytes string

datatype node = RegularFile content | DirectoryNode | SymbolicLink "node option"

type_synonym path = "string list"
type_synonym fs = "(path, node) dict"

fun node_target :: "node \<Rightarrow> node option" where
  "node_target (SymbolicLink None) = None"
| "node_target (SymbolicLink (Some n)) = node_target n"
| "node_target n = Some n"

definition node_at :: "fs \<Rightarrow> path \<Rightarrow> node option" where
  "node_at fs p = (case dict_get fs p of None \<Rightarrow> None | Some n \<Rightarrow> node_target n)"

definition path_exists :: "fs \<Rightarrow> path \<Rightarrow> bool" where
  "path_exists fs p \<longleftrightarrow> node_at fs p \<noteq> None"

definition is_symlink :: "fs \<Rightarrow> path \<Rightarrow> bool" where
  "is_symlink fs p \<longleftrightarrow> (case dict_get fs p of Some (SymbolicLink _) \<Rightarrow> True | _ \<Rightarrow> False)"

definition is_dir :: "fs \<Rightarrow> path \<Rightarrow> bool" where
  "is_dir fs p \<longleftrightarrow> node_at fs p = Some DirectoryNode"

definition is_file :: "fs \<Rightarrow> path \<Rightarrow> bool" where
  "is_file fs p \<longleftrightarrow> (case node_at fs p of Some (RegularFile _) \<Rightarrow> True | _ \<Rightarrow> False)"

definition read_bytes :: "fs \<Rightarrow> path \<Rightarrow> exn + content" where
  "read_bytes fs p = (case node_at fs p of
     Some (RegularFile c) \<Rightarrow> Inr c
   | Some _ \<Rightarrow> Inl (raise_as ''IsADirectoryError'' ''is a directory'')
   | None \<Rightarrow> Inl (raise_as ''FileNotFoundError'' ''no such file''))"

definition load_json_value :: "fs \<Rightarrow> path \<Rightarrow> exn + json" where
  "load_json_value fs p = rbind (read_bytes fs p) (\<lambda>c. case c of
     JsonText j \<Rightarrow> Inr j | _ \<Rightarrow> Inl (raise_as ''JSONDecodeError'' ''not a JSON text''))"

definition load_json :: "fs \<Rightarrow> path \<Rightarrow> exn + json" where
  "load_json fs p = rbind (load_json_value fs p) (\<lambda>value.
     if members value = None then Inl (raise_as ''ValueError'' ''JSON artifact must be an object'') else Inr value)"

definition read_parquet :: "fs \<Rightarrow> path \<Rightarrow> exn + canonical_frame" where
  "read_parquet fs p = rbind (read_bytes fs p) (\<lambda>c. case c of
     ParquetData f \<Rightarrow> Inr f | _ \<Rightarrow> Inl (raise_as ''ArrowInvalid'' ''not a parquet file''))"

text \<open>Writing. \<open>mkdir(parents=True)\<close> makes the missing directories of a path and raises if something
  else is in the way; \<open>open("xb")\<close> and \<open>os.link\<close> raise if the name is taken.\<close>

definition missing_directories :: "fs \<Rightarrow> path \<Rightarrow> path list" where
  "missing_directories fs p = filter (\<lambda>q. q \<noteq> [] \<and> dict_get fs q = None) (map (\<lambda>n. take n p) [0..<Suc (length p)])"

definition make_directories :: "path \<Rightarrow> bool \<Rightarrow> fs \<Rightarrow> exn + fs" where
  "make_directories p exist_ok fs =
     (if dict_get fs p \<noteq> None
      then (if exist_ok \<and> is_dir fs p then Inr fs else Inl (raise_as ''FileExistsError'' ''file exists''))
      else if list_ex (\<lambda>n. take n p \<noteq> [] \<and> dict_get fs (take n p) \<noteq> None \<and> \<not> is_dir fs (take n p)) [0..<length p]
      then Inl (raise_as ''NotADirectoryError'' ''not a directory'')
      else Inr (fold (\<lambda>q fs. dict_set fs q DirectoryNode) (missing_directories fs p) fs))"

definition create_file :: "path \<Rightarrow> content \<Rightarrow> fs \<Rightarrow> exn + fs" where
  "create_file p c fs = (if dict_get fs p \<noteq> None then Inl (raise_as ''FileExistsError'' ''file exists'')
     else Inr (dict_set fs p (RegularFile c)))"

definition overwrite_file :: "path \<Rightarrow> content \<Rightarrow> fs \<Rightarrow> exn + fs" where
  "overwrite_file p c fs = Inr (dict_set fs p (RegularFile c))"

definition link_file :: "path \<Rightarrow> path \<Rightarrow> fs \<Rightarrow> exn + fs" where
  "link_file src dst fs = (case dict_get fs src of
     None \<Rightarrow> Inl (raise_as ''FileNotFoundError'' ''no such file'')
   | Some n \<Rightarrow> if dict_get fs dst \<noteq> None then Inl (raise_as ''FileExistsError'' ''file exists'')
               else Inr (dict_set fs dst n))"

definition replace_file :: "path \<Rightarrow> path \<Rightarrow> fs \<Rightarrow> exn + fs" where
  "replace_file src dst fs = (case dict_get fs src of
     None \<Rightarrow> Inl (raise_as ''FileNotFoundError'' ''no such file'')
   | Some n \<Rightarrow> if dict_get fs dst = Some DirectoryNode then Inl (raise_as ''IsADirectoryError'' ''is a directory'')
               else Inr (dict_del (dict_set fs dst n) src))"

definition unlink_file :: "path \<Rightarrow> bool \<Rightarrow> fs \<Rightarrow> exn + fs" where
  "unlink_file p missing_ok fs = (if dict_get fs p = None \<and> \<not> missing_ok
     then Inl (raise_as ''FileNotFoundError'' ''no such file'') else Inr (dict_del fs p))"

definition remove_tree :: "path \<Rightarrow> fs \<Rightarrow> exn + fs" where
  "remove_tree p fs = (if is_symlink fs p then Inl (raise_as ''OSError'' ''Cannot call rmtree on a symbolic link'')
     else Inr (filter (\<lambda>(q, n). take (length p) q \<noteq> p) fs))"

definition children :: "fs \<Rightarrow> path \<Rightarrow> string list" where
  "children fs p = map last (filter (\<lambda>q. length q = Suc (length p) \<and> take (length p) q = p) (map fst fs))"

section \<open>Worlds\<close>

record io_world =
  io_fs :: fs
  io_archive :: fs
  io_calls :: nat
  io_fails :: "nat \<Rightarrow> bool"
  io_ids :: "nat \<Rightarrow> string"
  io_id_count :: nat
  io_clock :: "nat \<Rightarrow> datetime"
  io_clock_reads :: nat

type_synonym 'a io = "io_world \<Rightarrow> (exn + 'a) \<times> io_world"

definition io_return :: "'a \<Rightarrow> 'a io" where
  "io_return v w = (Inr v, w)"

definition io_raise :: "exn \<Rightarrow> 'a io" where
  "io_raise e w = (Inl e, w)"

definition io_bind :: "'a io \<Rightarrow> ('a \<Rightarrow> 'b io) \<Rightarrow> 'b io" where
  "io_bind m f w = (case m w of (Inl e, w') \<Rightarrow> (Inl e, w') | (Inr v, w') \<Rightarrow> f v w')"

definition io_catch :: "'a io \<Rightarrow> (exn \<Rightarrow> 'a io) \<Rightarrow> 'a io" where
  "io_catch m h w = (case m w of (Inl e, w') \<Rightarrow> h e w' | (Inr v, w') \<Rightarrow> (Inr v, w'))"

definition io_result :: "exn + 'a \<Rightarrow> 'a io" where
  "io_result r w = (r, w)"

definition io_read :: "(fs \<Rightarrow> 'a) \<Rightarrow> 'a io" where
  "io_read f w = (Inr (f (io_fs w)), w)"

text \<open>A writing call on the cache directory or on the archive.\<close>

definition io_write :: "(fs \<Rightarrow> exn + fs) \<Rightarrow> unit io" where
  "io_write f w =
     (let w1 = w\<lparr>io_calls := Suc (io_calls w)\<rparr> in
      if io_fails w (io_calls w) then (Inl (raise_as ''OSError'' ''I/O failure''), w1)
      else (case f (io_fs w) of Inl e \<Rightarrow> (Inl e, w1) | Inr fs \<Rightarrow> (Inr (), w1\<lparr>io_fs := fs\<rparr>)))"

definition io_archive_write :: "(fs \<Rightarrow> exn + fs) \<Rightarrow> unit io" where
  "io_archive_write f w =
     (let w1 = w\<lparr>io_calls := Suc (io_calls w)\<rparr> in
      if io_fails w (io_calls w) then (Inl (raise_as ''OSError'' ''I/O failure''), w1)
      else (case f (io_archive w) of Inl e \<Rightarrow> (Inl e, w1) | Inr fs \<Rightarrow> (Inr (), w1\<lparr>io_archive := fs\<rparr>)))"

definition io_sync :: "unit io" where
  "io_sync = io_write (\<lambda>fs. Inr fs)"

text \<open>\<open>with path.open("xb") as stream\<close>: the file is there, without content, before the write and the
  \<open>fsync\<close> that may fail.\<close>

definition write_new_file :: "path \<Rightarrow> content \<Rightarrow> unit io" where
  "write_new_file p c =
     io_bind (io_write (create_file p (OtherBytes []))) (\<lambda>_.
     io_bind (io_write (overwrite_file p c)) (\<lambda>_. io_sync))"

definition archive_new_file :: "path \<Rightarrow> content \<Rightarrow> unit io" where
  "archive_new_file p c =
     io_bind (io_archive_write (create_file p (OtherBytes []))) (\<lambda>_.
     io_bind (io_archive_write (overwrite_file p c)) (\<lambda>_. io_archive_write (\<lambda>fs. Inr fs)))"

definition fresh_id :: "string io" where
  "fresh_id w = (Inr (io_ids w (io_id_count w)), w\<lparr>io_id_count := Suc (io_id_count w)\<rparr>)"

definition utc_now :: "datetime io" where
  "utc_now w = (Inr (io_clock w (io_clock_reads w)), w\<lparr>io_clock_reads := Suc (io_clock_reads w)\<rparr>)"

section \<open>Rules\<close>

named_theorems io_simps \<open>equations that run computations on worlds\<close>

lemma io_run [io_simps]:
  "io_return v w = (Inr v, w)" "io_raise e w = (Inl e, w)" "io_result r w = (r, w)"
  "io_read f w = (Inr (f (io_fs w)), w)"
  "fresh_id w = (Inr (io_ids w (io_id_count w)), w\<lparr>io_id_count := Suc (io_id_count w)\<rparr>)"
  "utc_now w = (Inr (io_clock w (io_clock_reads w)), w\<lparr>io_clock_reads := Suc (io_clock_reads w)\<rparr>)"
  by (simp_all add: io_return_def io_raise_def io_result_def io_read_def fresh_id_def utc_now_def)

lemma io_bind_Inr: "io_bind m f w = (Inr b, w'') \<longleftrightarrow> (\<exists>a w'. m w = (Inr a, w') \<and> f a w' = (Inr b, w''))"
  by (auto simp: io_bind_def split: prod.splits sum.splits)

lemma io_bind_Inl: "io_bind m f w = (Inl e, w'') \<longleftrightarrow>
    m w = (Inl e, w'') \<or> (\<exists>a w'. m w = (Inr a, w') \<and> f a w' = (Inl e, w''))"
  by (auto simp: io_bind_def split: prod.splits sum.splits)

lemma io_bind_run: "io_bind m f w = (r, w'') \<longleftrightarrow>
    (\<exists>e. m w = (Inl e, w'') \<and> r = Inl e) \<or> (\<exists>a w'. m w = (Inr a, w') \<and> f a w' = (r, w''))"
  by (auto simp: io_bind_def split: prod.splits sum.splits)

lemma io_catch_run: "io_catch m h w = (r, w'') \<longleftrightarrow>
    (\<exists>a. m w = (Inr a, w'') \<and> r = Inr a) \<or> (\<exists>e w'. m w = (Inl e, w') \<and> h e w' = (r, w''))"
  by (auto simp: io_catch_def split: prod.splits sum.splits)

text \<open>A property of worlds that every call of a computation keeps, whatever it returns or raises.\<close>

definition io_keeps :: "(io_world \<Rightarrow> bool) \<Rightarrow> 'a io \<Rightarrow> bool" where
  "io_keeps P m \<longleftrightarrow> (\<forall>w. P w \<longrightarrow> P (snd (m w)))"

lemma io_keepsD: "io_keeps P m \<Longrightarrow> P w \<Longrightarrow> m w = (r, w') \<Longrightarrow> P w'"
  by (auto simp: io_keeps_def)

lemma io_keeps_basic [intro, simp]:
  "io_keeps P (io_return v)" "io_keeps P (io_raise e)" "io_keeps P (io_result r)" "io_keeps P (io_read f)"
  by (simp_all add: io_keeps_def io_simps)

lemma io_keeps_bind [intro]:
  "io_keeps P m \<Longrightarrow> (\<And>a. io_keeps P (f a)) \<Longrightarrow> io_keeps P (io_bind m f)"
  by (auto simp: io_keeps_def io_bind_def split: prod.splits sum.splits)

lemma io_keeps_catch [intro]:
  "io_keeps P m \<Longrightarrow> (\<And>e. io_keeps P (h e)) \<Longrightarrow> io_keeps P (io_catch m h)"
  by (auto simp: io_keeps_def io_catch_def split: prod.splits sum.splits)

text \<open>Properties of one of the two file systems only.\<close>

lemma io_keeps_write:
  assumes "\<And>fs fs'. Q fs \<Longrightarrow> f fs = Inr fs' \<Longrightarrow> Q fs'"
  shows "io_keeps (\<lambda>w. Q (io_fs w)) (io_write f)"
  using assms by (auto simp: io_keeps_def io_write_def Let_def split: sum.splits)

lemma io_keeps_archive_write:
  assumes "\<And>fs fs'. Q fs \<Longrightarrow> f fs = Inr fs' \<Longrightarrow> Q fs'"
  shows "io_keeps (\<lambda>w. Q (io_archive w)) (io_archive_write f)"
  using assms by (auto simp: io_keeps_def io_archive_write_def Let_def split: sum.splits)

lemma io_keeps_other [intro, simp]:
  "io_keeps (\<lambda>w. Q (io_archive w)) (io_write f)"
  "io_keeps (\<lambda>w. Q (io_fs w)) (io_archive_write f)"
  "io_keeps (\<lambda>w. Q (io_fs w)) io_sync" "io_keeps (\<lambda>w. Q (io_archive w)) io_sync"
  "io_keeps (\<lambda>w. Q (io_fs w)) fresh_id" "io_keeps (\<lambda>w. Q (io_archive w)) fresh_id"
  "io_keeps (\<lambda>w. Q (io_fs w)) utc_now" "io_keeps (\<lambda>w. Q (io_archive w)) utc_now"
  by (auto simp: io_keeps_def io_write_def io_archive_write_def io_sync_def io_simps Let_def split: sum.splits)

lemma io_write_Inr:
  "io_write f w = (Inr u, w') \<longleftrightarrow>
     (\<exists>fs. \<not> io_fails w (io_calls w) \<and> f (io_fs w) = Inr fs \<and> w' = w\<lparr>io_calls := Suc (io_calls w), io_fs := fs\<rparr>)"
  by (auto simp: io_write_def Let_def split: sum.splits)

lemma io_sync_Inr:
  "io_sync w = (Inr u, w') \<longleftrightarrow> \<not> io_fails w (io_calls w) \<and> w' = w\<lparr>io_calls := Suc (io_calls w)\<rparr>"
  by (auto simp: io_sync_def io_write_Inr)

lemma io_archive_write_Inr:
  "io_archive_write f w = (Inr u, w') \<longleftrightarrow>
     (\<exists>fs. \<not> io_fails w (io_calls w) \<and> f (io_archive w) = Inr fs \<and> w' = w\<lparr>io_calls := Suc (io_calls w), io_archive := fs\<rparr>)"
  by (auto simp: io_archive_write_def Let_def split: sum.splits)

lemma node_at_set [simp]: "node_at (dict_set fs p n) q = (if q = p then node_target n else node_at fs q)"
  by (simp add: node_at_def dict_laws)

lemma node_at_del [simp]: "node_at (dict_del fs p) q = (if q = p then None else node_at fs q)"
  by (simp add: node_at_def dict_laws)

lemma fold_directories: "dict_get (fold (\<lambda>q fs. dict_set fs q DirectoryNode) qs fs) p =
    (if p \<in> set qs then Some DirectoryNode else dict_get fs p)"
  by (induction qs arbitrary: fs) (auto simp: dict_laws)

lemma make_directories_get:
  assumes "make_directories p ok fs = Inr fs'"
  shows "dict_get fs q = Some n \<Longrightarrow> dict_get fs' q = Some n"
    and "dict_get fs q = None \<Longrightarrow> dict_get fs' q = Some n \<Longrightarrow> n = DirectoryNode \<and> q = take (length q) p"
proof -
  have missing: "q \<in> set (missing_directories fs p) \<Longrightarrow> dict_get fs q = None \<and> q = take (length q) p"
    by (auto simp: missing_directories_def min_def split: if_splits)
  have "fs' = fs \<or> fs' = fold (\<lambda>q fs. dict_set fs q DirectoryNode) (missing_directories fs p) fs"
    using assms by (auto simp: make_directories_def split: if_splits)
  then show "dict_get fs q = Some n \<Longrightarrow> dict_get fs' q = Some n"
    and "dict_get fs q = None \<Longrightarrow> dict_get fs' q = Some n \<Longrightarrow> n = DirectoryNode \<and> q = take (length q) p"
    using missing by (auto simp: fold_directories split: if_splits)
qed

text \<open>A new file, if it is written, is the only change; if it is not, no other node changes.\<close>

lemma new_file_Inr:
  "write_new_file p c w = (Inr u, w') \<Longrightarrow> dict_get (io_fs w) p = None \<and> io_archive w' = io_archive w \<and>
     dict_get (io_fs w') p = Some (RegularFile c) \<and> (\<forall>q. q \<noteq> p \<longrightarrow> dict_get (io_fs w') q = dict_get (io_fs w) q)"
  "archive_new_file p c w = (Inr u, w') \<Longrightarrow> dict_get (io_archive w) p = None \<and> io_fs w' = io_fs w \<and>
     dict_get (io_archive w') p = Some (RegularFile c) \<and>
     (\<forall>q. q \<noteq> p \<longrightarrow> dict_get (io_archive w') q = dict_get (io_archive w) q)"
  by (auto simp: write_new_file_def archive_new_file_def io_bind_Inr io_write_Inr io_archive_write_Inr io_sync_Inr
      create_file_def overwrite_file_def dict_laws split: if_splits)

end
