(* ===== verification/Manifest_Repository.thy ===== *)
theory Manifest_Repository
  imports Files
begin

text \<open>
  The archive of acquisition reports, \<open>src/data/manifest.py\<close>: admission of a request under a fresh
  identifier, the append-only archiving of a report, its lookup, and the optional copy to a
  destination of the caller's choice, in the model a path of the archive's file system. Names of
  temporary files come from the same source of identifiers as the acquisition identifiers.
\<close>

section \<open>Model\<close>

record acquisition_admission =
  ad_acquisition_id :: string
  ad_request :: acquisition_request
  ad_admitted_at :: datetime

definition validated_id :: "(string \<Rightarrow> string) \<Rightarrow> json \<Rightarrow> exn + string" where
  "validated_id redact value = (case value of
     JStr s \<Rightarrow> if safe_id s then Inr s
       else Inl (acquisition_error redact ManifestError ''acquisition identifier uses an unsafe path grammar'' None)
   | _ \<Rightarrow> Inl (acquisition_error redact ManifestError ''acquisition identifier uses an unsafe path grammar'' None))"

definition admit :: "(string \<Rightarrow> string) \<Rightarrow> raw_request \<Rightarrow> acquisition_admission io" where
  "admit redact raw =
     io_bind (io_result (case acquisition_request_init raw of
         Inl (cls, message) \<Rightarrow> Inl (acquisition_error redact cls message None) | Inr r \<Rightarrow> Inr r)) (\<lambda>request.
     io_bind fresh_id (\<lambda>i.
     io_bind (io_result (validated_id redact (JStr i))) (\<lambda>acquisition_id.
     io_bind utc_now (\<lambda>admitted_at.
       io_return \<lparr>ad_acquisition_id = acquisition_id, ad_request = request, ad_admitted_at = admitted_at\<rparr>))))"

definition archive_directory :: "digest_api \<Rightarrow> string \<Rightarrow> path" where
  "archive_directory api acquisition_id = [''v'' @ CONTRACT_VERSION, take 2 (sha256_hexdigest api acquisition_id)]"

definition archive_path :: "digest_api \<Rightarrow> string \<Rightarrow> path" where
  "archive_path api acquisition_id = archive_directory api acquisition_id @ [acquisition_id @ ''.json'']"

definition temporary_path :: "digest_api \<Rightarrow> string \<Rightarrow> string \<Rightarrow> path" where
  "temporary_path api acquisition_id hex =
     archive_directory api acquisition_id @ [''.'' @ acquisition_id @ ''.'' @ hex @ ''.tmp'']"

definition artifact_error :: "(string \<Rightarrow> string) \<Rightarrow> string \<Rightarrow> exn" where
  "artifact_error redact message = acquisition_error redact ArtifactError message None"

definition io_finally :: "'a io \<Rightarrow> unit io \<Rightarrow> 'a io" where
  "io_finally m cleanup w = (case m w of (r, w1) \<Rightarrow>
     (case cleanup w1 of (Inl e, w2) \<Rightarrow> (Inl e, w2) | (Inr _, w2) \<Rightarrow> (r, w2)))"

definition read_archived :: "path \<Rightarrow> content io" where
  "read_archived p w = (read_bytes (io_archive w) p, w)"

text \<open>Linking the temporary file to its destination; a destination that another process has made in
  the meantime is accepted if it has the same content.\<close>

definition link_report :: "(string \<Rightarrow> string) \<Rightarrow> path \<Rightarrow> path \<Rightarrow> content \<Rightarrow> unit io" where
  "link_report redact tmp destination payload =
     io_catch (io_archive_write (link_file tmp destination)) (\<lambda>e.
       if exn_class e = External ''FileExistsError''
       then io_bind (read_archived destination) (\<lambda>existing.
         if existing \<noteq> payload
         then io_raise (artifact_error redact ''acquisition identifier already has a different archived report'')
         else io_return ())
       else io_raise e)"

definition write_report :: "(string \<Rightarrow> string) \<Rightarrow> digest_api \<Rightarrow> string \<Rightarrow> content \<Rightarrow> unit io" where
  "write_report redact api safe payload =
     io_bind (io_archive_write (make_directories (archive_directory api safe) True)) (\<lambda>_.
     io_bind fresh_id (\<lambda>hex.
     let tmp = temporary_path api safe hex in
     io_bind (archive_new_file tmp payload) (\<lambda>_.
     io_bind (io_finally (link_report redact tmp (archive_path api safe) payload)
               (io_archive_write (unlink_file tmp True))) (\<lambda>_.
     io_archive_write (\<lambda>fs. Inr fs)))))"

definition append_report :: "(string \<Rightarrow> string) \<Rightarrow> digest_api \<Rightarrow> string \<Rightarrow> content \<Rightarrow> unit io" where
  "append_report redact api safe payload =
     io_catch (write_report redact api safe payload)
      (\<lambda>e. if is_os_error e then io_raise (artifact_error redact ''manifest archive publication failed'')
           else io_raise e)"

definition archive_document :: "(string \<Rightarrow> string) \<Rightarrow> digest_api \<Rightarrow> string \<Rightarrow> json \<Rightarrow> unit io" where
  "archive_document redact api acquisition_id document w =
     (case validated_id redact (JStr acquisition_id) of
        Inl e \<Rightarrow> (Inl e, w)
      | Inr safe \<Rightarrow>
          let serializable = json_safe_json redact document;
              payload = JsonText (json_sorted serializable);
              destination = archive_path api safe
          in if members serializable = None
             then (Inl (artifact_error redact ''manifest document must be a JSON object''), w)
             else if jget serializable ''acquisition_id'' \<noteq> JStr safe
             then (Inl (artifact_error redact ''manifest acquisition identifier does not match archive path''), w)
             else if jget serializable ''schema_version'' \<noteq> JStr CONTRACT_VERSION
             then (Inl (artifact_error redact ''manifest schema version is incompatible''), w)
             else if path_exists (io_archive w) destination
             then (if is_symlink (io_archive w) destination \<or> \<not> is_file (io_archive w) destination
                   then (Inl (artifact_error redact ''existing manifest archive is not a regular file''), w)
                   else (case read_bytes (io_archive w) destination of
                       Inl e \<Rightarrow> (Inl (artifact_error redact ''existing manifest archive cannot be read''), w)
                     | Inr existing \<Rightarrow>
                         if existing = payload then (Inr (), w)
                         else (Inl (artifact_error redact ''acquisition identifier already has a different archived report''), w)))
             else append_report redact api safe payload w)"

definition archive_manifest :: "(string \<Rightarrow> string) \<Rightarrow> digest_api \<Rightarrow> iso_api \<Rightarrow> acquisition_manifest \<Rightarrow> unit io" where
  "archive_manifest redact api fmt manifest =
     (if mf_started_at manifest = None \<or> mf_completed_at manifest = None
      then io_raise (artifact_error redact ''admitted reports require started_at and completed_at'')
      else archive_document redact api (mf_acquisition_id manifest) (manifest_to_dict redact fmt manifest))"

definition lookup_report :: "(string \<Rightarrow> string) \<Rightarrow> digest_api \<Rightarrow> fs \<Rightarrow> string \<Rightarrow> exn + json option" where
  "lookup_report redact api archive acquisition_id =
     rbind (validated_id redact (JStr acquisition_id)) (\<lambda>safe.
       let p = archive_path api safe in
       if \<not> path_exists archive p then Inr None
       else if is_symlink archive p \<or> \<not> is_file archive p
       then Inl (acquisition_error redact ManifestError ''archived manifest is not a regular file'' None)
       else (case load_json_value archive p of
           Inl e \<Rightarrow> Inl (acquisition_error redact ManifestError ''archived manifest is corrupt'' None)
         | Inr value \<Rightarrow>
             if members value = None \<or> jget value ''acquisition_id'' \<noteq> JStr acquisition_id
             then Inl (acquisition_error redact ManifestError ''archived manifest violates its identifier contract'' None)
             else Inr (Some value)))"

text \<open>The copy of a report that a caller asks for after the commit; a failure is a warning.\<close>

definition copy_report :: "(string \<Rightarrow> string) \<Rightarrow> iso_api \<Rightarrow> acquisition_manifest \<Rightarrow> path \<Rightarrow> string option io" where
  "copy_report redact fmt manifest target =
     io_bind (io_archive_write (make_directories (butlast target) True)) (\<lambda>_.
     io_bind fresh_id (\<lambda>hex.
     let tmp = butlast target @ [''.'' @ last target @ ''.'' @ hex @ ''.tmp''] in
     io_bind (archive_new_file tmp (JsonText (json_sorted (manifest_to_dict redact fmt manifest)))) (\<lambda>_.
     io_bind (io_archive_write (replace_file tmp target)) (\<lambda>_.
     io_bind (io_archive_write (\<lambda>fs. Inr fs)) (\<lambda>_. io_return None)))))"

definition write_optional_copy ::
    "(string \<Rightarrow> string) \<Rightarrow> iso_api \<Rightarrow> acquisition_manifest \<Rightarrow> path \<Rightarrow> string option io" where
  "write_optional_copy redact fmt manifest target w =
     (if path_exists (io_archive w) target \<and> (is_dir (io_archive w) target \<or> is_symlink (io_archive w) target)
      then (Inr (Some ''optional manifest destination is not a regular file''), w)
      else io_catch (copy_report redact fmt manifest target)
        (\<lambda>e. if is_os_error e then io_return (Some ''optional manifest copy failed'') else io_raise e) w)"

section \<open>The archive only grows\<close>

definition fs_extends :: "fs \<Rightarrow> fs \<Rightarrow> bool" where
  "fs_extends old new \<longleftrightarrow> (\<forall>p n. dict_get old p = Some n \<longrightarrow> dict_get new p = Some n)"

lemma fs_extends_refl [simp]: "fs_extends fs fs"
  by (simp add: fs_extends_def)

lemma fs_extends_steps:
  assumes "fs_extends old fs"
  shows "make_directories p ok fs = Inr fs' \<Longrightarrow> fs_extends old fs'"
    and "create_file p c fs = Inr fs' \<Longrightarrow> fs_extends old fs' "
    and "link_file src dst fs = Inr fs' \<Longrightarrow> fs_extends old fs'"
    and "dict_get old p = None \<Longrightarrow> unlink_file p b fs = Inr fs' \<Longrightarrow> fs_extends old fs'"
  using assms make_directories_get(1) [of p ok fs fs']
  by (auto simp: fs_extends_def create_file_def link_file_def unlink_file_def dict_laws split: if_splits option.splits)

text \<open>What the calls of a computation keep: the cache directory, and every node of the archive.\<close>

abbreviation archive_grows :: "fs \<Rightarrow> fs \<Rightarrow> io_world \<Rightarrow> bool" where
  "archive_grows cache old w \<equiv> io_fs w = cache \<and> fs_extends old (io_archive w)"

lemma io_finally_run: "io_finally m cleanup w = (r, w') \<longleftrightarrow>
    (\<exists>r1 w1 r2. m w = (r1, w1) \<and> cleanup w1 = (r2, w') \<and> r = (case r2 of Inl e \<Rightarrow> Inl e | Inr _ \<Rightarrow> r1))"
  by (auto simp: io_finally_def split: prod.splits sum.splits)

lemma io_finally_Inr: "io_finally m cleanup w = (Inr a, w') \<longleftrightarrow>
    (\<exists>w1 u. m w = (Inr a, w1) \<and> cleanup w1 = (Inr u, w'))"
  by (auto simp: io_finally_def split: prod.splits sum.splits)

lemma io_finally_Inl: "io_finally m cleanup w = (Inl e, w') \<longleftrightarrow>
    (\<exists>r w1. m w = (r, w1) \<and> cleanup w1 = (Inl e, w')) \<or> (\<exists>w1 u. m w = (Inl e, w1) \<and> cleanup w1 = (Inr u, w'))"
  by (auto simp: io_finally_def split: prod.splits sum.splits)

lemma archive_write_grows:
  assumes "io_archive_write f w = (r, w')" and "archive_grows cache old w"
    and "\<And>fs fs'. fs_extends old fs \<Longrightarrow> f fs = Inr fs' \<Longrightarrow> fs_extends old fs'"
  shows "archive_grows cache old w'"
  using assms by (auto simp: io_archive_write_def Let_def split: if_splits sum.splits)

lemma archive_new_file_grows:
  assumes "archive_new_file p c w = (r, w')" and "archive_grows cache old w"
  shows "archive_grows cache old w'"
proof -
  obtain r1 w1 where w1: "io_archive_write (create_file p (OtherBytes [])) w = (r1, w1)" by fastforce
  have g1: "archive_grows cache old w1"
    by (rule archive_write_grows [OF w1 assms(2)]) (rule fs_extends_steps(2))
  obtain r2 w2 where w2: "io_archive_write (overwrite_file p c) w1 = (r2, w2)" by fastforce
  have g2: "r1 = Inr () \<Longrightarrow> archive_grows cache old w2"
  proof (rule archive_write_grows [OF w2 g1])
    fix fs fs' assume r1: "r1 = Inr ()" and fs: "fs_extends old fs" "overwrite_file p c fs = Inr fs'"
    from w1 r1 assms(2) have "dict_get old p = None"
      by (cases "dict_get old p") (auto simp: io_archive_write_Inr create_file_def fs_extends_def split: if_splits)
    with fs show "fs_extends old fs'" by (auto simp: overwrite_file_def fs_extends_def dict_laws)
  qed
  obtain r3 w3 where w3: "io_archive_write (\<lambda>fs. Inr fs) w2 = (r3, w3)" by fastforce
  have "r1 = Inr () \<Longrightarrow> archive_grows cache old w3"
    by (rule archive_write_grows [OF w3 g2]) auto
  then show ?thesis using assms(1) w1 w2 w3 g1 g2 by (auto simp: archive_new_file_def io_bind_run)
qed

lemma link_report_grows:
  assumes "link_report redact tmp destination payload w = (r, w')" and "archive_grows cache old w"
  shows "archive_grows cache old w'"
proof -
  obtain r1 w1 where w1: "io_archive_write (link_file tmp destination) w = (r1, w1)" by fastforce
  have "archive_grows cache old w1"
    by (rule archive_write_grows [OF w1 assms(2)]) (rule fs_extends_steps(3))
  moreover have "w' = w1"
    using assms(1) w1 by (auto simp: link_report_def io_catch_def io_bind_def read_archived_def io_simps
        split: sum.splits if_splits)
  ultimately show ?thesis by simp
qed

lemma write_report_grows:
  assumes "write_report redact api safe payload w = (r, w')" and grow: "archive_grows cache old w"
  shows "archive_grows cache old w'"
proof -
  let ?tmp = "temporary_path api safe (io_ids w (io_id_count w))"
  obtain r1 w1 where w1: "io_archive_write (make_directories (archive_directory api safe) True) w = (r1, w1)" by fastforce
  have g1: "archive_grows cache old w1"
    by (rule archive_write_grows [OF w1 grow]) (rule fs_extends_steps(1))
  have id1: "io_ids w1 (io_id_count w1) = io_ids w (io_id_count w)"
    using w1 by (auto simp: io_archive_write_def Let_def split: if_splits sum.splits)
  let ?w2 = "w1\<lparr>io_id_count := Suc (io_id_count w1)\<rparr>"
  obtain r3 w3 where w3: "archive_new_file ?tmp payload ?w2 = (r3, w3)" by fastforce
  have g3: "archive_grows cache old w3"
    by (rule archive_new_file_grows [OF w3]) (use g1 in simp)
  obtain r4 w4 where w4: "link_report redact ?tmp (archive_path api safe) payload w3 = (r4, w4)" by fastforce
  note g4 = link_report_grows [OF w4 g3]
  obtain r5 w5 where w5: "io_archive_write (unlink_file ?tmp True) w4 = (r5, w5)" by fastforce
  obtain r6 w6 where w6: "io_archive_write (\<lambda>fs. Inr fs) w5 = (r6, w6)" by fastforce
  have g5: "r3 = Inr () \<Longrightarrow> archive_grows cache old w5"
  proof (rule archive_write_grows [OF w5 g4])
    fix fs fs' assume r3: "r3 = Inr ()" and fs: "fs_extends old fs" "unlink_file ?tmp True fs = Inr fs'"
    from w3 r3 have "dict_get (io_archive w1) ?tmp = None"
      by (auto dest: new_file_Inr(2))
    with g1 have "dict_get old ?tmp = None" by (cases "dict_get old ?tmp") (auto simp: fs_extends_def)
    with fs show "fs_extends old fs'" by (blast intro: fs_extends_steps(4))
  qed
  have "archive_grows cache old w6" if "r3 = Inr ()"
    by (rule archive_write_grows [OF w6 g5 [OF that]]) auto
  moreover have "w' = w1 \<or> w' = w3 \<or> (r3 = Inr () \<and> (w' = w5 \<or> w' = w6))"
    using assms(1) w1 w3 w4 w5 w6 id1
    by (auto simp: write_report_def io_bind_run io_finally_run io_simps Let_def split: sum.splits)
  ultimately show ?thesis using g1 g3 g5 by blast
qed

lemma append_report_run:
  assumes "append_report redact api safe payload w = (r, w')"
  obtains r' where "write_report redact api safe payload w = (r', w')"
    "r = (case r' of Inr u \<Rightarrow> Inr u | Inl e \<Rightarrow>
      Inl (if is_os_error e then artifact_error redact ''manifest archive publication failed'' else e))"
proof -
  obtain r' w1 where m: "write_report redact api safe payload w = (r', w1)" by fastforce
  have "w' = w1 \<and> r = (case r' of Inr u \<Rightarrow> Inr u | Inl e \<Rightarrow>
      Inl (if is_os_error e then artifact_error redact ''manifest archive publication failed'' else e))"
    using assms m by (cases r') (auto simp: append_report_def io_catch_def io_simps split: if_splits)
  with m that show ?thesis by blast
qed

text \<open>The temporary name of a report is not the name of a report.\<close>

lemma temporary_path_distinct: "safe_id safe \<Longrightarrow> temporary_path api safe hex \<noteq> archive_path api safe"
  by (cases safe) (auto simp: temporary_path_def archive_path_def safe_id_def safe_id_char_def)

lemma make_directories_file:
  assumes "make_directories (archive_directory api safe) ok fs = Inr fs'"
  shows "dict_get fs' (archive_path api safe) = dict_get fs (archive_path api safe)"
proof (cases "dict_get fs (archive_path api safe)")
  case None
  have "archive_path api safe \<noteq> take (length (archive_path api safe)) (archive_directory api safe)"
    by (simp add: archive_path_def archive_directory_def)
  with None make_directories_get(2) [OF assms, of "archive_path api safe"] show ?thesis
    by (cases "dict_get fs' (archive_path api safe)") auto
qed (use make_directories_get(1) [OF assms] in simp)

lemma link_report_Inr:
  assumes "link_report redact tmp dst payload w = (Inr (), w')"
    and "dict_get (io_archive w) tmp = Some (RegularFile payload)" and "tmp \<noteq> dst" and "node_at (io_archive w) dst = None"
  shows "dict_get (io_archive w') dst = Some (RegularFile payload)"
  using assms
  by (auto simp: link_report_def io_catch_run io_bind_run io_simps io_archive_write_Inr link_file_def read_archived_def
      read_bytes_def io_archive_write_def Let_def node_at_def dict_laws split: if_splits option.splits sum.splits)

lemma write_report_Inr:
  assumes "write_report redact api safe payload w = (Inr (), w')" and "safe_id safe"
    and "\<not> path_exists (io_archive w) (archive_path api safe)"
  shows "dict_get (io_archive w') (archive_path api safe) = Some (RegularFile payload)"
proof -
  let ?dst = "archive_path api safe" and ?tmp = "temporary_path api safe (io_ids w (io_id_count w))"
  note tmp = temporary_path_distinct [OF assms(2), of api "io_ids w (io_id_count w)"]
  from assms(1) obtain w1 w3 where w1: "io_archive_write (make_directories (archive_directory api safe) True) w = (Inr (), w1)"
      and w3: "archive_new_file (temporary_path api safe (io_ids w1 (io_id_count w1))) payload
        (w1\<lparr>io_id_count := Suc (io_id_count w1)\<rparr>) = (Inr (), w3)"
      and rest: "io_bind (io_finally (link_report redact (temporary_path api safe (io_ids w1 (io_id_count w1))) ?dst payload)
          (io_archive_write (unlink_file (temporary_path api safe (io_ids w1 (io_id_count w1))) True))) (\<lambda>_.
        io_archive_write (\<lambda>fs. Inr fs)) w3 = (Inr (), w')"
    by (auto simp: write_report_def io_bind_Inr io_simps Let_def)
  from w1 obtain fs1 where fs1: "make_directories (archive_directory api safe) True (io_archive w) = Inr fs1"
      "io_archive w1 = fs1" "io_ids w1 (io_id_count w1) = io_ids w (io_id_count w)"
    by (auto simp: io_archive_write_Inr)
  from rest fs1(3) obtain w4 w5 where w4: "link_report redact ?tmp ?dst payload w3 = (Inr (), w4)"
      and w5: "io_archive_write (unlink_file ?tmp True) w4 = (Inr (), w5)" "io_archive w' = io_archive w5"
    by (auto simp: io_bind_Inr io_finally_Inr io_archive_write_Inr [of "\<lambda>fs. Inr fs"])
  from w3 tmp fs1 have "dict_get (io_archive w3) ?tmp = Some (RegularFile payload)"
      and same: "dict_get (io_archive w3) ?dst = dict_get fs1 ?dst"
    using new_file_Inr(2) [OF w3] by auto
  moreover have "node_at (io_archive w3) ?dst = None"
    using make_directories_file [OF fs1(1)] same assms(3) by (simp add: path_exists_def node_at_def)
  ultimately have "dict_get (io_archive w4) ?dst = Some (RegularFile payload)"
    using link_report_Inr [OF w4] tmp by blast
  with w5 tmp show ?thesis by (auto simp: io_archive_write_Inr unlink_file_def dict_laws split: if_splits)
qed

text \<open>Errors of the archive.\<close>

lemma archive_error_instance [simp]:
  "is_instance (acquisition_error redact ManifestError m i) ManifestError"
  "is_instance (artifact_error redact m) ManifestError"
  by (auto simp: is_instance_def acquisition_error_def artifact_error_def intro: subclass_refl subclass_step)

lemma os_error_simps [simp]:
  "is_os_error (raise_as ''OSError'' m)" "is_os_error (raise_as ''FileExistsError'' m)"
  "is_os_error (raise_as ''FileNotFoundError'' m)" "is_os_error (raise_as ''NotADirectoryError'' m)"
  "is_os_error (raise_as ''IsADirectoryError'' m)"
  by (simp_all add: is_os_error_def raise_as_def)

lemma file_call_errors:
  "make_directories p ok fs = Inl e \<Longrightarrow> is_os_error e" "create_file p c fs = Inl e \<Longrightarrow> is_os_error e"
  "link_file src dst fs = Inl e \<Longrightarrow> is_os_error e" "replace_file src dst fs = Inl e \<Longrightarrow> is_os_error e"
  "unlink_file p b fs = Inl e \<Longrightarrow> is_os_error e" "read_bytes fs p = Inl e \<Longrightarrow> is_os_error e"
  by (auto simp: make_directories_def create_file_def link_file_def replace_file_def unlink_file_def read_bytes_def
      split: if_splits option.splits node.splits)

lemma archive_write_Inl:
  "io_archive_write f w = (Inl e, w') \<Longrightarrow> (\<And>fs x. f fs = Inl x \<Longrightarrow> is_os_error x) \<Longrightarrow> is_os_error e"
  by (auto simp: io_archive_write_def Let_def split: if_splits sum.splits)

lemma link_report_Inl:
  assumes "link_report redact tmp dst payload w = (Inl e, w')"
  shows "is_os_error e \<or> is_instance e ManifestError"
  using assms archive_write_Inl [of "link_file tmp dst"] file_call_errors(3) file_call_errors(6)
  by (auto simp: link_report_def io_catch_run io_bind_run io_simps read_archived_def split: if_splits)

lemma write_report_Inl:
  assumes "write_report redact api safe payload w = (Inl e, w')"
  shows "is_os_error e \<or> is_instance e ManifestError"
proof -
  let ?dir = "make_directories (archive_directory api safe) True"
  have "io_archive_write ?dir u = (Inl y, u') \<Longrightarrow> is_os_error y"
    "archive_new_file tmp payload u = (Inl y, u') \<Longrightarrow> is_os_error y"
    "io_archive_write (unlink_file tmp True) u = (Inl y, u') \<Longrightarrow> is_os_error y"
    "io_archive_write (\<lambda>fs. Inr fs) u = (Inl y, u') \<Longrightarrow> is_os_error y" for u y u' tmp
    by (auto simp: archive_new_file_def io_bind_Inl overwrite_file_def elim!: archive_write_Inl dest: file_call_errors)
  with assms show ?thesis
    by (auto simp: write_report_def io_bind_Inl io_finally_Inl io_simps Let_def dest: link_report_Inl)
qed

lemma archive_document_run:
  assumes "archive_document redact api acquisition_id document w = (r, w')"
  shows "io_fs w' = io_fs w \<and> fs_extends (io_archive w) (io_archive w') \<and>
    (case r of
       Inr _ \<Rightarrow> lookup_report redact api (io_archive w') acquisition_id
         = Inr (Some (json_sorted (json_safe_json redact document)))
     | Inl e \<Rightarrow> is_instance e ManifestError)"
proof (cases "validated_id redact (JStr acquisition_id)")
  case (Inl e)
  then have "is_instance e ManifestError" by (auto simp: validated_id_def split: if_splits)
  with Inl assms show ?thesis by (auto simp: archive_document_def)
next
  case (Inr safe)
  then have safe: "safe = acquisition_id" "safe_id acquisition_id" by (auto simp: validated_id_def split: if_splits)
  let ?doc = "json_safe_json redact document" and ?dst = "archive_path api acquisition_id"
  let ?payload = "JsonText (json_sorted ?doc)"
  note run = assms [unfolded archive_document_def Inr sum.case Let_def safe(1)]
  have recorded: "lookup_report redact api fs acquisition_id = Inr (Some (json_sorted ?doc))"
    if "dict_get fs ?dst = Some (RegularFile ?payload)" "members ?doc \<noteq> None" "jget ?doc ''acquisition_id'' = JStr acquisition_id" for fs
    using that Inr safe(1)
    by (simp add: lookup_report_def Let_def path_exists_def is_symlink_def is_file_def node_at_def load_json_value_def
        read_bytes_def del: not_None_eq)
  show ?thesis
  proof (cases "members ?doc = None \<or> jget ?doc ''acquisition_id'' \<noteq> JStr acquisition_id \<or>
      jget ?doc ''schema_version'' \<noteq> JStr CONTRACT_VERSION \<or> path_exists (io_archive w) ?dst")
    case True
    then have w': "w' = w" using run by (auto split: if_splits sum.splits)
    have "dict_get (io_archive w) ?dst = Some (RegularFile ?payload) \<and> members ?doc \<noteq> None \<and>
        jget ?doc ''acquisition_id'' = JStr acquisition_id" if "r = Inr ()"
      using that True run
      by (auto simp: is_symlink_def is_file_def read_bytes_def node_at_def split: if_splits sum.splits option.splits node.splits)
    moreover have "is_instance e ManifestError" if "r = Inl e" for e
      using that True run by (auto split: if_splits sum.splits)
    ultimately show ?thesis using recorded w' by (cases r) auto
  next
    case False
    then have ap: "append_report redact api acquisition_id ?payload w = (r, w')" using run by (simp split: if_splits)
    then obtain r' where r': "write_report redact api acquisition_id ?payload w = (r', w')"
        "r = (case r' of Inr u \<Rightarrow> Inr u | Inl e \<Rightarrow>
          Inl (if is_os_error e then artifact_error redact ''manifest archive publication failed'' else e))"
      by (rule append_report_run)
    have "archive_grows (io_fs w) (io_archive w) w'" by (rule write_report_grows [OF r'(1)]) simp
    moreover have "r = Inr () \<Longrightarrow> dict_get (io_archive w') ?dst = Some (RegularFile ?payload)"
      using write_report_Inr [of redact api acquisition_id ?payload w w'] r' False safe by (auto split: sum.splits)
    moreover have "\<And>e. r = Inl e \<Longrightarrow> is_instance e ManifestError"
      using write_report_Inl [of redact api acquisition_id ?payload w] r' by (auto split: sum.splits if_splits)
    ultimately show ?thesis using recorded False by (cases r) auto
  qed
qed

lemma lookup_report_file:
  assumes "lookup_report redact api archive acquisition_id = Inr (Some d)"
  shows "dict_get archive (archive_path api acquisition_id) = Some (RegularFile (JsonText d))"
    and "jget d ''acquisition_id'' = JStr acquisition_id"
proof -
  from assms have "validated_id redact (JStr acquisition_id) = Inr acquisition_id"
    by (auto simp: lookup_report_def validated_id_def result_simps split: if_splits)
  with assms show "dict_get archive (archive_path api acquisition_id) = Some (RegularFile (JsonText d))"
    "jget d ''acquisition_id'' = JStr acquisition_id"
    by (auto simp: lookup_report_def Let_def load_json_value_def read_bytes_def path_exists_def is_symlink_def is_file_def
        node_at_def split: if_splits option.splits node.splits content.splits)
qed

text \<open>C28: the archive is append-only. Whatever calls fail, archiving a document touches neither the
  cache directory nor any node of the archive, and it raises only the archive's own errors. If it
  returns, the document is on record: the lookup of its identifier gives it, redacted and with
  sorted keys. A document that differs from the report on record is refused.\<close>

theorem archive_append_only:
  assumes "archive_document redact api acquisition_id document w = (r, w')"
  shows "io_fs w' = io_fs w \<and> fs_extends (io_archive w) (io_archive w') \<and>
    (case r of
       Inr _ \<Rightarrow> lookup_report redact api (io_archive w') acquisition_id
         = Inr (Some (json_sorted (json_safe_json redact document)))
     | Inl e \<Rightarrow> is_instance e ManifestError) \<and>
    (\<forall>c. dict_get (io_archive w) (archive_path api acquisition_id) = Some (RegularFile c) \<and>
       c \<noteq> JsonText (json_sorted (json_safe_json redact document)) \<longrightarrow> r \<noteq> Inr ())"
proof -
  note run = archive_document_run [OF assms]
  have "c = JsonText (json_sorted (json_safe_json redact document))"
    if "r = Inr ()" "dict_get (io_archive w) (archive_path api acquisition_id) = Some (RegularFile c)" for c
    using that run lookup_report_file(1) [of redact api "io_archive w'" acquisition_id] by (auto simp: fs_extends_def)
  with run show ?thesis by blast
qed

definition demo_io :: io_world where
  "demo_io = \<lparr>io_fs = [], io_archive = [], io_calls = 0, io_fails = (\<lambda>_. False),
     io_ids = (\<lambda>n. CHR ''i'' # nat_str n), io_id_count = 0, io_clock = (\<lambda>n. int n), io_clock_reads = 0\<rparr>"

definition demo_report :: json where
  "demo_report = JObj [(''schema_version'', JStr ''1''), (''acquisition_id'', JStr ''a1'')]"

lemma archive_append_only_witness:
  "\<exists>w'. archive_document (\<lambda>s. s) demo_digest ''a1'' demo_report demo_io = (Inr (), w') \<and>
     lookup_report (\<lambda>s. s) demo_digest (io_archive w') ''a1'' = Inr (Some (json_sorted demo_report))"
proof -
  have "fst (archive_document (\<lambda>s. s) demo_digest ''a1'' demo_report demo_io) = Inr ()" by code_simp
  then obtain w' where run: "archive_document (\<lambda>s. s) demo_digest ''a1'' demo_report demo_io = (Inr (), w')"
    by (cases "archive_document (\<lambda>s. s) demo_digest ''a1'' demo_report demo_io") auto
  have "json_safe_json (\<lambda>s. s) demo_report = demo_report" by code_simp
  with archive_append_only [OF run] run show ?thesis by auto
qed

section \<open>The optional copy\<close>

lemma make_directories_below:
  assumes "make_directories (butlast p) ok fs = Inr fs'" and "p \<noteq> []"
  shows "dict_get fs' p = dict_get fs p"
proof (cases "dict_get fs p")
  case None
  have "p \<noteq> take (length p) (butlast p)" using assms(2) by (cases p rule: rev_cases) auto
  with None make_directories_get(2) [OF assms(1), of p] show ?thesis by (cases "dict_get fs' p") auto
qed (use make_directories_get(1) [OF assms(1)] in simp)

lemma archive_write_run:
  assumes "io_archive_write f w = (r, w')"
  shows "io_fs w' = io_fs w" "io_archive w' = io_archive w \<or> f (io_archive w) = Inr (io_archive w')"
    "r = Inr u \<Longrightarrow> f (io_archive w) = Inr (io_archive w')"
  using assms by (auto simp: io_archive_write_def Let_def split: if_splits sum.splits)

lemma archive_new_file_run:
  assumes "archive_new_file p c w = (r, w')"
  shows "io_fs w' = io_fs w" "q \<noteq> p \<Longrightarrow> dict_get (io_archive w') q = dict_get (io_archive w) q"
  using assms by (auto simp: archive_new_file_def io_bind_run io_archive_write_def Let_def create_file_def overwrite_file_def
      dict_laws split: if_splits sum.splits)

text \<open>The copy is atomic: the destination keeps what it had or gets the complete report, which it has if
  there is no warning. Nothing is raised.\<close>

lemma copy_report_run:
  assumes "copy_report redact fmt manifest target w = (r, w')" and "target \<noteq> []"
  shows "io_fs w' = io_fs w" "r = Inr None \<or> (\<exists>e. r = Inl e \<and> is_os_error e)"
    "dict_get (io_archive w') target = Some (RegularFile (JsonText (json_sorted (manifest_to_dict redact fmt manifest)))) \<or>
     r \<noteq> Inr None \<and> dict_get (io_archive w') target = dict_get (io_archive w) target"
proof -
  let ?payload = "JsonText (json_sorted (manifest_to_dict redact fmt manifest))"
  obtain r1 w1 where w1: "io_archive_write (make_directories (butlast target) True) w = (r1, w1)" by fastforce
  let ?tmp = "butlast target @ [''.'' @ last target @ ''.'' @ io_ids w1 (io_id_count w1) @ ''.tmp'']"
  obtain r2 w2 where w2: "archive_new_file ?tmp ?payload (w1\<lparr>io_id_count := Suc (io_id_count w1)\<rparr>) = (r2, w2)" by fastforce
  obtain r3 w3 where w3: "io_archive_write (replace_file ?tmp target) w2 = (r3, w3)" by fastforce
  obtain r4 w4 where w4: "io_archive_write (\<lambda>fs. Inr fs) w3 = (r4, w4)" by fastforce
  have run: "(r1 \<noteq> Inr () \<and> w' = w1) \<or> (r2 \<noteq> Inr () \<and> w' = w2) \<or> (r2 = Inr () \<and> r3 \<noteq> Inr () \<and> w' = w3) \<or>
      (r2 = Inr () \<and> r3 = Inr () \<and> w' = w4)"
    "r = Inr None \<longrightarrow> r2 = Inr () \<and> r3 = Inr () \<and> w' = w4"
    using assms(1) w1 w2 w3 w4
    by (auto simp: copy_report_def io_bind_run io_simps Let_def)
  have "last target \<noteq> ''.'' @ last target @ x" for x
  proof
    assume "last target = ''.'' @ last target @ x"
    from arg_cong [OF this, of length] show False by simp
  qed
  then have tmp: "?tmp \<noteq> target" by (metis last_snoc)
  have d1: "dict_get (io_archive w1) target = dict_get (io_archive w) target"
    using archive_write_run(2) [OF w1] make_directories_below [OF _ assms(2)] by auto
  then have d2: "dict_get (io_archive w2) target = dict_get (io_archive w) target"
    using archive_new_file_run(2) [OF w2, of target] tmp by simp
  have d3: "dict_get (io_archive w3) target = Some (RegularFile ?payload)" if "r3 = Inr ()" "r2 = Inr ()"
  proof -
    from w2 that(2) have "dict_get (io_archive w2) ?tmp = Some (RegularFile ?payload)" by (auto dest: new_file_Inr(2))
    with archive_write_run(3) [OF w3 that(1)]
    have "io_archive w3 = dict_del (dict_set (io_archive w2) target (RegularFile ?payload)) ?tmp"
      by (simp add: replace_file_def split: if_splits)
    with tmp show ?thesis by (simp add: dict_laws)
  qed
  have d3': "r3 \<noteq> Inr () \<Longrightarrow> io_archive w3 = io_archive w2" using w3
    by (auto simp: io_archive_write_def Let_def split: if_splits sum.splits)
  have d4: "io_archive w4 = io_archive w3" using archive_write_run(2) [OF w4] by auto
  show "io_fs w' = io_fs w"
    using run(1) archive_write_run(1) [OF w1] archive_new_file_run(1) [OF w2] archive_write_run(1) [OF w3] archive_write_run(1) [OF w4]
    by auto
  show "dict_get (io_archive w') target = Some (RegularFile ?payload) \<or>
     r \<noteq> Inr None \<and> dict_get (io_archive w') target = dict_get (io_archive w) target"
    using run d1 d2 d3 d3' d4 by auto
  have os: "r1 = Inl e \<Longrightarrow> is_os_error e" "r2 = Inl e \<Longrightarrow> is_os_error e" "r3 = Inl e \<Longrightarrow> is_os_error e" "r4 = Inl e \<Longrightarrow> is_os_error e" for e
    using w1 w2 w3 w4 by (auto simp: archive_new_file_def io_bind_Inl overwrite_file_def elim!: archive_write_Inl dest: file_call_errors)
  show "r = Inr None \<or> (\<exists>e. r = Inl e \<and> is_os_error e)"
    using assms(1) w1 w2 w3 w4 os by (auto simp: copy_report_def io_bind_run io_simps Let_def)
qed

lemma optional_copy_atomic:
  assumes "write_optional_copy redact fmt manifest target w = (r, w')" and "target \<noteq> []"
  shows "io_fs w' = io_fs w \<and> (\<exists>warning. r = Inr warning \<and>
    (dict_get (io_archive w') target = Some (RegularFile (JsonText (json_sorted (manifest_to_dict redact fmt manifest)))) \<or>
     warning \<noteq> None \<and> dict_get (io_archive w') target = dict_get (io_archive w) target))"
proof -
  obtain r1 w1 where c: "copy_report redact fmt manifest target w = (r1, w1)" by fastforce
  from assms(1) c copy_report_run [OF c assms(2)] show ?thesis
    by (auto simp: write_optional_copy_def io_catch_def io_simps split: if_splits)
qed

end
