(* ===== verification/Data_Store.thy ===== *)
theory Data_Store
  imports Manifest_Repository
begin

text \<open>
  Cache generations, \<open>src/data/store.py\<close>: reading the current generation with all its checks, the
  publication of a new one under the lock with its three attempts, the pinning of generations
  whose report could not be archived, cleanup, and the lookup and maintenance of reports. The
  lock excludes other publishers; what other processes do to the directory while an attempt runs
  is the conflict probe, an arbitrary function of the file system. The legacy exact-range cache
  is left out.
\<close>

section \<open>State\<close>

record data_store =
  ds_service :: service
  ds_fmt :: iso_api
  ds_content_hash :: "content \<Rightarrow> string"
  ds_calendar_versions :: "(string, string) dict"
  ds_archives_publications :: bool
  ds_conflict_probe :: "(nat \<Rightarrow> string option \<Rightarrow> fs \<Rightarrow> fs) option"

abbreviation ds_redact :: "data_store \<Rightarrow> string \<Rightarrow> string" where
  "ds_redact ds \<equiv> sv_redact (ds_service ds)"

record cache_generation =
  cg_status :: cache_status
  cg_frame :: "canonical_frame option"
  cg_metadata :: "json option"
  cg_manifest :: "json option"
  cg_generation_id :: "string option"
  cg_reason :: "string option"

record generation_publication =
  gp_generation_id :: string
  gp_frame :: canonical_frame
  gp_metadata :: json
  gp_manifest :: acquisition_manifest
  gp_warnings :: "string list"

record cleanup_result =
  cl_removed_generation_ids :: "string list"
  cl_warnings :: "string list"

definition artifact_names :: "string list" where
  "artifact_names = [''bars.parquet'', ''cache-metadata.json'', ''acquisition-manifest.json'']"

definition POINTER_SCHEMA_VERSION :: string where "POINTER_SCHEMA_VERSION = ''1''"

definition no_generation :: "cache_status \<Rightarrow> string option \<Rightarrow> cache_generation" where
  "no_generation status reason = \<lparr>cg_status = status, cg_frame = None, cg_metadata = None, cg_manifest = None,
     cg_generation_id = None, cg_reason = reason\<rparr>"

definition publication_error :: "data_store \<Rightarrow> string \<Rightarrow> exn" where
  "publication_error ds message = acquisition_error (ds_redact ds) CachePublicationError message None"

section \<open>Paths\<close>

definition generation_namespace :: "acquisition_request \<Rightarrow> path" where
  "generation_namespace request = [CONTRACT_VERSION, ar_calendar request, ar_interval request, ar_symbol request]"

fun join_path :: "path \<Rightarrow> string" where
  "join_path [] = []"
| "join_path [p] = p"
| "join_path (p # q # ps) = p @ ''/'' @ join_path (q # ps)"

definition generation_path :: "path \<Rightarrow> string \<Rightarrow> path" where
  "generation_path namespace generation_id = namespace @ [''generations'', generation_id]"

definition pointer_path :: "path \<Rightarrow> path" where
  "pointer_path namespace = namespace @ [''CURRENT.json'']"

definition value_error :: "string \<Rightarrow> exn" where
  "value_error message = raise_as ''ValueError'' message"

text \<open>The namespace has its four components by construction; none of them may be a link.\<close>

definition validate_namespace_path :: "fs \<Rightarrow> path \<Rightarrow> exn + unit" where
  "validate_namespace_path fs namespace =
     (if length namespace \<noteq> 4 \<or> hd namespace \<noteq> CONTRACT_VERSION
      then Inl (value_error ''cache namespace has an invalid layout'')
      else if list_ex (\<lambda>n. is_symlink fs (take n namespace)) [1, 2, 3, 4]
      then Inl (value_error ''cache namespace must not contain symbolic components'')
      else Inr ())"

definition referenced_generation_path :: "fs \<Rightarrow> path \<Rightarrow> string \<Rightarrow> exn + path" where
  "referenced_generation_path fs namespace generation_id =
     rbind (validate_namespace_path fs namespace) (\<lambda>_.
       if is_symlink fs (namespace @ [''generations'']) \<or> \<not> is_dir fs (namespace @ [''generations''])
       then Inl (value_error ''generation container is missing or symbolic'')
       else if is_symlink fs (generation_path namespace generation_id) \<or> \<not> is_dir fs (generation_path namespace generation_id)
       then Inl (value_error ''referenced generation is missing or symbolic'')
       else Inr (generation_path namespace generation_id))"

section \<open>Reading the current generation\<close>

definition pointer_fields :: "string list" where
  "pointer_fields = [''schema_version'', ''contract_version'', ''generation_id'', ''previous_generation_id'',
     ''created_at'', ''artifacts'']"

definition artifact_path :: "string \<Rightarrow> string \<Rightarrow> string" where
  "artifact_path generation_id name = ''generations/'' @ generation_id @ ''/'' @ name"

definition artifact_evidence_ok :: "string \<Rightarrow> json \<Rightarrow> string \<Rightarrow> bool" where
  "artifact_evidence_ok generation_id artifacts name \<longleftrightarrow>
     (let evidence = jget artifacts name in
      members evidence \<noteq> None \<and> jkeys evidence = {''path'', ''sha256''} \<and>
      jget evidence ''path'' = JStr (artifact_path generation_id name) \<and> is_sha256 (jget evidence ''sha256''))"

definition check_pointer :: "data_store \<Rightarrow> json \<Rightarrow> exn + json" where
  "check_pointer ds pointer =
     (if jkeys pointer \<noteq> set pointer_fields then Inl (value_error ''CURRENT pointer has an invalid schema'')
      else if jget pointer ''schema_version'' \<noteq> JStr POINTER_SCHEMA_VERSION
      then Inl (value_error ''CURRENT pointer schema version is incompatible'')
      else if jget pointer ''contract_version'' \<noteq> JStr CONTRACT_VERSION
      then Inl (value_error ''CURRENT contract version is incompatible'')
      else rbind (parse_utc_timestamp (ds_fmt ds) (jget pointer ''created_at'')) (\<lambda>_.
        rbind (validate_generation_id (jget pointer ''generation_id'')) (\<lambda>generation_id.
        rbind (case jget pointer ''previous_generation_id'' of JNull \<Rightarrow> Inr []
               | previous \<Rightarrow> validate_generation_id previous) (\<lambda>_.
        let artifacts = jget pointer ''artifacts'' in
        if members artifacts = None \<or> jkeys artifacts \<noteq> set artifact_names
        then Inl (value_error ''CURRENT artifact set is invalid'')
        else if \<not> list_all (artifact_evidence_ok generation_id artifacts) artifact_names
        then Inl (value_error ''CURRENT artifact evidence is invalid'')
        else Inr pointer))))"

definition load_pointer :: "data_store \<Rightarrow> fs \<Rightarrow> path \<Rightarrow> bool \<Rightarrow> exn + json option" where
  "load_pointer ds fs namespace required =
     (let p = pointer_path namespace in
      if \<not> path_exists fs p
      then (if required then Inl (value_error ''CURRENT pointer is missing'') else Inr None)
      else if is_symlink fs p then Inl (value_error ''CURRENT pointer must not be a symbolic link'')
      else rbind (load_json fs p) (\<lambda>pointer. rbind (check_pointer ds pointer) (\<lambda>pointer. Inr (Some pointer))))"

definition current_generation_id :: "data_store \<Rightarrow> fs \<Rightarrow> acquisition_request \<Rightarrow> exn + string option" where
  "current_generation_id ds fs request =
     rbind (load_pointer ds fs (generation_namespace request) False) (\<lambda>pointer.
       Inr (map_option (\<lambda>p. text_of (jget p ''generation_id'')) pointer))"

definition sha256_file :: "data_store \<Rightarrow> fs \<Rightarrow> path \<Rightarrow> exn + string" where
  "sha256_file ds fs p = rbind (read_bytes fs p) (\<lambda>c. Inr (ds_content_hash ds c))"

definition manifest_namespace_compatible :: "json \<Rightarrow> acquisition_request \<Rightarrow> bool" where
  "manifest_namespace_compatible value request \<longleftrightarrow> members value \<noteq> None \<and>
     jget value ''symbol'' = JStr (ar_symbol request) \<and> jget value ''interval'' = JStr (ar_interval request) \<and>
     jget value ''calendar'' = JStr (ar_calendar request)"

definition versions_equal :: "json \<Rightarrow> (string, string) dict \<Rightarrow> bool" where
  "versions_equal value versions = (case members value of
     None \<Rightarrow> False | Some kvs \<Rightarrow> set kvs = set (map (\<lambda>(k, v). (k, JStr v)) versions))"

definition metadata_compatible :: "data_store \<Rightarrow> acquisition_request \<Rightarrow> string \<Rightarrow> json \<Rightarrow> bool" where
  "metadata_compatible ds request generation_name metadata \<longleftrightarrow>
     jget metadata ''schema_version'' = JStr POINTER_SCHEMA_VERSION \<and>
     jget metadata ''contract_version'' = JStr CONTRACT_VERSION \<and>
     jget metadata ''calendar'' = JStr (ar_calendar request) \<and>
     versions_equal (jget metadata ''calendar_versions'') (ds_calendar_versions ds) \<and>
     jget metadata ''interval'' = JStr (ar_interval request) \<and> jget metadata ''symbol'' = JStr (ar_symbol request) \<and>
     jget metadata ''generation_id'' = JStr generation_name"

definition generation_directory_valid :: "data_store \<Rightarrow> fs \<Rightarrow> acquisition_request \<Rightarrow> path \<Rightarrow> json \<Rightarrow> bool" where
  "generation_directory_valid ds fs request generation metadata =
     (if \<not> metadata_compatible ds request (last generation) metadata then False
      else (case rbind (parse_utc_timestamp (ds_fmt ds) (jget metadata ''created_at'')) (\<lambda>_.
              rbind (read_parquet fs (generation @ [''bars.parquet''])) (\<lambda>frame.
              rbind (validate_canonical (ds_redact ds) frame request) (\<lambda>_.
              rbind (load_json fs (generation @ [''acquisition-manifest.json''])) (\<lambda>manifest.
              rbind (sha256_file ds fs (generation @ [''bars.parquet''])) (\<lambda>bars_hash.
              Inr (jget manifest ''schema_version'' = JStr CONTRACT_VERSION \<and>
                   manifest_namespace_compatible (jget manifest ''request'') request \<and>
                   jget manifest ''output_hash'' = JStr bars_hash)))))) of
          Inl e \<Rightarrow> False
        | Inr ok \<Rightarrow> ok \<and> list_all (\<lambda>name. is_file fs (generation @ [name])) artifact_names))"

definition check_artifact :: "data_store \<Rightarrow> fs \<Rightarrow> path \<Rightarrow> json \<Rightarrow> string \<Rightarrow> unit \<Rightarrow> exn + unit" where
  "check_artifact ds fs generation artifacts name u =
     (let p = generation @ [name] in
      if \<not> is_file fs p \<or> is_symlink fs p then Inl (value_error ''referenced generation artifact is missing'')
      else rbind (sha256_file ds fs p) (\<lambda>h.
        if JStr h \<noteq> jget (jget artifacts name) ''sha256'' then Inl (value_error ''referenced generation artifact hash mismatch'')
        else Inr ()))"

definition embedded_manifest_compatible ::
    "acquisition_request \<Rightarrow> path \<Rightarrow> string \<Rightarrow> json \<Rightarrow> json \<Rightarrow> bool" where
  "embedded_manifest_compatible request namespace generation_id bars_hash manifest \<longleftrightarrow>
     jget manifest ''schema_version'' = JStr CONTRACT_VERSION \<and>
     jget manifest ''status'' \<in> {JStr ''success'', JStr ''partial_success''} \<and>
     manifest_namespace_compatible (jget manifest ''request'') request \<and>
     members (jget manifest ''cache'') \<noteq> None \<and>
     jget (jget manifest ''cache'') ''generation_id'' = JStr generation_id \<and>
     jget (jget manifest ''cache'') ''cache_key'' = JStr (join_path namespace) \<and>
     jget manifest ''output_hash'' = bars_hash"

definition read_referenced :: "data_store \<Rightarrow> fs \<Rightarrow> acquisition_request \<Rightarrow> path \<Rightarrow> json \<Rightarrow> exn + cache_generation" where
  "read_referenced ds fs request namespace pointer =
     (let generation_id = text_of (jget pointer ''generation_id''); artifacts = jget pointer ''artifacts'' in
      rbind (referenced_generation_path fs namespace generation_id) (\<lambda>generation.
      rbind (rfold (check_artifact ds fs generation artifacts) artifact_names ()) (\<lambda>_.
      rbind (load_json fs (generation @ [''cache-metadata.json''])) (\<lambda>metadata.
      if \<not> generation_directory_valid ds fs request generation metadata
      then Inl (value_error ''cache metadata is incompatible'')
      else rbind (load_json fs (generation @ [''acquisition-manifest.json''])) (\<lambda>manifest.
        if \<not> embedded_manifest_compatible request namespace generation_id
             (jget (jget artifacts ''bars.parquet'') ''sha256'') manifest
        then Inl (value_error ''embedded acquisition manifest is incompatible'')
        else rbind (parse_utc_timestamp (ds_fmt ds) (jget manifest ''started_at'')) (\<lambda>_.
          rbind (parse_utc_timestamp (ds_fmt ds) (jget manifest ''completed_at'')) (\<lambda>_.
          rbind (read_parquet fs (generation @ [''bars.parquet''])) (\<lambda>frame.
          rbind (validate_canonical (ds_redact ds) frame request) (\<lambda>_.
            Inr \<lparr>cg_status = FULL_HIT, cg_frame = Some frame, cg_metadata = Some metadata,
              cg_manifest = Some manifest, cg_generation_id = Some generation_id, cg_reason = None\<rparr>)))))))))"

text \<open>\<open>str(error)[:200] or type(error).__name__\<close>.\<close>

fun error_class_name :: "error_class \<Rightarrow> string" where
  "error_class_name DataAcquisitionError = ''DataAcquisitionError''"
| "error_class_name InvalidRequestError = ''InvalidRequestError''"
| "error_class_name ContractViolationError = ''ContractViolationError''"
| "error_class_name ProviderError = ''ProviderError''"
| "error_class_name TransientProviderError = ''TransientProviderError''"
| "error_class_name ProviderAuthenticationError = ''ProviderAuthenticationError''"
| "error_class_name ProviderEntitlementError = ''ProviderEntitlementError''"
| "error_class_name ProviderQuotaError = ''ProviderQuotaError''"
| "error_class_name ProviderSchemaError = ''ProviderSchemaError''"
| "error_class_name NoUsableDataError = ''NoUsableDataError''"
| "error_class_name ProviderExhaustedError = ''ProviderExhaustedError''"
| "error_class_name QualityError = ''QualityError''"
| "error_class_name CacheError = ''CacheError''"
| "error_class_name CachePublicationError = ''CachePublicationError''"
| "error_class_name ManifestError = ''ManifestError''"
| "error_class_name ArtifactError = ''ArtifactError''"
| "error_class_name ConcurrentPublicationError = ''ConcurrentPublicationError''"

fun exn_type_name :: "exn_class \<Rightarrow> string" where
  "exn_type_name (External name) = name"
| "exn_type_name (Acquisition c) = error_class_name c"

definition safe_reason :: "exn \<Rightarrow> string" where
  "safe_reason e = (if take 200 (exn_message e) \<noteq> [] then take 200 (exn_message e) else exn_type_name (exn_class e))"

definition read_generation :: "data_store \<Rightarrow> fs \<Rightarrow> acquisition_request \<Rightarrow> cache_generation" where
  "read_generation ds fs request =
     (let namespace = generation_namespace request in
      if is_symlink fs (pointer_path namespace)
      then no_generation INVALIDATED (Some ''CURRENT pointer is symbolic'')
      else if \<not> path_exists fs (pointer_path namespace) then no_generation MISS None
      else (case rbind (load_pointer ds fs namespace True) (\<lambda>pointer.
                read_referenced ds fs request namespace (case pointer of Some p \<Rightarrow> p | None \<Rightarrow> JNull)) of
          Inl e \<Rightarrow> no_generation INVALIDATED (Some (safe_reason e))
        | Inr generation \<Rightarrow> generation))"

section \<open>Publishing a generation\<close>

definition write_json :: "path \<Rightarrow> json \<Rightarrow> unit io" where
  "write_json p value = write_new_file p (JsonText (json_sorted value))"

definition metadata_document ::
    "data_store \<Rightarrow> acquisition_request \<Rightarrow> (string \<times> json) list \<Rightarrow> string \<Rightarrow> string \<Rightarrow> json" where
  "metadata_document ds request metadata generation_id created_at = JObj (dict_update metadata
     [(''schema_version'', JStr POINTER_SCHEMA_VERSION), (''contract_version'', JStr CONTRACT_VERSION),
      (''calendar'', JStr (ar_calendar request)),
      (''calendar_versions'', JObj (map (\<lambda>(k, v). (k, JStr v)) (ds_calendar_versions ds))),
      (''interval'', JStr (ar_interval request)), (''symbol'', JStr (ar_symbol request)),
      (''generation_id'', JStr generation_id), (''created_at'', JStr created_at)])"

definition pointer_document :: "string \<Rightarrow> string option \<Rightarrow> string \<Rightarrow> (string \<Rightarrow> string) \<Rightarrow> json" where
  "pointer_document generation_id previous created_at hash_of = JObj
     [(''schema_version'', JStr POINTER_SCHEMA_VERSION), (''contract_version'', JStr CONTRACT_VERSION),
      (''generation_id'', JStr generation_id), (''previous_generation_id'', jopt JStr previous),
      (''created_at'', JStr created_at),
      (''artifacts'', JObj (map (\<lambda>name. (name, JObj
         [(''path'', JStr (artifact_path generation_id name)), (''sha256'', JStr (hash_of name))])) artifact_names))]"

definition final_manifest :: "acquisition_manifest \<Rightarrow> string \<Rightarrow> string \<Rightarrow> string \<Rightarrow> acquisition_manifest" where
  "final_manifest manifest generation_id cache_key bars_hash =
     manifest\<lparr>mf_cache := (mf_cache manifest)\<lparr>ce_generation_id := Some generation_id, ce_cache_key := Some cache_key\<rparr>,
       mf_output_hash := Some bars_hash\<rparr>"

text \<open>Hashing the artifacts that have just been written.\<close>

definition hash_artifact :: "data_store \<Rightarrow> path \<Rightarrow> string io" where
  "hash_artifact ds p = io_bind (io_read (\<lambda>fs. sha256_file ds fs p)) io_result"

definition hash_artifacts :: "data_store \<Rightarrow> path \<Rightarrow> (string \<Rightarrow> string) io" where
  "hash_artifacts ds generation =
     io_bind (hash_artifact ds (generation @ [''bars.parquet''])) (\<lambda>h1.
     io_bind (hash_artifact ds (generation @ [''cache-metadata.json''])) (\<lambda>h2.
     io_bind (hash_artifact ds (generation @ [''acquisition-manifest.json''])) (\<lambda>h3.
     io_return (\<lambda>name. if name = ''bars.parquet'' then h1 else if name = ''cache-metadata.json'' then h2 else h3))))"

definition write_bars :: "path \<Rightarrow> canonical_frame \<Rightarrow> unit io" where
  "write_bars bars_path frame =
     io_bind (io_write (overwrite_file bars_path (OtherBytes []))) (\<lambda>_.
     io_bind (io_write (overwrite_file bars_path (ParquetData frame))) (\<lambda>_. io_sync))"

definition stage_artifacts ::
    "data_store \<Rightarrow> canonical_frame \<Rightarrow> json \<Rightarrow> acquisition_manifest \<Rightarrow> path \<Rightarrow> string \<Rightarrow>
     (acquisition_manifest \<times> (string \<Rightarrow> string)) io" where
  "stage_artifacts ds frame document manifest namespace generation_id =
     (let generation = generation_path namespace generation_id
      in io_bind (write_bars (generation @ [''bars.parquet'']) frame) (\<lambda>_.
         io_bind (hash_artifact ds (generation @ [''bars.parquet''])) (\<lambda>bars_hash.
         let final = final_manifest manifest generation_id (join_path namespace) bars_hash in
         io_bind (write_json (generation @ [''cache-metadata.json'']) document) (\<lambda>_.
         io_bind (write_json (generation @ [''acquisition-manifest.json'']) (manifest_to_dict (ds_redact ds) (ds_fmt ds) final)) (\<lambda>_.
         io_bind (hash_artifacts ds generation) (\<lambda>hash_of.
         io_bind io_sync (\<lambda>_.
         io_bind io_sync (\<lambda>_.
         io_return (final, hash_of)))))))))"

definition commit_pointer :: "path \<Rightarrow> json \<Rightarrow> unit io" where
  "commit_pointer namespace pointer =
     io_bind fresh_id (\<lambda>hex.
     let temporary_pointer = namespace @ [''.CURRENT.'' @ hex @ ''.tmp'']
     in io_bind (write_json temporary_pointer pointer) (\<lambda>_.
        io_bind (io_write (replace_file temporary_pointer (pointer_path namespace))) (\<lambda>_. io_sync)))"

definition write_generation ::
    "data_store \<Rightarrow> acquisition_request \<Rightarrow> canonical_frame \<Rightarrow> (string \<times> json) list \<Rightarrow> acquisition_manifest \<Rightarrow> path \<Rightarrow>
     string option \<Rightarrow> string \<Rightarrow> string \<Rightarrow> generation_publication io" where
  "write_generation ds request frame metadata manifest namespace previous generation_id created_at =
     (let document = metadata_document ds request metadata generation_id created_at
      in io_bind (stage_artifacts ds frame document manifest namespace generation_id) (\<lambda>(final, hash_of).
         io_bind (commit_pointer namespace (pointer_document generation_id previous created_at hash_of)) (\<lambda>_.
         io_return \<lparr>gp_generation_id = generation_id, gp_frame = frame, gp_metadata = document,
           gp_manifest = final, gp_warnings = []\<rparr>)))"

definition publish_locked ::
    "data_store \<Rightarrow> acquisition_request \<Rightarrow> canonical_frame \<Rightarrow> (string \<times> json) list \<Rightarrow> acquisition_manifest \<Rightarrow> path \<Rightarrow>
     string option \<Rightarrow> generation_publication io" where
  "publish_locked ds request frame metadata manifest namespace previous =
     io_bind fresh_id (\<lambda>i.
     io_bind (io_result (validate_generation_id (JStr i))) (\<lambda>generation_id.
     let generation = generation_path namespace generation_id in
     io_bind (io_read (\<lambda>fs. (path_exists fs (namespace @ [''generations'']) \<and> is_symlink fs (namespace @ [''generations'']),
         path_exists fs generation))) (\<lambda>(symbolic, taken).
     if symbolic then io_raise (publication_error ds ''generation container must not be a symbolic link'')
     else if taken then io_raise (publication_error ds ''generation identifier already exists'')
     else io_bind (io_write (make_directories generation False)) (\<lambda>_.
     io_bind utc_now (\<lambda>created_at.
     io_catch (write_generation ds request frame metadata manifest namespace previous generation_id
         (iso_text (ds_fmt ds) created_at)) (\<lambda>e.
       if is_instance e CachePublicationError then io_raise e
       else io_raise (publication_error ds ''immutable cache generation publication failed'')))))))"

definition pin :: "path \<Rightarrow> string \<Rightarrow> string \<Rightarrow> unit io" where
  "pin namespace generation_id acquisition_id =
     io_bind (io_write (make_directories (namespace @ [''pins'']) True)) (\<lambda>_.
     io_bind (write_json (namespace @ [''pins'', generation_id @ ''.json'']) (JObj
        [(''schema_version'', JStr POINTER_SCHEMA_VERSION), (''generation_id'', JStr generation_id),
         (''acquisition_id'', JStr acquisition_id)])) (\<lambda>_. io_sync))"

definition archive_after_commit ::
    "data_store \<Rightarrow> acquisition_request \<Rightarrow> generation_publication \<Rightarrow> generation_publication io" where
  "archive_after_commit ds request publication =
     io_catch (io_bind (archive_manifest (ds_redact ds) (sv_digest (ds_service ds)) (ds_fmt ds) (gp_manifest publication))
         (\<lambda>_. io_return publication)) (\<lambda>_.
       io_catch (io_bind (pin (generation_namespace request) (gp_generation_id publication)
           (mf_acquisition_id (gp_manifest publication))) (\<lambda>_.
           io_return (publication\<lparr>gp_warnings := [''cache committed but request report archival failed'']\<rparr>))) (\<lambda>e.
         if is_os_error e
         then io_return (publication\<lparr>gp_warnings :=
           [''cache committed but request report archival failed; generation pin publication failed'']\<rparr>)
         else io_raise e))"

datatype revalidation = Checked bool | Replaced canonical_frame

text \<open>The frame and the lineage to publish on top of the generation found under the lock.\<close>

definition assemble ::
    "data_store \<Rightarrow> string option \<Rightarrow> cache_generation \<Rightarrow> canonical_frame \<Rightarrow> lineage_segment list \<Rightarrow> (int \<times> int) list \<Rightarrow>
     exn + (canonical_frame \<times> lineage_segment list)" where
  "assemble ds expected_base latest candidate lineage replace_ranges =
     (case (cg_frame latest, expected_base = cg_generation_id latest) of
        (Some frame, False) \<Rightarrow>
          (case (cg_manifest latest, cg_generation_id latest) of
             (Some document, Some latest_id) \<Rightarrow>
               rbind (lineage_from_document (ds_redact ds) (ds_fmt ds)
                   (if ''lineage'' \<in> jkeys document then jget document ''lineage'' else JList [])) (\<lambda>published.
               rbind (rebase_candidate (ds_service ds) expected_base (Some (latest_id, cf_rows frame, published))
                   (cf_rows candidate) lineage replace_ranges) (\<lambda>(rows, merged).
                 Inr (candidate\<lparr>cf_rows := rows\<rparr>, merged)))
           | _ \<Rightarrow> Inl (publication_error ds ''current cache generation has no manifest''))
      | _ \<Rightarrow> Inr (candidate, lineage))"

definition revalidated ::
    "data_store \<Rightarrow> acquisition_request \<Rightarrow> (canonical_frame \<Rightarrow> exn + revalidation) option \<Rightarrow> canonical_frame \<Rightarrow> exn + canonical_frame" where
  "revalidated ds request revalidate assembled =
     rbind (validate_canonical (ds_redact ds) assembled request) (\<lambda>_.
     case revalidate of None \<Rightarrow> Inr assembled
     | Some check \<Rightarrow> rbind (check assembled) (\<lambda>checked. case checked of
         Replaced frame \<Rightarrow> rbind (validate_canonical (ds_redact ds) frame request) (\<lambda>_. Inr frame)
       | Checked ok \<Rightarrow> if ok then Inr assembled
           else Inl (violation (ds_redact ds) ''rebased cache failed complete validation'')))"

fun publish_attempts ::
    "data_store \<Rightarrow> acquisition_request \<Rightarrow> canonical_frame \<Rightarrow> (string \<times> json) list \<Rightarrow> acquisition_manifest \<Rightarrow>
     (canonical_frame \<Rightarrow> exn + revalidation) option \<Rightarrow> (int \<times> int) list \<Rightarrow> nat list \<Rightarrow> string option \<Rightarrow> generation_publication io" where
  "publish_attempts ds request candidate metadata manifest revalidate replace_ranges [] expected_base =
     io_raise (acquisition_error (ds_redact ds) ConcurrentPublicationError ''cache publication conflicted three times'' None)"
| "publish_attempts ds request candidate metadata manifest revalidate replace_ranges (n # ns) expected_base =
     (let namespace = generation_namespace request in
      io_bind (io_write (make_directories namespace True)) (\<lambda>_.
      io_bind (io_read (\<lambda>fs. read_generation ds fs request)) (\<lambda>latest.
      if cg_status latest = INVALIDATED then io_raise (publication_error ds ''current cache generation is invalid'')
      else io_bind (io_result (assemble ds expected_base latest candidate (mf_lineage manifest) replace_ranges)) (\<lambda>(assembled, lineage).
      io_bind (io_result (revalidated ds request revalidate assembled)) (\<lambda>checked.
      io_bind (\<lambda>w. (Inr (), case ds_conflict_probe ds of None \<Rightarrow> w
          | Some probe \<Rightarrow> w\<lparr>io_fs := probe n (cg_generation_id latest) (io_fs w)\<rparr>)) (\<lambda>_.
      io_bind (io_read (\<lambda>fs. current_generation_id ds fs request)) (\<lambda>found.
      io_bind (io_result found) (\<lambda>observed.
      if observed \<noteq> cg_generation_id latest
      then publish_attempts ds request candidate metadata manifest revalidate replace_ranges ns (cg_generation_id latest)
      else io_bind (publish_locked ds request checked metadata (manifest\<lparr>mf_lineage := lineage\<rparr>) namespace
            (cg_generation_id latest)) (\<lambda>publication.
        if ds_archives_publications ds then archive_after_commit ds request publication
        else io_return publication)))))))))"

definition publish_generation ::
    "data_store \<Rightarrow> acquisition_request \<Rightarrow> canonical_frame \<Rightarrow> (string \<times> json) list \<Rightarrow> acquisition_manifest \<Rightarrow> string option \<Rightarrow>
     (canonical_frame \<Rightarrow> exn + revalidation) option \<Rightarrow> (int \<times> int) list \<Rightarrow> generation_publication io" where
  "publish_generation ds request frame metadata manifest base_generation_id revalidate replace_ranges =
     (if mf_request manifest \<noteq> request
      then io_raise (violation (ds_redact ds) ''manifest request does not match cache namespace'')
      else if mf_started_at manifest = None \<or> mf_completed_at manifest = None
      then io_raise (violation (ds_redact ds) ''publication manifest requires UTC acquisition times'')
      else if mf_status manifest \<notin> {SUCCESS, PARTIAL_SUCCESS}
      then io_raise (violation (ds_redact ds) ''only successful acquisitions may publish cache data'')
      else io_bind (io_result (validate_canonical (ds_redact ds) frame request)) (\<lambda>_.
        case json_safe_json (ds_redact ds) (JObj metadata) of
          JObj supplied \<Rightarrow> publish_attempts ds request frame supplied manifest revalidate replace_ranges [1, 2, 3] base_generation_id
        | _ \<Rightarrow> io_raise (violation (ds_redact ds) ''cache metadata must serialize to a JSON object'')))"

definition archive_committed_publication ::
    "data_store \<Rightarrow> acquisition_request \<Rightarrow> generation_publication \<Rightarrow> generation_publication io" where
  "archive_committed_publication ds request publication =
     (if ds_archives_publications ds then io_return publication else archive_after_commit ds request publication)"

section \<open>Pins, reports and cleanup\<close>

definition json_suffix :: "string \<Rightarrow> bool" where
  "json_suffix name \<longleftrightarrow> 5 \<le> length name \<and> drop (length name - 5) name = ''.json''"

definition file_stem :: "string \<Rightarrow> string" where
  "file_stem name = take (length name - 5) name"

text \<open>The glob patterns \<open>1/*/*/*/pins/*.json\<close> and \<open>1/*/*/*/CURRENT.json\<close>.\<close>

definition pin_paths :: "fs \<Rightarrow> (path \<times> path) list" where
  "pin_paths fs = map (\<lambda>p. (take 4 p, p)) (filter (\<lambda>p. length p = 6 \<and> hd p = CONTRACT_VERSION \<and>
     p ! 4 = ''pins'' \<and> json_suffix (p ! 5)) (map fst fs))"

definition pointer_namespaces :: "fs \<Rightarrow> path list" where
  "pointer_namespaces fs = map (take 4) (filter (\<lambda>p. length p = 5 \<and> hd p = CONTRACT_VERSION \<and>
     p ! 4 = ''CURRENT.json'') (map fst fs))"

definition load_pin :: "fs \<Rightarrow> path \<Rightarrow> path \<Rightarrow> exn + (string \<times> string)" where
  "load_pin fs namespace pin_path =
     (if is_symlink fs pin_path \<or> is_symlink fs (namespace @ [''pins''])
      then Inl (value_error ''generation pin must not be symbolic'')
      else rbind (validate_namespace_path fs namespace) (\<lambda>_.
        rbind (load_json fs pin_path) (\<lambda>document.
        if jkeys document \<noteq> {''schema_version'', ''generation_id'', ''acquisition_id''}
        then Inl (value_error ''generation pin has an invalid schema'')
        else if jget document ''schema_version'' \<noteq> JStr POINTER_SCHEMA_VERSION
        then Inl (value_error ''generation pin schema version is incompatible'')
        else rbind (validate_generation_id (jget document ''generation_id'')) (\<lambda>generation_id.
          rbind (validate_acquisition_id (jget document ''acquisition_id'')) (\<lambda>acquisition_id.
          if file_stem (last pin_path) \<noteq> generation_id
          then Inl (value_error ''generation pin identity does not match its filename'')
          else Inr (generation_id, acquisition_id))))))"

definition pinned_embedded_manifest :: "fs \<Rightarrow> path \<Rightarrow> string \<Rightarrow> string \<Rightarrow> exn + json" where
  "pinned_embedded_manifest fs namespace generation_id acquisition_id =
     rbind (referenced_generation_path fs namespace generation_id) (\<lambda>generation.
       let p = generation @ [''acquisition-manifest.json''] in
       if is_symlink fs p \<or> \<not> is_file fs p then Inl (value_error ''pinned embedded manifest is unavailable'')
       else rbind (load_json fs p) (\<lambda>document.
         if jget document ''acquisition_id'' \<noteq> JStr acquisition_id \<or> members (jget document ''cache'') = None \<or>
            jget (jget document ''cache'') ''generation_id'' \<noteq> JStr generation_id
         then Inl (value_error ''pinned embedded manifest identities are incompatible'')
         else Inr document))"

definition pinned_report :: "fs \<Rightarrow> path \<times> path \<Rightarrow> exn + (string \<times> json)" where
  "pinned_report fs = (\<lambda>(namespace, pin_path).
     rbind (load_pin fs namespace pin_path) (\<lambda>(generation_id, acquisition_id).
       rbind (pinned_embedded_manifest fs namespace generation_id acquisition_id) (\<lambda>document.
         Inr (acquisition_id, document))))"

definition current_embedded_manifest :: "data_store \<Rightarrow> fs \<Rightarrow> path \<Rightarrow> exn + (string \<times> string \<times> json)" where
  "current_embedded_manifest ds fs namespace =
     rbind (load_pointer ds fs namespace True) (\<lambda>pointer.
       let generation_id = text_of (jget (case pointer of Some p \<Rightarrow> p | None \<Rightarrow> JNull) ''generation_id'') in
       rbind (load_json fs (generation_path namespace generation_id @ [''acquisition-manifest.json''])) (\<lambda>raw.
       rbind (validate_acquisition_id (jget raw ''acquisition_id'')) (\<lambda>acquisition_id.
       rbind (pinned_embedded_manifest fs namespace generation_id acquisition_id) (\<lambda>document.
         Inr (generation_id, acquisition_id, document)))))"

definition current_embedded_manifests :: "data_store \<Rightarrow> fs \<Rightarrow> (path \<times> string \<times> string \<times> json) list" where
  "current_embedded_manifests ds fs = concat (map (\<lambda>namespace.
     case current_embedded_manifest ds fs namespace of Inr r \<Rightarrow> [(namespace, r)] | Inl _ \<Rightarrow> [])
     (pointer_namespaces fs))"

definition lookup_manifest :: "data_store \<Rightarrow> fs \<Rightarrow> fs \<Rightarrow> string \<Rightarrow> exn + json option" where
  "lookup_manifest ds fs archive acquisition_id =
     rbind (if ds_archives_publications ds
            then lookup_report (ds_redact ds) (sv_digest (ds_service ds)) archive acquisition_id else Inr None) (\<lambda>archived.
       if archived \<noteq> None then Inr archived
       else (case find (\<lambda>x. case pinned_report fs x of Inr (a, d) \<Rightarrow> a = acquisition_id | Inl _ \<Rightarrow> False) (pin_paths fs) of
           Some x \<Rightarrow> Inr (case pinned_report fs x of Inr (a, d) \<Rightarrow> Some d | Inl _ \<Rightarrow> None)
         | None \<Rightarrow> Inr (map_option (\<lambda>(namespace, generation_id, a, d). d)
             (find (\<lambda>(namespace, generation_id, a, d). \<not> path_exists fs (namespace @ [''pins'', generation_id @ ''.json'']) \<and>
                a = acquisition_id) (current_embedded_manifests ds fs)))))"

text \<open>One pin of the maintenance: archive its report, then remove the pin; the error if it fails.\<close>

definition archival_warning :: "exn \<Rightarrow> string" where
  "archival_warning e = ''manifest archival retry failed: '' @ exn_type_name (exn_class e)"

definition maintain_pin :: "data_store \<Rightarrow> path \<times> path \<Rightarrow> string list \<Rightarrow> string list io" where
  "maintain_pin ds x warnings =
     io_catch (io_bind (io_read (\<lambda>fs. pinned_report fs x)) (\<lambda>found.
       io_bind (io_result found) (\<lambda>(acquisition_id, document).
       io_bind (archive_document (ds_redact ds) (sv_digest (ds_service ds)) acquisition_id document) (\<lambda>_.
       io_bind (io_write (unlink_file (snd x) False)) (\<lambda>_.
       io_bind io_sync (\<lambda>_. io_return warnings))))))
     (\<lambda>e. io_return (warnings @ [archival_warning e]))"

definition maintain_current :: "data_store \<Rightarrow> path \<times> string \<times> string \<times> json \<Rightarrow> string list \<Rightarrow> string list io" where
  "maintain_current ds = (\<lambda>(namespace, generation_id, acquisition_id, document) warnings w.
     if path_exists (io_fs w) (namespace @ [''pins'', generation_id @ ''.json'']) then (Inr warnings, w)
     else (case lookup_report (ds_redact ds) (sv_digest (ds_service ds)) (io_archive w) acquisition_id of
         Inl e \<Rightarrow> (Inl e, w)
       | Inr (Some _) \<Rightarrow> (Inr warnings, w)
       | Inr None \<Rightarrow> io_catch (io_bind (archive_document (ds_redact ds) (sv_digest (ds_service ds)) acquisition_id document)
             (\<lambda>_. io_return warnings)) (\<lambda>e. io_return (warnings @ [archival_warning e])) w))"

fun io_fold :: "('a \<Rightarrow> 's \<Rightarrow> 's io) \<Rightarrow> 'a list \<Rightarrow> 's \<Rightarrow> 's io" where
  "io_fold f [] s = io_return s"
| "io_fold f (x # xs) s = io_bind (f x s) (io_fold f xs)"

definition maintain_manifest_archive :: "data_store \<Rightarrow> string list io" where
  "maintain_manifest_archive ds =
     (if \<not> ds_archives_publications ds
      then io_return [''manifest maintenance skipped because no repository is configured'']
      else io_bind (io_read pin_paths) (\<lambda>pins.
        io_bind (io_fold (maintain_pin ds) pins []) (\<lambda>warnings.
        io_bind (io_read (current_embedded_manifests ds)) (\<lambda>current.
        io_fold (maintain_current ds) current warnings))))"

definition pinned_generation_ids :: "fs \<Rightarrow> path \<Rightarrow> string list" where
  "pinned_generation_ids fs namespace =
     (if \<not> path_exists fs (namespace @ [''pins'']) then []
      else filter safe_id (map file_stem (filter json_suffix (children fs (namespace @ [''pins''])))))"

definition retained_previous :: "data_store \<Rightarrow> fs \<Rightarrow> acquisition_request \<Rightarrow> path \<Rightarrow> json \<Rightarrow> string list" where
  "retained_previous ds fs request namespace previous = (case previous of
     JStr previous_id \<Rightarrow>
       (case load_json fs (generation_path namespace previous_id @ [''cache-metadata.json'']) of
          Inr metadata \<Rightarrow> if generation_directory_valid ds fs request (generation_path namespace previous_id) metadata
            then [previous_id] else []
        | Inl e \<Rightarrow> [])
   | _ \<Rightarrow> [])"

definition remove_generation :: "path \<Rightarrow> string \<Rightarrow> string list \<times> string list \<Rightarrow> (string list \<times> string list) io" where
  "remove_generation namespace name = (\<lambda>(removed, warnings).
     io_catch (io_bind (io_write (remove_tree (generation_path namespace name))) (\<lambda>_.
         io_return (removed @ [name], warnings)))
       (\<lambda>e. if is_os_error e then io_return (removed, warnings @ [''cleanup failed for generation '' @ name])
            else io_raise e))"

definition cleanup_generations :: "data_store \<Rightarrow> acquisition_request \<Rightarrow> cleanup_result io" where
  "cleanup_generations ds request w =
     (let namespace = generation_namespace request; fs = io_fs w; generations = namespace @ [''generations''] in
      if \<not> path_exists fs generations then (Inr \<lparr>cl_removed_generation_ids = [], cl_warnings = []\<rparr>, w)
      else let current = read_generation ds fs request in
        if cg_status current \<notin> {FULL_HIT, PARTIAL_HIT}
        then (Inr \<lparr>cl_removed_generation_ids = [],
                cl_warnings = [''generation cleanup skipped because CURRENT is invalid'']\<rparr>, w)
        else io_bind (io_result (load_pointer ds fs namespace True)) (\<lambda>pointer.
          let retain = (case cg_generation_id current of None \<Rightarrow> [] | Some i \<Rightarrow> [i]) @ pinned_generation_ids fs namespace @
                retained_previous ds fs request namespace
                  (jget (case pointer of Some p \<Rightarrow> p | None \<Rightarrow> JNull) ''previous_generation_id'');
              names = filter (\<lambda>name. is_dir fs (generations @ [name]) \<and> name \<notin> set retain) (children fs generations)
          in io_bind (io_fold (remove_generation namespace) names ([], [])) (\<lambda>(removed, warnings).
             io_bind (if removed = [] then io_return warnings
                else io_catch (io_bind io_sync (\<lambda>_. io_return warnings)) (\<lambda>e.
                  io_return (warnings @ [''generation cleanup directory sync failed'']))) (\<lambda>warnings.
             io_return \<lparr>cl_removed_generation_ids = sort removed, cl_warnings = warnings\<rparr>))) w)"

end
