(* ===== verification/Publication.thy ===== *)
theory Publication
  imports Data_Store
begin

text \<open>
  What the store of cache generations guarantees: reading is fail-closed and stable under additions,
  publishing is atomic for every failure of its calls, and cleanup keeps what is in use.
\<close>

section \<open>Reading\<close>

lemma check_pointer_Inr: "check_pointer ds pointer = Inr p \<Longrightarrow> p = pointer"
  by (auto simp: check_pointer_def Let_def result_simps split: if_splits)

lemma load_pointer_Inr:
  "load_pointer ds fs namespace required = Inr (Some pointer) \<longleftrightarrow>
     dict_get fs (pointer_path namespace) = Some (RegularFile (JsonText pointer)) \<and> members pointer \<noteq> None \<and>
     check_pointer ds pointer = Inr pointer"
  by (auto simp: load_pointer_def Let_def result_simps load_json_def load_json_value_def read_bytes_def path_exists_def
      is_symlink_def node_at_def dest: check_pointer_Inr
      split: if_splits option.splits node.splits content.splits)

lemma read_referenced_status:
  "read_referenced ds fs request namespace pointer = Inr g \<Longrightarrow> cg_status g = FULL_HIT"
  by (auto simp: read_referenced_def Let_def result_simps split: if_splits)

lemma read_generation_cases:
  obtains (miss) "read_generation ds fs request = no_generation MISS None"
      "\<not> path_exists fs (pointer_path (generation_namespace request))"
      "\<not> is_symlink fs (pointer_path (generation_namespace request))"
    | (invalid) reason where "read_generation ds fs request = no_generation INVALIDATED (Some reason)"
    | (hit) pointer where "read_referenced ds fs request (generation_namespace request) pointer = Inr (read_generation ds fs request)"
      "dict_get fs (pointer_path (generation_namespace request)) = Some (RegularFile (JsonText pointer))"
      "members pointer \<noteq> None" "check_pointer ds pointer = Inr pointer"
proof -
  let ?ns = "generation_namespace request"
  consider "is_symlink fs (pointer_path ?ns)"
    | "\<not> is_symlink fs (pointer_path ?ns)" "\<not> path_exists fs (pointer_path ?ns)"
    | "\<not> is_symlink fs (pointer_path ?ns)" "path_exists fs (pointer_path ?ns)" by blast
  then show ?thesis
  proof cases
    case 1
    then show ?thesis using invalid by (simp add: read_generation_def Let_def)
  next
    case 2
    then show ?thesis using miss by (simp add: read_generation_def Let_def)
  next
    case 3
    show ?thesis
    proof (cases "rbind (load_pointer ds fs ?ns True) (\<lambda>pointer.
        read_referenced ds fs request ?ns (case pointer of Some p \<Rightarrow> p | None \<Rightarrow> JNull))")
      case (Inl e)
      with 3 show ?thesis using invalid by (simp add: read_generation_def Let_def)
    next
      case (Inr g)
      then obtain p where p: "load_pointer ds fs ?ns True = Inr p"
          and g: "read_referenced ds fs request ?ns (case p of Some p \<Rightarrow> p | None \<Rightarrow> JNull) = Inr g"
        by (auto simp: result_simps)
      have "p \<noteq> None" using p 3 by (auto simp: load_pointer_def Let_def result_simps split: if_splits)
      then obtain pointer where pointer: "p = Some pointer" by auto
      have "read_generation ds fs request = g" using 3 Inr by (simp add: read_generation_def Let_def)
      with p g pointer show ?thesis using hit by (simp add: load_pointer_Inr)
    qed
  qed
qed

lemma read_generation_hit:
  assumes "read_referenced ds fs request (generation_namespace request) pointer = Inr g"
    and "dict_get fs (pointer_path (generation_namespace request)) = Some (RegularFile (JsonText pointer))"
    and "members pointer \<noteq> None" "check_pointer ds pointer = Inr pointer"
  shows "read_generation ds fs request = g"
proof -
  have "load_pointer ds fs (generation_namespace request) True = Inr (Some pointer)"
    using assms by (simp add: load_pointer_Inr)
  then show ?thesis using assms(1,2)
    by (simp add: read_generation_def Let_def is_symlink_def path_exists_def node_at_def result_simps)
qed

lemma check_artifact_Inr:
  "check_artifact ds fs generation artifacts name () = Inr () \<longleftrightarrow>
     (\<exists>c. dict_get fs (generation @ [name]) = Some (RegularFile c) \<and>
        jget (jget artifacts name) ''sha256'' = JStr (ds_content_hash ds c))"
  by (auto simp: check_artifact_def Let_def result_simps sha256_file_def read_bytes_def is_file_def is_symlink_def node_at_def
      split: if_splits option.splits node.splits)

lemma check_artifacts_Inr:
  "rfold (check_artifact ds fs generation artifacts) names () = Inr u \<longleftrightarrow>
     (\<forall>name \<in> set names. check_artifact ds fs generation artifacts name () = Inr ())"
  using rfold_unit [of "check_artifact ds fs generation artifacts" names] by simp

lemma check_pointer_ids:
  assumes "check_pointer ds pointer = Inr p"
  shows "jget pointer ''generation_id'' = JStr (text_of (jget pointer ''generation_id''))"
    and "safe_id (text_of (jget pointer ''generation_id''))"
  using assms by (auto simp: check_pointer_def Let_def result_simps validate_generation_id_def split: if_splits json.splits)

text \<open>The artifacts of a generation with the evidence of its pointer.\<close>

definition artifacts_match :: "data_store \<Rightarrow> fs \<Rightarrow> path \<Rightarrow> json \<Rightarrow> bool" where
  "artifacts_match ds fs generation pointer \<longleftrightarrow> (\<forall>name \<in> set artifact_names.
     \<exists>c. dict_get fs (generation @ [name]) = Some (RegularFile c) \<and>
       jget (jget (jget pointer ''artifacts'') name) ''sha256'' = JStr (ds_content_hash ds c))"

lemma read_parquet_Inr:
  assumes "read_parquet fs p = Inr frame" and "dict_get fs p = Some (RegularFile c)"
  shows "c = ParquetData frame"
  using assms by (auto simp: read_parquet_def read_bytes_def node_at_def result_simps split: content.splits)

lemma referenced_generation_path_Inr:
  "referenced_generation_path fs namespace gid = Inr p \<Longrightarrow> p = generation_path namespace gid"
  by (auto simp: referenced_generation_path_def result_simps split: if_splits)

lemma read_referenced_Inr:
  assumes "read_referenced ds fs request namespace pointer = Inr g"
  defines "gid \<equiv> text_of (jget pointer ''generation_id'')"
  obtains frame metadata manifest where
    "g = \<lparr>cg_status = FULL_HIT, cg_frame = Some frame, cg_metadata = Some metadata, cg_manifest = Some manifest,
       cg_generation_id = Some gid, cg_reason = None\<rparr>"
    "validate_canonical (ds_redact ds) frame request = Inr ()"
    "artifacts_match ds fs (generation_path namespace gid) pointer"
    "dict_get fs (generation_path namespace gid @ [''bars.parquet'']) = Some (RegularFile (ParquetData frame))"
    "embedded_manifest_compatible request namespace gid (JStr (ds_content_hash ds (ParquetData frame))) manifest"
    "referenced_generation_path fs namespace gid = Inr (generation_path namespace gid)"
    "load_json fs (generation_path namespace gid @ [''acquisition-manifest.json'']) = Inr manifest"
proof -
  let ?gen = "generation_path namespace gid"
  from assms(1) obtain gen where "referenced_generation_path fs namespace gid = Inr gen"
    by (auto simp: read_referenced_def Let_def result_simps gid_def)
  with referenced_generation_path_Inr have ref: "referenced_generation_path fs namespace gid = Inr ?gen" by metis
  from assms(1) ref obtain frame metadata manifest where g:
      "g = \<lparr>cg_status = FULL_HIT, cg_frame = Some frame, cg_metadata = Some metadata, cg_manifest = Some manifest,
         cg_generation_id = Some gid, cg_reason = None\<rparr>"
      and ok: "validate_canonical (ds_redact ds) frame request = Inr ()"
      and arts: "\<forall>name \<in> set artifact_names. check_artifact ds fs ?gen (jget pointer ''artifacts'') name () = Inr ()"
      and bars: "read_parquet fs (?gen @ [''bars.parquet'']) = Inr frame"
      and man: "embedded_manifest_compatible request namespace gid
          (jget (jget (jget pointer ''artifacts'') ''bars.parquet'') ''sha256'') manifest"
      and doc: "load_json fs (?gen @ [''acquisition-manifest.json'']) = Inr manifest"
    by (auto simp: read_referenced_def Let_def result_simps check_artifacts_Inr gid_def split: if_splits)
  from arts have match: "artifacts_match ds fs ?gen pointer"
    by (simp add: artifacts_match_def check_artifact_Inr)
  then obtain c where c: "dict_get fs (?gen @ [''bars.parquet'']) = Some (RegularFile c)"
      "jget (jget (jget pointer ''artifacts'') ''bars.parquet'') ''sha256'' = JStr (ds_content_hash ds c)"
    by (auto simp: artifacts_match_def artifact_names_def)
  with read_parquet_Inr [OF bars] have "c = ParquetData frame" by blast
  with that g ok match c man ref doc show ?thesis by metis
qed


section \<open>Additions to the directory\<close>

text \<open>The new file system has every node of the old one, and no new links.\<close>

definition fs_adds :: "fs \<Rightarrow> fs \<Rightarrow> bool" where
  "fs_adds old new \<longleftrightarrow> fs_extends old new \<and> (\<forall>p. is_symlink new p \<longrightarrow> is_symlink old p)"

lemma fs_adds_refl [simp]: "fs_adds fs fs"
  by (simp add: fs_adds_def)

lemma fs_adds_trans: "fs_adds a b \<Longrightarrow> fs_adds b c \<Longrightarrow> fs_adds a c"
  by (auto simp: fs_adds_def fs_extends_def)

lemma fs_adds_symlink: "fs_adds old new \<Longrightarrow> is_symlink new p = is_symlink old p"
  by (auto simp: fs_adds_def fs_extends_def is_symlink_def split: option.splits node.splits)

lemma fs_adds_get: "fs_adds old new \<Longrightarrow> dict_get old p = Some n \<Longrightarrow> dict_get new p = Some n"
  by (simp add: fs_adds_def fs_extends_def)

lemma fs_adds_node: "fs_adds old new \<Longrightarrow> node_at old p = Some n \<Longrightarrow> node_at new p = Some n"
  by (auto simp: node_at_def dest: fs_adds_get split: option.splits)

lemma artifact_read_Inr:
  "load_json fs p = Inr j \<longleftrightarrow> read_bytes fs p = Inr (JsonText j) \<and> members j \<noteq> None"
  "read_parquet fs p = Inr f \<longleftrightarrow> read_bytes fs p = Inr (ParquetData f)"
  "sha256_file ds fs p = Inr h \<longleftrightarrow> (\<exists>c. read_bytes fs p = Inr c \<and> h = ds_content_hash ds c)"
  by (cases "read_bytes fs p"; auto simp: load_json_def load_json_value_def read_parquet_def sha256_file_def
      split: content.splits if_splits)+

lemma fs_adds_reads:
  assumes "fs_adds old new"
  shows "is_dir old p \<Longrightarrow> is_dir new p" "is_file old p \<Longrightarrow> is_file new p" "path_exists old p \<Longrightarrow> path_exists new p"
    "read_bytes old p = Inr c \<Longrightarrow> read_bytes new p = Inr c" "load_json old p = Inr j \<Longrightarrow> load_json new p = Inr j"
    "read_parquet old p = Inr f \<Longrightarrow> read_parquet new p = Inr f" "sha256_file ds old p = Inr h \<Longrightarrow> sha256_file ds new p = Inr h"
proof -
  show rb: "read_bytes old p = Inr c \<Longrightarrow> read_bytes new p = Inr c" for c
    by (auto simp: read_bytes_def fs_adds_node [OF assms] split: option.splits node.splits)
  show "is_dir old p \<Longrightarrow> is_dir new p" "is_file old p \<Longrightarrow> is_file new p" "path_exists old p \<Longrightarrow> path_exists new p"
    by (auto simp: is_dir_def is_file_def path_exists_def fs_adds_node [OF assms] split: option.splits node.splits)
  show "load_json old p = Inr j \<Longrightarrow> load_json new p = Inr j" "read_parquet old p = Inr f \<Longrightarrow> read_parquet new p = Inr f"
    "sha256_file ds old p = Inr h \<Longrightarrow> sha256_file ds new p = Inr h"
    by (auto simp: artifact_read_Inr dest: rb)
qed

lemma fs_adds_directory_valid:
  assumes "fs_adds old new" and "generation_directory_valid ds old request generation metadata"
  shows "generation_directory_valid ds new request generation metadata"
  using assms(2) fs_adds_reads(2,5,6,7) [OF assms(1)]
  by (fastforce simp: generation_directory_valid_def result_simps list_all_iff split: if_splits sum.splits)

lemma fs_adds_referenced_path:
  assumes "fs_adds old new" and "referenced_generation_path old namespace gid = Inr p"
  shows "referenced_generation_path new namespace gid = Inr p"
  using assms(2) fs_adds_reads(1) [OF assms(1)] fs_adds_symlink [OF assms(1)]
  by (auto simp: referenced_generation_path_def validate_namespace_path_def result_simps split: if_splits)

lemma read_referenced_adds:
  assumes "fs_adds old new" and "read_referenced ds old request namespace pointer = Inr g"
  shows "read_referenced ds new request namespace pointer = Inr g"
proof -
  have "artifacts_match ds old generation pointer \<Longrightarrow> artifacts_match ds new generation pointer" for generation
    by (fastforce simp: artifacts_match_def dest: fs_adds_get [OF assms(1)])
  then have arts: "rfold (check_artifact ds old generation (jget pointer ''artifacts'')) artifact_names () = Inr u \<Longrightarrow>
      rfold (check_artifact ds new generation (jget pointer ''artifacts'')) artifact_names () = Inr u" for generation u
    unfolding check_artifacts_Inr by (simp add: check_artifact_Inr artifacts_match_def)
  show ?thesis
    using assms(2) arts fs_adds_directory_valid [OF assms(1)] fs_adds_referenced_path [OF assms(1)]
      fs_adds_reads(5,6) [OF assms(1)]
    by (fastforce simp: read_referenced_def Let_def result_simps split: if_splits)
qed

lemma read_generation_adds:
  assumes "fs_adds old new" and "cg_status (read_generation ds old request) \<noteq> INVALIDATED"
    and "dict_get new (pointer_path (generation_namespace request)) = dict_get old (pointer_path (generation_namespace request))"
  shows "read_generation ds new request = read_generation ds old request"
proof (cases rule: read_generation_cases [of ds old request])
  case miss
  with assms(3) have "\<not> path_exists new (pointer_path (generation_namespace request))"
    by (simp add: path_exists_def node_at_def)
  with miss fs_adds_symlink [OF assms(1)] show ?thesis by (simp add: read_generation_def Let_def)
next
  case (hit pointer)
  show ?thesis
    by (rule read_generation_hit [OF read_referenced_adds [OF assms(1) hit(1)]]) (use hit(2-) assms(3) in simp_all)
qed (use assms(2) in \<open>simp add: no_generation_def\<close>)

section \<open>Publishing\<close>

text \<open>What the calls of a publication keep until the pointer is replaced: nothing but additions, the
  pointer as it was, the archive untouched.\<close>

definition quiet :: "path \<Rightarrow> fs \<Rightarrow> fs \<Rightarrow> io_world \<Rightarrow> bool" where
  "quiet namespace old archive w \<longleftrightarrow> io_archive w = archive \<and> fs_adds old (io_fs w) \<and>
     dict_get (io_fs w) (pointer_path namespace) = dict_get old (pointer_path namespace)"

lemma is_symlink_set [simp]: "is_symlink (dict_set fs p n) q =
    (if q = p then (case n of SymbolicLink _ \<Rightarrow> True | _ \<Rightarrow> False) else is_symlink fs q)"
  by (simp add: is_symlink_def dict_laws split: node.splits)

lemma is_symlink_del [simp]: "is_symlink (dict_del fs p) q = (q \<noteq> p \<and> is_symlink fs q)"
  by (auto simp: is_symlink_def dict_laws)

lemma fs_adds_set:
  assumes "fs_adds old fs" and "dict_get old p = None"
  shows "fs_adds old (dict_set fs p (RegularFile c))"
  using assms by (auto simp: fs_adds_def fs_extends_def dict_laws)

lemma fs_adds_create: "fs_adds old fs \<Longrightarrow> create_file p c fs = Inr fs' \<Longrightarrow> fs_adds old fs' \<and> dict_get old p = None"
  by (cases "dict_get old p")
    (auto simp: create_file_def split: if_splits intro!: fs_adds_set dest: fs_adds_get)

lemma fs_adds_make_directories:
  assumes "fs_adds old fs" and "make_directories p ok fs = Inr fs'"
  shows "fs_adds old fs'"
proof -
  have "is_symlink fs' q \<Longrightarrow> is_symlink fs q" for q
    using make_directories_get [OF assms(2), of q]
    by (cases "dict_get fs q") (auto simp: is_symlink_def split: option.splits node.splits)
  then show ?thesis using assms make_directories_get(1) [OF assms(2)]
    by (auto simp: fs_adds_def fs_extends_def)
qed

lemma quiet_refl [simp]: "quiet namespace (io_fs w) (io_archive w) w"
  by (simp add: quiet_def)

lemma quiet_write:
  assumes "\<And>fs fs'. fs_adds old fs \<Longrightarrow> f fs = Inr fs' \<Longrightarrow> fs_adds old fs' \<and>
      dict_get fs' (pointer_path namespace) = dict_get fs (pointer_path namespace)"
  shows "io_keeps (quiet namespace old archive) (io_write f)"
  using assms by (auto simp: io_keeps_def io_write_def Let_def quiet_def split: sum.splits)

lemma quiet_basic [intro, simp]:
  "io_keeps (quiet namespace old archive) io_sync" "io_keeps (quiet namespace old archive) fresh_id"
  "io_keeps (quiet namespace old archive) utc_now" "io_keeps (quiet namespace old archive) (hash_artifact ds p)"
proof -
  show "io_keeps (quiet namespace old archive) io_sync"
    unfolding io_sync_def by (rule quiet_write) auto
  show "io_keeps (quiet namespace old archive) (hash_artifact ds p)"
    unfolding hash_artifact_def by (intro io_keeps_bind) auto
qed (auto simp: io_keeps_def io_simps quiet_def)

lemma quiet_overwrite:
  assumes "dict_get old p = None" and "p \<noteq> pointer_path namespace"
  shows "io_keeps (quiet namespace old archive) (io_write (overwrite_file p c))"
  by (rule quiet_write) (use assms in \<open>auto simp: overwrite_file_def dict_laws intro!: fs_adds_set\<close>)

lemma quiet_new_file:
  assumes "p \<noteq> pointer_path namespace"
  shows "io_keeps (quiet namespace old archive) (write_new_file p c)"
proof -
  have "quiet namespace old archive w'" if w: "quiet namespace old archive w" "write_new_file p c w = (r, w')" for w r w'
  proof -
    let ?create = "io_write (create_file p (OtherBytes []))"
    have keeps: "io_keeps (quiet namespace old archive) ?create"
    proof (rule quiet_write)
      fix fs fs' assume "fs_adds old fs" "create_file p (OtherBytes []) fs = Inr fs'"
      then show "fs_adds old fs' \<and> dict_get fs' (pointer_path namespace) = dict_get fs (pointer_path namespace)"
        using fs_adds_create [of old fs] assms by (auto simp: create_file_def dict_laws split: if_splits)
    qed
    have absent: "dict_get old p = None" if "?create w = (Inr u, w1)" for u w1
      using that w(1) fs_adds_create by (auto simp: io_write_Inr quiet_def)
    have rest: "dict_get old p = None \<Longrightarrow> io_keeps (quiet namespace old archive)
        (io_bind (io_write (overwrite_file p c)) (\<lambda>_. io_sync))"
      by (intro io_keeps_bind quiet_overwrite assms quiet_basic)
    from w(2) [unfolded write_new_file_def io_bind_run [of ?create]] show ?thesis
      using io_keepsD [OF keeps w(1)] absent io_keepsD [OF rest] by blast
  qed
  then show ?thesis unfolding io_keeps_def by (metis prod.collapse)
qed

lemma artifact_not_pointer [simp]:
  "generation_path namespace gid @ [name] \<noteq> pointer_path namespace"
  "namespace @ [''.CURRENT.'' @ hex @ ''.tmp''] \<noteq> pointer_path namespace"
  "namespace @ [''pins'', name] \<noteq> pointer_path namespace"
  by (simp_all add: generation_path_def pointer_path_def)

lemma quiet_stage:
  assumes "\<forall>name. dict_get old (generation_path namespace gid @ [name]) = None"
  shows "io_keeps (quiet namespace old archive) (stage_artifacts ds frame document manifest namespace gid)"
  unfolding stage_artifacts_def write_bars_def hash_artifacts_def Let_def write_json_def using assms
  by (intro io_keeps_bind quiet_overwrite quiet_new_file quiet_basic io_keeps_basic artifact_not_pointer) simp_all

lemma hash_artifact_Inr:
  "hash_artifact ds p w = (Inr h, w') \<longleftrightarrow> w' = w \<and> (\<exists>c. read_bytes (io_fs w) p = Inr c \<and> h = ds_content_hash ds c)"
  by (auto simp: hash_artifact_def io_bind_Inr io_simps artifact_read_Inr)

lemma hash_artifacts_Inr:
  "hash_artifacts ds generation w = (Inr hash_of, w') \<longleftrightarrow> w' = w \<and>
     (\<exists>h1 h2 h3. hash_artifact ds (generation @ [''bars.parquet'']) w = (Inr h1, w) \<and>
       hash_artifact ds (generation @ [''cache-metadata.json'']) w = (Inr h2, w) \<and>
       hash_artifact ds (generation @ [''acquisition-manifest.json'']) w = (Inr h3, w) \<and>
       hash_of = (\<lambda>name. if name = ''bars.parquet'' then h1 else if name = ''cache-metadata.json'' then h2 else h3))"
  unfolding hash_artifacts_def io_bind_Inr io_run by (auto simp: hash_artifact_Inr)

lemma read_bytes_file [simp]: "dict_get fs p = Some (RegularFile c) \<Longrightarrow> read_bytes fs p = Inr c"
  by (simp add: read_bytes_def node_at_def)

lemma stage_artifacts_Inr:
  assumes "stage_artifacts ds frame document manifest namespace gid w = (Inr (final, hash_of), w')"
  defines "generation \<equiv> generation_path namespace gid"
  shows "final = final_manifest manifest gid (join_path namespace) (ds_content_hash ds (ParquetData frame))"
    and "dict_get (io_fs w') (generation @ [''bars.parquet'']) = Some (RegularFile (ParquetData frame))"
    and "dict_get (io_fs w') (generation @ [''cache-metadata.json'']) = Some (RegularFile (JsonText (json_sorted document)))"
    and "dict_get (io_fs w') (generation @ [''acquisition-manifest.json'']) =
      Some (RegularFile (JsonText (json_sorted (manifest_to_dict (ds_redact ds) (ds_fmt ds) final))))"
    and "hash_of ''bars.parquet'' = ds_content_hash ds (ParquetData frame)"
    and "hash_of ''cache-metadata.json'' = ds_content_hash ds (JsonText (json_sorted document))"
    and "hash_of ''acquisition-manifest.json'' =
      ds_content_hash ds (JsonText (json_sorted (manifest_to_dict (ds_redact ds) (ds_fmt ds) final)))"
proof -
  let ?bars = "generation @ [''bars.parquet'']" and ?meta = "generation @ [''cache-metadata.json'']"
    and ?man = "generation @ [''acquisition-manifest.json'']"
  from assms(1) obtain w1 w1' w2 w3 w4 h0 where
      bars1: "write_bars ?bars frame w = (Inr (), w1)" and h0: "hash_artifact ds ?bars w1 = (Inr h0, w1')"
      and final: "final_manifest manifest gid (join_path namespace) h0 = final"
      and w2': "write_new_file ?meta (JsonText (json_sorted document)) w1' = (Inr (), w2)"
      and w3: "write_new_file ?man (JsonText (json_sorted (manifest_to_dict (ds_redact ds) (ds_fmt ds)
        (final_manifest manifest gid (join_path namespace) h0)))) w2 = (Inr (), w3)"
      and hs: "hash_artifacts ds generation w3 = (Inr hash_of, w4)" and w4: "io_fs w' = io_fs w4"
    unfolding stage_artifacts_def Let_def write_json_def generation_def
    by (auto simp: io_bind_Inr io_sync_Inr io_simps)
  from h0 w2' have w2: "write_new_file ?meta (JsonText (json_sorted document)) w1 = (Inr (), w2)"
    by (simp add: hash_artifact_Inr)
  from hs w4 have w': "io_fs w' = io_fs w3" by (simp add: hash_artifacts_Inr)
  from bars1 have w1: "dict_get (io_fs w1) ?bars = Some (RegularFile (ParquetData frame))"
    by (auto simp: write_bars_def io_bind_Inr io_write_Inr io_sync_Inr overwrite_file_def dict_laws)
  note files = new_file_Inr(1) [OF w2] new_file_Inr(1) [OF w3 [unfolded final]]
  show bars: "dict_get (io_fs w') ?bars = Some (RegularFile (ParquetData frame))"
    using files w1 w' by auto
  show meta: "dict_get (io_fs w') ?meta = Some (RegularFile (JsonText (json_sorted document)))"
    using files w' by auto
  show man: "dict_get (io_fs w') ?man =
      Some (RegularFile (JsonText (json_sorted (manifest_to_dict (ds_redact ds) (ds_fmt ds) final))))"
    using files w' by auto
  show "final = final_manifest manifest gid (join_path namespace) (ds_content_hash ds (ParquetData frame))"
    using w1 h0 final by (auto simp: hash_artifact_Inr)
  show "hash_of ''bars.parquet'' = ds_content_hash ds (ParquetData frame)"
    "hash_of ''cache-metadata.json'' = ds_content_hash ds (JsonText (json_sorted document))"
    "hash_of ''acquisition-manifest.json'' =
      ds_content_hash ds (JsonText (json_sorted (manifest_to_dict (ds_redact ds) (ds_fmt ds) final)))"
    using hs bars meta man w' by (auto simp: hash_artifacts_Inr hash_artifact_Inr)
qed

lemma replace_file_get:
  assumes "replace_file src dst fs = Inr fs'" and "dict_get fs src = Some n" and "src \<noteq> dst"
  shows "dict_get fs' dst = Some n" "dict_get fs' src = None"
    "q \<noteq> src \<Longrightarrow> q \<noteq> dst \<Longrightarrow> dict_get fs' q = dict_get fs q"
  using assms by (auto simp: replace_file_def dict_laws split: if_splits)

text \<open>The pointer either stays as it was or is the new one; every other node is kept.\<close>

lemma commit_pointer_run:
  assumes "commit_pointer namespace pointer w = (r, w')"
  shows "quiet namespace (io_fs w) (io_archive w) w' \<and> r \<noteq> Inr () \<or>
    io_archive w' = io_archive w \<and>
    dict_get (io_fs w') (pointer_path namespace) = Some (RegularFile (JsonText (json_sorted pointer))) \<and>
    (\<forall>q. q \<noteq> pointer_path namespace \<longrightarrow> dict_get (io_fs w') q = dict_get (io_fs w) q)"
proof -
  let ?ptr = "pointer_path namespace"
  define tmp where "tmp = namespace @ [''.CURRENT.'' @ io_ids w (io_id_count w) @ ''.tmp'']"
  have neq: "tmp \<noteq> ?ptr" by (simp add: tmp_def pointer_path_def)
  let ?w1 = "w\<lparr>io_id_count := Suc (io_id_count w)\<rparr>"
  obtain r2 w2 where w2: "write_new_file tmp (JsonText (json_sorted pointer)) ?w1 = (r2, w2)" by fastforce
  obtain r3 w3 where w3: "io_write (replace_file tmp ?ptr) w2 = (r3, w3)" by fastforce
  have q1: "quiet namespace (io_fs w) (io_archive w) ?w1" by (simp add: quiet_def)
  have q2: "quiet namespace (io_fs w) (io_archive w) w2"
    by (rule io_keepsD [OF quiet_new_file q1 w2]) (rule neq)
  have q3: "quiet namespace (io_fs w) (io_archive w) w3" if "r3 \<noteq> Inr ()"
    using q2 w3 that by (auto simp: io_write_def Let_def quiet_def split: if_splits sum.splits)
  have done3: "io_archive w3 = io_archive w \<and> dict_get (io_fs w3) ?ptr = Some (RegularFile (JsonText (json_sorted pointer))) \<and>
      (\<forall>q. q \<noteq> ?ptr \<longrightarrow> dict_get (io_fs w3) q = dict_get (io_fs w) q)" if "r2 = Inr ()" "r3 = Inr ()"
  proof -
    note new = new_file_Inr(1) [OF w2 [unfolded that]]
    from w3 that obtain fs3 where fs3: "replace_file tmp ?ptr (io_fs w2) = Inr fs3" "io_fs w3 = fs3" "io_archive w3 = io_archive w2"
      by (auto simp: io_write_Inr)
    have "dict_get fs3 q = dict_get (io_fs w) q" if "q \<noteq> ?ptr" for q
      using replace_file_get(2,3) [OF fs3(1) _ neq] new that by (cases "q = tmp") auto
    then show ?thesis using replace_file_get(1) [OF fs3(1) _ neq] new fs3(2,3) by auto
  qed
  have "(w' = w2 \<and> r2 \<noteq> Inr () \<or> r2 = Inr () \<and> w' = w3 \<and> r3 \<noteq> Inr ()) \<and> r \<noteq> Inr () \<or>
      r2 = Inr () \<and> r3 = Inr () \<and> io_sync w3 = (r, w')"
    using assms w2 w3 by (auto simp: commit_pointer_def io_bind_run io_simps Let_def write_json_def tmp_def)
  moreover have "io_fs w' = io_fs w3 \<and> io_archive w' = io_archive w3" if "io_sync w3 = (r, w')"
    using that by (auto simp: io_sync_def io_write_def Let_def split: if_splits)
  ultimately show ?thesis using q2 q3 done3 by metis
qed

section \<open>A committed generation is readable\<close>

text \<open>What the store relies on: the texts of times parse, digests are SHA-256 texts, and the redaction
  of free text leaves the texts alone that identify a generation.\<close>

definition store_ok :: "data_store \<Rightarrow> acquisition_request \<Rightarrow> bool" where
  "store_ok ds request \<longleftrightarrow> iso_ok (ds_fmt ds) \<and>
     (\<forall>c. is_sha256 (JStr (ds_content_hash ds c)) \<and> ds_redact ds (ds_content_hash ds c) = ds_content_hash ds c) \<and>
     (\<forall>s \<in> {CONTRACT_VERSION, ar_symbol request, ar_interval request, ar_calendar request,
        join_path (generation_namespace request)}. ds_redact ds s = s)"

lemma dict_update_get:
  "dict_get (dict_update d e) k = (case dict_get (rev e) k of Some v \<Rightarrow> Some v | None \<Rightarrow> dict_get d k)"
proof (induction e arbitrary: d)
  case (Cons x e)
  then show ?case
    using dict.get_set_item [of d "fst x" "snd x" k]
    by (cases x) (auto simp: dict_update_def dict_get_def map_add_def split: option.splits)
qed (simp add: dict_update_def)

lemma jget_update: "jget (JObj (dict_update d e)) k = (case map_of (rev e) k of Some v \<Rightarrow> v | None \<Rightarrow> jget (JObj d) k)"
  using dict_update_get [of d e k] by (simp add: dict_get_def split: option.split)

lemma metadata_document_get:
  "jget (metadata_document ds request metadata gid created) ''schema_version'' = JStr POINTER_SCHEMA_VERSION"
  "jget (metadata_document ds request metadata gid created) ''contract_version'' = JStr CONTRACT_VERSION"
  "jget (metadata_document ds request metadata gid created) ''calendar'' = JStr (ar_calendar request)"
  "jget (metadata_document ds request metadata gid created) ''calendar_versions'' =
     JObj (map (\<lambda>(k, v). (k, JStr v)) (ds_calendar_versions ds))"
  "jget (metadata_document ds request metadata gid created) ''interval'' = JStr (ar_interval request)"
  "jget (metadata_document ds request metadata gid created) ''symbol'' = JStr (ar_symbol request)"
  "jget (metadata_document ds request metadata gid created) ''generation_id'' = JStr gid"
  "jget (metadata_document ds request metadata gid created) ''created_at'' = JStr created"
  "members (metadata_document ds request metadata gid created) \<noteq> None"
  unfolding metadata_document_def jget_update by simp_all

lemma metadata_document_compatible:
  "metadata_compatible ds request gid (json_sorted (metadata_document ds request metadata gid created))"
  by (auto simp: metadata_compatible_def metadata_document_get versions_equal_def image_image split_beta)

lemma pointer_document_get:
  "jget (pointer_document gid previous created hash_of) ''schema_version'' = JStr POINTER_SCHEMA_VERSION"
  "jget (pointer_document gid previous created hash_of) ''contract_version'' = JStr CONTRACT_VERSION"
  "jget (pointer_document gid previous created hash_of) ''generation_id'' = JStr gid"
  "jget (pointer_document gid previous created hash_of) ''previous_generation_id'' = jopt JStr previous"
  "jget (pointer_document gid previous created hash_of) ''created_at'' = JStr created"
  "jget (pointer_document gid previous created hash_of) ''artifacts'' = JObj (map (\<lambda>name. (name, JObj
     [(''path'', JStr (artifact_path gid name)), (''sha256'', JStr (hash_of name))])) artifact_names)"
  "members (pointer_document gid previous created hash_of) \<noteq> None"
  "jkeys (pointer_document gid previous created hash_of) = set pointer_fields"
  by (simp_all add: pointer_document_def pointer_fields_def)

lemma artifacts_get:
  "name \<in> set artifact_names \<Longrightarrow> jget (JObj (map (\<lambda>name. (name, f name)) artifact_names)) name = f name"
  by (auto simp: artifact_names_def)

lemma pointer_document_checked:
  assumes "iso_ok (ds_fmt ds)" and "safe_id gid" and "\<forall>i. previous = Some i \<longrightarrow> safe_id i"
    and "\<forall>name \<in> set artifact_names. is_sha256 (JStr (hash_of name))"
  shows "check_pointer ds (json_sorted (pointer_document gid previous (iso_text (ds_fmt ds) t) hash_of)) =
    Inr (json_sorted (pointer_document gid previous (iso_text (ds_fmt ds) t) hash_of))"
proof -
  let ?p = "json_sorted (pointer_document gid previous (iso_text (ds_fmt ds) t) hash_of)"
  let ?arts = "JObj (map (\<lambda>name. (name, JObj
     [(''path'', JStr (artifact_path gid name)), (''sha256'', JStr (hash_of name))])) artifact_names)"
  have "artifact_evidence_ok gid (json_sorted ?arts) name" if "name \<in> set artifact_names" for name
  proof -
    have "jget (jget (json_sorted ?arts) name) ''path'' = JStr (artifact_path gid name)"
      "jget (jget (json_sorted ?arts) name) ''sha256'' = JStr (hash_of name)"
      "jkeys (jget (json_sorted ?arts) name) = {''path'', ''sha256''}" "members (jget (json_sorted ?arts) name) \<noteq> None"
      unfolding jget_sorted jkeys_sorted members_sorted artifacts_get [OF that] by simp_all
    then show ?thesis using assms(4) that by (simp add: artifact_evidence_ok_def Let_def)
  qed
  moreover have "jkeys (json_sorted ?arts) = set artifact_names" "members (json_sorted ?arts) \<noteq> None"
    unfolding jkeys_sorted members_sorted by auto
  ultimately show ?thesis
    unfolding check_pointer_def Let_def jget_sorted jkeys_sorted pointer_document_get using assms(1-3)
    by (auto simp del: json_sorted.simps simp: json_sorted.simps(2-) list_all_iff jopt_def validate_generation_id_def split: option.split)
qed

text \<open>A manifest that may be published, and the document that its generation embeds.\<close>

definition publishable :: "acquisition_request \<Rightarrow> acquisition_manifest \<Rightarrow> bool" where
  "publishable request manifest \<longleftrightarrow> mf_request manifest = request \<and> mf_started_at manifest \<noteq> None \<and>
     mf_completed_at manifest \<noteq> None \<and> mf_status manifest \<in> {SUCCESS, PARTIAL_SUCCESS} \<and>
     mf_schema_version manifest = CONTRACT_VERSION"

lemma manifest_to_dict_get:
  "jget (manifest_to_dict redact fmt m) ''schema_version'' = JStr (redact (mf_schema_version m))"
  "jget (manifest_to_dict redact fmt m) ''acquisition_id'' = JStr (redact (mf_acquisition_id m))"
  "jget (manifest_to_dict redact fmt m) ''status'' = JStr (status_value (mf_status m))"
  "jget (manifest_to_dict redact fmt m) ''request'' = request_to_dict redact fmt (mf_request m)"
  "jget (manifest_to_dict redact fmt m) ''cache'' = cache_evidence_to_dict redact (mf_cache m)"
  "jget (manifest_to_dict redact fmt m) ''output_hash'' = jopt (\<lambda>s. JStr (redact s)) (mf_output_hash m)"
  "jget (manifest_to_dict redact fmt m) ''started_at'' = jopt (\<lambda>t. JStr (iso_text fmt t)) (mf_started_at m)"
  "jget (manifest_to_dict redact fmt m) ''completed_at'' = jopt (\<lambda>t. JStr (iso_text fmt t)) (mf_completed_at m)"
  "members (manifest_to_dict redact fmt m) \<noteq> None"
  by (simp_all add: manifest_to_dict_def)

lemma manifest_parts_get:
  "jget (request_to_dict redact fmt r) ''symbol'' = JStr (redact (ar_symbol r))"
  "jget (request_to_dict redact fmt r) ''interval'' = JStr (redact (ar_interval r))"
  "jget (request_to_dict redact fmt r) ''calendar'' = JStr (redact (ar_calendar r))"
  "members (request_to_dict redact fmt r) \<noteq> None"
  "jget (cache_evidence_to_dict redact c) ''generation_id'' = jopt (\<lambda>s. JStr (redact s)) (ce_generation_id c)"
  "jget (cache_evidence_to_dict redact c) ''cache_key'' = jopt (\<lambda>s. JStr (redact s)) (ce_cache_key c)"
  "members (cache_evidence_to_dict redact c) \<noteq> None"
  by (simp_all add: request_to_dict_def cache_evidence_to_dict_def)

lemma json_sorted_members: "members (json_sorted v) \<noteq> None \<longleftrightarrow> members v \<noteq> None"
  by simp

lemma embedded_manifest_of_final:
  fixes c :: content
  assumes "store_ok ds request" and "publishable request manifest" and "ds_redact ds gid = gid"
  defines "ns \<equiv> generation_namespace request"
  defines "doc \<equiv> json_sorted (manifest_to_dict (ds_redact ds) (ds_fmt ds)
      (final_manifest manifest gid (join_path ns) (ds_content_hash ds c)))"
  shows "embedded_manifest_compatible request ns gid (JStr (ds_content_hash ds c)) doc"
    and "\<exists>t. parse_utc_timestamp (ds_fmt ds) (jget doc ''started_at'') = Inr t"
    and "\<exists>t. parse_utc_timestamp (ds_fmt ds) (jget doc ''completed_at'') = Inr t"
    and "members doc \<noteq> None"
proof -
  from assms(1) have red: "ds_redact ds CONTRACT_VERSION = CONTRACT_VERSION" "ds_redact ds (ar_symbol request) = ar_symbol request"
      "ds_redact ds (ar_interval request) = ar_interval request" "ds_redact ds (ar_calendar request) = ar_calendar request"
      "ds_redact ds (join_path ns) = join_path ns" "ds_redact ds (ds_content_hash ds c) = ds_content_hash ds c"
    by (simp_all add: store_ok_def ns_def)
  have ns: "manifest_namespace_compatible (json_sorted (request_to_dict (ds_redact ds) (ds_fmt ds) request)) request"
    unfolding manifest_namespace_compatible_def jget_sorted json_sorted_members manifest_parts_get using red manifest_parts_get(4) by simp
  show "embedded_manifest_compatible request ns gid (JStr (ds_content_hash ds c)) doc"
    unfolding embedded_manifest_compatible_def doc_def jget_sorted json_sorted_members manifest_to_dict_get manifest_parts_get
    using assms(2,3) red ns manifest_parts_get(7)
    by (auto simp: final_manifest_def publishable_def jopt_def manifest_parts_get)
  from assms(2) obtain t t' where t: "mf_started_at manifest = Some t" "mf_completed_at manifest = Some t'"
    by (auto simp: publishable_def)
  from assms(1) have "iso_ok (ds_fmt ds)" by (simp add: store_ok_def)
  then show "\<exists>t. parse_utc_timestamp (ds_fmt ds) (jget doc ''started_at'') = Inr t"
    "\<exists>t. parse_utc_timestamp (ds_fmt ds) (jget doc ''completed_at'') = Inr t"
    unfolding doc_def jget_sorted manifest_to_dict_get by (simp_all add: final_manifest_def t jopt_def)
  show "members doc \<noteq> None" unfolding doc_def json_sorted_members by (rule manifest_to_dict_get)
qed

text \<open>The generation that a publication leaves behind, as it is read back.\<close>

definition committed ::
    "data_store \<Rightarrow> acquisition_request \<Rightarrow> canonical_frame \<Rightarrow> (string \<times> json) list \<Rightarrow> acquisition_manifest \<Rightarrow> string \<Rightarrow> datetime \<Rightarrow>
     cache_generation" where
  "committed ds request frame metadata manifest gid t = \<lparr>cg_status = FULL_HIT, cg_frame = Some frame,
     cg_metadata = Some (json_sorted (metadata_document ds request metadata gid (iso_text (ds_fmt ds) t))),
     cg_manifest = Some (json_sorted (manifest_to_dict (ds_redact ds) (ds_fmt ds)
       (final_manifest manifest gid (join_path (generation_namespace request)) (ds_content_hash ds (ParquetData frame))))),
     cg_generation_id = Some gid, cg_reason = None\<rparr>"

lemma committed_readable:
  fixes ds request frame metadata manifest gid t
  defines "ns \<equiv> generation_namespace request"
  defines "doc \<equiv> json_sorted (metadata_document ds request metadata gid (iso_text (ds_fmt ds) t))"
  defines "man \<equiv> json_sorted (manifest_to_dict (ds_redact ds) (ds_fmt ds)
      (final_manifest manifest gid (join_path ns) (ds_content_hash ds (ParquetData frame))))"
  assumes "store_ok ds request" "publishable request manifest" "ds_redact ds gid = gid" "safe_id gid"
    and prev: "\<forall>i. previous = Some i \<longrightarrow> safe_id i"
    and valid: "validate_canonical (ds_redact ds) frame request = Inr ()"
    and path: "referenced_generation_path fs ns gid = Inr (generation_path ns gid)"
    and files: "dict_get fs (generation_path ns gid @ [''bars.parquet'']) = Some (RegularFile (ParquetData frame))"
      "dict_get fs (generation_path ns gid @ [''cache-metadata.json'']) = Some (RegularFile (JsonText doc))"
      "dict_get fs (generation_path ns gid @ [''acquisition-manifest.json'']) = Some (RegularFile (JsonText man))"
    and hashes: "hash_of ''bars.parquet'' = ds_content_hash ds (ParquetData frame)"
      "hash_of ''cache-metadata.json'' = ds_content_hash ds (JsonText doc)"
      "hash_of ''acquisition-manifest.json'' = ds_content_hash ds (JsonText man)"
    and ptr: "dict_get fs (pointer_path ns) =
      Some (RegularFile (JsonText (json_sorted (pointer_document gid previous (iso_text (ds_fmt ds) t) hash_of))))"
  shows "read_generation ds fs request = committed ds request frame metadata manifest gid t"
proof -
  let ?p = "json_sorted (pointer_document gid previous (iso_text (ds_fmt ds) t) hash_of)"
  let ?gen = "generation_path ns gid"
  note man = embedded_manifest_of_final [OF assms(4-6), folded ns_def, where c = "ParquetData frame", folded man_def]
  have sha: "is_sha256 (JStr (hash_of name))" if "name \<in> set artifact_names" for name
    using that assms(4) hashes by (auto simp: store_ok_def artifact_names_def)
  have iso: "iso_ok (ds_fmt ds)" using assms(4) by (simp add: store_ok_def)
  have gid: "jget ?p ''generation_id'' = JStr gid" unfolding jget_sorted pointer_document_get by simp
  have art: "jget (jget (jget ?p ''artifacts'') name) ''sha256'' = JStr (hash_of name)" if "name \<in> set artifact_names" for name
    unfolding jget_sorted pointer_document_get artifacts_get [OF that] by simp
  then have "check_artifact ds fs ?gen (jget ?p ''artifacts'') name () = Inr ()" if "name \<in> set artifact_names" for name
    unfolding check_artifact_Inr using that files hashes by (auto simp: artifact_names_def)
  then have arts: "rfold (check_artifact ds fs ?gen (jget ?p ''artifacts'')) artifact_names () = Inr ()"
    by (simp add: check_artifacts_Inr)
  have doc: "load_json fs (?gen @ [''cache-metadata.json'']) = Inr doc"
    unfolding artifact_read_Inr doc_def json_sorted_members
    using files(2) metadata_document_get(9) by (simp add: doc_def)
  have manj: "load_json fs (?gen @ [''acquisition-manifest.json'']) = Inr man"
    using files(3) man(4) by (simp add: artifact_read_Inr)
  have bars: "read_parquet fs (?gen @ [''bars.parquet'']) = Inr frame"
      "sha256_file ds fs (?gen @ [''bars.parquet'']) = Inr (ds_content_hash ds (ParquetData frame))"
    using files(1) by (simp_all add: artifact_read_Inr)
  have "list_all (\<lambda>name. is_file fs (?gen @ [name])) artifact_names"
    using files by (simp add: artifact_names_def is_file_def node_at_def)
  moreover have "metadata_compatible ds request (last ?gen) doc"
    using metadata_document_compatible by (simp add: doc_def generation_path_def)
  moreover have "parse_utc_timestamp (ds_fmt ds) (jget doc ''created_at'') = Inr t"
    unfolding doc_def jget_sorted metadata_document_get using iso by simp
  ultimately have dirv: "generation_directory_valid ds fs request ?gen doc"
    using man(1) valid by (simp add: generation_directory_valid_def bars manj embedded_manifest_compatible_def)
  have artb: "jget (jget (jget ?p ''artifacts'') ''bars.parquet'') ''sha256'' = JStr (ds_content_hash ds (ParquetData frame))"
    using art hashes(1) by (simp add: artifact_names_def del: jget_sorted)
  have committed_eq: "committed ds request frame metadata manifest gid t = \<lparr>cg_status = FULL_HIT, cg_frame = Some frame,
      cg_metadata = Some doc, cg_manifest = Some man, cg_generation_id = Some gid, cg_reason = None\<rparr>"
    by (simp add: committed_def doc_def man_def ns_def)
  have "read_referenced ds fs request ns ?p = Inr (committed ds request frame metadata manifest gid t)"
    using man(2,3) unfolding read_referenced_def Let_def gid text_of.simps artb
    by (auto simp: path arts doc manj bars dirv valid man(1) committed_eq simp del: jget_sorted)
  moreover have "check_pointer ds ?p = Inr ?p"
    by (rule pointer_document_checked [OF iso assms(7) prev]) (use sha in blast)
  moreover have "members ?p \<noteq> None" unfolding json_sorted_members by (rule pointer_document_get)
  ultimately show ?thesis using ptr unfolding ns_def by (blast intro: read_generation_hit)
qed

section \<open>Atomic publication\<close>

definition fs_tree :: "fs \<Rightarrow> bool" where
  "fs_tree fs \<longleftrightarrow> (\<forall>p x. p \<noteq> [] \<and> dict_get fs p = None \<longrightarrow> dict_get fs (p @ [x]) = None)"

lemma make_directories_dirs:
  assumes "make_directories p False fs = Inr fs'" and "n \<le> length p" and "take n p \<noteq> []"
  shows "is_dir fs' (take n p)"
proof -
  from assms(1) have none: "dict_get fs p = None"
      and dirs: "\<forall>n < length p. take n p \<noteq> [] \<and> dict_get fs (take n p) \<noteq> None \<longrightarrow> is_dir fs (take n p)"
      and fs': "fs' = fold (\<lambda>q fs. dict_set fs q DirectoryNode) (missing_directories fs p) fs"
    by (auto simp: make_directories_def list_ex_iff split: if_splits) (metis atLeastLessThan_iff le0 not_gr_zero option.distinct(1))
  show ?thesis
  proof (cases "dict_get fs (take n p) = None")
    case True
    moreover have "take n p \<in> set (map (\<lambda>n. take n p) [0..<Suc (length p)])"
      unfolding set_map set_upt using assms(2) by (intro imageI) simp
    ultimately have "take n p \<in> set (missing_directories fs p)"
      using assms(3) unfolding missing_directories_def set_filter by simp
    then show ?thesis by (simp add: fs' fold_directories is_dir_def node_at_def)
  next
    case False
    with none assms(2) have "n < length p" by (cases "n = length p") auto
    with dirs False assms(3) have "is_dir fs (take n p)" by blast
    moreover have "take n p \<notin> set (missing_directories fs p)" using False by (auto simp: missing_directories_def)
    ultimately show ?thesis by (simp add: fs' fold_directories is_dir_def node_at_def)
  qed
qed

lemma make_directories_keeps:
  assumes "make_directories p ok fs = Inr fs'" and "\<forall>n. q \<noteq> take n p"
  shows "dict_get fs' q = dict_get fs q"
  using make_directories_get [OF assms(1), of q] assms(2) by (cases "dict_get fs q"; cases "dict_get fs' q") auto

lemma generation_prefixes:
  "\<forall>n. generation_path namespace gid @ [name] \<noteq> take n (generation_path namespace gid)"
  "\<forall>n. pointer_path namespace \<noteq> take n (generation_path namespace gid)"
proof -
  have "length (generation_path namespace gid @ [name]) > length (take n (generation_path namespace gid))" for n by simp
  then show "\<forall>n. generation_path namespace gid @ [name] \<noteq> take n (generation_path namespace gid)"
    by (metis less_irrefl)
  show "\<forall>n. pointer_path namespace \<noteq> take n (generation_path namespace gid)"
  proof (intro allI notI)
    fix n assume eq: "pointer_path namespace = take n (generation_path namespace gid)"
    then have "pointer_path namespace ! length namespace = take n (generation_path namespace gid) ! length namespace" by simp
    moreover have "n > length namespace" using arg_cong [OF eq, of length] by (auto simp: pointer_path_def)
    ultimately show False by (simp add: pointer_path_def generation_path_def nth_append)
  qed
qed

lemma make_generation:
  assumes made: "make_directories (generation_path ns gid) False fs = Inr fs'"
    and "validate_namespace_path fs ns = Inr ()" and "\<not> (path_exists fs (ns @ [''generations'']) \<and> is_symlink fs (ns @ [''generations'']))"
    and "fs_tree fs"
  shows "referenced_generation_path fs' ns gid = Inr (generation_path ns gid)" "fs_adds fs fs'"
    "dict_get fs' (pointer_path ns) = dict_get fs (pointer_path ns)"
    "\<forall>name. dict_get fs' (generation_path ns gid @ [name]) = None"
proof -
  show adds: "fs_adds fs fs'" by (rule fs_adds_make_directories [OF _ made]) simp
  show "dict_get fs' (pointer_path ns) = dict_get fs (pointer_path ns)"
    by (rule make_directories_keeps [OF made generation_prefixes(2)])
  have "dict_get fs (generation_path ns gid) = None"
    using made by (auto simp: make_directories_def split: if_splits)
  moreover from this have "dict_get fs (generation_path ns gid @ [name]) = None" for name
    using assms(4) unfolding fs_tree_def by (metis append_is_Nil_conv generation_path_def list.distinct(1))
  ultimately show "\<forall>name. dict_get fs' (generation_path ns gid @ [name]) = None"
    using make_directories_keeps [OF made generation_prefixes(1)] by simp
  have dirs: "is_dir fs' (ns @ [''generations''])" "is_dir fs' (generation_path ns gid)"
    using make_directories_dirs [OF made, of "Suc (length ns)"] make_directories_dirs [OF made, of "length (generation_path ns gid)"]
    by (auto simp: generation_path_def)
  have "\<not> is_symlink fs (generation_path ns gid)"
    using \<open>dict_get fs (generation_path ns gid) = None\<close> by (simp add: is_symlink_def)
  moreover have "\<not> is_symlink fs (ns @ [''generations''])"
  proof
    assume link: "is_symlink fs (ns @ [''generations''])"
    then have "\<not> path_exists fs (ns @ [''generations''])" using assms(3) by blast
    moreover from link have "dict_get fs' (ns @ [''generations'']) = dict_get fs (ns @ [''generations''])"
      by (auto simp: is_symlink_def split: option.splits dest: fs_adds_get [OF adds])
    ultimately show False using dirs(1) by (simp add: path_exists_def is_dir_def node_at_def)
  qed
  ultimately show "referenced_generation_path fs' ns gid = Inr (generation_path ns gid)"
    using dirs assms(2) fs_adds_symlink [OF adds]
    by (simp add: referenced_generation_path_def validate_namespace_path_def split: if_splits)
qed

text \<open>The pointer is not on the path of a generation.\<close>

lemma referenced_path_other:
  assumes "referenced_generation_path fs ns gid = Inr p"
    and "\<forall>q. q \<noteq> pointer_path ns \<longrightarrow> dict_get fs' q = dict_get fs q"
  shows "referenced_generation_path fs' ns gid = Inr p"
proof -
  have "take n ns \<noteq> pointer_path ns" for n
    by (auto simp: pointer_path_def dest!: arg_cong [where f = length])
  then have same: "dict_get fs' (take n ns) = dict_get fs (take n ns)"
      "dict_get fs' (ns @ [''generations'']) = dict_get fs (ns @ [''generations''])"
      "dict_get fs' (generation_path ns gid) = dict_get fs (generation_path ns gid)" for n
    using assms(2) by (auto simp: pointer_path_def generation_path_def)
  show ?thesis
    using assms(1) unfolding referenced_generation_path_def validate_namespace_path_def is_symlink_def is_dir_def node_at_def same .
qed

text \<open>Every node but the pointer is kept, and no link is new.\<close>

definition nodes_kept :: "acquisition_request \<Rightarrow> fs \<Rightarrow> fs \<Rightarrow> bool" where
  "nodes_kept request old new \<longleftrightarrow> (\<forall>q. q \<noteq> pointer_path (generation_namespace request) \<longrightarrow>
     (\<forall>n. dict_get old q = Some n \<longrightarrow> dict_get new q = Some n) \<and> (is_symlink new q \<longrightarrow> is_symlink old q))"

lemma nodes_kept_trans: "nodes_kept request a b \<Longrightarrow> nodes_kept request b c \<Longrightarrow> nodes_kept request a c"
  by (simp add: nodes_kept_def)

lemma nodes_kept_adds: "fs_adds old new \<Longrightarrow> nodes_kept request old new"
  by (simp add: nodes_kept_def fs_adds_def fs_extends_def)

lemma write_generation_run:
  assumes run: "write_generation ds request frame metadata manifest ns previous gid (iso_text (ds_fmt ds) t) w = (r, w')"
    and ns: "ns = generation_namespace request"
    and ok: "store_ok ds request" "publishable request manifest" "ds_redact ds gid = gid" "safe_id gid"
      "\<forall>i. previous = Some i \<longrightarrow> safe_id i" "validate_canonical (ds_redact ds) frame request = Inr ()"
    and path: "referenced_generation_path (io_fs w) ns gid = Inr (generation_path ns gid)"
    and fresh: "\<forall>name. dict_get (io_fs w) (generation_path ns gid @ [name]) = None"
  shows "quiet ns (io_fs w) (io_archive w) w' \<and> (\<exists>e. r = Inl e) \<or>
    io_archive w' = io_archive w \<and> read_generation ds (io_fs w') request = committed ds request frame metadata manifest gid t \<and>
    nodes_kept request (io_fs w) (io_fs w') \<and>
    (\<forall>pub. r = Inr pub \<longrightarrow> gp_generation_id pub = gid \<and> gp_frame pub = frame \<and>
       gp_manifest pub = final_manifest manifest gid (join_path ns) (ds_content_hash ds (ParquetData frame)))"
proof -
  let ?doc = "metadata_document ds request metadata gid (iso_text (ds_fmt ds) t)"
  obtain r1 w1 where w1: "stage_artifacts ds frame ?doc manifest ns gid w = (r1, w1)" by fastforce
  have q1: "quiet ns (io_fs w) (io_archive w) w1"
    by (rule io_keepsD [OF quiet_stage [OF fresh] _ w1]) simp
  show ?thesis
  proof (cases r1)
    case (Inl e)
    with run w1 q1 show ?thesis by (auto simp: write_generation_def Let_def io_bind_def)
  next
    case (Inr x)
    obtain final hash_of where x: "x = (final, hash_of)" by fastforce
    let ?p = "pointer_document gid previous (iso_text (ds_fmt ds) t) hash_of"
    obtain r2 w2 where w2: "commit_pointer ns ?p w1 = (r2, w2)" by fastforce
    note staged = stage_artifacts_Inr [OF w1 [unfolded Inr x]]
    have w': "w' = w2 \<and> r = (case r2 of Inl e \<Rightarrow> Inl e | Inr _ \<Rightarrow> Inr \<lparr>gp_generation_id = gid, gp_frame = frame,
        gp_metadata = ?doc, gp_manifest = final, gp_warnings = []\<rparr>)"
      using run w1 Inr x w2 by (auto simp: write_generation_def Let_def io_bind_def io_simps split: sum.splits)
    from commit_pointer_run [OF w2] show ?thesis
    proof (elim disjE conjE)
      assume "quiet ns (io_fs w1) (io_archive w1) w2" "r2 \<noteq> Inr ()"
      then show ?thesis using q1 w' by (cases r2) (auto simp: quiet_def intro: fs_adds_trans)
    next
      assume arch: "io_archive w2 = io_archive w1"
        and ptr: "dict_get (io_fs w2) (pointer_path ns) = Some (RegularFile (JsonText (json_sorted ?p)))"
        and rest: "\<forall>q. q \<noteq> pointer_path ns \<longrightarrow> dict_get (io_fs w2) q = dict_get (io_fs w1) q"
      from q1 have adds: "fs_adds (io_fs w) (io_fs w1)" by (simp add: quiet_def)
      have "nodes_kept request (io_fs w1) (io_fs w2)"
        using rest ns by (simp add: nodes_kept_def is_symlink_def)
      with nodes_kept_adds [OF adds] have kept: "nodes_kept request (io_fs w) (io_fs w2)" by (rule nodes_kept_trans)
      have "referenced_generation_path (io_fs w1) ns gid = Inr (generation_path ns gid)"
        by (rule fs_adds_referenced_path [OF adds path])
      then have path2: "referenced_generation_path (io_fs w2) ns gid = Inr (generation_path ns gid)"
        by (rule referenced_path_other) (use rest in auto)
      note files2 = staged(2-4) [folded rest [rule_format, OF artifact_not_pointer(1)], unfolded staged(1)]
        and hashes = staged(5-7) [unfolded staged(1)]
      have "read_generation ds (io_fs w2) request = committed ds request frame metadata manifest gid t"
        unfolding ns
        by (rule committed_readable [OF ok path2 [unfolded ns] files2 [unfolded ns] hashes [unfolded ns] ptr [unfolded ns]])
      moreover have "io_archive w2 = io_archive w" using arch q1 by (simp add: quiet_def)
      moreover have "r = Inr pub \<Longrightarrow> gp_generation_id pub = gid \<and> gp_frame pub = frame \<and>
          gp_manifest pub = final_manifest manifest gid (join_path ns) (ds_content_hash ds (ParquetData frame))" for pub
        using w' staged(1) by (cases r2) auto
      ultimately show ?thesis using w' kept by metis
    qed
  qed
qed

text \<open>The outcome of a publication, relative to the world it starts in: either it raises and leaves the
  pointer as it was, or the new generation is committed, and a publication that returns names it.\<close>

definition publication_outcome ::
    "data_store \<Rightarrow> acquisition_request \<Rightarrow> canonical_frame \<Rightarrow> (string \<times> json) list \<Rightarrow> acquisition_manifest \<Rightarrow>
     (exn + generation_publication) \<Rightarrow> io_world \<Rightarrow> bool" where
  "publication_outcome ds request frame metadata manifest r w' \<longleftrightarrow>
     (\<exists>gid t. read_generation ds (io_fs w') request = committed ds request frame metadata manifest gid t \<and>
       (\<forall>pub. r = Inr pub \<longrightarrow> gp_generation_id pub = gid \<and> gp_frame pub = frame \<and>
          gp_manifest pub = final_manifest manifest gid (join_path (generation_namespace request))
            (ds_content_hash ds (ParquetData frame))))"

lemma publish_locked_run:
  assumes run: "publish_locked ds request frame metadata manifest (generation_namespace request) previous w = (r, w')"
    and ok: "store_ok ds request" "publishable request manifest" "\<forall>n. ds_redact ds (io_ids w n) = io_ids w n"
      "\<forall>i. previous = Some i \<longrightarrow> safe_id i" "validate_canonical (ds_redact ds) frame request = Inr ()"
    and fs: "validate_namespace_path (io_fs w) (generation_namespace request) = Inr ()" "fs_tree (io_fs w)"
  shows "io_archive w' = io_archive w \<and> nodes_kept request (io_fs w) (io_fs w') \<and>
    (quiet (generation_namespace request) (io_fs w) (io_archive w) w' \<and> (\<exists>e. r = Inl e) \<or>
     publication_outcome ds request frame metadata manifest r w')"
proof -
  let ?ns = "generation_namespace request" and ?gid = "io_ids w (io_id_count w)"
  let ?gen = "generation_path ?ns ?gid" and ?w1 = "w\<lparr>io_id_count := Suc (io_id_count w)\<rparr>"
  let ?symbolic = "path_exists (io_fs w) (?ns @ [''generations'']) \<and> is_symlink (io_fs w) (?ns @ [''generations''])"
  have q1: "quiet ?ns (io_fs w) (io_archive w) ?w1" by (simp add: quiet_def)
  have unchanged: ?thesis if "quiet ?ns (io_fs w) (io_archive w) w'" "\<exists>e. r = Inl e"
    using that by (auto simp: quiet_def intro: nodes_kept_adds)
  show ?thesis
  proof (cases "safe_id ?gid \<and> \<not> ?symbolic \<and> \<not> path_exists (io_fs w) ?gen")
    case False
    then have "w' = ?w1 \<and> (\<exists>e. r = Inl e)"
      using run by (auto simp: publish_locked_def io_bind_def io_simps validate_generation_id_def Let_def split: if_splits)
    with q1 unchanged show ?thesis by blast
  next
    case True
    obtain r2 w2 where w2: "io_write (make_directories ?gen False) ?w1 = (r2, w2)" by fastforce
    show ?thesis
    proof (cases r2)
      case (Inl e)
      with w2 have "quiet ?ns (io_fs w) (io_archive w) w2"
        by (auto simp: io_write_def Let_def quiet_def split: if_splits sum.splits)
      moreover have "w' = w2 \<and> (\<exists>e. r = Inl e)"
        using run True w2 Inl by (auto simp: publish_locked_def io_bind_def io_simps validate_generation_id_def Let_def)
      ultimately show ?thesis using unchanged by blast
    next
      case (Inr u)
      with w2 obtain fs2 where fs2: "make_directories ?gen False (io_fs w) = Inr fs2" "io_fs w2 = fs2"
          "io_archive w2 = io_archive w" "io_clock w2 = io_clock w" "io_clock_reads w2 = io_clock_reads w"
        by (auto simp: io_write_Inr)
      let ?w3 = "w2\<lparr>io_clock_reads := Suc (io_clock_reads w2)\<rparr>" and ?t = "io_clock w2 (io_clock_reads w2)"
      have gen: "referenced_generation_path fs2 ?ns ?gid = Inr ?gen" "fs_adds (io_fs w) fs2"
          "dict_get fs2 (pointer_path ?ns) = dict_get (io_fs w) (pointer_path ?ns)"
          "\<forall>name. dict_get fs2 (?gen @ [name]) = None"
        using make_generation [OF fs2(1) fs(1) _ fs(2)] True by blast+
      obtain r4 w4 where w4: "write_generation ds request frame metadata manifest ?ns previous ?gid (iso_text (ds_fmt ds) ?t) ?w3
          = (r4, w4)" by fastforce
      have w': "w' = w4 \<and> (case r4 of Inr pub \<Rightarrow> r = Inr pub | Inl _ \<Rightarrow> \<exists>e. r = Inl e)"
        using run True w2 Inr w4
        by (auto simp: publish_locked_def io_bind_def io_catch_def io_simps validate_generation_id_def Let_def split: sum.splits if_splits)
      have "quiet ?ns fs2 (io_archive w) w4 \<and> (\<exists>e. r4 = Inl e) \<or> io_archive w4 = io_archive w \<and>
          read_generation ds (io_fs w4) request = committed ds request frame metadata manifest ?gid ?t \<and>
          nodes_kept request fs2 (io_fs w4) \<and> (\<forall>pub. r4 = Inr pub \<longrightarrow> gp_generation_id pub = ?gid \<and> gp_frame pub = frame \<and>
            gp_manifest pub = final_manifest manifest ?gid (join_path ?ns) (ds_content_hash ds (ParquetData frame)))"
        using write_generation_run [OF w4 refl ok(1,2) ok(3) [rule_format] _ ok(4,5)] gen(1,4) fs2 True
        by simp
      then show ?thesis
      proof (elim disjE conjE)
        assume "quiet ?ns fs2 (io_archive w) w4" "\<exists>e. r4 = Inl e"
        then show ?thesis using w' gen by (intro unchanged) (auto simp: quiet_def intro: fs_adds_trans)
      next
        assume new: "io_archive w4 = io_archive w" "nodes_kept request fs2 (io_fs w4)"
          "read_generation ds (io_fs w4) request = committed ds request frame metadata manifest ?gid ?t"
          "\<forall>pub. r4 = Inr pub \<longrightarrow> gp_generation_id pub = ?gid \<and> gp_frame pub = frame \<and>
            gp_manifest pub = final_manifest manifest ?gid (join_path ?ns) (ds_content_hash ds (ParquetData frame))"
        have "r = Inr pub \<Longrightarrow> r4 = Inr pub" for pub using w' by (cases r4) auto
        with new(3,4) w' have "publication_outcome ds request frame metadata manifest r w'"
          unfolding publication_outcome_def by blast
        moreover have "nodes_kept request (io_fs w) (io_fs w')"
          using w' nodes_kept_trans [OF nodes_kept_adds [OF gen(2)] new(2)] by simp
        ultimately show ?thesis using w' new(1) by simp
      qed
    qed
  qed
qed

text \<open>Archiving does not touch the cache directory; a pin only adds to it.\<close>

lemma io_keeps_finally: "io_keeps P m \<Longrightarrow> io_keeps P c \<Longrightarrow> io_keeps P (io_finally m c)"
  by (auto simp: io_keeps_def io_finally_def split: prod.splits sum.splits)

lemma append_report_fs: "io_keeps (\<lambda>w. io_fs w = fs) (append_report redact api safe payload)"
proof -
  have "io_keeps (\<lambda>w. io_fs w = fs) (archive_new_file p c)" for p c
    unfolding archive_new_file_def by (intro io_keeps_bind io_keeps_other)
  moreover have "io_keeps (\<lambda>w. io_fs w = fs) (link_report redact tmp dst payload)" for tmp dst
    unfolding link_report_def read_archived_def
    by (intro io_keeps_catch io_keeps_other) (auto simp: io_keeps_def io_bind_def io_simps split: sum.splits if_splits)
  ultimately have "io_keeps (\<lambda>w. io_fs w = fs) (write_report redact api safe payload)"
    unfolding write_report_def Let_def by (intro io_keeps_bind io_keeps_other io_keeps_finally)
  then show ?thesis unfolding append_report_def by (rule io_keeps_catch) simp
qed

lemma archive_manifest_fs:
  assumes "archive_manifest redact api fmt manifest w = (r, w')"
  shows "io_fs w' = io_fs w"
  using assms io_keepsD [OF append_report_fs, of w "io_fs w"]
  by (auto simp: archive_manifest_def archive_document_def io_simps Let_def split: if_splits sum.splits)

lemma quiet_pin: "io_keeps (\<lambda>w. fs_adds old (io_fs w) \<and> dict_get (io_fs w) (pointer_path ns) = dict_get old (pointer_path ns)) (pin ns gid aid)"
proof -
  have "io_keeps (quiet ns old archive) (pin ns gid aid)" for archive
    unfolding pin_def write_json_def
  proof (intro io_keeps_bind quiet_new_file quiet_basic artifact_not_pointer quiet_write)
    fix fs fs' assume "fs_adds old fs" and made: "make_directories (ns @ [''pins'']) True fs = Inr fs'"
    have "\<forall>n. pointer_path ns \<noteq> take n (ns @ [''pins''])"
      by (auto simp: pointer_path_def take_Cons' dest!: arg_cong [where f = length])
    with make_directories_keeps [OF made] fs_adds_make_directories [OF \<open>fs_adds old fs\<close> made]
    show "fs_adds old fs' \<and> dict_get fs' (pointer_path ns) = dict_get fs (pointer_path ns)" by blast
  qed
  then show ?thesis by (auto simp: io_keeps_def quiet_def)
qed

lemma archive_after_commit_run:
  assumes "archive_after_commit ds request pub w = (r, w')"
  shows "fs_adds (io_fs w) (io_fs w')"
    and "dict_get (io_fs w') (pointer_path (generation_namespace request)) = dict_get (io_fs w) (pointer_path (generation_namespace request))"
    and "r = Inr pub' \<Longrightarrow> gp_generation_id pub' = gp_generation_id pub \<and> gp_frame pub' = gp_frame pub \<and>
      gp_manifest pub' = gp_manifest pub"
proof -
  let ?pin = "pin (generation_namespace request) (gp_generation_id pub) (mf_acquisition_id (gp_manifest pub))"
  obtain r1 w1 where w1: "archive_manifest (ds_redact ds) (sv_digest (ds_service ds)) (ds_fmt ds) (gp_manifest pub) w = (r1, w1)"
    by fastforce
  obtain r2 w2 where w2: "?pin w1 = (r2, w2)" by fastforce
  have "io_fs w1 = io_fs w" by (rule archive_manifest_fs [OF w1])
  moreover from io_keepsD [OF quiet_pin _ w2, of "io_fs w1"] have "fs_adds (io_fs w1) (io_fs w2)"
      "dict_get (io_fs w2) (pointer_path (generation_namespace request)) = dict_get (io_fs w1) (pointer_path (generation_namespace request))"
    by simp_all
  moreover have run: "(\<exists>u. r1 = Inr u) \<and> w' = w1 \<and> r = Inr pub \<or> (\<exists>e. r1 = Inl e) \<and> w' = w2 \<and>
      ((\<exists>e. r = Inl e) \<or> (\<exists>ws. r = Inr (pub\<lparr>gp_warnings := ws\<rparr>)))"
    using assms w1 w2 unfolding archive_after_commit_def
    by (cases r1; cases r2) (auto simp: io_catch_def io_bind_def io_simps split: if_splits)
  ultimately show "fs_adds (io_fs w) (io_fs w')"
    "dict_get (io_fs w') (pointer_path (generation_namespace request)) = dict_get (io_fs w) (pointer_path (generation_namespace request))"
    by auto
  show "r = Inr pub' \<Longrightarrow> gp_generation_id pub' = gp_generation_id pub \<and> gp_frame pub' = gp_frame pub \<and>
      gp_manifest pub' = gp_manifest pub"
    using run by auto
qed

lemma make_directories_tree:
  assumes "make_directories p ok fs = Inr fs'" and "fs_tree fs"
  shows "fs_tree fs'"
  unfolding fs_tree_def
proof (intro allI impI)
  fix q :: path and x :: string
  assume q: "q \<noteq> [] \<and> dict_get fs' q = None"
  have "fs' = fs \<or> fs' = fold (\<lambda>q fs. dict_set fs q DirectoryNode) (missing_directories fs p) fs"
    using assms(1) by (auto simp: make_directories_def split: if_splits)
  then show "dict_get fs' (q @ [x]) = None"
  proof
    assume fs': "fs' = fold (\<lambda>q fs. dict_set fs q DirectoryNode) (missing_directories fs p) fs"
    from q have none: "dict_get fs q = None" and miss: "q \<notin> set (missing_directories fs p)"
      by (auto simp: fs' fold_directories split: if_splits)
    have "q @ [x] \<notin> set (missing_directories fs p)"
    proof
      assume "q @ [x] \<in> set (missing_directories fs p)"
      then obtain n where n: "n \<le> length p" "q @ [x] = take n p" by (auto simp: missing_directories_def less_Suc_eq_le simp del: upt_Suc)
      then have "q = take (n - 1) p" by (metis append_is_Nil_conv butlast_snoc butlast_take)
      moreover from n have "n - 1 \<in> set [0..<Suc (length p)]" by auto
      ultimately have "q \<in> set (missing_directories fs p)"
        using q none unfolding missing_directories_def set_filter set_map by blast
      with miss show False ..
    qed
    with none q assms(2) show ?thesis by (simp add: fs' fold_directories fs_tree_def)
  qed (use q assms(2) in \<open>auto simp: fs_tree_def\<close>)
qed

text \<open>Making the namespace directory changes nothing that is read.\<close>

lemma make_namespace:
  assumes made: "make_directories (generation_namespace request) True fs = Inr fs'" and "fs_tree fs"
  shows "fs_adds fs fs'"
    and "dict_get fs' (pointer_path (generation_namespace request)) = dict_get fs (pointer_path (generation_namespace request))"
    and "read_generation ds fs' request = read_generation ds fs request"
proof -
  let ?ptr = "pointer_path (generation_namespace request)"
  show adds: "fs_adds fs fs'" by (rule fs_adds_make_directories [OF _ made]) simp
  have "\<forall>n. ?ptr \<noteq> take n (generation_namespace request)"
    by (auto simp: pointer_path_def dest!: arg_cong [where f = length])
  then show ptr: "dict_get fs' ?ptr = dict_get fs ?ptr" by (rule make_directories_keeps [OF made])
  show "read_generation ds fs' request = read_generation ds fs request"
  proof (cases "dict_get fs ?ptr")
    case None
    then show ?thesis using ptr by (simp add: read_generation_def is_symlink_def path_exists_def node_at_def)
  next
    case (Some n)
    have "dict_get fs (generation_namespace request) \<noteq> None"
    proof
      assume "dict_get fs (generation_namespace request) = None"
      with assms(2) have "dict_get fs ?ptr = None"
        unfolding fs_tree_def pointer_path_def by (metis generation_namespace_def list.distinct(1))
      with Some show False by simp
    qed
    with made have "fs' = fs" by (auto simp: make_directories_def split: if_splits)
    then show ?thesis by simp
  qed
qed

lemma current_generation_read:
  assumes "cg_status (read_generation ds fs request) \<noteq> INVALIDATED"
  shows "current_generation_id ds fs request = Inr (cg_generation_id (read_generation ds fs request))"
proof (cases rule: read_generation_cases [of ds fs request])
  case miss
  then show ?thesis by (simp add: current_generation_id_def load_pointer_def Let_def no_generation_def)
next
  case (hit pointer)
  have "load_pointer ds fs (generation_namespace request) False = Inr (Some pointer)"
    using hit(2-) by (simp add: load_pointer_Inr)
  moreover have "cg_generation_id (read_generation ds fs request) = Some (text_of (jget pointer ''generation_id''))"
    using hit(1) by (rule read_referenced_Inr) simp
  ultimately show ?thesis by (simp add: current_generation_id_def)
qed (use assms in \<open>simp add: no_generation_def\<close>)

lemma read_generation_safe_id: "cg_generation_id (read_generation ds fs request) = Some i \<Longrightarrow> safe_id i"
proof (cases rule: read_generation_cases [of ds fs request])
  case (hit pointer)
  have "cg_generation_id (read_generation ds fs request) = Some (text_of (jget pointer ''generation_id''))"
    using hit(1) by (rule read_referenced_Inr) simp
  then show "cg_generation_id (read_generation ds fs request) = Some i \<Longrightarrow> safe_id i"
    using check_pointer_ids(2) [OF hit(4)] by simp
qed (simp_all add: no_generation_def)

text \<open>What a publication relies on besides its arguments: identifiers that the redaction leaves alone,
  a directory tree without links in the namespace, and no other publisher inside the lock.\<close>

definition publication_setting :: "data_store \<Rightarrow> acquisition_request \<Rightarrow> io_world \<Rightarrow> bool" where
  "publication_setting ds request w \<longleftrightarrow> store_ok ds request \<and> ds_conflict_probe ds = None \<and>
     (\<forall>n. ds_redact ds (io_ids w n) = io_ids w n) \<and> fs_tree (io_fs w) \<and>
     validate_namespace_path (io_fs w) (generation_namespace request) = Inr ()"

lemma revalidated_valid:
  assumes "revalidated ds request revalidate assembled = Inr checked"
  shows "validate_canonical (ds_redact ds) checked request = Inr ()"
proof -
  from assms have valid: "validate_canonical (ds_redact ds) assembled request = Inr ()"
    by (auto simp: revalidated_def result_simps)
  show ?thesis
  proof (cases revalidate)
    case (Some check)
    with assms valid obtain c where c: "check assembled = Inr c" by (auto simp: revalidated_def result_simps)
    with assms valid Some show ?thesis by (cases c) (auto simp: revalidated_def result_simps split: if_splits)
  qed (use assms valid in \<open>simp add: revalidated_def\<close>)
qed

lemma publication_outcome_step:
  assumes "publication_outcome ds request frame metadata manifest (Inr pub) w"
    and "read_generation ds (io_fs w') request = read_generation ds (io_fs w) request"
    and "\<And>pub'. r = Inr pub' \<Longrightarrow> gp_generation_id pub' = gp_generation_id pub \<and> gp_frame pub' = gp_frame pub \<and>
      gp_manifest pub' = gp_manifest pub"
  shows "publication_outcome ds request frame metadata manifest r w'"
  using assms unfolding publication_outcome_def by metis

lemma publish_attempt_run:
  assumes run: "publish_attempts ds request candidate metadata manifest revalidate ranges (n # ns) base w = (r, w')"
    and setting: "publication_setting ds request w" and man: "publishable request manifest"
  defines "before \<equiv> read_generation ds (io_fs w) request"
  shows "nodes_kept request (io_fs w) (io_fs w') \<and>
    (read_generation ds (io_fs w') request = before \<and> (\<exists>e. r = Inl e) \<or>
     (\<exists>assembled lineage checked. assemble ds base before candidate (mf_lineage manifest) ranges = Inr (assembled, lineage) \<and>
        revalidated ds request revalidate assembled = Inr checked \<and>
        publication_outcome ds request checked metadata (manifest\<lparr>mf_lineage := lineage\<rparr>) r w'))"
proof -
  let ?ns = "generation_namespace request"
  have st: "store_ok ds request" "ds_conflict_probe ds = None" "\<forall>n. ds_redact ds (io_ids w n) = io_ids w n" "fs_tree (io_fs w)"
      "validate_namespace_path (io_fs w) ?ns = Inr ()"
    using setting by (simp_all add: publication_setting_def)
  obtain r1 w1 where w1: "io_write (make_directories ?ns True) w = (r1, w1)" by fastforce
  have same: "fs_adds (io_fs w) (io_fs w1) \<and> fs_tree (io_fs w1) \<and> read_generation ds (io_fs w1) request = before \<and> io_ids w1 = io_ids w"
    using w1 make_namespace [OF _ st(4)] make_directories_tree [OF _ st(4)] st(4)
    by (auto simp: io_write_def Let_def before_def split: if_splits sum.splits)
  then have kept: "nodes_kept request (io_fs w) (io_fs w1)" by (blast intro: nodes_kept_adds)
  let ?asm = "assemble ds base before candidate (mf_lineage manifest) ranges"
  show ?thesis
  proof (cases "r1 = Inr () \<and> cg_status before \<noteq> INVALIDATED \<and>
      (\<exists>assembled lineage checked. ?asm = Inr (assembled, lineage) \<and> revalidated ds request revalidate assembled = Inr checked)")
    case False
    then have "w' = w1 \<and> (\<exists>e. r = Inl e)"
      using run w1 same by (auto simp: io_bind_def io_simps Let_def split: sum.splits prod.splits if_splits)
    with kept same show ?thesis by auto
  next
    case True
    then obtain assembled lineage checked where ok: "r1 = Inr ()" "cg_status before \<noteq> INVALIDATED"
        "?asm = Inr (assembled, lineage)" "revalidated ds request revalidate assembled = Inr checked" by blast
    have cur: "current_generation_id ds (io_fs w1) request = Inr (cg_generation_id before)"
      using current_generation_read [of ds "io_fs w1" request] same ok(2) by simp
    let ?m = "manifest\<lparr>mf_lineage := lineage\<rparr>"
    obtain r2 w2 where w2: "publish_locked ds request checked metadata ?m ?ns (cg_generation_id before) w1 = (r2, w2)" by fastforce
    have valid: "validate_canonical (ds_redact ds) checked request = Inr ()"
      using ok(4) by (rule revalidated_valid)
    have ns1: "validate_namespace_path (io_fs w1) ?ns = Inr ()"
      using st(5) same by (auto simp: validate_namespace_path_def fs_adds_symlink [of "io_fs w" "io_fs w1"] split: if_splits)
    have prev: "\<forall>i. cg_generation_id before = Some i \<longrightarrow> safe_id i"
      using read_generation_safe_id by (simp add: before_def)
    have "publishable request ?m" using man by (simp add: publishable_def)
    from publish_locked_run [OF w2 st(1) this _ prev valid ns1] same st(3)
    have locked: "nodes_kept request (io_fs w1) (io_fs w2)"
        "quiet ?ns (io_fs w1) (io_archive w1) w2 \<and> (\<exists>e. r2 = Inl e) \<or> publication_outcome ds request checked metadata ?m r2 w2"
      by auto
    have quiet: "read_generation ds (io_fs w2) request = before" if "quiet ?ns (io_fs w1) (io_archive w1) w2"
      using read_generation_adds [of "io_fs w1" "io_fs w2"] that same ok(2) by (simp add: quiet_def)
    have run2: "case r2 of Inl e \<Rightarrow> r = Inl e \<and> w' = w2
        | Inr pub \<Rightarrow> (if ds_archives_publications ds then archive_after_commit ds request pub else io_return pub) w2 = (r, w')"
      using run w1 ok same cur w2 st(2)
      by (auto simp: io_bind_def io_simps Let_def split: sum.splits prod.splits if_splits)
    show ?thesis
    proof (cases r2)
      case (Inl e)
      then show ?thesis using run2 locked quiet kept ok(3,4) nodes_kept_trans
        by (auto simp: publication_outcome_def)
    next
      case (Inr pub)
      with locked(2) have out: "publication_outcome ds request checked metadata ?m (Inr pub) w2" by auto
      then have hit: "cg_status (read_generation ds (io_fs w2) request) \<noteq> INVALIDATED"
        by (auto simp: publication_outcome_def committed_def)
      have add: "fs_adds (io_fs w2) (io_fs w') \<and> dict_get (io_fs w') (pointer_path ?ns) = dict_get (io_fs w2) (pointer_path ?ns)"
        and arch: "\<And>pub'. r = Inr pub' \<Longrightarrow> gp_generation_id pub' = gp_generation_id pub \<and> gp_frame pub' = gp_frame pub \<and>
          gp_manifest pub' = gp_manifest pub"
        using run2 Inr archive_after_commit_run [of ds request pub w2 r w'] by (auto simp: io_simps split: if_splits)
      have kept2: "nodes_kept request (io_fs w2) (io_fs w')" using add by (blast intro: nodes_kept_adds)
      have "read_generation ds (io_fs w') request = read_generation ds (io_fs w2) request"
        using read_generation_adds [OF _ hit] add by blast
      from publication_outcome_step [OF out this arch] have "publication_outcome ds request checked metadata ?m r w'" .
      moreover have "nodes_kept request (io_fs w) (io_fs w')"
        by (rule nodes_kept_trans [OF nodes_kept_trans [OF kept locked(1)] kept2])
      ultimately show ?thesis using ok(3,4) by blast
    qed
  qed
qed

text \<open>C23: publication is atomic. Whatever calls fail and wherever the run stops, every file of the
  directory other than the pointer stays as it was, and reading the cache afterwards gives either
  exactly what it gave before or the complete new generation: the frame that was assembled on the
  generation found under the lock and revalidated, its metadata and its report, with all digests
  right. A publication that returns is of the second kind and names what is then read.\<close>

theorem publication_atomic:
  assumes run: "publish_generation ds request frame metadata manifest base revalidate ranges w = (r, w')"
    and "publication_setting ds request w" and "mf_schema_version manifest = CONTRACT_VERSION"
  shows "nodes_kept request (io_fs w) (io_fs w') \<and>
    (case read_generation ds (io_fs w) request of before \<Rightarrow>
     read_generation ds (io_fs w') request = before \<and> (\<exists>e. r = Inl e) \<or>
     (\<exists>supplied assembled lineage checked. json_safe_json (ds_redact ds) (JObj metadata) = JObj supplied \<and>
        assemble ds base before frame (mf_lineage manifest) ranges = Inr (assembled, lineage) \<and>
        revalidated ds request revalidate assembled = Inr checked \<and>
        publication_outcome ds request checked supplied (manifest\<lparr>mf_lineage := lineage\<rparr>) r w'))"
proof (cases "publishable request manifest \<and> validate_canonical (ds_redact ds) frame request = Inr ()")
  case False
  then have "w' = w \<and> (\<exists>e. r = Inl e)"
    using run assms(3)
    by (cases "validate_canonical (ds_redact ds) frame request")
      (auto simp: publish_generation_def publishable_def io_bind_def io_simps split: if_splits)
  then show ?thesis by (simp add: nodes_kept_def)
next
  case True
  let ?supplied = "map (\<lambda>(key, item). (key, if is_sensitive_key key then JStr redacted_text
      else json_safe_json (ds_redact ds) item)) metadata"
  have "publish_attempts ds request frame ?supplied manifest revalidate ranges [1, 2, 3] base w = (r, w')"
    using run True by (auto simp: publish_generation_def publishable_def io_bind_def io_simps simp del: publish_attempts.simps)
  from publish_attempt_run [OF this assms(2)] True show ?thesis by auto
qed

section \<open>Publication without failures\<close>

text \<open>Total correctness of a computation from a world whose calls do not fail: it returns, and the
  value and the world satisfy the postcondition.\<close>

definition io_ok :: "'a io \<Rightarrow> io_world \<Rightarrow> ('a \<Rightarrow> io_world \<Rightarrow> bool) \<Rightarrow> bool" where
  "io_ok m w Q \<longleftrightarrow> (\<exists>v w'. m w = (Inr v, w') \<and> Q v w')"

lemma io_ok_bind: "io_ok m w (\<lambda>v w'. io_ok (f v) w' Q) \<Longrightarrow> io_ok (io_bind m f) w Q"
  by (auto simp: io_ok_def io_bind_def)

lemma io_ok_return: "Q v w \<Longrightarrow> io_ok (io_return v) w Q"
  by (simp add: io_ok_def io_simps)

lemma io_ok_weaken: "io_ok m w Q \<Longrightarrow> (\<And>v w'. Q v w' \<Longrightarrow> R v w') \<Longrightarrow> io_ok m w R"
  by (auto simp: io_ok_def)

text \<open>The worlds that a publication without failures goes through: the same clock and identifiers,
  and the file system of the start but for the paths in a set.\<close>

definition progress :: "path set \<Rightarrow> io_world \<Rightarrow> io_world \<Rightarrow> bool" where
  "progress A w w' \<longleftrightarrow> io_fails w' = io_fails w \<and> io_ids w' = io_ids w \<and>
     (\<forall>q. q \<notin> A \<longrightarrow> dict_get (io_fs w') q = dict_get (io_fs w) q)"

abbreviation reliable :: "io_world \<Rightarrow> bool" where
  "reliable w \<equiv> io_fails w = (\<lambda>_. False)"

lemma io_ok_write:
  assumes "reliable w" and "f (io_fs w) = Inr fs" and "\<forall>q. q \<notin> A \<longrightarrow> dict_get fs q = dict_get (io_fs w) q"
    and "\<And>w'. progress A w w' \<Longrightarrow> io_fs w' = fs \<Longrightarrow> io_id_count w' = io_id_count w \<Longrightarrow> Q () w'"
  shows "io_ok (io_write f) w Q"
  unfolding io_ok_def by (rule exI [of _ "()"], rule exI [of _ "w\<lparr>io_calls := Suc (io_calls w), io_fs := fs\<rparr>"])
    (use assms in \<open>simp add: io_write_Inr progress_def\<close>)

lemma progress_trans: "progress A w w1 \<Longrightarrow> progress A w1 w2 \<Longrightarrow> progress A w w2"
  by (simp add: progress_def)

lemma progress_mono: "progress A w w1 \<Longrightarrow> A \<subseteq> B \<Longrightarrow> progress B w w1"
  by (auto simp: progress_def)

text \<open>Three writes to one path, as every file of a publication is written.\<close>

lemma three_writes_ok:
  assumes "reliable w" and "first (io_fs w) = Inr (dict_set (io_fs w) p n)"
  shows "io_ok (io_bind (io_write first) (\<lambda>_. io_bind (io_write (overwrite_file p c)) (\<lambda>_. io_sync))) w
    (\<lambda>_ w'. progress {p} w w' \<and> dict_get (io_fs w') p = Some (RegularFile c) \<and> io_id_count w' = io_id_count w)"
proof (rule io_ok_bind, rule io_ok_write [where A = "{p}"], rule assms, rule assms)
  fix w1 assume w1: "progress {p} w w1" "io_id_count w1 = io_id_count w"
  show "io_ok (io_bind (io_write (overwrite_file p c)) (\<lambda>_. io_sync)) w1
    (\<lambda>_ w'. progress {p} w w' \<and> dict_get (io_fs w') p = Some (RegularFile c) \<and> io_id_count w' = io_id_count w)"
  proof (rule io_ok_bind, rule io_ok_write [where A = "{p}"])
    fix w2 assume w2: "progress {p} w1 w2" "io_fs w2 = dict_set (io_fs w1) p (RegularFile c)" "io_id_count w2 = io_id_count w1"
    show "io_ok io_sync w2
      (\<lambda>_ w'. progress {p} w w' \<and> dict_get (io_fs w') p = Some (RegularFile c) \<and> io_id_count w' = io_id_count w)"
      unfolding io_sync_def
      by (rule io_ok_write [where A = "{p}"])
        (use assms(1) w1 w2 in \<open>auto simp: progress_def dict_laws\<close>)
  qed (use assms(1) w1 in \<open>auto simp: progress_def overwrite_file_def dict_laws\<close>)
qed (auto simp: dict_laws)

lemma new_file_ok:
  assumes "reliable w" and "dict_get (io_fs w) p = None"
  shows "io_ok (write_new_file p c) w
    (\<lambda>_ w'. progress {p} w w' \<and> dict_get (io_fs w') p = Some (RegularFile c) \<and> io_id_count w' = io_id_count w)"
  unfolding write_new_file_def
  by (rule three_writes_ok [where n = "RegularFile (OtherBytes [])"]) (use assms in \<open>simp_all add: create_file_def\<close>)

lemma write_bars_ok:
  assumes "reliable w"
  shows "io_ok (write_bars p frame) w
    (\<lambda>_ w'. progress {p} w w' \<and> dict_get (io_fs w') p = Some (RegularFile (ParquetData frame)) \<and> io_id_count w' = io_id_count w)"
  unfolding write_bars_def
  by (rule three_writes_ok [where n = "RegularFile (OtherBytes [])"]) (use assms in \<open>simp_all add: overwrite_file_def\<close>)

lemma sync_ok: "reliable w \<Longrightarrow> (\<And>w'. progress {} w w' \<Longrightarrow> io_id_count w' = io_id_count w \<Longrightarrow> Q () w') \<Longrightarrow> io_ok io_sync w Q"
  unfolding io_sync_def by (rule io_ok_write [where A = "{}"]) auto

lemma hash_artifact_ok:
  "dict_get (io_fs w) p = Some (RegularFile c) \<Longrightarrow> Q (ds_content_hash ds c) w \<Longrightarrow> io_ok (hash_artifact ds p) w Q"
  by (auto simp: io_ok_def hash_artifact_Inr)

lemma io_ok_bind_return: "io_ok m w (\<lambda>_ _. True) \<Longrightarrow> io_ok (io_bind m (\<lambda>v. io_return (f v))) w (\<lambda>_ _. True)"
  by (auto simp: io_ok_def io_bind_def io_simps)

lemma stage_artifacts_ok:
  assumes rel: "reliable w" and fresh: "\<forall>name. dict_get (io_fs w) (generation_path ns gid @ [name]) = None"
  shows "io_ok (stage_artifacts ds frame document manifest ns gid) w
    (\<lambda>_ w'. progress (range (\<lambda>name. generation_path ns gid @ [name])) w w' \<and> io_id_count w' = io_id_count w)"
proof -
  let ?gen = "generation_path ns gid"
  let ?bars = "?gen @ [''bars.parquet'']" and ?meta = "?gen @ [''cache-metadata.json'']"
    and ?man = "?gen @ [''acquisition-manifest.json'']"
  let ?A = "range (\<lambda>name. ?gen @ [name])"
  have A: "progress {?gen @ [name]} v v' \<Longrightarrow> progress ?A v v'" "progress {} v v' \<Longrightarrow> progress ?A v v'" for v v' name
    by (auto elim: progress_mono)
  show ?thesis
    unfolding stage_artifacts_def Let_def write_json_def
  proof (rule io_ok_bind, rule io_ok_weaken [OF write_bars_ok [OF rel]], elim conjE, rule io_ok_bind,
      rule hash_artifact_ok, assumption,
      rule io_ok_bind, rule io_ok_weaken [OF new_file_ok])
    fix w1
    assume w1: "progress {?bars} w w1" "dict_get (io_fs w1) ?bars = Some (RegularFile (ParquetData frame))" "io_id_count w1 = io_id_count w"
    then show "reliable w1" "dict_get (io_fs w1) ?meta = None" using rel fresh by (auto simp: progress_def)
    fix w2 and bars_hash :: string
    assume "progress {?meta} w1 w2 \<and>
        dict_get (io_fs w2) ?meta = Some (RegularFile (JsonText (json_sorted document))) \<and> io_id_count w2 = io_id_count w1"
    then have w2: "progress {?meta} w1 w2"
        "dict_get (io_fs w2) ?meta = Some (RegularFile (JsonText (json_sorted document)))" "io_id_count w2 = io_id_count w1" by auto
    let ?final = "final_manifest manifest gid (join_path ns) (ds_content_hash ds (ParquetData frame))"
    show "io_ok (io_bind (write_new_file ?man (JsonText (json_sorted (manifest_to_dict (ds_redact ds) (ds_fmt ds) ?final)))) (\<lambda>_.
        io_bind (hash_artifacts ds ?gen) (\<lambda>hash_of. io_bind io_sync (\<lambda>_. io_bind io_sync (\<lambda>_. io_return (?final, hash_of)))))) w2
      (\<lambda>_ w'. progress ?A w w' \<and> io_id_count w' = io_id_count w)"
    proof (rule io_ok_bind, rule io_ok_weaken [OF new_file_ok])
      show "reliable w2" "dict_get (io_fs w2) ?man = None" using w1 w2 rel fresh by (auto simp: progress_def)
      fix w3 and u :: unit
      assume "progress {?man} w2 w3 \<and>
        dict_get (io_fs w3) ?man = Some (RegularFile (JsonText (json_sorted (manifest_to_dict (ds_redact ds) (ds_fmt ds) ?final)))) \<and>
        io_id_count w3 = io_id_count w2"
      then have w3: "progress {?man} w2 w3" "io_id_count w3 = io_id_count w2"
        "dict_get (io_fs w3) ?man = Some (RegularFile (JsonText (json_sorted (manifest_to_dict (ds_redact ds) (ds_fmt ds) ?final))))"
        by auto
      have files: "dict_get (io_fs w3) ?bars = Some (RegularFile (ParquetData frame))"
          "dict_get (io_fs w3) ?meta = Some (RegularFile (JsonText (json_sorted document)))"
        using w1 w2 w3 by (auto simp: progress_def)
      have "progress ?A w w3" by (rule progress_trans [OF A(1) [OF w1(1)] progress_trans [OF A(1) [OF w2(1)] A(1) [OF w3(1)]]])
      then show "io_ok (io_bind (hash_artifacts ds ?gen) (\<lambda>hash_of. io_bind io_sync (\<lambda>_. io_bind io_sync (\<lambda>_.
          io_return (?final, hash_of))))) w3 (\<lambda>_ w'. progress ?A w w' \<and> io_id_count w' = io_id_count w)"
        unfolding hash_artifacts_def using rel w1(3) w2(3) w3(2)
        by (intro io_ok_bind hash_artifact_ok [OF files(1)] hash_artifact_ok [OF files(2)] hash_artifact_ok [OF w3(3)] io_ok_return sync_ok conjI)
          (auto simp: progress_def)
    qed
  qed
qed

lemma commit_pointer_ok:
  assumes rel: "reliable w" and fresh: "\<forall>hex. dict_get (io_fs w) (ns @ [''.CURRENT.'' @ hex @ ''.tmp'']) = None"
    and "dict_get (io_fs w) (pointer_path ns) \<noteq> Some DirectoryNode"
  shows "io_ok (commit_pointer ns pointer) w (\<lambda>_ w'. True)"
proof -
  define tmp where "tmp = ns @ [''.CURRENT.'' @ io_ids w (io_id_count w) @ ''.tmp'']"
  have tmp: "tmp \<noteq> pointer_path ns" "dict_get (io_fs w) tmp = None" using fresh by (simp_all add: tmp_def pointer_path_def)
  have "io_ok (io_bind (write_new_file tmp (JsonText (json_sorted pointer))) (\<lambda>_.
      io_bind (io_write (replace_file tmp (pointer_path ns))) (\<lambda>_. io_sync))) (w\<lparr>io_id_count := Suc (io_id_count w)\<rparr>) (\<lambda>_ _. True)"
  proof (rule io_ok_bind, rule io_ok_weaken [OF new_file_ok])
    fix w1 and u :: unit
    assume w1: "progress {tmp} (w\<lparr>io_id_count := Suc (io_id_count w)\<rparr>) w1 \<and>
      dict_get (io_fs w1) tmp = Some (RegularFile (JsonText (json_sorted pointer))) \<and>
      io_id_count w1 = io_id_count (w\<lparr>io_id_count := Suc (io_id_count w)\<rparr>)"
    then have "replace_file tmp (pointer_path ns) (io_fs w1) =
        Inr (dict_del (dict_set (io_fs w1) (pointer_path ns) (RegularFile (JsonText (json_sorted pointer)))) tmp)"
      using assms(3) tmp by (simp add: replace_file_def progress_def)
    then show "io_ok (io_bind (io_write (replace_file tmp (pointer_path ns))) (\<lambda>_. io_sync)) w1 (\<lambda>_ _. True)"
      using w1 rel by (intro io_ok_bind io_ok_write [where A = UNIV] sync_ok) (auto simp: progress_def)
  qed (use rel tmp in simp_all)
  then show ?thesis by (simp add: commit_pointer_def io_ok_def io_bind_def io_simps Let_def tmp_def write_json_def)
qed

text \<open>Nothing stands in the way of a publication: the directories on its path are directories, the
  pointer is not one, and the names it is about to use are free.\<close>

definition publication_room :: "acquisition_request \<Rightarrow> io_world \<Rightarrow> bool" where
  "publication_room request w \<longleftrightarrow> (let ns = generation_namespace request; gid = io_ids w (io_id_count w) in
     reliable w \<and> safe_id gid \<and> dict_get (io_fs w) (generation_path ns gid) = None \<and>
     (\<forall>k \<in> {1..5}. let q = take k (ns @ [''generations'']) in dict_get (io_fs w) q = None \<or> dict_get (io_fs w) q = Some DirectoryNode) \<and>
     dict_get (io_fs w) (pointer_path ns) \<noteq> Some DirectoryNode \<and>
     (\<forall>hex. dict_get (io_fs w) (ns @ [''.CURRENT.'' @ hex @ ''.tmp'']) = None))"

lemma make_directories_ok:
  assumes "dict_get fs p = None"
    and "\<And>k. k < length p \<Longrightarrow> take k p \<noteq> [] \<Longrightarrow> dict_get fs (take k p) = None \<or> is_dir fs (take k p)"
  shows "\<exists>fs'. make_directories p ok fs = Inr fs'"
proof -
  have "\<not> list_ex (\<lambda>n. take n p \<noteq> [] \<and> dict_get fs (take n p) \<noteq> None \<and> \<not> is_dir fs (take n p)) [0..<length p]"
    using assms(2) by (auto simp: list_ex_iff simp del: take_eq_Nil) blast
  then show ?thesis using assms(1) unfolding make_directories_def by simp
qed

lemma publish_locked_ok:
  assumes room: "publication_room request w" and "fs_tree (io_fs w)"
  shows "io_ok (publish_locked ds request frame metadata manifest (generation_namespace request) previous) w (\<lambda>_ _. True)"
proof -
  let ?ns = "generation_namespace request" and ?gid = "io_ids w (io_id_count w)"
  let ?gen = "generation_path ?ns ?gid" and ?w1 = "w\<lparr>io_id_count := Suc (io_id_count w)\<rparr>"
  have rm: "reliable w" "safe_id ?gid" "dict_get (io_fs w) ?gen = None" "dict_get (io_fs w) (pointer_path ?ns) \<noteq> Some DirectoryNode"
      "\<forall>hex. dict_get (io_fs w) (?ns @ [''.CURRENT.'' @ hex @ ''.tmp'']) = None"
      and dirs: "\<And>k. 1 \<le> k \<Longrightarrow> k \<le> 5 \<Longrightarrow> dict_get (io_fs w) (take k (?ns @ [''generations''])) = None \<or>
        dict_get (io_fs w) (take k (?ns @ [''generations''])) = Some DirectoryNode"
    using room by (auto simp: publication_room_def Let_def)
  have len: "length ?ns = 4" by (simp add: generation_namespace_def)
  have pre: "dict_get (io_fs w) (take k ?gen) = None \<or> is_dir (io_fs w) (take k ?gen)" if "k < length ?gen" "take k ?gen \<noteq> []" for k
  proof -
    from that len have "take k ?gen = take k (?ns @ [''generations''])" by (auto simp: generation_path_def take_Cons')
    then show ?thesis using dirs [of k] that len by (auto simp: is_dir_def node_at_def generation_path_def)
  qed
  have link: "\<not> is_symlink (io_fs w) (?ns @ [''generations''])" "\<not> path_exists (io_fs w) ?gen"
    using dirs [of 5] rm(3) len by (auto simp: is_symlink_def path_exists_def node_at_def)
  obtain fs2 where fs2: "make_directories ?gen False (io_fs w) = Inr fs2"
    using make_directories_ok [OF rm(3)] pre by blast
  have "\<forall>hex n. ?ns @ [''.CURRENT.'' @ hex @ ''.tmp''] \<noteq> take n ?gen"
    using len by (auto simp: generation_path_def take_Cons' generation_namespace_def split: if_splits)
  then have fs2_get: "dict_get fs2 (?gen @ [name]) = None" "dict_get fs2 (pointer_path ?ns) = dict_get (io_fs w) (pointer_path ?ns)"
      "dict_get fs2 (?ns @ [''.CURRENT.'' @ hex @ ''.tmp'']) = None" for name hex
    using make_directories_keeps [OF fs2] generation_prefixes rm(3,5) assms(2) by (auto simp: fs_tree_def generation_path_def)
  have "io_ok (write_generation ds request frame metadata manifest ?ns previous ?gid created) w3 (\<lambda>_ _. True)"
    if "reliable w3" "io_fs w3 = fs2" for w3 created
    unfolding write_generation_def Let_def
  proof (rule io_ok_bind, rule io_ok_weaken [OF stage_artifacts_ok])
    fix v w4 assume w4: "progress (range (\<lambda>name. ?gen @ [name])) w3 w4 \<and> io_id_count w4 = io_id_count w3"
    have "?ns @ [''.CURRENT.'' @ hex @ ''.tmp''] \<notin> range (\<lambda>name. ?gen @ [name])" "pointer_path ?ns \<notin> range (\<lambda>name. ?gen @ [name])" for hex
      by (auto simp: generation_path_def pointer_path_def)
    then have "io_ok (commit_pointer ?ns p) w4 (\<lambda>_ _. True)" for p
      using w4 that fs2_get(2,3) rm(4) by (intro commit_pointer_ok) (auto simp: progress_def)
    then show "io_ok (case v of (final, hash_of) \<Rightarrow> io_bind (commit_pointer ?ns (pointer_document ?gid previous created hash_of)) (\<lambda>_.
        io_return \<lparr>gp_generation_id = ?gid, gp_frame = frame,
          gp_metadata = metadata_document ds request metadata ?gid created, gp_manifest = final, gp_warnings = []\<rparr>)) w4 (\<lambda>_ _. True)"
      by (cases v) (simp add: io_ok_bind_return)
  qed (use that fs2_get(1) in auto)
  then have "\<exists>pub w'. write_generation ds request frame metadata manifest ?ns previous ?gid created w3 = (Inr pub, w')"
    if "reliable w3" "io_fs w3 = fs2" for w3 created
    using that by (auto simp: io_ok_def)
  from this [of "w\<lparr>io_id_count := Suc (io_id_count w), io_calls := Suc (io_calls w), io_fs := fs2,
      io_clock_reads := Suc (io_clock_reads w)\<rparr>" "iso_text (ds_fmt ds) (io_clock w (io_clock_reads w))"] rm(1)
  show ?thesis using rm(1,2) link fs2
    by (auto simp: io_ok_def publish_locked_def io_bind_def io_catch_def io_simps validate_generation_id_def Let_def io_write_def)
qed

lemma os_error_write: "io_write f w = (Inl e, w') \<Longrightarrow> (\<And>fs x. f fs = Inl x \<Longrightarrow> is_os_error x) \<Longrightarrow> is_os_error e"
  by (auto simp: io_write_def Let_def split: if_splits sum.splits)

lemma archive_after_commit_returns: "\<exists>pub' w'. archive_after_commit ds request pub w = (Inr pub', w')"
proof -
  let ?pin = "pin (generation_namespace request) (gp_generation_id pub) (mf_acquisition_id (gp_manifest pub))"
  obtain r1 w1 where w1: "archive_manifest (ds_redact ds) (sv_digest (ds_service ds)) (ds_fmt ds) (gp_manifest pub) w = (r1, w1)"
    by fastforce
  obtain r2 w2 where w2: "?pin w1 = (r2, w2)" by fastforce
  have "is_os_error e" if "r2 = Inl e" for e
    using w2 that file_call_errors os_error_write
    by (auto simp: pin_def write_json_def write_new_file_def io_sync_def io_bind_Inl overwrite_file_def elim!: os_error_write)
  then show ?thesis using w1 w2 unfolding archive_after_commit_def
    by (cases r1; cases r2) (auto simp: io_catch_def io_bind_def io_simps)
qed

lemma namespace_prefixes:
  "\<forall>n. generation_path ns gid \<noteq> take n ns" "\<forall>n. pointer_path ns \<noteq> take n ns" "\<forall>n. ns @ [x] \<noteq> take n ns"
  by (auto simp: pointer_path_def generation_path_def dest!: arg_cong [where f = length])

lemma room_namespace:
  assumes room: "publication_room request w"
  obtains fs1 where "make_directories (generation_namespace request) True (io_fs w) = Inr fs1"
    "\<And>w1. io_fs w1 = fs1 \<Longrightarrow> io_ids w1 = io_ids w \<Longrightarrow> io_id_count w1 = io_id_count w \<Longrightarrow> io_fails w1 = io_fails w \<Longrightarrow>
      publication_room request w1"
proof -
  let ?ns = "generation_namespace request" and ?P = "\<lambda>fs q. dict_get fs q = None \<or> dict_get fs q = Some DirectoryNode"
  have len: "length ?ns = 4" by (simp add: generation_namespace_def)
  have dirs: "?P (io_fs w) (take k ?ns)" if "1 \<le> k" "k \<le> 4" for k
    using room that len by (auto simp: publication_room_def Let_def dest!: bspec [where x = k])
  have "\<exists>fs1. make_directories ?ns True (io_fs w) = Inr fs1"
  proof (cases "dict_get (io_fs w) ?ns")
    case None
    show ?thesis
    proof (rule make_directories_ok [OF None])
      fix k assume "k < length ?ns" "take k ?ns \<noteq> []"
      then show "dict_get (io_fs w) (take k ?ns) = None \<or> is_dir (io_fs w) (take k ?ns)"
        using dirs [of k] len by (auto simp: is_dir_def node_at_def)
    qed
  next
    case (Some n)
    then show ?thesis using dirs [of 4] len by (simp add: make_directories_def is_dir_def node_at_def)
  qed
  then obtain fs1 where fs1: "make_directories ?ns True (io_fs w) = Inr fs1" by blast
  note same = make_directories_keeps [OF fs1]
  have "?P fs1 (take k (?ns @ [''generations'']))" if k: "k \<in> {1..5}" for k
  proof -
    from room have "\<forall>k \<in> {1..5}. ?P (io_fs w) (take k (?ns @ [''generations'']))"
      unfolding publication_room_def Let_def by blast
    with k have "?P (io_fs w) (take k (?ns @ [''generations'']))" by blast
    then show ?thesis using make_directories_get [OF fs1, of "take k (?ns @ [''generations''])"]
      by (cases "dict_get fs1 (take k (?ns @ [''generations'']))") auto
  qed
  with fs1 same namespace_prefixes room show ?thesis
    by (intro that [OF fs1]) (simp add: publication_room_def Let_def)
qed

lemma publish_attempts_ok:
  assumes "publication_room request w" and "fs_tree (io_fs w)" and "ds_conflict_probe ds = None"
    and "cg_status (read_generation ds (io_fs w) request) \<noteq> INVALIDATED"
    and "assemble ds base (read_generation ds (io_fs w) request) frame (mf_lineage manifest) ranges = Inr (assembled, lineage)"
    and "revalidated ds request revalidate assembled = Inr checked"
  shows "\<exists>pub w'. publish_attempts ds request frame metadata manifest revalidate ranges (n # ns) base w = (Inr pub, w')"
proof -
  let ?ns = "generation_namespace request"
  obtain fs1 where fs1: "make_directories ?ns True (io_fs w) = Inr fs1"
      and room1: "\<And>w1. io_fs w1 = fs1 \<Longrightarrow> io_ids w1 = io_ids w \<Longrightarrow> io_id_count w1 = io_id_count w \<Longrightarrow> io_fails w1 = io_fails w \<Longrightarrow>
        publication_room request w1"
    using room_namespace [OF assms(1)] by blast
  let ?w1 = "w\<lparr>io_calls := Suc (io_calls w), io_fs := fs1\<rparr>"
  have w1: "io_write (make_directories ?ns True) w = (Inr (), ?w1)"
    using assms(1) fs1 by (simp add: io_write_Inr publication_room_def Let_def)
  have read1: "read_generation ds fs1 request = read_generation ds (io_fs w) request"
    by (rule make_namespace(3) [OF fs1 assms(2)])
  have cur: "current_generation_id ds fs1 request = Inr (cg_generation_id (read_generation ds (io_fs w) request))"
    using current_generation_read [of ds fs1 request] read1 assms(4) by simp
  have "io_ok (publish_locked ds request checked metadata (manifest\<lparr>mf_lineage := lineage\<rparr>) ?ns
      (cg_generation_id (read_generation ds (io_fs w) request))) ?w1 (\<lambda>_ _. True)"
    by (rule publish_locked_ok) (use room1 make_directories_tree [OF fs1 assms(2)] in simp_all)
  then obtain pub w2 where w2: "publish_locked ds request checked metadata (manifest\<lparr>mf_lineage := lineage\<rparr>) ?ns
      (cg_generation_id (read_generation ds (io_fs w) request)) ?w1 = (Inr pub, w2)"
    by (auto simp: io_ok_def)
  obtain pub' w' where "archive_after_commit ds request pub w2 = (Inr pub', w')" using archive_after_commit_returns by blast
  then show ?thesis using w1 read1 cur w2 assms(3-6) by (simp add: io_bind_def io_simps Let_def)
qed

text \<open>C24: a publication goes through when nothing fails. If no call fails, the names it needs are free
  and no other publisher interferes, then a valid candidate whose assembly and revalidation
  succeed on the current generation is published at the first attempt; a report that cannot be
  archived does not take that back.\<close>

theorem publication_succeeds:
  assumes "publication_room request w" and "fs_tree (io_fs w)" and "ds_conflict_probe ds = None"
    and "publishable request manifest" and "validate_canonical (ds_redact ds) frame request = Inr ()"
    and "cg_status (read_generation ds (io_fs w) request) \<noteq> INVALIDATED"
    and "assemble ds base (read_generation ds (io_fs w) request) frame (mf_lineage manifest) ranges = Inr (assembled, lineage)"
    and "revalidated ds request revalidate assembled = Inr checked"
  shows "\<exists>pub w'. publish_generation ds request frame metadata manifest base revalidate ranges w = (Inr pub, w')"
  using publish_attempts_ok [OF assms(1-3,6-8)] assms(4,5)
  by (auto simp: publish_generation_def publishable_def io_bind_def io_simps simp del: publish_attempts.simps)

section \<open>Instances\<close>

definition demo_store :: data_store where
  "demo_store = \<lparr>ds_service = demo_service, ds_fmt = demo_fmt, ds_content_hash = (\<lambda>_. replicate 64 (CHR ''0'')),
     ds_calendar_versions = [(''XNYS'', ''4'')], ds_archives_publications = True, ds_conflict_probe = None\<rparr>"

abbreviation demo_publish :: "(exn + generation_publication) \<times> io_world" where
  "demo_publish \<equiv> publish_generation demo_store demo_request demo_frame [] demo_manifest None None [] demo_io"

lemma demo_setting: "publication_setting demo_store demo_request demo_io"
  by (simp add: publication_setting_def store_ok_def demo_store_def demo_service_def demo_fmt_ok is_sha256_def list_all_iff
      fs_tree_def validate_namespace_path_def generation_namespace_def is_symlink_def demo_io_def)

lemma demo_valid: "validate_canonical (\<lambda>s. s) demo_frame demo_request = Inr ()"
  by code_simp

lemma demo_read: "read_generation demo_store (io_fs demo_io) demo_request = no_generation MISS None"
  by (simp add: read_generation_def demo_io_def is_symlink_def path_exists_def node_at_def)

lemma demo_publishable: "publishable demo_request demo_manifest"
  by (simp add: publishable_def demo_manifest_def)

lemma demo_room:
  "publication_room demo_request demo_io" "fs_tree (io_fs demo_io)" "ds_conflict_probe demo_store = None"
  "validate_canonical (ds_redact demo_store) demo_frame demo_request = Inr ()"
  "cg_status (read_generation demo_store (io_fs demo_io) demo_request) \<noteq> INVALIDATED"
  "assemble demo_store None (read_generation demo_store (io_fs demo_io) demo_request) demo_frame (mf_lineage demo_manifest) []
     = Inr (demo_frame, mf_lineage demo_manifest)"
  "revalidated demo_store demo_request None demo_frame = Inr demo_frame"
proof -
  have "safe_id (io_ids demo_io (io_id_count demo_io))" by code_simp
  then show "publication_room demo_request demo_io"
    by (simp add: publication_room_def Let_def demo_io_def)
  show "cg_status (read_generation demo_store (io_fs demo_io) demo_request) \<noteq> INVALIDATED"
    "assemble demo_store None (read_generation demo_store (io_fs demo_io) demo_request) demo_frame (mf_lineage demo_manifest) []
     = Inr (demo_frame, mf_lineage demo_manifest)"
    unfolding demo_read by (simp_all add: no_generation_def assemble_def)
qed (use demo_valid in \<open>simp_all add: fs_tree_def demo_io_def demo_store_def demo_service_def revalidated_def\<close>)

lemma publication_succeeds_witness: "\<exists>pub w'. demo_publish = (Inr pub, w')"
  by (rule publication_succeeds [OF demo_room(1-3) demo_publishable demo_room(4-7)])

text \<open>The world after the demonstration's publication.\<close>

lemma demo_published:
  obtains pub w' gid t where "demo_publish = (Inr pub, w')"
    "read_generation demo_store (io_fs w') demo_request = committed demo_store demo_request demo_frame [] demo_manifest gid t"
    "gp_generation_id pub = gid" "gp_manifest pub = final_manifest demo_manifest gid (join_path (generation_namespace demo_request))
       (ds_content_hash demo_store (ParquetData demo_frame))" "\<not> is_symlink (io_fs w') (generation_namespace demo_request @ [''pins''])"
proof -
  from publish_attempts_ok [OF demo_room(1-3,5-7)] obtain pub w' where
      run: "publish_attempts demo_store demo_request demo_frame [] demo_manifest None [] [1, 2, 3] None demo_io = (Inr pub, w')"
    by blast
  have "demo_publish = (Inr pub, w')"
    using run demo_publishable demo_room(4)
    by (simp add: publish_generation_def publishable_def io_bind_def io_simps del: publish_attempts.simps)
  moreover from publish_attempt_run [OF run demo_setting demo_publishable] have "nodes_kept demo_request [] (io_fs w')"
    by (simp add: demo_io_def)
  then have "\<not> is_symlink (io_fs w') (generation_namespace demo_request @ [''pins''])"
    by (auto simp: nodes_kept_def pointer_path_def is_symlink_def [of "[]"])
  moreover from publish_attempt_run [OF run demo_setting demo_publishable] obtain assembled lineage checked where
      "assemble demo_store None (read_generation demo_store (io_fs demo_io) demo_request) demo_frame (mf_lineage demo_manifest) []
        = Inr (assembled, lineage)" "revalidated demo_store demo_request None assembled = Inr checked"
      "publication_outcome demo_store demo_request checked [] (demo_manifest\<lparr>mf_lineage := lineage\<rparr>) (Inr pub) w'"
    by auto
  ultimately show ?thesis using that demo_room(6,7) by (auto simp: publication_outcome_def)
qed

lemma publication_atomic_witness:
  "\<exists>pub w'. demo_publish = (Inr pub, w') \<and>
     cg_frame (read_generation demo_store (io_fs w') demo_request) = Some demo_frame"
proof -
  obtain pub w' gid t where run: "demo_publish = (Inr pub, w')" by (rule demo_published)
  have "mf_schema_version demo_manifest = CONTRACT_VERSION" by (simp add: demo_manifest_def)
  from publication_atomic [OF run demo_setting this] demo_room(6,7) run show ?thesis
    by (auto simp: publication_outcome_def committed_def)
qed


end
