(* ===== verification/Store_Maintenance.thy ===== *)
theory Store_Maintenance
  imports Publication
begin

text \<open>
  Cleanup of old generations and the reports of publications: cleanup keeps what is read, pinned or
  the valid predecessor, and never raises; a report whose archiving failed is found again through
  its pin, until maintenance has archived it.
\<close>

section \<open>What a read looks at\<close>

definition consulted :: "path \<Rightarrow> string \<Rightarrow> path set" where
  "consulted ns gid = {pointer_path ns, ns @ [''generations''], generation_path ns gid} \<union>
     range (\<lambda>n. take n ns) \<union> range (\<lambda>name. generation_path ns gid @ [name])"

definition same_at :: "path set \<Rightarrow> fs \<Rightarrow> fs \<Rightarrow> bool" where
  "same_at A old new \<longleftrightarrow> (\<forall>q \<in> A. dict_get new q = dict_get old q)"

lemma same_at_reads:
  assumes "dict_get new q = dict_get old q"
  shows "is_symlink new q = is_symlink old q" "is_dir new q = is_dir old q" "is_file new q = is_file old q"
    "path_exists new q = path_exists old q" "read_bytes new q = read_bytes old q" "load_json new q = load_json old q"
    "read_parquet new q = read_parquet old q" "sha256_file ds new q = sha256_file ds old q"
  using assms
  by (simp_all add: is_symlink_def is_dir_def is_file_def path_exists_def read_bytes_def load_json_def load_json_value_def
      read_parquet_def sha256_file_def node_at_def)

lemma generation_directory_valid_same:
  assumes "\<And>name. dict_get new (generation @ [name]) = dict_get old (generation @ [name])"
  shows "generation_directory_valid ds new request generation metadata = generation_directory_valid ds old request generation metadata"
  unfolding generation_directory_valid_def same_at_reads [OF assms] ..

lemma read_referenced_same:
  assumes "same_at (consulted ns (text_of (jget pointer ''generation_id''))) old new"
  shows "read_referenced ds new request ns pointer = read_referenced ds old request ns pointer"
proof -
  let ?gid = "text_of (jget pointer ''generation_id'')"
  let ?gen = "generation_path ns ?gid"
  have files: "dict_get new (?gen @ [name]) = dict_get old (?gen @ [name])" for name
    using assms by (auto simp: same_at_def consulted_def)
  have dirs: "dict_get new (take n ns) = dict_get old (take n ns)"
      "dict_get new (ns @ [''generations'']) = dict_get old (ns @ [''generations''])" "dict_get new ?gen = dict_get old ?gen" for n
    using assms by (auto simp: same_at_def consulted_def)
  have path: "referenced_generation_path new ns ?gid = referenced_generation_path old ns ?gid"
    unfolding referenced_generation_path_def validate_namespace_path_def
      same_at_reads [OF dirs(1)] same_at_reads [OF dirs(2)] same_at_reads [OF dirs(3)] ..
  have arts: "check_artifact ds new ?gen artifacts = check_artifact ds old ?gen artifacts" for artifacts
    by (intro ext) (simp add: check_artifact_def Let_def same_at_reads [OF files])
  show ?thesis
  proof (cases "referenced_generation_path old ns ?gid")
    case (Inr p)
    then have p: "p = ?gen" by (rule referenced_generation_path_Inr)
    show ?thesis
      by (simp add: read_referenced_def Let_def path Inr p arts same_at_reads [OF files] generation_directory_valid_same [OF files]
          cong: if_cong)
  qed (simp add: read_referenced_def Let_def path)
qed

lemma read_generation_same:
  assumes "cg_generation_id (read_generation ds old request) = Some gid"
    and "same_at (consulted (generation_namespace request) gid) old new"
  shows "read_generation ds new request = read_generation ds old request"
proof (cases rule: read_generation_cases [of ds old request])
  case (hit pointer)
  let ?ns = "generation_namespace request"
  have "cg_generation_id (read_generation ds old request) = Some (text_of (jget pointer ''generation_id''))"
    using hit(1) by (rule read_referenced_Inr) simp
  with assms have gid: "gid = text_of (jget pointer ''generation_id'')" by simp
  have "read_referenced ds new request ?ns pointer = Inr (read_generation ds old request)"
    using read_referenced_same [OF assms(2) [unfolded gid]] hit(1) by simp
  moreover have "dict_get new (pointer_path ?ns) = Some (RegularFile (JsonText pointer))"
    using assms(2) hit(2) by (simp add: same_at_def consulted_def)
  ultimately show ?thesis using hit(3,4) by (rule read_generation_hit)
qed (use assms in \<open>auto simp: no_generation_def\<close>)

section \<open>Cleanup\<close>

text \<open>The file system without the trees of some generations.\<close>

definition pruned :: "path \<Rightarrow> string set \<Rightarrow> fs \<Rightarrow> fs \<Rightarrow> bool" where
  "pruned ns R old new \<longleftrightarrow> (\<forall>p. dict_get new p =
     (if \<exists>name \<in> R. take (length (generation_path ns name)) p = generation_path ns name then None else dict_get old p))"

lemma dict_get_kept: "dict_get (filter (\<lambda>(q, n). Q q) fs) p = (if Q p then dict_get fs p else None)"
  by (induction fs) (auto simp: dict_get_def)

lemma remove_tree_pruned:
  assumes "remove_tree (generation_path ns name) fs = Inr fs'"
  shows "pruned ns {name} fs fs'"
  using assms by (auto simp: remove_tree_def pruned_def dict_get_kept split: if_splits)

lemma remove_tree_error: "remove_tree p fs = Inl e \<Longrightarrow> is_os_error e"
  by (auto simp: remove_tree_def split: if_splits)

lemma remove_generation_run:
  assumes "remove_generation ns name (removed, warnings) w = (r, w')"
  shows "\<exists>ws. io_archive w' = io_archive w \<and>
    (r = Inr (removed @ [name], ws) \<and> pruned ns {name} (io_fs w) (io_fs w') \<or> r = Inr (removed, ws) \<and> io_fs w' = io_fs w)"
proof -
  obtain r1 w1 where w1: "io_write (remove_tree (generation_path ns name)) w = (r1, w1)" by fastforce
  show ?thesis
  proof (cases r1)
    case (Inl e)
    with w1 have "is_os_error e" "io_fs w1 = io_fs w" "io_archive w1 = io_archive w"
      by (auto simp: io_write_def Let_def split: if_splits sum.splits dest: remove_tree_error)
    with assms w1 Inl show ?thesis by (auto simp: remove_generation_def io_catch_def io_bind_def io_simps)
  next
    case (Inr u)
    with w1 have "pruned ns {name} (io_fs w) (io_fs w1)" "io_archive w1 = io_archive w"
      by (auto simp: io_write_Inr dest: remove_tree_pruned)
    with assms w1 Inr show ?thesis by (auto simp: remove_generation_def io_catch_def io_bind_def io_simps)
  qed
qed

lemma pruned_step: "pruned ns {name} a b \<Longrightarrow> pruned ns R b c \<Longrightarrow> pruned ns (insert name R) a c"
  by (auto simp: pruned_def)

lemma pruned_empty [simp]: "pruned ns {} fs fs"
  by (simp add: pruned_def)

lemma remove_generations_run:
  assumes "io_fold (remove_generation ns) names (removed, warnings) w = (r, w')"
  shows "\<exists>new ws. r = Inr (removed @ new, ws) \<and> set new \<subseteq> set names \<and> io_archive w' = io_archive w \<and>
    pruned ns (set new) (io_fs w) (io_fs w')"
  using assms
proof (induction names arbitrary: removed warnings w)
  case Nil
  then show ?case by (auto simp: io_simps)
next
  case (Cons name names)
  obtain r1 w1 where w1: "remove_generation ns name (removed, warnings) w = (r1, w1)" by fastforce
  from remove_generation_run [OF w1] obtain ws where arch: "io_archive w1 = io_archive w"
      and "r1 = Inr (removed @ [name], ws) \<and> pruned ns {name} (io_fs w) (io_fs w1) \<or> r1 = Inr (removed, ws) \<and> io_fs w1 = io_fs w"
    by blast
  then show ?case
  proof (elim disjE conjE)
    assume step: "r1 = Inr (removed @ [name], ws)" "pruned ns {name} (io_fs w) (io_fs w1)"
    with Cons.prems w1 have "io_fold (remove_generation ns) names (removed @ [name], ws) w1 = (r, w')" by (simp add: io_bind_def)
    from Cons.IH [OF this] obtain new ws' where "r = Inr ((removed @ [name]) @ new, ws')" "set new \<subseteq> set names"
        "io_archive w' = io_archive w1" "pruned ns (set new) (io_fs w1) (io_fs w')" by blast
    with arch pruned_step [OF step(2)] show ?thesis by (intro exI [of _ "name # new"] exI [of _ ws']) auto
  next
    assume "r1 = Inr (removed, ws)" "io_fs w1 = io_fs w"
    with Cons.prems w1 have "io_fold (remove_generation ns) names (removed, ws) w1 = (r, w')" by (simp add: io_bind_def)
    from Cons.IH [OF this] arch \<open>io_fs w1 = io_fs w\<close> show ?thesis by auto
  qed
qed

text \<open>The generations that a cleanup keeps: the one that is read, every pinned one, and the one the
  pointer names as its predecessor if it is still valid.\<close>

definition retained :: "data_store \<Rightarrow> fs \<Rightarrow> acquisition_request \<Rightarrow> string set" where
  "retained ds fs request = (let ns = generation_namespace request in
     set_option (cg_generation_id (read_generation ds fs request)) \<union> set (pinned_generation_ids fs ns) \<union>
     (case load_pointer ds fs ns True of
        Inr (Some pointer) \<Rightarrow> set (retained_previous ds fs request ns (jget pointer ''previous_generation_id'')) | _ \<Rightarrow> {}))"

lemma length_generation_path: "length (generation_path ns name) = Suc (Suc (length ns))"
  by (simp add: generation_path_def)

lemma generation_path_nth: "generation_path ns name ! Suc (length ns) = name"
  by (simp add: generation_path_def nth_append)

lemma pruned_consulted:
  assumes "pruned ns R old new" and "gid \<notin> R"
  shows "same_at (consulted ns gid) old new"
proof -
  have "take (length (generation_path ns name)) q \<noteq> generation_path ns name" if "q \<in> consulted ns gid" "name \<in> R" for q name
  proof
    assume eq: "take (length (generation_path ns name)) q = generation_path ns name"
    then have long: "length (generation_path ns name) \<le> length q" using arg_cong [OF eq, of length] unfolding length_take by linarith
    from eq have "q ! Suc (length ns) = name" by (metis generation_path_nth length_generation_path lessI nth_take)
    moreover from that long have "q ! Suc (length ns) = gid"
      by (auto simp: consulted_def pointer_path_def generation_path_def nth_append)
    ultimately show False using that assms(2) by simp
  qed
  then show ?thesis using assms(1) by (auto simp: same_at_def pruned_def)
qed

lemma cleanup_skipped:
  assumes "cleanup_generations ds request w = (r, w')" and "cg_status (read_generation ds (io_fs w) request) \<notin> {FULL_HIT, PARTIAL_HIT}"
  shows "w' = w \<and> (\<exists>warnings. r = Inr \<lparr>cl_removed_generation_ids = [], cl_warnings = warnings\<rparr>)"
proof (cases "path_exists (io_fs w) (generation_namespace request @ [''generations''])")
  case True
  with assms show ?thesis by (simp add: cleanup_generations_def Let_def) blast
qed (use assms in \<open>auto simp: cleanup_generations_def Let_def\<close>)


section \<open>Reports of publications\<close>

definition pin_document :: "string \<Rightarrow> string \<Rightarrow> json" where
  "pin_document generation_id acquisition_id = JObj [(''schema_version'', JStr POINTER_SCHEMA_VERSION),
     (''generation_id'', JStr generation_id), (''acquisition_id'', JStr acquisition_id)]"

lemma pin_Inr:
  assumes "pin ns gid aid w = (Inr u, w')"
  shows "dict_get (io_fs w') (ns @ [''pins'', gid @ ''.json'']) = Some (RegularFile (JsonText (json_sorted (pin_document gid aid))))"
    and "fs_adds (io_fs w) (io_fs w')"
proof -
  from assms obtain w1 w2 where w1: "io_write (make_directories (ns @ [''pins'']) True) w = (Inr (), w1)"
      and w2: "write_new_file (ns @ [''pins'', gid @ ''.json'']) (JsonText (json_sorted (pin_document gid aid))) w1 = (Inr (), w2)"
      and w': "io_fs w' = io_fs w2"
    by (auto simp: pin_def write_json_def pin_document_def io_bind_Inr io_sync_Inr)
  show "dict_get (io_fs w') (ns @ [''pins'', gid @ ''.json'']) = Some (RegularFile (JsonText (json_sorted (pin_document gid aid))))"
    using new_file_Inr(1) [OF w2] w' by simp
  show "fs_adds (io_fs w) (io_fs w')"
    using io_keepsD [OF quiet_pin _ assms, of "io_fs w"] by simp
qed

lemma pin_document_get:
  "jget (json_sorted (pin_document gid aid)) ''schema_version'' = JStr POINTER_SCHEMA_VERSION"
  "jget (json_sorted (pin_document gid aid)) ''generation_id'' = JStr gid"
  "jget (json_sorted (pin_document gid aid)) ''acquisition_id'' = JStr aid"
  "jkeys (json_sorted (pin_document gid aid)) = {''schema_version'', ''generation_id'', ''acquisition_id''}"
  "members (json_sorted (pin_document gid aid)) \<noteq> None"
  unfolding jget_sorted jkeys_sorted json_sorted_members by (simp_all add: pin_document_def)

lemma pin_loaded:
  assumes "dict_get fs (ns @ [''pins'', gid @ ''.json'']) = Some (RegularFile (JsonText (json_sorted (pin_document gid aid))))"
    and "\<not> is_symlink fs (ns @ [''pins''])" and "validate_namespace_path fs ns = Inr ()" and "safe_id gid" and "safe_id aid"
  shows "load_pin fs ns (ns @ [''pins'', gid @ ''.json'']) = Inr (gid, aid)"
proof -
  have "load_json fs (ns @ [''pins'', gid @ ''.json'']) = Inr (json_sorted (pin_document gid aid))"
    unfolding artifact_read_Inr using assms(1) pin_document_get(5) by simp
  then show ?thesis
    using assms unfolding load_pin_def
    by (simp add: is_symlink_def pin_document_get validate_generation_id_def validate_acquisition_id_def file_stem_def
        del: jget_sorted jkeys_sorted)
qed

lemma pin_path_listed:
  assumes "dict_get fs (ns @ [''pins'', gid @ ''.json'']) = Some n" and "ns = generation_namespace request"
  shows "(ns, ns @ [''pins'', gid @ ''.json'']) \<in> set (pin_paths fs)"
proof -
  have len: "length ns = 4" "hd ns = CONTRACT_VERSION" using assms(2) by (simp_all add: generation_namespace_def)
  have "ns @ [''pins'', gid @ ''.json''] \<in> set (map fst fs)"
    using assms(1) by (force simp: dict_get_def dest: map_of_SomeD)
  moreover have "length (ns @ [''pins'', gid @ ''.json'']) = 6 \<and> hd (ns @ [''pins'', gid @ ''.json'']) = CONTRACT_VERSION \<and>
      (ns @ [''pins'', gid @ ''.json'']) ! 4 = ''pins'' \<and> json_suffix ((ns @ [''pins'', gid @ ''.json'']) ! 5)"
    using len assms(2) by (simp add: generation_namespace_def json_suffix_def)
  ultimately show ?thesis using len unfolding pin_paths_def by (force simp: image_iff)
qed

lemma pinned_report_id:
  assumes "pinned_report fs x = Inr (aid, d)"
  shows "jget d ''acquisition_id'' = JStr aid"
  using assms by (auto simp: pinned_report_def pinned_embedded_manifest_def result_simps Let_def split: prod.splits if_splits)

text \<open>A report under a readable pin is found, unless the archive has one.\<close>

lemma lookup_pinned:
  assumes "x \<in> set (pin_paths fs)" and "pinned_report fs x = Inr (aid, d)"
    and "ds_archives_publications ds \<Longrightarrow> lookup_report (ds_redact ds) (sv_digest (ds_service ds)) archive aid = Inr None"
  shows "\<exists>d. lookup_manifest ds fs archive aid = Inr (Some d) \<and> jget d ''acquisition_id'' = JStr aid"
proof -
  let ?P = "\<lambda>x. case pinned_report fs x of Inr (a, d) \<Rightarrow> a = aid | Inl _ \<Rightarrow> False"
  have "?P x" using assms(2) by simp
  with assms(1) have "find ?P (pin_paths fs) \<noteq> None" unfolding find_None_iff by blast
  then obtain y where y: "find ?P (pin_paths fs) = Some y" by blast
  then have "?P y" by (auto simp: find_Some_iff)
  then obtain d' where d': "pinned_report fs y = Inr (aid, d')" by (auto split: sum.splits)
  then have "lookup_manifest ds fs archive aid = Inr (Some d')"
    using assms(3) y unfolding lookup_manifest_def by (cases "ds_archives_publications ds") simp_all
  with pinned_report_id [OF d'] show ?thesis by blast
qed

lemma embedded_manifest_loaded:
  assumes "referenced_generation_path fs ns gid = Inr (generation_path ns gid)"
    and "load_json fs (generation_path ns gid @ [''acquisition-manifest.json'']) = Inr doc"
    and "embedded_manifest_compatible request ns gid h doc" and "jget doc ''acquisition_id'' = JStr aid"
    and "\<not> is_symlink fs (generation_path ns gid @ [''acquisition-manifest.json''])"
  shows "pinned_embedded_manifest fs ns gid aid = Inr doc"
proof -
  have "is_file fs (generation_path ns gid @ [''acquisition-manifest.json''])"
    using assms(2) by (auto simp: artifact_read_Inr read_bytes_def is_file_def split: option.splits node.splits)
  with assms show ?thesis by (simp add: pinned_embedded_manifest_def embedded_manifest_compatible_def)
qed

text \<open>A pin that was written makes the embedded report of the current generation readable through it.\<close>

lemma pin_makes_readable:
  fixes ds m
  defines "aid \<equiv> mf_acquisition_id m" and "doc \<equiv> manifest_to_dict (ds_redact ds) (ds_fmt ds) m" and "ns \<equiv> generation_namespace"
  assumes pinned: "dict_get fs (ns request @ [''pins'', gid @ ''.json'']) = Some (RegularFile (JsonText (json_sorted (pin_document gid aid))))"
    and adds: "fs_adds old fs" and read: "cg_generation_id (read_generation ds old request) = Some gid"
      "cg_manifest (read_generation ds old request) = Some (json_sorted doc)"
    and ids: "safe_id aid" "ds_redact ds aid = aid" and pins: "\<not> is_symlink old (ns request @ [''pins''])"
  shows "pinned_report fs (ns request, ns request @ [''pins'', gid @ ''.json'']) = Inr (aid, json_sorted doc)"
proof -
  let ?ns = "ns request"
  obtain pointer where hit: "read_referenced ds old request ?ns pointer = Inr (read_generation ds old request)"
      "check_pointer ds pointer = Inr pointer"
    using read(1) unfolding ns_def by (cases rule: read_generation_cases [of ds old request]) (auto simp: no_generation_def)
  from hit(1) have refs: "referenced_generation_path old ?ns gid = Inr (generation_path ?ns gid)"
      "load_json old (generation_path ?ns gid @ [''acquisition-manifest.json'']) = Inr (json_sorted doc)"
      "embedded_manifest_compatible request ?ns gid (jget (json_sorted doc) ''output_hash'') (json_sorted doc)"
      "safe_id gid" "artifacts_match ds old (generation_path ?ns gid) pointer"
    using read check_pointer_ids(2) [OF hit(2)]
    by (auto elim!: read_referenced_Inr simp: embedded_manifest_compatible_def simp del: jget_sorted)
  have "validate_namespace_path fs ?ns = Inr ()"
    using fs_adds_referenced_path [OF adds refs(1)] by (auto simp: referenced_generation_path_def result_simps)
  then have "load_pin fs ?ns (?ns @ [''pins'', gid @ ''.json'']) = Inr (gid, aid)"
    by (intro pin_loaded pinned refs(4) ids(1)) (use pins fs_adds_symlink [OF adds] in simp)
  moreover have "pinned_embedded_manifest fs ?ns gid aid = Inr (json_sorted doc)"
    by (rule embedded_manifest_loaded [OF fs_adds_referenced_path [OF adds refs(1)] fs_adds_reads(5) [OF adds refs(2)] refs(3)])
      (use ids(2) refs(5) fs_adds_symlink [OF adds] in
        \<open>auto simp: doc_def manifest_to_dict_get aid_def artifacts_match_def artifact_names_def is_symlink_def\<close>)
  ultimately show ?thesis by (simp add: pinned_report_def)
qed

text \<open>The report of a committed publication can be looked up. If archiving it succeeded, the archive
  has it, redacted and with sorted keys; if archiving failed and the warning says no more than that,
  the generation is pinned and the lookup finds its embedded report by the acquisition identifier,
  unless the archive itself holds something unreadable under that name.\<close>

theorem report_recoverable:
  fixes pub ds
  defines "aid \<equiv> mf_acquisition_id (gp_manifest pub)"
    and "doc \<equiv> manifest_to_dict (ds_redact ds) (ds_fmt ds) (gp_manifest pub)"
  assumes run: "archive_after_commit ds request pub w = (Inr pub', w')"
    and store: "ds_archives_publications ds" "gp_warnings pub = []"
    and read: "cg_generation_id (read_generation ds (io_fs w) request) = Some (gp_generation_id pub)"
      "cg_manifest (read_generation ds (io_fs w) request) = Some (json_sorted doc)"
    and ids: "safe_id aid" "ds_redact ds aid = aid" and pins: "\<not> is_symlink (io_fs w) (generation_namespace request @ [''pins''])"
  shows "(gp_warnings pub' = [] \<longrightarrow> lookup_manifest ds (io_fs w') (io_archive w') aid =
      Inr (Some (json_sorted (json_safe_json (ds_redact ds) doc)))) \<and>
    (gp_warnings pub' = [''cache committed but request report archival failed''] \<longrightarrow>
      (\<exists>d. lookup_manifest ds (io_fs w') (io_archive w') aid = Inr (Some d) \<and> jget d ''acquisition_id'' = JStr aid) \<or>
      (\<exists>e. lookup_manifest ds (io_fs w') (io_archive w') aid = Inl e))"
proof -
  let ?ns = "generation_namespace request" and ?gid = "gp_generation_id pub" and ?redact = "ds_redact ds" and ?api = "sv_digest (ds_service ds)"
  obtain r1 w1 where w1: "archive_manifest ?redact ?api (ds_fmt ds) (gp_manifest pub) w = (r1, w1)" by fastforce
  note fs1 = archive_manifest_fs [OF w1]
  show ?thesis
  proof (cases r1)
    case (Inr u)
    then have pub': "pub' = pub" "w' = w1"
      using run w1 by (auto simp: archive_after_commit_def io_catch_def io_bind_def io_simps)
    have "archive_document ?redact ?api aid doc w = (Inr (), w1)"
      using w1 Inr by (auto simp: archive_manifest_def io_simps aid_def doc_def split: if_splits)
    then have "lookup_report ?redact ?api (io_archive w1) aid = Inr (Some (json_sorted (json_safe_json ?redact doc)))"
      using archive_document_run by fastforce
    then show ?thesis using store pub' by (simp add: lookup_manifest_def)
  next
    case (Inl e)
    obtain r2 w2 where w2: "pin ?ns ?gid aid w1 = (r2, w2)" by fastforce
    have w': "w' = w2" and ws: "gp_warnings pub' = [''cache committed but request report archival failed''] \<Longrightarrow> r2 = Inr ()"
        "gp_warnings pub' \<noteq> []"
      using run w1 w2 Inl by (cases r2; auto simp: archive_after_commit_def io_catch_def io_bind_def io_simps aid_def split: if_splits)+
    show ?thesis
    proof (cases "r2 = Inr () \<and> (\<nexists>e. lookup_manifest ds (io_fs w') (io_archive w') aid = Inl e)")
      case True
      note pin = pin_Inr [OF w2 [unfolded conjunct1 [OF True]]]
      have adds: "fs_adds (io_fs w) (io_fs w2)" using pin(2) fs1 by simp
      have arch: "lookup_report ?redact ?api (io_archive w2) aid = Inr None \<or>
          (\<exists>d. lookup_report ?redact ?api (io_archive w2) aid = Inr (Some d) \<and> jget d ''acquisition_id'' = JStr aid)"
      proof (cases "lookup_report ?redact ?api (io_archive w2) aid")
        case (Inl e)
        with True w' store(1) show ?thesis by (simp add: lookup_manifest_def)
      next
        case (Inr found)
        then show ?thesis using lookup_report_file(2) by (cases found) auto
      qed
      have "pinned_report (io_fs w2) (?ns, ?ns @ [''pins'', ?gid @ ''.json'']) = Inr (aid, json_sorted doc)"
        using pin_makes_readable [OF pin(1) [unfolded aid_def] adds read [unfolded doc_def] ids [unfolded aid_def] pins]
        by (simp add: aid_def doc_def)
      with pin_path_listed [OF pin(1) refl] have "lookup_report ?redact ?api (io_archive w2) aid = Inr None \<Longrightarrow>
          \<exists>d. lookup_manifest ds (io_fs w2) (io_archive w2) aid = Inr (Some d) \<and> jget d ''acquisition_id'' = JStr aid"
        by (rule lookup_pinned)
      then show ?thesis using arch w' ws store(1) by (auto simp: lookup_manifest_def)
    qed (use ws in auto)
  qed
qed


lemma report_recoverable_witness:
  "\<exists>pub w pub' w'. archive_after_commit demo_store demo_request pub w = (Inr pub', w') \<and>
     (gp_warnings pub' = [] \<longrightarrow> (\<exists>d. lookup_manifest demo_store (io_fs w') (io_archive w') ''a1'' = Inr (Some d)))"
proof -
  obtain pub0 w gid t where "demo_publish = (Inr pub0, w)" and hit: "read_generation demo_store (io_fs w) demo_request =
        committed demo_store demo_request demo_frame [] demo_manifest gid t"
      and pub0: "gp_generation_id pub0 = gid" "gp_manifest pub0 = final_manifest demo_manifest gid
        (join_path (generation_namespace demo_request)) (ds_content_hash demo_store (ParquetData demo_frame))"
      and pins: "\<not> is_symlink (io_fs w) (generation_namespace demo_request @ [''pins''])"
    by (rule demo_published)
  define pub where "pub = pub0\<lparr>gp_warnings := []\<rparr>"
  obtain pub' w' where run: "archive_after_commit demo_store demo_request pub w = (Inr pub', w')"
    using archive_after_commit_returns by blast
  have aid: "mf_acquisition_id (gp_manifest pub) = ''a1''"
    by (simp add: pub_def pub0 final_manifest_def demo_manifest_def)
  have store: "ds_archives_publications demo_store" "ds_redact demo_store = (\<lambda>s. s)"
    by (simp_all add: demo_store_def demo_service_def)
  have "safe_id ''a1''" by code_simp
  moreover have "gp_warnings pub = []" "gp_generation_id pub = gid" "gp_manifest pub = gp_manifest pub0" by (simp_all add: pub_def pub0)
  moreover have "cg_generation_id (read_generation demo_store (io_fs w) demo_request) = Some gid"
    "cg_manifest (read_generation demo_store (io_fs w) demo_request) =
       Some (json_sorted (manifest_to_dict (ds_redact demo_store) (ds_fmt demo_store) (gp_manifest pub0)))"
    by (simp_all add: hit pub0(2) committed_def)
  ultimately have "gp_warnings pub' = [] \<longrightarrow>
      (\<exists>d. lookup_manifest demo_store (io_fs w') (io_archive w') ''a1'' = Inr (Some d))"
    using report_recoverable [OF run store(1)] pins aid store(2) by auto
  with run show ?thesis by blast
qed

end
