(* ===== verification/Acquire.thy ===== *)
theory Acquire
  imports Store_Maintenance
begin

text \<open>
  One acquisition, \<open>AcquisitionService.acquire\<close> of \<open>src/data/acquisition.py\<close>, over the store and the
  manifest archive: admission, reading and planning, fetching, assembly, evaluation, publication,
  and the report of every outcome. The cache is read back from its documents; the state holds the
  evidence so far, the providers' world and the file systems. Frames of the model have the
  canonical columns and types, as the frames of the store and of the normalisation do. Logging
  is left out.
\<close>

section \<open>State\<close>

record acquisition_service =
  as_store :: data_store
  as_retry_policy :: retry_policy
  as_environment_versions :: "(string, string) dict"

abbreviation as_service :: "acquisition_service \<Rightarrow> service" where
  "as_service a \<equiv> ds_service (as_store a)"

abbreviation as_redact :: "acquisition_service \<Rightarrow> string \<Rightarrow> string" where
  "as_redact a \<equiv> sv_redact (as_service a)"

record acq_state =
  aq_evidence :: evidence
  aq_net :: world
  aq_io :: io_world

record acquisition_result =
  res_frame :: canonical_frame
  res_manifest :: acquisition_manifest
  res_warnings :: "acquisition_warning list"

type_synonym 'a step = "acq_state \<Rightarrow> (exn + 'a) \<times> acq_state"

definition step_return :: "'a \<Rightarrow> 'a step" where
  "step_return v s = (Inr v, s)"

definition step_raise :: "exn \<Rightarrow> 'a step" where
  "step_raise e s = (Inl e, s)"

definition step_result :: "exn + 'a \<Rightarrow> 'a step" where
  "step_result r s = (r, s)"

definition step_bind :: "'a step \<Rightarrow> ('a \<Rightarrow> 'b step) \<Rightarrow> 'b step" where
  "step_bind m f s = (case m s of (Inl e, s') \<Rightarrow> (Inl e, s') | (Inr v, s') \<Rightarrow> f v s')"

definition step_catch :: "'a step \<Rightarrow> (exn \<Rightarrow> 'a step) \<Rightarrow> 'a step" where
  "step_catch m h s = (case m s of (Inl e, s') \<Rightarrow> h e s' | (Inr v, s') \<Rightarrow> (Inr v, s'))"

definition step_io :: "'a io \<Rightarrow> 'a step" where
  "step_io m s = (case m (aq_io s) of (r, w) \<Rightarrow> (r, s\<lparr>aq_io := w\<rparr>))"

definition step_evidence :: "(evidence \<Rightarrow> evidence) \<Rightarrow> unit step" where
  "step_evidence f s = (Inr (), s\<lparr>aq_evidence := f (aq_evidence s)\<rparr>)"

definition get_state :: "acq_state step" where
  "get_state s = (Inr s, s)"

fun step_map :: "('a \<Rightarrow> 'b step) \<Rightarrow> 'a list \<Rightarrow> 'b list step" where
  "step_map f [] = step_return []"
| "step_map f (x # xs) = step_bind (f x) (\<lambda>y. step_bind (step_map f xs) (\<lambda>ys. step_return (y # ys)))"

section \<open>Reading the cache\<close>

definition no_cache :: cache_generation where
  "no_cache = no_generation MISS None"

definition read_cache :: "acquisition_service \<Rightarrow> acquisition_request \<Rightarrow> fs \<Rightarrow> cache_generation" where
  "read_cache a request fs = (if \<not> ar_use_cache request then no_cache else read_generation (as_store a) fs request)"

definition cache_view :: "acquisition_service \<Rightarrow> cache_generation \<Rightarrow> cache_read" where
  "cache_view a g = \<lparr>cd_status = cg_status g, cd_frame = map_option cf_rows (cg_frame g),
     cd_lineage = cached_lineage (ds_fmt (as_store a)) (cg_manifest g),
     cd_completed_at = cached_completed_at (ds_fmt (as_store a)) (cg_manifest g)\<rparr>"

definition canonical_of :: "canonical_row list \<Rightarrow> canonical_frame" where
  "canonical_of rows = \<lparr>cf_columns = CANONICAL_COLUMNS, cf_dtypes = expected_dtypes, cf_zoned = False, cf_rows = rows\<rparr>"

definition request_sessions :: "acquisition_service \<Rightarrow> acquisition_request \<Rightarrow> exn + datetime list" where
  "request_sessions a request =
     (case expected_sessions (sv_schedule (as_service a)) (DayDate (ar_start request)) (DayDate (ar_end request)) of
        Inl e \<Rightarrow> Inl (acq_exn (as_service a) e)
      | Inr sessions \<Rightarrow> Inr (sort (map normalize_ts sessions)))"

definition cache_counts :: "acquisition_service \<Rightarrow> cache_generation \<Rightarrow> acquisition_request \<Rightarrow> int \<times> int" where
  "cache_counts a cache request = (case request_sessions a request of
     Inl e \<Rightarrow> (0, 0)
   | Inr expected \<Rightarrow> let covered = int (length (requested_frame (cache_frame (cache_view a cache)) expected))
       in (covered, int (length expected) - covered))"

definition complete_evaluation ::
    "acquisition_service \<Rightarrow> acquisition_request \<Rightarrow> datetime list \<Rightarrow> canonical_row list \<Rightarrow> exn + quality_result" where
  "complete_evaluation a request expected rows =
     (case evaluate_complete_request (as_redact a) (sv_digest (as_service a)) (canonical_of rows) request expected
        (Some (sv_quality_policy (as_service a))) of
        Inl e \<Rightarrow> Inl (external (py_error_name e)) | Inr q \<Rightarrow> Inr q)"

definition unusable :: "quality_result \<Rightarrow> bool" where
  "unusable q \<longleftrightarrow> qr_severity q = FATAL \<or> qr_frame q = None"

section \<open>Reports\<close>

definition counters_dict :: "reconciliation_counters \<Rightarrow> (string, int) dict" where
  "counters_dict c =
     [(''provider_rows'', rc_provider_rows c),
      (''timestamp_unclassifiable_rows'', rc_timestamp_unclassifiable_rows c),
      (''out_of_range_rows'', rc_out_of_range_rows c), (''in_range_rows'', rc_in_range_rows c),
      (''dedupe_input_rows'', rc_dedupe_input_rows c),
      (''exact_duplicate_rows_removed'', rc_exact_duplicate_rows_removed c),
      (''conflicting_duplicate_rows'', rc_conflicting_duplicate_rows c),
      (''nonconflicting_unique_rows'', rc_nonconflicting_unique_rows c),
      (''accepted_unique_rows'', rc_accepted_unique_rows c), (''rejected_unique_rows'', rc_rejected_unique_rows c),
      (''expected_sessions'', rc_expected_sessions c),
      (''accepted_expected_sessions'', rc_accepted_expected_sessions c),
      (''missing_sessions'', rc_missing_sessions c)]"

text \<open>What both kinds of report have in common; the attempts are those that the retry executor's
  observer has seen since the acquisition began.\<close>

definition report_of ::
    "acquisition_service \<Rightarrow> acquisition_admission \<Rightarrow> acquisition_request \<Rightarrow> cache_status \<Rightarrow> cache_generation \<Rightarrow> nat \<Rightarrow>
     acq_state \<Rightarrow> datetime \<Rightarrow> acquisition_manifest" where
  "report_of a admission request cache_status cache attempts_before s completed =
     acquisition_manifest_post_init (as_redact a)
       \<lparr>mf_acquisition_id = ad_acquisition_id admission, mf_request = request, mf_status = FAILED,
        mf_schema_version = CONTRACT_VERSION, mf_quality_policy = sv_quality_policy (as_service a),
        mf_retry_policy = as_retry_policy a, mf_environment_versions = as_environment_versions a,
        mf_cache = cache_evidence_post_init (as_redact a)
          \<lparr>ce_status = cache_status, ce_generation_id = cg_generation_id cache, ce_cache_key = None,
           ce_compatibility_reason = cg_reason cache, ce_covered_sessions = fst (cache_counts a cache request),
           ce_missing_sessions = snd (cache_counts a cache request)\<rparr>,
        mf_attempts = drop attempts_before (rw_observed (aq_net s)),
        mf_provider_skips = ev_provider_skips (aq_evidence s), mf_findings = ev_findings (aq_evidence s),
        mf_rejected_rows = ev_rejected_rows (aq_evidence s), mf_lineage = [], mf_counters = [], mf_coverage = None,
        mf_output_hash = None,
        mf_duration_seconds = Some (max 0 (real_of_int (completed - ad_admitted_at admission) / 1000000)),
        mf_started_at = Some (ad_admitted_at admission), mf_completed_at = Some completed\<rparr>"

definition success_report ::
    "acquisition_service \<Rightarrow> acquisition_admission \<Rightarrow> acquisition_request \<Rightarrow> acquisition_status \<Rightarrow> cache_status \<Rightarrow>
     cache_generation \<Rightarrow> nat \<Rightarrow> quality_result \<Rightarrow> lineage_segment list \<Rightarrow> string option \<Rightarrow> acquisition_manifest step" where
  "success_report a admission request status cache_status cache attempts_before final lineage output_hash =
     step_bind (step_io utc_now) (\<lambda>completed.
     step_bind get_state (\<lambda>s.
     step_return ((report_of a admission request cache_status cache attempts_before s completed)
       \<lparr>mf_status := status, mf_lineage := lineage, mf_counters := counters_dict (qr_counters final),
        mf_coverage := qr_coverage final, mf_output_hash := output_hash\<rparr>)))"

definition archive_report :: "acquisition_service \<Rightarrow> acquisition_manifest \<Rightarrow> unit step" where
  "archive_report a manifest =
     step_catch (step_io (archive_manifest (as_redact a) (sv_digest (as_service a)) (ds_fmt (as_store a)) manifest))
       (\<lambda>e. step_raise (if is_instance e DataAcquisitionError
          then assign_acquisition_id e (mf_acquisition_id manifest) else e))"

definition archive_failure ::
    "acquisition_service \<Rightarrow> acquisition_admission \<Rightarrow> acquisition_request \<Rightarrow> cache_status \<Rightarrow> cache_generation \<Rightarrow> nat \<Rightarrow> exn \<Rightarrow>
     unit step" where
  "archive_failure a admission request cache_status cache attempts_before error =
     step_bind (step_io utc_now) (\<lambda>completed.
     step_bind get_state (\<lambda>s.
     let report = report_of a admission request cache_status cache attempts_before s completed in
     archive_report a (report\<lparr>mf_findings := mf_findings report @
       [mk_finding (as_redact a) FATAL ''acquisition_failed'' ''acquisition did not produce a complete usable result''
         [(''error_type'', MStr (exn_type_name (exn_class error)))]]\<rparr>)))"

definition identified :: "exn \<Rightarrow> string \<Rightarrow> exn" where
  "identified e acquisition_id = (if is_instance e DataAcquisitionError then assign_acquisition_id e acquisition_id else e)"

definition fail_acquisition ::
    "acquisition_service \<Rightarrow> acquisition_admission \<Rightarrow> acquisition_request \<Rightarrow> cache_status \<Rightarrow> cache_generation \<Rightarrow> nat \<Rightarrow> exn \<Rightarrow>
     exn \<Rightarrow> 'a step" where
  "fail_acquisition a admission request cache_status cache attempts_before error raised =
     step_bind (archive_failure a admission request cache_status cache attempts_before error) (\<lambda>_.
       step_raise (identified raised (ad_acquisition_id admission)))"

section \<open>The acquisition\<close>

definition fetch_step ::
    "acquisition_service \<Rightarrow> acquisition_request \<Rightarrow> datetime \<times> datetime \<Rightarrow> accepted_range step" where
  "fetch_step a request bounds s =
     (case fetch_range (as_service a) request (fst bounds) (snd bounds) (aq_evidence s) (aq_net s) of
        (out, ev, w) \<Rightarrow> (out, s\<lparr>aq_evidence := ev, aq_net := w\<rparr>))"

text \<open>The planned ranges are fetched; if a corporate action in the overlap has changed and not everything
  was fetched, the whole request is fetched again.\<close>

definition fetch_planned ::
    "acquisition_service \<Rightarrow> acquisition_request \<Rightarrow> datetime list \<Rightarrow> canonical_row list \<Rightarrow> (datetime \<times> datetime) list \<Rightarrow>
     (accepted_range list \<times> (datetime \<times> datetime) list) step" where
  "fetch_planned a request expected requested_cached planned =
     step_bind (step_map (fetch_step a request) planned) (\<lambda>accepted.
       if actions_changed (as_service a) requested_cached accepted \<and> \<not> covers_all expected planned
       then step_bind (fetch_step a request (hd expected, last expected)) (\<lambda>whole.
              step_return ([whole], [(hd expected, last expected)]))
       else step_return (accepted, planned))"

definition revalidate_rebase ::
    "acquisition_service \<Rightarrow> acquisition_request \<Rightarrow> datetime list \<Rightarrow> canonical_frame \<Rightarrow> exn + revalidation" where
  "revalidate_rebase a request expected candidate =
     rbind (complete_evaluation a request expected (requested_frame (cf_rows candidate) expected)) (\<lambda>q.
       Inr (Checked (qr_severity q \<noteq> FATAL)))"

definition publication_metadata :: "iso_api \<Rightarrow> acquisition_request \<Rightarrow> (datetime \<times> datetime) list \<Rightarrow> (string \<times> json) list" where
  "publication_metadata fmt request planned =
     [(''requested_start'', JStr (date_text fmt (ar_start request))),
      (''requested_end'', JStr (date_text fmt (ar_end request))),
      (''planned_ranges'', JList (map (\<lambda>(start, end_ts). JObj
         [(''start'', JStr (date_text fmt (start div 86400000000))),
          (''end'', JStr (date_text fmt (end_ts div 86400000000)))]) planned))]"

definition day_ranges :: "(datetime \<times> datetime) list \<Rightarrow> (int \<times> int) list" where
  "day_ranges planned = map (\<lambda>(start, end_ts). (start div 86400000000, end_ts div 86400000000)) planned"

definition deferred_warning :: "acquisition_service \<Rightarrow> acquisition_warning" where
  "deferred_warning a = \<lparr>aw_code = ''report_archive_deferred'',
     aw_message = as_redact a ''Cache committed; request report archival was deferred.''\<rparr>"

text \<open>The time for rows without a known segment; the clock is read only if the cache has none.\<close>

definition default_time :: "cache_read \<Rightarrow> datetime step" where
  "default_time cache = (case cd_completed_at cache of Some t \<Rightarrow> step_return t | None \<Rightarrow> step_io utc_now)"

definition publish_step ::
    "acquisition_service \<Rightarrow> acquisition_request \<Rightarrow> datetime list \<Rightarrow> canonical_row list \<Rightarrow> acquisition_manifest \<Rightarrow> string option \<Rightarrow>
     (datetime \<times> datetime) list \<Rightarrow> generation_publication step" where
  "publish_step a request expected assembled manifest base planned =
     step_bind (step_io (publish_generation (as_store a) request (canonical_of assembled)
         (publication_metadata (ds_fmt (as_store a)) request planned) manifest base
         (Some (revalidate_rebase a request expected)) (day_ranges planned))) (\<lambda>publication.
     step_io (archive_committed_publication (as_store a) request publication))"

definition refresh ::
    "acquisition_service \<Rightarrow> acquisition_admission \<Rightarrow> acquisition_request \<Rightarrow> datetime list \<Rightarrow> cache_status \<Rightarrow> cache_generation \<Rightarrow>
     nat \<Rightarrow> (datetime \<times> datetime) list \<Rightarrow> acquisition_result step" where
  "refresh a admission request expected cache_status cache attempts_before planned =
     (let view = cache_view a cache; requested_cached = requested_frame (cache_frame view) expected in
      step_bind (fetch_planned a request expected requested_cached planned) (\<lambda>(accepted, planned).
      let assembled = merge_ranges (cache_frame view) accepted in
      step_bind (step_result (complete_evaluation a request expected (requested_frame assembled expected))) (\<lambda>final.
      step_bind (step_evidence (\<lambda>ev. ev\<lparr>ev_findings := ev_findings ev @ qr_findings final\<rparr>)) (\<lambda>_.
      if unusable final
      then step_raise (acquisition_error (as_redact a) NoUsableDataError ''complete merged request failed quality policy'' None)
      else step_bind (default_time view) (\<lambda>fallback.
      step_bind (step_result (case rebuild_lineage (as_service a) assembled view accepted fallback of
          Inl e \<Rightarrow> Inl (external (py_error_name e)) | Inr lineage \<Rightarrow> Inr lineage)) (\<lambda>lineage.
      step_bind (success_report a admission request
          (if accepted_warnings accepted final then PARTIAL_SUCCESS else SUCCESS) cache_status cache attempts_before
          final lineage None) (\<lambda>manifest.
      step_bind (publish_step a request expected assembled manifest (cg_generation_id cache) planned) (\<lambda>publication.
      step_return \<lparr>res_frame = (gp_frame publication)\<lparr>cf_rows := requested_frame (cf_rows (gp_frame publication)) expected\<rparr>,
        res_manifest = gp_manifest publication,
        res_warnings = (if gp_warnings publication \<noteq> [] then [deferred_warning a] else [])\<rparr>))))))))"

text \<open>The error that is raised for a failed refresh.\<close>

definition raised_error :: "acquisition_service \<Rightarrow> exn \<Rightarrow> exn" where
  "raised_error a e =
     (if is_instance e InvalidRequestError \<or> is_instance e ContractViolationError \<or> is_instance e CacheError \<or>
         is_instance e NoUsableDataError \<or> is_instance e ProviderExhaustedError \<or> is_instance e ProviderQuotaError \<or>
         is_instance e QualityError \<or> classify e = TERMINAL
      then e
      else acquisition_error (as_redact a) ProviderExhaustedError ''market data providers were exhausted'' None)"

definition answer_from_cache ::
    "acquisition_service \<Rightarrow> acquisition_admission \<Rightarrow> acquisition_request \<Rightarrow> datetime list \<Rightarrow> cache_status \<Rightarrow> cache_generation \<Rightarrow>
     nat \<Rightarrow> acquisition_result step" where
  "answer_from_cache a admission request expected cache_status cache attempts_before =
     (let view = cache_view a cache in
      step_bind (step_result (complete_evaluation a request expected (requested_frame (cache_frame view) expected))) (\<lambda>final.
      case (unusable final, qr_frame final) of
        (False, Some rows) \<Rightarrow>
          step_bind (success_report a admission request
            (if qr_severity final = WARNING then PARTIAL_SUCCESS else SUCCESS) cache_status cache attempts_before final
            (cd_lineage view) (cached_output_hash (cg_manifest cache))) (\<lambda>manifest.
          step_bind (archive_report a manifest) (\<lambda>_.
          step_return \<lparr>res_frame = canonical_of rows, res_manifest = manifest, res_warnings = []\<rparr>))
      | _ \<Rightarrow>
          let error = acquisition_error (as_redact a) NoUsableDataError ''fresh cache does not satisfy complete quality policy'' None
          in fail_acquisition a admission request cache_status cache attempts_before error error))"

definition admission_of :: "acquisition_service \<Rightarrow> acquisition_request \<Rightarrow> acquisition_admission io" where
  "admission_of a request = admit (as_redact a) ((raw_of request)\<lparr>rr_source := AStr (source_value (ar_source request))\<rparr>)"

definition acquire :: "acquisition_service \<Rightarrow> acquisition_request \<Rightarrow> acquisition_result step" where
  "acquire a request =
     step_bind (step_io (admission_of a request)) (\<lambda>admission.
     step_bind (\<lambda>s. (Inr (length (rw_observed (aq_net s))), s\<lparr>aq_evidence := \<lparr>ev_findings = [], ev_rejected_rows = [], ev_provider_skips = []\<rparr>\<rparr>)) (\<lambda>attempts_before.
     step_bind (step_io utc_now) (\<lambda>now.
     step_bind get_state (\<lambda>s.
     case request_sessions a request of
       Inl e \<Rightarrow> fail_acquisition a admission request MISS no_cache attempts_before e e
     | Inr expected \<Rightarrow>
         let cache = read_cache a request (io_fs (aq_io s)); view = cache_view a cache in
         case plan_ranges (as_service a) request expected view (requested_frame (cache_frame view) expected) now of
           (cache_status, planned) \<Rightarrow>
             if planned = [] then answer_from_cache a admission request expected cache_status cache attempts_before
             else step_catch (refresh a admission request expected cache_status cache attempts_before planned)
                    (\<lambda>e. fail_acquisition a admission request cache_status cache attempts_before e (raised_error a e))))))"

section \<open>Rules\<close>

named_theorems step_simps \<open>equations that run the steps of an acquisition\<close>

lemma step_run [step_simps]:
  "step_return v s = (Inr v, s)" "step_raise e s = (Inl e, s)" "step_result r s = (r, s)" "get_state s = (Inr s, s)"
  "step_evidence f s = (Inr (), s\<lparr>aq_evidence := f (aq_evidence s)\<rparr>)"
  by (simp_all add: step_return_def step_raise_def step_result_def get_state_def step_evidence_def)

lemma step_bind_Inr: "step_bind m f s = (Inr b, s'') \<longleftrightarrow> (\<exists>v s'. m s = (Inr v, s') \<and> f v s' = (Inr b, s''))"
  by (auto simp: step_bind_def split: prod.splits sum.splits)

lemma step_bind_Inl: "step_bind m f s = (Inl e, s'') \<longleftrightarrow>
    m s = (Inl e, s'') \<or> (\<exists>v s'. m s = (Inr v, s') \<and> f v s' = (Inl e, s''))"
  by (auto simp: step_bind_def split: prod.splits sum.splits)

lemma step_catch_Inr: "step_catch m h s = (Inr b, s'') \<longleftrightarrow>
    m s = (Inr b, s'') \<or> (\<exists>e s'. m s = (Inl e, s') \<and> h e s' = (Inr b, s''))"
  by (auto simp: step_catch_def split: prod.splits sum.splits)

lemma step_catch_Inl: "step_catch m h s = (Inl x, s'') \<longleftrightarrow> (\<exists>e s'. m s = (Inl e, s') \<and> h e s' = (Inl x, s''))"
  by (auto simp: step_catch_def split: prod.splits sum.splits)

lemma step_io_run: "step_io m s = (r, s') \<longleftrightarrow> (\<exists>w. m (aq_io s) = (r, w) \<and> s' = s\<lparr>aq_io := w\<rparr>)"
  by (auto simp: step_io_def split: prod.splits)

lemma fail_acquisition_raises: "fail_acquisition a admission request cs cache n e x s \<noteq> (Inr v, s')"
  by (auto simp: fail_acquisition_def step_bind_Inr step_simps)

section \<open>What a publication publishes\<close>

lemma publish_locked_frame:
  assumes "publish_locked ds request frame metadata manifest ns previous w = (Inr pub, w')"
  shows "gp_frame pub = frame \<and> (\<exists>gid h. gp_manifest pub = final_manifest manifest gid (join_path ns) h)"
proof -
  from assms obtain gid created w1 where "write_generation ds request frame metadata manifest ns previous gid created w1 = (Inr pub, w')"
    by (auto simp: publish_locked_def io_bind_Inr io_catch_run io_simps Let_def split: if_splits prod.splits)
  then obtain final hash_of w2 where "stage_artifacts ds frame (metadata_document ds request metadata gid created) manifest ns gid w1
        = (Inr (final, hash_of), w2)" "gp_frame pub = frame" "gp_manifest pub = final"
    by (auto simp: write_generation_def Let_def io_bind_Inr io_simps)
  with stage_artifacts_Inr(1) show ?thesis by blast
qed

text \<open>Whatever the probe does and however often the publication is rebased: the frame that is published
  is one that the caller's revalidation has accepted.\<close>

lemma publish_attempts_frame:
  assumes "publish_attempts ds request candidate metadata manifest revalidate ranges ns base w = (Inr pub, w')"
  shows "\<exists>assembled lineage gid h. revalidated ds request revalidate assembled = Inr (gp_frame pub) \<and>
    gp_manifest pub = final_manifest (manifest\<lparr>mf_lineage := lineage\<rparr>) gid (join_path (generation_namespace request)) h"
  using assms
proof (induction ns arbitrary: base w)
  case (Cons n ns)
  from Cons.prems consider (again) base' w1 where
      "publish_attempts ds request candidate metadata manifest revalidate ranges ns base' w1 = (Inr pub, w')"
    | (commit) assembled lineage checked previous w1 pub0 w2 where "revalidated ds request revalidate assembled = Inr checked"
      "publish_locked ds request checked metadata (manifest\<lparr>mf_lineage := lineage\<rparr>) (generation_namespace request) previous w1
        = (Inr pub0, w2)" "archive_after_commit ds request pub0 w2 = (Inr pub, w') \<or> pub = pub0"
    by (auto simp: io_bind_Inr io_simps Let_def split: if_splits)
  then show ?case
  proof cases
    case again
    then show ?thesis by (rule Cons.IH)
  next
    case commit
    from commit(3) have "gp_frame pub = gp_frame pub0 \<and> gp_manifest pub = gp_manifest pub0"
      using archive_after_commit_run(3) [of ds request pub0 w2 "Inr pub" w' pub] by auto
    with publish_locked_frame [OF commit(2)] commit(1) show ?thesis by metis
  qed
qed (simp add: io_simps)

lemma revalidated_canonical:
  assumes "revalidated ds request revalidate assembled = Inr frame"
  shows "frame = canonical_of (cf_rows frame)"
  using revalidated_valid [OF assms]
  by (auto simp: validate_canonical_def Let_def canonical_of_def split: if_splits)

lemma publish_step_frame:
  assumes "publish_step a request expected assembled manifest base planned s = (Inr pub, s')"
  obtains q where "complete_evaluation a request expected (requested_frame (cf_rows (gp_frame pub)) expected) = Inr q"
    "qr_severity q \<noteq> FATAL" "gp_frame pub = canonical_of (cf_rows (gp_frame pub))"
    "\<exists>lineage gid h. gp_manifest pub = final_manifest (manifest\<lparr>mf_lineage := lineage\<rparr>) gid (join_path (generation_namespace request)) h"
proof -
  let ?rv = "Some (revalidate_rebase a request expected)" and ?ds = "as_store a"
  from assms obtain pub0 w1 w2 where run: "publish_generation ?ds request (canonical_of assembled)
        (publication_metadata (ds_fmt ?ds) request planned) manifest base ?rv (day_ranges planned) (aq_io s) = (Inr pub0, w1)"
      and arch: "archive_committed_publication ?ds request pub0 w1 = (Inr pub, w2)"
    by (auto simp: publish_step_def step_bind_Inr step_io_run)
  from arch have same: "gp_frame pub = gp_frame pub0 \<and> gp_manifest pub = gp_manifest pub0"
    using archive_after_commit_run(3) [of ?ds request pub0 w1 "Inr pub" w2 pub]
    by (auto simp: archive_committed_publication_def io_simps split: if_splits)
  from run obtain metadata base' where "publish_attempts ?ds request (canonical_of assembled) metadata manifest ?rv (day_ranges planned)
      [1, 2, 3] base' (aq_io s) = (Inr pub0, w1)"
    by (auto simp: publish_generation_def io_bind_Inr io_simps simp del: publish_attempts.simps split: if_splits json.splits)
  from publish_attempts_frame [OF this] same obtain assembled' where
      rv: "revalidated ?ds request ?rv assembled' = Inr (gp_frame pub)"
      and man: "\<exists>lineage gid h. gp_manifest pub = final_manifest (manifest\<lparr>mf_lineage := lineage\<rparr>) gid
        (join_path (generation_namespace request)) h"
    by auto
  from rv obtain q where "complete_evaluation a request expected (requested_frame (cf_rows assembled') expected) = Inr q"
      "qr_severity q \<noteq> FATAL" "gp_frame pub = assembled'"
    by (auto simp: revalidated_def revalidate_rebase_def result_simps split: if_splits)
  with that revalidated_canonical [OF rv] man show ?thesis by blast
qed

section \<open>Results\<close>

lemma success_report_Inr:
  assumes "success_report a admission request status cs cache n final lineage output_hash s = (Inr m, s')"
  shows "mf_request m = request" "mf_status m = status" "mf_acquisition_id m = ad_acquisition_id admission"
    "mf_schema_version m = CONTRACT_VERSION" "mf_started_at m \<noteq> None" "mf_completed_at m \<noteq> None" "mf_lineage m = lineage"
    "io_fs (aq_io s') = io_fs (aq_io s)"
  using assms
  by (auto simp: success_report_def step_bind_Inr step_io_run step_simps io_simps report_of_def acquisition_manifest_post_init_def)

text \<open>What an acquisition promises about the result it returns.\<close>

definition result_valid :: "acquisition_service \<Rightarrow> acquisition_request \<Rightarrow> datetime list \<Rightarrow> acquisition_result \<Rightarrow> bool" where
  "result_valid a request expected res \<longleftrightarrow>
     res_frame res = canonical_of (cf_rows (res_frame res)) \<and>
     (\<exists>q. complete_evaluation a request expected (cf_rows (res_frame res)) = Inr q \<and> qr_severity q \<noteq> FATAL) \<and>
     mf_request (res_manifest res) = request \<and> mf_status (res_manifest res) \<in> {SUCCESS, PARTIAL_SUCCESS}"

lemma refresh_valid:
  assumes "refresh a admission request expected cs cache n planned s = (Inr res, s')"
  shows "result_valid a request expected res"
proof -
  from assms obtain assembled m base planned' status final lineage s1 s2 pub s3 where
      rep: "success_report a admission request status cs cache n final lineage None s1 = (Inr m, s2)"
        "status \<in> {SUCCESS, PARTIAL_SUCCESS}"
      and pub: "publish_step a request expected assembled m base planned' s2 = (Inr pub, s3)"
      and res: "res_frame res = (gp_frame pub)\<lparr>cf_rows := requested_frame (cf_rows (gp_frame pub)) expected\<rparr>"
        "res_manifest res = gp_manifest pub"
    by (auto simp: refresh_def Let_def step_bind_Inr step_simps split: prod.splits if_splits)
  from pub obtain q where q: "complete_evaluation a request expected (requested_frame (cf_rows (gp_frame pub)) expected) = Inr q"
      "qr_severity q \<noteq> FATAL" "gp_frame pub = canonical_of (cf_rows (gp_frame pub))"
      "\<exists>lineage gid h. gp_manifest pub = final_manifest (m\<lparr>mf_lineage := lineage\<rparr>) gid (join_path (generation_namespace request)) h"
    by (rule publish_step_frame)
  have frame: "cf_columns (gp_frame pub) = CANONICAL_COLUMNS" "cf_dtypes (gp_frame pub) = expected_dtypes" "\<not> cf_zoned (gp_frame pub)"
    using arg_cong [OF q(3), of cf_columns] arg_cong [OF q(3), of cf_dtypes] arg_cong [OF q(3), of cf_zoned]
    by (simp_all add: canonical_of_def)
  then have "res_frame res = canonical_of (cf_rows (res_frame res))"
    unfolding res by (cases "gp_frame pub") (simp add: canonical_of_def)
  moreover have "mf_request (res_manifest res) = request" "mf_status (res_manifest res) = status"
    using q(4) success_report_Inr(1,2) [OF rep(1)] by (auto simp: res final_manifest_def)
  moreover have "cf_rows (res_frame res) = requested_frame (cf_rows (gp_frame pub)) expected" by (simp add: res)
  ultimately show ?thesis using q(1,2) rep(2) unfolding result_valid_def by auto
qed

lemma answer_valid:
  assumes "answer_from_cache a admission request expected cs cache n s = (Inr res, s')"
  shows "result_valid a request expected res"
    and "cf_rows (res_frame res) = requested_frame (cache_frame (cache_view a cache)) expected"
    and "io_fs (aq_io s') = io_fs (aq_io s)"
proof -
  let ?rows = "requested_frame (cache_frame (cache_view a cache)) expected"
  from assms obtain final rows m status lineage h s1 where final: "complete_evaluation a request expected ?rows = Inr final"
        "\<not> unusable final" "qr_frame final = Some rows"
      and rep: "success_report a admission request status cs cache n final lineage h s = (Inr m, s1)" "status \<in> {SUCCESS, PARTIAL_SUCCESS}"
      and arch: "archive_report a m s1 = (Inr (), s')"
      and res: "res = \<lparr>res_frame = canonical_of rows, res_manifest = m, res_warnings = []\<rparr>"
    by (auto simp: answer_from_cache_def Let_def step_bind_Inr step_simps fail_acquisition_raises
        split: bool.splits option.splits if_splits)
  have rows: "rows = ?rows"
  proof -
    from final(1) have "evaluate_complete_request (as_redact a) (sv_digest (as_service a)) (canonical_of ?rows) request expected
        (Some (sv_quality_policy (as_service a))) = Inr final"
      by (auto simp: complete_evaluation_def split: sum.splits)
    from published_frame_canonical(1) [OF this final(3)] show ?thesis by (simp add: canonical_of_def)
  qed
  with final rep(2) success_report_Inr [OF rep(1)] res show "result_valid a request expected res"
    by (auto simp: result_valid_def canonical_of_def unusable_def)
  show "cf_rows (res_frame res) = ?rows" using res rows by (simp add: canonical_of_def)
  show "io_fs (aq_io s') = io_fs (aq_io s)"
    using arch success_report_Inr(8) [OF rep(1)] archive_manifest_fs
    by (auto simp: archive_report_def step_catch_Inr step_io_run step_simps)
qed

text \<open>The run of an acquisition up to the decision what to fetch.\<close>

lemma acquire_cases:
  assumes "acquire a request s = (r, s')"
  obtains (refused) e w where "admission_of a request (aq_io s) = (Inl e, w)"
      "r = Inl e"
    | (sessions) admission n s1 e where "fst (admission_of a request (aq_io s)) = Inr admission" "request_sessions a request = Inl e" "fail_acquisition a admission request MISS no_cache n e e s1 = (r, s')"
    | (cached) admission n s1 expected cs where "fst (admission_of a request (aq_io s)) = Inr admission" "request_sessions a request = Inr expected" "io_fs (aq_io s1) = io_fs (aq_io s)"
      "answer_from_cache a admission request expected cs (read_cache a request (io_fs (aq_io s))) n s1 = (r, s')"
    | (fetched) admission n s1 expected cs planned where "fst (admission_of a request (aq_io s)) = Inr admission" "request_sessions a request = Inr expected" "planned \<noteq> []"
      "io_fs (aq_io s1) = io_fs (aq_io s)" "io_ids (aq_io s1) = io_ids (aq_io s)"
      "step_catch (refresh a admission request expected cs (read_cache a request (io_fs (aq_io s))) n planned)
         (\<lambda>e. fail_acquisition a admission request cs (read_cache a request (io_fs (aq_io s))) n e (raised_error a e)) s1 = (r, s')"
proof -
  obtain r0 w0 where adm: "admission_of a request (aq_io s) = (r0, w0)" by fastforce
  have adm_fs: "io_fs w0 = io_fs (aq_io s)" "io_ids w0 = io_ids (aq_io s)"
    using adm by (auto simp: admission_of_def admit_def io_bind_def io_simps split: sum.splits)
  show ?thesis
  proof (cases r0)
    case (Inl e)
    with adm assms show ?thesis by (intro refused) (auto simp: acquire_def step_bind_def step_io_def)
  next
    case (Inr admission)
    define s1 where "s1 = s\<lparr>aq_evidence := \<lparr>ev_findings = [], ev_rejected_rows = [], ev_provider_skips = []\<rparr>,
      aq_io := w0\<lparr>io_clock_reads := Suc (io_clock_reads w0)\<rparr>\<rparr>"
    let ?n = "length (rw_observed (aq_net s))" and ?cache = "read_cache a request (io_fs (aq_io s))"
    have fs1: "io_fs (aq_io s1) = io_fs (aq_io s)" "io_ids (aq_io s1) = io_ids (aq_io s)" using adm_fs by (simp_all add: s1_def)
    note run = assms [unfolded acquire_def step_bind_def step_io_def adm Inr, simplified io_simps step_simps, simplified]
    have adm': "fst (admission_of a request (aq_io s)) = Inr admission" using adm Inr by simp
    show ?thesis
    proof (cases "request_sessions a request")
      case (Inl e)
      with run show ?thesis by (intro sessions [OF adm' Inl]) (simp add: s1_def [symmetric])
    next
      case (Inr expected)
      obtain cs planned where plan: "plan_ranges (as_service a) request expected (cache_view a ?cache)
          (requested_frame (cache_frame (cache_view a ?cache)) expected) (io_clock w0 (io_clock_reads w0)) = (cs, planned)" by fastforce
      show ?thesis
      proof (cases "planned = []")
        case True
        with run Inr plan adm_fs have "answer_from_cache a admission request expected cs ?cache ?n s1 = (r, s')"
          by (simp add: Let_def s1_def)
        with Inr fs1 show ?thesis by (intro cached [OF adm'])
      next
        case False
        with run Inr plan adm_fs have "step_catch (refresh a admission request expected cs ?cache ?n planned)
            (\<lambda>e. fail_acquisition a admission request cs ?cache ?n e (raised_error a e)) s1 = (r, s')"
          by (simp add: Let_def s1_def)
        with Inr False fs1 show ?thesis by (intro fetched [OF adm'])
      qed
    qed
  qed
qed

lemma acquire_result_valid:
  assumes "acquire a request s = (Inr res, s')"
  shows "\<exists>expected. request_sessions a request = Inr expected \<and> result_valid a request expected res"
  using assms
proof (cases rule: acquire_cases)
  case (cached admission n s1 expected cs)
  then show ?thesis using answer_valid(1) by blast
next
  case (fetched admission n s1 expected cs planned)
  then show ?thesis using refresh_valid by (auto simp: step_catch_Inr fail_acquisition_raises)
qed (simp_all add: fail_acquisition_raises)

text \<open>C21: an acquisition returns only complete data. The frame it returns, from the cache or freshly
  fetched and published, whatever other publishers did in the meantime, has the canonical columns
  and types, and the evaluation of the complete request does not find it fatal; its report names the
  request and a successful status.\<close>

theorem acquired_frame_complete:
  assumes "acquire a request s = (Inr res, s')"
  shows "\<exists>expected. request_sessions a request = Inr expected \<and> result_valid a request expected res"
  using assms by (rule acquire_result_valid)

section \<open>Failures\<close>

lemma identified_id: "is_instance (identified e i) DataAcquisitionError \<Longrightarrow> exn_acquisition_id (identified e i) \<noteq> None"
  by (auto simp: identified_def assign_acquisition_id_def split: if_splits)

lemma archive_report_run:
  assumes "archive_report a m s = (r, s')" and "mf_started_at m \<noteq> None" and "mf_completed_at m \<noteq> None"
  shows "io_fs (aq_io s') = io_fs (aq_io s) \<and> (case r of
    Inl e \<Rightarrow> is_instance e ManifestError \<and> exn_acquisition_id e \<noteq> None
  | Inr _ \<Rightarrow> lookup_report (as_redact a) (sv_digest (as_service a)) (io_archive (aq_io s')) (mf_acquisition_id m) =
      Inr (Some (json_sorted (json_safe_json (as_redact a) (manifest_to_dict (as_redact a) (ds_fmt (as_store a)) m)))))"
proof -
  let ?doc = "manifest_to_dict (as_redact a) (ds_fmt (as_store a)) m"
  obtain r1 w1 where w1: "archive_document (as_redact a) (sv_digest (as_service a)) (mf_acquisition_id m) ?doc (aq_io s) = (r1, w1)"
    by fastforce
  have base: "is_instance e ManifestError \<Longrightarrow> is_instance e DataAcquisitionError" for e
    by (auto simp: is_instance_def subclass_of_base split: exn_class.splits)
  have "s' = s\<lparr>aq_io := w1\<rparr> \<and> r = (case r1 of Inr u \<Rightarrow> Inr u
      | Inl e \<Rightarrow> Inl (if is_instance e DataAcquisitionError then assign_acquisition_id e (mf_acquisition_id m) else e))"
    using assms w1 by (auto simp: archive_report_def archive_manifest_def step_catch_def step_io_def step_simps split: sum.splits)
  with archive_document_run [OF w1] base show ?thesis
    by (auto simp: assign_acquisition_id_def is_instance_def split: sum.splits)
qed

text \<open>A failure on record: the archive has a report for the acquisition with the status of a failure.\<close>

definition failure_recorded :: "acquisition_service \<Rightarrow> acquisition_admission \<Rightarrow> fs \<Rightarrow> bool" where
  "failure_recorded a admission archive \<longleftrightarrow>
     (\<exists>doc. lookup_report (as_redact a) (sv_digest (as_service a)) archive (ad_acquisition_id admission) = Inr (Some doc) \<and>
        jget doc ''status'' = JStr (as_redact a ''failed''))"

lemma safe_status:
  "jget (json_safe_json redact (manifest_to_dict redact fmt m)) ''status'' = JStr (redact (status_value (mf_status m)))"
proof -
  have "\<not> is_sensitive_key ''status''" by code_simp
  then show ?thesis by (simp add: manifest_to_dict_def)
qed

lemma fail_acquisition_run:
  assumes "fail_acquisition a admission request cs cache n error raised s = (Inl e, s')"
  shows "io_fs (aq_io s') = io_fs (aq_io s) \<and>
    (is_instance e ManifestError \<and> exn_acquisition_id e \<noteq> None \<or>
     e = identified raised (ad_acquisition_id admission) \<and> failure_recorded a admission (io_archive (aq_io s')))"
proof -
  let ?s1 = "s\<lparr>aq_io := (aq_io s)\<lparr>io_clock_reads := Suc (io_clock_reads (aq_io s))\<rparr>\<rparr>"
  let ?rep = "report_of a admission request cs cache n ?s1 (io_clock (aq_io s) (io_clock_reads (aq_io s)))"
  let ?m = "?rep\<lparr>mf_findings := mf_findings ?rep @
       [mk_finding (as_redact a) FATAL ''acquisition_failed'' ''acquisition did not produce a complete usable result''
         [(''error_type'', MStr (exn_type_name (exn_class error)))]]\<rparr>"
  have m: "mf_started_at ?m \<noteq> None" "mf_completed_at ?m \<noteq> None" "mf_acquisition_id ?m = ad_acquisition_id admission" "mf_status ?m = FAILED"
    by (simp_all add: report_of_def acquisition_manifest_post_init_def)
  obtain r1 s1 where s1: "archive_report a ?m ?s1 = (r1, s1)" by fastforce
  note run = archive_report_run [OF s1 m(1,2)]
  have out: "s' = s1 \<and> (case r1 of Inl x \<Rightarrow> e = x | Inr _ \<Rightarrow> e = identified raised (ad_acquisition_id admission))"
    using assms s1
    by (auto simp: fail_acquisition_def archive_failure_def step_bind_def step_io_def step_simps io_simps Let_def split: sum.splits)
  have "jget (json_sorted (json_safe_json (as_redact a) (manifest_to_dict (as_redact a) (ds_fmt (as_store a)) ?m))) ''status''
      = JStr (as_redact a ''failed'')"
    using m(4) by (simp add: safe_status)
  then show ?thesis using run out m(3) by (cases r1) (auto simp: failure_recorded_def)
qed

lemma answer_Inl:
  assumes "answer_from_cache a admission request expected cs cache n s = (Inl e, s')"
  shows "complete_evaluation a request expected (requested_frame (cache_frame (cache_view a cache)) expected) = Inl e \<or>
    is_instance e ManifestError \<and> exn_acquisition_id e \<noteq> None \<or>
    (\<exists>raised. e = identified raised (ad_acquisition_id admission)) \<and> failure_recorded a admission (io_archive (aq_io s'))"
proof -
  have rep: "\<not> success_report a admission request status cs cache n final lineage h s1 = (Inl x, s2)" for status final lineage h s1 x s2
    by (auto simp: success_report_def step_bind_Inl step_io_run step_simps io_simps)
  from assms consider "complete_evaluation a request expected (requested_frame (cache_frame (cache_view a cache)) expected) = Inl e"
    | status final lineage h m s1 s2 where "success_report a admission request status cs cache n final lineage h s1 = (Inr m, s2)"
        "archive_report a m s2 = (Inl e, s')"
    | error s1 where "fail_acquisition a admission request cs cache n error error s1 = ((Inl e :: exn + acquisition_result), s')"
    by (auto simp: answer_from_cache_def Let_def step_bind_Inl step_simps rep split: bool.splits option.splits if_splits)
  then show ?thesis
  proof cases
    case 2
    with archive_report_run success_report_Inr(5,6) [OF 2(1)] show ?thesis by fastforce
  next
    case 3
    with fail_acquisition_run [OF 3] show ?thesis by blast
  qed blast
qed


section \<open>What is returned is cached\<close>

lemma fetch_step_io: "fetch_step a request b s = (r, s') \<Longrightarrow> aq_io s' = aq_io s"
  by (auto simp: fetch_step_def split: prod.splits)

lemma fetch_map_io: "step_map (fetch_step a request) bs s = (r, s') \<Longrightarrow> aq_io s' = aq_io s"
proof (induction bs arbitrary: s r s')
  case (Cons b bs)
  obtain r1 s1 where s1: "fetch_step a request b s = (r1, s1)" by fastforce
  obtain r2 s2 where s2: "step_map (fetch_step a request) bs s1 = (r2, s2)" by fastforce
  from Cons.prems s1 s2 have "s' = s1 \<or> s' = s2" by (auto simp: step_bind_def step_simps split: sum.splits)
  with Cons.IH [OF s2] fetch_step_io [OF s1] show ?case by auto
qed (simp add: step_simps)

lemma fetch_planned_io: "fetch_planned a request expected rows planned s = (Inr x, s') \<Longrightarrow> aq_io s' = aq_io s"
  by (auto simp: fetch_planned_def step_bind_Inr step_simps split: if_splits dest!: fetch_map_io fetch_step_io)

lemma default_time_files: "default_time view s = (Inr t, s') \<Longrightarrow> io_fs (aq_io s') = io_fs (aq_io s) \<and> io_ids (aq_io s') = io_ids (aq_io s)"
  by (auto simp: default_time_def step_io_run step_simps io_simps split: option.splits)

lemma success_report_files:
  "success_report a admission request status cs cache n final lineage h s = (Inr m, s') \<Longrightarrow>
     io_fs (aq_io s') = io_fs (aq_io s) \<and> io_ids (aq_io s') = io_ids (aq_io s)"
  by (auto simp: success_report_def step_bind_Inr step_io_run step_simps io_simps)

lemma refresh_publishes:
  assumes "refresh a admission request expected cs cache n planned s = (Inr res, s')"
  obtains assembled m planned' pub s2 where
    "publish_step a request expected assembled m (cg_generation_id cache) planned' s2 = (Inr pub, s')"
    "publishable request m" "io_fs (aq_io s2) = io_fs (aq_io s)" "io_ids (aq_io s2) = io_ids (aq_io s)"
    "cf_rows (res_frame res) = requested_frame (cf_rows (gp_frame pub)) expected"
proof -
  from assms obtain accepted assembled status final lineage m planned' t pub s1 s2 s3 where
      fetch: "fetch_planned a request expected (requested_frame (cache_frame (cache_view a cache)) expected) planned s = (Inr (accepted, planned'), s1)"
      and time: "default_time (cache_view a cache) (s1\<lparr>aq_evidence := (aq_evidence s1)\<lparr>ev_findings := ev_findings (aq_evidence s1) @ qr_findings final\<rparr>\<rparr>) = (Inr t, s2)"
      and rep: "success_report a admission request status cs cache n final lineage None s2 = (Inr m, s3)" "status \<in> {SUCCESS, PARTIAL_SUCCESS}"
      and pub: "publish_step a request expected assembled m (cg_generation_id cache) planned' s3 = (Inr pub, s')"
      and res: "res_frame res = (gp_frame pub)\<lparr>cf_rows := requested_frame (cf_rows (gp_frame pub)) expected\<rparr>"
    by (auto simp: refresh_def Let_def step_bind_Inr step_simps split: prod.splits if_splits)
  have "io_fs (aq_io s3) = io_fs (aq_io s) \<and> io_ids (aq_io s3) = io_ids (aq_io s)"
    using fetch_planned_io [OF fetch] default_time_files [OF time] success_report_files [OF rep(1)] by simp
  moreover have "publishable request m"
    using success_report_Inr [OF rep(1)] rep(2) by (simp add: publishable_def)
  ultimately show ?thesis using that pub res by simp
qed

lemma publish_step_readable:
  assumes run: "publish_step a request expected assembled m base planned s = (Inr pub, s')"
    and man: "publishable request m" and setting: "publication_setting (as_store a) request (aq_io s)"
  shows "cg_status (read_generation (as_store a) (io_fs (aq_io s')) request) = FULL_HIT"
    and "cg_frame (read_generation (as_store a) (io_fs (aq_io s')) request) = Some (gp_frame pub)"
proof -
  let ?ds = "as_store a" and ?rv = "Some (revalidate_rebase a request expected)"
  from run obtain pub0 w1 where gen: "publish_generation ?ds request (canonical_of assembled)
        (publication_metadata (ds_fmt ?ds) request planned) m base ?rv (day_ranges planned) (aq_io s) = (Inr pub0, w1)"
      and arch: "archive_committed_publication ?ds request pub0 w1 = (Inr pub, aq_io s')"
    by (auto simp: publish_step_def step_bind_Inr step_io_run)
  from gen obtain metadata where "publish_attempts ?ds request (canonical_of assembled) metadata m ?rv (day_ranges planned)
      [1, 2, 3] base (aq_io s) = (Inr pub0, w1)"
    by (auto simp: publish_generation_def io_bind_Inr io_simps simp del: publish_attempts.simps split: if_splits json.splits)
  from publish_attempt_run [OF this setting man]
  have hit: "cg_status (read_generation ?ds (io_fs w1) request) = FULL_HIT"
      "cg_frame (read_generation ?ds (io_fs w1) request) = Some (gp_frame pub0)"
    by (auto simp: publication_outcome_def committed_def)
  have "read_generation ?ds (io_fs (aq_io s')) request = read_generation ?ds (io_fs w1) request \<and> gp_frame pub = gp_frame pub0"
  proof (cases "ds_archives_publications ?ds")
    case False
    with arch have "archive_after_commit ?ds request pub0 w1 = (Inr pub, aq_io s')" by (simp add: archive_committed_publication_def)
    from archive_after_commit_run [OF this] read_generation_adds [of "io_fs w1" "io_fs (aq_io s')" ?ds request] hit(1)
    show ?thesis by simp
  qed (use arch in \<open>simp add: archive_committed_publication_def io_simps\<close>)
  with hit show "cg_status (read_generation ?ds (io_fs (aq_io s')) request) = FULL_HIT"
    "cg_frame (read_generation ?ds (io_fs (aq_io s')) request) = Some (gp_frame pub)"
    by simp_all
qed

lemma valid_rows_nonempty:
  assumes "answer_from_cache a admission request expected cs cache n s = (Inr res, s')"
  shows "requested_frame (cache_frame (cache_view a cache)) expected \<noteq> []"
proof -
  let ?rows = "requested_frame (cache_frame (cache_view a cache)) expected"
  from assms obtain final rows where "complete_evaluation a request expected ?rows = Inr final" "qr_frame final = Some rows"
    by (auto simp: answer_from_cache_def Let_def step_bind_Inr step_simps fail_acquisition_raises
        split: bool.splits option.splits if_splits)
  then obtain q where "evaluate_complete_request (as_redact a) (sv_digest (as_service a)) (canonical_of ?rows) request expected
      (Some (sv_quality_policy (as_service a))) = Inr q" "qr_frame q = Some rows"
    by (auto simp: complete_evaluation_def split: sum.splits)
  from published_frame_canonical(2) [OF this] show ?thesis
    by (auto simp: canonical_contract_errors_def canonical_of_def Let_def reason_if_def split: if_splits)
qed

text \<open>C22: an acquisition leaves in the cache what it returns. After a successful acquisition, with no other
  publisher at work, reading the cache for the request is a full hit, and the rows of the cached
  frame on the expected sessions are exactly the rows that were returned.\<close>

theorem acquired_frame_is_cached:
  assumes "acquire a request s = (Inr res, s')" and "publication_setting (as_store a) request (aq_io s)"
  shows "\<exists>expected frame. request_sessions a request = Inr expected \<and>
    cg_status (read_generation (as_store a) (io_fs (aq_io s')) request) = FULL_HIT \<and>
    cg_frame (read_generation (as_store a) (io_fs (aq_io s')) request) = Some frame \<and>
    cf_rows (res_frame res) = requested_frame (cf_rows frame) expected"
  using assms(1)
proof (cases rule: acquire_cases)
  case (cached admission n s1 expected cs)
  let ?cache = "read_cache a request (io_fs (aq_io s))"
  note run = cached(4)
  from valid_rows_nonempty [OF run] obtain frame where frame: "cg_frame ?cache = Some frame"
    by (auto simp: requested_frame_def cache_frame_def cache_view_def split: option.splits)
  then have read: "?cache = read_generation (as_store a) (io_fs (aq_io s)) request"
    by (auto simp: read_cache_def no_cache_def no_generation_def split: if_splits)
  have "cg_status ?cache = FULL_HIT"
    using frame unfolding read by (cases rule: read_generation_cases [of "as_store a" "io_fs (aq_io s)" request])
      (auto simp: no_generation_def dest: read_referenced_status)
  moreover have "cf_rows (res_frame res) = requested_frame (cf_rows frame) expected"
    using answer_valid(2) [OF run] frame by (simp add: cache_frame_def cache_view_def)
  ultimately show ?thesis using cached(2,3) frame answer_valid(3) [OF run] read by auto
next
  case (fetched admission n s1 expected cs planned)
  then have "refresh a admission request expected cs (read_cache a request (io_fs (aq_io s))) n planned s1 = (Inr res, s')"
    by (auto simp: step_catch_Inr fail_acquisition_raises)
  then obtain assembled m planned' pub s2 where
      pub: "publish_step a request expected assembled m (cg_generation_id (read_cache a request (io_fs (aq_io s)))) planned' s2 = (Inr pub, s')"
      "publishable request m" and files: "io_fs (aq_io s2) = io_fs (aq_io s1)" "io_ids (aq_io s2) = io_ids (aq_io s1)"
      and rows: "cf_rows (res_frame res) = requested_frame (cf_rows (gp_frame pub)) expected"
    by (rule refresh_publishes)
  have "publication_setting (as_store a) request (aq_io s2)"
    using assms(2) files fetched(4,5) by (simp add: publication_setting_def)
  from publish_step_readable [OF pub this] fetched(2) rows show ?thesis by blast
qed (simp_all add: fail_acquisition_raises)

section \<open>An instance\<close>

definition demo_single_batch :: provider_batch where
  "demo_single_batch = demo_batch\<lparr>pb_frame := \<lparr>pf_columns = pf_columns (pb_frame demo_batch),
     pf_rows = [(CStr ''2022-01-11'', map (\<lambda>x. CNum (Fin x)) [10, 12, 9, 11, 11, 5, 0, 1])]\<rparr>\<rparr>"

definition demo_acquirer :: acquisition_service where
  "demo_acquirer = \<lparr>as_store = demo_store\<lparr>ds_service := demo_service\<lparr>
       sv_schedule := (\<lambda>a b. [(1641859200000000, 1641931200000000)]),
       sv_fetch := (\<lambda>p r _. Inr (demo_single_batch\<lparr>pb_request := r\<rparr>))\<rparr>\<rparr>,
     as_retry_policy = default_retry_policy, as_environment_versions = [(''XNYS'', ''4'')]\<rparr>"

definition demo_state :: acq_state where
  "demo_state = \<lparr>aq_evidence = demo_evidence, aq_net = demo_fetch_world, aq_io = demo_io\<rparr>"

abbreviation demo_expected :: "datetime list" where
  "demo_expected \<equiv> [1641859200000000]"

abbreviation demo_planned :: "(datetime \<times> datetime) list" where
  "demo_planned \<equiv> [(1641859200000000, 1641859200000000)]"

text \<open>The publication of an acquisition goes through if the store has room and the assembled rows pass.\<close>

lemma publish_step_ok:
  assumes "publication_room request (aq_io s)" and "fs_tree (io_fs (aq_io s))" and "ds_conflict_probe (as_store a) = None"
    and "publishable request m" and "validate_canonical (as_redact a) (canonical_of assembled) request = Inr ()"
    and "read_generation (as_store a) (io_fs (aq_io s)) request = no_generation MISS None"
    and "complete_evaluation a request expected (requested_frame assembled expected) = Inr q" and "qr_severity q \<noteq> FATAL"
  shows "\<exists>pub s'. publish_step a request expected assembled m None planned s = (Inr pub, s')"
proof -
  let ?ds = "as_store a" and ?rv = "Some (revalidate_rebase a request expected)"
  have asm: "assemble ?ds None (read_generation ?ds (io_fs (aq_io s)) request) (canonical_of assembled) (mf_lineage m) (day_ranges planned)
      = Inr (canonical_of assembled, mf_lineage m)"
    using assms(6) by (simp add: assemble_def no_generation_def)
  have rev: "revalidated ?ds request ?rv (canonical_of assembled) = Inr (canonical_of assembled)"
    using assms(5,7,8) by (simp add: revalidated_def revalidate_rebase_def canonical_of_def)
  have status: "cg_status (read_generation ?ds (io_fs (aq_io s)) request) \<noteq> INVALIDATED" using assms(6) by (simp add: no_generation_def)
  have "\<exists>pub w'. publish_attempts ?ds request (canonical_of assembled) metadata m ?rv (day_ranges planned) [1, 2, 3] None (aq_io s) = (Inr pub, w')" for metadata
    by (rule publish_attempts_ok [OF assms(1-3) status asm rev])
  then obtain pub w' where "publish_generation ?ds request (canonical_of assembled) (publication_metadata (ds_fmt ?ds) request planned) m None
      ?rv (day_ranges planned) (aq_io s) = (Inr pub, w')"
    using assms(4,5) by (fastforce simp: publish_generation_def publishable_def io_bind_def io_simps simp del: publish_attempts.simps)
  moreover have "\<exists>pub' w''. archive_committed_publication ?ds request pub w' = (Inr pub', w'')"
    using archive_after_commit_returns [of ?ds request pub w'] by (simp add: archive_committed_publication_def io_simps)
  ultimately show ?thesis by (fastforce simp: publish_step_def step_bind_def step_io_def)
qed

definition demo_bar :: canonical_row where
  "demo_bar = \<lparr>cr_timestamp = 1641859200000000, cr_symbol = ''BRK.B'', cr_open = CNum (Fin 10), cr_high = CNum (Fin 12),
     cr_low = CNum (Fin 9), cr_close = CNum (Fin 11), cr_volume = CNum (Fin 5), cr_adj_close = CNum (Fin 11),
     cr_dividend_amount = CNum (Fin 0), cr_split_coefficient = CNum (Fin 1), cr_source = ''alpha_vantage''\<rparr>"

lemma demo_fetched:
  "\<exists>rng ev w. fetch_range (as_service demo_acquirer) demo_parent 1641859200000000 1641859200000000 demo_evidence demo_fetch_world
     = (Inr rng, ev, w) \<and> rg_frame rng = [demo_bar]"
proof -
  have "case fetch_range (as_service demo_acquirer) demo_parent 1641859200000000 1641859200000000 demo_evidence demo_fetch_world of
      (Inr rng, _, _) \<Rightarrow> rg_frame rng = [demo_bar] | (Inl _, _, _) \<Rightarrow> False"
    by code_simp
  then show ?thesis by (auto split: prod.splits sum.splits)
qed

lemma demo_evaluated:
  "\<exists>q. complete_evaluation demo_acquirer demo_parent demo_expected [demo_bar] = Inr q \<and> \<not> unusable q"
proof -
  have "case complete_evaluation demo_acquirer demo_parent demo_expected [demo_bar] of Inr q \<Rightarrow> \<not> unusable q | Inl _ \<Rightarrow> False"
    by code_simp
  then show ?thesis by (auto split: sum.splits)
qed

lemma demo_bar_valid: "validate_canonical (as_redact demo_acquirer) (canonical_of [demo_bar]) demo_parent = Inr ()"
  by code_simp

lemma demo_plan:
  "request_sessions demo_acquirer demo_parent = Inr demo_expected"
  "plan_ranges (as_service demo_acquirer) demo_parent demo_expected (cache_view demo_acquirer (no_generation MISS None)) [] now
     = (MISS, demo_planned)"
proof -
  show "request_sessions demo_acquirer demo_parent = Inr demo_expected" by code_simp
  show "plan_ranges (as_service demo_acquirer) demo_parent demo_expected (cache_view demo_acquirer (no_generation MISS None)) [] now
     = (MISS, demo_planned)"
    by code_simp
qed

lemma demo_admitted:
  "\<exists>admission. admission_of demo_acquirer demo_parent demo_io
     = (Inr admission, demo_io\<lparr>io_id_count := 1, io_clock_reads := 1\<rparr>)"
proof -
  have "case acquisition_request_init ((raw_of demo_parent)\<lparr>rr_source := AStr (source_value (ar_source demo_parent))\<rparr>) of
      Inr _ \<Rightarrow> True | Inl _ \<Rightarrow> False" by code_simp
  moreover have "safe_id (io_ids demo_io 0)" by code_simp
  ultimately show ?thesis
    by (auto simp: admission_of_def admit_def io_bind_def io_simps validated_id_def demo_io_def split: sum.splits)
qed

lemma demo_lineage:
  assumes "rg_frame rng = [demo_bar]"
  shows "\<exists>lineage. rebuild_lineage (as_service demo_acquirer) [demo_bar] view [rng] t = Inr lineage"
proof -
  have "case action_signature (sv_digest (as_service demo_acquirer)) [demo_bar] of Inr _ \<Rightarrow> True | Inl _ \<Rightarrow> False" by code_simp
  then obtain sig where sig: "action_signature (sv_digest (as_service demo_acquirer)) [demo_bar] = Inr sig" by (auto split: sum.splits)
  have "dict_get (refreshed_rows [rng]) (cr_timestamp demo_bar) = Some rng"
    by (simp add: refreshed_rows_def assms dict_laws)
  then show ?thesis by (simp add: rebuild_lineage_def Let_def row_provenance_def lineage_segment_of_def sig)
qed

lemma demo_rows:
  "requested_frame [demo_bar] demo_expected = [demo_bar]" "rg_frame rng = [demo_bar] \<Longrightarrow> merge_ranges [] [rng] = [demo_bar]"
  by (simp_all add: requested_frame_def merge_ranges_def demo_bar_def)

text \<open>The demonstration's acquisition succeeds: the range is fetched, passes, and is published.\<close>

lemma demo_acquired: "\<exists>res s'. acquire demo_acquirer demo_parent demo_state = (Inr res, s')"
proof -
  obtain admission where adm: "admission_of demo_acquirer demo_parent demo_io = (Inr admission, demo_io\<lparr>io_id_count := 1, io_clock_reads := 1\<rparr>)"
    using demo_admitted by blast
  let ?s1 = "demo_state\<lparr>aq_io := demo_io\<lparr>io_id_count := 1, io_clock_reads := 2\<rparr>\<rparr>" and ?no = "no_generation MISS None"
  let ?view = "cache_view demo_acquirer ?no"
  obtain rng ev w where f: "fetch_range (as_service demo_acquirer) demo_parent 1641859200000000 1641859200000000 demo_evidence demo_fetch_world
      = (Inr rng, ev, w)" and rows: "rg_frame rng = [demo_bar]" using demo_fetched by blast
  let ?s2 = "?s1\<lparr>aq_evidence := ev, aq_net := w\<rparr>"
  have fetch: "fetch_planned demo_acquirer demo_parent demo_expected [] demo_planned ?s1 = (Inr ([rng], demo_planned), ?s2)"
    using f by (simp add: fetch_planned_def step_bind_def fetch_step_def step_simps demo_state_def actions_changed_def)
  obtain q where q: "complete_evaluation demo_acquirer demo_parent demo_expected [demo_bar] = Inr q" "\<not> unusable q"
    using demo_evaluated by blast
  then have q1: "complete_evaluation demo_acquirer demo_parent demo_expected (requested_frame [demo_bar] demo_expected) = Inr q"
    by (simp add: demo_rows(1))
  have empty: "cache_frame ?view = []" "cd_completed_at ?view = None" "requested_frame [] demo_expected = []"
    "cg_generation_id ?no = None"
    by (simp_all add: cache_frame_def cache_view_def no_generation_def cached_completed_at_def requested_frame_def)
  have read: "read_generation (as_store demo_acquirer) [] demo_parent = ?no"
    by (simp add: read_generation_def is_symlink_def path_exists_def node_at_def)
  have "\<exists>pub s'. publish_step demo_acquirer demo_parent demo_expected [demo_bar] m None demo_planned s = (Inr pub, s')"
    if "publishable demo_parent m" "io_fs (aq_io s) = []" "io_ids (aq_io s) = io_ids demo_io" "io_id_count (aq_io s) = 1"
      "io_fails (aq_io s) = (\<lambda>_. False)" for m s
  proof (rule publish_step_ok [OF _ _ _ that(1) demo_bar_valid _ q1])
    have "safe_id (io_ids demo_io 1)" by code_simp
    then show "publication_room demo_parent (aq_io s)" using that by (simp add: publication_room_def Let_def)
    show "qr_severity q \<noteq> FATAL" using q(2) by (simp add: unusable_def)
  qed (use that read in \<open>simp_all add: fs_tree_def demo_acquirer_def demo_store_def\<close>)
  note publish = this
  obtain lineage where lin: "rebuild_lineage (as_service demo_acquirer) [demo_bar] ?view [rng] (io_clock demo_io 2) = Inr lineage"
    using demo_lineage [OF rows] by blast
  define s3 where "s3 = ?s2\<lparr>aq_evidence := ev\<lparr>ev_findings := ev_findings ev @ qr_findings q\<rparr>,
      aq_io := demo_io\<lparr>io_id_count := 1, io_clock_reads := 3\<rparr>\<rparr>"
  let ?status = "if accepted_warnings [rng] q then PARTIAL_SUCCESS else SUCCESS"
  obtain m s4 where rep: "success_report demo_acquirer admission demo_parent ?status MISS ?no 0 q lineage None s3 = (Inr m, s4)"
    by (auto simp: success_report_def step_bind_def step_io_def step_simps io_simps)
  have "publishable demo_parent m" "io_fs (aq_io s4) = []" "io_ids (aq_io s4) = io_ids demo_io" "io_id_count (aq_io s4) = 1"
      "io_fails (aq_io s4) = (\<lambda>_. False)"
    using rep success_report_Inr [OF rep]
    by (auto simp: publishable_def success_report_def step_bind_def step_io_def step_simps io_simps s3_def demo_io_def)
  from publish [OF this] obtain pub s5 where "publish_step demo_acquirer demo_parent demo_expected [demo_bar] m None demo_planned s4 = (Inr pub, s5)"
    by blast
  then have "\<exists>res s'. refresh demo_acquirer admission demo_parent demo_expected MISS ?no 0 demo_planned ?s1 = (Inr res, s')"
    using fetch q lin rep
    by (simp add: refresh_def Let_def empty step_bind_def step_simps demo_rows(2) [OF rows] demo_rows(1) default_time_def step_io_def
        io_simps demo_state_def s3_def)
  moreover have "read_cache demo_acquirer demo_parent [] = ?no"
    using read by (simp add: read_cache_def no_cache_def)
  ultimately show ?thesis using adm demo_plan empty
    by (simp add: acquire_def step_bind_def step_io_def step_simps io_simps demo_state_def demo_fetch_world_def demo_evidence_def
        step_catch_def Let_def) (auto simp: demo_io_def step_catch_def numeral_2_eq_2)
qed

lemma demo_acquirer_setting: "publication_setting (as_store demo_acquirer) demo_parent (aq_io demo_state)"
  by (simp add: publication_setting_def store_ok_def demo_acquirer_def demo_store_def demo_service_def demo_fmt_ok is_sha256_def
      list_all_iff fs_tree_def validate_namespace_path_def generation_namespace_def is_symlink_def demo_io_def demo_state_def)

lemma acquired_frame_complete_witness:
  "\<exists>res s'. acquire demo_acquirer demo_parent demo_state = (Inr res, s') \<and> result_valid demo_acquirer demo_parent demo_expected res"
proof -
  obtain res s' where "acquire demo_acquirer demo_parent demo_state = (Inr res, s')" using demo_acquired by blast
  with acquired_frame_complete [OF this] demo_plan(1) show ?thesis by auto
qed

lemma acquired_frame_is_cached_witness:
  "\<exists>res s'. acquire demo_acquirer demo_parent demo_state = (Inr res, s') \<and>
     cg_status (read_generation (as_store demo_acquirer) (io_fs (aq_io s')) demo_parent) = FULL_HIT"
proof -
  obtain res s' where run: "acquire demo_acquirer demo_parent demo_state = (Inr res, s')" using demo_acquired by blast
  from acquired_frame_is_cached [OF run demo_acquirer_setting] run show ?thesis by auto
qed

text \<open>Without a provider for the request, the acquisition fails and leaves its report.\<close>

definition demo_offline :: acquisition_service where
  "demo_offline = demo_acquirer\<lparr>as_store := (as_store demo_acquirer)\<lparr>ds_service := (as_service demo_acquirer)\<lparr>sv_factories := []\<rparr>\<rparr>\<rparr>"

lemma demo_offline_runs:
  "request_sessions demo_offline demo_parent = Inr demo_expected"
  "plan_ranges (as_service demo_offline) demo_parent demo_expected (cache_view demo_offline (no_generation MISS None)) [] now
     = (MISS, demo_planned)"
  "\<exists>e ev w. fetch_range (as_service demo_offline) demo_parent 1641859200000000 1641859200000000 demo_evidence demo_fetch_world
     = (Inl e, ev, w)"
  "\<exists>q. complete_evaluation demo_offline demo_parent demo_expected [] = Inr q"
proof -
  show "request_sessions demo_offline demo_parent = Inr demo_expected" by code_simp
  show "plan_ranges (as_service demo_offline) demo_parent demo_expected (cache_view demo_offline (no_generation MISS None)) [] now
     = (MISS, demo_planned)" by code_simp
  have "case fetch_range (as_service demo_offline) demo_parent 1641859200000000 1641859200000000 demo_evidence demo_fetch_world of
      (Inl _, _, _) \<Rightarrow> True | _ \<Rightarrow> False" by code_simp
  then show "\<exists>e ev w. fetch_range (as_service demo_offline) demo_parent 1641859200000000 1641859200000000 demo_evidence demo_fetch_world
     = (Inl e, ev, w)" by (auto split: prod.splits sum.splits)
  have "case complete_evaluation demo_offline demo_parent demo_expected [] of Inr q \<Rightarrow> True | Inl _ \<Rightarrow> False" by code_simp
  then show "\<exists>q. complete_evaluation demo_offline demo_parent demo_expected [] = Inr q" by (auto split: sum.splits)
qed


end
