(* ===== verification/Cloud_Contracts.thy ===== *)
theory Cloud_Contracts
  imports Strategies Documents
begin

text \<open>
  The documents of the cloud workflow, \<open>src/cloud/contracts.py\<close>: the request of a research run, the
  reference to its dataset, the specification of the run, the checksums of its artifacts, and the
  record of its state. A model is validated from a JSON value as pydantic validates it in strict
  mode: unknown members are refused, every field is checked in its order, a \<open>ValueError\<close> of a
  validator becomes a \<open>ValidationError\<close>, and any other exception passes through. The texts of
  times are those of the documents' parameter, the digest is a parameter.
\<close>

section \<open>Validation\<close>

definition validation_error :: exn where
  "validation_error = external ''ValidationError''"

definition refuse :: "string \<Rightarrow> exn" where
  "refuse message = raise_as ''ValueError'' message"

definition refuse_type :: "string \<Rightarrow> exn" where
  "refuse_type message = raise_as ''TypeError'' message"

text \<open>What the validation of a model makes of the errors of its fields: the first that is not a
  \<open>ValueError\<close> is raised, otherwise the collected ones as one \<open>ValidationError\<close>.\<close>

definition collected :: "exn \<Rightarrow> bool" where
  "collected e \<longleftrightarrow> is_value_error e \<or> exn_class e = External ''ValidationError''"

definition vpair :: "exn + 'a \<Rightarrow> exn + 'b \<Rightarrow> exn + 'a \<times> 'b" where
  "vpair r q = (case (r, q) of
     (Inr a, Inr b) \<Rightarrow> Inr (a, b)
   | (Inl e, Inl f) \<Rightarrow> Inl (if \<not> collected e then e else if \<not> collected f then f else validation_error)
   | (Inl e, Inr _) \<Rightarrow> Inl (if \<not> collected e then e else validation_error)
   | (Inr _, Inl f) \<Rightarrow> Inl (if \<not> collected f then f else validation_error))"

definition required :: "json \<Rightarrow> string \<Rightarrow> (json \<Rightarrow> exn + 'a) \<Rightarrow> exn + 'a" where
  "required j name check = (if name \<in> jkeys j then check (jget j name) else Inl validation_error)"

definition defaulted :: "json \<Rightarrow> string \<Rightarrow> 'a \<Rightarrow> (json \<Rightarrow> exn + 'a) \<Rightarrow> exn + 'a" where
  "defaulted j name value check = (if name \<in> jkeys j then check (jget j name) else Inr value)"

text \<open>An object of the model's members only, and then the model's own check.\<close>

definition model :: "string list \<Rightarrow> json \<Rightarrow> exn + 'a \<Rightarrow> ('a \<Rightarrow> exn + 'b) \<Rightarrow> exn + 'b" where
  "model names j parts check =
     (if members j = None then Inl validation_error
      else (case parts of
          Inl e \<Rightarrow> Inl (if collected e then validation_error else e)
        | Inr x \<Rightarrow> if \<not> jkeys j \<subseteq> set names then Inl validation_error
            else (case check x of Inl e \<Rightarrow> Inl (if collected e then validation_error else e) | Inr y \<Rightarrow> Inr y)))"

definition strict_str :: "json \<Rightarrow> exn + string" where
  "strict_str j = (case j of JStr s \<Rightarrow> Inr s | _ \<Rightarrow> Inl validation_error)"

definition strict_int :: "json \<Rightarrow> exn + int" where
  "strict_int j = (case j of JInt i \<Rightarrow> Inr i | _ \<Rightarrow> Inl validation_error)"

text \<open>An integer that no float is near enough to.\<close>

definition float_overflows :: "int \<Rightarrow> bool" where
  "float_overflows i \<longleftrightarrow> \<bar>i\<bar> \<ge> 2 ^ 1024 - 2 ^ 970"

definition strict_float :: "json \<Rightarrow> exn + xfloat" where
  "strict_float j = (case j of
     JFloat x \<Rightarrow> Inr x
   | JInt i \<Rightarrow> if float_overflows i then Inl validation_error else Inr (Fin (real_of_int i))
   | _ \<Rightarrow> Inl validation_error)"

definition finite_float :: "json \<Rightarrow> exn + real" where
  "finite_float j = rbind (strict_float j) (\<lambda>x. case x of Fin r \<Rightarrow> Inr r | _ \<Rightarrow> Inl (refuse ''must be finite''))"

section \<open>Texts\<close>

definition SCHEMA_VERSION :: string where "SCHEMA_VERSION = ''1''"

definition REQUIRED_ARTIFACTS :: "string list" where
  "REQUIRED_ARTIFACTS = [''run-spec.json'', ''result.json'', ''trades.parquet'', ''equity-curve.parquet'', ''report.html'']"

text \<open>\<open>str.replace\<close> of a non-empty text.\<close>

function replace_all :: "string \<Rightarrow> string \<Rightarrow> string \<Rightarrow> string" where
  "replace_all old new [] = []"
| "replace_all old new (c # cs) =
     (if take (length old) (c # cs) = old \<and> old \<noteq> [] then new @ replace_all old new (drop (length old - 1) cs)
      else c # replace_all old new cs)"
  by pat_completeness auto
termination by (relation "measure (\<lambda>(_, _, s). length s)") auto

definition utc_text :: "iso_api \<Rightarrow> datetime \<Rightarrow> string" where
  "utc_text fmt t = replace_all ''+00:00'' ''Z'' (iso_text fmt t)"

definition parse_cloud_date :: "iso_api \<Rightarrow> json \<Rightarrow> exn + int" where
  "parse_cloud_date fmt value = (case value of
     JStr s \<Rightarrow> (case date_parse fmt s of Some d \<Rightarrow> Inr d | None \<Rightarrow> Inl (refuse ''Invalid isoformat string''))
   | _ \<Rightarrow> Inl (refuse_type ''must be an ISO date''))"

definition parse_utc_datetime :: "iso_api \<Rightarrow> json \<Rightarrow> exn + datetime" where
  "parse_utc_datetime fmt value = (case value of
     JStr s \<Rightarrow> (case iso_parse fmt (replace_all ''Z'' ''+00:00'' s) of
         None \<Rightarrow> Inl (refuse ''Invalid isoformat string'')
       | Some (t, offset) \<Rightarrow> if offset = Some 0 then Inr t else Inl (refuse ''must be a UTC timestamp''))
   | _ \<Rightarrow> Inl (refuse ''must be a UTC timestamp''))"

definition validate_sha256 :: "json \<Rightarrow> exn + string" where
  "validate_sha256 value = (if is_sha256 value then Inr (text_of value)
     else Inl (refuse ''must be a 64-character lowercase SHA-256 hexadecimal value''))"

definition validate_image_digest :: "json \<Rightarrow> exn + string" where
  "validate_image_digest value = (case value of
     JStr s \<Rightarrow> if take 7 s = ''sha256:'' then rbind (validate_sha256 (JStr (drop 7 s))) (\<lambda>_. Inr s)
       else Inl (refuse ''must be a pinned sha256 image digest'')
   | _ \<Rightarrow> Inl (refuse ''must be a pinned sha256 image digest''))"

definition is_hex :: "char \<Rightarrow> bool" where
  "is_hex c \<longleftrightarrow> (let n = (of_char c :: nat) in (48 \<le> n \<and> n \<le> 57) \<or> (97 \<le> n \<and> n \<le> 102))"

text \<open>\<open>str(UUID(value)) == value\<close>: 32 lower-case hexadecimal digits in groups of 8, 4, 4, 4 and 12.\<close>

definition canonical_uuid :: "string \<Rightarrow> bool" where
  "canonical_uuid s \<longleftrightarrow> length s = 36 \<and>
     list_all (\<lambda>i. if i \<in> {8, 13, 18, 23} then s ! i = CHR ''-'' else is_hex (s ! i)) [0..<36]"

definition validate_uuid :: "json \<Rightarrow> exn + string" where
  "validate_uuid value = (case value of
     JStr s \<Rightarrow> if canonical_uuid s then Inr s else Inl (refuse ''must be a canonical UUID string'')
   | _ \<Rightarrow> Inl (refuse_type ''must be a canonical UUID string''))"

fun split_slash :: "string \<Rightarrow> string list" where
  "split_slash [] = [[]]"
| "split_slash (c # cs) = (if c = CHR ''/'' then [] # split_slash cs
     else (case split_slash cs of [] \<Rightarrow> [[c]] | w # ws \<Rightarrow> (c # w) # ws))"

definition is_control :: "char \<Rightarrow> bool" where
  "is_control c \<longleftrightarrow> (let n = (of_char c :: nat) in n \<le> 31 \<or> n = 127)"

definition key_components :: "string \<Rightarrow> bool \<Rightarrow> string list" where
  "key_components value allow_trailing_slash =
     (let components = split_slash value
      in if allow_trailing_slash \<and> last components = [] then butlast components else components)"

definition validate_object_key :: "string \<Rightarrow> bool \<Rightarrow> json \<Rightarrow> exn + string" where
  "validate_object_key key_prefix allow_trailing_slash value = (case value of
     JStr s \<Rightarrow>
       if take (length key_prefix) s \<noteq> key_prefix \<or> length s > 1024
       then Inl (refuse ''must be an object key no longer than 1024 characters'')
       else if CHR 0x5C \<in> set s \<or> list_ex is_control s
       then Inl (refuse ''must not contain backslashes or control characters'')
       else if key_components s allow_trailing_slash = [] \<or>
           list_ex (\<lambda>c. c \<in> {[], ''.'', ''..''}) (key_components s allow_trailing_slash)
       then Inl (refuse ''must not contain empty or dot path components'')
       else Inr s
   | _ \<Rightarrow> Inl (refuse ''must be an object key no longer than 1024 characters''))"

definition validate_symbol :: "json \<Rightarrow> exn + string" where
  "validate_symbol value = (case value of
     JStr s \<Rightarrow> let symbol = py_upper (py_strip s) in
       if symbol_pattern symbol then Inr symbol else Inl (refuse ''symbol must use the safe V1 symbol grammar'')
   | _ \<Rightarrow> Inl (refuse_type ''symbol must be a string''))"

definition bucket_char :: "char \<Rightarrow> bool" where
  "bucket_char c \<longleftrightarrow> (let n = (of_char c :: nat) in (48 \<le> n \<and> n \<le> 57) \<or> (97 \<le> n \<and> n \<le> 122))"

fun has_dots :: "string \<Rightarrow> bool" where
  "has_dots (a # b # cs) = ((a = CHR ''.'' \<and> b = CHR ''.'') \<or> has_dots (b # cs))"
| "has_dots _ = False"

definition validate_bucket :: "json \<Rightarrow> exn + string" where
  "validate_bucket value = (case value of
     JStr s \<Rightarrow> if 3 \<le> length s \<and> length s \<le> 63 \<and> \<not> has_dots s \<and> bucket_char (hd s) \<and> bucket_char (last s) \<and>
         list_all (\<lambda>c. bucket_char c \<or> c \<in> {CHR ''.'', CHR ''-''}) s
       then Inr s else Inl (refuse ''bucket must use the safe S3 bucket grammar'')
   | _ \<Rightarrow> Inl (refuse ''bucket must use the safe S3 bucket grammar''))"

definition validate_schema_version :: "json \<Rightarrow> exn + string" where
  "validate_schema_version value = rbind (strict_str value) (\<lambda>s.
     if s = SCHEMA_VERSION then Inr s else Inl (refuse ''unsupported schema version''))"

section \<open>Enumerations\<close>

datatype visibility = PRIVATE | PUBLIC

fun visibility_value :: "visibility \<Rightarrow> string" where
  "visibility_value PRIVATE = ''PRIVATE''"
| "visibility_value PUBLIC = ''PUBLIC''"

datatype run_status = PENDING | RUNNING | SUCCEEDED | RUN_FAILED

fun run_status_value :: "run_status \<Rightarrow> string" where
  "run_status_value PENDING = ''PENDING''"
| "run_status_value RUNNING = ''RUNNING''"
| "run_status_value SUCCEEDED = ''SUCCEEDED''"
| "run_status_value RUN_FAILED = ''FAILED''"

datatype failure_code =
    ACQUISITION_FAILED | PREPARATION_FAILED | WORKER_FAILED | ARTIFACT_VERIFICATION_FAILED | WORKFLOW_TIMED_OUT

fun failure_code_value :: "failure_code \<Rightarrow> string" where
  "failure_code_value ACQUISITION_FAILED = ''ACQUISITION_FAILED''"
| "failure_code_value PREPARATION_FAILED = ''PREPARATION_FAILED''"
| "failure_code_value WORKER_FAILED = ''WORKER_FAILED''"
| "failure_code_value ARTIFACT_VERIFICATION_FAILED = ''ARTIFACT_VERIFICATION_FAILED''"
| "failure_code_value WORKFLOW_TIMED_OUT = ''WORKFLOW_TIMED_OUT''"

text \<open>\<open>Enum(value)\<close> of a text, and a member of an enumeration from a JSON value.\<close>

definition enum_member :: "('a \<Rightarrow> string) \<Rightarrow> 'a list \<Rightarrow> string \<Rightarrow> exn + 'a" where
  "enum_member value_of all s = (case find (\<lambda>x. value_of x = s) all of
     Some x \<Rightarrow> Inr x | None \<Rightarrow> Inl (refuse ''not a valid member''))"

definition admit_enum :: "('a \<Rightarrow> string) \<Rightarrow> 'a list \<Rightarrow> json \<Rightarrow> exn + 'a" where
  "admit_enum value_of all value = (case value of
     JStr s \<Rightarrow> enum_member value_of all s | _ \<Rightarrow> Inl (refuse_type ''must be a string''))"

abbreviation admit_visibility :: "json \<Rightarrow> exn + visibility" where
  "admit_visibility \<equiv> admit_enum visibility_value [PRIVATE, PUBLIC]"

abbreviation all_statuses :: "run_status list" where
  "all_statuses \<equiv> [PENDING, RUNNING, SUCCEEDED, RUN_FAILED]"

abbreviation all_codes :: "failure_code list" where
  "all_codes \<equiv> [ACQUISITION_FAILED, PREPARATION_FAILED, WORKER_FAILED, ARTIFACT_VERIFICATION_FAILED, WORKFLOW_TIMED_OUT]"

section \<open>Research requests\<close>

text \<open>\<open>date.replace(year=...)\<close> on the day numbers of dates.\<close>

definition civil_days :: "int \<Rightarrow> int \<Rightarrow> int \<Rightarrow> int" where
  "civil_days y m d =
     (let y' = (if m \<le> 2 then y - 1 else y); era = y' div 400; yoe = y' mod 400;
          doy = (153 * (if m > 2 then m - 3 else m + 9) + 2) div 5 + d - 1;
          doe = yoe * 365 + yoe div 4 - yoe div 100 + doy
      in era * 146097 + doe - 719468)"

definition leap_year :: "int \<Rightarrow> bool" where
  "leap_year y \<longleftrightarrow> y mod 4 = 0 \<and> (y mod 100 \<noteq> 0 \<or> y mod 400 = 0)"

definition ten_years_after :: "int \<Rightarrow> exn + int" where
  "ten_years_after start =
     (case civil_date (start * 86400000000) of (y, m, d) \<Rightarrow>
        if y + 10 > 9999 then Inl (refuse ''year is out of range'')
        else if m = 2 \<and> d = 29 \<and> \<not> leap_year (y + 10) then Inr (civil_days (y + 10) 2 28)
        else Inr (civil_days (y + 10) m d))"

datatype parameter = IntParam int | FloatParam real

definition admit_parameter :: "string \<times> json \<Rightarrow> exn + string \<times> parameter" where
  "admit_parameter = (\<lambda>(key, value).
     if key = [] then Inl (refuse ''strategy parameter names must be non-empty strings'')
     else (case value of
         JInt i \<Rightarrow> if float_overflows i then Inl (external ''OverflowError'') else Inr (key, IntParam i)
       | JFloat (Fin x) \<Rightarrow> Inr (key, FloatParam x)
       | JFloat _ \<Rightarrow> Inl (refuse ''strategy parameter values must be finite'')
       | _ \<Rightarrow> Inl validation_error))"

text \<open>The types are checked first, over all members, then the validator runs.\<close>

definition admit_parameters :: "json \<Rightarrow> exn + (string, parameter) dict" where
  "admit_parameters value = (case value of
     JObj kvs \<Rightarrow>
       if list_ex (\<lambda>(key, v). case v of JInt _ \<Rightarrow> False | JFloat _ \<Rightarrow> False | _ \<Rightarrow> True) kvs then Inl validation_error
       else if length kvs > 16 then Inl (refuse ''at most 16 strategy parameters are permitted'')
       else map_result admit_parameter kvs
   | _ \<Rightarrow> Inl validation_error)"

text \<open>Calling the constructor of a registered strategy with keyword arguments. A \<open>deque\<close> needs an
  integer as its bound, not negative and not larger than the platform's \<open>ssize_t\<close>.\<close>

definition deque_bound :: "parameter \<Rightarrow> exn + int" where
  "deque_bound p = (case p of
     FloatParam _ \<Rightarrow> Inl (refuse_type ''an integer is required'')
   | IntParam i \<Rightarrow> if i \<ge> 2 ^ 63 \<or> i < - (2 ^ 63) then Inl (external ''OverflowError'')
       else if i < 0 then Inl (refuse ''maxlen must be non-negative'') else Inr i)"

fun parameter_value :: "parameter \<Rightarrow> real" where
  "parameter_value (IntParam i) = real_of_int i"
| "parameter_value (FloatParam x) = x"

definition parameter_or :: "(string, parameter) dict \<Rightarrow> string \<Rightarrow> parameter \<Rightarrow> parameter" where
  "parameter_or params name fallback = (case dict_get params name of Some p \<Rightarrow> p | None \<Rightarrow> fallback)"

definition strategy_keywords :: "(string \<times> string list) list" where
  "strategy_keywords = [(''ma_crossover'', [''fast_period'', ''slow_period'']),
     (''rsi_mean_reversion'', [''period'', ''oversold'', ''exit_level'']), (''breakout'', [''lookback''])]"

definition construct_strategy :: "string \<Rightarrow> (string, parameter) dict \<Rightarrow> exn + unit" where
  "construct_strategy key params =
     (case map_of strategy_keywords key of
        None \<Rightarrow> Inl (external ''KeyError'')
      | Some names \<Rightarrow>
          if \<not> list_all (\<lambda>(name, p). name \<in> set names) params then Inl (refuse_type ''unexpected keyword argument'')
          else if key = ''ma_crossover'' then
            (let fast = parameter_or params ''fast_period'' (IntParam 10); slow = parameter_or params ''slow_period'' (IntParam 50)
             in if parameter_value fast \<ge> parameter_value slow then Inl (refuse ''fast_period must be < slow_period'')
                else rbind (deque_bound fast) (\<lambda>_. rbind (deque_bound slow) (\<lambda>_. Inr ())))
          else if key = ''breakout'' then
            rbind (deque_bound (parameter_or params ''lookback'' (IntParam 20))) (\<lambda>_. Inr ())
          else Inr ())"

record research_request =
  rsq_symbol :: string
  rsq_start :: int
  rsq_end :: int
  rsq_strategy_key :: string
  rsq_strategy_parameters :: "(string, parameter) dict"
  rsq_initial_capital :: real
  rsq_commission_pct :: real
  rsq_slippage_pct :: real
  rsq_visibility :: visibility

definition admit_request :: "research_request \<Rightarrow> exn + research_request" where
  "admit_request r =
     (if rsq_start r > rsq_end r then Inl (refuse ''start must not be after end'')
      else rbind (ten_years_after (rsq_start r)) (\<lambda>limit.
        if rsq_end r > limit then Inl (refuse ''date range must not exceed ten inclusive years'')
        else if rsq_initial_capital r \<le> 0 then Inl (refuse ''initial_capital must be positive'')
        else if rsq_commission_pct r < 0 \<or> rsq_slippage_pct r < 0
        then Inl (refuse ''commission_pct and slippage_pct must be non-negative'')
        else if map_of strategy_keywords (rsq_strategy_key r) = None then Inl (refuse ''unsupported strategy_key'')
        else (case construct_strategy (rsq_strategy_key r) (rsq_strategy_parameters r) of
            Inr _ \<Rightarrow> Inr r
          | Inl e \<Rightarrow> Inl (if is_type_error e \<or> is_value_error e then refuse ''unsupported strategy parameters'' else e))))"

definition request_names :: "string list" where
  "request_names = [''schema_version'', ''symbol'', ''start'', ''end'', ''strategy_key'', ''strategy_parameters'',
     ''initial_capital'', ''commission_pct'', ''slippage_pct'', ''visibility'']"

definition research_request_validate :: "iso_api \<Rightarrow> json \<Rightarrow> exn + research_request" where
  "research_request_validate fmt j = model request_names j
     (vpair (defaulted j ''schema_version'' SCHEMA_VERSION validate_schema_version)
     (vpair (required j ''symbol'' validate_symbol)
     (vpair (required j ''start'' (parse_cloud_date fmt))
     (vpair (required j ''end'' (parse_cloud_date fmt))
     (vpair (required j ''strategy_key'' strict_str)
     (vpair (defaulted j ''strategy_parameters'' [] admit_parameters)
     (vpair (defaulted j ''initial_capital'' 100000 finite_float)
     (vpair (defaulted j ''commission_pct'' (1 / 1000) finite_float)
     (vpair (defaulted j ''slippage_pct'' (5 / 10000) finite_float)
     (defaulted j ''visibility'' PRIVATE admit_visibility))))))))))
     (\<lambda>(version, symbol, start, end_date, key, params, capital, commission, slippage, vis). admit_request
        \<lparr>rsq_symbol = symbol, rsq_start = start, rsq_end = end_date, rsq_strategy_key = key, rsq_strategy_parameters = params,
         rsq_initial_capital = capital, rsq_commission_pct = commission, rsq_slippage_pct = slippage, rsq_visibility = vis\<rparr>)"

fun parameter_json :: "parameter \<Rightarrow> json" where
  "parameter_json (IntParam i) = JInt i"
| "parameter_json (FloatParam x) = JFloat (Fin x)"

definition request_payload :: "iso_api \<Rightarrow> research_request \<Rightarrow> json" where
  "request_payload fmt r = JObj
     [(''schema_version'', JStr SCHEMA_VERSION), (''symbol'', JStr (rsq_symbol r)),
      (''start'', JStr (date_text fmt (rsq_start r))), (''end'', JStr (date_text fmt (rsq_end r))),
      (''strategy_key'', JStr (rsq_strategy_key r)),
      (''strategy_parameters'', JObj (map (\<lambda>(name, p). (name, parameter_json p)) (rsq_strategy_parameters r))),
      (''initial_capital'', JFloat (Fin (rsq_initial_capital r))),
      (''commission_pct'', JFloat (Fin (rsq_commission_pct r))), (''slippage_pct'', JFloat (Fin (rsq_slippage_pct r))),
      (''visibility'', JStr (visibility_value (rsq_visibility r)))]"

section \<open>Datasets and run specifications\<close>

record dataset_ref =
  dsr_bucket :: string
  dsr_key :: string
  dsr_sha256 :: string
  dsr_manifest_key :: string
  dsr_manifest_sha256 :: string
  dsr_symbol :: string
  dsr_calendar :: string
  dsr_interval :: string
  dsr_start :: int
  dsr_end :: int
  dsr_acquisition_id :: string
  dsr_completed_at :: datetime

definition dataset_names :: "string list" where
  "dataset_names = [''schema_version'', ''bucket'', ''key'', ''sha256'', ''manifest_key'', ''manifest_sha256'', ''symbol'',
     ''calendar'', ''interval'', ''start'', ''end'', ''acquisition_id'', ''completed_at'']"

definition dataset_key_check :: "json \<Rightarrow> exn + string" where
  "dataset_key_check = validate_object_key ''datasets/v1/'' False"

definition admit_dataset :: "dataset_ref \<Rightarrow> exn + dataset_ref" where
  "admit_dataset d = (if dsr_start d > dsr_end d then Inl (refuse ''start must not be after end'') else Inr d)"

definition dataset_ref_validate :: "iso_api \<Rightarrow> json \<Rightarrow> exn + dataset_ref" where
  "dataset_ref_validate fmt j = model dataset_names j
     (vpair (defaulted j ''schema_version'' SCHEMA_VERSION validate_schema_version)
     (vpair (required j ''bucket'' validate_bucket)
     (vpair (required j ''key'' dataset_key_check)
     (vpair (required j ''sha256'' validate_sha256)
     (vpair (required j ''manifest_key'' dataset_key_check)
     (vpair (required j ''manifest_sha256'' validate_sha256)
     (vpair (required j ''symbol'' validate_symbol)
     (vpair (required j ''calendar'' strict_str)
     (vpair (required j ''interval'' strict_str)
     (vpair (required j ''start'' (parse_cloud_date fmt))
     (vpair (required j ''end'' (parse_cloud_date fmt))
     (vpair (required j ''acquisition_id'' strict_str)
     (required j ''completed_at'' (parse_utc_datetime fmt))))))))))))))
     (\<lambda>(version, bucket, key, h, manifest_key, manifest_h, symbol, calendar, interval, start, end_date, acquisition_id, completed).
        admit_dataset \<lparr>dsr_bucket = bucket, dsr_key = key, dsr_sha256 = h, dsr_manifest_key = manifest_key,
          dsr_manifest_sha256 = manifest_h, dsr_symbol = symbol, dsr_calendar = calendar, dsr_interval = interval,
          dsr_start = start, dsr_end = end_date, dsr_acquisition_id = acquisition_id, dsr_completed_at = completed\<rparr>)"

definition dataset_payload :: "iso_api \<Rightarrow> dataset_ref \<Rightarrow> json" where
  "dataset_payload fmt d = JObj
     [(''schema_version'', JStr SCHEMA_VERSION), (''bucket'', JStr (dsr_bucket d)), (''key'', JStr (dsr_key d)),
      (''sha256'', JStr (dsr_sha256 d)), (''manifest_key'', JStr (dsr_manifest_key d)),
      (''manifest_sha256'', JStr (dsr_manifest_sha256 d)), (''symbol'', JStr (dsr_symbol d)),
      (''calendar'', JStr (dsr_calendar d)), (''interval'', JStr (dsr_interval d)),
      (''start'', JStr (date_text fmt (dsr_start d))), (''end'', JStr (date_text fmt (dsr_end d))),
      (''acquisition_id'', JStr (dsr_acquisition_id d)), (''completed_at'', JStr (utc_text fmt (dsr_completed_at d)))]"

record run_spec =
  rsp_run_id :: string
  rsp_dataset :: dataset_ref
  rsp_request :: research_request
  rsp_image_digest :: string
  rsp_created_at :: datetime
  rsp_maximum_runtime_seconds :: int
  rsp_run_spec_key :: string
  rsp_result_prefix :: string

definition run_prefix :: "string \<Rightarrow> string" where
  "run_prefix run_id = ''runs/v1/'' @ run_id @ ''/''"

definition spec_names :: "string list" where
  "spec_names = [''schema_version'', ''run_id'', ''dataset'', ''request'', ''image_digest'', ''created_at'',
     ''maximum_runtime_seconds'', ''run_spec_key'', ''result_prefix'']"

definition run_key_check :: "json \<Rightarrow> exn + string" where
  "run_key_check = validate_object_key ''runs/v1/'' False"

definition run_prefix_check :: "json \<Rightarrow> exn + string" where
  "run_prefix_check = validate_object_key ''runs/v1/'' True"

definition admit_spec :: "run_spec \<Rightarrow> exn + run_spec" where
  "admit_spec r =
     (if rsp_maximum_runtime_seconds r \<le> 0 then Inl (refuse ''maximum_runtime_seconds must be positive'')
      else if rsp_result_prefix r \<noteq> run_prefix (rsp_run_id r) \<or>
          rsp_run_spec_key r \<noteq> run_prefix (rsp_run_id r) @ ''run-spec.json''
      then Inl (refuse ''run output locations must be derived from run_id'')
      else Inr r)"

definition run_spec_validate :: "iso_api \<Rightarrow> json \<Rightarrow> exn + run_spec" where
  "run_spec_validate fmt j = model spec_names j
     (vpair (defaulted j ''schema_version'' SCHEMA_VERSION validate_schema_version)
     (vpair (required j ''run_id'' validate_uuid)
     (vpair (required j ''dataset'' (dataset_ref_validate fmt))
     (vpair (required j ''request'' (research_request_validate fmt))
     (vpair (required j ''image_digest'' validate_image_digest)
     (vpair (required j ''created_at'' (parse_utc_datetime fmt))
     (vpair (defaulted j ''maximum_runtime_seconds'' 600 strict_int)
     (vpair (required j ''run_spec_key'' run_key_check)
     (required j ''result_prefix'' run_prefix_check)))))))))
     (\<lambda>(version, run_id, dataset, request, digest, created, runtime, key, result_prefix). admit_spec
        \<lparr>rsp_run_id = run_id, rsp_dataset = dataset, rsp_request = request, rsp_image_digest = digest,
         rsp_created_at = created, rsp_maximum_runtime_seconds = runtime, rsp_run_spec_key = key,
         rsp_result_prefix = result_prefix\<rparr>)"

definition run_spec_payload :: "iso_api \<Rightarrow> run_spec \<Rightarrow> json" where
  "run_spec_payload fmt r = JObj
     [(''schema_version'', JStr SCHEMA_VERSION), (''run_id'', JStr (rsp_run_id r)),
      (''dataset'', dataset_payload fmt (rsp_dataset r)), (''request'', request_payload fmt (rsp_request r)),
      (''image_digest'', JStr (rsp_image_digest r)), (''created_at'', JStr (utc_text fmt (rsp_created_at r))),
      (''maximum_runtime_seconds'', JInt (rsp_maximum_runtime_seconds r)),
      (''run_spec_key'', JStr (rsp_run_spec_key r)), (''result_prefix'', JStr (rsp_result_prefix r))]"

text \<open>\<open>RunSpec.create\<close>: the dataset and the request are models already, the time is aware; the other
  fields are checked as they are when the specification is read.\<close>

definition run_spec_create ::
    "research_request \<Rightarrow> dataset_ref \<Rightarrow> string \<Rightarrow> datetime \<Rightarrow> string \<Rightarrow> int \<Rightarrow> exn + run_spec" where
  "run_spec_create request dataset image_digest now run_id maximum_runtime_seconds =
     (let parts = vpair (validate_uuid (JStr run_id)) (vpair (validate_image_digest (JStr image_digest))
        (vpair (run_key_check (JStr (run_prefix run_id @ ''run-spec.json''))) (run_prefix_check (JStr (run_prefix run_id)))))
      in model [] (JObj []) parts (\<lambda>(i, digest, key, result_prefix). admit_spec
        \<lparr>rsp_run_id = i, rsp_dataset = dataset, rsp_request = request, rsp_image_digest = digest, rsp_created_at = now,
         rsp_maximum_runtime_seconds = maximum_runtime_seconds, rsp_run_spec_key = key, rsp_result_prefix = result_prefix\<rparr>))"

section \<open>Checksums\<close>

record artifact_digest =
  adg_name :: string
  adg_byte_length :: int
  adg_sha256 :: string

definition admit_artifact_name :: "json \<Rightarrow> exn + string" where
  "admit_artifact_name value = rbind (strict_str value) (\<lambda>s.
     if s \<in> set REQUIRED_ARTIFACTS then Inr s else Inl (refuse ''artifact name is not required''))"

definition admit_byte_length :: "json \<Rightarrow> exn + int" where
  "admit_byte_length value = rbind (strict_int value) (\<lambda>n.
     if n < 0 then Inl (refuse ''byte_length must be non-negative'') else Inr n)"

definition artifact_digest_validate :: "json \<Rightarrow> exn + artifact_digest" where
  "artifact_digest_validate j = model [''name'', ''byte_length'', ''sha256''] j
     (vpair (required j ''name'' admit_artifact_name)
     (vpair (required j ''byte_length'' admit_byte_length)
     (required j ''sha256'' validate_sha256)))
     (\<lambda>(name, n, h). Inr \<lparr>adg_name = name, adg_byte_length = n, adg_sha256 = h\<rparr>)"

text \<open>The elements of the array are validated in turn and their errors collected.\<close>

fun validate_all :: "(json \<Rightarrow> exn + 'a) \<Rightarrow> json list \<Rightarrow> exn + 'a list" where
  "validate_all check [] = Inr []"
| "validate_all check (j # js) =
     (case vpair (check j) (validate_all check js) of Inl e \<Rightarrow> Inl e | Inr (x, xs) \<Rightarrow> Inr (x # xs))"

definition admit_artifacts :: "json \<Rightarrow> exn + artifact_digest list" where
  "admit_artifacts value = (case value of
     JList js \<Rightarrow> validate_all artifact_digest_validate js
   | _ \<Rightarrow> Inl (refuse_type ''artifacts must be an array''))"

definition require_exact_artifacts :: "artifact_digest list \<Rightarrow> exn + artifact_digest list" where
  "require_exact_artifacts artifacts =
     (if \<not> distinct (map adg_name artifacts) \<or> set (map adg_name artifacts) \<noteq> set REQUIRED_ARTIFACTS
      then Inl (refuse ''checksums must contain every required artifact exactly once'') else Inr artifacts)"

definition checksums_validate :: "json \<Rightarrow> exn + artifact_digest list" where
  "checksums_validate j = model [''schema_version'', ''artifacts''] j
     (vpair (defaulted j ''schema_version'' SCHEMA_VERSION validate_schema_version) (required j ''artifacts'' admit_artifacts))
     (\<lambda>(version, artifacts). require_exact_artifacts artifacts)"

definition checksums_payload :: "artifact_digest list \<Rightarrow> json" where
  "checksums_payload artifacts = JObj
     [(''schema_version'', JStr SCHEMA_VERSION),
      (''artifacts'', JList (map (\<lambda>a. JObj [(''name'', JStr (adg_name a)), (''byte_length'', JInt (adg_byte_length a)),
        (''sha256'', JStr (adg_sha256 a))]) artifacts))]"

section \<open>Run records\<close>

record run_record =
  rrc_run_id :: string
  rrc_status :: run_status
  rrc_visibility :: visibility
  rrc_dataset_key :: string
  rrc_dataset_sha256 :: string
  rrc_run_spec_key :: string
  rrc_result_prefix :: string
  rrc_image_digest :: string
  rrc_created_at :: datetime
  rrc_started_at :: "datetime option"
  rrc_completed_at :: "datetime option"
  rrc_failure_code :: "failure_code option"
  rrc_expires_at :: int

definition admit_timestamp :: "iso_api \<Rightarrow> json \<Rightarrow> exn + datetime option" where
  "admit_timestamp fmt value = (case value of
     JNull \<Rightarrow> Inr None | _ \<Rightarrow> rbind (parse_utc_datetime fmt value) (\<lambda>t. Inr (Some t)))"

definition admit_created_at :: "iso_api \<Rightarrow> json \<Rightarrow> exn + datetime" where
  "admit_created_at fmt value = rbind (admit_timestamp fmt value) (\<lambda>t.
     case t of Some t \<Rightarrow> Inr t | None \<Rightarrow> Inl validation_error)"

definition admit_failure_code :: "json \<Rightarrow> exn + failure_code option" where
  "admit_failure_code value = (case value of
     JNull \<Rightarrow> Inr None | _ \<Rightarrow> rbind (admit_enum failure_code_value all_codes value) (\<lambda>c. Inr (Some c)))"

definition admit_record :: "run_record \<Rightarrow> exn + run_record" where
  "admit_record r =
     (if rrc_expires_at r < 0 then Inl (refuse ''expires_at must be a non-negative epoch second'')
      else if rrc_result_prefix r \<noteq> run_prefix (rrc_run_id r) \<or>
          rrc_run_spec_key r \<noteq> run_prefix (rrc_run_id r) @ ''run-spec.json''
      then Inl (refuse ''run output locations must be derived from run_id'')
      else if rrc_status r = RUN_FAILED \<and> rrc_failure_code r = None then Inl (refuse ''failed records require a failure_code'')
      else if rrc_status r \<noteq> RUN_FAILED \<and> rrc_failure_code r \<noteq> None
      then Inl (refuse ''only failed records may contain a failure_code'')
      else Inr r)"

definition record_names :: "string list" where
  "record_names = [''run_id'', ''status'', ''visibility'', ''dataset_key'', ''dataset_sha256'', ''run_spec_key'',
     ''result_prefix'', ''image_digest'', ''created_at'', ''started_at'', ''completed_at'', ''failure_code'', ''expires_at'']"

definition run_record_validate :: "iso_api \<Rightarrow> json \<Rightarrow> exn + run_record" where
  "run_record_validate fmt j = model record_names j
     (vpair (required j ''run_id'' validate_uuid)
     (vpair (required j ''status'' (admit_enum run_status_value all_statuses))
     (vpair (required j ''visibility'' admit_visibility)
     (vpair (required j ''dataset_key'' dataset_key_check)
     (vpair (required j ''dataset_sha256'' validate_sha256)
     (vpair (required j ''run_spec_key'' run_key_check)
     (vpair (required j ''result_prefix'' run_prefix_check)
     (vpair (required j ''image_digest'' validate_image_digest)
     (vpair (required j ''created_at'' (admit_created_at fmt))
     (vpair (defaulted j ''started_at'' None (admit_timestamp fmt))
     (vpair (defaulted j ''completed_at'' None (admit_timestamp fmt))
     (vpair (defaulted j ''failure_code'' None admit_failure_code)
     (required j ''expires_at'' strict_int)))))))))))))
     (\<lambda>(run_id, status, vis, dataset_key, dataset_h, spec_key, result_prefix, digest, created, started, completed, code, expires).
        admit_record \<lparr>rrc_run_id = run_id, rrc_status = status, rrc_visibility = vis, rrc_dataset_key = dataset_key,
          rrc_dataset_sha256 = dataset_h, rrc_run_spec_key = spec_key, rrc_result_prefix = result_prefix,
          rrc_image_digest = digest, rrc_created_at = created, rrc_started_at = started, rrc_completed_at = completed,
          rrc_failure_code = code, rrc_expires_at = expires\<rparr>)"

text \<open>\<open>model_dump(mode="json", exclude_none=True)\<close>; pydantic writes a UTC time with \<open>Z\<close>.\<close>

definition opt_member :: "string \<Rightarrow> ('a \<Rightarrow> json) \<Rightarrow> 'a option \<Rightarrow> (string \<times> json) list" where
  "opt_member name f v = (case v of None \<Rightarrow> [] | Some x \<Rightarrow> [(name, f x)])"

definition run_record_dump :: "iso_api \<Rightarrow> run_record \<Rightarrow> (string \<times> json) list" where
  "run_record_dump fmt r =
     [(''run_id'', JStr (rrc_run_id r)), (''status'', JStr (run_status_value (rrc_status r))),
      (''visibility'', JStr (visibility_value (rrc_visibility r))), (''dataset_key'', JStr (rrc_dataset_key r)),
      (''dataset_sha256'', JStr (rrc_dataset_sha256 r)), (''run_spec_key'', JStr (rrc_run_spec_key r)),
      (''result_prefix'', JStr (rrc_result_prefix r)), (''image_digest'', JStr (rrc_image_digest r)),
      (''created_at'', JStr (utc_text fmt (rrc_created_at r)))] @
     opt_member ''started_at'' (\<lambda>t. JStr (utc_text fmt t)) (rrc_started_at r) @
     opt_member ''completed_at'' (\<lambda>t. JStr (utc_text fmt t)) (rrc_completed_at r) @
     opt_member ''failure_code'' (\<lambda>c. JStr (failure_code_value c)) (rrc_failure_code r) @
     [(''expires_at'', JInt (rrc_expires_at r))]"

section \<open>Valid models\<close>

lemma vpair_Inr [simp]: "vpair r q = Inr (a, b) \<longleftrightarrow> r = Inr a \<and> q = Inr b"
  by (auto simp: vpair_def split: sum.splits)

lemma vpair_Inr_pair [simp]: "vpair (Inr a) (Inr b) = Inr (a, b)"
  by simp

lemma model_Inr: "model names j parts check = Inr y \<longleftrightarrow>
    members j \<noteq> None \<and> jkeys j \<subseteq> set names \<and> (\<exists>x. parts = Inr x \<and> check x = Inr y)"
  by (auto simp: model_def split: sum.splits if_splits)

lemma required_Inr: "required j name check = Inr x \<longleftrightarrow> name \<in> jkeys j \<and> check (jget j name) = Inr x"
  by (auto simp: required_def)

text \<open>The times of a contract are written with \<open>Z\<close> and read back.\<close>

definition utc_ok :: "iso_api \<Rightarrow> bool" where
  "utc_ok fmt \<longleftrightarrow> iso_ok fmt \<and>
     (\<forall>t. \<exists>p. iso_text fmt t = p @ ''+00:00'' \<and> CHR ''+'' \<notin> set p \<and> CHR ''Z'' \<notin> set p)"

lemma replace_absent: "CHR ''+'' \<notin> set p \<Longrightarrow> replace_all ''+00:00'' r (p @ ''+00:00'') = p @ r"
  by (induction p) auto

lemma replace_z: "CHR ''Z'' \<notin> set p \<Longrightarrow> replace_all ''Z'' r (p @ ''Z'') = p @ r"
  by (induction p) auto

lemma utc_roundtrip [simp]: "utc_ok fmt \<Longrightarrow> parse_utc_datetime fmt (JStr (utc_text fmt t)) = Inr t"
proof -
  assume ok: "utc_ok fmt"
  then obtain p where p: "iso_text fmt t = p @ ''+00:00''" "CHR ''+'' \<notin> set p" "CHR ''Z'' \<notin> set p"
    by (auto simp: utc_ok_def)
  then have "replace_all ''Z'' ''+00:00'' (utc_text fmt t) = iso_text fmt t"
    by (simp add: utc_text_def replace_absent replace_z)
  moreover have "iso_parse fmt (iso_text fmt t) = Some (t, Some 0)" using ok by (simp add: utc_ok_def iso_ok_def)
  ultimately show ?thesis by (simp add: parse_utc_datetime_def)
qed

lemma date_roundtrip [simp]: "utc_ok fmt \<Longrightarrow> parse_cloud_date fmt (JStr (date_text fmt d)) = Inr d"
  by (simp add: parse_cloud_date_def utc_ok_def iso_ok_def)

lemma validator_Inr:
  "validate_schema_version value = Inr s \<Longrightarrow> value = JStr SCHEMA_VERSION \<and> s = SCHEMA_VERSION"
  "validate_sha256 value = Inr s \<Longrightarrow> value = JStr s"
  "validate_image_digest value = Inr s \<Longrightarrow> value = JStr s"
  "validate_uuid value = Inr s \<Longrightarrow> value = JStr s"
  "validate_object_key p b value = Inr s \<Longrightarrow> value = JStr s"
  "validate_bucket value = Inr s \<Longrightarrow> value = JStr s"
  "strict_str value = Inr s \<Longrightarrow> value = JStr s"
  by (auto simp: validate_schema_version_def validate_sha256_def is_sha256_def validate_image_digest_def validate_uuid_def
      validate_object_key_def validate_bucket_def strict_str_def result_simps split: json.splits if_splits)

lemma validate_symbol_idem: "validate_symbol value = Inr s \<Longrightarrow> validate_symbol (JStr s) = Inr s"
  by (auto simp: validate_symbol_def Let_def symbol_normal split: json.splits if_splits)

lemma admit_enum_value [simp]:
  "admit_visibility (JStr (visibility_value v)) = Inr v"
  "admit_enum run_status_value all_statuses (JStr (run_status_value s)) = Inr s"
  "admit_enum failure_code_value all_codes (JStr (failure_code_value c)) = Inr c"
proof -
  show "admit_visibility (JStr (visibility_value v)) = Inr v" by (cases v) (simp_all add: admit_enum_def enum_member_def)
  show "admit_enum run_status_value all_statuses (JStr (run_status_value s)) = Inr s"
    by (cases s) (simp_all add: admit_enum_def enum_member_def)
  show "admit_enum failure_code_value all_codes (JStr (failure_code_value c)) = Inr c"
    by (cases c) (simp_all add: admit_enum_def enum_member_def)
qed

section \<open>Specifications survive their documents\<close>

definition parameter_ok :: "string \<times> parameter \<Rightarrow> bool" where
  "parameter_ok = (\<lambda>(name, p). name \<noteq> [] \<and> (case p of IntParam i \<Rightarrow> \<not> float_overflows i | FloatParam _ \<Rightarrow> True))"

definition request_ok :: "research_request \<Rightarrow> bool" where
  "request_ok r \<longleftrightarrow> symbol_pattern (rsq_symbol r) \<and> length (rsq_strategy_parameters r) \<le> 16 \<and>
     list_all parameter_ok (rsq_strategy_parameters r) \<and> admit_request r = Inr r"

lemma insort_key_map:
  "insort_key fst (k, g v) (map (\<lambda>(k, v). (k, g v)) xs) = map (\<lambda>(k, v). (k, g v)) (insort_key fst (k, v) xs)"
  by (induction xs) auto

lemma sort_key_map: "sort_key fst (map (\<lambda>(k, v). (k, g v)) xs) = map (\<lambda>(k, v). (k, g v)) (sort_key fst xs)"
  by (induction xs) (auto simp: insort_key_map)

lemma admit_parameter_json: "parameter_ok (name, p) \<Longrightarrow> admit_parameter (name, parameter_json p) = Inr (name, p)"
  by (cases p) (auto simp: admit_parameter_def parameter_ok_def)

lemma admit_parameters_json:
  assumes "length params \<le> 16" and "list_all parameter_ok params"
  shows "admit_parameters (JObj (map (\<lambda>(name, p). (name, parameter_json p)) params)) = Inr params"
proof -
  have types: "\<not> list_ex (\<lambda>(key, v). case v of JInt _ \<Rightarrow> False | JFloat _ \<Rightarrow> False | _ \<Rightarrow> True)
      (map (\<lambda>(name, p). (name, parameter_json p)) params)"
    unfolding list_ex_iff by (auto elim: parameter_json.elims split: json.splits)
  have "map_result admit_parameter (map (\<lambda>(name, p). (name, parameter_json p)) params) = Inr params"
    using assms(2) by (auto simp: map_result_Inr list_all2_conv_all_nth list_all_length split_beta
        intro!: admit_parameter_json [of "fst x" "snd x" for x, simplified])
  with types assms(1) show ?thesis by (simp add: admit_parameters_def)
qed

lemma admit_parameter_ok: "admit_parameter (name, j) = Inr (name', p) \<Longrightarrow> name' = name \<and> parameter_ok (name, p)"
  by (auto simp: admit_parameter_def parameter_ok_def split: if_splits json.splits xfloat.splits)

lemma admit_parameters_ok:
  assumes "admit_parameters value = Inr params"
  shows "length params \<le> 16" and "list_all parameter_ok params"
proof -
  from assms obtain kvs where kvs: "length kvs \<le> 16" "map_result admit_parameter kvs = Inr params"
    by (auto simp: admit_parameters_def not_less split: json.splits if_splits)
  then have all: "list_all2 (\<lambda>x y. admit_parameter x = Inr y) kvs params" by (simp add: map_result_Inr)
  then show "length params \<le> 16" using kvs(1) by (simp add: list_all2_lengthD)
  show "list_all parameter_ok params"
    using all by (auto simp: list_all2_conv_all_nth list_all_length)
      (metis admit_parameter_ok prod.collapse)
qed

lemma admit_request_same: "admit_request r = Inr r' \<Longrightarrow> r' = r"
  by (auto simp: admit_request_def result_simps split: if_splits sum.splits)

lemma request_validated:
  assumes "research_request_validate fmt j = Inr r"
  shows "request_ok r"
proof -
  let ?params = "defaulted j ''strategy_parameters'' [] admit_parameters"
  from assms obtain r0 where "admit_request r0 = Inr r" "required j ''symbol'' validate_symbol = Inr (rsq_symbol r0)"
      "?params = Inr (rsq_strategy_parameters r0)"
    unfolding research_request_validate_def model_Inr by fastforce
  moreover from this(1) have "r0 = r" by (blast dest: admit_request_same)
  moreover have "symbol_pattern s" if "validate_symbol v = Inr s" for v s
    using that by (auto simp: validate_symbol_def Let_def split: json.splits if_splits)
  ultimately show ?thesis
    using admit_parameters_ok [of "jget j ''strategy_parameters''"]
    by (auto simp: request_ok_def required_Inr defaulted_def split: if_splits)
qed

definition sorted_request :: "research_request \<Rightarrow> research_request" where
  "sorted_request r = r\<lparr>rsq_strategy_parameters := sort_key fst (rsq_strategy_parameters r)\<rparr>"

lemma payload_valid:
  assumes "utc_ok fmt" and "request_ok r"
  shows "research_request_validate fmt (request_payload fmt r) = Inr r"
proof -
  have "validate_symbol (JStr (rsq_symbol r)) = Inr (rsq_symbol r)"
    using assms(2) by (simp add: validate_symbol_def request_ok_def symbol_normal Let_def)
  moreover have "admit_parameters (JObj (map (\<lambda>(name, p). (name, parameter_json p)) (rsq_strategy_parameters r)))
      = Inr (rsq_strategy_parameters r)"
    using assms(2) by (intro admit_parameters_json) (auto simp: request_ok_def)
  ultimately show ?thesis using assms
    unfolding research_request_validate_def model_Inr
    by (cases r) (simp add: request_payload_def request_names_def required_def defaulted_def validate_schema_version_def strict_str_def
        finite_float_def strict_float_def request_ok_def)
qed

lemma construct_strategy_sorted: "construct_strategy key (sort_key fst params) = construct_strategy key params"
  by (simp add: construct_strategy_def parameter_or_def dict_get_def list_all_iff split: option.split)

lemma sorted_request_ok: "request_ok r \<Longrightarrow> request_ok (sorted_request r)"
  by (auto simp: request_ok_def sorted_request_def admit_request_def construct_strategy_sorted result_simps list_all_iff
      split: if_splits sum.splits)

lemma parameter_json_sorted: "json_sorted (parameter_json p) = parameter_json p"
  by (cases p) auto

lemma request_sorted: "json_sorted (request_payload fmt r) = json_sorted (request_payload fmt (sorted_request r))"
proof -
  let ?f = "\<lambda>(name, p). (name, parameter_json p)"
  have same: "(\<lambda>(k, v). (k, json_sorted v)) \<circ> ?f = ?f" by (auto simp: parameter_json_sorted)
  have "sort_key fst (sort_key fst ps) = sort_key fst ps" for ps :: "(string \<times> parameter) list"
    by (rule sort_key_id_if_sorted) (rule sorted_sort_key)
  then have "json_sorted (JObj (map ?f (sort_key fst ps))) = json_sorted (JObj (map ?f ps))" for ps
    by (simp add: same sort_key_map)
  then show ?thesis by (simp add: request_payload_def sorted_request_def)
qed

lemma parameter_json_same: "(\<lambda>(k, v). (k, json_sorted v)) \<circ> (\<lambda>(name, p). (name, parameter_json p)) = (\<lambda>(name, p). (name, parameter_json p))"
  by (auto simp: parameter_json_sorted)

lemma sorted_payload_valid:
  assumes "utc_ok fmt" and "request_ok r"
  shows "research_request_validate fmt (json_sorted (request_payload fmt r)) = Inr (sorted_request r)"
proof -
  note ok = sorted_request_ok [OF assms(2)]
  have "validate_symbol (JStr (rsq_symbol r)) = Inr (rsq_symbol r)"
    using assms(2) by (simp add: validate_symbol_def request_ok_def symbol_normal Let_def)
  moreover have "json_sorted (JObj (map (\<lambda>(name, p). (name, parameter_json p)) (rsq_strategy_parameters r)))
      = JObj (map (\<lambda>(name, p). (name, parameter_json p)) (rsq_strategy_parameters (sorted_request r)))"
    by (simp add: sorted_request_def sort_key_map [symmetric] parameter_json_same)
  moreover have "admit_parameters (JObj (map (\<lambda>(name, p). (name, parameter_json p)) (rsq_strategy_parameters (sorted_request r))))
      = Inr (rsq_strategy_parameters (sorted_request r))"
    using ok by (intro admit_parameters_json) (auto simp: request_ok_def)
  ultimately show ?thesis using assms ok
    unfolding research_request_validate_def model_Inr jget_sorted jkeys_sorted members_sorted
    by (cases r) (simp add: request_payload_def request_names_def required_def defaulted_def validate_schema_version_def strict_str_def
        finite_float_def strict_float_def request_ok_def sorted_request_def del: json_sorted.simps(1))
qed

definition dataset_ok :: "dataset_ref \<Rightarrow> bool" where
  "dataset_ok d \<longleftrightarrow> validate_bucket (JStr (dsr_bucket d)) = Inr (dsr_bucket d) \<and>
     dataset_key_check (JStr (dsr_key d)) = Inr (dsr_key d) \<and> validate_sha256 (JStr (dsr_sha256 d)) = Inr (dsr_sha256 d) \<and>
     dataset_key_check (JStr (dsr_manifest_key d)) = Inr (dsr_manifest_key d) \<and>
     validate_sha256 (JStr (dsr_manifest_sha256 d)) = Inr (dsr_manifest_sha256 d) \<and>
     validate_symbol (JStr (dsr_symbol d)) = Inr (dsr_symbol d) \<and> dsr_start d \<le> dsr_end d"

lemma dataset_validated:
  assumes "dataset_ref_validate fmt j = Inr d"
  shows "dataset_ok d"
proof -
  from assms obtain d0 where d0: "admit_dataset d0 = Inr d" "required j ''bucket'' validate_bucket = Inr (dsr_bucket d0)"
      "required j ''key'' dataset_key_check = Inr (dsr_key d0)" "required j ''sha256'' validate_sha256 = Inr (dsr_sha256 d0)"
      "required j ''manifest_key'' dataset_key_check = Inr (dsr_manifest_key d0)"
      "required j ''manifest_sha256'' validate_sha256 = Inr (dsr_manifest_sha256 d0)"
      "required j ''symbol'' validate_symbol = Inr (dsr_symbol d0)"
    unfolding dataset_ref_validate_def model_Inr by fastforce
  moreover from d0(1) have "d0 = d" "dsr_start d \<le> dsr_end d" by (auto simp: admit_dataset_def split: if_splits)
  ultimately show ?thesis
    unfolding required_Inr dataset_ok_def dataset_key_check_def
    by (metis validator_Inr(2,5,6) validate_symbol_idem)
qed

lemma dataset_payload_valid:
  assumes "utc_ok fmt" and "dataset_ok d"
  shows "dataset_ref_validate fmt (dataset_payload fmt d) = Inr d"
    and "dataset_ref_validate fmt (json_sorted (dataset_payload fmt d)) = Inr d"
proof -
  note defs = dataset_ref_validate_def model_Inr jget_sorted jkeys_sorted members_sorted
  show "dataset_ref_validate fmt (dataset_payload fmt d) = Inr d"
    using assms unfolding defs
    by (cases d) (simp add: dataset_payload_def dataset_names_def required_def defaulted_def validate_schema_version_def strict_str_def
        dataset_ok_def admit_dataset_def)
  show "dataset_ref_validate fmt (json_sorted (dataset_payload fmt d)) = Inr d"
    using assms unfolding defs
    by (cases d) (simp add: dataset_payload_def dataset_names_def required_def defaulted_def validate_schema_version_def strict_str_def
        dataset_ok_def admit_dataset_def)
qed

lemma run_spec_create_Inr:
  assumes "run_spec_create request dataset image_digest now run_id runtime = Inr spec"
  shows "validate_uuid (JStr run_id) = Inr run_id" "validate_image_digest (JStr image_digest) = Inr image_digest"
    "run_key_check (JStr (run_prefix run_id @ ''run-spec.json'')) = Inr (run_prefix run_id @ ''run-spec.json'')"
    "run_prefix_check (JStr (run_prefix run_id)) = Inr (run_prefix run_id)" "0 < runtime"
    "spec = \<lparr>rsp_run_id = run_id, rsp_dataset = dataset, rsp_request = request, rsp_image_digest = image_digest,
       rsp_created_at = now, rsp_maximum_runtime_seconds = runtime, rsp_run_spec_key = run_prefix run_id @ ''run-spec.json'',
       rsp_result_prefix = run_prefix run_id\<rparr>"
proof -
  from assms obtain i digest key p where parts: "validate_uuid (JStr run_id) = Inr i" "validate_image_digest (JStr image_digest) = Inr digest"
      "run_key_check (JStr (run_prefix run_id @ ''run-spec.json'')) = Inr key" "run_prefix_check (JStr (run_prefix run_id)) = Inr p"
      and adm: "admit_spec \<lparr>rsp_run_id = i, rsp_dataset = dataset, rsp_request = request, rsp_image_digest = digest, rsp_created_at = now,
         rsp_maximum_runtime_seconds = runtime, rsp_run_spec_key = key, rsp_result_prefix = p\<rparr> = Inr spec"
    unfolding run_spec_create_def Let_def model_Inr by auto
  have "i = run_id" "digest = image_digest" "key = run_prefix run_id @ ''run-spec.json''" "p = run_prefix run_id"
    using parts validator_Inr(3,4,5) unfolding run_key_check_def run_prefix_check_def by (metis json.inject(4))+
  with parts adm show "validate_uuid (JStr run_id) = Inr run_id" "validate_image_digest (JStr image_digest) = Inr image_digest"
    "run_key_check (JStr (run_prefix run_id @ ''run-spec.json'')) = Inr (run_prefix run_id @ ''run-spec.json'')"
    "run_prefix_check (JStr (run_prefix run_id)) = Inr (run_prefix run_id)" "0 < runtime"
    "spec = \<lparr>rsp_run_id = run_id, rsp_dataset = dataset, rsp_request = request, rsp_image_digest = image_digest,
       rsp_created_at = now, rsp_maximum_runtime_seconds = runtime, rsp_run_spec_key = run_prefix run_id @ ''run-spec.json'',
       rsp_result_prefix = run_prefix run_id\<rparr>"
    by (auto simp: admit_spec_def split: if_splits)
qed

text \<open>What the worker reads back is the specification with the parameters in the order of their names.\<close>

definition sorted_spec :: "run_spec \<Rightarrow> run_spec" where
  "sorted_spec spec = spec\<lparr>rsp_request := sorted_request (rsp_request spec)\<rparr>"

lemma sorted_run_spec_valid:
  assumes fmt: "utc_ok fmt" and request: "request_ok request" and dataset: "dataset_ok dataset"
    and create: "run_spec_create request dataset image_digest now run_id runtime = Inr spec"
  shows "run_spec_validate fmt (json_sorted (run_spec_payload fmt spec)) = Inr (sorted_spec spec)"
proof -
  note c = run_spec_create_Inr [OF create]
  show ?thesis
    using c(1-5) sorted_payload_valid [OF fmt request] dataset_payload_valid(2) [OF fmt dataset] fmt
    unfolding run_spec_validate_def model_Inr jget_sorted jkeys_sorted members_sorted c(6)
    by (simp add: run_spec_payload_def spec_names_def required_def defaulted_def validate_schema_version_def strict_str_def
        strict_int_def admit_spec_def sorted_spec_def)
qed

lemma sorted_spec_payload: "json_sorted (run_spec_payload fmt (sorted_spec spec)) = json_sorted (run_spec_payload fmt spec)"
  using request_sorted [of fmt "rsp_request spec"] by (simp add: run_spec_payload_def sorted_spec_def)

lemma split_slash_word: "CHR ''/'' \<notin> set w \<Longrightarrow> split_slash w = [w]"
  by (induction w) auto

lemma split_slash_append: "CHR ''/'' \<notin> set w \<Longrightarrow> split_slash (w @ CHR ''/'' # s) = w # split_slash s"
  by (induction w) auto

lemma uuid_chars:
  assumes "canonical_uuid s" and "c \<in> set s"
  shows "is_hex c \<or> c = CHR ''-''"
proof -
  from assms(2) obtain i where i: "i < length s" "s ! i = c" by (auto simp: in_set_conv_nth)
  from assms(1) have "length s = 36" and
      all: "\<forall>i\<in>{0..<36}. if i \<in> {8, 13, 18, 23} then s ! i = CHR ''-'' else is_hex (s ! i)"
    unfolding canonical_uuid_def list_all_iff set_upt by blast+
  with i(1) have "i \<in> {0..<36}" by simp
  with all have "if i \<in> {8, 13, 18, 23} then s ! i = CHR ''-'' else is_hex (s ! i)" by blast
  with i(2) show ?thesis by (metis (full_types))
qed

lemma uuid_safe:
  assumes "canonical_uuid s"
  shows "CHR ''/'' \<notin> set s" "CHR 0x5C \<notin> set s" "\<not> list_ex is_control s" "length s = 36"
proof -
  show "CHR ''/'' \<notin> set s" using uuid_chars [OF assms, of "CHR ''/''"] by (auto simp: is_hex_def)
  show "CHR 0x5C \<notin> set s" using uuid_chars [OF assms, of "CHR 0x5C"] by (auto simp: is_hex_def)
  have "\<not> is_control c" if "c \<in> set s" for c
    using uuid_chars [OF assms that] by (auto simp: is_hex_def is_control_def Let_def)
  then show "\<not> list_ex is_control s" by (simp add: list_ex_iff)
  show "length s = 36" using assms by (simp add: canonical_uuid_def)
qed

text \<open>The locations of a run are admissible keys.\<close>

lemma run_prefix_cases: "run_prefix run_id @ s = ''runs'' @ CHR ''/'' # ''v1'' @ CHR ''/'' # run_id @ CHR ''/'' # s"
  by (simp add: run_prefix_def)

lemma run_components:
  assumes "canonical_uuid run_id"
  shows "split_slash (run_prefix run_id @ s) = [''runs'', ''v1'', run_id] @ split_slash s"
proof -
  have "split_slash (run_prefix run_id @ s) = ''runs'' # split_slash (''v1'' @ CHR ''/'' # run_id @ CHR ''/'' # s)"
    unfolding run_prefix_cases by (rule split_slash_append) simp
  also have "split_slash (''v1'' @ CHR ''/'' # run_id @ CHR ''/'' # s) = ''v1'' # split_slash (run_id @ CHR ''/'' # s)"
    by (rule split_slash_append) simp
  also have "split_slash (run_id @ CHR ''/'' # s) = run_id # split_slash s"
    by (rule split_slash_append) (rule uuid_safe(1) [OF assms])
  finally show ?thesis by simp
qed

lemma object_key_ok:
  assumes "canonical_uuid run_id" and "\<not> list_ex is_control name" and "CHR 0x5C \<notin> set name" and "length name \<le> 900"
    and "key_components (run_prefix run_id @ name) slash = [''runs'', ''v1'', run_id] @ ws"
    and "list_all (\<lambda>w. w \<notin> {[], ''.'', ''..''}) ws"
  shows "validate_object_key ''runs/v1/'' slash (JStr (run_prefix run_id @ name)) = Inr (run_prefix run_id @ name)"
proof -
  note u = uuid_safe [OF assms(1)]
  have start: "take (length ''runs/v1/'') (run_prefix run_id @ name) = ''runs/v1/''" by (simp add: run_prefix_def)
  have size: "\<not> length (run_prefix run_id @ name) > 1024" using u(4) assms(4) by (simp add: run_prefix_def)
  have chars: "\<not> (CHR 0x5C \<in> set (run_prefix run_id @ name) \<or> list_ex is_control (run_prefix run_id @ name))"
    using u(2,3) assms(2,3) by (simp add: run_prefix_def is_control_def)
  have "run_id \<notin> {[], ''.'', ''..''}" using u(4) by auto
  then have parts: "\<not> (key_components (run_prefix run_id @ name) slash = [] \<or>
      list_ex (\<lambda>c. c \<in> {[], ''.'', ''..''}) (key_components (run_prefix run_id @ name) slash))"
    using assms(6) unfolding assms(5) by (auto simp: list_ex_iff list_all_iff)
  show ?thesis unfolding validate_object_key_def json.case if_not_P [OF parts] if_not_P [OF chars]
    using start size by simp
qed

lemma run_key_ok:
  assumes "canonical_uuid run_id" and "CHR ''/'' \<notin> set name" and "name \<notin> {[], ''.'', ''..''}" and "length name \<le> 900"
    and "CHR 0x5C \<notin> set name" and "\<not> list_ex is_control name"
  shows "run_key_check (JStr (run_prefix run_id @ name)) = Inr (run_prefix run_id @ name)"
  unfolding run_key_check_def
  by (rule object_key_ok [where ws = "[name]"])
    (use assms in \<open>simp_all add: key_components_def run_components split_slash_word\<close>)

lemma run_prefix_ok:
  assumes "canonical_uuid run_id"
  shows "run_prefix_check (JStr (run_prefix run_id)) = Inr (run_prefix run_id)"
  using object_key_ok [where ws = "[]" and name = "[]" and slash = True, OF assms] run_components [OF assms, of "[]"]
  by (simp add: run_prefix_check_def key_components_def)

lemma run_spec_create_iff:
  "(\<exists>spec. run_spec_create request dataset image_digest now run_id runtime = Inr spec) \<longleftrightarrow>
      canonical_uuid run_id \<and> validate_image_digest (JStr image_digest) = Inr image_digest \<and> 0 < runtime"
proof
  assume "\<exists>spec. run_spec_create request dataset image_digest now run_id runtime = Inr spec"
  then show "canonical_uuid run_id \<and> validate_image_digest (JStr image_digest) = Inr image_digest \<and> 0 < runtime"
    using run_spec_create_Inr(1,2,5) by (fastforce simp: validate_uuid_def split: if_splits)
next
  assume ok: "canonical_uuid run_id \<and> validate_image_digest (JStr image_digest) = Inr image_digest \<and> 0 < runtime"
  have "run_key_check (JStr (run_prefix run_id @ ''run-spec.json'')) = Inr (run_prefix run_id @ ''run-spec.json'')"
    by (rule run_key_ok) (use ok in \<open>auto simp: is_control_def\<close>)
  with ok run_prefix_ok show "\<exists>spec. run_spec_create request dataset image_digest now run_id runtime = Inr spec"
    unfolding run_spec_create_def Let_def model_Inr by (simp add: validate_uuid_def admit_spec_def)
qed

text \<open>C33: a run specification survives its document. From a request and a dataset that were admitted,
  the specification is created exactly if its identifier is canonical, its image digest is pinned and
  its runtime positive; read back from its canonical document it is the same specification, with
  the strategy's parameters in the order of their names, and has the same canonical document.\<close>

theorem run_spec_document_roundtrip:
  assumes "utc_ok fmt" and "research_request_validate fmt j = Inr request" and "dataset_ref_validate fmt k = Inr dataset"
  shows "((\<exists>spec. run_spec_create request dataset image_digest now run_id runtime = Inr spec) \<longleftrightarrow>
      canonical_uuid run_id \<and> validate_image_digest (JStr image_digest) = Inr image_digest \<and> 0 < runtime) \<and>
    (\<forall>spec. run_spec_create request dataset image_digest now run_id runtime = Inr spec \<longrightarrow>
      run_spec_validate fmt (json_sorted (run_spec_payload fmt spec)) = Inr (sorted_spec spec) \<and>
      json_sorted (run_spec_payload fmt (sorted_spec spec)) = json_sorted (run_spec_payload fmt spec))"
  using sorted_run_spec_valid [OF assms(1) request_validated [OF assms(2)] dataset_validated [OF assms(3)]]
    sorted_spec_payload run_spec_create_iff by blast

text \<open>A format of times and dates, with which the contracts can be run.\<close>

definition demo_utc_text :: "int \<Rightarrow> string" where
  "demo_utc_text n = ((if n < 0 then CHR ''-'' else CHR ''P'') # nat_str (nat \<bar>n\<bar>)) @ ''+00:00''"

definition demo_utc :: iso_api where
  "demo_utc = \<lparr>iso_text = demo_utc_text,
     iso_parse = (\<lambda>s. map_option (\<lambda>n. (n, Some 0)) (int_parse (take (length s - 6) s))),
     date_text = int_text, date_parse = int_parse\<rparr>"

lemma nat_str_digits: "c \<in> set (nat_str n) \<Longrightarrow> 48 \<le> (of_char c :: nat) \<and> (of_char c :: nat) \<le> 57"
proof (induction n rule: nat_str.induct)
  case (1 n)
  from 1(2) have "(\<not> n < 10 \<and> c \<in> set (nat_str (n div 10))) \<or> c = char_of (48 + n mod 10)"
    by (subst (asm) nat_str.simps) (auto split: if_splits)
  moreover have "n mod 10 < 10" by simp
  then have "(48 + n mod 10) mod 256 = 48 + n mod 10" by (intro mod_less) linarith
  then have "of_char (char_of (48 + n mod 10) :: char) = 48 + n mod 10" by simp
  ultimately show ?case using 1(1) \<open>n mod 10 < 10\<close> by fastforce
qed

lemma demo_utc_ok: "utc_ok demo_utc"
proof -
  have "CHR ''+'' \<notin> set (nat_str n)" "CHR ''Z'' \<notin> set (nat_str n)" for n
    using nat_str_digits [of "CHR ''+''" n] nat_str_digits [of "CHR ''Z''" n] by auto
  then have "\<exists>p. demo_utc_text t = p @ ''+00:00'' \<and> CHR ''+'' \<notin> set p \<and> CHR ''Z'' \<notin> set p" for t
    unfolding demo_utc_text_def by (intro exI conjI) (rule refl, auto)
  moreover have "int_parse (take (length (demo_utc_text t) - 6) (demo_utc_text t)) = Some t" for t
    by (auto simp: demo_utc_text_def int_parse_def nat_str_parse)
  ultimately show ?thesis by (simp add: utc_ok_def iso_ok_def demo_utc_def int_text_parse)
qed

definition demo_run_id :: string where
  "demo_run_id = ''123e4567-e89b-42d3-a456-426614174000''"

definition demo_image :: string where
  "demo_image = ''sha256:'' @ replicate 64 (CHR ''a'')"

definition demo_research :: research_request where
  "demo_research = \<lparr>rsq_symbol = ''AAPL'', rsq_start = 18262, rsq_end = 18292, rsq_strategy_key = ''ma_crossover'',
     rsq_strategy_parameters = [(''slow_period'', IntParam 30), (''fast_period'', IntParam 5)],
     rsq_initial_capital = 100000, rsq_commission_pct = 1 / 1000, rsq_slippage_pct = 0, rsq_visibility = PUBLIC\<rparr>"

definition demo_dataset :: dataset_ref where
  "demo_dataset = \<lparr>dsr_bucket = ''research-data'', dsr_key = ''datasets/v1/a.parquet'', dsr_sha256 = replicate 64 (CHR ''0''),
     dsr_manifest_key = ''datasets/v1/a.json'', dsr_manifest_sha256 = replicate 64 (CHR ''1''), dsr_symbol = ''AAPL'',
     dsr_calendar = ''XNYS'', dsr_interval = ''1d'', dsr_start = 18262, dsr_end = 18292,
     dsr_acquisition_id = ''a1'', dsr_completed_at = 1600000000000000\<rparr>"

lemma demo_uuid: "canonical_uuid demo_run_id"
  by code_simp

lemma demo_image_ok: "validate_image_digest (JStr demo_image) = Inr demo_image"
  by code_simp

lemma demo_research_ok: "request_ok demo_research"
proof -
  have "ten_years_after 18262 = Inr 21915" "symbol_pattern ''AAPL''" by code_simp+
  then show ?thesis
    by (simp add: request_ok_def demo_research_def admit_request_def parameter_ok_def float_overflows_def construct_strategy_def
        strategy_keywords_def parameter_or_def dict_get_def deque_bound_def)
qed

lemma demo_dataset_ok: "dataset_ok demo_dataset"
proof -
  have "validate_bucket (JStr ''research-data'') = Inr ''research-data''"
    "dataset_key_check (JStr ''datasets/v1/a.parquet'') = Inr ''datasets/v1/a.parquet''"
    "dataset_key_check (JStr ''datasets/v1/a.json'') = Inr ''datasets/v1/a.json''"
    "validate_sha256 (JStr (replicate 64 (CHR ''0''))) = Inr (replicate 64 (CHR ''0''))"
    "validate_sha256 (JStr (replicate 64 (CHR ''1''))) = Inr (replicate 64 (CHR ''1''))"
    "validate_symbol (JStr ''AAPL'') = Inr ''AAPL''" by code_simp+
  then show ?thesis by (simp add: dataset_ok_def demo_dataset_def)
qed

theorem run_spec_document_roundtrip_witness:
  "\<exists>spec. run_spec_create demo_research demo_dataset demo_image 1600000000000000 demo_run_id 600 = Inr spec \<and>
     run_spec_validate demo_utc (json_sorted (run_spec_payload demo_utc spec)) = Inr (sorted_spec spec)"
  using run_spec_document_roundtrip [OF demo_utc_ok payload_valid [OF demo_utc_ok demo_research_ok]
      dataset_payload_valid(1) [OF demo_utc_ok demo_dataset_ok], of demo_image 1600000000000000 demo_run_id 600]
    demo_uuid demo_image_ok by auto

end
