(* ===== verification/Cloud_Storage.thy ===== *)
theory Cloud_Storage
  imports Cloud_Contracts
begin

text \<open>
  The adapters of the cloud workflow, \<open>src/cloud/storage.py\<close>: \<open>S3ObjectStore\<close> over the client of one
  bucket and \<open>DynamoRunRepository\<close> over one table. The two clients are parameters, functions over a
  world that they share with every other process; what they are relied on for is the hypothesis
  \<open>cloud_ok\<close>. A \<open>ClientError\<close> carries the code of its response as its message. A run's record
  moves from \<open>PENDING\<close> over \<open>RUNNING\<close> to a final state, whatever the processes do.
\<close>

section \<open>The services\<close>

text \<open>The answer of \<open>get_object\<close>, and what reading its body gives.\<close>

datatype body_read = Unreadable | Read_raises exn | Reads_other | Reads string

datatype get_response = No_mapping | Response body_read

record 'w object_client =
  oc_put :: "string \<Rightarrow> string \<Rightarrow> string \<Rightarrow> string \<Rightarrow> string \<Rightarrow> 'w \<Rightarrow> (exn + unit) \<times> 'w"
  oc_head :: "string \<Rightarrow> 'w \<Rightarrow> (exn + json) \<times> 'w"
  oc_get :: "string \<Rightarrow> 'w \<Rightarrow> (exn + get_response) \<times> 'w"
  oc_presign :: "string \<Rightarrow> int \<Rightarrow> 'w \<Rightarrow> (exn + string) \<times> 'w"

type_synonym item = "(string, json) dict"

text \<open>The condition expressions that the repository sends.\<close>

datatype condition =
    Not_exists string
  | Equals string string
  | One_of string "string list"
  | Both condition condition
  | Either condition condition

record 'w table_client =
  tc_put :: "item \<Rightarrow> condition \<Rightarrow> 'w \<Rightarrow> (exn + unit) \<times> 'w"
  tc_update :: "string \<Rightarrow> (string \<times> string) list \<Rightarrow> condition \<Rightarrow> 'w \<Rightarrow> (exn + unit) \<times> 'w"
  tc_get :: "string \<Rightarrow> bool \<Rightarrow> 'w \<Rightarrow> (exn + json) \<times> 'w"

section \<open>Errors\<close>

definition storage_errors :: "string list" where
  "storage_errors = [''StorageError'', ''ImmutableObjectConflict'', ''ObjectSizeLimitError'', ''ObjectIntegrityError'',
     ''ObjectNotFoundError'', ''StateTransitionError'']"

definition is_storage_error :: "exn \<Rightarrow> bool" where
  "is_storage_error e \<longleftrightarrow> (\<exists>c\<in>set storage_errors. exn_class e = External c)"

definition raised :: "string \<Rightarrow> exn \<Rightarrow> bool" where
  "raised cls e \<longleftrightarrow> exn_class e = External cls"

definition client_error :: "string \<Rightarrow> exn" where
  "client_error code = raise_as ''ClientError'' code"

definition is_conditional_failure :: "exn \<Rightarrow> bool" where
  "is_conditional_failure e \<longleftrightarrow> raised ''ClientError'' e \<and> exn_message e = ''ConditionalCheckFailedException''"

definition is_object_not_found :: "exn \<Rightarrow> bool" where
  "is_object_not_found e \<longleftrightarrow> raised ''ClientError'' e \<and> exn_message e \<in> {''404'', ''NoSuchKey'', ''NotFound''}"

definition is_precondition_failed :: "exn \<Rightarrow> bool" where
  "is_precondition_failed e \<longleftrightarrow> raised ''ClientError'' e \<and> exn_message e = ''PreconditionFailed''"

text \<open>What follows an answer of a service, in the world the answer leaves.\<close>

definition sbind :: "(exn + 'a) \<times> 'w \<Rightarrow> ('a \<Rightarrow> 'w \<Rightarrow> (exn + 'b) \<times> 'w) \<Rightarrow> (exn + 'b) \<times> 'w" where
  "sbind r k = (case r of (Inl e, w) \<Rightarrow> (Inl e, w) | (Inr x, w) \<Rightarrow> k x w)"

text \<open>\<open>except\<close>: an exception is replaced, or not.\<close>

definition on_error :: "(exn \<Rightarrow> exn) \<Rightarrow> (exn + 'a) \<times> 'w \<Rightarrow> (exn + 'a) \<times> 'w" where
  "on_error f r = (case r of (Inl e, w) \<Rightarrow> (Inl (f e), w) | (Inr x, w) \<Rightarrow> (Inr x, w))"

section \<open>The object store\<close>

datatype lifecycle_class = TRANSIENT | SELECTED_PUBLIC

fun lifecycle_value :: "lifecycle_class \<Rightarrow> string" where
  "lifecycle_value TRANSIENT = ''transient''"
| "lifecycle_value SELECTED_PUBLIC = ''selected-public''"

record stored_object =
  so_key :: string
  so_byte_length :: int
  so_sha256 :: string

definition MAXIMUM_PRESIGN_SECONDS :: int where
  "MAXIMUM_PRESIGN_SECONDS = 300"

definition validate_storage_key :: "string \<Rightarrow> exn + string" where
  "validate_storage_key key =
     (if take 12 key = ''datasets/v1/'' then validate_object_key ''datasets/v1/'' False (JStr key)
      else if take 8 key = ''runs/v1/'' then validate_object_key ''runs/v1/'' False (JStr key)
      else Inl (refuse ''object key must be under a supported immutable artifact prefix''))"

definition stored_object_create :: "string \<Rightarrow> int \<Rightarrow> string \<Rightarrow> exn + stored_object" where
  "stored_object_create key n digest =
     rbind (validate_storage_key key) (\<lambda>_.
       if n < 0 then Inl (refuse ''byte_length must be a non-negative integer'')
       else rbind (validate_sha256 (JStr digest)) (\<lambda>_. Inr \<lparr>so_key = key, so_byte_length = n, so_sha256 = digest\<rparr>))"

definition not_found_as :: "exn \<Rightarrow> exn" where
  "not_found_as e = (if is_object_not_found e then raise_as ''ObjectNotFoundError'' ''immutable object was not found'' else e)"

definition integrity_error :: "string \<Rightarrow> exn" where
  "integrity_error message = raise_as ''ObjectIntegrityError'' message"

definition head_response :: "string \<Rightarrow> json \<Rightarrow> exn + stored_object" where
  "head_response key response =
     (if members response = None then Inl (integrity_error ''head_object returned an invalid storage response'')
      else (case jget response ''ContentLength'' of
          JInt n \<Rightarrow>
            if n < 0 then Inl (integrity_error ''head_object returned an invalid content length'')
            else if members (jget response ''Metadata'') = None
            then Inl (integrity_error ''head_object returned no immutable digest metadata'')
            else (case jget (jget response ''Metadata'') ''sha256'' of
                JStr digest \<Rightarrow> (case stored_object_create key n digest of
                    Inl e \<Rightarrow> Inl (if is_value_error e
                      then integrity_error ''head_object returned invalid immutable digest metadata'' else e)
                  | Inr stored \<Rightarrow> Inr stored)
              | _ \<Rightarrow> Inl (integrity_error ''head_object returned invalid immutable digest metadata''))
        | _ \<Rightarrow> Inl (integrity_error ''head_object returned an invalid content length'')))"

definition store_head :: "'w object_client \<Rightarrow> string \<Rightarrow> 'w \<Rightarrow> (exn + stored_object) \<times> 'w" where
  "store_head client key w =
     (case validate_storage_key key of
        Inl e \<Rightarrow> (Inl e, w)
      | Inr k \<Rightarrow> sbind (on_error not_found_as (oc_head client k w)) (\<lambda>response w'. (head_response k response, w')))"

definition read_body :: "(string \<Rightarrow> string) \<Rightarrow> stored_object \<Rightarrow> get_response \<Rightarrow> exn + string" where
  "read_body digest stored response = (case response of
     No_mapping \<Rightarrow> Inl (integrity_error ''get_object returned an invalid storage response'')
   | Response Unreadable \<Rightarrow> Inl (integrity_error ''get_object returned a non-readable body'')
   | Response (Read_raises e) \<Rightarrow> Inl e
   | Response Reads_other \<Rightarrow> Inl (integrity_error ''get_object returned a non-bytes body'')
   | Response (Reads body) \<Rightarrow>
       if int (length body) \<noteq> so_byte_length stored \<or> digest body \<noteq> so_sha256 stored
       then Inl (integrity_error ''object body does not match immutable metadata'') else Inr body)"

definition store_get ::
    "(string \<Rightarrow> string) \<Rightarrow> 'w object_client \<Rightarrow> string \<Rightarrow> int \<Rightarrow> 'w \<Rightarrow> (exn + string) \<times> 'w" where
  "store_get digest client key maximum_bytes w =
     (case validate_storage_key key of
        Inl e \<Rightarrow> (Inl e, w)
      | Inr k \<Rightarrow>
          if maximum_bytes < 0 then (Inl (refuse ''maximum_bytes must be a non-negative integer''), w)
          else sbind (store_head client k w) (\<lambda>stored w1.
            if so_byte_length stored > maximum_bytes
            then (Inl (raise_as ''ObjectSizeLimitError'' ''object exceeds the requested download limit''), w1)
            else sbind (on_error not_found_as (oc_get client k w1)) (\<lambda>response w2. (read_body digest stored response, w2))))"

definition conflict :: "string \<Rightarrow> exn" where
  "conflict message = raise_as ''ImmutableObjectConflict'' message"

text \<open>A conditional write; when an object is there already it must have the same bytes.\<close>

definition store_put ::
    "(string \<Rightarrow> string) \<Rightarrow> 'w object_client \<Rightarrow> string \<Rightarrow> string \<Rightarrow> string \<Rightarrow> lifecycle_class \<Rightarrow> 'w
      \<Rightarrow> (exn + stored_object) \<times> 'w" where
  "store_put digest client key body content_type lifecycle w =
     (case validate_storage_key key of
        Inl e \<Rightarrow> (Inl e, w)
      | Inr k \<Rightarrow>
          if content_type = [] then (Inl (refuse ''content_type must be a non-empty string''), w)
          else (case stored_object_create k (int (length body)) (digest body) of
              Inl e \<Rightarrow> (Inl e, w)
            | Inr stored \<Rightarrow>
                (case oc_put client k body content_type (so_sha256 stored) (lifecycle_value lifecycle) w of
                   (Inr _, w1) \<Rightarrow> (Inr stored, w1)
                 | (Inl e, w1) \<Rightarrow>
                     if \<not> is_precondition_failed e then (Inl e, w1)
                     else (case store_get digest client k (int (length body)) w1 of
                         (Inl f, w2) \<Rightarrow> (Inl (if raised ''ClientError'' f \<or> is_storage_error f
                           then conflict ''immutable object key cannot be verified as byte-identical'' else f), w2)
                       | (Inr existing, w2) \<Rightarrow>
                           if digest existing \<noteq> so_sha256 stored
                           then (Inl (conflict ''immutable object key contains different content''), w2)
                           else (Inr stored, w2)))))"

definition store_presign :: "'w object_client \<Rightarrow> string \<Rightarrow> int \<Rightarrow> 'w \<Rightarrow> (exn + string) \<times> 'w" where
  "store_presign client key expires_seconds w =
     (case validate_storage_key key of
        Inl e \<Rightarrow> (Inl e, w)
      | Inr k \<Rightarrow> if \<not> (0 < expires_seconds \<and> expires_seconds \<le> MAXIMUM_PRESIGN_SECONDS)
          then (Inl (refuse ''expires_seconds must be between 1 and 300''), w)
          else oc_presign client k expires_seconds w)"

section \<open>The run repository\<close>

definition run_key :: "string \<Rightarrow> exn + string" where
  "run_key run_id = rbind (validate_uuid (JStr run_id)) (\<lambda>i. Inr (''RUN#'' @ i))"

definition transition_error :: "exn \<Rightarrow> exn" where
  "transition_error e = (if is_conditional_failure e then raise_as ''StateTransitionError'' ''run state transition rejected'' else e)"

definition record_item :: "iso_api \<Rightarrow> run_record \<Rightarrow> item" where
  "record_item fmt r = (''PK'', JStr (''RUN#'' @ rrc_run_id r)) # dict_del (run_record_dump fmt r) ''run_id''"

definition create_pending :: "iso_api \<Rightarrow> 'w table_client \<Rightarrow> run_record \<Rightarrow> 'w \<Rightarrow> (exn + unit) \<times> 'w" where
  "create_pending fmt tb r w =
     (if rrc_status r \<noteq> PENDING then (Inl (refuse ''only PENDING run records may be created''), w)
      else (case run_key (rrc_run_id r) of
          Inl e \<Rightarrow> (Inl e, w)
        | Inr _ \<Rightarrow> on_error transition_error (tc_put tb (record_item fmt r) (Not_exists ''PK'') w)))"

definition update_run ::
    "'w table_client \<Rightarrow> string \<Rightarrow> (string \<times> string) list \<Rightarrow> condition \<Rightarrow> 'w \<Rightarrow> (exn + unit) \<times> 'w" where
  "update_run tb run_id assignments required_state w =
     (case run_key run_id of
        Inl e \<Rightarrow> (Inl e, w)
      | Inr pk \<Rightarrow> on_error transition_error (tc_update tb pk assignments required_state w))"

definition start_values :: "string \<Rightarrow> (string \<times> string) list" where
  "start_values started = [(''status'', ''RUNNING''), (''started_at'', started)]"

definition mark_running :: "iso_api \<Rightarrow> 'w table_client \<Rightarrow> string \<Rightarrow> datetime \<Rightarrow> 'w \<Rightarrow> (exn + unit) \<times> 'w" where
  "mark_running fmt tb run_id started_at =
     update_run tb run_id (start_values (utc_text fmt started_at)) (Equals ''status'' ''PENDING'')"

definition success_values :: "string \<Rightarrow> (string \<times> string) list" where
  "success_values completed = [(''status'', ''SUCCEEDED''), (''completed_at'', completed)]"

definition success_condition :: "string \<Rightarrow> condition" where
  "success_condition completed = Either (Equals ''status'' ''RUNNING'')
     (Both (Equals ''status'' ''SUCCEEDED'') (Equals ''completed_at'' completed))"

definition mark_succeeded :: "iso_api \<Rightarrow> 'w table_client \<Rightarrow> string \<Rightarrow> datetime \<Rightarrow> 'w \<Rightarrow> (exn + unit) \<times> 'w" where
  "mark_succeeded fmt tb run_id completed_at =
     update_run tb run_id (success_values (utc_text fmt completed_at)) (success_condition (utc_text fmt completed_at))"

definition failure_values :: "string \<Rightarrow> string \<Rightarrow> (string \<times> string) list" where
  "failure_values code completed = [(''status'', ''FAILED''), (''failure_code'', code), (''completed_at'', completed)]"

definition failure_condition :: "string \<Rightarrow> string \<Rightarrow> condition" where
  "failure_condition code completed = Either (One_of ''status'' [''PENDING'', ''RUNNING''])
     (Both (Equals ''status'' ''FAILED'') (Both (Equals ''failure_code'' code) (Equals ''completed_at'' completed)))"

definition mark_failed ::
    "iso_api \<Rightarrow> 'w table_client \<Rightarrow> string \<Rightarrow> failure_code \<Rightarrow> datetime \<Rightarrow> 'w \<Rightarrow> (exn + unit) \<times> 'w" where
  "mark_failed fmt tb run_id code completed_at =
     update_run tb run_id (failure_values (failure_code_value code) (utc_text fmt completed_at))
       (failure_condition (failure_code_value code) (utc_text fmt completed_at))"

text \<open>The record in the answer of \<open>get_item\<close>.\<close>

definition record_of_response :: "iso_api \<Rightarrow> string \<Rightarrow> json \<Rightarrow> exn + run_record option" where
  "record_of_response fmt run_id response =
     (if members response = None then Inl (integrity_error ''get_item returned an invalid storage response'')
      else if jget response ''Item'' = JNull then Inr None
      else (case members (jget response ''Item'') of
          None \<Rightarrow> Inl (raise_as ''StateTransitionError'' ''run record response is invalid'')
        | Some values \<Rightarrow>
            if dict_get values ''PK'' \<noteq> Some (JStr (''RUN#'' @ run_id))
            then Inl (raise_as ''StateTransitionError'' ''run record key is invalid'')
            else rbind (run_record_validate fmt (JObj (dict_set (dict_del values ''PK'') ''run_id'' (JStr run_id))))
              (\<lambda>r. Inr (Some r))))"

definition repository_get ::
    "iso_api \<Rightarrow> 'w table_client \<Rightarrow> string \<Rightarrow> bool \<Rightarrow> 'w \<Rightarrow> (exn + run_record option) \<times> 'w" where
  "repository_get fmt tb run_id consistent w =
     (case run_key run_id of
        Inl e \<Rightarrow> (Inl e, w)
      | Inr pk \<Rightarrow> sbind (tc_get tb pk consistent w) (\<lambda>response w'. (record_of_response fmt run_id response, w')))"

section \<open>What the services do\<close>

fun condition_holds :: "condition \<Rightarrow> item option \<Rightarrow> bool" where
  "condition_holds (Not_exists name) i = (case i of None \<Rightarrow> True | Some i \<Rightarrow> dict_get i name = None)"
| "condition_holds (Equals name s) i = (case i of None \<Rightarrow> False | Some i \<Rightarrow> dict_get i name = Some (JStr s))"
| "condition_holds (One_of name ss) i = (case i of None \<Rightarrow> False | Some i \<Rightarrow> \<exists>s\<in>set ss. dict_get i name = Some (JStr s))"
| "condition_holds (Both a b) i = (condition_holds a i \<and> condition_holds b i)"
| "condition_holds (Either a b) i = (condition_holds a i \<or> condition_holds b i)"

definition assign :: "(string \<times> string) list \<Rightarrow> item \<Rightarrow> item" where
  "assign assignments i = fold (\<lambda>(name, s) acc. dict_set acc name (JStr s)) assignments i"

text \<open>The records that may be created: those a \<open>RunRecord\<close> admits.\<close>

definition record_ok :: "run_record \<Rightarrow> bool" where
  "record_ok r \<longleftrightarrow> canonical_uuid (rrc_run_id r) \<and> dataset_key_check (JStr (rrc_dataset_key r)) = Inr (rrc_dataset_key r) \<and>
     validate_sha256 (JStr (rrc_dataset_sha256 r)) = Inr (rrc_dataset_sha256 r) \<and>
     validate_image_digest (JStr (rrc_image_digest r)) = Inr (rrc_image_digest r) \<and> admit_record r = Inr r"

text \<open>The steps of the table: what the writes of a repository do when their conditions hold.\<close>

type_synonym run_table = "string \<Rightarrow> item option"

inductive table_step :: "iso_api \<Rightarrow> run_table \<Rightarrow> run_table \<Rightarrow> bool" for fmt :: iso_api where
  created: "record_ok r \<Longrightarrow> rrc_status r = PENDING \<Longrightarrow> tbl (''RUN#'' @ rrc_run_id r) = None \<Longrightarrow>
     table_step fmt tbl (tbl(''RUN#'' @ rrc_run_id r \<mapsto> record_item fmt r))"
| started: "tbl pk = Some i \<Longrightarrow> dict_get i ''status'' = Some (JStr ''PENDING'') \<Longrightarrow>
     table_step fmt tbl (tbl(pk \<mapsto> assign (start_values (utc_text fmt t)) i))"
| succeeded: "tbl pk = Some i \<Longrightarrow> dict_get i ''status'' = Some (JStr ''RUNNING'') \<Longrightarrow>
     table_step fmt tbl (tbl(pk \<mapsto> assign (success_values (utc_text fmt t)) i))"
| failed: "tbl pk = Some i \<Longrightarrow> dict_get i ''status'' \<in> {Some (JStr ''PENDING''), Some (JStr ''RUNNING'')} \<Longrightarrow>
     table_step fmt tbl (tbl(pk \<mapsto> assign (failure_values (failure_code_value code) (utc_text fmt t)) i))"

inductive_cases table_stepE: "table_step fmt tbl tbl'"

abbreviation table_steps :: "iso_api \<Rightarrow> run_table \<Rightarrow> run_table \<Rightarrow> bool" where
  "table_steps fmt \<equiv> (table_step fmt)\<^sup>*\<^sup>*"

text \<open>The objects with their bodies and digests, and the items, of a world.\<close>

record 'w cloud_view =
  cv_objects :: "'w \<Rightarrow> string \<Rightarrow> (string \<times> string) option"
  cv_items :: "'w \<Rightarrow> run_table"

text \<open>What the other processes may do between two calls: objects are only added, and the table is
  only written by repositories.\<close>

definition evolves :: "iso_api \<Rightarrow> 'w cloud_view \<Rightarrow> 'w \<Rightarrow> 'w \<Rightarrow> bool" where
  "evolves fmt view w w' \<longleftrightarrow> cv_objects view w \<subseteq>\<^sub>m cv_objects view w' \<and> table_steps fmt (cv_items view w) (cv_items view w')"

text \<open>S3 with conditional writes: a write succeeds only where no object is; a write that fails may
  have been made; reads are of the object as it is.\<close>

definition object_put_ok ::
    "iso_api \<Rightarrow> 'w cloud_view \<Rightarrow> string \<Rightarrow> string \<times> string \<Rightarrow> 'w \<Rightarrow> (exn + unit) \<times> 'w \<Rightarrow> bool" where
  "object_put_ok fmt view key object w answer \<longleftrightarrow> (case answer of (r, w') \<Rightarrow>
     (\<exists>u. evolves fmt view w u \<and> cv_items view w' = cv_items view u \<and>
        (cv_objects view w' = cv_objects view u \<and> r \<noteq> Inr () \<or>
         cv_objects view u key = None \<and> cv_objects view w' = (cv_objects view u)(key \<mapsto> object))) \<and>
     (\<forall>e. r = Inl e \<and> is_precondition_failed e \<longrightarrow> cv_objects view w' key \<noteq> None))"

definition objects_ok :: "iso_api \<Rightarrow> 'w cloud_view \<Rightarrow> 'w object_client \<Rightarrow> bool" where
  "objects_ok fmt view client \<longleftrightarrow>
     (\<forall>key body content_type digest tag w.
        object_put_ok fmt view key (body, digest) w (oc_put client key body content_type digest tag w)) \<and>
     (\<forall>key w r w'. oc_head client key w = (r, w') \<longrightarrow> evolves fmt view w w' \<and>
        (\<forall>j. r = Inr j \<longrightarrow> (\<exists>body digest. cv_objects view w' key = Some (body, digest) \<and>
          jget j ''ContentLength'' = JInt (int (length body)) \<and> jget (jget j ''Metadata'') ''sha256'' = JStr digest))) \<and>
     (\<forall>key w r w'. oc_get client key w = (r, w') \<longrightarrow> evolves fmt view w w' \<and>
        (\<forall>b. r = Inr (Response (Reads b)) \<longrightarrow> (\<exists>digest. cv_objects view w' key = Some (b, digest)))) \<and>
     (\<forall>key n w r w'. oc_presign client key n w = (r, w') \<longrightarrow> evolves fmt view w w')"

definition read_number :: "(int \<Rightarrow> json) \<Rightarrow> json \<Rightarrow> json" where
  "read_number num v = (case v of JInt n \<Rightarrow> num n | _ \<Rightarrow> v)"

text \<open>DynamoDB: a conditional write is one step; it is rejected only where its condition does not hold;
  a write that fails otherwise may have been made; the client does not raise the adapters' own
  errors. A consistent read is of the item as it is, its
  numbers as \<open>num\<close> represents them: the client of \<open>boto3\<close> reads \<open>Decimal\<close> objects.\<close>

definition written :: "'w cloud_view \<Rightarrow> (item option \<Rightarrow> item) \<Rightarrow> string \<Rightarrow> condition \<Rightarrow> 'w \<Rightarrow> 'w \<Rightarrow> bool" where
  "written view f pk c u w' \<longleftrightarrow> condition_holds c (cv_items view u pk) \<and>
     cv_items view w' = (cv_items view u)(pk \<mapsto> f (cv_items view u pk))"

definition write_ok ::
    "iso_api \<Rightarrow> 'w cloud_view \<Rightarrow> (item option \<Rightarrow> item) \<Rightarrow> string \<Rightarrow> condition \<Rightarrow> 'w \<Rightarrow> (exn + unit) \<times> 'w \<Rightarrow> bool" where
  "write_ok fmt view f pk c w answer \<longleftrightarrow> (case answer of (r, w') \<Rightarrow>
     (\<exists>u. evolves fmt view w u \<and> cv_objects view w' = cv_objects view u \<and>
        (written view f pk c u w' \<or> r \<noteq> Inr () \<and> cv_items view w' = cv_items view u)) \<and>
     (\<forall>e. r = Inl e \<longrightarrow> \<not> is_storage_error e \<and>
        (is_conditional_failure e \<longrightarrow> \<not> condition_holds c (cv_items view w' pk))))"

definition table_ok :: "iso_api \<Rightarrow> (int \<Rightarrow> json) \<Rightarrow> 'w cloud_view \<Rightarrow> 'w table_client \<Rightarrow> bool" where
  "table_ok fmt num view tb \<longleftrightarrow>
     (\<forall>i pk c w. dict_get i ''PK'' = Some (JStr pk) \<longrightarrow> write_ok fmt view (\<lambda>_. i) pk c w (tc_put tb i c w)) \<and>
     (\<forall>pk vs c w. write_ok fmt view (\<lambda>i. assign vs (case i of None \<Rightarrow> [(''PK'', JStr pk)] | Some i \<Rightarrow> i)) pk c w
        (tc_update tb pk vs c w)) \<and>
     (\<forall>pk consistent w r w'. tc_get tb pk consistent w = (r, w') \<longrightarrow> evolves fmt view w w' \<and>
        (\<forall>j. consistent \<and> r = Inr j \<longrightarrow> members j \<noteq> None \<and> (case cv_items view w' pk of
            None \<Rightarrow> jget j ''Item'' = JNull
          | Some i \<Rightarrow> \<exists>values. jget j ''Item'' = JObj values \<and>
              (\<forall>name. dict_get values name = map_option (read_number num) (dict_get i name)))))"

section \<open>The life of a record\<close>

text \<open>The members of a record's item.\<close>

definition record_member :: "iso_api \<Rightarrow> run_record \<Rightarrow> string \<Rightarrow> json option" where
  "record_member fmt r name =
     (if name = ''PK'' then Some (JStr (''RUN#'' @ rrc_run_id r))
      else if name = ''status'' then Some (JStr (run_status_value (rrc_status r)))
      else if name = ''visibility'' then Some (JStr (visibility_value (rrc_visibility r)))
      else if name = ''dataset_key'' then Some (JStr (rrc_dataset_key r))
      else if name = ''dataset_sha256'' then Some (JStr (rrc_dataset_sha256 r))
      else if name = ''run_spec_key'' then Some (JStr (rrc_run_spec_key r))
      else if name = ''result_prefix'' then Some (JStr (rrc_result_prefix r))
      else if name = ''image_digest'' then Some (JStr (rrc_image_digest r))
      else if name = ''created_at'' then Some (JStr (utc_text fmt (rrc_created_at r)))
      else if name = ''started_at'' then map_option (\<lambda>t. JStr (utc_text fmt t)) (rrc_started_at r)
      else if name = ''completed_at'' then map_option (\<lambda>t. JStr (utc_text fmt t)) (rrc_completed_at r)
      else if name = ''failure_code'' then map_option (\<lambda>c. JStr (failure_code_value c)) (rrc_failure_code r)
      else if name = ''expires_at'' then Some (JInt (rrc_expires_at r))
      else None)"

lemma record_item_member: "dict_get (record_item fmt r) = record_member fmt r"
proof
  fix name
  show "dict_get (record_item fmt r) name = record_member fmt r name"
    by (cases "rrc_started_at r"; cases "rrc_completed_at r"; cases "rrc_failure_code r")
      (simp_all add: record_item_def dict_get_def dict_del_def run_record_dump_def opt_member_def delete_conv record_member_def)
qed

text \<open>The abstract life of a record.\<close>

inductive record_step :: "run_record \<Rightarrow> run_record \<Rightarrow> bool" where
  start: "rrc_status r = PENDING \<Longrightarrow> record_step r (r\<lparr>rrc_status := RUNNING, rrc_started_at := Some t\<rparr>)"
| succeed: "rrc_status r = RUNNING \<Longrightarrow> record_step r (r\<lparr>rrc_status := SUCCEEDED, rrc_completed_at := Some t\<rparr>)"
| fail: "rrc_status r \<in> {PENDING, RUNNING} \<Longrightarrow>
    record_step r (r\<lparr>rrc_status := RUN_FAILED, rrc_completed_at := Some t, rrc_failure_code := Some code\<rparr>)"

inductive_cases record_stepE: "record_step r r'"

definition holds_record :: "iso_api \<Rightarrow> run_table \<Rightarrow> string \<Rightarrow> run_record \<Rightarrow> bool" where
  "holds_record fmt tbl pk r \<longleftrightarrow> record_ok r \<and> pk = ''RUN#'' @ rrc_run_id r \<and>
     (\<exists>i. tbl pk = Some i \<and> dict_get i = record_member fmt r)"

definition table_valid :: "iso_api \<Rightarrow> run_table \<Rightarrow> bool" where
  "table_valid fmt tbl \<longleftrightarrow> (\<forall>pk. tbl pk \<noteq> None \<longrightarrow> (\<exists>r. holds_record fmt tbl pk r))"

lemma dict_get_set: "dict_get (dict_set i k v) = (dict_get i)(k \<mapsto> v)"
  by (simp add: fun_eq_iff dict_get_def dict_set_def update_conv)

lemma status_text [simp]:
  "run_status_value s = ''PENDING'' \<longleftrightarrow> s = PENDING" "run_status_value s = ''RUNNING'' \<longleftrightarrow> s = RUNNING"
  "run_status_value s = ''SUCCEEDED'' \<longleftrightarrow> s = SUCCEEDED" "run_status_value s = ''FAILED'' \<longleftrightarrow> s = RUN_FAILED"
  "''PENDING'' = run_status_value s \<longleftrightarrow> s = PENDING" "''RUNNING'' = run_status_value s \<longleftrightarrow> s = RUNNING"
  by (cases s; simp)+

lemma record_member_status [simp]: "record_member fmt r ''status'' = Some (JStr (run_status_value (rrc_status r)))"
  by (simp add: record_member_def)

lemma assigned_record:
  assumes "dict_get i = record_member fmt r"
  shows "dict_get (assign (start_values (utc_text fmt t)) i) = record_member fmt (r\<lparr>rrc_status := RUNNING, rrc_started_at := Some t\<rparr>)"
    "dict_get (assign (success_values (utc_text fmt t)) i) = record_member fmt (r\<lparr>rrc_status := SUCCEEDED, rrc_completed_at := Some t\<rparr>)"
    "dict_get (assign (failure_values (failure_code_value code) (utc_text fmt t)) i) =
      record_member fmt (r\<lparr>rrc_status := RUN_FAILED, rrc_completed_at := Some t, rrc_failure_code := Some code\<rparr>)"
proof -
  note defs = assign_def start_values_def success_values_def failure_values_def dict_get_set assms record_member_def
  show "dict_get (assign (start_values (utc_text fmt t)) i) = record_member fmt (r\<lparr>rrc_status := RUNNING, rrc_started_at := Some t\<rparr>)"
    by (rule ext) (simp add: defs)
  show "dict_get (assign (success_values (utc_text fmt t)) i) = record_member fmt (r\<lparr>rrc_status := SUCCEEDED, rrc_completed_at := Some t\<rparr>)"
    by (rule ext) (simp add: defs)
  show "dict_get (assign (failure_values (failure_code_value code) (utc_text fmt t)) i) =
      record_member fmt (r\<lparr>rrc_status := RUN_FAILED, rrc_completed_at := Some t, rrc_failure_code := Some code\<rparr>)"
    by (rule ext) (simp add: defs)
qed

lemma record_step_ok: "record_step r r' \<Longrightarrow> record_ok r \<Longrightarrow> record_ok r'"
  by (induction rule: record_step.induct) (auto simp: record_ok_def admit_record_def split: if_splits)

lemma record_step_id: "record_step r r' \<Longrightarrow> rrc_run_id r' = rrc_run_id r"
  by (induction rule: record_step.induct) auto

lemma holds_other: "holds_record fmt tbl pk r \<Longrightarrow> p \<noteq> pk \<Longrightarrow> holds_record fmt (tbl(p \<mapsto> i)) pk r"
  by (auto simp: holds_record_def)

lemma holds_assigned:
  assumes "holds_record fmt tbl pk r" and "p = pk \<Longrightarrow> record_step r r' \<and> dict_get i' = record_member fmt r'"
  shows "holds_record fmt (tbl(p \<mapsto> i')) pk r \<or> (\<exists>r'. record_step r r' \<and> holds_record fmt (tbl(p \<mapsto> i')) pk r')"
proof (cases "p = pk")
  case True
  with assms have step: "record_step r r'" and i': "dict_get i' = record_member fmt r'" by simp_all
  from assms(1) have "record_ok r" "pk = ''RUN#'' @ rrc_run_id r" by (simp_all add: holds_record_def)
  with record_step_ok [OF step] record_step_id [OF step] i' True have "holds_record fmt (tbl(p \<mapsto> i')) pk r'"
    unfolding holds_record_def by simp
  with step show ?thesis by blast
next
  case False
  with assms(1) show ?thesis by (blast intro: holds_other)
qed

lemma holds_item:
  assumes "holds_record fmt tbl pk r" and "tbl pk = Some i"
  shows "dict_get i = record_member fmt r" and "dict_get i ''status'' = Some (JStr (run_status_value (rrc_status r)))"
  using assms by (auto simp: holds_record_def)

text \<open>A step of the table is a creation or a step of one record.\<close>

lemma table_step_record:
  assumes "table_step fmt tbl tbl'" and holds: "holds_record fmt tbl pk r"
  shows "holds_record fmt tbl' pk r \<or> (\<exists>r'. record_step r r' \<and> holds_record fmt tbl' pk r')"
  using assms(1)
proof (cases rule: table_step.cases)
  case (created q)
  then have "pk \<noteq> ''RUN#'' @ rrc_run_id q" using holds by (auto simp: holds_record_def)
  with created(1) holds show ?thesis by (blast intro: holds_other)
next
  case (started p i t)
  show ?thesis unfolding started(1)
  proof (rule holds_assigned [OF holds], intro conjI)
    assume p: "p = pk"
    note i = holds_item [OF holds started(2) [unfolded p]]
    from i(2) started(3) [symmetric] show "record_step r (r\<lparr>rrc_status := RUNNING, rrc_started_at := Some t\<rparr>)"
      by (intro record_step.start) simp
    show "dict_get (assign (start_values (utc_text fmt t)) i) = record_member fmt (r\<lparr>rrc_status := RUNNING, rrc_started_at := Some t\<rparr>)"
      by (rule assigned_record(1) [OF i(1)])
  qed
next
  case (succeeded p i t)
  show ?thesis unfolding succeeded(1)
  proof (rule holds_assigned [OF holds], intro conjI)
    assume p: "p = pk"
    note i = holds_item [OF holds succeeded(2) [unfolded p]]
    from i(2) succeeded(3) [symmetric] show "record_step r (r\<lparr>rrc_status := SUCCEEDED, rrc_completed_at := Some t\<rparr>)"
      by (intro record_step.succeed) simp
    show "dict_get (assign (success_values (utc_text fmt t)) i) = record_member fmt (r\<lparr>rrc_status := SUCCEEDED, rrc_completed_at := Some t\<rparr>)"
      by (rule assigned_record(2) [OF i(1)])
  qed
next
  case (failed p i code t)
  show ?thesis unfolding failed(1)
  proof (rule holds_assigned [OF holds], intro conjI)
    assume p: "p = pk"
    note i = holds_item [OF holds failed(2) [unfolded p]]
    from i(2) failed(3) show "record_step r (r\<lparr>rrc_status := RUN_FAILED, rrc_completed_at := Some t, rrc_failure_code := Some code\<rparr>)"
      by (intro record_step.fail) auto
    show "dict_get (assign (failure_values (failure_code_value code) (utc_text fmt t)) i) =
        record_member fmt (r\<lparr>rrc_status := RUN_FAILED, rrc_completed_at := Some t, rrc_failure_code := Some code\<rparr>)"
      by (rule assigned_record(3) [OF i(1)])
  qed
qed

lemma table_steps_record:
  "table_steps fmt tbl tbl' \<Longrightarrow> holds_record fmt tbl pk r \<Longrightarrow> \<exists>r'. record_step\<^sup>*\<^sup>* r r' \<and> holds_record fmt tbl' pk r'"
proof (induction rule: rtranclp_induct)
  case (step tbl1 tbl2)
  then show ?case by (meson table_step_record rtranclp.rtrancl_into_rtrancl)
qed blast

lemma table_step_valid:
  assumes step: "table_step fmt tbl tbl'" and "table_valid fmt tbl"
  shows "table_valid fmt tbl'"
  unfolding table_valid_def
proof (intro allI impI)
  fix pk
  assume some: "tbl' pk \<noteq> None"
  show "\<exists>r. holds_record fmt tbl' pk r"
  proof (cases "tbl pk = None")
    case True
    from step show ?thesis
    proof (cases rule: table_step.cases)
      case (created q)
      with some True have "pk = ''RUN#'' @ rrc_run_id q" by (cases "pk = ''RUN#'' @ rrc_run_id q") simp_all
      with created(1,2) have "holds_record fmt tbl' pk q" unfolding holds_record_def by (simp add: record_item_member)
      then show ?thesis ..
    qed (use some True in \<open>simp_all split: if_splits\<close>)
  next
    case False
    with assms(2) table_step_record [OF step] show ?thesis unfolding table_valid_def by blast
  qed
qed

lemma table_steps_valid: "table_steps fmt tbl tbl' \<Longrightarrow> table_valid fmt tbl \<Longrightarrow> table_valid fmt tbl'"
  by (induction rule: rtranclp_induct) (auto intro: table_step_valid)

text \<open>The order of the states.\<close>

fun status_rank :: "run_status \<Rightarrow> nat" where
  "status_rank PENDING = 0"
| "status_rank RUNNING = 1"
| "status_rank SUCCEEDED = 2"
| "status_rank RUN_FAILED = 2"

lemma final_record_stays: "record_step\<^sup>*\<^sup>* r r' \<Longrightarrow> rrc_status r \<in> {SUCCEEDED, RUN_FAILED} \<Longrightarrow> r' = r"
  by (induction rule: rtranclp_induct) (auto elim: record_stepE)

lemma record_steps_rank: "record_step\<^sup>*\<^sup>* r r' \<Longrightarrow> status_rank (rrc_status r) \<le> status_rank (rrc_status r')"
  by (induction rule: rtranclp_induct) (auto elim!: record_stepE)

lemma record_steps_frame:
  "record_step\<^sup>*\<^sup>* r r' \<Longrightarrow> r' = r\<lparr>rrc_status := rrc_status r', rrc_started_at := rrc_started_at r',
     rrc_completed_at := rrc_completed_at r', rrc_failure_code := rrc_failure_code r'\<rparr>"
proof (induction rule: rtranclp_induct)
  case (step r1 r2)
  from step(2) have "rrc_run_id r2 = rrc_run_id r1 \<and> rrc_visibility r2 = rrc_visibility r1 \<and> rrc_dataset_key r2 = rrc_dataset_key r1 \<and>
      rrc_dataset_sha256 r2 = rrc_dataset_sha256 r1 \<and> rrc_run_spec_key r2 = rrc_run_spec_key r1 \<and>
      rrc_result_prefix r2 = rrc_result_prefix r1 \<and> rrc_image_digest r2 = rrc_image_digest r1 \<and>
      rrc_created_at r2 = rrc_created_at r1 \<and> rrc_expires_at r2 = rrc_expires_at r1"
    by (auto elim: record_stepE)
  with step.IH show ?case by (cases r; cases r1; cases r2) simp
qed simp

section \<open>The operations on the table\<close>

lemma evolves_refl [simp]: "evolves fmt view w w"
  by (simp add: evolves_def)

lemma evolves_trans: "evolves fmt view u v \<Longrightarrow> evolves fmt view v w \<Longrightarrow> evolves fmt view u w"
  by (auto simp: evolves_def intro: map_le_trans)

lemma evolves_object: "evolves fmt view u v \<Longrightarrow> cv_objects view u key = Some x \<Longrightarrow> cv_objects view v key = Some x"
  by (auto simp: evolves_def map_le_def dom_def)

lemma dict_set_same: "dict_get i k = Some v \<Longrightarrow> dict_set i k v = i"
  unfolding dict_get_def dict_set_def by (induction i) (auto split: if_splits)

lemma assign_same: "\<forall>(k, s)\<in>set vs. dict_get i k = Some (JStr s) \<Longrightarrow> assign vs i = i"
  unfolding assign_def by (induction vs) (auto simp: dict_set_same)

text \<open>A conditional write whose condition allows a step of the table only.\<close>

lemma write_evolves:
  assumes "write_ok fmt view f pk c w (r, w')"
    and "\<And>u. evolves fmt view w u \<Longrightarrow> condition_holds c (cv_items view u pk) \<Longrightarrow>
      table_steps fmt (cv_items view u) ((cv_items view u)(pk \<mapsto> f (cv_items view u pk)))"
  shows "evolves fmt view w w'"
    and "r = Inr () \<Longrightarrow> \<exists>u. evolves fmt view w u \<and> written view f pk c u w'"
proof -
  from assms(1) obtain u where u: "evolves fmt view w u" "cv_objects view w' = cv_objects view u"
      "written view f pk c u w' \<or> r \<noteq> Inr () \<and> cv_items view w' = cv_items view u"
    unfolding write_ok_def by auto
  moreover from u(1,3) assms(2) [of u] have "table_steps fmt (cv_items view u) (cv_items view w')"
    unfolding written_def by auto
  with u(2) have "evolves fmt view u w'" by (simp add: evolves_def)
  ultimately show "evolves fmt view w w'" by (blast intro: evolves_trans)
  show "r = Inr () \<Longrightarrow> \<exists>u. evolves fmt view w u \<and> written view f pk c u w'" using u by blast
qed

text \<open>The writes of the repository are steps of the table, or change nothing.\<close>

definition allowed :: "iso_api \<Rightarrow> condition \<Rightarrow> (string \<times> string) list \<Rightarrow> bool" where
  "allowed fmt c vs \<longleftrightarrow> (\<forall>tbl pk i0. condition_holds c (tbl pk) \<longrightarrow>
     table_steps fmt tbl (tbl(pk \<mapsto> assign vs (case tbl pk of None \<Rightarrow> i0 | Some i \<Rightarrow> i))))"

lemma start_allowed: "allowed fmt (Equals ''status'' ''PENDING'') (start_values (utc_text fmt t))"
  unfolding allowed_def
proof (intro allI impI)
  fix tbl :: run_table and pk i0
  assume c: "condition_holds (Equals ''status'' ''PENDING'') (tbl pk)"
  from c obtain i where i: "tbl pk = Some i" "dict_get i ''status'' = Some (JStr ''PENDING'')"
    by (auto split: option.splits)
  from table_step.started [of tbl pk i, OF i] i(1)
  show "table_steps fmt tbl (tbl(pk \<mapsto> assign (start_values (utc_text fmt t)) (case tbl pk of None \<Rightarrow> i0 | Some i \<Rightarrow> i)))" by auto
qed

lemma success_allowed: "allowed fmt (success_condition (utc_text fmt t)) (success_values (utc_text fmt t))"
  unfolding allowed_def
proof (intro allI impI)
  fix tbl :: run_table and pk i0
  assume c: "condition_holds (success_condition (utc_text fmt t)) (tbl pk)"
  let ?after = "tbl(pk \<mapsto> assign (success_values (utc_text fmt t)) (case tbl pk of None \<Rightarrow> i0 | Some i \<Rightarrow> i))"
  from c obtain i where i: "tbl pk = Some i" "dict_get i ''status'' = Some (JStr ''RUNNING'') \<or>
      dict_get i ''status'' = Some (JStr ''SUCCEEDED'') \<and> dict_get i ''completed_at'' = Some (JStr (utc_text fmt t))"
    by (auto simp: success_condition_def split: option.splits)
  from i(2) show "table_steps fmt tbl ?after"
  proof
    assume "dict_get i ''status'' = Some (JStr ''RUNNING'')"
    from table_step.succeeded [of tbl pk i, OF i(1) this] i(1) show "table_steps fmt tbl ?after" by auto
  next
    assume "dict_get i ''status'' = Some (JStr ''SUCCEEDED'') \<and> dict_get i ''completed_at'' = Some (JStr (utc_text fmt t))"
    then have "assign (success_values (utc_text fmt t)) i = i" by (intro assign_same) (simp add: success_values_def)
    with i(1) show "table_steps fmt tbl ?after" by (simp add: fun_upd_idem)
  qed
qed

lemma failure_allowed:
  "allowed fmt (failure_condition (failure_code_value code) (utc_text fmt t)) (failure_values (failure_code_value code) (utc_text fmt t))"
  unfolding allowed_def
proof (intro allI impI)
  fix tbl :: run_table and pk i0
  assume c: "condition_holds (failure_condition (failure_code_value code) (utc_text fmt t)) (tbl pk)"
  let ?after = "tbl(pk \<mapsto> assign (failure_values (failure_code_value code) (utc_text fmt t)) (case tbl pk of None \<Rightarrow> i0 | Some i \<Rightarrow> i))"
  from c obtain i where i: "tbl pk = Some i" "dict_get i ''status'' \<in> {Some (JStr ''PENDING''), Some (JStr ''RUNNING'')} \<or>
      dict_get i ''status'' = Some (JStr ''FAILED'') \<and> dict_get i ''failure_code'' = Some (JStr (failure_code_value code)) \<and>
      dict_get i ''completed_at'' = Some (JStr (utc_text fmt t))"
    by (auto simp: failure_condition_def split: option.splits)
  from i(2) show "table_steps fmt tbl ?after"
  proof
    assume "dict_get i ''status'' \<in> {Some (JStr ''PENDING''), Some (JStr ''RUNNING'')}"
    from table_step.failed [of tbl pk i, OF i(1) this] i(1) show "table_steps fmt tbl ?after" by auto
  next
    assume "dict_get i ''status'' = Some (JStr ''FAILED'') \<and> dict_get i ''failure_code'' = Some (JStr (failure_code_value code)) \<and>
      dict_get i ''completed_at'' = Some (JStr (utc_text fmt t))"
    then have "assign (failure_values (failure_code_value code) (utc_text fmt t)) i = i"
      by (intro assign_same) (simp add: failure_values_def)
    with i(1) show "table_steps fmt tbl ?after" by (simp add: fun_upd_idem)
  qed
qed

lemma on_error_Inr: "on_error f r = (Inr x, w) \<longleftrightarrow> r = (Inr x, w)"
  by (auto simp: on_error_def split: prod.splits sum.splits)

lemma on_error_world: "on_error f r = (q, w) \<Longrightarrow> \<exists>p. r = (p, w)"
  by (auto simp: on_error_def split: prod.splits sum.splits)

lemma run_key_Inr: "run_key run_id = Inr pk \<longleftrightarrow> canonical_uuid run_id \<and> pk = ''RUN#'' @ run_id"
  by (auto simp: run_key_def validate_uuid_def result_simps split: if_splits)

lemma record_ok_pk: "dict_get (record_item fmt r) ''PK'' = Some (JStr (''RUN#'' @ rrc_run_id r))"
  by (simp add: record_item_member record_member_def)

lemma create_pending_evolves:
  assumes tb: "table_ok fmt num view tb" and valid: "table_valid fmt (cv_items view w)" and ok: "record_ok r"
    and run: "create_pending fmt tb r w = (q, w')"
  shows "evolves fmt view w w'"
    and "q = Inr () \<Longrightarrow> rrc_status r = PENDING \<and> holds_record fmt (cv_items view w') (''RUN#'' @ rrc_run_id r) r"
proof -
  let ?pk = "''RUN#'' @ rrc_run_id r"
  obtain q1 w1 where put: "tc_put tb (record_item fmt r) (Not_exists ''PK'') w = (q1, w1)" by (metis surj_pair)
  have put_ok: "write_ok fmt view (\<lambda>_. record_item fmt r) ?pk (Not_exists ''PK'') w (q1, w1)"
    using tb record_ok_pk [of fmt r] unfolding put [symmetric] table_ok_def by blast
  have steps: "table_steps fmt (cv_items view u) ((cv_items view u)(?pk \<mapsto> record_item fmt r))"
    if "evolves fmt view w u" "condition_holds (Not_exists ''PK'') (cv_items view u ?pk)" "rrc_status r = PENDING" for u
  proof -
    have "cv_items view u ?pk = None"
    proof (rule ccontr)
      assume some: "cv_items view u ?pk \<noteq> None"
      moreover have "table_valid fmt (cv_items view u)"
        using that(1) valid table_steps_valid unfolding evolves_def by blast
      ultimately obtain q i where "cv_items view u ?pk = Some i" "dict_get i = record_member fmt q"
        unfolding table_valid_def holds_record_def by blast
      with that(2) show False by (simp add: record_member_def)
    qed
    from table_step.created [of r "cv_items view u", OF ok that(3) this] show ?thesis by blast
  qed
  from run have cases: "rrc_status r \<noteq> PENDING \<and> w' = w \<and> q \<noteq> Inr () \<or>
      rrc_status r = PENDING \<and> w' = w1 \<and> (q = Inr () \<longrightarrow> q1 = Inr ())"
    using ok unfolding create_pending_def put
    by (auto simp: record_ok_def run_key_def validate_uuid_def on_error_def split: if_splits sum.splits)
  then show "evolves fmt view w w'" using write_evolves(1) [OF put_ok steps] by auto
  show "rrc_status r = PENDING \<and> holds_record fmt (cv_items view w') (''RUN#'' @ rrc_run_id r) r" if "q = Inr ()"
  proof -
    from cases that have pending: "rrc_status r = PENDING" and w': "w' = w1" and q1: "q1 = Inr ()" by auto
    from write_evolves(2) [OF put_ok steps [OF _ _ pending] q1] ok w' show ?thesis
      unfolding holds_record_def written_def using pending by (auto simp: record_item_member)
  qed
qed

lemma update_run_cases:
  assumes "update_run tb run_id vs c w = (q, w')"
  shows "\<not> canonical_uuid run_id \<and> w' = w \<and> (\<exists>e. q = Inl e \<and> \<not> is_storage_error e) \<or>
    canonical_uuid run_id \<and> (\<exists>p. tc_update tb (''RUN#'' @ run_id) vs c w = (p, w') \<and>
      (q = p \<or> (\<exists>e. p = Inl e \<and> is_conditional_failure e \<and> q = Inl (transition_error e))))"
proof (cases "canonical_uuid run_id")
  case True
  then have "run_key run_id = Inr (''RUN#'' @ run_id)" by (simp add: run_key_Inr)
  with assms True show ?thesis
    by (auto simp: update_run_def on_error_def transition_error_def split: prod.splits sum.splits if_splits)
next
  case False
  then have "run_key run_id = Inl (refuse ''must be a canonical UUID string'')"
    by (simp add: run_key_def validate_uuid_def)
  with assms False show ?thesis
    by (auto simp: update_run_def is_storage_error_def storage_errors_def refuse_def raise_as_def)
qed

lemma update_run_evolves:
  assumes tb: "table_ok fmt num view tb" and run: "update_run tb run_id vs c w = (q, w')"
    and steps: "allowed fmt c vs"
  shows "evolves fmt view w w'"
    and "q = Inr () \<Longrightarrow> canonical_uuid run_id \<and> (\<exists>u. evolves fmt view w u \<and>
      written view (\<lambda>i. assign vs (case i of None \<Rightarrow> [(''PK'', JStr (''RUN#'' @ run_id))] | Some i \<Rightarrow> i)) (''RUN#'' @ run_id) c u w')"
    and "q = Inl e \<Longrightarrow> raised ''StateTransitionError'' e \<Longrightarrow> canonical_uuid run_id \<and> \<not> condition_holds c (cv_items view w' (''RUN#'' @ run_id))"
proof -
  let ?pk = "''RUN#'' @ run_id"
  let ?f = "\<lambda>i. assign vs (case i of None \<Rightarrow> [(''PK'', JStr ?pk)] | Some i \<Rightarrow> i)"
  have put_ok: "write_ok fmt view ?f ?pk c w (tc_update tb ?pk vs c w)"
    using tb unfolding table_ok_def by blast
  note cases = update_run_cases [OF run]
  have steps: "table_steps fmt (cv_items view u) ((cv_items view u)(?pk \<mapsto> ?f (cv_items view u ?pk)))"
    if "condition_holds c (cv_items view u ?pk)" for u
    using steps that unfolding allowed_def by blast
  show "evolves fmt view w w'"
    using cases write_evolves(1) [of fmt view ?f ?pk c w _ w', OF _ steps] put_ok by fastforce
  show "canonical_uuid run_id \<and> (\<exists>u. evolves fmt view w u \<and> written view ?f ?pk c u w')" if "q = Inr ()"
    using cases write_evolves(2) [of fmt view ?f ?pk c w "Inr ()" w', OF _ steps] put_ok that by fastforce
  show "canonical_uuid run_id \<and> \<not> condition_holds c (cv_items view w' ?pk)"
    if "q = Inl e" "raised ''StateTransitionError'' e"
  proof -
    have own: "is_storage_error e" using that(2) by (auto simp: is_storage_error_def storage_errors_def raised_def)
    with cases that(1) obtain p where p: "canonical_uuid run_id" "tc_update tb ?pk vs c w = (p, w')"
        "p = Inl e \<or> (\<exists>e. p = Inl e \<and> is_conditional_failure e)" by auto
    from put_ok [unfolded p(2)] have "\<forall>e. p = Inl e \<longrightarrow> \<not> is_storage_error e \<and>
        (is_conditional_failure e \<longrightarrow> \<not> condition_holds c (cv_items view w' ?pk))"
      by (simp add: write_ok_def)
    with p own show ?thesis by blast
  qed
qed

lemma utc_text_inject: "utc_ok fmt \<Longrightarrow> utc_text fmt a = utc_text fmt b \<longleftrightarrow> a = b"
  by (metis sum.inject(2) utc_roundtrip)

text \<open>What a successful write leaves, as records.\<close>

lemma written_record:
  assumes valid: "table_valid fmt (cv_items view w)" and u: "evolves fmt view w u"
    and wr: "written view (\<lambda>i. assign vs (case i of None \<Rightarrow> i0 | Some i \<Rightarrow> i)) pk c u w'" and needs: "\<not> condition_holds c None"
  shows "\<exists>r i. holds_record fmt (cv_items view u) pk r \<and> dict_get i = record_member fmt r \<and> condition_holds c (Some i) \<and>
    cv_items view w' = (cv_items view u)(pk \<mapsto> assign vs i)"
proof -
  from wr have c: "condition_holds c (cv_items view u pk)"
    and w': "cv_items view w' = (cv_items view u)(pk \<mapsto> assign vs (case cv_items view u pk of None \<Rightarrow> i0 | Some i \<Rightarrow> i))"
    by (auto simp: written_def)
  with needs obtain i where i: "cv_items view u pk = Some i" by (cases "cv_items view u pk") auto
  moreover have "table_valid fmt (cv_items view u)"
    using valid u table_steps_valid unfolding evolves_def by blast
  ultimately obtain r where r: "holds_record fmt (cv_items view u) pk r" unfolding table_valid_def by blast
  with i have "dict_get i = record_member fmt r" by (auto simp: holds_record_def)
  with r i c w' show ?thesis by auto
qed

lemma assigned_holds:
  assumes "holds_record fmt tbl pk r" and "record_ok r'" and "rrc_run_id r' = rrc_run_id r" and "dict_get i' = record_member fmt r'"
  shows "holds_record fmt (tbl(pk \<mapsto> i')) pk r'"
  using assms by (simp add: holds_record_def)

lemma mark_running_record:
  assumes tb: "table_ok fmt num view tb" and run: "mark_running fmt tb run_id t w = (q, w')"
  shows "evolves fmt view w w'"
    and "table_valid fmt (cv_items view w) \<Longrightarrow> q = Inr () \<Longrightarrow> \<exists>u r. evolves fmt view w u \<and>
      holds_record fmt (cv_items view u) (''RUN#'' @ run_id) r \<and> rrc_status r = PENDING \<and>
      holds_record fmt (cv_items view w') (''RUN#'' @ run_id) (r\<lparr>rrc_status := RUNNING, rrc_started_at := Some t\<rparr>)"
    and "q = Inl e \<Longrightarrow> raised ''StateTransitionError'' e \<Longrightarrow> canonical_uuid run_id \<and>
      \<not> condition_holds (Equals ''status'' ''PENDING'') (cv_items view w' (''RUN#'' @ run_id))"
proof -
  note up = update_run_evolves [OF tb run [unfolded mark_running_def] start_allowed]
  show "evolves fmt view w w'" by (rule up(1))
  show "q = Inl e \<Longrightarrow> raised ''StateTransitionError'' e \<Longrightarrow> canonical_uuid run_id \<and>
      \<not> condition_holds (Equals ''status'' ''PENDING'') (cv_items view w' (''RUN#'' @ run_id))" by (rule up(3))
  let ?pk = "''RUN#'' @ run_id"
  assume valid: "table_valid fmt (cv_items view w)" and "q = Inr ()"
  from up(2) [OF this(2)] obtain u where u: "evolves fmt view w u"
      and wr: "written view (\<lambda>i. assign (start_values (utc_text fmt t)) (case i of None \<Rightarrow> [(''PK'', JStr (''RUN#'' @ run_id))] | Some i \<Rightarrow> i))
        ?pk (Equals ''status'' ''PENDING'') u w'" by blast
  from written_record [OF valid u wr] obtain r i where r: "holds_record fmt (cv_items view u) ?pk r"
      and i: "dict_get i = record_member fmt r" "condition_holds (Equals ''status'' ''PENDING'') (Some i)"
        "cv_items view w' = (cv_items view u)(?pk \<mapsto> assign (start_values (utc_text fmt t)) i)" by auto
  from i(1,2) have pending: "rrc_status r = PENDING" by simp
  from r have "record_ok r" by (simp add: holds_record_def)
  with record_step.start [OF pending] have "record_ok (r\<lparr>rrc_status := RUNNING, rrc_started_at := Some t\<rparr>)"
    by (blast intro: record_step_ok)
  from assigned_holds [OF r this _ assigned_record(1) [OF i(1)]]
  have "holds_record fmt (cv_items view w') ?pk (r\<lparr>rrc_status := RUNNING, rrc_started_at := Some t\<rparr>)" unfolding i(3) by simp
  with u r pending show "\<exists>u r. evolves fmt view w u \<and> holds_record fmt (cv_items view u) ?pk r \<and> rrc_status r = PENDING \<and>
      holds_record fmt (cv_items view w') ?pk (r\<lparr>rrc_status := RUNNING, rrc_started_at := Some t\<rparr>)" by blast
qed

lemma mark_succeeded_record:
  assumes tb: "table_ok fmt num view tb" and run: "mark_succeeded fmt tb run_id t w = (q, w')"
  shows "evolves fmt view w w'"
    and "table_valid fmt (cv_items view w) \<Longrightarrow> utc_ok fmt \<Longrightarrow> q = Inr () \<Longrightarrow>
      \<exists>r. holds_record fmt (cv_items view w') (''RUN#'' @ run_id) r \<and> rrc_status r = SUCCEEDED \<and> rrc_completed_at r = Some t"
    and "q = Inl e \<Longrightarrow> raised ''StateTransitionError'' e \<Longrightarrow> canonical_uuid run_id \<and>
      \<not> condition_holds (success_condition (utc_text fmt t)) (cv_items view w' (''RUN#'' @ run_id))"
proof -
  note up = update_run_evolves [OF tb run [unfolded mark_succeeded_def] success_allowed]
  show "evolves fmt view w w'" by (rule up(1))
  show "q = Inl e \<Longrightarrow> raised ''StateTransitionError'' e \<Longrightarrow> canonical_uuid run_id \<and>
      \<not> condition_holds (success_condition (utc_text fmt t)) (cv_items view w' (''RUN#'' @ run_id))" by (rule up(3))
  let ?pk = "''RUN#'' @ run_id" and ?vs = "success_values (utc_text fmt t)"
  assume valid: "table_valid fmt (cv_items view w)" and fmt: "utc_ok fmt" and "q = Inr ()"
  from up(2) [OF this(3)] obtain u where u: "evolves fmt view w u"
      and wr: "written view (\<lambda>i. assign ?vs (case i of None \<Rightarrow> [(''PK'', JStr (''RUN#'' @ run_id))] | Some i \<Rightarrow> i))
        ?pk (success_condition (utc_text fmt t)) u w'" by blast
  from written_record [OF valid u wr] obtain r i where r: "holds_record fmt (cv_items view u) ?pk r"
      and i: "dict_get i = record_member fmt r" "condition_holds (success_condition (utc_text fmt t)) (Some i)"
        "cv_items view w' = (cv_items view u)(?pk \<mapsto> assign ?vs i)" by (auto simp: success_condition_def)
  let ?r = "r\<lparr>rrc_status := SUCCEEDED, rrc_completed_at := Some t\<rparr>"
  from r have ok: "record_ok r" by (simp add: holds_record_def)
  from i(1,2) fmt have "rrc_status r = RUNNING \<or> ?r = r"
    by (cases r) (auto simp: success_condition_def record_member_def utc_text_inject)
  with ok record_step.succeed [of r t] have "record_ok ?r" by (metis record_step_ok)
  from assigned_holds [OF r this _ assigned_record(2) [OF i(1)]]
  have "holds_record fmt (cv_items view w') ?pk ?r" unfolding i(3) by simp
  then show "\<exists>r. holds_record fmt (cv_items view w') ?pk r \<and> rrc_status r = SUCCEEDED \<and> rrc_completed_at r = Some t"
    by (intro exI [of _ ?r]) simp
qed

lemma failure_code_inject: "failure_code_value a = failure_code_value b \<longleftrightarrow> a = b"
  by (cases a; cases b; simp)

lemma mark_failed_record:
  assumes tb: "table_ok fmt num view tb" and run: "mark_failed fmt tb run_id code t w = (q, w')"
  shows "evolves fmt view w w'"
    and "table_valid fmt (cv_items view w) \<Longrightarrow> utc_ok fmt \<Longrightarrow> q = Inr () \<Longrightarrow>
      \<exists>r. holds_record fmt (cv_items view w') (''RUN#'' @ run_id) r \<and> rrc_status r = RUN_FAILED \<and> rrc_failure_code r = Some code"
    and "q = Inl e \<Longrightarrow> raised ''StateTransitionError'' e \<Longrightarrow> canonical_uuid run_id \<and>
      \<not> condition_holds (failure_condition (failure_code_value code) (utc_text fmt t)) (cv_items view w' (''RUN#'' @ run_id))"
proof -
  note up = update_run_evolves [OF tb run [unfolded mark_failed_def] failure_allowed]
  show "evolves fmt view w w'" by (rule up(1))
  show "q = Inl e \<Longrightarrow> raised ''StateTransitionError'' e \<Longrightarrow> canonical_uuid run_id \<and>
      \<not> condition_holds (failure_condition (failure_code_value code) (utc_text fmt t)) (cv_items view w' (''RUN#'' @ run_id))" by (rule up(3))
  let ?pk = "''RUN#'' @ run_id" and ?vs = "failure_values (failure_code_value code) (utc_text fmt t)"
    and ?c = "failure_condition (failure_code_value code) (utc_text fmt t)"
  assume valid: "table_valid fmt (cv_items view w)" and fmt: "utc_ok fmt" and "q = Inr ()"
  from up(2) [OF this(3)] obtain u where u: "evolves fmt view w u"
      and wr: "written view (\<lambda>i. assign ?vs (case i of None \<Rightarrow> [(''PK'', JStr (''RUN#'' @ run_id))] | Some i \<Rightarrow> i)) ?pk ?c u w'" by blast
  from written_record [OF valid u wr] obtain r i where r: "holds_record fmt (cv_items view u) ?pk r"
      and i: "dict_get i = record_member fmt r" "condition_holds ?c (Some i)"
        "cv_items view w' = (cv_items view u)(?pk \<mapsto> assign ?vs i)" by (auto simp: failure_condition_def)
  let ?r = "r\<lparr>rrc_status := RUN_FAILED, rrc_completed_at := Some t, rrc_failure_code := Some code\<rparr>"
  from r have ok: "record_ok r" by (simp add: holds_record_def)
  from i(1,2) fmt have "rrc_status r \<in> {PENDING, RUNNING} \<or> ?r = r"
    by (cases r) (auto simp: failure_condition_def record_member_def utc_text_inject failure_code_inject)
  with ok record_step.fail [of r code t] have "record_ok ?r" by (metis record_step_ok)
  from assigned_holds [OF r this _ assigned_record(3) [OF i(1)]]
  have "holds_record fmt (cv_items view w') ?pk ?r" unfolding i(3) by simp
  then show "\<exists>r. holds_record fmt (cv_items view w') ?pk r \<and> rrc_status r = RUN_FAILED \<and> rrc_failure_code r = Some code"
    by (intro exI [of _ ?r]) simp
qed

section \<open>Reading a record\<close>

lemma jget_dict: "jget (JObj d) k = (case dict_get d k of None \<Rightarrow> JNull | Some v \<Rightarrow> v)"
  by (simp add: dict_get_def)

lemma jkeys_dict: "k \<in> jkeys (JObj d) \<longleftrightarrow> dict_get d k \<noteq> None"
  by (simp add: dict_get_def map_of_eq_None_iff)

lemma dict_get_del: "dict_get (dict_del i k) = (dict_get i)(k := None)"
  by (simp add: fun_eq_iff dict_get_def dict_del_def delete_conv)

lemma run_keys_valid:
  assumes "canonical_uuid i"
  shows "run_key_check (JStr (run_prefix i @ ''run-spec.json'')) = Inr (run_prefix i @ ''run-spec.json'')"
    and "run_prefix_check (JStr (run_prefix i)) = Inr (run_prefix i)"
proof -
  show "run_key_check (JStr (run_prefix i @ ''run-spec.json'')) = Inr (run_prefix i @ ''run-spec.json'')"
    by (rule run_key_ok [OF assms]) (auto simp: is_control_def)
  show "run_prefix_check (JStr (run_prefix i)) = Inr (run_prefix i)" by (rule run_prefix_ok [OF assms])
qed

lemma record_ok_places:
  assumes "record_ok r"
  shows "rrc_run_spec_key r = run_prefix (rrc_run_id r) @ ''run-spec.json''" "rrc_result_prefix r = run_prefix (rrc_run_id r)"
  using assms by (auto simp: record_ok_def admit_record_def split: if_splits)

lemma admit_optional:
  assumes "name \<in> jkeys j \<longleftrightarrow> v \<noteq> None" and "\<And>t. v = Some t \<Longrightarrow> jget j name = JStr (utc_text fmt t)" and "utc_ok fmt"
  shows "defaulted j name None (admit_timestamp fmt) = Inr v"
  using assms by (cases v) (auto simp: defaulted_def admit_timestamp_def result_simps)

lemma admit_optional_code:
  assumes "name \<in> jkeys j \<longleftrightarrow> v \<noteq> None" and "\<And>c. v = Some c \<Longrightarrow> jget j name = JStr (failure_code_value c)"
  shows "defaulted j name None admit_failure_code = Inr v"
  using assms by (cases v) (auto simp: defaulted_def admit_failure_code_def result_simps)

text \<open>The members of an answer, as the record's validation reads them.\<close>

lemma answer_members:
  assumes "\<forall>name. dict_get values name = map_option (read_number num) (record_member fmt r name)"
  shows "dict_get (dict_set (dict_del values ''PK'') ''run_id'' (JStr (rrc_run_id r))) name =
    (if name = ''run_id'' then Some (JStr (rrc_run_id r)) else if name = ''PK'' then None
     else map_option (read_number num) (record_member fmt r name))"
  using assms by (simp add: dict_get_set dict_get_del)

lemma answer_parts:
  assumes fmt: "utc_ok fmt" and ok: "record_ok r"
    and j: "j = JObj (dict_set (dict_del values ''PK'') ''run_id'' (JStr (rrc_run_id r)))"
    and vals: "\<forall>name. dict_get values name = map_option (read_number num) (record_member fmt r name)"
  shows "jkeys j \<subseteq> set record_names" "required j ''run_id'' validate_uuid = Inr (rrc_run_id r)"
    "required j ''status'' (admit_enum run_status_value all_statuses) = Inr (rrc_status r)"
    "required j ''visibility'' admit_visibility = Inr (rrc_visibility r)"
    "required j ''dataset_key'' dataset_key_check = Inr (rrc_dataset_key r)"
    "required j ''dataset_sha256'' validate_sha256 = Inr (rrc_dataset_sha256 r)"
    "required j ''run_spec_key'' run_key_check = Inr (rrc_run_spec_key r)"
    "required j ''result_prefix'' run_prefix_check = Inr (rrc_result_prefix r)"
    "required j ''image_digest'' validate_image_digest = Inr (rrc_image_digest r)"
    "required j ''created_at'' (admit_created_at fmt) = Inr (rrc_created_at r)"
    "defaulted j ''started_at'' None (admit_timestamp fmt) = Inr (rrc_started_at r)"
    "defaulted j ''completed_at'' None (admit_timestamp fmt) = Inr (rrc_completed_at r)"
    "defaulted j ''failure_code'' None admit_failure_code = Inr (rrc_failure_code r)"
    "required j ''expires_at'' strict_int = strict_int (num (rrc_expires_at r))"
proof -
  note get = answer_members [OF vals]
  have member: "name \<in> jkeys j \<longleftrightarrow> name = ''run_id'' \<or> name \<noteq> ''PK'' \<and> record_member fmt r name \<noteq> None" for name
    unfolding j jkeys_dict get by auto
  have field: "jget j name = read_number num v" if "name \<noteq> ''run_id''" "name \<noteq> ''PK''" "record_member fmt r name = Some v" for name v
    unfolding j jget_dict get using that by simp
  have "jget j ''run_id'' = JStr (rrc_run_id r)" unfolding j jget_dict get by simp
  with ok show "required j ''run_id'' validate_uuid = Inr (rrc_run_id r)"
    by (simp add: required_def member validate_uuid_def record_ok_def)
  show "jkeys j \<subseteq> set record_names"
    by (auto simp: member record_member_def record_names_def split: if_splits)
  have str_field: "name \<in> jkeys j \<and> jget j name = JStr s"
    if "name \<noteq> ''run_id''" "name \<noteq> ''PK''" "record_member fmt r name = Some (JStr s)" for name s
    using field [OF that] that by (simp add: member read_number_def)
  note places = record_ok_places [OF ok]
  have uuid: "canonical_uuid (rrc_run_id r)" using ok by (simp add: record_ok_def)
  show "required j ''status'' (admit_enum run_status_value all_statuses) = Inr (rrc_status r)"
    using str_field [of "''status''"] by (simp add: required_def record_member_def)
  show "required j ''visibility'' admit_visibility = Inr (rrc_visibility r)"
    using str_field [of "''visibility''"] by (simp add: required_def record_member_def)
  show "required j ''dataset_key'' dataset_key_check = Inr (rrc_dataset_key r)"
    using str_field [of "''dataset_key''"] ok by (simp add: required_def record_member_def record_ok_def)
  show "required j ''dataset_sha256'' validate_sha256 = Inr (rrc_dataset_sha256 r)"
    using str_field [of "''dataset_sha256''"] ok by (simp add: required_def record_member_def record_ok_def)
  show "required j ''run_spec_key'' run_key_check = Inr (rrc_run_spec_key r)"
    using str_field [of "''run_spec_key''"] run_keys_valid(1) [OF uuid] places by (simp add: required_def record_member_def)
  show "required j ''result_prefix'' run_prefix_check = Inr (rrc_result_prefix r)"
    using str_field [of "''result_prefix''"] run_keys_valid(2) [OF uuid] places by (simp add: required_def record_member_def)
  show "required j ''image_digest'' validate_image_digest = Inr (rrc_image_digest r)"
    using str_field [of "''image_digest''"] ok by (simp add: required_def record_member_def record_ok_def)
  show "required j ''created_at'' (admit_created_at fmt) = Inr (rrc_created_at r)"
    using str_field [of "''created_at''"] fmt
    by (simp add: required_def record_member_def admit_created_at_def admit_timestamp_def result_simps)
  show "defaulted j ''started_at'' None (admit_timestamp fmt) = Inr (rrc_started_at r)"
    using str_field [of "''started_at''"] by (intro admit_optional fmt) (simp_all add: member record_member_def)
  show "defaulted j ''completed_at'' None (admit_timestamp fmt) = Inr (rrc_completed_at r)"
    using str_field [of "''completed_at''"] by (intro admit_optional fmt) (simp_all add: member record_member_def)
  show "defaulted j ''failure_code'' None admit_failure_code = Inr (rrc_failure_code r)"
    using str_field [of "''failure_code''"] by (intro admit_optional_code) (simp_all add: member record_member_def)
  show "required j ''expires_at'' strict_int = strict_int (num (rrc_expires_at r))"
    using field [of "''expires_at''"] by (simp add: required_def member record_member_def read_number_def)
qed

lemma answer_validated:
  assumes fmt: "utc_ok fmt" and ok: "record_ok r"
    and vals: "\<forall>name. dict_get values name = map_option (read_number num) (record_member fmt r name)"
  shows "num = JInt \<Longrightarrow> run_record_validate fmt (JObj (dict_set (dict_del values ''PK'') ''run_id'' (JStr (rrc_run_id r)))) = Inr r"
    and "\<forall>n m. num n \<noteq> JInt m \<Longrightarrow>
      run_record_validate fmt (JObj (dict_set (dict_del values ''PK'') ''run_id'' (JStr (rrc_run_id r)))) = Inl validation_error"
proof -
  note parts = answer_parts [OF fmt ok refl vals]
  have admit: "admit_record r = Inr r" using ok by (simp add: record_ok_def)
  show "run_record_validate fmt (JObj (dict_set (dict_del values ''PK'') ''run_id'' (JStr (rrc_run_id r)))) = Inr r" if "num = JInt"
    using parts(1) admit unfolding run_record_validate_def parts(2-14) that
    by (cases r) (simp add: model_def strict_int_def)
  have error: "collected validation_error"
    by (simp add: collected_def validation_error_def external_def)
  show "run_record_validate fmt (JObj (dict_set (dict_del values ''PK'') ''run_id'' (JStr (rrc_run_id r)))) = Inl validation_error"
    if "\<forall>n m. num n \<noteq> JInt m"
  proof -
    have "strict_int (num (rrc_expires_at r)) = Inl validation_error"
      using that by (auto simp: strict_int_def split: json.splits)
    then show ?thesis
      unfolding run_record_validate_def parts(2-14) by (simp add: model_def vpair_def error)
  qed
qed

lemma repository_get_record:
  assumes tb: "table_ok fmt num view tb" and fmt: "utc_ok fmt" and run: "repository_get fmt tb run_id True w = (q, w')"
  shows "evolves fmt view w w'"
    and "table_valid fmt (cv_items view w) \<Longrightarrow> num = JInt \<Longrightarrow> q = Inr v \<Longrightarrow> canonical_uuid run_id \<and>
      (case v of None \<Rightarrow> cv_items view w' (''RUN#'' @ run_id) = None | Some r \<Rightarrow> holds_record fmt (cv_items view w') (''RUN#'' @ run_id) r)"
    and "holds_record fmt (cv_items view w) (''RUN#'' @ run_id) r \<Longrightarrow> tc_get tb (''RUN#'' @ run_id) True w = (Inr j, w') \<Longrightarrow>
      (num = JInt \<longrightarrow> (\<exists>r'. q = Inr (Some r') \<and> record_step\<^sup>*\<^sup>* r r' \<and> holds_record fmt (cv_items view w') (''RUN#'' @ run_id) r')) \<and>
      ((\<forall>n m. num n \<noteq> JInt m) \<longrightarrow> q = Inl validation_error)"
proof -
  let ?pk = "''RUN#'' @ run_id"
  have get: "evolves fmt view w w1" "p = Inr j \<Longrightarrow> members j \<noteq> None \<and> (case cv_items view w1 ?pk of
      None \<Rightarrow> jget j ''Item'' = JNull
    | Some i \<Rightarrow> \<exists>values. jget j ''Item'' = JObj values \<and> (\<forall>name. dict_get values name = map_option (read_number num) (dict_get i name)))"
    if "tc_get tb ?pk True w = (p, w1)" for p w1 j
    using tb that unfolding table_ok_def by blast+
  show "evolves fmt view w w'"
  proof (cases "run_key run_id")
    case (Inr pk)
    obtain p w1 where p: "tc_get tb pk True w = (p, w1)" by (metis surj_pair)
    with run Inr have "w' = w1" by (auto simp: repository_get_def sbind_def split: sum.splits)
    with get(1) p Inr show ?thesis by (simp add: run_key_Inr)
  qed (use run in \<open>simp add: repository_get_def\<close>)
  have answered: "record_of_response fmt run_id j = (if num = JInt then Inr (Some r) else Inl validation_error)"
    if "tc_get tb ?pk True w = (Inr j, w')" "holds_record fmt (cv_items view w') ?pk r" "num = JInt \<or> (\<forall>n m. num n \<noteq> JInt m)" for j r
  proof -
    from that(2) obtain i where i: "cv_items view w' ?pk = Some i" "dict_get i = record_member fmt r" "record_ok r" "rrc_run_id r = run_id"
      unfolding holds_record_def by fastforce
    from get(2) [OF that(1) refl, unfolded i(1) option.case i(2)] obtain vs where vs: "members j \<noteq> None" "jget j ''Item'' = JObj vs"
        "\<forall>name. dict_get vs name = map_option (read_number num) (record_member fmt r name)" by blast
    from vs(3) i(4) have "dict_get vs ''PK'' = Some (JStr (''RUN#'' @ run_id))" by (simp add: record_member_def read_number_def)
    with vs(1,2) answer_validated [OF fmt i(3) vs(3)] that(3) show ?thesis
      unfolding i(4) by (auto simp: record_of_response_def result_simps)
  qed
  show "canonical_uuid run_id \<and> (case v of None \<Rightarrow> cv_items view w' ?pk = None | Some r \<Rightarrow> holds_record fmt (cv_items view w') ?pk r)"
    if valid: "table_valid fmt (cv_items view w)" and num: "num = JInt" and q: "q = Inr v"
  proof -
    from run q obtain j where j: "canonical_uuid run_id" "tc_get tb ?pk True w = (Inr j, w')" "record_of_response fmt run_id j = Inr v"
      by (auto simp: repository_get_def sbind_def run_key_Inr split: sum.splits prod.splits)
    show ?thesis
    proof (cases "cv_items view w' ?pk")
      case None
      with get(2) [OF j(2) refl] j(3) have "v = None" by (auto simp: record_of_response_def)
      with None j(1) show ?thesis by simp
    next
      case (Some i)
      from get(1) [OF j(2)] valid have "table_valid fmt (cv_items view w')" unfolding evolves_def by (blast dest: table_steps_valid)
      with Some obtain r where r: "holds_record fmt (cv_items view w') ?pk r" unfolding table_valid_def by blast
      from answered [OF j(2) r] num j(3) have "v = Some r" by simp
      with r j(1) show ?thesis by simp
    qed
  qed
  show "(num = JInt \<longrightarrow> (\<exists>r'. q = Inr (Some r') \<and> record_step\<^sup>*\<^sup>* r r' \<and> holds_record fmt (cv_items view w') ?pk r')) \<and>
      ((\<forall>n m. num n \<noteq> JInt m) \<longrightarrow> q = Inl validation_error)"
    if holds: "holds_record fmt (cv_items view w) ?pk r" and got: "tc_get tb ?pk True w = (Inr j, w')"
  proof -
    from holds have "run_key run_id = Inr ?pk" by (auto simp: holds_record_def run_key_Inr record_ok_def)
    with run got have q: "q = record_of_response fmt run_id j" by (simp add: repository_get_def sbind_def)
    from get(1) [OF got] table_steps_record [OF _ holds] obtain r' where r': "record_step\<^sup>*\<^sup>* r r'" "holds_record fmt (cv_items view w') ?pk r'"
      unfolding evolves_def by blast
    have "\<not> (\<forall>n m. num n \<noteq> JInt m)" if "num = JInt" using that by simp
    with answered [OF got r'(2)] q r' show ?thesis by auto
  qed
qed

section \<open>The operations on objects\<close>

lemma storage_key_same: "validate_storage_key key = Inr k \<Longrightarrow> k = key"
  using validator_Inr(5) by (fastforce simp: validate_storage_key_def split: if_splits)

lemma stored_object_Inr: "stored_object_create key n digest = Inr s \<Longrightarrow> s = \<lparr>so_key = key, so_byte_length = n, so_sha256 = digest\<rparr>"
  by (auto simp: stored_object_create_def result_simps split: if_splits)

lemma head_response_Inr:
  assumes "head_response key j = Inr s" and "jget j ''ContentLength'' = JInt n" and "jget (jget j ''Metadata'') ''sha256'' = JStr d"
  shows "s = \<lparr>so_key = key, so_byte_length = n, so_sha256 = d\<rparr>"
  using assms stored_object_Inr by (fastforce simp: head_response_def split: if_splits sum.splits)

lemma sbind_cases: "sbind r k = (q, w') \<Longrightarrow> (\<exists>e. r = (Inl e, w') \<and> q = Inl e) \<or> (\<exists>x w1. r = (Inr x, w1) \<and> k x w1 = (q, w'))"
  by (auto simp: sbind_def split: prod.splits sum.splits)

lemma objects_put: "objects_ok fmt view client \<Longrightarrow> oc_put client key body content_type d tag w = answer \<Longrightarrow>
    object_put_ok fmt view key (body, d) w answer"
  by (auto simp: objects_ok_def)

lemma objects_head:
  assumes "objects_ok fmt view client" and "oc_head client key w = (p, w1)"
  shows "evolves fmt view w w1" and "p = Inr j \<Longrightarrow> \<exists>body d. cv_objects view w1 key = Some (body, d) \<and>
      jget j ''ContentLength'' = JInt (int (length body)) \<and> jget (jget j ''Metadata'') ''sha256'' = JStr d"
proof -
  note head = assms(1) [unfolded objects_ok_def, THEN conjunct2, THEN conjunct1, rule_format, OF assms(2)]
  show "evolves fmt view w w1" by (rule head [THEN conjunct1])
  show "\<exists>body d. cv_objects view w1 key = Some (body, d) \<and>
      jget j ''ContentLength'' = JInt (int (length body)) \<and> jget (jget j ''Metadata'') ''sha256'' = JStr d" if "p = Inr j"
    by (rule head [THEN conjunct2, rule_format, OF that])
qed

lemma objects_get:
  assumes "objects_ok fmt view client" and "oc_get client key w = (p, w1)"
  shows "evolves fmt view w w1" and "p = Inr (Response (Reads b)) \<Longrightarrow> \<exists>d. cv_objects view w1 key = Some (b, d)"
proof -
  note got = assms(1) [unfolded objects_ok_def, THEN conjunct2, THEN conjunct2, THEN conjunct1, rule_format, OF assms(2)]
  show "evolves fmt view w w1" by (rule got [THEN conjunct1])
  show "\<exists>d. cv_objects view w1 key = Some (b, d)" if "p = Inr (Response (Reads b))"
    by (rule got [THEN conjunct2, rule_format, OF that])
qed

lemma objects_presign: "objects_ok fmt view client \<Longrightarrow> oc_presign client key n w = (p, w1) \<Longrightarrow> evolves fmt view w w1"
  by (auto simp: objects_ok_def)

lemma store_head_object:
  assumes client: "objects_ok fmt view client" and run: "store_head client key w = (q, w')"
  shows "evolves fmt view w w'"
    and "q = Inr s \<Longrightarrow> \<exists>body d. cv_objects view w' key = Some (body, d) \<and> s = \<lparr>so_key = key, so_byte_length = int (length body), so_sha256 = d\<rparr>"
proof -
  note head = objects_head [OF client]
  show "evolves fmt view w w'"
    using run head(1) [of key w] storage_key_same [of key]
    by (fastforce simp: store_head_def on_error_def sbind_def split: sum.splits prod.splits)
  assume "q = Inr s"
  with run obtain j w1 where j: "oc_head client key w = (Inr j, w1)" "w' = w1" "head_response key j = Inr s"
    using storage_key_same [of key] by (fastforce simp: store_head_def on_error_def sbind_def split: sum.splits prod.splits)
  from head(2) [OF j(1) refl] obtain body d where "cv_objects view w1 key = Some (body, d)"
      "jget j ''ContentLength'' = JInt (int (length body))" "jget (jget j ''Metadata'') ''sha256'' = JStr d" by blast
  with j(2) head_response_Inr [OF j(3)]
  show "\<exists>body d. cv_objects view w' key = Some (body, d) \<and> s = \<lparr>so_key = key, so_byte_length = int (length body), so_sha256 = d\<rparr>" by auto
qed

lemma read_body_Inr: "read_body digest s response = Inr b \<Longrightarrow>
    response = Response (Reads b) \<and> int (length b) = so_byte_length s \<and> digest b = so_sha256 s"
  by (auto simp: read_body_def split: get_response.splits body_read.splits if_splits)

lemma store_get_cases:
  assumes "store_get digest client key n w = (q, w')"
  shows "w' = w \<and> (\<exists>e. q = Inl e) \<or> (\<exists>p w1. store_head client key w = (p, w1) \<and> (w' = w1 \<and> (\<exists>e. q = Inl e) \<or>
    (\<exists>s p2. p = Inr s \<and> so_byte_length s \<le> n \<and> oc_get client key w1 = (p2, w') \<and>
      (\<forall>b. q = Inr b \<longrightarrow> (\<exists>response. p2 = Inr response \<and> read_body digest s response = Inr b)))))"
proof (cases "validate_storage_key key")
  case (Inr k)
  then have k: "k = key" by (rule storage_key_same)
  obtain p w1 where p: "store_head client key w = (p, w1)" by (metis surj_pair)
  obtain p2 w2 where p2: "oc_get client key w1 = (p2, w2)" by (metis surj_pair)
  show ?thesis
  proof (cases p)
    case (Inl e)
    with assms \<open>validate_storage_key key = Inr k\<close> k p show ?thesis by (auto simp: store_get_def sbind_def split: if_splits)
  next
    case s: (Inr s)
    show ?thesis
    proof (cases "n < 0 \<or> so_byte_length s > n")
      case True
      with assms Inr k p s show ?thesis by (auto simp: store_get_def sbind_def split: if_splits)
    next
      case False
      with assms Inr k p p2 s have "(q, w') = sbind (on_error not_found_as (p2, w2)) (\<lambda>response w2. (read_body digest s response, w2))"
        by (simp add: store_get_def sbind_def)
      then have "w' = w2" "\<forall>b. q = Inr b \<longrightarrow> (\<exists>response. p2 = Inr response \<and> read_body digest s response = Inr b)"
        by (auto simp: sbind_def on_error_def split: sum.splits)
      with False p p2 s show ?thesis by fastforce
    qed
  qed
next
  case (Inl e)
  with assms have "q = Inl e" "w' = w" by (simp_all add: store_get_def)
  then show ?thesis by blast
qed

lemma store_get_object:
  assumes client: "objects_ok fmt view client" and run: "store_get digest client key n w = (q, w')"
  shows "evolves fmt view w w'"
    and "q = Inr b \<Longrightarrow> cv_objects view w' key = Some (b, digest b) \<and> int (length b) \<le> n"
proof -
  note read = objects_get [OF client]
  note cases = store_get_cases [OF run]
  show "evolves fmt view w w'"
    using cases
  proof (elim disjE exE conjE)
    fix p w1 s p2
    assume "store_head client key w = (p, w1)" "oc_get client key w1 = (p2, w')"
    with store_head_object(1) [OF client] read(1) show ?thesis by (blast intro: evolves_trans)
  qed (use store_head_object(1) [OF client] in auto)
  assume q: "q = Inr b"
  from cases [unfolded q] obtain w1 s r where r: "store_head client key w = (Inr s, w1)" "so_byte_length s \<le> n"
      "oc_get client key w1 = (Inr r, w')" "read_body digest s r = Inr b" by auto
  note body = read_body_Inr [OF r(4)]
  from read(2) [OF r(3)] body obtain d where d: "cv_objects view w' key = Some (b, d)" by blast
  from store_head_object(2) [OF client r(1) refl] obtain b1 d1 where "cv_objects view w1 key = Some (b1, d1)" "so_sha256 s = d1" by auto
  with evolves_object [OF read(1) [OF r(3)]] d body r(2) show "cv_objects view w' key = Some (b, digest b) \<and> int (length b) \<le> n" by auto
qed

lemma store_put_object:
  assumes client: "objects_ok fmt view client" and run: "store_put digest client key body content_type lifecycle w = (q, w')"
  shows "evolves fmt view w w'"
    and "q = Inr s \<Longrightarrow> s = \<lparr>so_key = key, so_byte_length = int (length body), so_sha256 = digest body\<rparr> \<and>
      (\<exists>b. cv_objects view w' key = Some (b, digest body) \<and> digest b = digest body)"
proof -
  let ?s = "\<lparr>so_key = key, so_byte_length = int (length body), so_sha256 = digest body\<rparr>"
  have early: "(w' = w \<and> (\<exists>e. q = Inl e)) \<or> (\<exists>p w1. oc_put client key body content_type (digest body) (lifecycle_value lifecycle) w = (p, w1) \<and>
      (case p of Inr _ \<Rightarrow> q = Inr ?s \<and> w' = w1
        | Inl e \<Rightarrow> (w' = w1 \<and> (\<exists>e. q = Inl e)) \<or> (\<exists>g. store_get digest client key (int (length body)) w1 = (g, w') \<and>
            (\<forall>s. q = Inr s \<longrightarrow> s = ?s \<and> (\<exists>b. g = Inr b \<and> digest b = digest body)))))"
  proof (cases "validate_storage_key key")
    case (Inr k)
    then have k: "k = key" by (rule storage_key_same)
    show ?thesis
    proof (cases "content_type = [] \<or> (\<exists>e. stored_object_create key (int (length body)) (digest body) = Inl e)")
      case True
      then have "\<exists>e. store_put digest client key body content_type lifecycle w = (Inl e, w)"
        using Inr k by (cases "content_type = []") (auto simp: store_put_def)
      with run show ?thesis by auto
    next
      case False
      then obtain s where s: "stored_object_create key (int (length body)) (digest body) = Inr s" "content_type \<noteq> []"
        by (cases "stored_object_create key (int (length body)) (digest body)") auto
      have s': "s = ?s" by (rule stored_object_Inr [OF s(1)])
      obtain p w1 where p: "oc_put client key body content_type (digest body) (lifecycle_value lifecycle) w = (p, w1)" by (metis surj_pair)
      obtain g w2 where g: "store_get digest client key (int (length body)) w1 = (g, w2)" by (metis surj_pair)
      from run Inr k s s' p g show ?thesis by (cases p; cases g) (auto simp: store_put_def split: if_splits)
    qed
  next
    case (Inl e)
    with run have "q = Inl e" "w' = w" by (simp_all add: store_put_def)
    then show ?thesis by blast
  qed
  have put: "\<exists>u. evolves fmt view w u \<and> cv_items view w1 = cv_items view u \<and>
      (cv_objects view w1 = cv_objects view u \<and> p \<noteq> Inr () \<or>
       cv_objects view u key = None \<and> cv_objects view w1 = (cv_objects view u)(key \<mapsto> (body, digest body)))"
    if "oc_put client key body content_type (digest body) (lifecycle_value lifecycle) w = (p, w1)" for p w1
  proof -
    have "object_put_ok fmt view key (body, digest body) w (p, w1)"
      by (rule objects_put [OF client that])
    then show ?thesis by (simp add: object_put_ok_def)
  qed
  have put_evolves: "evolves fmt view w w1"
    if "oc_put client key body content_type (digest body) (lifecycle_value lifecycle) w = (p, w1)" for p w1
  proof -
    from put [OF that] obtain u where u: "evolves fmt view w u" "cv_items view w1 = cv_items view u"
        "cv_objects view w1 = cv_objects view u \<or>
         cv_objects view u key = None \<and> cv_objects view w1 = (cv_objects view u)(key \<mapsto> (body, digest body))" by blast
    from u(3) have "cv_objects view u \<subseteq>\<^sub>m cv_objects view w1" by (auto simp: map_le_def dom_def)
    with u(2) have "evolves fmt view u w1" by (simp add: evolves_def)
    with u(1) show ?thesis by (rule evolves_trans)
  qed
  show "evolves fmt view w w'"
    using early
  proof
    assume "\<exists>p w1. oc_put client key body content_type (digest body) (lifecycle_value lifecycle) w = (p, w1) \<and>
      (case p of Inr _ \<Rightarrow> q = Inr ?s \<and> w' = w1
        | Inl e \<Rightarrow> (w' = w1 \<and> (\<exists>e. q = Inl e)) \<or> (\<exists>g. store_get digest client key (int (length body)) w1 = (g, w') \<and>
            (\<forall>s. q = Inr s \<longrightarrow> s = ?s \<and> (\<exists>b. g = Inr b \<and> digest b = digest body))))"
    then obtain p w1 where w1: "oc_put client key body content_type (digest body) (lifecycle_value lifecycle) w = (p, w1)"
        "case p of Inr _ \<Rightarrow> q = Inr ?s \<and> w' = w1
        | Inl e \<Rightarrow> (w' = w1 \<and> (\<exists>e. q = Inl e)) \<or> (\<exists>g. store_get digest client key (int (length body)) w1 = (g, w') \<and>
            (\<forall>s. q = Inr s \<longrightarrow> s = ?s \<and> (\<exists>b. g = Inr b \<and> digest b = digest body)))" by blast
    from w1(2) have "w' = w1 \<or> (\<exists>g. store_get digest client key (int (length body)) w1 = (g, w'))" by (cases p) auto
    then have "evolves fmt view w1 w'" using store_get_object(1) [OF client] by auto
    with put_evolves [OF w1(1)] show ?thesis by (rule evolves_trans)
  qed auto
  assume "q = Inr s"
  with early obtain p w1 where p: "oc_put client key body content_type (digest body) (lifecycle_value lifecycle) w = (p, w1)"
      and after: "case p of Inr _ \<Rightarrow> s = ?s \<and> w' = w1
        | Inl e \<Rightarrow> \<exists>g. store_get digest client key (int (length body)) w1 = (g, w') \<and> s = ?s \<and> (\<exists>b. g = Inr b \<and> digest b = digest body)"
    by (fastforce split: sum.splits)
  from after have "p = Inr () \<and> s = ?s \<and> w' = w1 \<or> (\<exists>g. store_get digest client key (int (length body)) w1 = (g, w') \<and>
            s = ?s \<and> (\<exists>b. g = Inr b \<and> digest b = digest body))" by (cases p) auto
  then show "s = ?s \<and> (\<exists>b. cv_objects view w' key = Some (b, digest body) \<and> digest b = digest body)"
  proof
    assume a: "p = Inr () \<and> s = ?s \<and> w' = w1"
    with put [OF p] show ?thesis by auto
  next
    assume "\<exists>g. store_get digest client key (int (length body)) w1 = (g, w') \<and> s = ?s \<and> (\<exists>b. g = Inr b \<and> digest b = digest body)"
    then obtain b where "store_get digest client key (int (length body)) w1 = (Inr b, w')" "s = ?s" "digest b = digest body" by blast
    with store_get_object(2) [OF client] show ?thesis by fastforce
  qed
qed

section \<open>A world of objects and records\<close>

type_synonym demo_world = "(string \<Rightarrow> (string \<times> string) option) \<times> run_table"

definition demo_view :: "demo_world cloud_view" where
  "demo_view = \<lparr>cv_objects = fst, cv_items = snd\<rparr>"

definition demo_client :: "demo_world object_client" where
  "demo_client = \<lparr>
     oc_put = (\<lambda>key body content_type digest tag (objects, items).
       if objects key = None then (Inr (), (objects(key \<mapsto> (body, digest)), items))
       else (Inl (client_error ''PreconditionFailed''), (objects, items))),
     oc_head = (\<lambda>key (objects, items). (case objects key of
         None \<Rightarrow> Inl (client_error ''404'')
       | Some (body, digest) \<Rightarrow> Inr (JObj [(''ContentLength'', JInt (int (length body))),
           (''Metadata'', JObj [(''sha256'', JStr digest)])]), (objects, items))),
     oc_get = (\<lambda>key (objects, items). (case objects key of
         None \<Rightarrow> Inl (client_error ''NoSuchKey'') | Some (body, digest) \<Rightarrow> Inr (Response (Reads body)), (objects, items))),
     oc_presign = (\<lambda>key n w. (Inr (''https://objects/'' @ key), w))\<rparr>"

definition demo_write :: "(item option \<Rightarrow> item) \<Rightarrow> string \<Rightarrow> condition \<Rightarrow> demo_world \<Rightarrow> (exn + unit) \<times> demo_world" where
  "demo_write f pk c = (\<lambda>(objects, items).
     if condition_holds c (items pk) then (Inr (), (objects, items(pk \<mapsto> f (items pk))))
     else (Inl (client_error ''ConditionalCheckFailedException''), (objects, items)))"

definition demo_table :: "(int \<Rightarrow> json) \<Rightarrow> demo_world table_client" where
  "demo_table num = \<lparr>
     tc_put = (\<lambda>i. demo_write (\<lambda>_. i) (case dict_get i ''PK'' of Some (JStr pk) \<Rightarrow> pk | _ \<Rightarrow> [])),
     tc_update = (\<lambda>pk vs. demo_write (\<lambda>i. assign vs (case i of None \<Rightarrow> [(''PK'', JStr pk)] | Some i \<Rightarrow> i)) pk),
     tc_get = (\<lambda>pk consistent (objects, items). (Inr (JObj (case items pk of None \<Rightarrow> []
       | Some i \<Rightarrow> [(''Item'', JObj (map (\<lambda>(k, v). (k, read_number num v)) i))])), (objects, items)))\<rparr>"

lemma demo_objects_ok: "objects_ok fmt demo_view demo_client"
  unfolding objects_ok_def
proof (intro conjI allI impI)
  fix key body content_type digest tag and w :: demo_world
  obtain objects items where w: "w = (objects, items)" by (metis surj_pair)
  show "object_put_ok fmt demo_view key (body, digest) w (oc_put demo_client key body content_type digest tag w)"
    unfolding w object_put_ok_def
    by (auto simp: demo_client_def demo_view_def client_error_def raise_as_def intro!: exI [of _ objects] exI [of _ items])
next
  fix key r j and w w' :: demo_world
  assume got: "oc_head demo_client key w = (r, w')"
  then show "evolves fmt demo_view w w'" by (auto simp: demo_client_def split: prod.splits)
  assume "r = Inr j"
  with got show "\<exists>body digest. cv_objects demo_view w' key = Some (body, digest) \<and>
      jget j ''ContentLength'' = JInt (int (length body)) \<and> jget (jget j ''Metadata'') ''sha256'' = JStr digest"
    by (auto simp: demo_client_def demo_view_def split: prod.splits option.splits)
next
  fix key r b and w w' :: demo_world
  assume got: "oc_get demo_client key w = (r, w')"
  then show "evolves fmt demo_view w w'" by (auto simp: demo_client_def split: prod.splits)
  assume "r = Inr (Response (Reads b))"
  with got show "\<exists>digest. cv_objects demo_view w' key = Some (b, digest)"
    by (auto simp: demo_client_def demo_view_def split: prod.splits option.splits)
next
  fix key n r and w w' :: demo_world
  assume "oc_presign demo_client key n w = (r, w')"
  then show "evolves fmt demo_view w w'" by (simp add: demo_client_def)
qed

lemma demo_write_ok: "write_ok fmt demo_view f pk c w (demo_write f pk c w)"
proof -
  obtain objects items where w: "w = (objects, items)" by (metis surj_pair)
  have "evolves fmt demo_view w w" by simp
  then show ?thesis
    unfolding w write_ok_def demo_write_def
    by (auto simp: demo_view_def written_def client_error_def raise_as_def is_storage_error_def storage_errors_def
        is_conditional_failure_def raised_def intro!: exI [of _ items])
qed

lemma demo_table_ok: "table_ok fmt num demo_view (demo_table num)"
  unfolding table_ok_def
proof (intro conjI allI impI)
  fix i pk c and w :: demo_world
  assume "dict_get i ''PK'' = Some (JStr pk)"
  then show "write_ok fmt demo_view (\<lambda>_. i) pk c w (tc_put (demo_table num) i c w)"
    using demo_write_ok by (simp add: demo_table_def)
next
  fix pk vs c and w :: demo_world
  show "write_ok fmt demo_view (\<lambda>i. assign vs (case i of None \<Rightarrow> [(''PK'', JStr pk)] | Some i \<Rightarrow> i)) pk c w
      (tc_update (demo_table num) pk vs c w)"
    using demo_write_ok by (simp add: demo_table_def)
next
  fix pk consistent r j and w w' :: demo_world
  assume got: "tc_get (demo_table num) pk consistent w = (r, w')"
  then show "evolves fmt demo_view w w'" by (auto simp: demo_table_def split: prod.splits)
  assume "consistent \<and> r = Inr j"
  with got have j: "w' = w" "j = JObj (case snd w pk of None \<Rightarrow> [] | Some i \<Rightarrow> [(''Item'', JObj (map (\<lambda>(k, v). (k, read_number num v)) i))])"
    by (auto simp: demo_table_def split: prod.splits)
  then show "members j \<noteq> None" by simp
  have "dict_get (map (\<lambda>(k, v). (k, read_number num v)) i) name = map_option (read_number num) (dict_get i name)" for i name
    unfolding dict_get_def by (induction i) auto
  with j show "case cv_items demo_view w' pk of
       None \<Rightarrow> jget j ''Item'' = JNull
     | Some i \<Rightarrow> \<exists>values. jget j ''Item'' = JObj values \<and> (\<forall>name. dict_get values name = map_option (read_number num) (dict_get i name))"
    by (auto simp: demo_view_def split: option.splits)
qed

section \<open>Properties of the adapters\<close>


definition demo_digest :: "string \<Rightarrow> string" where
  "demo_digest body = replicate 63 (CHR ''0'') @ [if even (length body) then CHR ''0'' else CHR ''1'']"


text \<open>The calls of a repository, by any number of processes, in the order they are made.\<close>

datatype repository_call =
    Create run_record
  | Start string datetime
  | Succeed string datetime
  | Fail string failure_code datetime
  | Read string

fun perform :: "iso_api \<Rightarrow> 'w table_client \<Rightarrow> repository_call \<Rightarrow> 'w \<Rightarrow> 'w" where
  "perform fmt tb (Create r) w = snd (create_pending fmt tb r w)"
| "perform fmt tb (Start run_id t) w = snd (mark_running fmt tb run_id t w)"
| "perform fmt tb (Succeed run_id t) w = snd (mark_succeeded fmt tb run_id t w)"
| "perform fmt tb (Fail run_id code t) w = snd (mark_failed fmt tb run_id code t w)"
| "perform fmt tb (Read run_id) w = snd (repository_get fmt tb run_id True w)"

lemma perform_evolves:
  assumes "table_ok fmt num view tb" and "utc_ok fmt" and "table_valid fmt (cv_items view w)" and "\<And>r. call = Create r \<Longrightarrow> record_ok r"
  shows "evolves fmt view w (perform fmt tb call w)"
proof (cases call)
  case (Create r)
  with assms show ?thesis using create_pending_evolves(1) [OF assms(1,3)] by (metis perform.simps(1) surjective_pairing)
next
  case (Start run_id t)
  with assms(1) show ?thesis using mark_running_record(1) [OF assms(1)] by (metis perform.simps(2) surjective_pairing)
next
  case (Succeed run_id t)
  with assms(1) show ?thesis using mark_succeeded_record(1) [OF assms(1)] by (metis perform.simps(3) surjective_pairing)
next
  case (Fail run_id code t)
  with assms(1) show ?thesis using mark_failed_record(1) [OF assms(1)] by (metis perform.simps(4) surjective_pairing)
next
  case (Read run_id)
  with assms(1,2) show ?thesis using repository_get_record(1) [OF assms(1,2)] by (metis perform.simps(5) surjective_pairing)
qed

lemma performs_evolve:
  assumes "table_ok fmt num view tb" and "utc_ok fmt"
  shows "table_valid fmt (cv_items view w) \<Longrightarrow> (\<And>r. Create r \<in> set calls \<Longrightarrow> record_ok r) \<Longrightarrow>
    evolves fmt view w (fold (perform fmt tb) calls w)"
proof (induction calls arbitrary: w)
  case (Cons call calls)
  from perform_evolves [OF assms Cons.prems(1)] Cons.prems(2) have step: "evolves fmt view w (perform fmt tb call w)" by simp
  with Cons.prems(1) have "table_valid fmt (cv_items view (perform fmt tb call w))"
    unfolding evolves_def by (blast dest: table_steps_valid)
  from Cons.IH [OF this] Cons.prems(2) have "evolves fmt view (perform fmt tb call w) (fold (perform fmt tb) (call # calls) w)" by simp
  with step show ?case by (rule evolves_trans)
qed simp

text \<open>C31: the life of a run. After any calls of the repositories, in any order and with any answers of the
  table, every item is a record that its contract admits; the record of a run has only gone
  forward, from \<open>PENDING\<close> to \<open>RUNNING\<close> to \<open>SUCCEEDED\<close> or \<open>FAILED\<close>; once final it is the same for ever; and
  its identity, its places and its visibility never change.\<close>

theorem run_lifecycle:
  assumes "table_ok fmt num view tb" and "utc_ok fmt" and "table_valid fmt (cv_items view w)"
    and "\<And>r. Create r \<in> set calls \<Longrightarrow> record_ok r" and "w' = fold (perform fmt tb) calls w"
  shows "table_valid fmt (cv_items view w') \<and>
    (\<forall>pk r. holds_record fmt (cv_items view w) pk r \<longrightarrow> (\<exists>r'. holds_record fmt (cv_items view w') pk r' \<and>
       record_step\<^sup>*\<^sup>* r r' \<and> status_rank (rrc_status r) \<le> status_rank (rrc_status r') \<and>
       (rrc_status r \<in> {SUCCEEDED, RUN_FAILED} \<longrightarrow> r' = r) \<and>
       r' = r\<lparr>rrc_status := rrc_status r', rrc_started_at := rrc_started_at r', rrc_completed_at := rrc_completed_at r',
         rrc_failure_code := rrc_failure_code r'\<rparr>))"
proof -
  from performs_evolve [OF assms(1,2,3,4)] have steps: "table_steps fmt (cv_items view w) (cv_items view w')"
    unfolding assms(5) evolves_def by blast
  show ?thesis
    using table_steps_valid [OF steps assms(3)] table_steps_record [OF steps] record_steps_rank final_record_stays record_steps_frame
    by meson
qed

definition demo_record :: run_record where
  "demo_record = \<lparr>rrc_run_id = demo_run_id, rrc_status = PENDING, rrc_visibility = PUBLIC, rrc_dataset_key = ''datasets/v1/a.parquet'',
     rrc_dataset_sha256 = replicate 64 (CHR ''0''), rrc_run_spec_key = run_prefix demo_run_id @ ''run-spec.json'',
     rrc_result_prefix = run_prefix demo_run_id, rrc_image_digest = demo_image, rrc_created_at = 1600000000000000,
     rrc_started_at = None, rrc_completed_at = None, rrc_failure_code = None, rrc_expires_at = 1603888000\<rparr>"

lemma demo_record_ok: "record_ok demo_record"
proof -
  have "dataset_key_check (JStr ''datasets/v1/a.parquet'') = Inr ''datasets/v1/a.parquet''"
    "validate_sha256 (JStr (replicate 64 (CHR ''0''))) = Inr (replicate 64 (CHR ''0''))" by code_simp+
  then show ?thesis by (simp add: record_ok_def demo_record_def demo_uuid demo_image_ok admit_record_def)
qed

definition demo_table_world :: demo_world where
  "demo_table_world = (\<lambda>_. None, [''RUN#'' @ demo_run_id \<mapsto> record_item demo_utc demo_record])"

lemma demo_holds: "holds_record demo_utc (cv_items demo_view demo_table_world) (''RUN#'' @ demo_run_id) demo_record"
  by (simp add: holds_record_def demo_record_ok demo_view_def demo_table_world_def record_item_member) (simp add: demo_record_def)

lemma demo_table_valid: "table_valid demo_utc (cv_items demo_view demo_table_world)"
proof -
  have "pk = ''RUN#'' @ demo_run_id" if "cv_items demo_view demo_table_world pk \<noteq> None" for pk
    using that by (auto simp: demo_view_def demo_table_world_def split: if_splits)
  with demo_holds show ?thesis unfolding table_valid_def by blast
qed

theorem run_lifecycle_witness:
  "\<exists>r'. holds_record demo_utc (cv_items demo_view (fold (perform demo_utc (demo_table JInt))
      [Start demo_run_id 1600000001000000, Succeed demo_run_id 1600000002000000, Fail demo_run_id WORKER_FAILED 1600000003000000] demo_table_world))
      (''RUN#'' @ demo_run_id) r' \<and> record_step\<^sup>*\<^sup>* demo_record r'"
proof -
  have "record_ok r" if "Create r \<in> set [Start demo_run_id 1600000001000000, Succeed demo_run_id 1600000002000000,
      Fail demo_run_id WORKER_FAILED 1600000003000000]" for r
    using that by simp
  from run_lifecycle [OF demo_table_ok demo_utc_ok demo_table_valid this refl] demo_holds show ?thesis by blast
qed

text \<open>What a transition tells its caller. A success means that the record is in the new state with the
  given time, and was in a state that allows it; the error \<open>StateTransitionError\<close> is raised only
  if, afterwards, the record is in no such state: not \<open>PENDING\<close> for a start, not \<open>RUNNING\<close> (and not
  the same success already) for a success, final otherwise for a failure.\<close>

theorem transition_results:
  assumes "table_ok fmt num view tb" and "utc_ok fmt" and "table_valid fmt (cv_items view w)" and "pk = ''RUN#'' @ run_id"
  shows "(\<forall>w'. mark_running fmt tb run_id t w = (Inr (), w') \<longrightarrow>
      (\<exists>r. rrc_status r = PENDING \<and> holds_record fmt (cv_items view w') pk (r\<lparr>rrc_status := RUNNING, rrc_started_at := Some t\<rparr>))) \<and>
    (\<forall>w'. mark_succeeded fmt tb run_id t w = (Inr (), w') \<longrightarrow>
      (\<exists>r. holds_record fmt (cv_items view w') pk r \<and> rrc_status r = SUCCEEDED \<and> rrc_completed_at r = Some t)) \<and>
    (\<forall>w'. mark_failed fmt tb run_id code t w = (Inr (), w') \<longrightarrow>
      (\<exists>r. holds_record fmt (cv_items view w') pk r \<and> rrc_status r = RUN_FAILED \<and> rrc_failure_code r = Some code)) \<and>
    (\<forall>e w' r. raised ''StateTransitionError'' e \<and> holds_record fmt (cv_items view w') pk r \<longrightarrow>
      (mark_running fmt tb run_id t w = (Inl e, w') \<longrightarrow> rrc_status r \<noteq> PENDING) \<and>
      (mark_succeeded fmt tb run_id t w = (Inl e, w') \<longrightarrow> rrc_status r \<noteq> RUNNING \<and>
        \<not> (rrc_status r = SUCCEEDED \<and> rrc_completed_at r = Some t)) \<and>
      (mark_failed fmt tb run_id code t w = (Inl e, w') \<longrightarrow> rrc_status r \<notin> {PENDING, RUNNING} \<and>
        \<not> (rrc_status r = RUN_FAILED \<and> rrc_failure_code r = Some code \<and> rrc_completed_at r = Some t)))"
proof (intro conjI allI impI; (elim conjE)?)
  fix w'
  assume "mark_running fmt tb run_id t w = (Inr (), w')"
  from mark_running_record(2) [OF assms(1) this assms(3) refl]
  show "\<exists>r. rrc_status r = PENDING \<and> holds_record fmt (cv_items view w') pk (r\<lparr>rrc_status := RUNNING, rrc_started_at := Some t\<rparr>)"
    unfolding assms(4) by blast
next
  fix w'
  assume "mark_succeeded fmt tb run_id t w = (Inr (), w')"
  from mark_succeeded_record(2) [OF assms(1) this assms(3,2) refl]
  show "\<exists>r. holds_record fmt (cv_items view w') pk r \<and> rrc_status r = SUCCEEDED \<and> rrc_completed_at r = Some t"
    unfolding assms(4) .
next
  fix w'
  assume "mark_failed fmt tb run_id code t w = (Inr (), w')"
  from mark_failed_record(2) [OF assms(1) this assms(3,2) refl]
  show "\<exists>r. holds_record fmt (cv_items view w') pk r \<and> rrc_status r = RUN_FAILED \<and> rrc_failure_code r = Some code"
    unfolding assms(4) .
next
  fix e w' r
  assume err: "raised ''StateTransitionError'' e" and holds: "holds_record fmt (cv_items view w') pk r"
  then obtain i where i: "cv_items view w' pk = Some i" "dict_get i = record_member fmt r" by (auto simp: holds_record_def)
  have member: "dict_get i ''completed_at'' = map_option (\<lambda>t. JStr (utc_text fmt t)) (rrc_completed_at r)"
    "dict_get i ''failure_code'' = map_option (\<lambda>c. JStr (failure_code_value c)) (rrc_failure_code r)"
    "dict_get i ''status'' = Some (JStr (run_status_value (rrc_status r)))"
    unfolding i(2) by (simp_all add: record_member_def)
  show "rrc_status r \<noteq> PENDING" if "mark_running fmt tb run_id t w = (Inl e, w')"
    using mark_running_record(3) [OF assms(1) that refl err] i(1) member(3) by (simp add: assms(4))
  show "rrc_status r \<noteq> RUNNING" "\<not> (rrc_status r = SUCCEEDED \<and> rrc_completed_at r = Some t)"
    if "mark_succeeded fmt tb run_id t w = (Inl e, w')"
    using mark_succeeded_record(3) [OF assms(1) that refl err] i(1) member by (auto simp: assms(4) success_condition_def)
  show "rrc_status r \<notin> {PENDING, RUNNING}"
    "\<not> (rrc_status r = RUN_FAILED \<and> rrc_failure_code r = Some code \<and> rrc_completed_at r = Some t)"
    if "mark_failed fmt tb run_id code t w = (Inl e, w')"
    using mark_failed_record(3) [OF assms(1) that refl err] i(1) member by (auto simp: assms(4) failure_condition_def)
qed

theorem transition_results_witness:
  "\<exists>w' r. mark_running demo_utc (demo_table JInt) demo_run_id 1600000001000000 demo_table_world = (Inr (), w') \<and>
     rrc_status r = PENDING \<and>
     holds_record demo_utc (cv_items demo_view w') (''RUN#'' @ demo_run_id) (r\<lparr>rrc_status := RUNNING, rrc_started_at := Some 1600000001000000\<rparr>)"
proof -
  have "dict_get (record_item demo_utc demo_record) ''status'' = Some (JStr ''PENDING'')"
    by (simp add: record_item_member record_member_def demo_record_def)
  then obtain w' where run: "mark_running demo_utc (demo_table JInt) demo_run_id 1600000001000000 demo_table_world = (Inr (), w')"
    by (simp add: mark_running_def update_run_def run_key_def validate_uuid_def demo_uuid on_error_def demo_table_def demo_write_def
        demo_table_world_def)
  with transition_results [OF demo_table_ok demo_utc_ok demo_table_valid refl, where run_id = demo_run_id and t = 1600000001000000 and num = JInt]
  show ?thesis by blast
qed

text \<open>A record is read as it is, or not at all. A consistent read of an existing record, answered by the
  table, gives the record as it then is, if the client reads numbers as integers; with a client
  that reads them as other objects, as \<open>boto3\<close> does with \<open>Decimal\<close>, it always raises a
  \<open>ValidationError\<close>, since the expiry time of a record is a strict integer.\<close>

theorem record_read:
  assumes "table_ok fmt num view tb" and "utc_ok fmt" and "holds_record fmt (cv_items view w) (''RUN#'' @ run_id) r"
    and "tc_get tb (''RUN#'' @ run_id) True w = (Inr j, w')"
  shows "(num = JInt \<longrightarrow> (\<exists>r'. repository_get fmt tb run_id True w = (Inr (Some r'), w') \<and> record_step\<^sup>*\<^sup>* r r' \<and>
      holds_record fmt (cv_items view w') (''RUN#'' @ run_id) r')) \<and>
    ((\<forall>n m. num n \<noteq> JInt m) \<longrightarrow> repository_get fmt tb run_id True w = (Inl validation_error, w'))"
proof -
  from assms(3) have "run_key run_id = Inr (''RUN#'' @ run_id)" by (auto simp: holds_record_def run_key_Inr record_ok_def)
  with assms(4) obtain q where q: "repository_get fmt tb run_id True w = (q, w')" by (simp add: repository_get_def sbind_def)
  from repository_get_record(3) [OF assms(1,2) q assms(3,4)] show ?thesis unfolding q by auto
qed

theorem record_read_witness:
  "(\<exists>r' w'. repository_get demo_utc (demo_table JInt) demo_run_id True demo_table_world = (Inr (Some r'), w')) \<and>
   (\<exists>w'. repository_get demo_utc (demo_table (\<lambda>n. JFloat (Fin (real_of_int n)))) demo_run_id True demo_table_world = (Inl validation_error, w'))"
proof -
  have "\<exists>j. tc_get (demo_table num) (''RUN#'' @ demo_run_id) True demo_table_world = (Inr j, demo_table_world)" for num
    by (simp add: demo_table_def demo_table_world_def)
  with record_read [OF demo_table_ok demo_utc_ok demo_holds] show ?thesis by fastforce
qed

end
