(* ===== verification/Finalization.thy ===== *)
theory Finalization
  imports Cloud_Storage
begin

text \<open>
  The finalization of a cloud run, \<open>src/cloud/finalize_handler.py\<close>: every required artifact is read
  back and compared with the run's manifest of checksums before the run is marked as succeeded;
  failures are recorded with their code. The services, the digest and the JSON texts are one
  parameter, shared by the handlers of the workflow.
\<close>

section \<open>What the handlers use\<close>

text \<open>The text of a JSON value whose members are sorted, and the value of a text (with the members of
  an object as they stand, duplicates included).\<close>

record 'w cloud =
  cl_fmt :: iso_api
  cl_digest :: "string \<Rightarrow> string"
  cl_dumps :: "json \<Rightarrow> string"
  cl_loads :: "string \<Rightarrow> exn + json"
  cl_client :: "'w object_client"
  cl_table :: "'w table_client"

definition object_get :: "'w cloud \<Rightarrow> string \<Rightarrow> int \<Rightarrow> 'w \<Rightarrow> (exn + string) \<times> 'w" where
  "object_get c = store_get (cl_digest c) (cl_client c)"

definition object_put :: "'w cloud \<Rightarrow> string \<Rightarrow> string \<Rightarrow> string \<Rightarrow> lifecycle_class \<Rightarrow> 'w \<Rightarrow> (exn + stored_object) \<times> 'w" where
  "object_put c = store_put (cl_digest c) (cl_client c)"

definition run_get :: "'w cloud \<Rightarrow> string \<Rightarrow> 'w \<Rightarrow> (exn + run_record option) \<times> 'w" where
  "run_get c run_id = repository_get (cl_fmt c) (cl_table c) run_id True"

fun json_finite :: "json \<Rightarrow> bool" where
  "json_finite (JFloat x) = (case x of Fin _ \<Rightarrow> True | _ \<Rightarrow> False)"
| "json_finite (JList vs) = list_all json_finite vs"
| "json_finite (JObj kvs) = list_all (\<lambda>(k, v). json_finite v) kvs"
| "json_finite _ = True"

definition canonical_json_bytes :: "'w cloud \<Rightarrow> json \<Rightarrow> exn + string" where
  "canonical_json_bytes c value = (if json_finite value then Inr (cl_dumps c (json_sorted value))
     else Inl (refuse ''Out of range float values are not JSON compliant''))"

text \<open>The hook \<open>reject_duplicate_keys\<close>, called for every object.\<close>

fun unique_names :: "json \<Rightarrow> bool" where
  "unique_names (JObj kvs) = (distinct (map fst kvs) \<and> list_all (\<lambda>(k, v). unique_names v) kvs)"
| "unique_names (JList vs) = list_all unique_names vs"
| "unique_names _ = True"

definition strict_json_object :: "'w cloud \<Rightarrow> exn \<Rightarrow> (exn \<Rightarrow> bool) \<Rightarrow> string \<Rightarrow> exn + json" where
  "strict_json_object c error catches body =
     (case cl_loads c body of
        Inl e \<Rightarrow> Inl (if catches e then error else e)
      | Inr parsed \<Rightarrow>
          if \<not> unique_names parsed then Inl error
          else if members parsed = None then Inl error
          else (case canonical_json_bytes c parsed of
              Inl e \<Rightarrow> Inl (if is_type_error e \<or> is_value_error e then error else e)
            | Inr text \<Rightarrow> if text \<noteq> body then Inl error else Inr parsed))"

section \<open>Verification of the artifacts\<close>

definition ARTIFACT_MAXIMUM_BYTES :: "(string \<times> int) list" where
  "ARTIFACT_MAXIMUM_BYTES = [(''run-spec.json'', 64 * 1024), (''result.json'', 64 * 1024), (''trades.parquet'', 16 * 1024 * 1024),
     (''equity-curve.parquet'', 32 * 1024 * 1024), (''report.html'', 8 * 1024 * 1024), (''checksums.json'', 32 * 1024)]"

definition verification_error :: "string \<Rightarrow> exn" where
  "verification_error message = raise_as ''ArtifactVerificationError'' message"

definition verification_failed :: exn where
  "verification_failed = verification_error ''artifact verification failed''"

definition checked_prefix :: "string \<Rightarrow> exn + string" where
  "checked_prefix run_id = rbind (validate_uuid (JStr run_id)) (\<lambda>i. Inr (run_prefix i))"

definition missing_as_failed :: "exn \<Rightarrow> exn" where
  "missing_as_failed e = (if raised ''ObjectNotFoundError'' e then verification_failed else e)"

definition parse_manifest :: "'w cloud \<Rightarrow> string \<Rightarrow> exn + artifact_digest list" where
  "parse_manifest c body =
     rbind (strict_json_object c (verification_error ''checksums manifest is not valid canonical JSON'') is_value_error body) (\<lambda>payload.
       case checksums_validate payload of
         Inl e \<Rightarrow> Inl (if raised ''ValidationError'' e then verification_failed else e)
       | Inr manifest \<Rightarrow> if set (map adg_name manifest) \<noteq> set REQUIRED_ARTIFACTS then Inl verification_failed else Inr manifest)"

definition read_manifest :: "'w cloud \<Rightarrow> string \<Rightarrow> 'w \<Rightarrow> (exn + artifact_digest list) \<times> 'w" where
  "read_manifest c run_id w =
     (case checked_prefix run_id of
        Inl e \<Rightarrow> (Inl e, w)
      | Inr location \<Rightarrow> sbind (on_error missing_as_failed (object_get c (location @ ''checksums.json'') (32 * 1024) w))
          (\<lambda>body w'. (parse_manifest c body, w')))"

fun verify_artifacts ::
    "'w cloud \<Rightarrow> string \<Rightarrow> artifact_digest list \<Rightarrow> (string, string) dict \<Rightarrow> 'w \<Rightarrow> (exn + (string, string) dict) \<times> 'w" where
  "verify_artifacts c location [] verified w = (Inr verified, w)"
| "verify_artifacts c location (artifact # artifacts) verified w =
     (case map_of ARTIFACT_MAXIMUM_BYTES (adg_name artifact) of
        None \<Rightarrow> (Inl (external ''KeyError''), w)
      | Some n \<Rightarrow> sbind (on_error missing_as_failed (object_get c (location @ adg_name artifact) n w)) (\<lambda>body w'.
          if int (length body) \<noteq> adg_byte_length artifact \<or> cl_digest c body \<noteq> adg_sha256 artifact
          then (Inl verification_failed, w')
          else verify_artifacts c location artifacts (dict_set verified (adg_name artifact) body) w'))"

definition verify_required_artifacts ::
    "'w cloud \<Rightarrow> string \<Rightarrow> artifact_digest list \<Rightarrow> 'w \<Rightarrow> (exn + (string, string) dict) \<times> 'w" where
  "verify_required_artifacts c run_id manifest w =
     (case checked_prefix run_id of
        Inl e \<Rightarrow> (Inl e, w)
      | Inr location \<Rightarrow> sbind (verify_artifacts c location manifest [] w) (\<lambda>verified w'.
          if set (map fst verified) \<noteq> set REQUIRED_ARTIFACTS then (Inl verification_failed, w') else (Inr verified, w')))"

definition verify_result_run_id :: "'w cloud \<Rightarrow> string \<Rightarrow> string \<Rightarrow> exn + unit" where
  "verify_result_run_id c result_body run_id =
     rbind (strict_json_object c (verification_error ''result artifact is not valid canonical JSON'') is_value_error result_body) (\<lambda>payload.
       case validate_uuid (jget payload ''run_id'') of
         Inl e \<Rightarrow> Inl (if is_type_error e \<or> is_value_error e
           then verification_error ''result artifact has an invalid run identifier'' else e)
       | Inr admitted \<Rightarrow> if admitted \<noteq> run_id then Inl (verification_error ''result run identifier mismatch'') else Inr ())"

definition canonical_record :: "'w cloud \<Rightarrow> string \<Rightarrow> 'w \<Rightarrow> (exn + run_record) \<times> 'w" where
  "canonical_record c run_id w = sbind (run_get c run_id w) (\<lambda>r w'. (case r of
     None \<Rightarrow> Inl (verification_error ''run record is unavailable after finalization'') | Some r \<Rightarrow> Inr r, w'))"

section \<open>Terminal transitions\<close>

text \<open>After a transition was rejected, or made, the record that is there decides.\<close>

definition settle ::
    "'w cloud \<Rightarrow> string \<Rightarrow> (run_record \<Rightarrow> bool) \<Rightarrow> exn \<Rightarrow> (exn + unit) \<times> 'w \<Rightarrow> (exn + run_record) \<times> 'w" where
  "settle c run_id is_done incompatible transition = (case transition of
     (Inr _, w1) \<Rightarrow> sbind (canonical_record c run_id w1) (\<lambda>r w2. (if is_done r then Inr r else Inl incompatible, w2))
   | (Inl e, w1) \<Rightarrow> if raised ''StateTransitionError'' e
       then sbind (canonical_record c run_id w1) (\<lambda>r w2. (if is_done r then Inr r else Inl e, w2))
       else (Inl e, w1))"

definition finalize_success :: "'w cloud \<Rightarrow> exn + datetime \<Rightarrow> string \<Rightarrow> 'w \<Rightarrow> (exn + run_record) \<times> 'w" where
  "finalize_success c clock run_id w =
     (case validate_uuid (JStr run_id) of
        Inl e \<Rightarrow> (Inl e, w)
      | Inr i \<Rightarrow>
          sbind (read_manifest c i w) (\<lambda>manifest w1.
          sbind (verify_required_artifacts c i manifest w1) (\<lambda>artifacts w2.
            case dict_get artifacts ''result.json'' of
              None \<Rightarrow> (Inl (external ''KeyError''), w2)
            | Some body \<Rightarrow>
                (case rbind (verify_result_run_id c body i) (\<lambda>_. clock) of
                   Inl e \<Rightarrow> (Inl e, w2)
                 | Inr now \<Rightarrow> settle c i (\<lambda>r. rrc_status r = SUCCEEDED)
                     (verification_error ''run record is incompatible with success finalization'')
                     (mark_succeeded (cl_fmt c) (cl_table c) i now w2)))))"

definition finalize_failure :: "'w cloud \<Rightarrow> exn + datetime \<Rightarrow> string \<Rightarrow> failure_code \<Rightarrow> 'w \<Rightarrow> (exn + run_record) \<times> 'w" where
  "finalize_failure c clock run_id code w =
     (case rbind (validate_uuid (JStr run_id)) (\<lambda>i. rbind clock (\<lambda>now. Inr (i, now))) of
        Inl e \<Rightarrow> (Inl e, w)
      | Inr (i, now) \<Rightarrow> settle c i (\<lambda>r. rrc_status r = RUN_FAILED \<and> rrc_failure_code r = Some code)
          (verification_error ''run record is incompatible with failure finalization'')
          (mark_failed (cl_fmt c) (cl_table c) i code now w))"

definition closed_event :: "json \<Rightarrow> exn + string \<times> failure_code option" where
  "closed_event event =
     (if members event = None then Inl (refuse ''finalization event must be a closed object'')
      else let routed =
          (if jget event ''outcome'' = JStr ''SUCCEEDED'' \<and> jkeys event = {''run_id'', ''outcome''}
           then rbind (validate_uuid (jget event ''run_id'')) (\<lambda>i. Inr (Some (i, None)))
           else if jget event ''outcome'' = JStr ''FAILED'' \<and> jkeys event = {''run_id'', ''outcome'', ''failure_code''}
           then (case jget event ''failure_code'' of
               JStr code \<Rightarrow> rbind (validate_uuid (jget event ''run_id'')) (\<lambda>i.
                 rbind (enum_member failure_code_value all_codes code) (\<lambda>fc. Inr (Some (i, Some fc))))
             | _ \<Rightarrow> Inl (refuse ''failure_code must be a closed string code''))
           else Inr None)
        in (case routed of
            Inl e \<Rightarrow> Inl (if is_type_error e \<or> is_value_error e then refuse ''finalization event contains invalid routing'' else e)
          | Inr None \<Rightarrow> Inl (refuse ''finalization event contains unsupported routing'')
          | Inr (Some route) \<Rightarrow> Inr route))"

definition finalization_response :: "run_record \<Rightarrow> json" where
  "finalization_response r = JObj ([(''run_id'', JStr (rrc_run_id r)), (''status'', JStr (run_status_value (rrc_status r)))] @
     opt_member ''failure_code'' (\<lambda>code. JStr (failure_code_value code)) (rrc_failure_code r))"

text \<open>\<open>handle_finalization\<close>; the events that are logged have no other effect.\<close>

definition handle_finalization :: "'w cloud \<Rightarrow> exn + datetime \<Rightarrow> json \<Rightarrow> 'w \<Rightarrow> (exn + json) \<times> 'w" where
  "handle_finalization c clock event w =
     (case closed_event event of
        Inl e \<Rightarrow> (Inl e, w)
      | Inr (run_id, code) \<Rightarrow>
          sbind (case code of None \<Rightarrow> finalize_success c clock run_id w | Some fc \<Rightarrow> finalize_failure c clock run_id fc w)
            (\<lambda>r w'. (Inr (finalization_response r), w')))"

section \<open>What a verified run is\<close>

definition cloud_ok :: "(int \<Rightarrow> json) \<Rightarrow> 'w cloud_view \<Rightarrow> 'w cloud \<Rightarrow> bool" where
  "cloud_ok num view c \<longleftrightarrow> objects_ok (cl_fmt c) view (cl_client c) \<and> table_ok (cl_fmt c) num view (cl_table c) \<and> utc_ok (cl_fmt c)"

definition artifact_stored :: "'w cloud_view \<Rightarrow> 'w cloud \<Rightarrow> 'w \<Rightarrow> string \<Rightarrow> artifact_digest \<Rightarrow> bool" where
  "artifact_stored view c w location a \<longleftrightarrow> (\<exists>b. cv_objects view w (location @ adg_name a) = Some (b, adg_sha256 a) \<and>
     cl_digest c b = adg_sha256 a \<and> int (length b) = adg_byte_length a)"

definition run_verified :: "'w cloud_view \<Rightarrow> 'w cloud \<Rightarrow> 'w \<Rightarrow> string \<Rightarrow> bool" where
  "run_verified view c w run_id \<longleftrightarrow> (\<exists>body manifest result.
     cv_objects view w (run_prefix run_id @ ''checksums.json'') = Some (body, cl_digest c body) \<and>
     parse_manifest c body = Inr manifest \<and> distinct (map adg_name manifest) \<and> set (map adg_name manifest) = set REQUIRED_ARTIFACTS \<and>
     (\<forall>a\<in>set manifest. artifact_stored view c w (run_prefix run_id) a) \<and>
     cv_objects view w (run_prefix run_id @ ''result.json'') = Some (result, cl_digest c result) \<and>
     verify_result_run_id c result run_id = Inr ())"

lemma evolves_verified:
  assumes "evolves fmt view w u" and "run_verified view c w run_id"
  shows "run_verified view c u run_id"
  using assms(2) unfolding run_verified_def artifact_stored_def by (meson evolves_object [OF assms(1)])

lemma evolves_record:
  "evolves fmt view w u \<Longrightarrow> holds_record fmt (cv_items view w) pk r \<Longrightarrow>
    \<exists>r'. record_step\<^sup>*\<^sup>* r r' \<and> holds_record fmt (cv_items view u) pk r'"
  unfolding evolves_def by (blast dest: table_steps_record)

lemma final_for_ever:
  assumes "evolves fmt view w u" and "holds_record fmt (cv_items view w) pk r" and "rrc_status r \<in> {SUCCEEDED, RUN_FAILED}"
  shows "holds_record fmt (cv_items view u) pk r"
proof -
  from evolves_record [OF assms(1,2)] obtain r' where r': "record_step\<^sup>*\<^sup>* r r'" "holds_record fmt (cv_items view u) pk r'" by blast
  from final_record_stays [OF r'(1) assms(3)] r'(2) show ?thesis by simp
qed

section \<open>The steps of a finalization\<close>

lemma object_get_ok:
  assumes "cloud_ok num view c" and "on_error f (object_get c key n w) = (q, w')"
  shows "evolves (cl_fmt c) view w w'"
    and "q = Inr b \<Longrightarrow> cv_objects view w' key = Some (b, cl_digest c b) \<and> int (length b) \<le> n"
proof -
  from assms(1) have client: "objects_ok (cl_fmt c) view (cl_client c)" by (simp add: cloud_ok_def)
  from on_error_world [OF assms(2)] obtain p where p: "store_get (cl_digest c) (cl_client c) key n w = (p, w')"
    unfolding object_get_def by blast
  show "evolves (cl_fmt c) view w w'" by (rule store_get_object(1) [OF client p])
  show "cv_objects view w' key = Some (b, cl_digest c b) \<and> int (length b) \<le> n" if "q = Inr b"
    using assms(2) store_get_object(2) [OF client p] that unfolding object_get_def p on_error_Inr
    by (auto simp: on_error_Inr)
qed

lemma checked_prefix_Inr: "checked_prefix run_id = Inr location \<longleftrightarrow> canonical_uuid run_id \<and> location = run_prefix run_id"
  by (auto simp: checked_prefix_def validate_uuid_def result_simps split: if_splits)

lemma checksums_names:
  assumes "checksums_validate j = Inr manifest"
  shows "distinct (map adg_name manifest)" and "set (map adg_name manifest) = set REQUIRED_ARTIFACTS"
  using assms unfolding checksums_validate_def model_Inr by (auto simp: require_exact_artifacts_def split: if_splits)

lemma parse_manifest_names:
  assumes "parse_manifest c body = Inr manifest"
  shows "distinct (map adg_name manifest)" and "set (map adg_name manifest) = set REQUIRED_ARTIFACTS"
proof -
  from assms obtain j where "checksums_validate j = Inr manifest"
    unfolding parse_manifest_def result_simps by (fastforce split: sum.splits if_splits)
  with checksums_names show "distinct (map adg_name manifest)" "set (map adg_name manifest) = set REQUIRED_ARTIFACTS" by blast+
qed

lemma read_manifest_ok:
  assumes ok: "cloud_ok num view c" and run: "read_manifest c run_id w = (q, w')"
  shows "evolves (cl_fmt c) view w w'"
    and "q = Inr manifest \<Longrightarrow> canonical_uuid run_id \<and> (\<exists>body.
      cv_objects view w' (run_prefix run_id @ ''checksums.json'') = Some (body, cl_digest c body) \<and> parse_manifest c body = Inr manifest)"
proof -
  obtain p w1 where p: "on_error missing_as_failed (object_get c (run_prefix run_id @ ''checksums.json'') (32 * 1024) w) = (p, w1)"
    by (metis surj_pair)
  note got = object_get_ok [OF ok p]
  have cases: "w' = w \<and> (\<exists>e. q = Inl e) \<or> canonical_uuid run_id \<and> w' = w1 \<and> (\<forall>m. q = Inr m \<longrightarrow> (\<exists>b. p = Inr b \<and> parse_manifest c b = Inr m))"
  proof (cases "checked_prefix run_id")
    case (Inr location)
    then have "canonical_uuid run_id" "location = run_prefix run_id" by (simp_all add: checked_prefix_Inr)
    with run Inr p show ?thesis by (cases p) (auto simp: read_manifest_def sbind_def)
  next
    case (Inl e)
    with run have "q = Inl e" "w' = w" by (simp_all add: read_manifest_def)
    then show ?thesis by blast
  qed
  then show "evolves (cl_fmt c) view w w'" using got(1) by auto
  show "canonical_uuid run_id \<and> (\<exists>body. cv_objects view w' (run_prefix run_id @ ''checksums.json'') = Some (body, cl_digest c body) \<and>
      parse_manifest c body = Inr manifest)" if "q = Inr manifest"
  proof -
    from cases that obtain b where "canonical_uuid run_id" "w' = w1" "p = Inr b" "parse_manifest c b = Inr manifest" by auto
    with got(2) show ?thesis by auto
  qed
qed

lemma verify_artifacts_ok:
  assumes ok: "cloud_ok num view c"
  shows "verify_artifacts c location artifacts verified w = (q, w') \<Longrightarrow> evolves (cl_fmt c) view w w' \<and>
    (\<forall>v. q = Inr v \<longrightarrow> (\<forall>a\<in>set artifacts. artifact_stored view c w' location a) \<and>
      (\<forall>name b. dict_get v name = Some b \<longrightarrow> dict_get verified name = Some b \<or>
        cv_objects view w' (location @ name) = Some (b, cl_digest c b)))"
proof (induction artifacts arbitrary: verified w)
  case (Cons a as)
  show ?case
  proof (cases "map_of ARTIFACT_MAXIMUM_BYTES (adg_name a)")
    case None
    with Cons.prems show ?thesis by auto
  next
    case (Some n)
    obtain p w1 where p: "on_error missing_as_failed (object_get c (location @ adg_name a) n w) = (p, w1)" by (metis surj_pair)
    note got = object_get_ok [OF ok p]
    show ?thesis
    proof (cases "\<exists>b. p = Inr b \<and> int (length b) = adg_byte_length a \<and> cl_digest c b = adg_sha256 a")
      case False
      with Cons.prems Some p have "w' = w1" "\<exists>e. q = Inl e" by (cases p; auto simp: sbind_def split: if_splits)+
      with got(1) show ?thesis by auto
    next
      case True
      then obtain b where b: "p = Inr b" "int (length b) = adg_byte_length a" "cl_digest c b = adg_sha256 a" by blast
      with Cons.prems Some p have rest: "verify_artifacts c location as (dict_set verified (adg_name a) b) w1 = (q, w')"
        by (simp add: sbind_def)
      note IH = Cons.IH [OF rest]
      from got(2) [OF b(1)] have here: "cv_objects view w1 (location @ adg_name a) = Some (b, cl_digest c b)" by blast
      from evolves_object [OF IH [THEN conjunct1] here] have there: "cv_objects view w' (location @ adg_name a) = Some (b, cl_digest c b)" .
      with b have "artifact_stored view c w' location a" unfolding artifact_stored_def by auto
      moreover have "dict_get verified name = Some b' \<or> cv_objects view w' (location @ name) = Some (b', cl_digest c b')"
        if "dict_get v name = Some b'" "q = Inr v" for v name b'
      proof -
        from IH that have "dict_get (dict_set verified (adg_name a) b) name = Some b' \<or>
            cv_objects view w' (location @ name) = Some (b', cl_digest c b')" by blast
        with there show ?thesis by (auto simp: dict_get_set split: if_splits)
      qed
      ultimately show ?thesis using IH got(1) by (auto intro: evolves_trans)
    qed
  qed
qed auto

lemma verify_required_ok:
  assumes ok: "cloud_ok num view c" and run: "verify_required_artifacts c run_id manifest w = (q, w')"
  shows "evolves (cl_fmt c) view w w'"
    and "q = Inr v \<Longrightarrow> (\<forall>a\<in>set manifest. artifact_stored view c w' (run_prefix run_id) a) \<and>
      (\<forall>name b. dict_get v name = Some b \<longrightarrow> cv_objects view w' (run_prefix run_id @ name) = Some (b, cl_digest c b))"
proof -
  obtain p w1 where p: "verify_artifacts c (run_prefix run_id) manifest [] w = (p, w1)" by (metis surj_pair)
  note got = verify_artifacts_ok [OF ok p]
  have cases: "w' = w \<and> (\<exists>e. q = Inl e) \<or> w' = w1 \<and> (\<forall>v. q = Inr v \<longrightarrow> p = Inr v)"
  proof (cases "checked_prefix run_id")
    case (Inr location)
    then have "location = run_prefix run_id" by (simp add: checked_prefix_Inr)
    with run Inr p show ?thesis by (cases p) (auto simp: verify_required_artifacts_def sbind_def split: if_splits)
  next
    case (Inl e)
    with run have "q = Inl e" "w' = w" by (simp_all add: verify_required_artifacts_def)
    then show ?thesis by blast
  qed
  then show "evolves (cl_fmt c) view w w'" using got by auto
  show "(\<forall>a\<in>set manifest. artifact_stored view c w' (run_prefix run_id) a) \<and>
      (\<forall>name b. dict_get v name = Some b \<longrightarrow> cv_objects view w' (run_prefix run_id @ name) = Some (b, cl_digest c b))" if "q = Inr v"
    using cases got that by (auto simp: dict_get_def)
qed

lemma canonical_record_ok:
  assumes ok: "cloud_ok num view c" and run: "canonical_record c run_id w = (q, w')"
  shows "evolves (cl_fmt c) view w w'"
    and "table_valid (cl_fmt c) (cv_items view w) \<Longrightarrow> num = JInt \<Longrightarrow> q = Inr r \<Longrightarrow>
      holds_record (cl_fmt c) (cv_items view w') (''RUN#'' @ run_id) r"
proof -
  from ok have tb: "table_ok (cl_fmt c) num view (cl_table c)" "utc_ok (cl_fmt c)" by (simp_all add: cloud_ok_def)
  obtain p w1 where p: "repository_get (cl_fmt c) (cl_table c) run_id True w = (p, w1)" by (metis surj_pair)
  note got = repository_get_record [OF tb p]
  from run p have q: "w' = w1" "q = Inr r \<Longrightarrow> p = Inr (Some r)" for r
    by (auto simp: canonical_record_def run_get_def sbind_def split: sum.splits option.splits)
  show "evolves (cl_fmt c) view w w'" using got(1) q(1) by simp
  show "table_valid (cl_fmt c) (cv_items view w) \<Longrightarrow> num = JInt \<Longrightarrow> q = Inr r \<Longrightarrow>
      holds_record (cl_fmt c) (cv_items view w') (''RUN#'' @ run_id) r" using got(2) q by fastforce
qed

lemma settle_ok:
  assumes ok: "cloud_ok num view c" and run: "settle c run_id is_done incompatible (p, w1) = (q, w')"
  shows "evolves (cl_fmt c) view w1 w'"
    and "q = Inr r \<Longrightarrow> is_done r \<and> canonical_record c run_id w1 = (Inr r, w')"
proof -
  obtain m w2 where m: "canonical_record c run_id w1 = (m, w2)" by (metis surj_pair)
  from run m have w': "w' = w1 \<or> w' = w2" and q: "q = Inr r \<Longrightarrow> m = Inr r \<and> w' = w2 \<and> is_done r" for r
    by (auto simp: settle_def sbind_def split: sum.splits if_splits)
  show "evolves (cl_fmt c) view w1 w'" using w' canonical_record_ok(1) [OF ok m] by auto
  show "q = Inr r \<Longrightarrow> is_done r \<and> canonical_record c run_id w1 = (Inr r, w')" using q m by auto
qed

lemma finalize_success_cases:
  assumes "finalize_success c clock run_id w = (q, w')"
  shows "(\<exists>e. q = Inl e) \<or> (\<exists>manifest w1 artifacts w2 body now. canonical_uuid run_id \<and>
    read_manifest c run_id w = (Inr manifest, w1) \<and> verify_required_artifacts c run_id manifest w1 = (Inr artifacts, w2) \<and>
    dict_get artifacts ''result.json'' = Some body \<and> verify_result_run_id c body run_id = Inr () \<and> clock = Inr now \<and>
    settle c run_id (\<lambda>r. rrc_status r = SUCCEEDED) (verification_error ''run record is incompatible with success finalization'')
      (mark_succeeded (cl_fmt c) (cl_table c) run_id now w2) = (q, w'))"
proof (cases "canonical_uuid run_id")
  case True
  then have i: "validate_uuid (JStr run_id) = Inr run_id" by (simp add: validate_uuid_def)
  obtain p w1 where p: "read_manifest c run_id w = (p, w1)" by (metis surj_pair)
  show ?thesis
  proof (cases p)
    case (Inr manifest)
    obtain v w2 where v: "verify_required_artifacts c run_id manifest w1 = (v, w2)" by (metis surj_pair)
    show ?thesis
    proof (cases "\<exists>artifacts body now. v = Inr artifacts \<and> dict_get artifacts ''result.json'' = Some body \<and>
        verify_result_run_id c body run_id = Inr () \<and> clock = Inr now")
      case True
      then obtain artifacts body now where parts: "v = Inr artifacts" "dict_get artifacts ''result.json'' = Some body"
          "verify_result_run_id c body run_id = Inr ()" "clock = Inr now" by blast
      with assms i p v Inr have "settle c run_id (\<lambda>r. rrc_status r = SUCCEEDED)
          (verification_error ''run record is incompatible with success finalization'')
          (mark_succeeded (cl_fmt c) (cl_table c) run_id now w2) = (q, w')"
        by (simp add: finalize_success_def sbind_def)
      with parts p v Inr \<open>canonical_uuid run_id\<close> show ?thesis by blast
    next
      case False
      with assms i p v Inr have "\<exists>e. q = Inl e"
        by (cases v; cases clock) (auto simp: finalize_success_def sbind_def result_simps split: option.splits sum.splits)
      then show ?thesis ..
    qed
  qed (use assms i p in \<open>auto simp: finalize_success_def sbind_def\<close>)
qed (use assms in \<open>auto simp: finalize_success_def validate_uuid_def\<close>)

lemma finalize_success_ok:
  assumes ok: "cloud_ok num view c" and run: "finalize_success c clock run_id w = (Inr r, w')"
  shows "evolves (cl_fmt c) view w w'" and "run_verified view c w' run_id" and "rrc_status r = SUCCEEDED"
    and "\<exists>u. canonical_record c run_id u = (Inr r, w') \<and> evolves (cl_fmt c) view w u"
proof -
  from finalize_success_cases [OF run] obtain manifest w1 artifacts w2 body now where uuid: "canonical_uuid run_id"
      and manifest: "read_manifest c run_id w = (Inr manifest, w1)"
      and artifacts: "verify_required_artifacts c run_id manifest w1 = (Inr artifacts, w2)"
      and body: "dict_get artifacts ''result.json'' = Some body" "verify_result_run_id c body run_id = Inr ()"
      and settle: "settle c run_id (\<lambda>r. rrc_status r = SUCCEEDED) (verification_error ''run record is incompatible with success finalization'')
        (mark_succeeded (cl_fmt c) (cl_table c) run_id now w2) = (Inr r, w')" by blast
  note m = read_manifest_ok [OF ok manifest]
  note v = verify_required_ok [OF ok artifacts]
  obtain p w3 where p: "mark_succeeded (cl_fmt c) (cl_table c) run_id now w2 = (p, w3)" by (metis surj_pair)
  from ok have tb: "table_ok (cl_fmt c) num view (cl_table c)" by (simp add: cloud_ok_def)
  note marked = mark_succeeded_record(1) [OF tb p]
  note s = settle_ok [OF ok settle [unfolded p]]
  have after: "evolves (cl_fmt c) view w2 w'" by (rule evolves_trans [OF marked s(1)])
  show "evolves (cl_fmt c) view w w'" using m(1) v(1) after by (blast intro: evolves_trans)
  show "rrc_status r = SUCCEEDED" using s(2) by simp
  show "\<exists>u. canonical_record c run_id u = (Inr r, w') \<and> evolves (cl_fmt c) view w u"
    using s(2) m(1) v(1) marked by (blast intro: evolves_trans)
  from m(2) obtain doc where doc: "cv_objects view w1 (run_prefix run_id @ ''checksums.json'') = Some (doc, cl_digest c doc)"
      "parse_manifest c doc = Inr manifest" by blast
  have "cv_objects view w2 (run_prefix run_id @ ''checksums.json'') = Some (doc, cl_digest c doc)"
    by (rule evolves_object [OF v(1) doc(1)])
  moreover from v(2) body(1) have "cv_objects view w2 (run_prefix run_id @ ''result.json'') = Some (body, cl_digest c body)"
    "\<forall>a\<in>set manifest. artifact_stored view c w2 (run_prefix run_id) a" by blast+
  ultimately have "run_verified view c w2 run_id"
    unfolding run_verified_def using doc(2) body(2) parse_manifest_names [OF doc(2)] by blast
  then show "run_verified view c w' run_id" by (rule evolves_verified [OF after])
qed

lemma finalize_failure_ok:
  assumes ok: "cloud_ok num view c" and run: "finalize_failure c clock run_id code w = (Inr r, w')"
  shows "evolves (cl_fmt c) view w w'" and "rrc_status r = RUN_FAILED \<and> rrc_failure_code r = Some code" and "canonical_uuid run_id"
    and "\<exists>u. canonical_record c run_id u = (Inr r, w') \<and> evolves (cl_fmt c) view w u"
proof -
  from run obtain now where uuid: "canonical_uuid run_id"
      and settle: "settle c run_id (\<lambda>r. rrc_status r = RUN_FAILED \<and> rrc_failure_code r = Some code)
        (verification_error ''run record is incompatible with failure finalization'')
        (mark_failed (cl_fmt c) (cl_table c) run_id code now w) = (Inr r, w')"
    by (auto simp: finalize_failure_def validate_uuid_def result_simps split: sum.splits if_splits)
  obtain p w3 where p: "mark_failed (cl_fmt c) (cl_table c) run_id code now w = (p, w3)" by (metis surj_pair)
  from ok have tb: "table_ok (cl_fmt c) num view (cl_table c)" by (simp add: cloud_ok_def)
  note marked = mark_failed_record(1) [OF tb p]
  note s = settle_ok [OF ok settle [unfolded p]]
  show "evolves (cl_fmt c) view w w'" by (rule evolves_trans [OF marked s(1)])
  show "rrc_status r = RUN_FAILED \<and> rrc_failure_code r = Some code" "canonical_uuid run_id" using s(2) uuid by simp_all
  show "\<exists>u. canonical_record c run_id u = (Inr r, w') \<and> evolves (cl_fmt c) view w u" using s(2) marked by blast
qed

lemma find_holds: "find P xs = Some x \<Longrightarrow> P x"
  by (induction xs) (auto split: if_splits)

lemma enum_member_Inr: "enum_member value_of xs s = Inr x \<Longrightarrow> value_of x = s"
  unfolding enum_member_def using find_holds [of "\<lambda>x. value_of x = s" xs x] by (cases "find (\<lambda>x. value_of x = s) xs") simp_all

lemma closed_event_Inr:
  assumes "closed_event event = Inr (run_id, code)"
  shows "jget event ''run_id'' = JStr run_id" and "canonical_uuid run_id"
    and "case code of None \<Rightarrow> jget event ''outcome'' = JStr ''SUCCEEDED''
      | Some fc \<Rightarrow> jget event ''outcome'' = JStr ''FAILED'' \<and> jget event ''failure_code'' = JStr (failure_code_value fc)"
proof -
  have member: "enum_member failure_code_value all_codes s = Inr fc \<Longrightarrow> s = failure_code_value fc" for s fc
    by (rule enum_member_Inr [symmetric])
  have uuid: "validate_uuid v = Inr s \<Longrightarrow> v = JStr s \<and> canonical_uuid s" for v s
    by (auto simp: validate_uuid_def split: json.splits if_splits)
  show "jget event ''run_id'' = JStr run_id" "canonical_uuid run_id"
    using assms uuid by (auto simp: closed_event_def Let_def result_simps split: if_splits sum.splits option.splits json.splits)
  show "case code of None \<Rightarrow> jget event ''outcome'' = JStr ''SUCCEEDED''
      | Some fc \<Rightarrow> jget event ''outcome'' = JStr ''FAILED'' \<and> jget event ''failure_code'' = JStr (failure_code_value fc)"
    using assms by (auto simp: closed_event_def Let_def result_simps dest!: member split: if_splits sum.splits option.splits json.splits)
qed

section \<open>Properties of finalization\<close>


section \<open>A verified run\<close>

text \<open>The manifest of checksums survives its canonical document.\<close>

definition artifact_ok :: "artifact_digest \<Rightarrow> bool" where
  "artifact_ok a \<longleftrightarrow> adg_name a \<in> set REQUIRED_ARTIFACTS \<and> 0 \<le> adg_byte_length a \<and> validate_sha256 (JStr (adg_sha256 a)) = Inr (adg_sha256 a)"

definition artifact_json :: "artifact_digest \<Rightarrow> json" where
  "artifact_json a = JObj [(''byte_length'', JInt (adg_byte_length a)), (''name'', JStr (adg_name a)), (''sha256'', JStr (adg_sha256 a))]"

lemma artifact_json_valid: "artifact_ok a \<Longrightarrow> artifact_digest_validate (artifact_json a) = Inr a"
  unfolding artifact_digest_validate_def model_Inr
  by (cases a) (simp add: artifact_json_def artifact_ok_def required_def admit_artifact_name_def admit_byte_length_def strict_str_def
      strict_int_def)

lemma artifacts_json_valid: "list_all artifact_ok as \<Longrightarrow> validate_all artifact_digest_validate (map artifact_json as) = Inr as"
  by (induction as) (simp_all add: artifact_json_valid)

lemma sorted_checksums:
  "json_sorted (checksums_payload as) = JObj [(''artifacts'', JList (map artifact_json as)), (''schema_version'', JStr SCHEMA_VERSION)]"
  by (simp add: checksums_payload_def artifact_json_def)

lemma checksums_valid:
  assumes "list_all artifact_ok as" and "distinct (map adg_name as)" and "set (map adg_name as) = set REQUIRED_ARTIFACTS"
  shows "checksums_validate (json_sorted (checksums_payload as)) = Inr as"
  unfolding checksums_validate_def model_Inr sorted_checksums
  using assms by (simp add: required_def defaulted_def validate_schema_version_def strict_str_def admit_artifacts_def
      artifacts_json_valid require_exact_artifacts_def)

lemma sorted_checksums_document: "json_sorted (json_sorted (checksums_payload as)) = json_sorted (checksums_payload as)"
  by (simp add: sorted_checksums artifact_json_def)

text \<open>The keys of a run's objects.\<close>

lemma run_storage_key:
  assumes "canonical_uuid i" and "CHR ''/'' \<notin> set name" and "name \<notin> {[], ''.'', ''..''}" and "length name \<le> 900"
    and "CHR 0x5C \<notin> set name" and "\<not> list_ex is_control name"
  shows "validate_storage_key (run_prefix i @ name) = Inr (run_prefix i @ name)"
proof -
  have "take 12 (run_prefix i @ name) \<noteq> ''datasets/v1/''" "take 8 (run_prefix i @ name) = ''runs/v1/''"
    by (simp_all add: run_prefix_def)
  with run_key_ok [OF assms] show ?thesis by (simp add: validate_storage_key_def run_key_check_def)
qed

lemma artifact_storage_key:
  assumes "canonical_uuid i" and "name \<in> set (''checksums.json'' # REQUIRED_ARTIFACTS)"
  shows "validate_storage_key (run_prefix i @ name) = Inr (run_prefix i @ name)"
proof (rule run_storage_key [OF assms(1)])
  have chars: "list_all (\<lambda>n. CHR ''/'' \<notin> set n \<and> n \<notin> {[], ''.'', ''..''} \<and> length n \<le> 900 \<and> CHR 0x5C \<notin> set n \<and> \<not> list_ex is_control n)
      (''checksums.json'' # REQUIRED_ARTIFACTS)" by code_simp
  with assms(2) show "CHR ''/'' \<notin> set name" "name \<notin> {[], ''.'', ''..''}" "length name \<le> 900" "CHR 0x5C \<notin> set name"
    "\<not> list_ex is_control name"
    unfolding list_all_iff by blast+
qed

text \<open>A world with the objects of one run.\<close>

lemma demo_digest_ok: "validate_sha256 (JStr (demo_digest b)) = Inr (demo_digest b)"
proof -
  have "is_sha256 (JStr (replicate 63 (CHR ''0'') @ [CHR ''0'']))" "is_sha256 (JStr (replicate 63 (CHR ''0'') @ [CHR ''1'']))" by code_simp+
  then show ?thesis by (cases "even (length b)") (simp_all add: validate_sha256_def demo_digest_def)
qed

lemma demo_get:
  assumes "objects key = Some (b, demo_digest b)" and "validate_storage_key key = Inr key" and "int (length b) \<le> n"
  shows "store_get demo_digest demo_client key n (objects, items) = (Inr b, (objects, items))"
proof -
  have "store_head demo_client key (objects, items) = (Inr \<lparr>so_key = key, so_byte_length = int (length b), so_sha256 = demo_digest b\<rparr>, (objects, items))"
    using assms(1,2) by (simp add: store_head_def demo_client_def sbind_def on_error_def head_response_def stored_object_create_def demo_digest_ok)
  then show ?thesis
    using assms by (simp add: store_get_def sbind_def on_error_def demo_client_def read_body_def)
qed

definition demo_body :: "string \<Rightarrow> string" where
  "demo_body name = (if name = ''result.json'' then ''result'' else name)"

definition demo_artifacts :: "artifact_digest list" where
  "demo_artifacts = map (\<lambda>name. \<lparr>adg_name = name, adg_byte_length = int (length (demo_body name)), adg_sha256 = demo_digest (demo_body name)\<rparr>)
     REQUIRED_ARTIFACTS"

definition demo_result :: json where
  "demo_result = JObj [(''run_id'', JStr demo_run_id)]"

definition demo_cloud :: "(int \<Rightarrow> json) \<Rightarrow> demo_world cloud" where
  "demo_cloud num = \<lparr>cl_fmt = demo_utc, cl_digest = demo_digest,
     cl_dumps = (\<lambda>j. if ''run_id'' \<in> jkeys j then ''result'' else ''manifest''),
     cl_loads = (\<lambda>s. if s = ''manifest'' then Inr (json_sorted (checksums_payload demo_artifacts))
       else if s = ''result'' then Inr demo_result else Inl (refuse [])),
     cl_client = demo_client, cl_table = demo_table num\<rparr>"

definition demo_running :: run_record where
  "demo_running = demo_record\<lparr>rrc_status := RUNNING, rrc_started_at := Some 1600000001000000\<rparr>"

definition demo_objects :: "string \<Rightarrow> (string \<times> string) option" where
  "demo_objects = map_of ((run_prefix demo_run_id @ ''checksums.json'', ''manifest'', demo_digest ''manifest'') #
     map (\<lambda>name. (run_prefix demo_run_id @ name, demo_body name, demo_digest (demo_body name))) REQUIRED_ARTIFACTS)"

definition demo_items :: run_table where
  "demo_items = [''RUN#'' @ demo_run_id \<mapsto> record_item demo_utc demo_running]"

definition demo_event :: json where
  "demo_event = JObj [(''run_id'', JStr demo_run_id), (''outcome'', JStr ''SUCCEEDED'')]"

lemma demo_cloud_ok: "cloud_ok num demo_view (demo_cloud num)"
  by (simp add: cloud_ok_def demo_cloud_def demo_objects_ok demo_table_ok demo_utc_ok)

lemma demo_running_ok: "record_ok demo_running"
  using record_step_ok [OF record_step.start demo_record_ok] by (simp add: demo_running_def demo_record_def)

lemma demo_running_holds: "holds_record demo_utc demo_items (''RUN#'' @ demo_run_id) demo_running"
  unfolding holds_record_def demo_items_def
  by (simp add: demo_running_ok record_item_member) (simp add: demo_running_def demo_record_def)

lemma demo_items_valid: "table_valid demo_utc demo_items"
proof -
  have "pk = ''RUN#'' @ demo_run_id" if "demo_items pk \<noteq> None" for pk
    using that by (auto simp: demo_items_def split: if_splits)
  with demo_running_holds show ?thesis unfolding table_valid_def by blast
qed

lemma demo_manifest_read:
  "read_manifest (demo_cloud num) demo_run_id (demo_objects, items) = (Inr demo_artifacts, (demo_objects, items))"
proof -
  let ?j = "json_sorted (checksums_payload demo_artifacts)"
  have "list_all artifact_ok demo_artifacts"
    by (simp add: demo_artifacts_def artifact_ok_def demo_digest_ok list_all_iff)
  moreover have names: "map adg_name demo_artifacts = REQUIRED_ARTIFACTS" by (simp add: demo_artifacts_def comp_def)
  moreover have "distinct REQUIRED_ARTIFACTS" by code_simp
  ultimately have valid: "checksums_validate ?j = Inr demo_artifacts" by (intro checksums_valid) simp_all
  have "unique_names ?j" "json_finite ?j" "members ?j \<noteq> None" "''run_id'' \<notin> jkeys ?j"
    by (simp_all add: sorted_checksums artifact_json_def list_all_iff)
  then have "parse_manifest (demo_cloud num) ''manifest'' = Inr demo_artifacts"
    unfolding parse_manifest_def strict_json_object_def canonical_json_bytes_def
    using valid names by (simp add: demo_cloud_def sorted_checksums_document)
  moreover have "store_get demo_digest demo_client (run_prefix demo_run_id @ ''checksums.json'') (32 * 1024) (demo_objects, items) =
      (Inr ''manifest'', (demo_objects, items))"
    by (rule demo_get) (simp_all add: demo_objects_def artifact_storage_key demo_uuid)
  ultimately show ?thesis
    by (simp add: read_manifest_def checked_prefix_def validate_uuid_def demo_uuid object_get_def demo_cloud_def sbind_def on_error_def)
qed

lemma demo_artifact_get:
  assumes "name \<in> set REQUIRED_ARTIFACTS" and "int (length (demo_body name)) \<le> n"
  shows "store_get demo_digest demo_client (run_prefix demo_run_id @ name) n (demo_objects, items) = (Inr (demo_body name), (demo_objects, items))"
proof (rule demo_get)
  from assms(1) have "name \<noteq> ''checksums.json''" by (auto simp: REQUIRED_ARTIFACTS_def)
  moreover have "map_of (map (\<lambda>name. (run_prefix demo_run_id @ name, demo_body name, demo_digest (demo_body name))) ns)
      (run_prefix demo_run_id @ name) = Some (demo_body name, demo_digest (demo_body name))" if "name \<in> set ns" for ns
    using that by (induction ns) auto
  ultimately show "demo_objects (run_prefix demo_run_id @ name) = Some (demo_body name, demo_digest (demo_body name))"
    using assms(1) by (simp add: demo_objects_def)
  show "validate_storage_key (run_prefix demo_run_id @ name) = Inr (run_prefix demo_run_id @ name)"
    using assms(1) by (intro artifact_storage_key demo_uuid) simp
qed (rule assms(2))

lemma demo_artifacts_read:
  "verify_required_artifacts (demo_cloud num) demo_run_id demo_artifacts (demo_objects, items) =
    (Inr (map (\<lambda>name. (name, demo_body name)) REQUIRED_ARTIFACTS), (demo_objects, items))"
proof -
  have step: "verify_artifacts (demo_cloud num) (run_prefix demo_run_id) (map (\<lambda>name. \<lparr>adg_name = name,
        adg_byte_length = int (length (demo_body name)), adg_sha256 = demo_digest (demo_body name)\<rparr>) ns) v (demo_objects, items) =
      (Inr (fold (\<lambda>name v. dict_set v name (demo_body name)) ns v), (demo_objects, items))"
    if "set ns \<subseteq> set REQUIRED_ARTIFACTS" for ns v
    using that
  proof (induction ns arbitrary: v)
    case (Cons name ns)
    then have "name \<in> {''run-spec.json'', ''result.json'', ''trades.parquet'', ''equity-curve.parquet'', ''report.html''}"
      by (simp add: REQUIRED_ARTIFACTS_def)
    then obtain n where n: "map_of ARTIFACT_MAXIMUM_BYTES name = Some n" "int (length (demo_body name)) \<le> n"
      by (auto simp: ARTIFACT_MAXIMUM_BYTES_def demo_body_def)
    from demo_artifact_get [OF _ n(2)] Cons.prems have "store_get demo_digest demo_client (run_prefix demo_run_id @ name) n (demo_objects, items) =
        (Inr (demo_body name), (demo_objects, items))" by simp
    with n(1) Cons show ?case by (simp add: object_get_def demo_cloud_def sbind_def on_error_def)
  qed simp
  have all: "fold (\<lambda>name v. dict_set v name (demo_body name)) REQUIRED_ARTIFACTS [] = map (\<lambda>name. (name, demo_body name)) REQUIRED_ARTIFACTS"
    by (simp add: REQUIRED_ARTIFACTS_def dict_set_def)
  have "verify_artifacts (demo_cloud num) (run_prefix demo_run_id) demo_artifacts [] (demo_objects, items) =
      (Inr (map (\<lambda>name. (name, demo_body name)) REQUIRED_ARTIFACTS), (demo_objects, items))"
    unfolding demo_artifacts_def by (subst step) (simp_all add: all)
  then show ?thesis
    by (simp add: verify_required_artifacts_def checked_prefix_def validate_uuid_def demo_uuid sbind_def comp_def image_image)
qed

lemma demo_finalized:
  "finalize_success (demo_cloud num) (Inr 1600000002000000) demo_run_id (demo_objects, demo_items) =
    settle (demo_cloud num) demo_run_id (\<lambda>r. rrc_status r = SUCCEEDED) (verification_error ''run record is incompatible with success finalization'')
      (mark_succeeded demo_utc (demo_table num) demo_run_id 1600000002000000 (demo_objects, demo_items))"
proof -
  have "verify_result_run_id (demo_cloud num) ''result'' demo_run_id = Inr ()"
    by (simp add: verify_result_run_id_def strict_json_object_def canonical_json_bytes_def demo_cloud_def demo_result_def validate_uuid_def demo_uuid)
  moreover have "dict_get (map (\<lambda>name. (name, demo_body name)) REQUIRED_ARTIFACTS) ''result.json'' = Some ''result''"
    by (simp add: REQUIRED_ARTIFACTS_def dict_get_def demo_body_def)
  ultimately show ?thesis
    by (simp add: finalize_success_def demo_manifest_read demo_artifacts_read sbind_def validate_uuid_def demo_uuid) (simp add: demo_cloud_def)
qed

lemma demo_finalization:
  obtains w2 r where "evolves demo_utc demo_view (demo_objects, demo_items) w2" "rrc_status r = SUCCEEDED"
    "holds_record demo_utc (cv_items demo_view w2) (''RUN#'' @ demo_run_id) r"
    "handle_finalization (demo_cloud JInt) (Inr 1600000002000000) demo_event (demo_objects, demo_items) = (Inr (finalization_response r), w2)"
    "num = (\<lambda>n. JFloat (Fin (real_of_int n))) \<Longrightarrow>
      handle_finalization (demo_cloud num) (Inr 1600000002000000) demo_event (demo_objects, demo_items) = (Inl validation_error, w2)"
proof -
  let ?w = "(demo_objects, demo_items)" and ?pk = "''RUN#'' @ demo_run_id"
  have "dict_get (record_item demo_utc demo_running) ''status'' = Some (JStr ''RUNNING'')"
    by (simp add: record_item_member) (simp add: demo_running_def)
  then obtain w2 where w2: "mark_succeeded demo_utc (demo_table n) demo_run_id 1600000002000000 ?w = (Inr (), w2)" for n
    by (simp add: mark_succeeded_def update_run_def run_key_def validate_uuid_def demo_uuid on_error_def demo_table_def demo_write_def
        demo_items_def success_condition_def)
  have valid: "table_valid demo_utc (cv_items demo_view ?w)" using demo_items_valid by (simp add: demo_view_def)
  note marked = mark_succeeded_record [OF demo_table_ok [where num = JInt] w2]
  from marked(2) [OF valid demo_utc_ok refl] obtain r0 where r0: "holds_record demo_utc (cv_items demo_view w2) ?pk r0" "rrc_status r0 = SUCCEEDED" by blast
  have got: "\<exists>j. tc_get (demo_table n) ?pk True w2 = (Inr j, w2)" for n by (cases w2) (simp add: demo_table_def)
  have key: "run_key demo_run_id = Inr ?pk" by (simp add: run_key_Inr demo_uuid)
  have answer: "\<exists>q. repository_get demo_utc (demo_table n) demo_run_id True w2 = (q, w2) \<and> (n = JInt \<longrightarrow> (\<exists>r. q = Inr (Some r) \<and>
      rrc_status r = SUCCEEDED \<and> holds_record demo_utc (cv_items demo_view w2) ?pk r)) \<and> ((\<forall>k m. n k \<noteq> JInt m) \<longrightarrow> q = Inl validation_error)" for n
  proof -
    from got [of n] obtain j where j: "tc_get (demo_table n) ?pk True w2 = (Inr j, w2)" by blast
    with key obtain q where q: "repository_get demo_utc (demo_table n) demo_run_id True w2 = (q, w2)"
      by (simp add: repository_get_def sbind_def)
    note read = repository_get_record(3) [OF demo_table_ok demo_utc_ok q r0(1) j]
    have "rrc_status r' = SUCCEEDED" if "record_step\<^sup>*\<^sup>* r0 r'" for r' using final_record_stays [OF that] r0(2) by simp
    with read q show ?thesis by blast
  qed
  from answer [of JInt] obtain r where r: "repository_get demo_utc (demo_table JInt) demo_run_id True w2 = (Inr (Some r), w2)"
      "rrc_status r = SUCCEEDED" "holds_record demo_utc (cv_items demo_view w2) ?pk r" by auto
  have event: "closed_event demo_event = Inr (demo_run_id, None)"
    by (auto simp: closed_event_def demo_event_def validate_uuid_def demo_uuid)
  have fields: "cl_fmt (demo_cloud n) = demo_utc" "cl_table (demo_cloud n) = demo_table n" for n by (simp_all add: demo_cloud_def)
  have success: "handle_finalization (demo_cloud JInt) (Inr 1600000002000000) demo_event ?w = (Inr (finalization_response r), w2)"
    using r by (simp add: handle_finalization_def event demo_finalized settle_def w2 canonical_record_def run_get_def fields sbind_def)
  have decimals: "handle_finalization (demo_cloud num) (Inr 1600000002000000) demo_event ?w = (Inl validation_error, w2)"
    if num: "num = (\<lambda>n. JFloat (Fin (real_of_int n)))"
  proof -
    have "\<forall>k m. num k \<noteq> JInt m" unfolding num by simp
    with answer [of num] have "repository_get demo_utc (demo_table num) demo_run_id True w2 = (Inl validation_error, w2)" by auto
    then show ?thesis by (simp add: handle_finalization_def event demo_finalized settle_def w2 canonical_record_def run_get_def fields sbind_def)
  qed
  show ?thesis by (rule that [OF marked(1) r(2,3) success decimals])
qed


lemma validated_expiry:
  assumes "run_record_validate fmt j = Inr r"
  shows "\<exists>n. jget j ''expires_at'' = JInt n"
proof -
  from assms obtain n where "required j ''expires_at'' strict_int = Inr n"
    unfolding run_record_validate_def model_Inr by fastforce
  then show ?thesis by (auto simp: required_Inr strict_int_def split: json.splits)
qed

lemma decimals_not_read:
  assumes ok: "cloud_ok num view c" and num: "\<forall>n m. num n \<noteq> JInt m"
  shows "canonical_record c run_id w \<noteq> (Inr r, w')"
proof
  assume run: "canonical_record c run_id w = (Inr r, w')"
  then have "repository_get (cl_fmt c) (cl_table c) run_id True w = (Inr (Some r), w')"
    by (auto simp: canonical_record_def run_get_def sbind_def split: sum.splits prod.splits option.splits)
  then obtain pk j where j: "tc_get (cl_table c) pk True w = (Inr j, w')" "record_of_response (cl_fmt c) run_id j = Inr (Some r)"
    by (auto simp: repository_get_def sbind_def split: sum.splits prod.splits)
  from ok have "table_ok (cl_fmt c) num view (cl_table c)" by (simp add: cloud_ok_def)
  then have read: "case cv_items view w' pk of None \<Rightarrow> jget j ''Item'' = JNull | Some i \<Rightarrow> \<exists>vs. jget j ''Item'' = JObj vs \<and>
      (\<forall>name. dict_get vs name = map_option (read_number num) (dict_get i name))"
    using j(1) unfolding table_ok_def by blast
  from j(2) obtain vs where vs: "jget j ''Item'' = JObj vs"
      "run_record_validate (cl_fmt c) (JObj (dict_set (dict_del vs ''PK'') ''run_id'' (JStr run_id))) = Inr r"
    by (auto simp: record_of_response_def result_simps split: if_splits option.splits elim: members.elims)
  from validated_expiry [OF vs(2)] obtain n where "dict_get vs ''expires_at'' = Some (JInt n)"
    by (auto simp: jget_dict dict_get_set dict_get_del split: option.splits simp del: jget.simps)
  with read vs(1) obtain v where "read_number num v = JInt n" by (auto split: option.splits)
  with num show False by (auto simp: read_number_def split: json.splits)
qed

lemma decimals_not_settled:
  assumes "cloud_ok num view c" and "\<forall>n m. num n \<noteq> JInt m"
  shows "settle c run_id is_done incompatible transition \<noteq> (Inr r, w')"
proof
  assume run: "settle c run_id is_done incompatible transition = (Inr r, w')"
  obtain p w1 where "transition = (p, w1)" by (metis surj_pair)
  with settle_ok(2) [OF assms(1) run [unfolded this] refl] decimals_not_read [OF assms] show False by blast
qed

text \<open>C37: with the numbers of \<open>boto3\<close> no finalization returns. When the table's client reads numbers as
  anything but integers, \<open>handle_finalization\<close> raises for every event and in every world, even when
  every artifact is verified and the transition to \<open>SUCCEEDED\<close> has been made.\<close>

theorem decimals_block_finalization:
  assumes "cloud_ok num view c" and "\<forall>n m. num n \<noteq> JInt m"
  shows "\<exists>e w'. handle_finalization c clock event w = (Inl e, w')"
proof -
  obtain q w' where run: "handle_finalization c clock event w = (q, w')" by (metis surj_pair)
  have "q \<noteq> Inr response" for response
  proof
    assume "q = Inr response"
    with run obtain run_id code r where routed: "(case code of None \<Rightarrow> finalize_success c clock run_id w
        | Some fc \<Rightarrow> finalize_failure c clock run_id fc w) = (Inr r, w')"
      by (auto simp: handle_finalization_def sbind_def split: sum.splits prod.splits)
    show False
    proof (cases code)
      case None
      with routed have "finalize_success c clock run_id w = (Inr r, w')" by simp
      from finalize_success_cases [OF this] decimals_not_settled [OF assms] show False by auto
    next
      case (Some fc)
      with routed obtain i now where "settle c i (\<lambda>r. rrc_status r = RUN_FAILED \<and> rrc_failure_code r = Some fc)
          (verification_error ''run record is incompatible with failure finalization'')
          (mark_failed (cl_fmt c) (cl_table c) i fc now w) = (Inr r, w')"
        by (auto simp: finalize_failure_def split: sum.splits prod.splits)
      with decimals_not_settled [OF assms] show False by blast
    qed
  qed
  with run show ?thesis by (cases q) auto
qed

theorem decimals_block_finalization_witness:
  "\<exists>e w' r. handle_finalization (demo_cloud (\<lambda>n. JFloat (Fin (real_of_int n)))) (Inr 1600000002000000) demo_event (demo_objects, demo_items) =
       (Inl e, w') \<and>
     holds_record demo_utc (cv_items demo_view w') (''RUN#'' @ demo_run_id) r \<and> rrc_status r = SUCCEEDED"
proof -
  let ?num = "\<lambda>n. JFloat (Fin (real_of_int n))"
  obtain w2 r where run: "rrc_status r = SUCCEEDED" "holds_record demo_utc (cv_items demo_view w2) (''RUN#'' @ demo_run_id) r"
    "handle_finalization (demo_cloud ?num) (Inr 1600000002000000) demo_event (demo_objects, demo_items) = (Inl validation_error, w2)"
    by (rule demo_finalization [where num = ?num]) auto
  from decimals_block_finalization [OF demo_cloud_ok, of ?num "Inr 1600000002000000" demo_event "(demo_objects, demo_items)"] obtain e w' where
    "handle_finalization (demo_cloud ?num) (Inr 1600000002000000) demo_event (demo_objects, demo_items) = (Inl e, w')" by auto
  with run show ?thesis by auto
qed

end
