(* ===== verification/Run_Preparation.thy ===== *)
theory Run_Preparation
  imports Finalization
begin

text \<open>
  The preparation of a run, \<open>src/cloud/prepare_handler.py\<close>, and the admission of its specification by the
  worker, \<open>src/cloud/worker.py\<close>: the specification is published under the key of the run before the
  record of the run is created, and the worker reads exactly what was published.
\<close>

section \<open>Preparation\<close>

definition preparation_error :: "string \<Rightarrow> exn" where
  "preparation_error message = raise_as ''RunPreparationError'' message"

definition preparation_event_validate :: "iso_api \<Rightarrow> json \<Rightarrow> exn + research_request \<times> dataset_ref" where
  "preparation_event_validate fmt event = model [''request'', ''dataset''] event
     (vpair (required event ''request'' (research_request_validate fmt)) (required event ''dataset'' (dataset_ref_validate fmt))) Inr"

definition validate_ttl_days :: "int \<Rightarrow> exn + int" where
  "validate_ttl_days n = (if n \<le> 0 then Inl (refuse ''ttl_days must be a positive integer'') else Inr n)"

text \<open>\<open>int((now + timedelta(days=n)).timestamp())\<close>; the last time of a \<open>datetime\<close> is in the year 9999.\<close>

definition expiry_seconds :: "datetime \<Rightarrow> int \<Rightarrow> exn + int" where
  "expiry_seconds now days =
     (let t = now + days * 86400000000
      in if t > 253402300799999999 then Inl (external ''OverflowError'')
         else Inr (if t \<ge> 0 then t div 1000000 else - ((- t) div 1000000)))"

text \<open>A new record from parts that are models or texts: the fields are checked as they are when read.\<close>

definition pending_record :: "run_spec \<Rightarrow> research_request \<Rightarrow> dataset_ref \<Rightarrow> int \<Rightarrow> exn + run_record" where
  "pending_record spec request dataset expires =
     model [] (JObj [])
       (vpair (validate_uuid (JStr (rsp_run_id spec))) (vpair (dataset_key_check (JStr (dsr_key dataset)))
       (vpair (validate_sha256 (JStr (dsr_sha256 dataset))) (vpair (run_key_check (JStr (rsp_run_spec_key spec)))
       (vpair (run_prefix_check (JStr (rsp_result_prefix spec))) (validate_image_digest (JStr (rsp_image_digest spec))))))))
       (\<lambda>(run_id, key, h, spec_key, result_prefix, digest). admit_record
         \<lparr>rrc_run_id = run_id, rrc_status = PENDING, rrc_visibility = rsq_visibility request, rrc_dataset_key = key,
          rrc_dataset_sha256 = h, rrc_run_spec_key = spec_key, rrc_result_prefix = result_prefix, rrc_image_digest = digest,
          rrc_created_at = rsp_created_at spec, rrc_started_at = None, rrc_completed_at = None, rrc_failure_code = None,
          rrc_expires_at = expires\<rparr>)"

record prepared_run =
  prp_run_id :: string
  prp_run_spec_key :: string

definition prepared_run_dict :: "prepared_run \<Rightarrow> json" where
  "prepared_run_dict p = JObj [(''run_id'', JStr (prp_run_id p)), (''run_spec_key'', JStr (prp_run_spec_key p))]"

definition lifecycle_of :: "visibility \<Rightarrow> lifecycle_class" where
  "lifecycle_of v = (if v = PUBLIC then SELECTED_PUBLIC else TRANSIENT)"

text \<open>The specification and the record, before any service is called.\<close>

definition prepare_parts ::
    "iso_api \<Rightarrow> json \<Rightarrow> string \<Rightarrow> exn + datetime \<Rightarrow> string \<Rightarrow> int \<Rightarrow> exn + run_spec \<times> run_record" where
  "prepare_parts fmt event image_digest clock run_id ttl_days =
     rbind (preparation_event_validate fmt event) (\<lambda>(event_request, event_dataset).
     rbind (research_request_validate fmt (request_payload fmt event_request)) (\<lambda>request.
     rbind (dataset_ref_validate fmt (dataset_payload fmt event_dataset)) (\<lambda>dataset.
     rbind (validate_ttl_days ttl_days) (\<lambda>days.
     rbind clock (\<lambda>now.
     rbind (run_spec_create request dataset image_digest now run_id 600) (\<lambda>spec.
     rbind (expiry_seconds now days) (\<lambda>expires.
     rbind (pending_record spec request dataset expires) (\<lambda>r. Inr (spec, r)))))))))"

definition publish_spec :: "'w cloud \<Rightarrow> run_spec \<Rightarrow> 'w \<Rightarrow> (exn + unit) \<times> 'w" where
  "publish_spec c spec w = (case canonical_json_bytes c (run_spec_payload (cl_fmt c) spec) of
     Inl e \<Rightarrow> (Inl e, w)
   | Inr body \<Rightarrow> sbind (object_put c (rsp_run_spec_key spec) body ''application/json'' (lifecycle_of (rsq_visibility (rsp_request spec))) w)
       (\<lambda>_ w'. (Inr (), w')))"

definition prepare_run ::
    "'w cloud \<Rightarrow> json \<Rightarrow> string \<Rightarrow> exn + datetime \<Rightarrow> string \<Rightarrow> int \<Rightarrow> 'w \<Rightarrow> (exn + prepared_run) \<times> 'w" where
  "prepare_run c event image_digest clock run_id ttl_days w =
     (case prepare_parts (cl_fmt c) event image_digest clock run_id ttl_days of
        Inl e \<Rightarrow> (Inl e, w)
      | Inr (spec, r) \<Rightarrow>
          sbind (on_error (\<lambda>_. preparation_error ''run specification publication failed'') (publish_spec c spec w)) (\<lambda>_ w1.
          sbind (on_error (\<lambda>e. if raised ''StateTransitionError'' e then e
              else preparation_error ''pending run metadata creation failed'') (create_pending (cl_fmt c) (cl_table c) r w1)) (\<lambda>_ w2.
            (Inr \<lparr>prp_run_id = rsp_run_id spec, prp_run_spec_key = rsp_run_spec_key spec\<rparr>, w2))))"

text \<open>\<open>RUN_TTL_DAYS\<close> of the environment: decimal digits of a positive number.\<close>

definition decimal_value :: "string \<Rightarrow> int" where
  "decimal_value s = fold (\<lambda>c n. 10 * n + int (of_char c) - 48) s 0"

definition ttl_days_from_environment :: "string \<Rightarrow> exn + int" where
  "ttl_days_from_environment s =
     (if s = [] \<or> \<not> list_all (\<lambda>c. 48 \<le> (of_char c :: nat) \<and> (of_char c :: nat) \<le> 57) s
      then Inl (refuse ''RUN_TTL_DAYS must be a positive integer'') else validate_ttl_days (decimal_value s))"

section \<open>Admission by the worker\<close>

definition worker_error :: "string \<Rightarrow> exn" where
  "worker_error message = raise_as ''WorkerError'' message"

definition admit_run_spec_key :: "string \<Rightarrow> exn + string" where
  "admit_run_spec_key key =
     (case split_slash key of
        [a, b, i, name] \<Rightarrow>
          if a = ''runs'' \<and> b = ''v1'' \<and> name = ''run-spec.json'' \<and> canonical_uuid i then Inr key
          else Inl (worker_error ''run specification key mismatch'')
      | _ \<Rightarrow> Inl (worker_error ''run specification key mismatch''))"

text \<open>\<open>parse_json\<close> is pydantic's reading of a JSON text; \<open>admissible\<close> are the errors of a validation.\<close>

definition admissible :: "exn \<Rightarrow> bool" where
  "admissible e \<longleftrightarrow> raised ''ValidationError'' e \<or> is_value_error e \<or> is_type_error e"

definition admit_run_spec :: "'w cloud \<Rightarrow> (string \<Rightarrow> exn + json) \<Rightarrow> string \<Rightarrow> string \<Rightarrow> exn + run_spec" where
  "admit_run_spec c parse_json key body =
     (case rbind (parse_json body) (run_spec_validate (cl_fmt c)) of
        Inl e \<Rightarrow> Inl (if admissible e then worker_error ''run specification admission failed'' else e)
      | Inr spec \<Rightarrow>
          if rsp_run_spec_key spec \<noteq> key then Inl (worker_error ''run specification key mismatch'')
          else rbind (canonical_json_bytes c (run_spec_payload (cl_fmt c) spec)) (\<lambda>canonical.
            if body \<noteq> canonical then Inl (worker_error ''run specification admission failed'')
            else if dsr_symbol (rsp_dataset spec) \<noteq> rsq_symbol (rsp_request spec) \<or>
                dsr_start (rsp_dataset spec) \<noteq> rsq_start (rsp_request spec) \<or> dsr_end (rsp_dataset spec) \<noteq> rsq_end (rsp_request spec)
            then Inl (worker_error ''dataset and request do not agree'')
            else Inr spec))"

definition MAXIMUM_RUN_SPEC_BYTES :: int where
  "MAXIMUM_RUN_SPEC_BYTES = 128 * 1024"

definition read_run_spec ::
    "'w cloud \<Rightarrow> (string \<Rightarrow> exn + json) \<Rightarrow> string \<Rightarrow> 'w \<Rightarrow> (exn + run_spec \<times> string) \<times> 'w" where
  "read_run_spec c parse_json key w = (case admit_run_spec_key key of
     Inl e \<Rightarrow> (Inl e, w)
   | Inr k \<Rightarrow> sbind (on_error (\<lambda>_. worker_error ''run specification download failed'') (object_get c k MAXIMUM_RUN_SPEC_BYTES w))
       (\<lambda>body w'. (rbind (admit_run_spec c parse_json k body) (\<lambda>spec. Inr (spec, body)), w')))"

section \<open>A prepared run can be executed\<close>

lemma preparation_event_Inr:
  assumes "preparation_event_validate fmt event = Inr (request, dataset)"
  shows "request_ok request" "dataset_ok dataset"
    "research_request_validate fmt (jget event ''request'') = Inr request" "dataset_ref_validate fmt (jget event ''dataset'') = Inr dataset"
proof -
  from assms show r: "research_request_validate fmt (jget event ''request'') = Inr request"
    "dataset_ref_validate fmt (jget event ''dataset'') = Inr dataset"
    unfolding preparation_event_validate_def model_Inr by (auto simp: required_Inr)
  show "request_ok request" "dataset_ok dataset" using request_validated [OF r(1)] dataset_validated [OF r(2)] by simp_all
qed

lemma prepare_parts_Inr:
  assumes fmt: "utc_ok fmt" and run: "prepare_parts fmt event image_digest clock run_id ttl_days = Inr (spec, r)"
  shows "\<exists>request dataset now. preparation_event_validate fmt event = Inr (request, dataset) \<and> clock = Inr now \<and>
    run_spec_create request dataset image_digest now run_id 600 = Inr spec \<and> record_ok r \<and> rrc_status r = PENDING \<and>
    rrc_run_id r = run_id \<and> rrc_visibility r = rsq_visibility request \<and> rrc_dataset_key r = dsr_key dataset \<and>
    rrc_dataset_sha256 r = dsr_sha256 dataset \<and> rrc_image_digest r = image_digest \<and> rrc_created_at r = now"
proof -
  from run obtain request dataset request' dataset' now expires where parts: "preparation_event_validate fmt event = Inr (request, dataset)"
      "research_request_validate fmt (request_payload fmt request) = Inr request'" "dataset_ref_validate fmt (dataset_payload fmt dataset) = Inr dataset'"
      "clock = Inr now" "run_spec_create request' dataset' image_digest now run_id 600 = Inr spec" "pending_record spec request' dataset' expires = Inr r"
    by (auto simp: prepare_parts_def result_simps)
  note event = preparation_event_Inr [OF parts(1)]
  from parts(2,3) payload_valid [OF fmt event(1)] dataset_payload_valid(1) [OF fmt event(2)] have same: "request' = request" "dataset' = dataset"
    by simp_all
  note created = run_spec_create_Inr [OF parts(5)]
  from parts(6) obtain x where "admit_record x = Inr r" and fields: "validate_uuid (JStr (rsp_run_id spec)) = Inr (rrc_run_id x)"
      "dataset_key_check (JStr (dsr_key dataset')) = Inr (rrc_dataset_key x)"
      "validate_sha256 (JStr (dsr_sha256 dataset')) = Inr (rrc_dataset_sha256 x)"
      "validate_image_digest (JStr (rsp_image_digest spec)) = Inr (rrc_image_digest x)" "rrc_status x = PENDING"
      "rrc_visibility x = rsq_visibility request'" "rrc_created_at x = rsp_created_at spec"
    unfolding pending_record_def model_Inr by fastforce
  moreover from this(1) have "x = r" by (auto simp: admit_record_def split: if_splits)
  moreover have "canonical_uuid (rrc_run_id x)" using fields(1) by (auto simp: validate_uuid_def split: if_splits)
  moreover have texts: "rrc_run_id x = rsp_run_id spec" "rrc_dataset_key x = dsr_key dataset" "rrc_dataset_sha256 x = dsr_sha256 dataset"
      "rrc_image_digest x = rsp_image_digest spec"
    using validator_Inr(4) [OF fields(1)] validator_Inr(5) [OF fields(2) [unfolded dataset_key_check_def]] validator_Inr(2) [OF fields(3)]
      validator_Inr(3) [OF fields(4)] same by simp_all
  ultimately have "record_ok r" unfolding record_ok_def using same by auto
  with parts(1,4,5) fields texts created(6) same \<open>x = r\<close> show ?thesis by auto
qed

lemma parameter_json_finite [simp]: "json_finite (parameter_json p)"
  by (cases p) simp_all

lemma spec_payload_finite [simp]: "json_finite (run_spec_payload fmt spec)"
  by (auto simp: run_spec_payload_def dataset_payload_def request_payload_def list_all_iff)

lemma admit_run_spec_key_ok:
  assumes "canonical_uuid i"
  shows "admit_run_spec_key (run_prefix i @ ''run-spec.json'') = Inr (run_prefix i @ ''run-spec.json'')"
proof -
  have "split_slash (run_prefix i @ ''run-spec.json'') = [''runs'', ''v1'', i, ''run-spec.json'']"
    using run_components [OF assms, of "''run-spec.json''"] by simp
  with assms show ?thesis by (simp add: admit_run_spec_key_def)
qed

text \<open>The text that is published, and what the worker makes of it.\<close>

definition spec_text :: "'w cloud \<Rightarrow> run_spec \<Rightarrow> string" where
  "spec_text c spec = cl_dumps c (json_sorted (run_spec_payload (cl_fmt c) spec))"

definition spec_agrees :: "run_spec \<Rightarrow> bool" where
  "spec_agrees spec \<longleftrightarrow> dsr_symbol (rsp_dataset spec) = rsq_symbol (rsp_request spec) \<and>
     dsr_start (rsp_dataset spec) = rsq_start (rsp_request spec) \<and> dsr_end (rsp_dataset spec) = rsq_end (rsp_request spec)"

lemma admit_published_spec:
  assumes fmt: "utc_ok (cl_fmt c)" and request: "request_ok request" and dataset: "dataset_ok dataset"
    and create: "run_spec_create request dataset image_digest now run_id runtime = Inr spec"
    and parse: "parse_json (spec_text c spec) = Inr (json_sorted (run_spec_payload (cl_fmt c) spec))"
  shows "admit_run_spec c parse_json (rsp_run_spec_key spec) (spec_text c spec) =
    (if spec_agrees spec then Inr (sorted_spec spec) else Inl (worker_error ''dataset and request do not agree''))"
proof -
  have valid: "run_spec_validate (cl_fmt c) (json_sorted (run_spec_payload (cl_fmt c) spec)) = Inr (sorted_spec spec)"
    by (rule sorted_run_spec_valid [OF fmt request dataset create])
  have same: "rsp_run_spec_key (sorted_spec spec) = rsp_run_spec_key spec" "dsr_symbol (rsp_dataset (sorted_spec spec)) = dsr_symbol (rsp_dataset spec)"
    "dsr_start (rsp_dataset (sorted_spec spec)) = dsr_start (rsp_dataset spec)" "dsr_end (rsp_dataset (sorted_spec spec)) = dsr_end (rsp_dataset spec)"
    "rsq_symbol (rsp_request (sorted_spec spec)) = rsq_symbol (rsp_request spec)" "rsq_start (rsp_request (sorted_spec spec)) = rsq_start (rsp_request spec)"
    "rsq_end (rsp_request (sorted_spec spec)) = rsq_end (rsp_request spec)"
    by (simp_all add: sorted_spec_def sorted_request_def)
  show ?thesis
    by (simp add: admit_run_spec_def parse [unfolded spec_text_def] valid same canonical_json_bytes_def sorted_spec_payload spec_text_def spec_agrees_def)
qed

lemma publish_spec_ok:
  assumes ok: "cloud_ok num view c" and run: "publish_spec c spec w = (q, w')"
  shows "evolves (cl_fmt c) view w w'"
    and "q = Inr () \<Longrightarrow> \<exists>b. cv_objects view w' (rsp_run_spec_key spec) = Some (b, cl_digest c (spec_text c spec)) \<and>
      cl_digest c b = cl_digest c (spec_text c spec)"
proof -
  from ok have client: "objects_ok (cl_fmt c) view (cl_client c)" by (simp add: cloud_ok_def)
  let ?body = "spec_text c spec"
  obtain p w1 where p: "store_put (cl_digest c) (cl_client c) (rsp_run_spec_key spec) ?body ''application/json''
      (lifecycle_of (rsq_visibility (rsp_request spec))) w = (p, w1)" by (metis surj_pair)
  note put = store_put_object [OF client p]
  from run p have "w' = w1" "q = Inr () \<Longrightarrow> \<exists>s. p = Inr s"
    by (auto simp: publish_spec_def canonical_json_bytes_def spec_text_def object_put_def sbind_def split: sum.splits)
  with put show "evolves (cl_fmt c) view w w'" "q = Inr () \<Longrightarrow> \<exists>b. cv_objects view w' (rsp_run_spec_key spec) =
      Some (b, cl_digest c (spec_text c spec)) \<and> cl_digest c b = cl_digest c (spec_text c spec)" by auto
qed


text \<open>A preparation that returns.\<close>

definition demo_preparation_event :: json where
  "demo_preparation_event = JObj [(''request'', request_payload demo_utc demo_research), (''dataset'', dataset_payload demo_utc demo_dataset)]"

lemma demo_prepared:
  "\<exists>p w'. prepare_run (demo_cloud JInt) demo_preparation_event demo_image (Inr 1600000000000000) demo_run_id 45 (\<lambda>_. None, \<lambda>_. None) = (Inr p, w')"
proof -
  note request = payload_valid [OF demo_utc_ok demo_research_ok] and dataset = dataset_payload_valid(1) [OF demo_utc_ok demo_dataset_ok]
  have event: "preparation_event_validate demo_utc demo_preparation_event = Inr (demo_research, demo_dataset)"
    unfolding preparation_event_validate_def model_Inr by (simp add: demo_preparation_event_def required_def request dataset)
  obtain spec where spec: "run_spec_create demo_research demo_dataset demo_image 1600000000000000 demo_run_id 600 = Inr spec"
    using run_spec_create_iff [of demo_research demo_dataset demo_image 1600000000000000 demo_run_id 600] demo_uuid demo_image_ok by auto
  note s = run_spec_create_Inr [OF spec]
  have checks: "dataset_key_check (JStr (dsr_key demo_dataset)) = Inr (dsr_key demo_dataset)"
    "validate_sha256 (JStr (dsr_sha256 demo_dataset)) = Inr (dsr_sha256 demo_dataset)"
    using demo_dataset_ok by (simp_all add: dataset_ok_def)
  obtain r where r: "pending_record spec demo_research demo_dataset 1603888000 = Inr r"
    using s(1-4) checks unfolding pending_record_def model_Inr s(6) by (simp add: admit_record_def)
  have parts: "prepare_parts demo_utc demo_preparation_event demo_image (Inr 1600000000000000) demo_run_id 45 = Inr (spec, r)"
    by (simp add: prepare_parts_def event request dataset validate_ttl_days_def spec expiry_seconds_def Let_def r)
  have record_facts: "rrc_status r = PENDING" "rrc_run_id r = demo_run_id"
    using prepare_parts_Inr [OF demo_utc_ok parts] by auto
  have key: "validate_storage_key (rsp_run_spec_key spec) = Inr (rsp_run_spec_key spec)"
    unfolding s(6) using run_storage_key [OF demo_uuid, of "''run-spec.json''"] by (simp add: is_control_def)
  have put: "\<exists>w1. publish_spec (demo_cloud JInt) spec (\<lambda>_. None, \<lambda>_. None) = (Inr (), (w1, \<lambda>_. None))"
    by (simp add: publish_spec_def canonical_json_bytes_def object_put_def store_put_def demo_cloud_def key stored_object_create_def
        demo_digest_ok demo_client_def sbind_def)
  then obtain w1 where put: "publish_spec (demo_cloud JInt) spec (\<lambda>_. None, \<lambda>_. None) = (Inr (), (w1, \<lambda>_. None))" by blast
  have "dict_get (record_item demo_utc r) ''PK'' = Some (JStr (''RUN#'' @ demo_run_id))"
    using record_ok_pk [of demo_utc r] record_facts by simp
  then obtain w2 where create: "create_pending demo_utc (demo_table JInt) r (w1, \<lambda>_. None) = (Inr (), w2)"
    by (simp add: create_pending_def record_facts run_key_def validate_uuid_def demo_uuid on_error_def demo_table_def demo_write_def)
  have fields: "cl_fmt (demo_cloud JInt) = demo_utc" "cl_table (demo_cloud JInt) = demo_table JInt" by (simp_all add: demo_cloud_def)
  show ?thesis by (simp add: prepare_run_def fields parts put create on_error_def sbind_def)
qed


end
