(* ===== verification/Public_Results.thy ===== *)
theory Public_Results
  imports Finalization
begin

text \<open>
  The public results of cloud runs, \<open>src/cloud/results_handler.py\<close>: an HTTP event is admitted, the run's
  record, its manifest and its result are read and checked, and the summary is answered; every
  failure of this is the same answer, that there is no such run.
\<close>

section \<open>Summaries\<close>

record public_result =
  pub_run_id :: string
  pub_symbol :: string
  pub_start_date :: string
  pub_end_date :: string
  pub_strategy_name :: string
  pub_strategy_parameters :: "(string, parameter) dict"
  pub_initial_capital :: real
  pub_final_equity :: real
  pub_metrics :: "(string, real option) dict"
  pub_total_trades :: int
  pub_image_digest :: string
  pub_dataset_sha256 :: string
  pub_completed_at :: string

definition hidden :: "string \<Rightarrow> exn" where
  "hidden message = raise_as ''_HiddenResultError'' message"

definition admit_result_date :: "iso_api \<Rightarrow> json \<Rightarrow> exn + string" where
  "admit_result_date fmt value = (case value of
     JStr s \<Rightarrow> (case date_parse fmt s of
         Some d \<Rightarrow> Inr (date_text fmt d) | None \<Rightarrow> Inl (refuse ''Invalid isoformat string''))
   | _ \<Rightarrow> Inl (refuse_type ''date must be an ISO string''))"

definition admit_result_time :: "iso_api \<Rightarrow> json \<Rightarrow> exn + string" where
  "admit_result_time fmt value = rbind (parse_utc_datetime fmt value) (\<lambda>t. Inr (utc_text fmt t))"

definition scalar_error :: exn where
  "scalar_error = refuse ''strategy parameters must be finite scalar values''"

definition admit_result_parameter :: "string \<times> json \<Rightarrow> exn + string \<times> parameter" where
  "admit_result_parameter = (\<lambda>(name, value).
     if name = [] then Inl scalar_error
     else (case value of
         JInt i \<Rightarrow> if float_overflows i then Inl (external ''OverflowError'') else Inr (name, IntParam i)
       | JFloat (Fin x) \<Rightarrow> Inr (name, FloatParam x)
       | _ \<Rightarrow> Inl scalar_error))"

definition admit_result_parameters :: "json \<Rightarrow> exn + (string, parameter) dict" where
  "admit_result_parameters value = (case members value of
     None \<Rightarrow> Inl (refuse ''strategy parameters must be a bounded object'')
   | Some kvs \<Rightarrow> if length kvs > 16 then Inl (refuse ''strategy parameters must be a bounded object'')
       else map_result admit_result_parameter kvs)"

definition admit_metric :: "string \<times> json \<Rightarrow> exn + string \<times> real option" where
  "admit_metric = (\<lambda>(name, value).
     if name = [] then Inl (refuse ''metric names must be non-empty strings'')
     else (case value of
         JNull \<Rightarrow> Inr (name, None)
       | JFloat (Fin x) \<Rightarrow> Inr (name, Some x)
       | _ \<Rightarrow> Inl (refuse ''metrics must be finite floats or null'')))"

definition admit_metrics :: "json \<Rightarrow> exn + (string, real option) dict" where
  "admit_metrics value = (case members value of
     None \<Rightarrow> Inl (refuse ''metrics must be a bounded object'')
   | Some kvs \<Rightarrow> if length kvs > 128 then Inl (refuse ''metrics must be a bounded object'') else map_result admit_metric kvs)"

definition admit_trade_count :: "json \<Rightarrow> exn + int" where
  "admit_trade_count value = rbind (strict_int value) (\<lambda>n.
     if n < 0 then Inl (refuse ''total_trades must be a non-negative integer'') else Inr n)"

definition public_names :: "string list" where
  "public_names = [''schema_version'', ''run_id'', ''symbol'', ''start_date'', ''end_date'', ''strategy_name'',
     ''strategy_parameters'', ''initial_capital'', ''final_equity'', ''metrics'', ''total_trades'', ''image_digest'',
     ''dataset_sha256'', ''completed_at'']"

definition public_result_validate :: "iso_api \<Rightarrow> json \<Rightarrow> exn + public_result" where
  "public_result_validate fmt j = model public_names j
     (vpair (required j ''schema_version'' (\<lambda>v. if v = JStr ''1'' then Inr ''1'' else Inl validation_error))
     (vpair (required j ''run_id'' validate_uuid)
     (vpair (required j ''symbol'' strict_str)
     (vpair (required j ''start_date'' (admit_result_date fmt))
     (vpair (required j ''end_date'' (admit_result_date fmt))
     (vpair (required j ''strategy_name'' strict_str)
     (vpair (required j ''strategy_parameters'' admit_result_parameters)
     (vpair (required j ''initial_capital'' finite_float)
     (vpair (required j ''final_equity'' finite_float)
     (vpair (required j ''metrics'' admit_metrics)
     (vpair (required j ''total_trades'' admit_trade_count)
     (vpair (required j ''image_digest'' validate_image_digest)
     (vpair (required j ''dataset_sha256'' validate_sha256)
     (required j ''completed_at'' (admit_result_time fmt)))))))))))))))
     (\<lambda>(version, run_id, symbol, start_date, end_date, strategy_name, params, capital, final_equity, metrics, trades, digest, h, completed).
        Inr \<lparr>pub_run_id = run_id, pub_symbol = symbol, pub_start_date = start_date, pub_end_date = end_date,
          pub_strategy_name = strategy_name, pub_strategy_parameters = params, pub_initial_capital = capital,
          pub_final_equity = final_equity, pub_metrics = metrics, pub_total_trades = trades, pub_image_digest = digest,
          pub_dataset_sha256 = h, pub_completed_at = completed\<rparr>)"

definition PRESIGN_SECONDS :: int where "PRESIGN_SECONDS = 300"

definition RESPONSE_MAXIMUM_BYTES :: int where "RESPONSE_MAXIMUM_BYTES = 64 * 1024"

definition public_payload :: "public_result \<Rightarrow> string \<Rightarrow> json" where
  "public_payload s report_url = JObj
     [(''schema_version'', JStr ''1''), (''run_id'', JStr (pub_run_id s)), (''symbol'', JStr (pub_symbol s)),
      (''start_date'', JStr (pub_start_date s)), (''end_date'', JStr (pub_end_date s)),
      (''strategy_name'', JStr (pub_strategy_name s)),
      (''strategy_parameters'', JObj (map (\<lambda>(name, p). (name, parameter_json p)) (pub_strategy_parameters s))),
      (''initial_capital'', JFloat (Fin (pub_initial_capital s))), (''final_equity'', JFloat (Fin (pub_final_equity s))),
      (''metrics'', JObj (map (\<lambda>(name, m). (name, case m of None \<Rightarrow> JNull | Some x \<Rightarrow> JFloat (Fin x))) (pub_metrics s))),
      (''total_trades'', JInt (pub_total_trades s)), (''image_digest'', JStr (pub_image_digest s)),
      (''dataset_sha256'', JStr (pub_dataset_sha256 s)), (''completed_at'', JStr (pub_completed_at s)),
      (''report_url'', JStr report_url), (''report_url_expires_seconds'', JInt PRESIGN_SECONDS)]"

section \<open>Reading a result\<close>

definition hidden_json :: exn where
  "hidden_json = hidden ''artifact JSON is invalid''"

definition hides :: "exn \<Rightarrow> bool" where
  "hides e \<longleftrightarrow> is_type_error e \<or> is_value_error e \<or> raised ''ValidationError'' e"

definition hidden_as :: "string \<Rightarrow> exn + 'a \<Rightarrow> exn + 'a" where
  "hidden_as message r = (case r of Inl e \<Rightarrow> Inl (if hides e then hidden message else e) | Inr x \<Rightarrow> Inr x)"

text \<open>The record read is validated already; validating it again gives it back.\<close>

definition publicly_finalized :: "run_record \<Rightarrow> bool" where
  "publicly_finalized r \<longleftrightarrow> rrc_status r = SUCCEEDED \<and> rrc_visibility r = PUBLIC \<and> rrc_failure_code r = None \<and>
     rrc_started_at r \<noteq> None \<and> rrc_completed_at r \<noteq> None"

definition public_record :: "'w cloud \<Rightarrow> string \<Rightarrow> 'w \<Rightarrow> (exn + run_record) \<times> 'w" where
  "public_record c run_id w = sbind (run_get c run_id w) (\<lambda>r w'. (case r of
     None \<Rightarrow> Inl (hidden ''record is absent'')
   | Some r \<Rightarrow> if rrc_run_id r \<noteq> run_id then Inl (hidden ''record identifier mismatch'')
       else if \<not> publicly_finalized r then Inl (hidden ''record is not publicly finalized'') else Inr r, w'))"

definition public_manifest_of :: "'w cloud \<Rightarrow> string \<Rightarrow> exn + artifact_digest list" where
  "public_manifest_of c body =
     rbind (strict_json_object c hidden_json (\<lambda>e. is_type_error e \<or> is_value_error e) body) (\<lambda>payload.
     rbind (hidden_as ''checksums manifest is malformed'' (checksums_validate payload)) (\<lambda>manifest.
       if set (map adg_name manifest) \<noteq> set REQUIRED_ARTIFACTS
       then Inl (hidden ''checksums manifest has the wrong artifact set'') else Inr manifest))"

definition public_manifest :: "'w cloud \<Rightarrow> string \<Rightarrow> 'w \<Rightarrow> (exn + artifact_digest list) \<times> 'w" where
  "public_manifest c run_id w =
     sbind (object_get c (run_prefix run_id @ ''checksums.json'') (32 * 1024) w) (\<lambda>body w'. (public_manifest_of c body, w'))"

definition manifest_entry :: "artifact_digest list \<Rightarrow> string \<Rightarrow> exn + int \<times> string" where
  "manifest_entry manifest name = (case filter (\<lambda>a. adg_name a = name) manifest of
     [a] \<Rightarrow> Inr (adg_byte_length a, adg_sha256 a) | _ \<Rightarrow> Inl (hidden ''checksums manifest entry is absent''))"

definition summary_of :: "'w cloud \<Rightarrow> string \<Rightarrow> string \<Rightarrow> exn + public_result" where
  "summary_of c run_id body =
     rbind (strict_json_object c hidden_json (\<lambda>e. is_type_error e \<or> is_value_error e) body) (\<lambda>payload.
     rbind (hidden_as ''result summary is malformed'' (public_result_validate (cl_fmt c) payload)) (\<lambda>summary.
       if pub_run_id summary \<noteq> run_id then Inl (hidden ''result identifier mismatch'') else Inr summary))"

definition result_summary :: "'w cloud \<Rightarrow> string \<Rightarrow> artifact_digest list \<Rightarrow> 'w \<Rightarrow> (exn + public_result) \<times> 'w" where
  "result_summary c run_id manifest w = (case manifest_entry manifest ''result.json'' of
     Inl e \<Rightarrow> (Inl e, w)
   | Inr (n, h) \<Rightarrow> sbind (object_get c (run_prefix run_id @ ''result.json'') (64 * 1024) w) (\<lambda>body w'.
       (if int (length body) \<noteq> n \<or> cl_digest c body \<noteq> h then Inl (hidden ''result artifact does not match checksums'')
        else summary_of c run_id body, w')))"

definition verify_report_reference :: "'w cloud \<Rightarrow> string \<Rightarrow> artifact_digest list \<Rightarrow> 'w \<Rightarrow> (exn + string) \<times> 'w" where
  "verify_report_reference c run_id manifest w = (case manifest_entry manifest ''report.html'' of
     Inl e \<Rightarrow> (Inl e, w)
   | Inr (n, h) \<Rightarrow> sbind (store_head (cl_client c) (run_prefix run_id @ ''report.html'') w) (\<lambda>stored w'.
       (if so_byte_length stored \<noteq> n \<or> so_sha256 stored \<noteq> h then Inl (hidden ''report artifact does not match checksums'')
        else Inr (run_prefix run_id @ ''report.html''), w')))"

section \<open>Answers\<close>

record api_response =
  api_status_code :: int
  api_body :: string

text \<open>Every answer has the headers of uncached JSON.\<close>

definition JSON_HEADERS :: "(string \<times> string) list" where
  "JSON_HEADERS = [(''content-type'', ''application/json''), (''cache-control'', ''no-store'')]"

definition NOT_FOUND :: api_response where
  "NOT_FOUND = \<lparr>api_status_code = 404, api_body = ''{\"error\":\"run_not_found\"}''\<rparr>"

definition BAD_REQUEST :: api_response where
  "BAD_REQUEST = \<lparr>api_status_code = 400, api_body = ''{\"error\":\"bad_request\"}''\<rparr>"

definition METHOD_NOT_ALLOWED :: api_response where
  "METHOD_NOT_ALLOWED = \<lparr>api_status_code = 405, api_body = ''{\"error\":\"method_not_allowed\"}''\<rparr>"

definition to_wire :: "api_response \<Rightarrow> json" where
  "to_wire r = JObj [(''statusCode'', JInt (api_status_code r)),
     (''headers'', JObj (map (\<lambda>(k, v). (k, JStr v)) JSON_HEADERS)), (''body'', JStr (api_body r))]"

definition success_response :: "'w cloud \<Rightarrow> public_result \<Rightarrow> string \<Rightarrow> exn + api_response" where
  "success_response c summary report_url =
     (if report_url = [] then Inl (hidden ''presigned URL is invalid'')
      else rbind (canonical_json_bytes c (public_payload summary report_url)) (\<lambda>body.
        if int (length body) > RESPONSE_MAXIMUM_BYTES then Inl (hidden ''public response is too large'')
        else Inr \<lparr>api_status_code = 200, api_body = body\<rparr>))"

definition read_public_result :: "'w cloud \<Rightarrow> string \<Rightarrow> 'w \<Rightarrow> (exn + api_response) \<times> 'w" where
  "read_public_result c run_id w =
     sbind (public_record c run_id w) (\<lambda>_ w1.
     sbind (public_manifest c run_id w1) (\<lambda>manifest w2.
     sbind (result_summary c run_id manifest w2) (\<lambda>summary w3.
     sbind (verify_report_reference c run_id manifest w3) (\<lambda>key w4.
     sbind (store_presign (cl_client c) key PRESIGN_SECONDS w4) (\<lambda>url w5. (success_response c summary url, w5))))))"

definition get_public_result :: "'w cloud \<Rightarrow> string \<Rightarrow> 'w \<Rightarrow> api_response \<times> 'w" where
  "get_public_result c run_id w = (case validate_uuid (JStr run_id) of
     Inl _ \<Rightarrow> (NOT_FOUND, w)
   | Inr i \<Rightarrow> (case read_public_result c i w of (Inl _, w') \<Rightarrow> (NOT_FOUND, w') | (Inr response, w') \<Rightarrow> (response, w')))"

section \<open>Events\<close>

definition FORBIDDEN_EVENT_FIELDS :: "string list" where
  "FORBIDDEN_EVENT_FIELDS = [''artifact_bucket'', ''bucket'', ''key'', ''object_store'', ''prefix'', ''run_repository'', ''run_table'', ''table'']"

definition event_method :: "json \<Rightarrow> exn + string" where
  "event_method event =
     (if members event = None then Inl (refuse ''event must be an object'')
      else if jget event ''version'' \<noteq> JStr ''2.0'' then Inl (refuse ''event must be HTTP API v2'')
      else if members (jget event ''requestContext'') = None then Inl (refuse ''request context is required'')
      else if members (jget (jget event ''requestContext'') ''http'') = None then Inl (refuse ''HTTP request context is required'')
      else (case jget (jget (jget event ''requestContext'') ''http'') ''method'' of
          JStr m \<Rightarrow> Inr m | _ \<Rightarrow> Inl (refuse ''HTTP method is required'')))"

definition event_run_id :: "json \<Rightarrow> exn + string" where
  "event_run_id event =
     (if list_ex (\<lambda>name. name \<in> jkeys event) FORBIDDEN_EVENT_FIELDS then Inl (refuse ''caller storage routing is forbidden'')
      else if ''rawQueryString'' \<in> jkeys event \<and> jget event ''rawQueryString'' \<noteq> JStr []
      then Inl (refuse ''query strings are not supported'')
      else if jget event ''queryStringParameters'' \<notin> {JNull, JObj []} then Inl (refuse ''query parameters are not supported'')
      else if jget event ''body'' \<noteq> JNull \<or>
          (''isBase64Encoded'' \<in> jkeys event \<and> jget event ''isBase64Encoded'' \<noteq> JBool False)
      then Inl (refuse ''request bodies are not supported'')
      else if members (jget event ''pathParameters'') = None \<or> jkeys (jget event ''pathParameters'') \<noteq> {''run_id''}
      then Inl (refuse ''exactly one path parameter is required'')
      else (case jget (jget event ''pathParameters'') ''run_id'' of
          JStr run_id \<Rightarrow>
            if jget event ''routeKey'' \<notin> {JNull, JStr ''GET /runs/{run_id}''} then Inl (refuse ''route key is invalid'')
            else Inr run_id
        | _ \<Rightarrow> Inl (refuse ''run_id must be a string'')))"

text \<open>\<open>lambda_handler\<close>; the adapters come from the environment, which may lack them, and only when the
  event is admitted.\<close>

definition results_handler :: "exn + 'w cloud \<Rightarrow> json \<Rightarrow> 'w \<Rightarrow> (exn + json) \<times> 'w" where
  "results_handler dependencies event w = (case event_method event of
     Inl e \<Rightarrow> (Inr (to_wire BAD_REQUEST), w)
   | Inr m \<Rightarrow>
       if m \<noteq> ''GET'' then (Inr (to_wire METHOD_NOT_ALLOWED), w)
       else (case event_run_id event of
           Inl e \<Rightarrow> (Inr (to_wire BAD_REQUEST), w)
         | Inr run_id \<Rightarrow> (case validate_uuid (JStr run_id) of
               Inl e \<Rightarrow> (Inr (to_wire NOT_FOUND), w)
             | Inr i \<Rightarrow> (case dependencies of
                   Inl e \<Rightarrow> (Inl e, w)
                 | Inr c \<Rightarrow> (case get_public_result c i w of (response, w') \<Rightarrow> (Inr (to_wire response), w'))))))"

section \<open>What is published\<close>

lemma object_get_plain:
  assumes "cloud_ok num view c" and "object_get c key n w = (q, w')"
  shows "evolves (cl_fmt c) view w w'"
    and "q = Inr b \<Longrightarrow> cv_objects view w' key = Some (b, cl_digest c b) \<and> int (length b) \<le> n"
proof -
  from assms(1) have client: "objects_ok (cl_fmt c) view (cl_client c)" by (simp add: cloud_ok_def)
  note got = store_get_object [OF client assms(2) [unfolded object_get_def]]
  show "evolves (cl_fmt c) view w w'" by (rule got(1))
  show "q = Inr b \<Longrightarrow> cv_objects view w' key = Some (b, cl_digest c b) \<and> int (length b) \<le> n" by (rule got(2))
qed

lemma public_record_ok:
  assumes ok: "cloud_ok num view c" and run: "public_record c run_id w = (q, w')"
  shows "evolves (cl_fmt c) view w w'"
    and "q = Inr r \<Longrightarrow> publicly_finalized r \<and> canonical_record c run_id w = (Inr r, w')"
proof -
  obtain p w1 where p: "run_get c run_id w = (p, w1)" by (metis surj_pair)
  from ok have tb: "table_ok (cl_fmt c) num view (cl_table c)" "utc_ok (cl_fmt c)" by (simp_all add: cloud_ok_def)
  note got = repository_get_record(1) [OF tb p [unfolded run_get_def]]
  show "evolves (cl_fmt c) view w w'" using run got p by (auto simp: public_record_def sbind_def split: sum.splits)
  show "q = Inr r \<Longrightarrow> publicly_finalized r \<and> canonical_record c run_id w = (Inr r, w')"
    using run p by (auto simp: public_record_def canonical_record_def sbind_def split: sum.splits option.splits if_splits)
qed

lemma public_manifest_ok:
  assumes ok: "cloud_ok num view c" and run: "public_manifest c run_id w = (q, w')"
  shows "evolves (cl_fmt c) view w w'"
    and "q = Inr manifest \<Longrightarrow> \<exists>doc. cv_objects view w' (run_prefix run_id @ ''checksums.json'') = Some (doc, cl_digest c doc) \<and>
      public_manifest_of c doc = Inr manifest"
proof -
  obtain p w1 where p: "object_get c (run_prefix run_id @ ''checksums.json'') (32 * 1024) w = (p, w1)" by (metis surj_pair)
  note got = object_get_plain [OF ok p]
  from run p have "w' = w1" "\<forall>m. q = Inr m \<longrightarrow> (\<exists>doc. p = Inr doc \<and> public_manifest_of c doc = Inr m)"
    by (auto simp: public_manifest_def sbind_def split: sum.splits)
  with got show "evolves (cl_fmt c) view w w'" "q = Inr manifest \<Longrightarrow>
      \<exists>doc. cv_objects view w' (run_prefix run_id @ ''checksums.json'') = Some (doc, cl_digest c doc) \<and> public_manifest_of c doc = Inr manifest"
    by auto
qed

lemma result_summary_ok:
  assumes ok: "cloud_ok num view c" and run: "result_summary c run_id manifest w = (q, w')"
  shows "evolves (cl_fmt c) view w w'"
    and "q = Inr summary \<Longrightarrow> \<exists>text. cv_objects view w' (run_prefix run_id @ ''result.json'') = Some (text, cl_digest c text) \<and>
      manifest_entry manifest ''result.json'' = Inr (int (length text), cl_digest c text) \<and> summary_of c run_id text = Inr summary"
proof -
  obtain p w1 where p: "object_get c (run_prefix run_id @ ''result.json'') (64 * 1024) w = (p, w1)" by (metis surj_pair)
  note got = object_get_plain [OF ok p]
  from run p have cases: "w' = w \<and> (\<exists>e. q = Inl e) \<or> w' = w1 \<and> (\<forall>s. q = Inr s \<longrightarrow> (\<exists>text. p = Inr text \<and>
      manifest_entry manifest ''result.json'' = Inr (int (length text), cl_digest c text) \<and> summary_of c run_id text = Inr s))"
    by (auto simp: result_summary_def sbind_def split: sum.splits if_splits)
  then show "evolves (cl_fmt c) view w w'" using got(1) by auto
  show "\<exists>text. cv_objects view w' (run_prefix run_id @ ''result.json'') = Some (text, cl_digest c text) \<and>
      manifest_entry manifest ''result.json'' = Inr (int (length text), cl_digest c text) \<and> summary_of c run_id text = Inr summary"
    if "q = Inr summary"
  proof -
    from cases that obtain doc where "w' = w1" "p = Inr doc" "manifest_entry manifest ''result.json'' = Inr (int (length doc), cl_digest c doc)"
        "summary_of c run_id doc = Inr summary" by auto
    with got(2) show ?thesis by auto
  qed
qed

lemma report_reference_ok:
  assumes ok: "cloud_ok num view c" and run: "verify_report_reference c run_id manifest w = (q, w')"
  shows "evolves (cl_fmt c) view w w'"
    and "q = Inr key \<Longrightarrow> key = run_prefix run_id @ ''report.html'' \<and> (\<exists>report h. cv_objects view w' key = Some (report, h) \<and>
      manifest_entry manifest ''report.html'' = Inr (int (length report), h))"
proof -
  from ok have client: "objects_ok (cl_fmt c) view (cl_client c)" by (simp add: cloud_ok_def)
  obtain p w1 where p: "store_head (cl_client c) (run_prefix run_id @ ''report.html'') w = (p, w1)" by (metis surj_pair)
  note got = store_head_object [OF client p]
  from run p have cases: "w' = w \<and> (\<exists>e. q = Inl e) \<or> w' = w1 \<and> (\<forall>k. q = Inr k \<longrightarrow> k = run_prefix run_id @ ''report.html'' \<and>
      (\<exists>s. p = Inr s \<and> manifest_entry manifest ''report.html'' = Inr (so_byte_length s, so_sha256 s)))"
    by (auto simp: verify_report_reference_def sbind_def split: sum.splits if_splits)
  then show "evolves (cl_fmt c) view w w'" using got(1) by auto
  show "key = run_prefix run_id @ ''report.html'' \<and> (\<exists>report h. cv_objects view w' key = Some (report, h) \<and>
      manifest_entry manifest ''report.html'' = Inr (int (length report), h))" if "q = Inr key"
  proof -
    from cases that obtain s where "w' = w1" "p = Inr s" "key = run_prefix run_id @ ''report.html''"
        "manifest_entry manifest ''report.html'' = Inr (so_byte_length s, so_sha256 s)" by auto
    with got(2) show ?thesis by auto
  qed
qed

lemma presign_ok:
  assumes "cloud_ok num view c" and "store_presign (cl_client c) key n w = (q, w')"
  shows "evolves (cl_fmt c) view w w'"
proof -
  from assms(1) have client: "objects_ok (cl_fmt c) view (cl_client c)" by (simp add: cloud_ok_def)
  from assms(2) have "w' = w \<or> (\<exists>k. oc_presign (cl_client c) k n w = (q, w'))"
    by (auto simp: store_presign_def split: sum.splits if_splits)
  with objects_presign [OF client] show ?thesis by auto
qed

text \<open>What an answer other than \<open>NOT_FOUND\<close> rests on.\<close>

definition published :: "'w cloud_view \<Rightarrow> 'w cloud \<Rightarrow> 'w \<Rightarrow> string \<Rightarrow> public_result \<Rightarrow> bool" where
  "published view c w run_id summary \<longleftrightarrow> (\<exists>manifest doc text report h.
     cv_objects view w (run_prefix run_id @ ''checksums.json'') = Some (doc, cl_digest c doc) \<and>
     public_manifest_of c doc = Inr manifest \<and>
     cv_objects view w (run_prefix run_id @ ''result.json'') = Some (text, cl_digest c text) \<and>
     manifest_entry manifest ''result.json'' = Inr (int (length text), cl_digest c text) \<and>
     summary_of c run_id text = Inr summary \<and>
     cv_objects view w (run_prefix run_id @ ''report.html'') = Some (report, h) \<and>
     manifest_entry manifest ''report.html'' = Inr (int (length report), h))"

lemma evolves_sbind:
  assumes "evolves fmt view w (snd r)" and "\<And>x w1. r = (Inr x, w1) \<Longrightarrow> evolves fmt view w1 (snd (k x w1))"
  shows "evolves fmt view w (snd (sbind r k))"
proof (cases r)
  case (Pair p w1)
  with assms show ?thesis by (cases p) (auto simp: sbind_def intro: evolves_trans)
qed

lemma read_public_evolves:
  assumes ok: "cloud_ok num view c"
  shows "evolves (cl_fmt c) view w (snd (read_public_result c run_id w))"
  unfolding read_public_result_def
  by (intro evolves_sbind public_record_ok(1) [OF ok prod.collapse [symmetric]] public_manifest_ok(1) [OF ok prod.collapse [symmetric]]
      result_summary_ok(1) [OF ok prod.collapse [symmetric]] report_reference_ok(1) [OF ok prod.collapse [symmetric]]
      presign_ok [OF ok prod.collapse [symmetric]]) simp

lemma sbind_Inr: "sbind r k = (Inr y, w') \<longleftrightarrow> (\<exists>x w1. r = (Inr x, w1) \<and> k x w1 = (Inr y, w'))"
  by (auto simp: sbind_def split: prod.splits sum.splits)

lemma read_public_published:
  assumes ok: "cloud_ok num view c" and run: "read_public_result c run_id w = (Inr response, w')"
  shows "\<exists>r w1 summary url. canonical_record c run_id w = (Inr r, w1) \<and> publicly_finalized r \<and> evolves (cl_fmt c) view w1 w' \<and>
    published view c w' run_id summary \<and> success_response c summary url = Inr response"
proof -
  from run obtain r w1 manifest w2 summary w3 key w4 url where parts: "public_record c run_id w = (Inr r, w1)"
      "public_manifest c run_id w1 = (Inr manifest, w2)" "result_summary c run_id manifest w2 = (Inr summary, w3)"
      "verify_report_reference c run_id manifest w3 = (Inr key, w4)"
      "store_presign (cl_client c) key PRESIGN_SECONDS w4 = (Inr url, w')" "success_response c summary url = Inr response"
    unfolding read_public_result_def sbind_Inr by auto
  note e1 = public_manifest_ok(1) [OF ok parts(2)] and e2 = result_summary_ok(1) [OF ok parts(3)]
    and e3 = report_reference_ok(1) [OF ok parts(4)] and e4 = presign_ok [OF ok parts(5)]
  from public_manifest_ok(2) [OF ok parts(2) refl] obtain doc where
    doc: "cv_objects view w2 (run_prefix run_id @ ''checksums.json'') = Some (doc, cl_digest c doc)" "public_manifest_of c doc = Inr manifest"
    by blast
  from result_summary_ok(2) [OF ok parts(3) refl] obtain result where
    result: "cv_objects view w3 (run_prefix run_id @ ''result.json'') = Some (result, cl_digest c result)"
      "manifest_entry manifest ''result.json'' = Inr (int (length result), cl_digest c result)" "summary_of c run_id result = Inr summary"
    by blast
  from report_reference_ok(2) [OF ok parts(4) refl] obtain report h where
    report: "cv_objects view w4 (run_prefix run_id @ ''report.html'') = Some (report, h)"
      "manifest_entry manifest ''report.html'' = Inr (int (length report), h)"
    by blast
  note e34 = evolves_trans [OF e3 e4]
  have "published view c w' run_id summary"
    unfolding published_def
    using evolves_object [OF evolves_trans [OF e2 e34] doc(1)] doc(2) evolves_object [OF e34 result(1)] result(2,3)
      evolves_object [OF e4 report(1)] report(2) by blast
  moreover from public_record_ok(2) [OF ok parts(1) refl] have "publicly_finalized r" "canonical_record c run_id w = (Inr r, w1)" by auto
  moreover have "evolves (cl_fmt c) view w1 w'" by (rule evolves_trans [OF e1 evolves_trans [OF e2 e34]])
  ultimately show ?thesis using parts(6) by blast
qed

text \<open>C38: only finalized public runs are published. Whatever the services answer and other processes do,
  the answer is \<open>NOT_FOUND\<close>, the same for a run that is absent, private, unfinished or damaged, unless
  the record is, and for ever stays, a public success, and the manifest, the result and the report
  are stored and agree; then the body is the canonical text of the checked result, of at most 64 KiB.
  With the numbers of \<open>boto3\<close> the answer is always \<open>NOT_FOUND\<close>.\<close>

theorem public_results_finalized:
  assumes "cloud_ok num view c" and "table_valid (cl_fmt c) (cv_items view w)" and "get_public_result c run_id w = (response, w')"
  shows "(response = NOT_FOUND \<or> (\<exists>r summary url. canonical_uuid run_id \<and> publicly_finalized r \<and>
      (num = JInt \<longrightarrow> (\<forall>u. evolves (cl_fmt c) view w' u \<longrightarrow> holds_record (cl_fmt c) (cv_items view u) (''RUN#'' @ run_id) r)) \<and>
      published view c w' run_id summary \<and> pub_run_id summary = run_id \<and>
      response = \<lparr>api_status_code = 200, api_body = cl_dumps c (json_sorted (public_payload summary url))\<rparr> \<and>
      int (length (api_body response)) \<le> 64 * 1024)) \<and>
    ((\<forall>n m. num n \<noteq> JInt m) \<longrightarrow> response = NOT_FOUND) \<and>
    evolves (cl_fmt c) view w w'"
proof (cases "\<exists>p. canonical_uuid run_id \<and> read_public_result c run_id w = (Inr p, w') \<and> response = p")
  case False
  with assms(3) have "response = NOT_FOUND" "w' = w \<or> w' = snd (read_public_result c run_id w)"
    by (auto simp: get_public_result_def validate_uuid_def split: if_splits prod.splits sum.splits)
  with read_public_evolves [OF assms(1)] show ?thesis by auto
next
  case True
  then have uuid: "canonical_uuid run_id" and run: "read_public_result c run_id w = (Inr response, w')" by auto
  from read_public_published [OF assms(1) run] obtain r w1 summary url where parts: "canonical_record c run_id w = (Inr r, w1)"
      "publicly_finalized r" "evolves (cl_fmt c) view w1 w'" "published view c w' run_id summary" "success_response c summary url = Inr response"
    by blast
  have holds: "holds_record (cl_fmt c) (cv_items view u) (''RUN#'' @ run_id) r" if "num = JInt" "evolves (cl_fmt c) view w' u" for u
  proof -
    have now: "holds_record (cl_fmt c) (cv_items view w1) (''RUN#'' @ run_id) r"
      by (rule canonical_record_ok(2) [OF assms(1) parts(1) assms(2) that(1) refl])
    from parts(2) have "rrc_status r \<in> {SUCCEEDED, RUN_FAILED}" by (simp add: publicly_finalized_def)
    from final_for_ever [OF evolves_trans [OF parts(3) that(2)] now this] show ?thesis .
  qed
  from parts(4) have "pub_run_id summary = run_id"
    by (auto simp: published_def summary_of_def result_simps split: if_splits)
  moreover from parts(5) have "response = \<lparr>api_status_code = 200, api_body = cl_dumps c (json_sorted (public_payload summary url))\<rparr>"
    "int (length (api_body response)) \<le> 64 * 1024"
    by (auto simp: success_response_def canonical_json_bytes_def result_simps RESPONSE_MAXIMUM_BYTES_def split: if_splits)
  moreover have "\<not> (\<forall>n m. num n \<noteq> JInt m)" using decimals_not_read [OF assms(1)] parts(1) by blast
  moreover have "evolves (cl_fmt c) view w w'" using read_public_evolves [OF assms(1), of w run_id] run by simp
  ultimately show ?thesis using uuid parts(2,4) holds by auto
qed

section \<open>A published run\<close>

definition demo_public_json :: json where
  "demo_public_json = JObj [(''completed_at'', JStr (utc_text demo_utc 1600000002000000)), (''dataset_sha256'', JStr (demo_digest [])),
     (''end_date'', JStr (int_text 18292)), (''final_equity'', JFloat (Fin 101000)), (''image_digest'', JStr demo_image),
     (''initial_capital'', JFloat (Fin 100000)), (''metrics'', JObj [(''cagr'', JNull), (''sharpe'', JFloat (Fin 1))]),
     (''run_id'', JStr demo_run_id), (''schema_version'', JStr ''1''), (''start_date'', JStr (int_text 18262)),
     (''strategy_name'', JStr ''MACrossover''), (''strategy_parameters'', JObj [(''fast_period'', JInt 5)]),
     (''symbol'', JStr ''AAPL''), (''total_trades'', JInt 3)]"

definition demo_public_cloud :: "(int \<Rightarrow> json) \<Rightarrow> demo_world cloud" where
  "demo_public_cloud num = (demo_cloud num)\<lparr>
     cl_dumps := (\<lambda>j. if ''report_url'' \<in> jkeys j then ''answer'' else if ''run_id'' \<in> jkeys j then ''result'' else ''manifest''),
     cl_loads := (\<lambda>s. if s = ''manifest'' then Inr (json_sorted (checksums_payload demo_artifacts))
       else if s = ''result'' then Inr demo_public_json else Inl (refuse []))\<rparr>"

definition demo_succeeded :: run_record where
  "demo_succeeded = demo_running\<lparr>rrc_status := SUCCEEDED, rrc_completed_at := Some 1600000002000000\<rparr>"

definition demo_public_items :: run_table where
  "demo_public_items = [''RUN#'' @ demo_run_id \<mapsto> record_item demo_utc demo_succeeded]"

lemma demo_public_cloud_ok: "cloud_ok num demo_view (demo_public_cloud num)"
  by (simp add: cloud_ok_def demo_public_cloud_def demo_cloud_def demo_objects_ok demo_table_ok demo_utc_ok)

lemma demo_public_holds: "holds_record demo_utc demo_public_items (''RUN#'' @ demo_run_id) demo_succeeded"
proof -
  have "rrc_status demo_running = RUNNING" by (simp add: demo_running_def)
  from record_step_ok [OF record_step.succeed [OF this] demo_running_ok] have "record_ok demo_succeeded" by (simp add: demo_succeeded_def)
  then show ?thesis unfolding holds_record_def demo_public_items_def
    by (simp add: record_item_member) (simp add: demo_succeeded_def demo_running_def demo_record_def)
qed

lemma demo_public_valid: "table_valid demo_utc demo_public_items"
proof -
  have "pk = ''RUN#'' @ demo_run_id" if "demo_public_items pk \<noteq> None" for pk
    using that by (auto simp: demo_public_items_def split: if_splits)
  with demo_public_holds show ?thesis unfolding table_valid_def by blast
qed

lemma demo_summary:
  "\<exists>summary. summary_of (demo_public_cloud num) demo_run_id ''result'' = Inr summary"
proof -
  have sorted: "json_finite demo_public_json" "unique_names demo_public_json" by (simp_all add: demo_public_json_def)
  have strict: "strict_json_object (demo_public_cloud num) hidden_json h ''result'' = Inr demo_public_json" for h
    unfolding strict_json_object_def canonical_json_bytes_def demo_public_cloud_def
    using sorted by (simp add: demo_public_json_def)
  have texts: "validate_sha256 (JStr (demo_digest [])) = Inr (demo_digest [])" by (rule demo_digest_ok)
  have dates: "admit_result_date demo_utc (JStr (int_text d)) = Inr (int_text d)" for d
    by (simp add: admit_result_date_def demo_utc_def int_text_parse)
  have time: "admit_result_time demo_utc (JStr (utc_text demo_utc t)) = Inr (utc_text demo_utc t)" for t
    by (simp add: admit_result_time_def demo_utc_ok)
  have "\<exists>s. public_result_validate demo_utc demo_public_json = Inr s \<and> pub_run_id s = demo_run_id"
    unfolding public_result_validate_def model_Inr demo_public_json_def
    by (simp add: public_names_def required_def validate_uuid_def demo_uuid strict_str_def dates time texts demo_image_ok
        admit_result_parameters_def admit_result_parameter_def float_overflows_def finite_float_def strict_float_def
        admit_metrics_def admit_metric_def admit_trade_count_def strict_int_def)
  then obtain s where "public_result_validate demo_utc demo_public_json = Inr s" "pub_run_id s = demo_run_id" by blast
  then show ?thesis
    by (simp add: summary_of_def strict hidden_as_def) (simp add: demo_public_cloud_def demo_cloud_def)
qed

lemma demo_answered:
  "get_public_result (demo_public_cloud JInt) demo_run_id (demo_objects, demo_public_items) =
    (\<lparr>api_status_code = 200, api_body = ''answer''\<rparr>, (demo_objects, demo_public_items))"
proof -
  let ?c = "demo_public_cloud JInt" and ?w = "(demo_objects, demo_public_items)"
  let ?j = "json_sorted (checksums_payload demo_artifacts)"
  have parts: "cl_client ?c = demo_client" "cl_digest ?c = demo_digest" "cl_fmt ?c = demo_utc" "cl_table ?c = demo_table JInt"
    by (simp_all add: demo_public_cloud_def demo_cloud_def)
  have uuid: "validate_uuid (JStr demo_run_id) = Inr demo_run_id" by (simp add: validate_uuid_def demo_uuid)
  have "run_key demo_run_id = Inr (''RUN#'' @ demo_run_id)" by (simp add: run_key_Inr demo_uuid)
  moreover obtain j where j: "tc_get (demo_table JInt) (''RUN#'' @ demo_run_id) True ?w = (Inr j, ?w)"
    by (simp add: demo_table_def)
  ultimately obtain q where q: "repository_get demo_utc (demo_table JInt) demo_run_id True ?w = (q, ?w)"
    by (simp add: repository_get_def sbind_def)
  have view: "cv_items demo_view ?w = demo_public_items" by (simp add: demo_view_def)
  have holds: "holds_record demo_utc (cv_items demo_view ?w) (''RUN#'' @ demo_run_id) demo_succeeded"
    unfolding view by (rule demo_public_holds)
  note read = repository_get_record(3) [OF demo_table_ok demo_utc_ok q holds j, THEN conjunct1, rule_format, OF refl]
  obtain r where "q = Inr (Some r)" "record_step\<^sup>*\<^sup>* demo_succeeded r" using read by (elim exE conjE) (rule that)
  moreover from final_record_stays [OF this(2)] have "r = demo_succeeded" by (simp add: demo_succeeded_def)
  moreover have "publicly_finalized demo_succeeded" "rrc_run_id demo_succeeded = demo_run_id"
    by (simp_all add: publicly_finalized_def demo_succeeded_def demo_running_def demo_record_def)
  ultimately have rec: "public_record ?c demo_run_id ?w = (Inr demo_succeeded, ?w)"
    using q by (simp add: public_record_def run_get_def parts sbind_def)
  have names: "map adg_name demo_artifacts = REQUIRED_ARTIFACTS" by (simp add: demo_artifacts_def comp_def)
  have "list_all artifact_ok demo_artifacts" by (simp add: demo_artifacts_def artifact_ok_def demo_digest_ok list_all_iff)
  moreover have "distinct REQUIRED_ARTIFACTS" by code_simp
  ultimately have valid: "checksums_validate ?j = Inr demo_artifacts" using names by (intro checksums_valid) simp_all
  have "unique_names ?j" "json_finite ?j" "members ?j \<noteq> None" "''run_id'' \<notin> jkeys ?j" "''report_url'' \<notin> jkeys ?j"
    by (simp_all add: sorted_checksums artifact_json_def list_all_iff)
  then have "public_manifest_of ?c ''manifest'' = Inr demo_artifacts"
    unfolding public_manifest_of_def strict_json_object_def canonical_json_bytes_def
    using valid arg_cong [OF names, of set] by (simp add: demo_public_cloud_def sorted_checksums_document hidden_as_def)
  moreover have "store_get demo_digest demo_client (run_prefix demo_run_id @ ''checksums.json'') (32 * 1024) ?w = (Inr ''manifest'', ?w)"
    by (rule demo_get) (simp_all add: demo_objects_def artifact_storage_key demo_uuid)
  ultimately have manifest: "public_manifest ?c demo_run_id ?w = (Inr demo_artifacts, ?w)"
    by (simp add: public_manifest_def object_get_def parts sbind_def)
  have entries: "manifest_entry demo_artifacts ''result.json'' = Inr (6, demo_digest ''result'')"
    "manifest_entry demo_artifacts ''report.html'' = Inr (11, demo_digest ''report.html'')"
    by (simp_all add: manifest_entry_def demo_artifacts_def REQUIRED_ARTIFACTS_def demo_body_def)
  obtain s where s: "summary_of ?c demo_run_id ''result'' = Inr s" using demo_summary by blast
  have "store_get demo_digest demo_client (run_prefix demo_run_id @ ''result.json'') (64 * 1024) ?w = (Inr (demo_body ''result.json''), ?w)"
    by (rule demo_artifact_get) (simp_all add: REQUIRED_ARTIFACTS_def demo_body_def)
  then have summary: "result_summary ?c demo_run_id demo_artifacts ?w = (Inr s, ?w)"
    by (simp add: result_summary_def entries object_get_def parts sbind_def s demo_body_def)
  have key: "validate_storage_key (run_prefix demo_run_id @ ''report.html'') = Inr (run_prefix demo_run_id @ ''report.html'')"
    by (rule artifact_storage_key [OF demo_uuid]) (simp add: REQUIRED_ARTIFACTS_def)
  have "demo_objects (run_prefix demo_run_id @ ''report.html'') = Some (''report.html'', demo_digest ''report.html'')"
    by (simp add: demo_objects_def REQUIRED_ARTIFACTS_def demo_body_def)
  then have "store_head demo_client (run_prefix demo_run_id @ ''report.html'') ?w =
      (Inr \<lparr>so_key = run_prefix demo_run_id @ ''report.html'', so_byte_length = 11, so_sha256 = demo_digest ''report.html''\<rparr>, ?w)"
    using key by (simp add: store_head_def demo_client_def sbind_def on_error_def head_response_def stored_object_create_def demo_digest_ok)
  then have report: "verify_report_reference ?c demo_run_id demo_artifacts ?w = (Inr (run_prefix demo_run_id @ ''report.html''), ?w)"
    by (simp add: verify_report_reference_def entries parts sbind_def)
  obtain url where url: "store_presign demo_client (run_prefix demo_run_id @ ''report.html'') PRESIGN_SECONDS ?w = (Inr url, ?w)" "url \<noteq> []"
    using key by (simp add: store_presign_def PRESIGN_SECONDS_def MAXIMUM_PRESIGN_SECONDS_def demo_client_def)
  have "json_finite (public_payload s url)"
  proof -
    have "json_finite (parameter_json p)" for p by (cases p) simp_all
    then show ?thesis by (auto simp: public_payload_def list_all_iff split: option.splits)
  qed
  then have "success_response ?c s url = Inr \<lparr>api_status_code = 200, api_body = ''answer''\<rparr>"
    using url(2) by (simp add: success_response_def canonical_json_bytes_def demo_public_cloud_def RESPONSE_MAXIMUM_BYTES_def)
      (simp add: public_payload_def)
  then show ?thesis
    by (simp add: get_public_result_def uuid read_public_result_def rec manifest summary report parts url(1) sbind_def)
qed

theorem public_results_finalized_witness:
  "\<exists>r summary. get_public_result (demo_public_cloud JInt) demo_run_id (demo_objects, demo_public_items) =
      (\<lparr>api_status_code = 200, api_body = ''answer''\<rparr>, (demo_objects, demo_public_items)) \<and>
     publicly_finalized r \<and> published demo_view (demo_public_cloud JInt) (demo_objects, demo_public_items) demo_run_id summary"
proof -
  have fmt: "cl_fmt (demo_public_cloud JInt) = demo_utc" by (simp add: demo_public_cloud_def demo_cloud_def)
  have valid: "table_valid (cl_fmt (demo_public_cloud JInt)) (cv_items demo_view (demo_objects, demo_public_items))"
    using demo_public_valid by (simp add: demo_view_def fmt)
  have "\<lparr>api_status_code = 200, api_body = ''answer''\<rparr> \<noteq> NOT_FOUND" by (simp add: NOT_FOUND_def)
  with public_results_finalized [OF demo_public_cloud_ok valid demo_answered] demo_answered show ?thesis by blast
qed

section \<open>Admission of events\<close>

text \<open>C39: a request is admitted or refused by its event alone. Whatever the environment and the services do,
  an answer has one of four statuses: 400 exactly if the event is not a well-formed version 2.0
  request or, being a \<open>GET\<close>, carries anything but one path parameter, such as storage routing; 405
  exactly if a well-formed event has another method; otherwise the answer is the public result of the run
  that the path names, for a canonical identifier, and \<open>NOT_FOUND\<close> for any other. Without an admitted
  event no service is called; an exception comes only from the environment.\<close>

theorem request_admission:
  shows "case results_handler dependencies event w of
      (Inl e, w') \<Rightarrow> dependencies = Inl e \<and> w' = w
    | (Inr wire, w') \<Rightarrow>
        (jget wire ''statusCode'' = JInt 400 \<longleftrightarrow> (\<forall>m. event_method event \<noteq> Inr m) \<or>
          event_method event = Inr ''GET'' \<and> (\<forall>i. event_run_id event \<noteq> Inr i)) \<and>
        (jget wire ''statusCode'' = JInt 405 \<longleftrightarrow> (\<exists>m. event_method event = Inr m \<and> m \<noteq> ''GET'')) \<and>
        (event_method event = Inr ''GET'' \<longrightarrow> (\<forall>run_id. event_run_id event = Inr run_id \<longrightarrow>
          wire = to_wire (if canonical_uuid run_id then (case dependencies of Inr c \<Rightarrow> fst (get_public_result c run_id w)) else NOT_FOUND))) \<and>
        (jget wire ''statusCode'' \<in> {JInt 200, JInt 400, JInt 404, JInt 405}) \<and>
        (w' \<noteq> w \<longrightarrow> (\<exists>c run_id. dependencies = Inr c \<and> event_method event = Inr ''GET'' \<and> event_run_id event = Inr run_id \<and>
          canonical_uuid run_id \<and> w' = snd (get_public_result c run_id w)))"
proof -
  have status: "jget (to_wire r) ''statusCode'' = JInt (api_status_code r)" for r by (simp add: to_wire_def)
  have "api_status_code r = 200" if "read_public_result c i w = (Inr r, w')" for c :: "'a cloud" and i r w'
    using that unfolding read_public_result_def sbind_Inr by (auto simp: success_response_def result_simps split: if_splits)
  then have public: "api_status_code (fst (get_public_result c i w)) \<in> {200, 404}" for c :: "'a cloud" and i
    by (fastforce simp: get_public_result_def NOT_FOUND_def split: sum.splits prod.splits)
  note codes = NOT_FOUND_def BAD_REQUEST_def METHOD_NOT_ALLOWED_def
  show ?thesis
  proof (cases "event_method event")
    case (Inl e)
    then show ?thesis by (simp add: results_handler_def status codes)
  next
    case m: (Inr m)
    show ?thesis
    proof (cases "m = ''GET''")
      case False
      with m show ?thesis by (simp add: results_handler_def status codes)
    next
      case True
      show ?thesis
      proof (cases "event_run_id event")
        case (Inl e)
        with m True show ?thesis by (simp add: results_handler_def status codes)
      next
        case i: (Inr i)
        show ?thesis
        proof (cases "canonical_uuid i")
          case False
          with m True i show ?thesis by (simp add: results_handler_def status codes validate_uuid_def)
        next
          case uuid: True
          show ?thesis
          proof (cases dependencies)
            case (Inl e)
            with m True i uuid show ?thesis by (simp add: results_handler_def validate_uuid_def)
          next
            case (Inr c)
            obtain r w1 where r: "get_public_result c i w = (r, w1)" by (metis surj_pair)
            with public [of c i] have "api_status_code r = 200 \<or> api_status_code r = 404" by simp
            with m True i uuid Inr r show ?thesis by (auto simp: results_handler_def validate_uuid_def status)
          qed
        qed
      qed
    qed
  qed
qed

definition demo_request_event :: json where
  "demo_request_event = JObj [(''version'', JStr ''2.0''), (''routeKey'', JStr ''GET /runs/{run_id}''), (''rawQueryString'', JStr []),
     (''requestContext'', JObj [(''http'', JObj [(''method'', JStr ''GET'')])]), (''isBase64Encoded'', JBool False),
     (''pathParameters'', JObj [(''run_id'', JStr demo_run_id)])]"

theorem request_admission_witness:
  "\<exists>wire w'. results_handler (Inr (demo_public_cloud JInt)) demo_request_event (demo_objects, demo_public_items) = (Inr wire, w') \<and>
     wire = to_wire \<lparr>api_status_code = 200, api_body = ''answer''\<rparr>"
proof -
  have event: "event_method demo_request_event = Inr ''GET''" "event_run_id demo_request_event = Inr demo_run_id"
    by (simp_all add: event_method_def event_run_id_def demo_request_event_def FORBIDDEN_EVENT_FIELDS_def)
  note admitted = request_admission [where dependencies = "Inr (demo_public_cloud JInt)" and event = demo_request_event and w = "(demo_objects, demo_public_items)"]
  obtain q w' where q: "results_handler (Inr (demo_public_cloud JInt)) demo_request_event (demo_objects, demo_public_items) = (q, w')"
    by (metis surj_pair)
  show ?thesis
  proof (cases q)
    case (Inl e)
    with admitted q show ?thesis by simp
  next
    case (Inr wire)
    from admitted [unfolded q Inr] event have "wire = to_wire (fst (get_public_result (demo_public_cloud JInt) demo_run_id (demo_objects, demo_public_items)))"
      by (simp add: demo_uuid)
    with q Inr demo_answered show ?thesis by simp
  qed
qed

end
