(* ===== verification/Run_Worker.thy ===== *)
theory Run_Worker
  imports Run_Preparation Public_Results Candle_Frames Metrics
begin

text \<open>
  The worker of a cloud run, \<open>src/cloud/worker.py\<close>: it admits the specification, marks the run as running,
  reads the dataset, runs the backtest of the engine's model on it, and publishes the result, the
  trades, the equity curve and the report, with the manifest of their checksums last. Parquet, the
  report's HTML, the texts of floats and the constructors of the strategies are parameters.
\<close>

section \<open>What the worker uses\<close>

record trade_row =
  trw_trade_id :: string
  trw_symbol :: string
  trw_direction :: string
  trw_entry_timestamp :: datetime
  trw_exit_timestamp :: "datetime option"
  trw_entry_price :: real
  trw_exit_price :: "real option"
  trw_quantity :: int
  trw_commission :: real
  trw_pnl :: real
  trw_pnl_pct :: real

record equity_row =
  eqr_timestamp :: datetime
  eqr_equity :: real
  eqr_drawdown_pct :: real

text \<open>\<open>wk_utc\<close> is \<open>_utc_timestamp\<close>: the UTC reading of a candle's time, which is the reading itself for frames without
  a zone or in UTC. \<open>wk_number\<close> is the value of a strategy's parameter, an integer or a float as the strategy
  holds it; \<open>wk_format\<close> is \<open>format(x, ".17g")\<close>.\<close>

record ('s, 'z) workshop =
  wk_parse_json :: "string \<Rightarrow> exn + json"
  wk_read_parquet :: "string \<Rightarrow> exn + data_frame"
  wk_timestamps :: timestamp_api
  wk_utc :: "datetime \<Rightarrow> datetime"
  wk_registry :: "string \<Rightarrow> (string, parameter) dict \<Rightarrow> exn + ('s, 'z) collaborators \<times> 's"
  wk_sizer :: 'z
  wk_engine_run_id :: string
  wk_number :: "real \<Rightarrow> parameter"
  wk_format :: "real \<Rightarrow> string"
  wk_trades_parquet :: "trade_row list \<Rightarrow> exn + string"
  wk_equity_parquet :: "equity_row list \<Rightarrow> exn + string"
  wk_report :: "backtest_result \<Rightarrow> (string, xfloat) dict \<Rightarrow> string \<Rightarrow> exn + string"

fun py_exn :: "py_error \<Rightarrow> exn" where
  "py_exn (ValueError m) = refuse m"
| "py_exn (TypeError m) = refuse_type m"
| "py_exn KeyError = external ''KeyError''"
| "py_exn IndexError = external ''IndexError''"
| "py_exn ZeroDivisionError = external ''ZeroDivisionError''"
| "py_exn (RuntimeError m) = raise_as ''RuntimeError'' m"
| "py_exn AssertionError = external ''AssertionError''"

definition lift_error :: "('e \<Rightarrow> exn) \<Rightarrow> 'e + 'a \<Rightarrow> exn + 'a" where
  "lift_error f r = (case r of Inl e \<Rightarrow> Inl (f e) | Inr x \<Rightarrow> Inr x)"

section \<open>Rows of the artifacts\<close>

fun direction_text :: "direction \<Rightarrow> string" where
  "direction_text LONG = ''LONG''"
| "direction_text SHORT = ''SHORT''"

definition int_str :: "int \<Rightarrow> string" where
  "int_str n = (if n < 0 then CHR ''-'' # nat_str (nat (- n)) else nat_str (nat n))"

fun join_bar :: "string list \<Rightarrow> string" where
  "join_bar [] = []"
| "join_bar [s] = s"
| "join_bar (s # t # ss) = s @ ''|'' @ join_bar (t # ss)"

definition stable_trade_id :: "'w cloud \<Rightarrow> ('s, 'z) workshop \<Rightarrow> string \<Rightarrow> nat \<Rightarrow> trade \<Rightarrow> string" where
  "stable_trade_id c wk run_id position t =
     (let timestamp_text = \<lambda>x. utc_text (cl_fmt c) (wk_utc wk x)
      in cl_digest c (join_bar [run_id, nat_str position, t_symbol t, direction_text (t_direction t), timestamp_text (t_entry_date t),
       wk_format wk (t_entry_price t), int_str (t_quantity t),
       (case t_exit_date t of None \<Rightarrow> [] | Some x \<Rightarrow> timestamp_text x),
       (case t_exit_price t of None \<Rightarrow> [] | Some x \<Rightarrow> wk_format wk x), wk_format wk (t_commission t)]))"

definition trade_frame :: "'w cloud \<Rightarrow> ('s, 'z) workshop \<Rightarrow> backtest_result \<Rightarrow> trade_row list" where
  "trade_frame c wk result =
     map (\<lambda>(position, t). \<lparr>trw_trade_id = stable_trade_id c wk (res_run_id result) position t,
       trw_symbol = t_symbol t, trw_direction = direction_text (t_direction t), trw_entry_timestamp = wk_utc wk (t_entry_date t),
       trw_exit_timestamp = map_option (wk_utc wk) (t_exit_date t), trw_entry_price = t_entry_price t, trw_exit_price = t_exit_price t,
       trw_quantity = t_quantity t, trw_commission = t_commission t, trw_pnl = pnl t, trw_pnl_pct = pnl_pct t\<rparr>)
     (enumerate 0 (res_trades result))"

definition equity_frame :: "('s, 'z) workshop \<Rightarrow> backtest_result \<Rightarrow> equity_row list" where
  "equity_frame wk result = map (\<lambda>point. \<lparr>eqr_timestamp = wk_utc wk (ep_date point), eqr_equity = ep_equity point,
     eqr_drawdown_pct = ep_drawdown_pct point\<rparr>) (res_equity_curve result)"

definition day_number :: "datetime \<Rightarrow> int" where
  "day_number t = t div 86400000000"

definition require_candle_range :: "run_spec \<Rightarrow> candle list \<Rightarrow> exn + unit" where
  "require_candle_range spec candles =
     (if list_all (\<lambda>c. dsr_start (rsp_dataset spec) \<le> day_number (c_timestamp c) \<and>
         day_number (c_timestamp c) \<le> dsr_end (rsp_dataset spec)) candles
      then Inr () else Inl (worker_error ''dataset contains an out-of-range candle''))"

definition json_metric :: "xfloat \<Rightarrow> json" where
  "json_metric x = (case x of Fin r \<Rightarrow> JFloat (Fin r) | _ \<Rightarrow> JNull)"

definition worker_summary ::
    "iso_api \<Rightarrow> (real \<Rightarrow> parameter) \<Rightarrow> backtest_result \<Rightarrow> (string, xfloat) dict \<Rightarrow> (string \<times> json) list" where
  "worker_summary fmt number result metrics =
     [(''run_id'', JStr (res_run_id result)), (''symbol'', JStr (res_symbol result)),
      (''start_date'', JStr (date_text fmt (day_number (res_start_date result)))),
      (''end_date'', JStr (date_text fmt (day_number (res_end_date result)))),
      (''strategy_name'', JStr (res_strategy_name result)),
      (''strategy_parameters'', JObj (map (\<lambda>(name, x). (name, parameter_json (number x))) (res_parameters result))),
      (''initial_capital'', JFloat (res_initial_capital result)), (''final_equity'', JFloat (Fin (res_final_equity result))),
      (''metrics'', JObj (map (\<lambda>(name, x). (name, json_metric x)) metrics)),
      (''total_trades'', JInt (int (length (filter is_closed (res_trades result)))))]"

definition result_document ::
    "iso_api \<Rightarrow> (real \<Rightarrow> parameter) \<Rightarrow> run_spec \<Rightarrow> backtest_result \<Rightarrow> (string, xfloat) dict \<Rightarrow> datetime \<Rightarrow> json" where
  "result_document fmt number spec result metrics completed = JObj
     ([(''schema_version'', JStr SCHEMA_VERSION)] @ worker_summary fmt number result metrics @
      [(''image_digest'', JStr (rsp_image_digest spec)), (''dataset_sha256'', JStr (dsr_sha256 (rsp_dataset spec))),
       (''completed_at'', JStr (utc_text fmt completed))])"

section \<open>The run\<close>

definition MAXIMUM_DATASET_BYTES :: int where
  "MAXIMUM_DATASET_BYTES = 64 * 1024 * 1024"

definition load_candles :: "('s, 'z) workshop \<Rightarrow> run_spec \<Rightarrow> string \<Rightarrow> exn + candle list" where
  "load_candles wk spec body =
     rbind (case wk_read_parquet wk body of
         Inl _ \<Rightarrow> Inl (worker_error ''dataset parquet is invalid'')
       | Inr frame \<Rightarrow> lift_error (\<lambda>_. worker_error ''dataset parquet is invalid'') (df_to_candles (wk_timestamps wk) frame)) (\<lambda>candles.
     rbind (require_candle_range spec candles) (\<lambda>_. Inr candles))"

definition admit_strategy :: "('s, 'z) workshop \<Rightarrow> run_spec \<Rightarrow> exn + ('s, 'z) collaborators \<times> 's" where
  "admit_strategy wk spec =
     lift_error (\<lambda>e. if raised ''KeyError'' e \<or> is_type_error e \<or> is_value_error e then worker_error ''strategy admission failed'' else e)
       (wk_registry wk (rsq_strategy_key (rsp_request spec)) (rsq_strategy_parameters (rsp_request spec)))"

definition run_config :: "research_request \<Rightarrow> backtest_config" where
  "run_config r = \<lparr>cfg_initial_capital = Fin (rsq_initial_capital r), cfg_commission_pct = rsq_commission_pct r,
     cfg_slippage_pct = rsq_slippage_pct r, cfg_short_initial_margin = Fin (3 / 2), cfg_short_maintenance_margin = Fin (3 / 10),
     cfg_annual_short_borrow_rate = Fin (3 / 100), cfg_borrow_day_count = Fin 365\<rparr>"

definition run_backtest :: "('s, 'z) workshop \<Rightarrow> run_spec \<Rightarrow> string \<Rightarrow> exn + backtest_result" where
  "run_backtest wk spec dataset_body =
     rbind (load_candles wk spec dataset_body) (\<lambda>candles.
     rbind (admit_strategy wk spec) (\<lambda>(env, strat).
     rbind (lift_error py_exn (rbind (config_post_init (run_config (rsp_request spec))) (\<lambda>cfg.
         engine_run env strat candles cfg (wk_engine_run_id wk) (Some (rsq_symbol (rsp_request spec))) (wk_sizer wk)))) (\<lambda>(result, _).
       Inr (result\<lparr>res_run_id := rsp_run_id spec\<rparr>))))"

text \<open>The artifacts, in the order in which they are published, with their content types.\<close>

definition run_outputs ::
    "'w cloud \<Rightarrow> ('s, 'z) workshop \<Rightarrow> exn + datetime \<Rightarrow> run_spec \<Rightarrow> backtest_result \<Rightarrow> exn + (string \<times> string \<times> string) list" where
  "run_outputs c wk clock spec result =
     rbind (lift_error py_exn (compute_all_metrics result)) (\<lambda>metrics.
     rbind clock (\<lambda>completed.
     rbind (canonical_json_bytes c (result_document (cl_fmt c) (wk_number wk) spec result metrics completed)) (\<lambda>result_body.
     rbind (wk_trades_parquet wk (trade_frame c wk result)) (\<lambda>trades_body.
     rbind (wk_equity_parquet wk (equity_frame wk result)) (\<lambda>equity_body.
     rbind (wk_report wk result metrics (''cloud-run-'' @ rsp_run_id spec)) (\<lambda>report_body.
       Inr [(''result.json'', result_body, ''application/json''),
            (''trades.parquet'', trades_body, ''application/vnd.apache.parquet''),
            (''equity-curve.parquet'', equity_body, ''application/vnd.apache.parquet''),
            (''report.html'', report_body, ''text/html; charset=utf-8'')]))))))"

definition artifact_digest_of :: "'w cloud \<Rightarrow> string \<Rightarrow> string \<Rightarrow> exn + artifact_digest" where
  "artifact_digest_of c name body =
     model [] (JObj []) (vpair (admit_artifact_name (JStr name)) (vpair (admit_byte_length (JInt (int (length body))))
       (validate_sha256 (JStr (cl_digest c body)))))
       (\<lambda>(name, n, h). Inr \<lparr>adg_name = name, adg_byte_length = n, adg_sha256 = h\<rparr>)"

fun put_outputs ::
    "'w cloud \<Rightarrow> string \<Rightarrow> lifecycle_class \<Rightarrow> (string \<times> string \<times> string) list \<Rightarrow> artifact_digest list \<Rightarrow> 'w
      \<Rightarrow> (exn + artifact_digest list) \<times> 'w" where
  "put_outputs c location lifecycle [] digests w = (Inr digests, w)"
| "put_outputs c location lifecycle ((name, body, content_type) # outputs) digests w =
     sbind (object_put c (location @ name) body content_type lifecycle w) (\<lambda>_ w'.
       case artifact_digest_of c name body of
         Inl e \<Rightarrow> (Inl e, w')
       | Inr digest \<Rightarrow> put_outputs c location lifecycle outputs (digests @ [digest]) w')"

definition checksums_create :: "artifact_digest list \<Rightarrow> exn + artifact_digest list" where
  "checksums_create artifacts = model [] (JObj []) (Inr artifacts) require_exact_artifacts"

definition publish_outputs ::
    "'w cloud \<Rightarrow> run_spec \<Rightarrow> string \<Rightarrow> (string \<times> string \<times> string) list \<Rightarrow> 'w \<Rightarrow> (exn + artifact_digest list) \<times> 'w" where
  "publish_outputs c spec spec_body outputs w =
     (let lifecycle = lifecycle_of (rsq_visibility (rsp_request spec)); location = rsp_result_prefix spec
      in case artifact_digest_of c ''run-spec.json'' spec_body of
          Inl e \<Rightarrow> (Inl e, w)
        | Inr digest \<Rightarrow> sbind (put_outputs c location lifecycle outputs [digest] w) (\<lambda>digests w1.
            case rbind (checksums_create digests) (\<lambda>manifest.
                rbind (canonical_json_bytes c (checksums_payload manifest)) (\<lambda>body. Inr (manifest, body))) of
              Inl e \<Rightarrow> (Inl e, w1)
            | Inr (manifest, body) \<Rightarrow> sbind (object_put c (location @ ''checksums.json'') body ''application/json'' lifecycle w1)
                (\<lambda>_ w2. (Inr manifest, w2))))"

definition execute_run ::
    "'w cloud \<Rightarrow> ('s, 'z) workshop \<Rightarrow> exn + datetime \<Rightarrow> exn + datetime \<Rightarrow> string \<Rightarrow> 'w \<Rightarrow> (exn + artifact_digest list) \<times> 'w" where
  "execute_run c wk started_clock completed_clock key w =
     sbind (read_run_spec c (wk_parse_json wk) key w) (\<lambda>(spec, spec_body) w1.
       case started_clock of
         Inl e \<Rightarrow> (Inl e, w1)
       | Inr started \<Rightarrow>
           sbind (mark_running (cl_fmt c) (cl_table c) (rsp_run_id spec) started w1) (\<lambda>_ w2.
           sbind (object_get c (dsr_key (rsp_dataset spec)) MAXIMUM_DATASET_BYTES w2) (\<lambda>dataset_body w3.
             if cl_digest c dataset_body \<noteq> dsr_sha256 (rsp_dataset spec) then (Inl (worker_error ''dataset digest mismatch''), w3)
             else (case rbind (run_backtest wk spec dataset_body) (\<lambda>result. run_outputs c wk completed_clock spec result) of
                 Inl e \<Rightarrow> (Inl e, w3)
               | Inr outputs \<Rightarrow> publish_outputs c spec spec_body outputs w3))))"

text \<open>The exit status of \<open>main\<close>, after its configuration was read.\<close>

definition worker_exit :: "(exn + 'a) \<times> 'w \<Rightarrow> int \<times> 'w" where
  "worker_exit r = (case r of (Inl _, w) \<Rightarrow> (1, w) | (Inr _, w) \<Rightarrow> (0, w))"

section \<open>What an executed run leaves\<close>

lemma run_spec_validated:
  assumes "run_spec_validate fmt j = Inr spec"
  shows "canonical_uuid (rsp_run_id spec)" "rsp_run_spec_key spec = run_prefix (rsp_run_id spec) @ ''run-spec.json''"
    "rsp_result_prefix spec = run_prefix (rsp_run_id spec)" "dataset_ok (rsp_dataset spec)" "request_ok (rsp_request spec)"
    "validate_image_digest (JStr (rsp_image_digest spec)) = Inr (rsp_image_digest spec)"
proof -
  from assms obtain x where x: "admit_spec x = Inr spec" "required j ''run_id'' validate_uuid = Inr (rsp_run_id x)"
      "required j ''dataset'' (dataset_ref_validate fmt) = Inr (rsp_dataset x)"
      "required j ''request'' (research_request_validate fmt) = Inr (rsp_request x)"
      "required j ''image_digest'' validate_image_digest = Inr (rsp_image_digest x)"
    unfolding run_spec_validate_def model_Inr by fastforce
  then have same: "x = spec" by (auto simp: admit_spec_def split: if_splits)
  from x(1) same show "rsp_run_spec_key spec = run_prefix (rsp_run_id spec) @ ''run-spec.json''"
    "rsp_result_prefix spec = run_prefix (rsp_run_id spec)" by (auto simp: admit_spec_def split: if_splits)
  from x(2) same show "canonical_uuid (rsp_run_id spec)" by (auto simp: required_Inr validate_uuid_def split: json.splits if_splits)
  from x(3) same show "dataset_ok (rsp_dataset spec)" by (auto simp: required_Inr intro: dataset_validated)
  from x(4) same show "request_ok (rsp_request spec)" by (auto simp: required_Inr intro: request_validated)
  from x(5) same validator_Inr(3) show "validate_image_digest (JStr (rsp_image_digest spec)) = Inr (rsp_image_digest spec)"
    by (metis required_Inr)
qed

lemma admit_run_spec_Inr:
  assumes "admit_run_spec c parse_json key body = Inr spec"
  shows "rsp_run_spec_key spec = key" "spec_agrees spec" "\<exists>j. run_spec_validate (cl_fmt c) j = Inr spec"
  using assms by (auto simp: admit_run_spec_def result_simps spec_agrees_def split: sum.splits if_splits)

lemma read_run_spec_ok:
  assumes ok: "cloud_ok num view c" and run: "read_run_spec c parse_json key w = (q, w')"
  shows "evolves (cl_fmt c) view w w'"
    and "q = Inr (spec, body) \<Longrightarrow> admit_run_spec c parse_json key body = Inr spec \<and> cv_objects view w' key = Some (body, cl_digest c body)"
proof -
  obtain p w1 where p: "on_error (\<lambda>_. worker_error ''run specification download failed'') (object_get c key MAXIMUM_RUN_SPEC_BYTES w) = (p, w1)"
    by (metis surj_pair)
  note got = object_get_ok [OF ok p]
  have cases: "w' = w \<and> (\<exists>e. q = Inl e) \<or> w' = w1 \<and> (\<forall>s. q = Inr s \<longrightarrow> (\<exists>b spec. p = Inr b \<and> s = (spec, b) \<and> admit_run_spec c parse_json key b = Inr spec))"
  proof (cases "admit_run_spec_key key")
    case (Inr k)
    then have "k = key" by (auto simp: admit_run_spec_key_def split: list.splits if_splits)
    with run Inr p show ?thesis by (cases p) (auto simp: read_run_spec_def sbind_def result_simps)
  next
    case (Inl e)
    with run have "q = Inl e" "w' = w" by (simp_all add: read_run_spec_def)
    then show ?thesis by blast
  qed
  then show "evolves (cl_fmt c) view w w'" using got(1) by auto
  show "admit_run_spec c parse_json key body = Inr spec \<and> cv_objects view w' key = Some (body, cl_digest c body)" if "q = Inr (spec, body)"
    using cases got(2) that by auto
qed

definition digest_of :: "'w cloud \<Rightarrow> string \<Rightarrow> string \<Rightarrow> artifact_digest" where
  "digest_of c name body = \<lparr>adg_name = name, adg_byte_length = int (length body), adg_sha256 = cl_digest c body\<rparr>"

lemma artifact_digest_of_Inr:
  assumes "artifact_digest_of c name body = Inr d"
  shows "d = digest_of c name body" and "artifact_ok d"
proof -
  from assms obtain n m h where parts: "admit_artifact_name (JStr name) = Inr n"
      "admit_byte_length (JInt (int (length body))) = Inr m" "validate_sha256 (JStr (cl_digest c body)) = Inr h"
      "d = \<lparr>adg_name = n, adg_byte_length = m, adg_sha256 = h\<rparr>"
    unfolding artifact_digest_of_def model_Inr by auto
  have "JStr (cl_digest c body) = JStr h" by (rule validator_Inr(2) [OF parts(3)])
  with parts show "d = digest_of c name body" "artifact_ok d"
    by (auto simp: admit_artifact_name_def strict_str_def admit_byte_length_def strict_int_def artifact_ok_def digest_of_def
        split: if_splits)
qed

definition output_stored :: "'w cloud_view \<Rightarrow> 'w cloud \<Rightarrow> 'w \<Rightarrow> string \<Rightarrow> string \<Rightarrow> bool" where
  "output_stored view c w key body \<longleftrightarrow> (\<exists>b. cv_objects view w key = Some (b, cl_digest c body) \<and> cl_digest c b = cl_digest c body)"

lemma evolves_stored:
  assumes e: "evolves fmt view w u" and stored: "output_stored view c w key body"
  shows "output_stored view c u key body"
proof -
  from stored obtain b where b: "cv_objects view w key = Some (b, cl_digest c body)" "cl_digest c b = cl_digest c body"
    unfolding output_stored_def by blast
  from evolves_object [OF e b(1)] b(2) show ?thesis unfolding output_stored_def by blast
qed

lemma object_put_ok:
  assumes "cloud_ok num view c" and "object_put c key body content_type lifecycle w = (q, w')"
  shows "evolves (cl_fmt c) view w w'" and "q = Inr s \<Longrightarrow> output_stored view c w' key body"
proof -
  from assms(1) have client: "objects_ok (cl_fmt c) view (cl_client c)" by (simp add: cloud_ok_def)
  note put = store_put_object [OF client assms(2) [unfolded object_put_def]]
  show "evolves (cl_fmt c) view w w'" by (rule put(1))
  show "q = Inr s \<Longrightarrow> output_stored view c w' key body" using put(2) by (auto simp: output_stored_def)
qed

lemma put_outputs_ok:
  assumes ok: "cloud_ok num view c"
  shows "put_outputs c location lifecycle outputs digests w = (q, w') \<Longrightarrow> evolves (cl_fmt c) view w w' \<and>
    (\<forall>ds. q = Inr ds \<longrightarrow> ds = digests @ map (\<lambda>(name, body, content_type). digest_of c name body) outputs \<and>
      (list_all artifact_ok digests \<longrightarrow> list_all artifact_ok ds) \<and>
      (\<forall>(name, body, content_type)\<in>set outputs. output_stored view c w' (location @ name) body))"
proof (induction outputs arbitrary: digests w)
  case (Cons item outputs)
  obtain name body content_type where item: "item = (name, body, content_type)" by (metis surj_pair)
  obtain p w1 where p: "object_put c (location @ name) body content_type lifecycle w = (p, w1)" by (metis surj_pair)
  note put = object_put_ok [OF ok p]
  show ?case
  proof (cases "\<exists>s d. p = Inr s \<and> artifact_digest_of c name body = Inr d")
    case False
    with Cons.prems p have "w' = w1" "\<exists>e. q = Inl e"
      unfolding item by (cases p; cases "artifact_digest_of c name body"; auto simp: sbind_def)+
    with put(1) show ?thesis by auto
  next
    case True
    then obtain s d where s: "p = Inr s" "artifact_digest_of c name body = Inr d" by blast
    with Cons.prems p have rest: "put_outputs c location lifecycle outputs (digests @ [d]) w1 = (q, w')"
      unfolding item by (simp add: sbind_def)
    note IH = Cons.IH [OF rest]
    note d = artifact_digest_of_Inr [OF s(2)]
    have "output_stored view c w' (location @ name) body"
      using evolves_stored [OF IH [THEN conjunct1] put(2) [OF s(1)]] .
    with IH put(1) d show ?thesis unfolding item by (auto intro: evolves_trans)
  qed
qed auto

section \<open>The texts of a run\<close>

lemma json_sorted_idem [simp]: "json_sorted (json_sorted j) = json_sorted j"
proof (induction j rule: json_sorted.induct)
  case (1 kvs)
  let ?ys = "sort_key fst (map (\<lambda>(k, v). (k, json_sorted v)) kvs)"
  have "map (\<lambda>(k, v). (k, json_sorted v)) ?ys = ?ys"
    by (rule map_idI) (use 1 in auto)
  moreover have "sort_key fst ?ys = ?ys" by (rule sort_key_id_if_sorted) simp
  ultimately show ?case by simp
qed simp_all

lemma json_finite_sorted [simp]: "json_finite (json_sorted j) = json_finite j"
  by (induction j rule: json_sorted.induct) (auto simp: list_all_iff)

lemma distinct_sort_keys: "distinct (map fst (sort_key fst kvs)) \<longleftrightarrow> distinct (map fst kvs)"
  by (rule mset_eq_imp_distinct_iff) (metis mset_map mset_sort)

lemma unique_names_sorted: "unique_names j \<Longrightarrow> unique_names (json_sorted j)"
proof (induction j rule: json_sorted.induct)
  case (1 kvs)
  have "map fst (map (\<lambda>(k, v). (k, json_sorted v)) kvs) = map fst kvs" by (simp add: comp_def split_beta)
  with 1 show ?case by (auto simp: distinct_sort_keys list_all_iff simp del: map_map)
qed (auto simp: list_all_iff)

text \<open>A canonical text is read back when the parser inverts the printer on it.\<close>

lemma strict_json_canonical:
  assumes "canonical_json_bytes c j = Inr body" and "unique_names j" and "members j \<noteq> None" and "cl_loads c body = Inr (json_sorted j)"
  shows "strict_json_object c error catches body = Inr (json_sorted j)"
proof -
  from assms(1) have "json_finite j" "cl_dumps c (json_sorted j) = body" by (auto simp: canonical_json_bytes_def split: if_splits)
  with assms show ?thesis
    by (simp add: strict_json_object_def canonical_json_bytes_def unique_names_sorted)
qed

lemma metrics_names:
  assumes "compute_all_metrics result = Inr metrics"
  shows "map fst metrics = map metric_value all_metric_names" and "distinct (map fst metrics)"
proof -
  from assms have "\<not> cagr_fails (res_equity_curve result)"
    using cagr_returns by (auto simp: compute_all_metrics_def result_simps Let_def)
  with compute_all_metrics_returns assms show names: "map fst metrics = map metric_value all_metric_names" by fastforce
  have "distinct (map metric_value all_metric_names)" by code_simp
  with names show "distinct (map fst metrics)" by simp
qed

lemma run_outputs_Inr:
  assumes "run_outputs c wk clock spec result = Inr outputs"
  shows "\<exists>metrics completed body trades equity report. compute_all_metrics result = Inr metrics \<and> clock = Inr completed \<and>
    canonical_json_bytes c (result_document (cl_fmt c) (wk_number wk) spec result metrics completed) = Inr body \<and>
    outputs = [(''result.json'', body, ''application/json''), (''trades.parquet'', trades, ''application/vnd.apache.parquet''),
      (''equity-curve.parquet'', equity, ''application/vnd.apache.parquet''), (''report.html'', report, ''text/html; charset=utf-8'')]"
proof -
  from assms obtain metrics where m: "compute_all_metrics result = Inr metrics"
    by (auto simp: run_outputs_def lift_error_def result_simps split: sum.splits)
  with assms show ?thesis
    by (auto simp: run_outputs_def lift_error_def result_simps)
qed

lemma run_backtest_Inr:
  assumes "run_backtest wk spec body = Inr result"
  shows "res_run_id result = rsp_run_id spec"
  using assms by (auto simp: run_backtest_def result_simps)

text \<open>The result's text names the run, as the finalization reads it.\<close>

lemma parameter_json_unique: "unique_names (parameter_json p)"
  by (cases p) simp_all

lemma result_document_names:
  assumes "distinct (map fst (res_parameters result))" and "distinct (map fst metrics)"
  shows "unique_names (result_document fmt number spec result metrics completed)"
  using assms by (auto simp: result_document_def worker_summary_def parameter_json_unique list_all_iff comp_def split_beta json_metric_def split: xfloat.splits)

lemma result_verified:
  assumes doc: "canonical_json_bytes c (result_document fmt number spec result metrics completed) = Inr body"
    and names: "distinct (map fst (res_parameters result))" "distinct (map fst metrics)"
    and read: "cl_loads c body = Inr (json_sorted (result_document fmt number spec result metrics completed))"
    and run: "res_run_id result = i" "canonical_uuid i"
  shows "verify_result_run_id c body i = Inr ()"
proof -
  let ?j = "result_document fmt number spec result metrics completed"
  have "members ?j \<noteq> None" by (simp add: result_document_def)
  note strict = strict_json_canonical [OF doc result_document_names [OF names] this read]
  have "jget ?j ''run_id'' = JStr i" using run(1) by (simp add: result_document_def worker_summary_def)
  then show ?thesis using run(2) by (simp add: verify_result_run_id_def strict jget_sorted validate_uuid_def)
qed

lemma manifest_parsed:
  assumes ok: "list_all artifact_ok as" and names: "distinct (map adg_name as)" "set (map adg_name as) = set REQUIRED_ARTIFACTS"
    and printed: "canonical_json_bytes c (checksums_payload as) = Inr body" and read: "cl_loads c body = Inr (json_sorted (checksums_payload as))"
  shows "parse_manifest c body = Inr as"
proof -
  have "unique_names (checksums_payload as)" "members (checksums_payload as) \<noteq> None"
    by (auto simp: checksums_payload_def list_all_iff)
  note strict = strict_json_canonical [OF printed this read]
  show ?thesis using checksums_valid [OF ok names] names(2) by (simp add: parse_manifest_def strict)
qed

text \<open>The objects that a run writes, by name.\<close>

definition written_bodies :: "'w cloud \<Rightarrow> artifact_digest list \<Rightarrow> (string \<times> string \<times> string) list \<Rightarrow> (string \<times> string) list" where
  "written_bodies c manifest outputs = map (\<lambda>(name, body, content_type). (name, body)) outputs @
     [(''checksums.json'', cl_dumps c (json_sorted (checksums_payload manifest)))]"

definition run_manifest :: "'w cloud \<Rightarrow> string \<Rightarrow> (string \<times> string \<times> string) list \<Rightarrow> artifact_digest list" where
  "run_manifest c spec_body outputs =
     digest_of c ''run-spec.json'' spec_body # map (\<lambda>(name, body, content_type). digest_of c name body) outputs"

lemma publish_outputs_ok:
  assumes ok: "cloud_ok num view c" and run: "publish_outputs c spec spec_body outputs w = (q, w')"
  shows "evolves (cl_fmt c) view w w'"
    and "q = Inr manifest \<Longrightarrow> manifest = run_manifest c spec_body outputs \<and> list_all artifact_ok manifest \<and>
      distinct (map adg_name manifest) \<and> set (map adg_name manifest) = set REQUIRED_ARTIFACTS \<and>
      (\<forall>(name, body)\<in>set (written_bodies c manifest outputs). output_stored view c w' (rsp_result_prefix spec @ name) body)"
proof -
  let ?location = "rsp_result_prefix spec" and ?lifecycle = "lifecycle_of (rsq_visibility (rsp_request spec))"
  have "evolves (cl_fmt c) view w w' \<and> (\<forall>manifest. q = Inr manifest \<longrightarrow> manifest = run_manifest c spec_body outputs \<and>
      list_all artifact_ok manifest \<and> distinct (map adg_name manifest) \<and> set (map adg_name manifest) = set REQUIRED_ARTIFACTS \<and>
      (\<forall>(name, body)\<in>set (written_bodies c manifest outputs). output_stored view c w' (?location @ name) body))"
  proof (cases "artifact_digest_of c ''run-spec.json'' spec_body")
    case (Inl e)
    with run show ?thesis by (auto simp: publish_outputs_def Let_def)
  next
    case (Inr d)
    note d = artifact_digest_of_Inr [OF Inr]
    obtain p w1 where p: "put_outputs c ?location ?lifecycle outputs [d] w = (p, w1)" by (metis surj_pair)
    note put = put_outputs_ok [OF ok p]
    show ?thesis
    proof (cases "\<exists>ds. p = Inr ds \<and> checksums_create ds = Inr ds \<and> json_finite (checksums_payload ds)")
      case False
      have "w' = w1 \<and> (\<exists>e. q = Inl e)"
      proof (cases p)
        case (Inr ds)
        with False run p \<open>artifact_digest_of c ''run-spec.json'' spec_body = Inr d\<close> show ?thesis
          by (auto simp: publish_outputs_def Let_def sbind_def checksums_create_def require_exact_artifacts_def canonical_json_bytes_def
              model_def split: sum.splits if_splits)
      qed (use run p \<open>artifact_digest_of c ''run-spec.json'' spec_body = Inr d\<close> in \<open>auto simp: publish_outputs_def Let_def sbind_def\<close>)
      with put show ?thesis by auto
    next
      case True
      then obtain ds where ds: "p = Inr ds" "checksums_create ds = Inr ds" "json_finite (checksums_payload ds)" by blast
      let ?body = "cl_dumps c (json_sorted (checksums_payload ds))"
      obtain s w2 where s: "object_put c (?location @ ''checksums.json'') ?body ''application/json'' ?lifecycle w1 = (s, w2)" by (metis surj_pair)
      with run p ds Inr have q: "w' = w2" "\<forall>m. q = Inr m \<longrightarrow> m = ds \<and> (\<exists>x. s = Inr x)"
        by (auto simp: publish_outputs_def Let_def sbind_def canonical_json_bytes_def split: sum.splits)
      note last = object_put_ok [OF ok s]
      from put ds(1) have stored: "ds = run_manifest c spec_body outputs" "list_all artifact_ok ds"
          "\<forall>(name, body, content_type)\<in>set outputs. output_stored view c w1 (?location @ name) body"
        using d by (auto simp: run_manifest_def)
      from ds(2) have names: "distinct (map adg_name ds)" "set (map adg_name ds) = set REQUIRED_ARTIFACTS"
        by (auto simp: checksums_create_def model_Inr require_exact_artifacts_def split: if_splits)
      have all: "\<forall>(name, body)\<in>set (written_bodies c ds outputs). output_stored view c w2 (?location @ name) body" if "s = Inr x" for x
        using stored(3) evolves_stored [OF last(1)] last(2) [OF that] by (auto simp: written_bodies_def)
      show ?thesis
      proof (intro conjI allI impI)
        show "evolves (cl_fmt c) view w w'" using put last(1) q(1) by (auto intro: evolves_trans)
        fix m
        assume "q = Inr m"
        with q obtain x where m: "m = ds" "s = Inr x" by blast
        show "m = run_manifest c spec_body outputs" "list_all artifact_ok m" "distinct (map adg_name m)"
          "set (map adg_name m) = set REQUIRED_ARTIFACTS" using m(1) stored(1,2) names by simp_all
        show "\<forall>(name, body)\<in>set (written_bodies c m outputs). output_stored view c w' (?location @ name) body"
          unfolding m(1) q(1) by (rule all [OF m(2)])
      qed
    qed
  qed
  then show "evolves (cl_fmt c) view w w'" and "q = Inr manifest \<Longrightarrow> manifest = run_manifest c spec_body outputs \<and> list_all artifact_ok manifest \<and>
      distinct (map adg_name manifest) \<and> set (map adg_name manifest) = set REQUIRED_ARTIFACTS \<and>
      (\<forall>(name, body)\<in>set (written_bodies c manifest outputs). output_stored view c w' (rsp_result_prefix spec @ name) body)"
    by blast+
qed

lemma execute_run_steps:
  assumes ok: "cloud_ok num view c" and valid: "table_valid (cl_fmt c) (cv_items view w)"
    and run: "execute_run c wk started_clock completed_clock key w = (Inr manifest, w')"
  obtains (steps) spec spec_body dataset_body result outputs w3 where "admit_run_spec c (wk_parse_json wk) key spec_body = Inr spec"
    "cl_digest c dataset_body = dsr_sha256 (rsp_dataset spec)" "run_backtest wk spec dataset_body = Inr result"
    "run_outputs c wk completed_clock spec result = Inr outputs" "evolves (cl_fmt c) view w3 w'"
    "cv_objects view w' key = Some (spec_body, cl_digest c spec_body)"
    "publish_outputs c spec spec_body outputs w3 = (Inr manifest, w')"
    "\<exists>r. holds_record (cl_fmt c) (cv_items view w') (''RUN#'' @ rsp_run_id spec) r \<and> rrc_status r \<noteq> PENDING"
proof -
  from run obtain spec spec_body w1 started w2 dataset_body w3 result outputs where
      read: "read_run_spec c (wk_parse_json wk) key w = (Inr (spec, spec_body), w1)"
      and mark: "mark_running (cl_fmt c) (cl_table c) (rsp_run_id spec) started w1 = (Inr (), w2)"
      and get: "object_get c (dsr_key (rsp_dataset spec)) MAXIMUM_DATASET_BYTES w2 = (Inr dataset_body, w3)"
      and digest: "cl_digest c dataset_body = dsr_sha256 (rsp_dataset spec)"
      and computed: "run_backtest wk spec dataset_body = Inr result" "run_outputs c wk completed_clock spec result = Inr outputs"
      and publish: "publish_outputs c spec spec_body outputs w3 = (Inr manifest, w')"
    unfolding execute_run_def
    by (auto simp: sbind_def result_simps split: sum.splits prod.splits if_splits)
  note r = read_run_spec_ok [OF ok read]
  from ok have tb: "table_ok (cl_fmt c) num view (cl_table c)" by (simp add: cloud_ok_def)
  note marked = mark_running_record [OF tb mark]
  from get have "on_error id (object_get c (dsr_key (rsp_dataset spec)) MAXIMUM_DATASET_BYTES w2) = (Inr dataset_body, w3)" by (simp add: on_error_def)
  note got = object_get_ok(1) [OF ok this]
  note pub = publish_outputs_ok(1) [OF ok publish]
  note later = evolves_trans [OF got pub]
  from r(1) valid have "table_valid (cl_fmt c) (cv_items view w1)" unfolding evolves_def by (blast dest: table_steps_valid)
  from marked(2) [OF this refl] obtain r0 where
    r0: "holds_record (cl_fmt c) (cv_items view w2) (''RUN#'' @ rsp_run_id spec) (r0\<lparr>rrc_status := RUNNING, rrc_started_at := Some started\<rparr>)" by blast
  from evolves_record [OF later r0] obtain r1 where
    r1: "record_step\<^sup>*\<^sup>* (r0\<lparr>rrc_status := RUNNING, rrc_started_at := Some started\<rparr>) r1"
      "holds_record (cl_fmt c) (cv_items view w') (''RUN#'' @ rsp_run_id spec) r1" by blast
  from record_steps_rank [OF r1(1)] have "rrc_status r1 \<noteq> PENDING" by auto
  with r1(2) have begun: "\<exists>r. holds_record (cl_fmt c) (cv_items view w') (''RUN#'' @ rsp_run_id spec) r \<and> rrc_status r \<noteq> PENDING" by blast
  from r(2) [OF refl] have spec: "admit_run_spec c (wk_parse_json wk) key spec_body = Inr spec"
    "cv_objects view w1 key = Some (spec_body, cl_digest c spec_body)" by simp_all
  have "cv_objects view w' key = Some (spec_body, cl_digest c spec_body)"
    by (rule evolves_object [OF evolves_trans [OF marked(1) later] spec(2)])
  from steps [OF spec(1) digest computed pub this publish begun] show ?thesis .
qed

definition text_read :: "'w cloud \<Rightarrow> json \<Rightarrow> bool" where
  "text_read c j \<longleftrightarrow> cl_loads c (cl_dumps c (json_sorted j)) = Inr (json_sorted j)"

text \<open>What is stored under a run's keys, if it has the digest of what was written, is what was written.\<close>

definition bytes_kept :: "'w cloud_view \<Rightarrow> 'w cloud \<Rightarrow> 'w \<Rightarrow> string \<Rightarrow> (string \<times> string) list \<Rightarrow> bool" where
  "bytes_kept view c u location bodies \<longleftrightarrow>
     (\<forall>(name, body)\<in>set bodies. \<forall>b. cv_objects view u (location @ name) = Some (b, cl_digest c body) \<longrightarrow> b = body)"

lemma outputs_verified:
  assumes outputs: "run_outputs c wk clock spec result = Inr outputs" and manifest: "manifest = run_manifest c spec_body outputs"
    and ok: "list_all artifact_ok manifest" "distinct (map adg_name manifest)" "set (map adg_name manifest) = set REQUIRED_ARTIFACTS"
    and spec: "cv_objects view u (run_prefix i @ ''run-spec.json'') = Some (spec_body, cl_digest c spec_body)"
    and stored: "\<forall>(name, body)\<in>set (written_bodies c manifest outputs). output_stored view c u (run_prefix i @ name) body"
    and kept: "bytes_kept view c u (run_prefix i) (written_bodies c manifest outputs)"
    and result: "verify_result_run_id c (snd (hd (written_bodies c manifest outputs))) i = Inr ()"
    and read: "text_read c (checksums_payload manifest)"
  shows "run_verified view c u i"
proof -
  have exact: "cv_objects view u (run_prefix i @ name) = Some (body, cl_digest c body)"
    if "(name, body) \<in> set (written_bodies c manifest outputs)" for name body
    using stored kept that unfolding output_stored_def bytes_kept_def by fast
  let ?text = "cl_dumps c (json_sorted (checksums_payload manifest))"
  have "json_finite (checksums_payload manifest)" by (simp add: checksums_payload_def list_all_iff)
  then have "canonical_json_bytes c (checksums_payload manifest) = Inr ?text" by (simp add: canonical_json_bytes_def)
  from manifest_parsed [OF ok this read [unfolded text_read_def]] have parsed: "parse_manifest c ?text = Inr manifest" .
  have doc: "cv_objects view u (run_prefix i @ ''checksums.json'') = Some (?text, cl_digest c ?text)"
    by (rule exact) (simp add: written_bodies_def)
  have output_bytes: "cv_objects view u (run_prefix i @ name) = Some (body, cl_digest c body)" if "(name, body, content_type) \<in> set outputs"
    for name body content_type by (rule exact) (use that in \<open>force simp: written_bodies_def\<close>)
  have artifacts: "\<forall>a\<in>set manifest. artifact_stored view c u (run_prefix i) a"
    unfolding manifest run_manifest_def using spec output_bytes by (auto simp: artifact_stored_def digest_of_def)
  from run_outputs_Inr [OF outputs] have first: "hd (written_bodies c manifest outputs) = (''result.json'', snd (hd (written_bodies c manifest outputs)))"
      "hd (written_bodies c manifest outputs) \<in> set (written_bodies c manifest outputs)"
    by (auto simp: written_bodies_def)
  then have "cv_objects view u (run_prefix i @ ''result.json'') =
      Some (snd (hd (written_bodies c manifest outputs)), cl_digest c (snd (hd (written_bodies c manifest outputs))))"
    by (intro exact) simp
  with doc parsed ok(2,3) artifacts result show ?thesis unfolding run_verified_def by blast
qed

section \<open>What an executed run promises\<close>


section \<open>A run that returns\<close>

definition demo_spec :: run_spec where
  "demo_spec = \<lparr>rsp_run_id = demo_run_id, rsp_dataset = demo_dataset, rsp_request = demo_research, rsp_image_digest = demo_image,
     rsp_created_at = 1600000000000000, rsp_maximum_runtime_seconds = 600,
     rsp_run_spec_key = run_prefix demo_run_id @ ''run-spec.json'', rsp_result_prefix = run_prefix demo_run_id\<rparr>"

definition demo_bar_frame :: data_frame where
  "demo_bar_frame = \<lparr>df_columns = ''timestamp'' # candle_columns, df_datetime_index = False,
     df_rows = [(FCell CNone, FTime (18262 * 86400000000) # map (\<lambda>x. FCell (CNum (Fin x))) [10, 12, 9, 11, 100, 11])]\<rparr>"

definition demo_worker_cloud :: "(string \<Rightarrow> exn + json) \<Rightarrow> demo_world cloud" where
  "demo_worker_cloud loads = (demo_cloud JInt)\<lparr>cl_loads := loads, cl_dumps := (\<lambda>j. if ''dataset'' \<in> jkeys j then ''spec''
     else if ''artifacts'' \<in> jkeys j then ''manifest'' else ''result'')\<rparr>"

definition demo_workshop :: "(breakout, int) workshop" where
  "demo_workshop = \<lparr>wk_parse_json = (\<lambda>_. Inr (json_sorted (run_spec_payload demo_utc demo_spec))), wk_read_parquet = (\<lambda>_. Inr demo_bar_frame),
     wk_timestamps = demo_timestamp, wk_utc = (\<lambda>t. t), wk_registry = (\<lambda>_ _. Inr (demo_env, demo_breakout)), wk_sizer = 2,
     wk_engine_run_id = [], wk_number = FloatParam, wk_format = (\<lambda>_. []), wk_trades_parquet = (\<lambda>_. Inr ''trades''),
     wk_equity_parquet = (\<lambda>_. Inr ''equity''), wk_report = (\<lambda>_ _ _. Inr ''report'')\<rparr>"

definition demo_worker_world :: demo_world where
  "demo_worker_world = ([run_prefix demo_run_id @ ''run-spec.json'' \<mapsto> (''spec'', demo_digest ''spec''),
     ''datasets/v1/a.parquet'' \<mapsto> (''data'', demo_digest ''data'')], [''RUN#'' @ demo_run_id \<mapsto> record_item demo_utc demo_record])"

lemma demo_candles: "\<exists>c. load_candles demo_workshop (sorted_spec demo_spec) ''data'' = Inr [c] \<and> candle_pos c"
proof -
  have converted: "df_to_candles demo_timestamp demo_bar_frame = Inr [\<lparr>c_timestamp = 18262 * 86400000000, c_open = 10, c_high = 12, c_low = 9,
      c_close = 11, c_volume = 100, c_adj_close = 11\<rparr>]" by code_simp
  show ?thesis
    by (auto simp: load_candles_def demo_workshop_def converted lift_error_def require_candle_range_def day_number_def sorted_spec_def
        sorted_request_def demo_spec_def demo_dataset_def candle_pos_def candle_ok_def)
qed

lemma demo_backtest:
  "\<exists>result. run_backtest demo_workshop (sorted_spec demo_spec) ''data'' = Inr result \<and> \<not> cagr_fails (res_equity_curve result) \<and>
     res_initial_capital result = Fin 100000 \<and> map fst (res_parameters result) = [''lookback'']"
proof -
  let ?cfg = "run_config (rsp_request (sorted_spec demo_spec))"
  obtain c where c: "load_candles demo_workshop (sorted_spec demo_spec) ''data'' = Inr [c]" "candle_pos c" using demo_candles by blast
  have cfg: "config_ok ?cfg" "cfg_initial_capital ?cfg = Fin 100000"
    by (simp_all add: run_config_def sorted_spec_def sorted_request_def demo_spec_def demo_research_def config_ok_def config_post_init_def broker_ok_def)
  have bars: "\<forall>x \<in> set [c]. candle_pos x" "[c] \<noteq> []" "strictly_increasing [c]" using c(2) by simp_all
  from bo_fq.run_bars_returns [where uuid = "\<lambda>n. ''00000000''" and z = 2 and rid = "[]" and rq = "Some (rsq_symbol (rsp_request (sorted_spec demo_spec)))",
      OF cfg(1) demo_breakout_valid _ bars]
  obtain st where st: "run_bars demo_env demo_breakout [c] ?cfg [] (Some (rsq_symbol (rsp_request (sorted_spec demo_spec)))) 2 = Inr st" by auto
  then obtain res st' where run: "engine_run demo_env demo_breakout [c] ?cfg [] (Some (rsq_symbol (rsp_request (sorted_spec demo_spec)))) 2 = Inr (res, st')"
    by (auto simp: engine_run_def Let_def)
  from st obtain st0 where st0: "initial_state ?cfg [] (Some (rsq_symbol (rsp_request (sorted_spec demo_spec)))) 2 demo_breakout = Inr st0"
      "rfold (process_bar demo_env ?cfg) (enumerate 0 [c]) st0 = Inr st" by (rule run_barsE)
  have "map ep_date (pf_equity_curve (rs_portfolio st)) = [c_timestamp c]"
    using bars_portfolio [OF st0(2)] portfolio_init_eq(5) [OF initial_state_eq(1) [OF st0(1)]] by auto
  with run st have "length (res_equity_curve res) = 1" by (auto elim!: engine_runE)
  then have "\<not> cagr_fails (res_equity_curve res)" by (simp add: cagr_fails_def)
  moreover have "res_initial_capital res = Fin 100000" using run cfg(2) by (auto elim!: engine_runE)
  moreover have "map fst (res_parameters res) = [''lookback'']" using run by (auto simp: engine_run_def result_simps Let_def env_defs)
  moreover have "config_post_init ?cfg = Inr ?cfg" using cfg(1) by (simp add: config_ok_def)
  ultimately show ?thesis
    using run c(1) by (auto simp: run_backtest_def admit_strategy_def lift_error_def demo_workshop_def)
qed

lemma demo_worker_cloud_ok: "cloud_ok JInt demo_view (demo_worker_cloud loads)"
  using demo_cloud_ok [of JInt] by (simp add: cloud_ok_def demo_worker_cloud_def)

lemma demo_worker_fields: "cl_fmt (demo_worker_cloud loads) = demo_utc" "cl_digest (demo_worker_cloud loads) = demo_digest"
    "cl_client (demo_worker_cloud loads) = demo_client" "cl_table (demo_worker_cloud loads) = demo_table JInt"
  by (simp_all add: demo_worker_cloud_def demo_cloud_def)

lemma demo_put:
  assumes "validate_storage_key key = Inr key" and "objects key = None" and "content_type \<noteq> []"
  shows "\<exists>s. object_put (demo_worker_cloud loads) key body content_type lifecycle (objects, items) =
    (Inr s, (objects(key \<mapsto> (body, demo_digest body)), items))"
  using assms by (simp add: object_put_def demo_worker_fields store_put_def stored_object_create_def demo_digest_ok demo_client_def)

lemma demo_artifact_digest:
  "name \<in> set REQUIRED_ARTIFACTS \<Longrightarrow> artifact_digest_of (demo_worker_cloud loads) name body = Inr (digest_of (demo_worker_cloud loads) name body)"
  by (simp add: artifact_digest_of_def model_def admit_artifact_name_def strict_str_def admit_byte_length_def strict_int_def
      demo_worker_fields demo_digest_ok digest_of_def)

lemma demo_put_outputs:
  assumes "canonical_uuid i" and "distinct (map fst outputs)" and "fst ` set outputs \<subseteq> set REQUIRED_ARTIFACTS"
    and "\<forall>(name, body, content_type)\<in>set outputs. content_type \<noteq> []"
    and "\<forall>name\<in>fst ` set outputs. objects (run_prefix i @ name) = None"
  shows "\<exists>ds objects'. put_outputs (demo_worker_cloud loads) (run_prefix i) lifecycle outputs digests (objects, items) = (Inr ds, (objects', items)) \<and>
    ds = digests @ map (\<lambda>(name, body, content_type). digest_of (demo_worker_cloud loads) name body) outputs \<and>
    (\<forall>key. key \<notin> (\<lambda>name. run_prefix i @ name) ` fst ` set outputs \<longrightarrow> objects' key = objects key) \<and>
    (\<forall>(name, body, content_type)\<in>set outputs. objects' (run_prefix i @ name) = Some (body, demo_digest body))"
  using assms
proof (induction outputs arbitrary: objects digests)
  case (Cons item outputs)
  obtain name body content_type where item: "item = (name, body, content_type)" by (metis surj_pair)
  let ?key = "run_prefix i @ name" and ?d = "digest_of (demo_worker_cloud loads) name body"
  from Cons.prems item have name: "name \<in> set REQUIRED_ARTIFACTS" "objects ?key = None" "content_type \<noteq> []" by auto
  then have "validate_storage_key ?key = Inr ?key" by (intro artifact_storage_key Cons.prems(1)) simp
  from demo_put [where objects = objects and key = ?key, OF this name(2,3)] obtain s where
    s: "object_put (demo_worker_cloud loads) ?key body content_type lifecycle (objects, items) = (Inr s, (objects(?key \<mapsto> (body, demo_digest body)), items))" by blast
  have fresh: "\<forall>n\<in>fst ` set outputs. (objects(?key \<mapsto> (body, demo_digest body))) (run_prefix i @ n) = None"
    using Cons.prems(2,5) item by auto
  have prems: "distinct (map fst outputs)" "fst ` set outputs \<subseteq> set REQUIRED_ARTIFACTS"
    "\<forall>(name, body, content_type)\<in>set outputs. content_type \<noteq> []" using Cons.prems item by auto
  from Cons.IH [OF Cons.prems(1) prems fresh, of "digests @ [?d]"] obtain ds objects' where
    rest: "put_outputs (demo_worker_cloud loads) (run_prefix i) lifecycle outputs (digests @ [?d]) (objects(?key \<mapsto> (body, demo_digest body)), items) =
      (Inr ds, (objects', items))" "ds = (digests @ [?d]) @ map (\<lambda>(name, body, content_type). digest_of (demo_worker_cloud loads) name body) outputs"
      "\<forall>key. key \<notin> (\<lambda>name. run_prefix i @ name) ` fst ` set outputs \<longrightarrow> objects' key = (objects(?key \<mapsto> (body, demo_digest body))) key"
      "\<forall>(name, body, content_type)\<in>set outputs. objects' (run_prefix i @ name) = Some (body, demo_digest body)"
    by (elim exE conjE) (rule that)
  have "?key \<notin> (\<lambda>name. run_prefix i @ name) ` fst ` set outputs" using Cons.prems(2) item by auto
  with rest(3) have "objects' ?key = Some (body, demo_digest body)" by simp
  with rest show ?case by (auto simp: item sbind_def s demo_artifact_digest name(1))
qed auto

lemma demo_run_published:
  assumes "\<forall>(name, body, content_type)\<in>set outputs. content_type \<noteq> []"
    and "map fst outputs = [''result.json'', ''trades.parquet'', ''equity-curve.parquet'', ''report.html'']"
  shows "\<exists>objects. publish_outputs (demo_worker_cloud loads) (sorted_spec demo_spec) ''spec'' outputs (fst demo_worker_world, items) =
      (Inr (run_manifest (demo_worker_cloud loads) ''spec'' outputs), (objects, items)) \<and>
    bytes_kept demo_view (demo_worker_cloud loads) (objects, items) (run_prefix demo_run_id)
      (written_bodies (demo_worker_cloud loads) (run_manifest (demo_worker_cloud loads) ''spec'' outputs) outputs)"
proof -
  let ?prefix = "run_prefix demo_run_id" and ?objects = "fst demo_worker_world"
  let ?d = "digest_of (demo_worker_cloud loads) ''run-spec.json'' ''spec''"
  have names: "fst ` set outputs = {''result.json'', ''trades.parquet'', ''equity-curve.parquet'', ''report.html''}"
    unfolding set_map [symmetric] assms(2) by simp
  have fresh: "?objects (?prefix @ name) = None" if "name \<noteq> ''run-spec.json''" for name
    using that by (simp add: demo_worker_world_def run_prefix_def)
  have spec: "rsp_result_prefix (sorted_spec demo_spec) = ?prefix" by (simp add: sorted_spec_def demo_spec_def)
  let ?lifecycle = "lifecycle_of (rsq_visibility (rsp_request (sorted_spec demo_spec)))"
  have outputs: "distinct (map fst outputs)" "fst ` set outputs \<subseteq> set REQUIRED_ARTIFACTS"
    "\<forall>name\<in>fst ` set outputs. ?objects (?prefix @ name) = None"
    by (simp add: assms(2), simp add: names REQUIRED_ARTIFACTS_def, simp add: names fresh)
  from demo_put_outputs [OF demo_uuid outputs(1,2) assms(1) outputs(3), of loads ?lifecycle "[?d]" items] obtain ds objects' where
    put: "put_outputs (demo_worker_cloud loads) ?prefix ?lifecycle outputs [?d] (?objects, items) = (Inr ds, (objects', items))"
      "ds = [?d] @ map (\<lambda>(name, body, content_type). digest_of (demo_worker_cloud loads) name body) outputs"
      "\<forall>key. key \<notin> (\<lambda>name. ?prefix @ name) ` fst ` set outputs \<longrightarrow> objects' key = ?objects key"
      "\<forall>(name, body, content_type)\<in>set outputs. objects' (?prefix @ name) = Some (body, demo_digest body)"
    by (elim exE conjE) (rule that)
  have manifest: "ds = run_manifest (demo_worker_cloud loads) ''spec'' outputs" using put(2) by (simp add: run_manifest_def)
  let ?text = "cl_dumps (demo_worker_cloud loads) (json_sorted (checksums_payload ds))"
  have last: "objects' (?prefix @ ''checksums.json'') = None"
    using put(3) fresh [of "''checksums.json''"] by (simp add: names)
  have "map adg_name ds = ''run-spec.json'' # map fst outputs" unfolding put(2) by (auto simp: digest_of_def)
  then have "checksums_create ds = Inr ds"
    unfolding checksums_create_def model_Inr by (auto simp: require_exact_artifacts_def assms(2) REQUIRED_ARTIFACTS_def)
  moreover have "json_finite (checksums_payload ds)" by (simp add: checksums_payload_def list_all_iff)
  moreover have "validate_storage_key (?prefix @ ''checksums.json'') = Inr (?prefix @ ''checksums.json'')"
    by (rule artifact_storage_key [OF demo_uuid]) simp
  from demo_put [where objects = objects' and content_type = "''application/json''" and lifecycle = ?lifecycle and items = items, OF this last]
  obtain s where "object_put (demo_worker_cloud loads) (?prefix @ ''checksums.json'') ?text ''application/json'' ?lifecycle (objects', items) =
      (Inr s, (objects'(?prefix @ ''checksums.json'' \<mapsto> (?text, demo_digest ?text)), items))"
    by auto
  ultimately have "publish_outputs (demo_worker_cloud loads) (sorted_spec demo_spec) ''spec'' outputs (?objects, items) =
      (Inr ds, (objects'(?prefix @ ''checksums.json'' \<mapsto> (?text, demo_digest ?text)), items))"
    using put(1) by (simp add: publish_outputs_def spec demo_artifact_digest REQUIRED_ARTIFACTS_def Let_def sbind_def canonical_json_bytes_def)
  moreover have "fst x \<noteq> ''checksums.json''" if "x \<in> set outputs" for x
  proof -
    from that have "fst x \<in> fst ` set outputs" by simp
    then show ?thesis unfolding names by auto
  qed
  then have "bytes_kept demo_view (demo_worker_cloud loads) (objects'(?prefix @ ''checksums.json'' \<mapsto> (?text, demo_digest ?text)), items)
      ?prefix (written_bodies (demo_worker_cloud loads) ds outputs)"
    using put(4) by (fastforce simp: bytes_kept_def written_bodies_def demo_view_def)
  ultimately show ?thesis unfolding manifest by blast
qed

lemma demo_spec_created: "run_spec_create demo_research demo_dataset demo_image 1600000000000000 demo_run_id 600 = Inr demo_spec"
proof -
  obtain spec where spec: "run_spec_create demo_research demo_dataset demo_image 1600000000000000 demo_run_id 600 = Inr spec"
    using run_spec_create_iff [of demo_research demo_dataset demo_image 1600000000000000 demo_run_id 600] demo_uuid demo_image_ok by auto
  with run_spec_create_Inr(6) [OF spec] show ?thesis by (simp add: demo_spec_def)
qed

lemma demo_spec_read:
  "read_run_spec (demo_worker_cloud loads) (wk_parse_json demo_workshop) (run_prefix demo_run_id @ ''run-spec.json'') demo_worker_world =
    (Inr (sorted_spec demo_spec, ''spec''), demo_worker_world)"
proof -
  let ?c = "demo_worker_cloud loads" and ?key = "run_prefix demo_run_id @ ''run-spec.json''"
  have spec_text: "spec_text ?c demo_spec = ''spec''"
    by (simp add: spec_text_def demo_worker_cloud_def run_spec_payload_def del: json_sorted.simps)
  have key: "rsp_run_spec_key demo_spec = ?key" by (simp add: demo_spec_def)
  have "utc_ok (cl_fmt ?c)" by (simp add: demo_worker_fields demo_utc_ok)
  from admit_published_spec [where c = ?c and parse_json = "wk_parse_json demo_workshop", OF this demo_research_ok demo_dataset_ok demo_spec_created]
  have "admit_run_spec ?c (wk_parse_json demo_workshop) ?key ''spec'' = Inr (sorted_spec demo_spec)"
    unfolding spec_text key by (simp add: demo_workshop_def demo_worker_fields spec_agrees_def demo_spec_def demo_research_def demo_dataset_def)
  moreover have "store_get demo_digest demo_client ?key MAXIMUM_RUN_SPEC_BYTES demo_worker_world = (Inr ''spec'', demo_worker_world)"
    unfolding demo_worker_world_def
  proof (rule demo_get)
    show "[?key \<mapsto> (''spec'', demo_digest ''spec''), ''datasets/v1/a.parquet'' \<mapsto> (''data'', demo_digest ''data'')] ?key =
        Some (''spec'', demo_digest ''spec'')" by (simp add: run_prefix_def)
    show "validate_storage_key ?key = Inr ?key" using run_storage_key [OF demo_uuid, of "''run-spec.json''"] by (simp add: is_control_def)
  qed (simp add: MAXIMUM_RUN_SPEC_BYTES_def)
  ultimately show ?thesis
    by (simp add: read_run_spec_def admit_run_spec_key_ok [OF demo_uuid] object_get_def demo_worker_fields on_error_def sbind_def)
qed

lemma demo_data_read:
  "object_get (demo_worker_cloud loads) (dsr_key (rsp_dataset (sorted_spec demo_spec))) MAXIMUM_DATASET_BYTES (fst demo_worker_world, items) =
    (Inr ''data'', (fst demo_worker_world, items))"
proof -
  have key: "dsr_key (rsp_dataset (sorted_spec demo_spec)) = ''datasets/v1/a.parquet''"
    by (simp add: sorted_spec_def demo_spec_def demo_dataset_def)
  have "validate_storage_key ''datasets/v1/a.parquet'' = Inr ''datasets/v1/a.parquet''" by code_simp
  moreover have "fst demo_worker_world ''datasets/v1/a.parquet'' = Some (''data'', demo_digest ''data'')" by (simp add: demo_worker_world_def)
  ultimately show ?thesis
    unfolding key object_get_def demo_worker_fields by (intro demo_get) (simp_all add: MAXIMUM_DATASET_BYTES_def)
qed

lemma demo_marked:
  "\<exists>items. mark_running demo_utc (demo_table JInt) demo_run_id 1600000001000000 demo_worker_world = (Inr (), (fst demo_worker_world, items))"
proof -
  have "dict_get (record_item demo_utc demo_record) ''status'' = Some (JStr ''PENDING'')"
    by (simp add: record_item_member) (simp add: demo_record_def)
  then show ?thesis
    by (simp add: mark_running_def update_run_def run_key_def validate_uuid_def demo_uuid on_error_def demo_table_def demo_write_def demo_worker_world_def)
qed

lemma demo_worker_world_valid: "table_valid demo_utc (cv_items demo_view demo_worker_world)"
proof -
  have "cv_items demo_view demo_worker_world = cv_items demo_view demo_table_world"
    by (simp add: demo_view_def demo_worker_world_def demo_table_world_def)
  with demo_table_valid show ?thesis by simp
qed

lemma result_document_finite:
  assumes "isfinite (res_initial_capital result)"
  shows "json_finite (result_document fmt number spec result metrics completed)"
  using assms by (cases "res_initial_capital result")
    (auto simp: result_document_def worker_summary_def list_all_iff json_metric_def split: xfloat.splits)

lemma demo_executed:
  "\<exists>loads manifest w' outputs result metrics. execute_run (demo_worker_cloud loads) demo_workshop (Inr 1600000001000000) (Inr 1600000002000000)
      (run_prefix demo_run_id @ ''run-spec.json'') demo_worker_world = (Inr manifest, w') \<and>
    run_backtest demo_workshop (sorted_spec demo_spec) ''data'' = Inr result \<and> compute_all_metrics result = Inr metrics \<and>
    run_outputs (demo_worker_cloud loads) demo_workshop (Inr 1600000002000000) (sorted_spec demo_spec) result = Inr outputs \<and>
    bytes_kept demo_view (demo_worker_cloud loads) w' (run_prefix demo_run_id) (written_bodies (demo_worker_cloud loads) manifest outputs) \<and>
    text_read (demo_worker_cloud loads) (checksums_payload manifest) \<and>
    text_read (demo_worker_cloud loads) (result_document demo_utc FloatParam (sorted_spec demo_spec) result metrics 1600000002000000) \<and>
    distinct (map fst (res_parameters result))"
proof -
  from demo_backtest obtain result where result: "run_backtest demo_workshop (sorted_spec demo_spec) ''data'' = Inr result"
      "\<not> cagr_fails (res_equity_curve result)" "res_initial_capital result = Fin 100000" "map fst (res_parameters result) = [''lookback'']"
    by (elim exE conjE) (rule that)
  obtain metrics where metrics: "compute_all_metrics result = Inr metrics" using compute_all_metrics_returns [OF result(2)] by blast
  let ?doc = "result_document demo_utc FloatParam (sorted_spec demo_spec) result metrics 1600000002000000"
  let ?outputs = "[(''result.json'', ''result'', ''application/json''), (''trades.parquet'', ''trades'', ''application/vnd.apache.parquet''),
    (''equity-curve.parquet'', ''equity'', ''application/vnd.apache.parquet''), (''report.html'', ''report'', ''text/html; charset=utf-8'')]"
  let ?manifest = "run_manifest (demo_worker_cloud (\<lambda>_. Inr JNull)) ''spec'' ?outputs"
  let ?loads = "\<lambda>s. if s = ''manifest'' then Inr (json_sorted (checksums_payload ?manifest)) else Inr (json_sorted ?doc)"
  let ?c = "demo_worker_cloud ?loads"
  have doc: "json_finite ?doc" using result(3) by (intro result_document_finite) simp
  have keys: "''dataset'' \<notin> jkeys ?doc" "''artifacts'' \<notin> jkeys ?doc" "''dataset'' \<notin> jkeys (checksums_payload m)"
    "''artifacts'' \<in> jkeys (checksums_payload m)" for m
    by (simp_all add: result_document_def worker_summary_def checksums_payload_def)
  then have dumps: "cl_dumps ?c (json_sorted ?doc) = ''result''" "cl_dumps ?c (json_sorted (checksums_payload m)) = ''manifest''" for m
    by (simp_all add: demo_worker_cloud_def)
  have texts: "text_read ?c (checksums_payload ?manifest)" "text_read ?c ?doc"
    unfolding text_read_def dumps by (simp_all add: demo_worker_cloud_def)
  have outputs: "run_outputs ?c demo_workshop (Inr 1600000002000000) (sorted_spec demo_spec) result = Inr ?outputs"
    proof -
    have "wk_number demo_workshop = FloatParam" "wk_trades_parquet demo_workshop = (\<lambda>_. Inr ''trades'')"
      "wk_equity_parquet demo_workshop = (\<lambda>_. Inr ''equity'')" "wk_report demo_workshop = (\<lambda>_ _ _. Inr ''report'')"
      by (simp_all add: demo_workshop_def)
    moreover have "canonical_json_bytes ?c ?doc = Inr ''result''" using doc dumps(1) by (simp only: canonical_json_bytes_def if_True)
    ultimately show ?thesis by (simp add: run_outputs_def lift_error_def metrics demo_worker_fields del: json_sorted.simps)
  qed
  have same: "run_manifest ?c ''spec'' ?outputs = ?manifest"
    unfolding run_manifest_def digest_of_def demo_worker_fields by (rule refl)
  obtain items where mark: "mark_running demo_utc (demo_table JInt) demo_run_id 1600000001000000 demo_worker_world = (Inr (), (fst demo_worker_world, items))"
    using demo_marked by blast
  have "\<forall>(name, body, content_type)\<in>set ?outputs. content_type \<noteq> []" by simp
  from demo_run_published [OF this, of ?loads items] same obtain objects where
    publish: "publish_outputs ?c (sorted_spec demo_spec) ''spec'' ?outputs (fst demo_worker_world, items) = (Inr ?manifest, (objects, items))"
      "bytes_kept demo_view ?c (objects, items) (run_prefix demo_run_id) (written_bodies ?c ?manifest ?outputs)" by auto
  have digest: "demo_digest ''data'' = dsr_sha256 (rsp_dataset (sorted_spec demo_spec))"
    by (simp add: sorted_spec_def demo_spec_def demo_dataset_def) code_simp
  have id: "rsp_run_id (sorted_spec demo_spec) = demo_run_id" by (simp add: sorted_spec_def demo_spec_def)
  have "execute_run ?c demo_workshop (Inr 1600000001000000) (Inr 1600000002000000) (run_prefix demo_run_id @ ''run-spec.json'') demo_worker_world =
      (Inr ?manifest, (objects, items))"
    unfolding execute_run_def
    by (simp add: demo_spec_read sbind_def demo_worker_fields id mark demo_data_read digest result(1) outputs publish(1))
  with result(1,4) metrics outputs publish(2) texts show ?thesis
    by (intro exI [of _ ?loads] exI [of _ ?manifest] exI [of _ "(objects, items)"] exI [of _ ?outputs] exI [of _ result] exI [of _ metrics] conjI) simp_all
qed

lemma demo_admitted_spec:
  assumes "admit_run_spec (demo_worker_cloud loads) (wk_parse_json demo_workshop) key body = Inr spec"
  shows "spec = sorted_spec demo_spec"
proof -
  note valid = sorted_run_spec_valid [OF demo_utc_ok demo_research_ok demo_dataset_ok demo_spec_created]
  have parse: "wk_parse_json demo_workshop body = Inr (json_sorted (run_spec_payload demo_utc demo_spec))" by (simp add: demo_workshop_def)
  from assms show ?thesis
    by (simp add: admit_run_spec_def parse demo_worker_fields valid result_simps split: if_splits)
qed


end
