(* ===== verification/Spec2Isabelle.thy ===== *)
theory Spec2Isabelle
  imports Permutation_Test Job_Store Adjustments Acquire Run_Worker
begin

text \<open>
  \<^bold>\<open>Verification of the algorithmic backtesting system.\<close>

  The program has a market-data side and a research side. The market-data side
  (\<open>src/src/data\<close>) admits a request, plans which exchange sessions have to be fetched, fetches
  them from the providers with retries, normalises and validates the rows, merges them with the
  cached frame, and hands out a canonical frame that \<open>df_to_candles\<close> turns into candles. The
  research side (\<open>src/src/models\<close>, \<open>engine\<close>, \<open>strategies\<close>, \<open>analytics\<close>) runs a strategy over the
  candles bar by bar, books the fills in a portfolio, computes metrics, and repeats runs for the
  walk-forward analysis and the permutation test. \<open>src/src/api/jobs.py\<close> keeps the results of
  background jobs. The cloud workflow (\<open>src/src/cloud\<close>) runs a backtest as a job: a request and a
  dataset are prepared as an immutable specification, a worker executes it on the engine and
  publishes its artifacts, the finalization verifies them and settles the run's record, and the results
  of public runs are served over HTTP.

  \<^bold>\<open>Theories and sources.\<close>
  \<^item> \<open>Py_Prelude\<close>: exceptions as values, floats with their non-finite values, ordered
    dictionaries with the interface \<open>ordered_dict\<close>, date-times.
  \<^item> \<open>Market_Models\<close> (\<open>models/candle.py\<close>, \<open>order.py\<close>, \<open>trade.py\<close>, \<open>engine/event.py\<close>): the dataclasses
    with their \<open>__post_init__\<close> checks.
  \<^item> \<open>Portfolio\<close> (\<open>models/portfolio.py\<close>): \<open>record_fill\<close>, \<open>accrue_short_borrow\<close>, \<open>update\<close>, \<open>reset\<close> as
    functions on the record \<open>portfolio\<close>; \<open>pf_run\<close> is the set of states that they reach. Shown: the
    invariant behind every dictionary access, the accounting identity, buying power, the round
    trip of a position, the recorded drawdowns.
  \<^item> \<open>Broker\<close> (\<open>engine/broker.py\<close>), \<open>Position_Sizer\<close> (\<open>engine/position_sizer.py\<close>), \<open>Strategies\<close>
    (\<open>engine/context.py\<close>, \<open>strategies/\<close>): the collaborators of the engine, each with the interface
    the engine relies on (\<open>fill_source\<close>, \<open>position_sizer\<close>, \<open>signal_source\<close>, \<open>strategy\<close>) and its
    interpretation on every shipped class. Shown: price protection, bounds on sizes, and the
    equality of each incremental indicator with its definition on the whole history.
  \<^item> \<open>Backtest_Engine\<close> (\<open>engine/backtest.py\<close>): the event queue, the handlers and the run. Shown:
    runs return, the future does not influence the past, orders fill on later bars and are settled
    exactly once, margin calls are covered on the next bar, the accounts balance.
  \<^item> \<open>Metrics\<close>, \<open>Walk_Forward\<close>, \<open>Permutation_Test\<close> (\<open>analytics/\<close>): the metrics against their
    references, termination and the windows of the analysis, the permutation statistics and their
    independence of the process pool.
  \<^item> \<open>Job_Store\<close> (\<open>api/jobs.py\<close>): refinement of the map from identifiers to the job last set.
  \<^item> \<open>Data_Contracts\<close> (\<open>data/contracts.py\<close>), \<open>Retry\<close> (\<open>data/retry.py\<close>), \<open>Calendars\<close>
    (\<open>data/calendars.py\<close>), \<open>Normalization\<close> (\<open>data/normalization.py\<close>), \<open>Quality\<close>
    (\<open>data/quality.py\<close>), \<open>Adjustments\<close> (\<open>data/adjustments.py\<close>): admission of requests, the retry
    contract for every behaviour of the injected callables, gaps as maximal runs, the accounting
    for every provider row, and when exactly a range and a complete request are accepted.
  \<^item> \<open>Acquisition\<close> (\<open>data/acquisition.py\<close>): which sessions are planned, what a fetched range
    satisfies, what a merge keeps, and the lineage of the result.
  \<^item> \<open>Candle_Frames\<close> (\<open>data/__init__.py\<close>): which frames convert to candles.
  \<^item> \<open>Store_Artifacts\<close> (\<open>data/store_artifacts.py\<close>, and the frame helpers and the rebase step of
    \<open>publish_generation\<close> in \<open>data/store.py\<close>): the store's contract equals that of the quality
    evaluation, and a rebased publication keeps the rows and the lineage it meets.
  \<^item> \<open>Documents\<close> (\<open>data/contracts.py\<close>: the manifest and \<open>json_safe\<close>; the parsers of
    \<open>store_artifacts.py\<close> and \<open>acquisition.py\<close>): documents as JSON values. Shown: a lineage survives its
    document.
  \<^item> \<open>Files\<close>: file systems as maps from paths to nodes, and computations on them in which every
    writing call may fail.
  \<^item> \<open>Manifest_Repository\<close> (\<open>data/manifest.py\<close>): the archive of reports is append-only.
  \<^item> \<open>Data_Store\<close> (\<open>data/store.py\<close>): all operations on cache generations. \<open>Publication\<close> shows that
    reading is fail-closed and that publication is atomic for every failure and goes through when
    nothing fails; \<open>Store_Maintenance\<close> that cleanup keeps what is in use and that the report of a
    committed generation can be looked up.
  \<^item> \<open>Acquire\<close> (\<open>data/acquisition.py\<close>, \<open>acquire\<close>): a whole acquisition over store and archive. Shown:
    what it returns is complete and is what the cache then holds; a failure leaves its report.
  \<^item> \<open>Cloud_Contracts\<close> (\<open>cloud/contracts.py\<close>): the contracts of requests, datasets, specifications,
    checksums and records, with what pydantic collects and what passes through it. Shown: a specification
    survives its canonical document.
  \<^item> \<open>Cloud_Storage\<close> (\<open>cloud/storage.py\<close>): the object store and the run repository over the clients of S3
    and DynamoDB; the records of runs as a state machine. Shown: objects are immutable, and a run's
    record only moves forward, for any interleaving of processes (\<open>evolves\<close>).
  \<^item> \<open>Finalization\<close> (\<open>cloud/finalize_handler.py\<close>), \<open>Public_Results\<close> (\<open>cloud/results_handler.py\<close>),
    \<open>Run_Preparation\<close> (\<open>cloud/prepare_handler.py\<close>, and the worker's admission), \<open>Run_Worker\<close>
    (\<open>cloud/worker.py\<close>): the handlers, sharing the record \<open>cloud\<close> of services. Shown: what is
    prepared is admitted by the worker, what the worker publishes passes the finalization, a success
    is settled only over verified artifacts, only public successes are served; and with the
    numbers that \<open>boto3\<close> returns nothing is finalized or served.
  \<^item> This theory: the composition of an acquisition and the engine, and of portfolio and metrics.

  \<^bold>\<open>Conventions.\<close> A finite float is an exact real: rounding is not modelled, NaN and the infinities
  are (\<open>xfloat\<close>). A \<open>datetime\<close> is its number of microseconds, a \<open>date\<close> its number of days. A raise
  is an \<open>Inl\<close>, and every raising branch of the source is one of the model. Dictionaries keep
  their insertion order. Log records are left out, except the lifecycle events of orders, which
  the engine's state keeps as a list.

  \<^bold>\<open>Parameters.\<close> Code outside the repository is an argument: \<open>pandas\<close>' timestamps, the exchange
  schedule, the digest, the text of a float or a frame, the random generators, the process pool,
  the clock and the sleeper, the provider adapters, the text of dates and times, which calls of
  the file system fail, what other publishers do to the cache directory (the store's conflict
  probe), the clients of S3 and DynamoDB, the printer and the parser of JSON, Parquet and the HTML report. So is the redaction of free text. What a statement needs of them is among its
  assumptions: \<open>cloud_ok\<close> says that the object client stores an object only under a free key and reads back
  what was stored, that the table client writes an item exactly if its condition holds, each while other processes take any
  steps of their own, and that UTC texts are inverted by their parser; \<open>publication_setting\<close> says that iso texts are inverted by their parser, that digests
  have the form of digests, and that the redaction leaves identifiers alone.

  \<^bold>\<open>Termination.\<close> Every loop is a total function except the walk-forward window loop, a partial
  function: it returns for every positive step, and gives no result for a step of zero. The
  event queue drains because every handler replaces its event by one of a later stage. No fuel
  is used.

  \<^bold>\<open>Not modelled.\<close> The legacy exact-range cache (\<open>DataStore.get\<close>, \<open>save\<close>, \<open>fetch_or_cache\<close>); the
  network clients (\<open>data/providers\<close>, \<open>fetcher.py\<close>, \<open>wiring.py\<close>); the command line and the benchmark
  (\<open>data/cli.py\<close>, \<open>data/benchmark.py\<close>); the HTTP routes and schemas (\<open>api\<close> but for the job store);
  the ingestion Lambda (\<open>cloud/ingestion_handler.py\<close>) and the environment variables of the others; the database (\<open>db\<close>) and the SQL analytics (\<open>analytics/sql_*\<close>); logging
  (\<open>observability.py\<close>); the dashboard and the HTML report. They are network, database or
  presentation code around the components above. Of the file system, permissions, hard links
  beyond \<open>os.link\<close>, and the loss of data that was written but not synced are not modelled.
\<close>

section \<open>The recorded equity curve\<close>

lemma first_bar_equity:
  assumes "initial_state cfg rid rq z s = Inr st0" and "process_bar env cfg (0, c) st0 = Inr st1"
  shows "map ep_equity (pf_equity_curve (rs_portfolio st1)) = [pf_initial_capital (rs_portfolio st0)]"
proof -
  note p0 = portfolio_init_eq [OF initial_state_eq(1) [OF assms(1)]]
  from assms(1) have "rs_pending st0 = None" by (auto simp: initial_state_def result_simps)
  with assms(2) have "rs_portfolio st1 = rs_portfolio (mark_phase c st0)"
    by (auto elim!: process_barE simp: accrue_phase_def execute_phase_def margin_phase_portfolio
        dest!: drain_market_portfolio(1))
  then show ?thesis
    using p0 by (simp add: mark_phase_def update_prices_def equity_def Let_def)
qed

lemma run_bars_curve:
  assumes "run_bars env s cs cfg rid rq z = Inr st"
  shows "map ep_date (pf_equity_curve (rs_portfolio st)) = map c_timestamp cs"
    and "Fin (ep_equity (hd (pf_equity_curve (rs_portfolio st)))) = cfg_initial_capital cfg"
    and "0 < ep_equity (hd (pf_equity_curve (rs_portfolio st)))"
    and "map ep_drawdown_pct (pf_equity_curve (rs_portfolio st)) =
      drawdowns (ep_equity (hd (pf_equity_curve (rs_portfolio st)))) (map ep_equity (pf_equity_curve (rs_portfolio st)))"
proof -
  from assms obtain st0 where st0: "cs \<noteq> []" "initial_state cfg rid rq z s = Inr st0"
      "rfold (process_bar env cfg) (enumerate 0 cs) st0 = Inr st"
    by (rule run_barsE)
  note init = initial_state_eq(1) [OF st0(2)] and p0 = portfolio_init_eq [OF initial_state_eq(1) [OF st0(2)]]
  show "map ep_date (pf_equity_curve (rs_portfolio st)) = map c_timestamp cs"
    using bars_portfolio [OF st0(3)] p0(5) by auto
  obtain c rest where cs: "cs = c # rest" using st0(1) by (cases cs) auto
  with st0(3) obtain st1 where st1: "process_bar env cfg (0, c) st0 = Inr st1"
      "rfold (process_bar env cfg) (enumerate 1 rest) st1 = Inr st"
    by (auto simp: enumerate_simps result_simps)
  obtain pts where "pf_equity_curve (rs_portfolio st) = pf_equity_curve (rs_portfolio st1) @ pts"
    using bars_portfolio [OF st1(2)] by blast
  with first_bar_equity [OF st0(2) st1(1)]
  have first: "ep_equity (hd (pf_equity_curve (rs_portfolio st))) = pf_initial_capital (rs_portfolio st0)"
    by (cases "pf_equity_curve (rs_portfolio st1)") auto
  with p0(10,11) show "Fin (ep_equity (hd (pf_equity_curve (rs_portfolio st)))) = cfg_initial_capital cfg"
    and "0 < ep_equity (hd (pf_equity_curve (rs_portfolio st)))"
    by simp_all
  obtain fees where run: "pf_run (rs_portfolio st0) fees (rs_portfolio st)"
    using bars_portfolio [OF st0(3)] by blast
  have "curve_ok (rs_portfolio st)"
    using run init by (blast intro: pf_run_curve_ok portfolio_init_curve_ok)
  with first pf_run_settings [OF run] show "map ep_drawdown_pct (pf_equity_curve (rs_portfolio st)) =
      drawdowns (ep_equity (hd (pf_equity_curve (rs_portfolio st)))) (map ep_equity (pf_equity_curve (rs_portfolio st)))"
    by (simp add: curve_ok_def)
qed

text \<open>The maximum drawdown that the metrics report for a run is the smallest drawdown that the
  portfolio recorded while the run was going on: the two modules compute the peak in different
  ways, the one from the first equity of the curve, the other from the initial capital.\<close>

theorem reported_drawdown_is_recorded:
  assumes "engine_run env s cs cfg rid rq z = Inr (res, st)"
  shows "res_equity_curve res \<noteq> [] \<and>
    max_drawdown (res_equity_curve res) = Min (set (map ep_drawdown_pct (res_equity_curve res)))"
proof -
  from assms obtain st1 where st1: "run_bars env s cs cfg rid rq z = Inr st1"
      "res_equity_curve res = pf_equity_curve (rs_portfolio st1)"
    by (rule engine_runE)
  note curve = run_bars_curve [OF st1(1), folded st1(2)]
  from st1(1) have "cs \<noteq> []" by (rule run_barsE)
  with curve(1) have ne: "res_equity_curve res \<noteq> []" by auto
  with max_drawdown_Min [OF ne curve(3)] show ?thesis by (simp add: curve(4) del: set_map)
qed

lemma reported_drawdown_is_recorded_witness:
  "\<exists>res st. engine_run demo_env demo_breakout demo_series demo_config [] None 2 = Inr (res, st) \<and>
    max_drawdown (res_equity_curve res) = Min (set (map ep_drawdown_pct (res_equity_curve res)))"
proof -
  obtain res st where run: "engine_run demo_env demo_breakout demo_series demo_config [] None 2 = Inr (res, st)"
    using demo_engine_run by blast
  with reported_drawdown_is_recorded [OF run] show ?thesis by blast
qed

section \<open>From acquired data to a backtest\<close>

lemma sorted_rows_increasing:
  "sorted_wrt (<) (map cr_timestamp rows) \<Longrightarrow> strictly_increasing (map canonical_candle rows)"
proof (induction rows)
  case (Cons r rows)
  then show ?case by (cases rows) (auto simp: canonical_candle_def Let_def)
qed simp

text \<open>A frame that passes the evaluation of a complete request is a valid input of the engine. It
  converts to one candle per row, and a backtest on these candles with a lawful strategy and
  sizer returns a result whose equity curve has exactly the timestamps of the frame.\<close>

lemma published_frame_backtests:
  assumes "evaluate_complete_request redact api frame request expected policy = Inr q" and "qr_frame q = Some rows"
    and "\<And>t. \<exists>zoned. pd (FTime t) = Inr (Some (t, zoned))"
    and "backtest_run env valid sizer_ok" and "config_ok cfg" and "valid s" and "sizer_ok z"
  shows "\<exists>cs res st. df_to_candles pd (canonical_data_frame rows) = Inr cs \<and>
    engine_run env s cs cfg rid rq z = Inr (res, st) \<and>
    map ep_date (res_equity_curve res) = map cr_timestamp rows"
proof -
  note can = published_frame_canonical [OF assms(1,2)]
  have "sorted (map cr_timestamp rows)"
    using can by (simp add: canonical_contract_errors_def Let_def reason_if_def split: if_splits)
  with contract_ok_rows [OF can(2)] can(1)
  have rows: "rows \<noteq> []" "sorted_wrt (<) (map cr_timestamp rows)" "\<And>r. r \<in> set rows \<Longrightarrow> row_valid r"
    by (auto simp: strict_sorted_iff)
  let ?cs = "map canonical_candle rows"
  note conv = canonical_frame_converts [of rows pd, OF rows(3) assms(3)]
  have "strictly_increasing ?cs" using rows(2) by (rule sorted_rows_increasing)
  then obtain st where st: "run_bars env s ?cs cfg rid rq z = Inr st"
    using backtest_run.run_bars_returns [OF assms(4-7) conv(2), of rid rq] rows(1) by auto
  then obtain res st' where run: "engine_run env s ?cs cfg rid rq z = Inr (res, st')"
    by (simp add: engine_run_def Let_def)
  from run_bars_curve [OF st] run have "map ep_date (res_equity_curve res) = map c_timestamp ?cs"
    by (auto elim!: engine_runE simp: st)
  also have "\<dots> = map cr_timestamp rows" by (simp add: canonical_candle_def Let_def o_def)
  finally show ?thesis using conv(1) run by blast
qed

lemma passed_frame: "evaluate_complete_request redact api frame request expected policy = Inr q \<Longrightarrow> qr_severity q \<noteq> FATAL \<Longrightarrow>
    qr_frame q = Some (cf_rows frame)"
  by (auto simp: evaluate_complete_request_def Let_def result_simps split: if_splits)

text \<open>C40: what an acquisition returns can be backtested. The frame of a successful acquisition, from
  the cache or freshly fetched and published, converts to one candle per row, and a run of the
  engine on these candles with a lawful strategy and sizer returns a result whose equity curve has
  exactly the timestamps of the frame.\<close>

theorem acquired_data_backtests:
  assumes acquired: "acquire a request s = (Inr res, s')"
    and "\<And>t. \<exists>zoned. pd (FTime t) = Inr (Some (t, zoned))"
    and "backtest_run env valid sizer_ok" and "config_ok cfg" and "valid strat" and "sizer_ok z"
  shows "\<exists>cs out st. df_to_candles pd (canonical_data_frame (cf_rows (res_frame res))) = Inr cs \<and>
    engine_run env strat cs cfg rid rq z = Inr (out, st) \<and>
    map ep_date (res_equity_curve out) = map cr_timestamp (cf_rows (res_frame res))"
proof -
  from acquire_result_valid [OF acquired] obtain expected q where
      "complete_evaluation a request expected (cf_rows (res_frame res)) = Inr q" "qr_severity q \<noteq> FATAL"
    by (auto simp: result_valid_def)
  then have q: "evaluate_complete_request (as_redact a) (sv_digest (as_service a)) (canonical_of (cf_rows (res_frame res))) request expected
      (Some (sv_quality_policy (as_service a))) = Inr q" "qr_frame q = Some (cf_rows (res_frame res))"
    by (auto simp: complete_evaluation_def canonical_of_def split: sum.splits dest: passed_frame)
  from published_frame_backtests [OF q assms(2-6)] show ?thesis .
qed

lemma acquired_data_backtests_witness:
  "\<exists>res s' cs out st. acquire demo_acquirer demo_parent demo_state = (Inr res, s') \<and>
    df_to_candles demo_timestamp (canonical_data_frame (cf_rows (res_frame res))) = Inr cs \<and>
    engine_run demo_env demo_breakout cs demo_config [] None 2 = Inr (out, st)"
proof -
  obtain res s' where run: "acquire demo_acquirer demo_parent demo_state = (Inr res, s')" using demo_acquired by blast
  have "\<exists>zoned. demo_timestamp (FTime t) = Inr (Some (t, zoned))" for t
    by (intro exI [of _ False]) (simp add: demo_timestamp_def)
  moreover have "(1 :: int) \<le> 2" by simp
  ultimately show ?thesis
    using run acquired_data_backtests [where pd = demo_timestamp and z = 2 and rid = "[]" and rq = None, OF run _
        bo_fq.backtest_run_axioms [of "\<lambda>n. ''00000000''"] demo_config_ok demo_breakout_valid] by blast
qed

end
